(* ===== verification/Prelude.thy ===== *)
theory Prelude
  imports Main "HOL-Library.Char_ord" "HOL-Library.List_Lexorder"
begin

text \<open>
  The shared layer of the development: the parts of Go's standard library that the
  modelled code calls (\<^verbatim>\<open>strings\<close>, \<^verbatim>\<open>strconv\<close>, \<^verbatim>\<open>sort\<close>), the generic lemmas about
  them, and the interfaces that several components provide.

  Strings are lists of bytes (\<^typ>\<open>string\<close>), as Go strings are. Case mapping and
  white-space trimming are those of the ASCII range: a byte above 127 is never a letter,
  a digit or a space here, so the functions agree with Go's on ASCII text. Go's \<^verbatim>\<open>int\<close> is an \<^typ>\<open>int\<close>; where the 64-bit width shows
  (\<open>atoi\<close>) the clamping at the bounds is written out. A \<^verbatim>\<open>time.Time\<close> or a
  \<^verbatim>\<open>time.Duration\<close> is an \<^typ>\<open>int\<close> counting nanoseconds. A result that may fail is a
  value of \<open>'e + 'a\<close>, with \<^term>\<open>Inl\<close> for the error.
\<close>

named_theorems go_string_simps \<open>equations of the string functions\<close>

type_synonym time = int
type_synonym duration = int

abbreviation len :: "'a list \<Rightarrow> int" where "len xs \<equiv> int (length xs)"

abbreviation second :: duration where "second \<equiv> 1000000000"
abbreviation minute :: duration where "minute \<equiv> 60 * second"
abbreviation hour :: duration where "hour \<equiv> 60 * minute"

section \<open>Strings\<close>

definition newline :: char where "newline = CHR 0x0A"
definition carriage_return :: char where "carriage_return = CHR 0x0D"
definition tab :: char where "tab = CHR 0x09"
definition dquote :: char where "dquote = CHR 0x22"
definition squote :: char where "squote = CHR 0x27"
definition backslash :: char where "backslash = CHR 0x5C"

lemmas special_chars = newline_def carriage_return_def tab_def dquote_def squote_def backslash_def

definition is_space :: "char \<Rightarrow> bool" where
  "is_space c \<longleftrightarrow> c = CHR '' '' \<or> c = CHR 0x09 \<or> c = CHR 0x0A \<or> c = CHR 0x0B \<or> c = CHR 0x0C \<or> c = CHR 0x0D"

definition is_digit :: "char \<Rightarrow> bool" where
  "is_digit c \<longleftrightarrow> (48::int) \<le> of_char c \<and> of_char c \<le> (57::int)"

definition is_lower :: "char \<Rightarrow> bool" where
  "is_lower c \<longleftrightarrow> (97::int) \<le> of_char c \<and> of_char c \<le> (122::int)"

definition is_upper :: "char \<Rightarrow> bool" where
  "is_upper c \<longleftrightarrow> (65::int) \<le> of_char c \<and> of_char c \<le> (90::int)"

definition lower_char :: "char \<Rightarrow> char" where
  "lower_char c = (if is_upper c then char_of (of_char c + (32::int)) else c)"

definition to_lower :: "string \<Rightarrow> string" where
  "to_lower s = map lower_char s"

definition equal_fold :: "string \<Rightarrow> string \<Rightarrow> bool" where
  "equal_fold a b \<longleftrightarrow> to_lower a = to_lower b"

definition has_prefix :: "string \<Rightarrow> string \<Rightarrow> bool" where
  "has_prefix s p \<longleftrightarrow> take (length p) s = p"

definition has_suffix :: "string \<Rightarrow> string \<Rightarrow> bool" where
  "has_suffix s p \<longleftrightarrow> take (length p) (rev s) = rev p"

definition trim_prefix :: "string \<Rightarrow> string \<Rightarrow> string" where
  "trim_prefix s p = (if has_prefix s p then drop (length p) s else s)"

definition trim_suffix :: "string \<Rightarrow> string \<Rightarrow> string" where
  "trim_suffix s p = (if has_suffix s p then take (length s - length p) s else s)"

fun contains :: "string \<Rightarrow> string \<Rightarrow> bool" where
  "contains [] sub = (sub = [])"
| "contains (c # cs) sub = (has_prefix (c # cs) sub \<or> contains cs sub)"

definition contains_any :: "string \<Rightarrow> char list \<Rightarrow> bool" where
  "contains_any s chars \<longleftrightarrow> list_ex (\<lambda>c. c \<in> set chars) s"

text \<open>\<^verbatim>\<open>strings.Split\<close> with a separator of one byte; every call in the program has one.\<close>

fun split :: "char \<Rightarrow> string \<Rightarrow> string list" where
  "split sep [] = [[]]"
| "split sep (c # cs) =
     (if c = sep then [] # split sep cs
      else case split sep cs of [] \<Rightarrow> [[c]] | w # ws \<Rightarrow> (c # w) # ws)"

fun join :: "string \<Rightarrow> string list \<Rightarrow> string" where
  "join sep [] = []"
| "join sep [x] = x"
| "join sep (x # y # zs) = x @ sep @ join sep (y # zs)"

text \<open>\<^verbatim>\<open>strings.Cut\<close> at a separator of one byte: the text before and after its first occurrence.\<close>

definition cut :: "char \<Rightarrow> string \<Rightarrow> (string \<times> string) option" where
  "cut sep s = (case dropWhile (\<lambda>c. c \<noteq> sep) s of
      [] \<Rightarrow> None
    | _ # rest \<Rightarrow> Some (takeWhile (\<lambda>c. c \<noteq> sep) s, rest))"

definition trim_by :: "(char \<Rightarrow> bool) \<Rightarrow> string \<Rightarrow> string" where
  "trim_by p s = rev (dropWhile p (rev (dropWhile p s)))"

definition trim_space :: "string \<Rightarrow> string" where
  "trim_space s = trim_by is_space s"

definition trim_right :: "char list \<Rightarrow> string \<Rightarrow> string" where
  "trim_right cutset s = rev (dropWhile (\<lambda>c. c \<in> set cutset) (rev s))"

text \<open>\<^verbatim>\<open>strings.ReplaceAll(s, "\r\n", "\n")\<close>.\<close>

fun crlf_to_lf :: "string \<Rightarrow> string" where
  "crlf_to_lf [] = []"
| "crlf_to_lf [c] = [c]"
| "crlf_to_lf (c # d # cs) =
     (if c = carriage_return \<and> d = newline then newline # crlf_to_lf cs
      else c # crlf_to_lf (d # cs))"

text \<open>\<^verbatim>\<open>strings.FieldsFunc\<close> and \<^verbatim>\<open>strings.Fields\<close>: the maximal runs of bytes outside the separators.\<close>

fun fields_func :: "(char \<Rightarrow> bool) \<Rightarrow> string \<Rightarrow> string list" where
  "fields_func p [] = []"
| "fields_func p (c # cs) =
     (if p c then fields_func p cs
      else case cs of
          [] \<Rightarrow> [[c]]
        | d # _ \<Rightarrow>
            (if p d then [c] # fields_func p cs
             else case fields_func p cs of [] \<Rightarrow> [[c]] | w # ws \<Rightarrow> (c # w) # ws))"

definition go_fields :: "string \<Rightarrow> string list" where
  "go_fields s = fields_func is_space s"

section \<open>Numbers and text\<close>

definition int64_max :: int where "int64_max = 9223372036854775807"
definition int64_min :: int where "int64_min = - 9223372036854775808"

definition digit_value :: "char \<Rightarrow> int" where
  "digit_value c = of_char c - 48"

definition decimal :: "string \<Rightarrow> int" where
  "decimal ds = foldl (\<lambda>n c. 10 * n + digit_value c) 0 ds"

datatype atoi_error = ErrSyntax | ErrRange

text \<open>
  \<^verbatim>\<open>strconv.Atoi\<close> on a 64-bit platform: the value, which the caller may use even when there
  is an error, and the error. A syntax error gives 0, a range error the nearest bound.
\<close>

definition atoi :: "string \<Rightarrow> int \<times> atoi_error option" where
  "atoi s =
     (let neg = (case s of c # _ \<Rightarrow> c = CHR ''-'' | [] \<Rightarrow> False);
          ds = (case s of c # cs \<Rightarrow> if c = CHR ''-'' \<or> c = CHR ''+'' then cs else s | [] \<Rightarrow> [])
      in if ds = [] \<or> \<not> list_all is_digit ds then (0, Some ErrSyntax)
         else let n = (if neg then - decimal ds else decimal ds)
              in if n > int64_max then (int64_max, Some ErrRange)
                 else if n < int64_min then (int64_min, Some ErrRange)
                 else (n, None))"

definition digit_char :: "int \<Rightarrow> char" where
  "digit_char d = ''0123456789'' ! nat d"

function itoa_digits :: "int \<Rightarrow> string" where
  "itoa_digits n = (if n < 10 then [digit_char n] else itoa_digits (n div 10) @ [digit_char (n mod 10)])"
  by pat_completeness auto
termination
  by (relation "measure nat") auto

declare itoa_digits.simps [simp del]

text \<open>\<^verbatim>\<open>strconv.Itoa\<close>.\<close>

definition itoa :: "int \<Rightarrow> string" where
  "itoa i = (if i < 0 then CHR ''-'' # itoa_digits (- i) else itoa_digits i)"

section \<open>Loops\<close>

text \<open>
  The body of a \<^verbatim>\<open>for\<close> loop that may return an error early, threading a state: the loop stops
  at the first error.
\<close>

fun fold_result :: "('s \<Rightarrow> 'a \<Rightarrow> 'e + 's) \<Rightarrow> 's \<Rightarrow> 'a list \<Rightarrow> 'e + 's" where
  "fold_result f s [] = Inr s"
| "fold_result f s (x # xs) = (case f s x of Inl e \<Rightarrow> Inl e | Inr s' \<Rightarrow> fold_result f s' xs)"

text \<open>A loop that only checks: the first error, or \<^term>\<open>None\<close>.\<close>

fun first_error :: "('a \<Rightarrow> 'e option) \<Rightarrow> 'a list \<Rightarrow> 'e option" where
  "first_error f [] = None"
| "first_error f (x # xs) = (case f x of Some e \<Rightarrow> Some e | None \<Rightarrow> first_error f xs)"

text \<open>
  The loop that keeps the first occurrence of every value, skipping the values a test rejects:
  the \<^verbatim>\<open>seen\<close> map of the source is the list of the values met so far.
\<close>

fun unique_loop :: "('a \<Rightarrow> bool) \<Rightarrow> 'a list \<Rightarrow> 'a list \<Rightarrow> 'a list" where
  "unique_loop skip seen [] = []"
| "unique_loop skip seen (x # xs) =
     (if skip x \<or> x \<in> set seen then unique_loop skip seen xs
      else x # unique_loop skip (x # seen) xs)"

text \<open>
  \<^verbatim>\<open>sort.SliceStable\<close> with a \<^verbatim>\<open>less\<close> function: a stable insertion sort. \<^verbatim>\<open>sort.Slice\<close> gives one of
  the results that agree with this one up to the order of elements that are not ordered by
  \<^verbatim>\<open>less\<close>.
\<close>

fun insert_by :: "('a \<Rightarrow> 'a \<Rightarrow> bool) \<Rightarrow> 'a \<Rightarrow> 'a list \<Rightarrow> 'a list" where
  "insert_by lt x [] = [x]"
| "insert_by lt x (y # ys) = (if lt y x then y # insert_by lt x ys else x # y # ys)"

definition sort_by :: "('a \<Rightarrow> 'a \<Rightarrow> bool) \<Rightarrow> 'a list \<Rightarrow> 'a list" where
  "sort_by lt xs = foldr (insert_by lt) xs []"

section \<open>Lemmas about strings\<close>

lemma has_prefix_iff: "has_prefix s p \<longleftrightarrow> (\<exists>t. s = p @ t)"
  unfolding has_prefix_def by (metis append_take_drop_id append_eq_conv_conj)

lemma has_prefix_append [simp]: "has_prefix (p @ t) p"
  by (auto simp: has_prefix_iff)

lemma has_suffix_iff: "has_suffix s p \<longleftrightarrow> (\<exists>t. s = t @ p)"
proof -
  have "has_suffix s p \<longleftrightarrow> (\<exists>t. rev s = rev p @ t)"
    using has_prefix_iff [of "rev s" "rev p"] by (simp add: has_suffix_def has_prefix_def)
  also have "\<dots> \<longleftrightarrow> (\<exists>t. s = t @ p)"
    by (metis rev_append rev_rev_ident)
  finally show ?thesis .
qed

lemma contains_iff: "contains s sub \<longleftrightarrow> (\<exists>a b. s = a @ sub @ b)"
proof (induction s)
  case Nil
  then show ?case by auto
next
  case (Cons c cs)
  have "(\<exists>a b. c # cs = a @ sub @ b) \<longleftrightarrow> (\<exists>t. c # cs = sub @ t) \<or> (\<exists>a b. cs = a @ sub @ b)"
    by (auto simp: Cons_eq_append_conv)
  then show ?case using Cons.IH by (simp add: has_prefix_iff)
qed

lemma contains_any_iff: "contains_any s chars \<longleftrightarrow> set s \<inter> set chars \<noteq> {}"
  by (auto simp: contains_any_def list_ex_iff)

lemma split_not_Nil [simp]: "split sep s \<noteq> []"
  by (induction s) (auto split: list.splits)

lemma split_no_sep: "w \<in> set (split sep s) \<Longrightarrow> sep \<notin> set w"
  by (induction s arbitrary: w) (auto split: if_splits list.splits)

lemma set_split: "w \<in> set (split sep s) \<Longrightarrow> set w \<subseteq> set s"
proof (induction s arbitrary: w)
  case (Cons c cs)
  then show ?case
    by (cases "split sep cs") (fastforce split: if_splits)+
qed auto

lemma join_Cons: "xs \<noteq> [] \<Longrightarrow> join sep (x # xs) = x @ sep @ join sep xs"
  by (cases xs) auto

lemma join_split [simp]: "join [sep] (split sep s) = s"
proof (induction s)
  case (Cons c cs)
  obtain w ws where ws: "split sep cs = w # ws" by (cases "split sep cs") auto
  with Cons show ?case by (cases ws) auto
qed auto

lemma split_append_no_sep:
  "sep \<notin> set w \<Longrightarrow> split sep (w @ sep # s) = w # split sep s"
  by (induction w) auto

lemma split_append: "split sep (x @ sep # s) = split sep x @ split sep s"
proof (induction x)
  case (Cons c cs)
  then show ?case by (cases "split sep cs") auto
qed simp

lemma split_no_sep_id: "sep \<notin> set w \<Longrightarrow> split sep w = [w]"
  by (induction w) auto

lemma split_join:
  "xs \<noteq> [] \<Longrightarrow> (\<And>w. w \<in> set xs \<Longrightarrow> sep \<notin> set w) \<Longrightarrow> split sep (join [sep] xs) = xs"
proof (induction xs rule: induct_list012)
  case (3 x y zs)
  then show ?case by (simp add: split_append_no_sep)
qed (auto simp: split_no_sep_id)

lemma trim_by_Nil [simp]: "trim_by p [] = []"
  by (simp add: trim_by_def)

lemma set_trim_by: "set (trim_by p s) \<subseteq> set s"
  unfolding trim_by_def by (auto dest!: set_dropWhileD)

lemma set_trim_space: "set (trim_space s) \<subseteq> set s"
  by (simp add: trim_space_def set_trim_by)

lemma dropWhile_rev_dropWhile:
  "dropWhile p (rev (dropWhile p (rev (dropWhile p s)))) = rev (dropWhile p (rev (dropWhile p s)))"
proof (cases "rev (dropWhile p (rev (dropWhile p s)))")
  case (Cons c cs)
  have "\<exists>t. dropWhile p s = rev (dropWhile p (rev (dropWhile p s))) @ t"
    by (metis rev_append rev_rev_ident takeWhile_dropWhile_id)
  with Cons obtain t where t: "dropWhile p s = c # cs @ t" by auto
  have "\<not> p c" using hd_dropWhile [of p s] unfolding t by simp
  with Cons show ?thesis by simp
qed (simp only: dropWhile.simps)

lemma trim_by_idem [simp]: "trim_by p (trim_by p s) = trim_by p s"
  unfolding trim_by_def by (simp add: dropWhile_rev_dropWhile)

lemma trim_space_idem [simp]: "trim_space (trim_space s) = trim_space s"
  by (simp add: trim_space_def)

lemma length_trim_space: "length (trim_space s) \<le> length s"
  unfolding trim_space_def trim_by_def
  by (metis le_trans length_dropWhile_le length_rev)

lemma lower_char_idem [simp]: "lower_char (lower_char c) = lower_char c"
proof (cases "is_upper c")
  case True
  then have "(65::int) \<le> of_char c" "of_char c \<le> (90::int)" by (auto simp: is_upper_def)
  then have "\<not> is_upper (char_of (of_char c + (32::int)))"
    by (simp add: is_upper_def)
  with True show ?thesis by (simp add: lower_char_def)
qed (simp add: lower_char_def)

lemma to_lower_idem [simp]: "to_lower (to_lower s) = to_lower s"
  by (simp add: to_lower_def)

lemma equal_fold_refl [simp]: "equal_fold s s"
  by (simp add: equal_fold_def)

section \<open>Lemmas about loops\<close>

lemma fold_result_append:
  "fold_result f s (xs @ ys) =
     (case fold_result f s xs of Inl e \<Rightarrow> Inl e | Inr s' \<Rightarrow> fold_result f s' ys)"
  by (induction xs arbitrary: s) (auto split: sum.splits)

lemma fold_result_each:
  "fold_result f s xs = Inr s' \<Longrightarrow> x \<in> set xs \<Longrightarrow> \<exists>u u'. f u x = Inr u'"
  by (induction xs arbitrary: s) (fastforce split: sum.splits)+

lemma fold_result_inv:
  assumes "fold_result f s xs = Inr s'" and "I s"
    and "\<And>u x u'. I u \<Longrightarrow> f u x = Inr u' \<Longrightarrow> I u'"
  shows "I s'"
  using assms(1,2)
proof (induction xs arbitrary: s)
  case (Cons x xs)
  then show ?case by (auto split: sum.splits intro: assms(3))
qed simp

lemma first_error_None: "first_error f xs = None \<longleftrightarrow> (\<forall>x \<in> set xs. f x = None)"
  by (induction xs) (auto split: option.splits)

lemma first_error_if_None:
  "first_error (\<lambda>x. if P x then None else Some (g x)) xs = None \<longleftrightarrow> (\<forall>x \<in> set xs. P x)"
  by (auto simp: first_error_None)

lemma check_all_iff:
  "(case first_error (\<lambda>x. if P x then None else Some (g x)) xs of Some e \<Rightarrow> Inl e | None \<Rightarrow> Inr y) = Inr z \<longleftrightarrow>
     (\<forall>x \<in> set xs. P x) \<and> y = z"
  using first_error_if_None [of P g xs] by (cases "first_error (\<lambda>x. if P x then None else Some (g x)) xs") auto

lemma set_unique_loop: "set (unique_loop skip seen xs) = {x \<in> set xs. \<not> skip x} - set seen"
  by (induction xs arbitrary: seen) auto

lemma distinct_unique_loop [simp]: "distinct (unique_loop skip seen xs)"
  by (induction xs arbitrary: seen) (auto simp: set_unique_loop)

lemma unique_loop_id:
  "distinct xs \<Longrightarrow> set xs \<inter> set seen = {} \<Longrightarrow> (\<forall>x \<in> set xs. \<not> skip x) \<Longrightarrow> unique_loop skip seen xs = xs"
  by (induction xs arbitrary: seen) auto

lemma length_unique_loop: "length (unique_loop skip seen xs) \<le> length xs"
  by (induction xs arbitrary: seen) (auto simp: le_SucI)

lemma set_insert_by [simp]: "set (insert_by lt x xs) = insert x (set xs)"
  by (induction xs) auto

lemma length_insert_by [simp]: "length (insert_by lt x xs) = Suc (length xs)"
  by (induction xs) auto

lemma distinct_insert_by: "distinct (insert_by lt x xs) \<longleftrightarrow> distinct (x # xs)"
  by (induction xs) auto

lemma sort_by_simps [simp]:
  "sort_by lt [] = []"
  "sort_by lt (x # xs) = insert_by lt x (sort_by lt xs)"
  by (simp_all add: sort_by_def)

lemma set_sort_by [simp]: "set (sort_by lt xs) = set xs"
  by (induction xs) auto

lemma length_sort_by [simp]: "length (sort_by lt xs) = length xs"
  by (induction xs) auto

lemma distinct_sort_by [simp]: "distinct (sort_by lt xs) = distinct xs"
  by (induction xs) (auto simp: distinct_insert_by)

lemma sort_by_Nil_iff [simp]: "sort_by lt xs = [] \<longleftrightarrow> xs = []"
  using length_sort_by [of lt xs] by (metis length_0_conv)

section \<open>Interfaces\<close>

text \<open>
  A \<^verbatim>\<open>less\<close> function that Go's sort can be given: a strict weak order. Sorting puts the
  elements so that none is less than an earlier one, keeps a list that is already so, and its
  first element is one that no other is less than.
\<close>

locale sort_order =
  fixes lt :: "'a \<Rightarrow> 'a \<Rightarrow> bool"
  assumes asym: "lt x y \<Longrightarrow> \<not> lt y x"
    and negtrans: "lt x z \<Longrightarrow> lt x y \<or> lt y z"
begin

lemma sorted_insert_by:
  "sorted_wrt (\<lambda>x y. \<not> lt y x) xs \<Longrightarrow> sorted_wrt (\<lambda>x y. \<not> lt y x) (insert_by lt x xs)"
proof (induction xs)
  case (Cons y ys)
  show ?case
  proof (cases "lt y x")
    case True
    with Cons show ?thesis using asym by auto
  next
    case False
    have "\<not> lt z x" if "z \<in> set ys" for z
      using Cons.prems False that negtrans [of z x y] by auto
    with False Cons.prems show ?thesis by auto
  qed
qed simp

lemma sorted_sort_by: "sorted_wrt (\<lambda>x y. \<not> lt y x) (sort_by lt xs)"
  by (induction xs) (auto intro: sorted_insert_by)

lemma sort_by_id: "sorted_wrt (\<lambda>x y. \<not> lt y x) xs \<Longrightarrow> sort_by lt xs = xs"
proof (induction xs)
  case (Cons x xs)
  then show ?case by (cases xs) auto
qed simp

lemma sort_by_idem: "sort_by lt (sort_by lt xs) = sort_by lt xs"
  by (rule sort_by_id [OF sorted_sort_by])

lemma hd_sort_by_least: "x \<in> set xs \<Longrightarrow> \<not> lt x (hd (sort_by lt xs))"
proof -
  assume x: "x \<in> set xs"
  then obtain y ys where ys: "sort_by lt xs = y # ys" by (cases "sort_by lt xs") auto
  then have "x \<in> insert y (set ys)" using x set_sort_by [of lt xs] by auto
  moreover have "\<not> lt y y" using asym by blast
  ultimately show ?thesis using sorted_sort_by [of xs] ys by auto
qed

end

text \<open>
  A three-way comparison that compares keys. It is antisymmetric, transitive and gives 0 exactly
  on equal keys, and sorting by it, newest first, is sorting by a strict weak order.
\<close>

locale version_order =
  fixes cmp :: "'a \<Rightarrow> 'a \<Rightarrow> int"
    and key :: "'a \<Rightarrow> 'k::linorder"
  assumes cmp_key: "cmp x y = (if key x < key y then - 1 else if key y < key x then 1 else 0)"
begin

lemma cmp_flip: "cmp y x = - cmp x y"
  by (auto simp: cmp_key)

lemma cmp_eq_0: "cmp x y = 0 \<longleftrightarrow> key x = key y"
  by (auto simp: cmp_key)

lemma cmp_le_0: "cmp x y \<le> 0 \<longleftrightarrow> key x \<le> key y"
  by (auto simp: cmp_key)

lemma cmp_gt_0: "cmp x y > 0 \<longleftrightarrow> key y < key x"
  by (auto simp: cmp_key)

lemma cmp_trans: "cmp x y \<le> 0 \<Longrightarrow> cmp y z \<le> 0 \<Longrightarrow> cmp x z \<le> 0"
  by (simp add: cmp_le_0)

end

sublocale version_order \<subseteq> newest_first: sort_order "\<lambda>x y. cmp x y > 0"
  by unfold_locales (auto simp: cmp_gt_0)

text \<open>
  A loop step that reserves identifiers: \<open>taken\<close> reads the identifiers already taken off the
  loop's state, and a step that succeeds finds the identifiers of its item free and pairwise
  different and takes them. The loop then gives every item identifiers of its own.
\<close>

locale id_reservation =
  fixes step :: "'s \<Rightarrow> 'i \<Rightarrow> 'e + 's"
    and ids :: "'i \<Rightarrow> int list"
    and taken :: "'s \<Rightarrow> int set"
  assumes step_reserves: "step s x = Inr s' \<Longrightarrow>
    distinct (ids x) \<and> set (ids x) \<inter> taken s = {} \<and> taken s' = taken s \<union> set (ids x)"
begin

lemma loop_reserves:
  "fold_result step s xs = Inr s' \<Longrightarrow>
     distinct (concat (map ids xs)) \<and> set (concat (map ids xs)) \<inter> taken s = {} \<and>
     taken s' = taken s \<union> set (concat (map ids xs))"
proof (induction xs arbitrary: s)
  case (Cons x xs)
  then obtain u where u: "step s x = Inr u" and rest: "fold_result step u xs = Inr s'"
    by (auto split: sum.splits)
  show ?case using step_reserves [OF u] Cons.IH [OF rest] by auto
qed simp

lemma loop_distinct: "fold_result step s xs = Inr s' \<Longrightarrow> distinct (concat (map ids xs))"
  using loop_reserves by blast

lemma loop_fresh: "fold_result step s xs = Inr s' \<Longrightarrow> set (concat (map ids xs)) \<inter> taken s = {}"
  using loop_reserves by blast

lemma loop_taken: "fold_result step s xs = Inr s' \<Longrightarrow> taken s' = taken s \<union> set (concat (map ids xs))"
  using loop_reserves by blast

end

end
