(* ===== verification/Rule_Text.thy ===== *)
theory Rule_Text
  imports Prelude
begin

text \<open>
  The text validators of the policy author's input,
  \<^verbatim>\<open>src/internal/manager/policy_config.go\<close>: the line lists of excluded paths and addresses, and
  the free-form ModSecurity custom rules. The three regular expressions of the source are
  written out as scanners: \<^verbatim>\<open>\s\<close> of RE2 is tab, newline, form feed, carriage return and space,
  and \<^verbatim>\<open>\b\<close> compares the bytes around a position, so a scanner carries the byte before it.
  \<^verbatim>\<open>net.ParseIP\<close> and \<^verbatim>\<open>net.ParseCIDR\<close> are the arguments \<open>parse_ip\<close> and \<open>parse_cidr\<close>: whether the
  library accepts the text.
\<close>

section \<open>Rule identifiers\<close>

definition mwafSetupRuleIDMin :: int where "mwafSetupRuleIDMin = 1000"
definition mwafSetupRuleIDMax :: int where "mwafSetupRuleIDMax = 4999"
definition mwafGeneratedRuleIDMin :: int where "mwafGeneratedRuleIDMin = 5000"
definition mwafGeneratedRuleIDMax :: int where "mwafGeneratedRuleIDMax = 9999"
definition systemRuleIDMin :: int where "systemRuleIDMin = 10000"
definition systemRuleIDMax :: int where "systemRuleIDMax = 39999"
definition enterpriseRuleIDMin :: int where "enterpriseRuleIDMin = 40000"
definition enterpriseRuleIDMax :: int where "enterpriseRuleIDMax = 89999"

lemmas rule_id_bounds = mwafSetupRuleIDMin_def mwafSetupRuleIDMax_def mwafGeneratedRuleIDMin_def
  mwafGeneratedRuleIDMax_def systemRuleIDMin_def systemRuleIDMax_def enterpriseRuleIDMin_def
  enterpriseRuleIDMax_def

definition PolicyScopeSystem :: string where "PolicyScopeSystem = ''SYSTEM''"
definition PolicyScopeEnterprise :: string where "PolicyScopeEnterprise = ''ENTERPRISE''"

definition isLegacyPolicyRuleID :: "int \<Rightarrow> bool" where
  "isLegacyPolicyRuleID i \<longleftrightarrow> i \<ge> 100000 \<and> i \<le> 199999 \<or> i \<ge> 240000 \<and> i \<le> 249999"

section \<open>Regular expressions\<close>

definition re_space :: "char \<Rightarrow> bool" where
  "re_space c \<longleftrightarrow> c = CHR '' '' \<or> c = CHR 0x09 \<or> c = CHR 0x0A \<or> c = CHR 0x0C \<or> c = CHR 0x0D"

definition re_word :: "char \<Rightarrow> bool" where
  "re_word c \<longleftrightarrow> is_digit c \<or> is_lower c \<or> is_upper c \<or> c = CHR ''_''"

text \<open>Whether a position is a word boundary, given that the byte after it is a word byte.\<close>

definition word_start :: "char option \<Rightarrow> bool" where
  "word_start prev = (case prev of None \<Rightarrow> True | Some c \<Rightarrow> \<not> re_word c)"

definition skip_spaces :: "string \<Rightarrow> string" where
  "skip_spaces s = dropWhile re_space s"

text \<open>A literal under \<^verbatim>\<open>(?i)\<close>, given in lower case: the text after it.\<close>

definition fold_literal :: "string \<Rightarrow> string \<Rightarrow> string option" where
  "fold_literal lit s = (if to_lower (take (length lit) s) = lit then Some (drop (length lit) s) else None)"

definition literal_char :: "char \<Rightarrow> string \<Rightarrow> string option" where
  "literal_char c s = (case s of d # rest \<Rightarrow> if d = c then Some rest else None | [] \<Rightarrow> None)"

text \<open>Whether an expression matches somewhere: at this position or at a later one.\<close>

fun match_string :: "(char option \<Rightarrow> string \<Rightarrow> bool) \<Rightarrow> char option \<Rightarrow> string \<Rightarrow> bool" where
  "match_string at prev [] = at prev []"
| "match_string at prev (c # cs) = (at prev (c # cs) \<or> match_string at (Some c) cs)"

text \<open>\<^verbatim>\<open>(?i)\bid\s*:\s*['"]?([0-9]+)\<close> at a position: the digits of the group and the text after them.\<close>

definition custom_rule_id_at :: "char option \<Rightarrow> string \<Rightarrow> (string \<times> string) option" where
  "custom_rule_id_at prev s =
     (if \<not> word_start prev then None
      else case fold_literal ''id'' s of
          None \<Rightarrow> None
        | Some s1 \<Rightarrow>
            (case literal_char (CHR '':'') (skip_spaces s1) of
               None \<Rightarrow> None
             | Some s2 \<Rightarrow>
                 (let s3 = skip_spaces s2;
                      s4 = (case s3 of c # cs \<Rightarrow> if c = squote \<or> c = dquote then cs else s3 | [] \<Rightarrow> [])
                  in if takeWhile is_digit s4 = [] then None
                     else Some (takeWhile is_digit s4, dropWhile is_digit s4))))"

text \<open>
  \<^verbatim>\<open>customRuleID.FindStringSubmatch\<close> and \<^verbatim>\<open>FindAllStringSubmatch\<close>: the group of the leftmost match,
  and the groups of the successive matches, each search starting where the previous match ended.
\<close>

fun customRuleID :: "char option \<Rightarrow> string \<Rightarrow> (string \<times> string) option" where
  "customRuleID prev [] = None"
| "customRuleID prev (c # cs) =
     (case custom_rule_id_at prev (c # cs) of Some m \<Rightarrow> Some m | None \<Rightarrow> customRuleID (Some c) cs)"

definition custom_rule_id :: "string \<Rightarrow> string option" where
  "custom_rule_id line = map_option fst (customRuleID None line)"

lemma length_skip_spaces: "length (skip_spaces s) \<le> length s"
  by (simp add: skip_spaces_def length_dropWhile_le)

lemma fold_literal_shorter: "fold_literal lit s = Some t \<Longrightarrow> length t \<le> length s"
  by (auto simp: fold_literal_def split: if_splits)

lemma literal_char_shorter: "literal_char c s = Some t \<Longrightarrow> length t < length s"
  by (auto simp: literal_char_def split: if_splits list.splits)

lemma custom_rule_id_at_shorter:
  assumes "custom_rule_id_at prev s = Some (ds, rest)"
  shows "length rest < length s"
proof -
  obtain s1 s2 where s1: "fold_literal ''id'' s = Some s1"
    and s2: "literal_char (CHR '':'') (skip_spaces s1) = Some s2"
    and rest: "rest = dropWhile is_digit (case skip_spaces s2 of c # cs \<Rightarrow>
      if c = squote \<or> c = dquote then cs else skip_spaces s2 | [] \<Rightarrow> [])"
    using assms by (auto simp: custom_rule_id_at_def Let_def split: if_splits option.splits)
  have "length rest \<le> length (case skip_spaces s2 of c # cs \<Rightarrow>
      if c = squote \<or> c = dquote then cs else skip_spaces s2 | [] \<Rightarrow> [])"
    unfolding rest by (rule length_dropWhile_le)
  also have "\<dots> \<le> length (skip_spaces s2)" by (auto split: list.splits)
  also have "\<dots> \<le> length s2" by (rule length_skip_spaces)
  also have "\<dots> < length (skip_spaces s1)" using s2 by (rule literal_char_shorter)
  also have "\<dots> \<le> length s1" by (rule length_skip_spaces)
  also have "\<dots> \<le> length s" using s1 by (rule fold_literal_shorter)
  finally show ?thesis .
qed

lemma customRuleID_shorter: "customRuleID prev s = Some (ds, rest) \<Longrightarrow> length rest < length s"
proof (induction s arbitrary: prev)
  case (Cons c cs)
  then show ?case
    using custom_rule_id_at_shorter [of prev "c # cs" ds rest]
    by (fastforce split: option.splits)
qed simp

function custom_rule_id_all :: "char option \<Rightarrow> string \<Rightarrow> string list" where
  "custom_rule_id_all prev s =
     (case customRuleID prev s of
        None \<Rightarrow> []
      | Some (ds, rest) \<Rightarrow> ds # custom_rule_id_all (Some (last ds)) rest)"
  by pat_completeness auto
termination
  by (relation "measure (\<lambda>(prev, s). length s)") (auto dest: customRuleID_shorter)

declare custom_rule_id_all.simps [simp del]

definition custom_rule_ids :: "string \<Rightarrow> int list" where
  "custom_rule_ids rules = map (\<lambda>ds. fst (atoi ds)) (custom_rule_id_all None rules)"

text \<open>\<^verbatim>\<open>(?i)\b(exec|proxy|prepend|append|redirect)\s*:\<close>.\<close>

definition forbidden_token_at :: "char option \<Rightarrow> string \<Rightarrow> bool" where
  "forbidden_token_at prev s \<longleftrightarrow> word_start prev \<and>
     list_ex (\<lambda>lit. case fold_literal lit s of
                None \<Rightarrow> False
              | Some rest \<Rightarrow> literal_char (CHR '':'') (skip_spaces rest) \<noteq> None)
       [''exec'', ''proxy'', ''prepend'', ''append'', ''redirect'']"

definition forbiddenRuleToken :: "string \<Rightarrow> bool" where
  "forbiddenRuleToken s = match_string forbidden_token_at None s"

text \<open>\<^verbatim>\<open>(?i)(^|,|\s)(drop|allow)(,|\s|$)|ctl\s*:\s*ruleEngine\s*=\s*Off\<close>.\<close>

definition action_separator :: "char \<Rightarrow> bool" where
  "action_separator c \<longleftrightarrow> c = CHR '','' \<or> re_space c"

definition forbidden_action_at :: "char option \<Rightarrow> string \<Rightarrow> bool" where
  "forbidden_action_at prev s \<longleftrightarrow>
     (case prev of None \<Rightarrow> True | Some c \<Rightarrow> action_separator c) \<and>
     list_ex (\<lambda>lit. case fold_literal lit s of
                None \<Rightarrow> False
              | Some rest \<Rightarrow> (case rest of [] \<Rightarrow> True | c # _ \<Rightarrow> action_separator c))
       [''drop'', ''allow'']"

definition engine_off_at :: "char option \<Rightarrow> string \<Rightarrow> bool" where
  "engine_off_at prev s \<longleftrightarrow>
     (case fold_literal ''ctl'' s of
        None \<Rightarrow> False
      | Some s1 \<Rightarrow>
         (case literal_char (CHR '':'') (skip_spaces s1) of
            None \<Rightarrow> False
          | Some s2 \<Rightarrow>
             (case fold_literal ''ruleengine'' (skip_spaces s2) of
                None \<Rightarrow> False
              | Some s3 \<Rightarrow>
                 (case literal_char (CHR ''='') (skip_spaces s3) of
                    None \<Rightarrow> False
                  | Some s4 \<Rightarrow> fold_literal ''off'' (skip_spaces s4) \<noteq> None))))"

definition forbiddenRuleAction :: "string \<Rightarrow> bool" where
  "forbiddenRuleAction s \<longleftrightarrow>
     match_string (\<lambda>prev t. forbidden_action_at prev t \<or> engine_off_at prev t) None s"

section \<open>The shape of a SecRule\<close>

fun count_quotes :: "bool \<Rightarrow> int \<Rightarrow> string \<Rightarrow> bool \<times> int" where
  "count_quotes escaped quotes [] = (escaped, quotes)"
| "count_quotes escaped quotes (c # cs) =
     (if escaped then count_quotes False quotes cs
      else if c = backslash then count_quotes True quotes cs
      else if c = dquote then count_quotes escaped (quotes + 1) cs
      else count_quotes escaped quotes cs)"

definition validSecRuleQuotes :: "string \<Rightarrow> bool" where
  "validSecRuleQuotes line =
     (case count_quotes False 0 line of (escaped, quotes) \<Rightarrow> \<not> escaped \<and> quotes = 4)"

text \<open>\<^verbatim>\<open>strings.LastIndex\<close> of a byte, -1 when it does not occur.\<close>

definition last_index :: "char \<Rightarrow> string \<Rightarrow> int" where
  "last_index c s =
     (if c \<in> set s then int (length s) - 1 - int (length (takeWhile (\<lambda>d. d \<noteq> c) (rev s))) else - 1)"

definition secRuleActions :: "string \<Rightarrow> string" where
  "secRuleActions line =
     (let end = last_index dquote line
      in if end \<le> 0 then []
         else let start = last_index dquote (take (nat end) line)
              in if start < 0 \<or> start + 1 \<ge> end then []
                 else trim_space (drop (nat (start + 1)) (take (nat end) line)))"

fun action_value_loop :: "string \<Rightarrow> string list \<Rightarrow> string" where
  "action_value_loop key [] = []"
| "action_value_loop key (item # items) =
     (case cut (CHR '':'') (trim_space item) of
        Some (name, val) \<Rightarrow>
          (if equal_fold name key then trim_by (\<lambda>c. c = squote \<or> c = dquote) (trim_space val)
           else action_value_loop key items)
      | None \<Rightarrow> action_value_loop key items)"

definition secRuleActionValue :: "string \<Rightarrow> string \<Rightarrow> string" where
  "secRuleActionValue rule key = action_value_loop key (split (CHR '','') (secRuleActions rule))"

section \<open>Line lists\<close>

definition uniqueNonEmptyLines :: "string \<Rightarrow> string list" where
  "uniqueNonEmptyLines text =
     unique_loop (\<lambda>v. v = []) [] (map trim_space (split newline (crlf_to_lf text)))"

datatype rule_error =
    TooManyPaths
  | InvalidPath string
  | TooManyIPs
  | InvalidIP string
  | RulesTooLarge
  | NotOneSecRule int
  | ForbiddenToken int
  | InvalidQuotes int
  | ForbiddenActions int
  | MissingRuleID int
  | RuleIDNotUsable int
  | RuleIDOutsideRange int int
  | RuleIDOutsideScope int string

definition valid_policy_path :: "string \<Rightarrow> bool" where
  "valid_policy_path v \<longleftrightarrow>
     \<not> (len v > 512 \<or> \<not> has_prefix v ''/'' \<or> contains_any v [dquote, backslash, carriage_return, newline])"

definition policyPaths :: "string \<Rightarrow> rule_error + string list" where
  "policyPaths text =
     (let values = uniqueNonEmptyLines text
      in if len values > 100 then Inl TooManyPaths
         else case first_error (\<lambda>v. if valid_policy_path v then None else Some (InvalidPath v)) values of
             Some e \<Rightarrow> Inl e
           | None \<Rightarrow> Inr values)"

definition policyIPs :: "(string \<Rightarrow> bool) \<Rightarrow> (string \<Rightarrow> bool) \<Rightarrow> string \<Rightarrow> rule_error + string list" where
  "policyIPs parse_ip parse_cidr text =
     (let values = uniqueNonEmptyLines text
      in if len values > 100 then Inl TooManyIPs
         else case first_error (\<lambda>v. if parse_ip v \<or> parse_cidr v then None else Some (InvalidIP v)) values of
             Some e \<Rightarrow> Inl e
           | None \<Rightarrow> Inr values)"

section \<open>Custom rules\<close>

definition is_rule_line :: "string \<Rightarrow> bool" where
  "is_rule_line raw \<longleftrightarrow> trim_space raw \<noteq> [] \<and> \<not> has_prefix (trim_space raw) ''#''"

text \<open>One iteration of the loop of \<^verbatim>\<open>safeCustomRules\<close>: the state is \<^verbatim>\<open>seen\<close> and \<^verbatim>\<open>count\<close>.\<close>

definition safe_rule_step :: "int list \<times> int \<Rightarrow> nat \<times> string \<Rightarrow> rule_error + (int list \<times> int)" where
  "safe_rule_step st item =
     (let (seen, count) = st;
          (number, raw) = item;
          line = trim_space raw;
          at = int number + 1;
          actions = secRuleActions line
      in if line = [] \<or> has_prefix line ''#'' then Inr (seen, count)
         else if \<not> has_prefix line ''SecRule '' \<or> has_suffix line [backslash] then Inl (NotOneSecRule at)
         else if forbiddenRuleToken line \<or> contains (to_lower line) ''@inspectfile'' then Inl (ForbiddenToken at)
         else if \<not> validSecRuleQuotes line then Inl (InvalidQuotes at)
         else if actions = [] \<or> \<not> contains (to_lower actions) ''phase:'' \<or> forbiddenRuleAction actions
           then Inl (ForbiddenActions at)
         else case custom_rule_id line of
             None \<Rightarrow> Inl (MissingRuleID at)
           | Some digits \<Rightarrow>
               (let i = fst (atoi digits);
                    validNew = (i \<ge> systemRuleIDMin \<and> i \<le> systemRuleIDMax \<or>
                                i \<ge> enterpriseRuleIDMin \<and> i \<le> enterpriseRuleIDMax)
                in if \<not> validNew \<and> \<not> isLegacyPolicyRuleID i \<or> i \<in> set seen then Inl (RuleIDNotUsable at)
                   else Inr (i # seen, count + 1)))"

definition safeCustomRules :: "string \<Rightarrow> rule_error + (string \<times> int)" where
  "safeCustomRules raw =
     (let text = trim_space (crlf_to_lf raw)
      in if len text > 32768 then Inl RulesTooLarge
         else if text = [] then Inr ([], 0)
         else case fold_result safe_rule_step ([], 0) (enumerate 0 (split newline text)) of
             Inl e \<Rightarrow> Inl e
           | Inr (seen, count) \<Rightarrow> Inr (text, count))"

definition validateCustomRuleIDRange :: "string \<Rightarrow> int \<Rightarrow> int \<Rightarrow> rule_error option" where
  "validateCustomRuleIDRange rules minimum maximum =
     first_error (\<lambda>i. if i < minimum \<or> i > maximum then Some (RuleIDOutsideRange minimum maximum) else None)
       (custom_rule_ids rules)"

definition in_scope_namespace :: "string \<Rightarrow> int \<Rightarrow> bool" where
  "in_scope_namespace scope i \<longleftrightarrow>
     scope = PolicyScopeSystem \<and> i \<ge> systemRuleIDMin \<and> i \<le> systemRuleIDMax \<or>
     scope = PolicyScopeEnterprise \<and> i \<ge> enterpriseRuleIDMin \<and> i \<le> enterpriseRuleIDMax"

definition validateCustomRuleScopeIDs :: "string \<Rightarrow> string \<Rightarrow> rule_error option" where
  "validateCustomRuleScopeIDs rules scope =
     first_error (\<lambda>i. if in_scope_namespace scope i then None else Some (RuleIDOutsideScope i scope))
       (custom_rule_ids rules)"

section \<open>Line lists: lemmas\<close>

lemma is_space_special [simp]: "is_space carriage_return" "is_space newline" "is_space tab"
  by (simp_all add: is_space_def special_chars)

text \<open>
  Normalising the line ends only takes a carriage return off the end of a line, which trimming
  takes off as well.
\<close>

definition same_line :: "string \<Rightarrow> string \<Rightarrow> bool" where
  "same_line w v \<longleftrightarrow> w = v \<or> w = v @ [carriage_return]"

lemma dropWhile_snoc_nonempty: "\<not> (\<forall>x \<in> set v. p x) \<Longrightarrow> dropWhile p (v @ w) = dropWhile p v @ w"
  by (induction v) auto

lemma trim_space_snoc: "is_space c \<Longrightarrow> trim_space (v @ [c]) = trim_space v"
proof (cases "\<forall>x \<in> set v. is_space x")
  case True
  moreover assume "is_space c"
  ultimately have "dropWhile is_space (v @ [c]) = []" "dropWhile is_space v = []" by simp_all
  then show ?thesis by (simp only: trim_space_def trim_by_def)
next
  case False
  assume "is_space c"
  with dropWhile_snoc_nonempty [OF False, of "[c]"] show ?thesis by (simp add: trim_space_def trim_by_def)
qed

lemma same_line_trim: "same_line w v \<Longrightarrow> trim_space w = trim_space v"
  by (auto simp: same_line_def trim_space_snoc)

lemma same_line_Cons: "same_line w v \<Longrightarrow> same_line (c # w) (c # v)"
  by (auto simp: same_line_def)

lemma split_crlf: "list_all2 same_line (split newline s) (split newline (crlf_to_lf s))"
proof (induction s rule: crlf_to_lf.induct)
  case (3 c d cs)
  have refl: "same_line v v" for v by (simp add: same_line_def)
  show ?case
  proof (cases "c = carriage_return \<and> d = newline")
    case True
    moreover have "carriage_return \<noteq> newline" by (simp add: special_chars)
    moreover have "same_line [carriage_return] []" by (simp add: same_line_def)
    ultimately show ?thesis using "3.IH"(1) by simp
  next
    case False
    from "3.IH"(2) [OF False] False show ?thesis
      using refl by (auto simp: list_all2_Cons1 list_all2_Cons2 same_line_Cons split: list.splits)
  qed
qed (auto simp: same_line_def)

lemma trim_lines_crlf: "map trim_space (split newline (crlf_to_lf s)) = map trim_space (split newline s)"
proof -
  have "list_all2 (\<lambda>w v. trim_space w = trim_space v) (split newline s) (split newline (crlf_to_lf s))"
    using split_crlf by (rule list_all2_mono) (rule same_line_trim)
  then show ?thesis by (simp add: list_all2_conv_all_nth list_eq_iff_nth_eq)
qed

lemma uniqueNonEmptyLines_alt:
  "uniqueNonEmptyLines text = unique_loop (\<lambda>v. v = []) [] (map trim_space (split newline text))"
  by (simp only: uniqueNonEmptyLines_def trim_lines_crlf)

lemma set_uniqueNonEmptyLines:
  "set (uniqueNonEmptyLines text) = trim_space ` set (split newline text) - {[]}"
  by (auto simp: uniqueNonEmptyLines_alt set_unique_loop)

lemma set_split_join:
  "w \<in> set xs \<Longrightarrow> sep \<notin> set w \<Longrightarrow> w \<in> set (split sep (join [sep] xs))"
proof (induction xs rule: induct_list012)
  case (3 x y zs)
  have eq: "set (split sep (join [sep] (x # y # zs))) = set (split sep x) \<union> set (split sep (join [sep] (y # zs)))"
    by (simp add: split_append)
  show ?case
  proof (cases "w = x")
    case True
    then show ?thesis using "3.prems"(2) unfolding eq by (simp add: split_no_sep_id)
  next
    case False
    with "3.prems"(1) have "w \<in> set (y # zs)" by simp
    from "3.IH"(2) [OF this "3.prems"(2)] show ?thesis unfolding eq by (rule UnI2)
  qed
qed (auto simp: split_no_sep_id)

lemma uniqueNonEmptyLines_props:
  assumes "v \<in> set (uniqueNonEmptyLines text)"
  shows "v \<noteq> []" "trim_space v = v" "newline \<notin> set v"
proof -
  from assms obtain raw where raw: "raw \<in> set (split newline (crlf_to_lf text))" "v = trim_space raw" "v \<noteq> []"
    by (auto simp: uniqueNonEmptyLines_def set_unique_loop)
  then show "v \<noteq> []" "trim_space v = v" by auto
  show "newline \<notin> set v" using raw split_no_sep [OF raw(1)] set_trim_space by blast
qed

lemma distinct_uniqueNonEmptyLines [simp]: "distinct (uniqueNonEmptyLines text)"
  by (simp add: uniqueNonEmptyLines_def)

lemma uniqueNonEmptyLines_join:
  assumes "distinct vs" "\<And>v. v \<in> set vs \<Longrightarrow> v \<noteq> [] \<and> trim_space v = v \<and> newline \<notin> set v"
  shows "uniqueNonEmptyLines (join [newline] vs) = vs"
proof (cases "vs = []")
  case True
  then show ?thesis by (simp add: uniqueNonEmptyLines_def trim_space_def)
next
  case False
  then have "split newline (join [newline] vs) = vs"
    using assms by (intro split_join) auto
  moreover have "map trim_space vs = vs" using assms(2) by (simp add: map_idI)
  ultimately show ?thesis
    using assms by (simp add: uniqueNonEmptyLines_alt unique_loop_id)
qed

lemma uniqueNonEmptyLines_idem:
  "uniqueNonEmptyLines (join [newline] (uniqueNonEmptyLines text)) = uniqueNonEmptyLines text"
  by (rule uniqueNonEmptyLines_join) (use uniqueNonEmptyLines_props in auto)

section \<open>Custom rules: lemmas\<close>

text \<open>What the loop requires of a rule line, and the identifier it reads off it.\<close>

definition rule_line_id :: "string \<Rightarrow> int" where
  "rule_line_id line = fst (atoi (the (custom_rule_id line)))"

definition usable_rule_id :: "int \<Rightarrow> bool" where
  "usable_rule_id i \<longleftrightarrow> in_scope_namespace PolicyScopeSystem i \<or> in_scope_namespace PolicyScopeEnterprise i \<or>
     isLegacyPolicyRuleID i"

definition safe_rule_line :: "string \<Rightarrow> bool" where
  "safe_rule_line line \<longleftrightarrow>
     has_prefix line ''SecRule '' \<and> \<not> has_suffix line [backslash] \<and>
     \<not> forbiddenRuleToken line \<and> \<not> contains (to_lower line) ''@inspectfile'' \<and>
     validSecRuleQuotes line \<and>
     contains (to_lower (secRuleActions line)) ''phase:'' \<and> \<not> forbiddenRuleAction (secRuleActions line) \<and>
     custom_rule_id line \<noteq> None \<and> usable_rule_id (rule_line_id line)"

definition rule_lines :: "string list \<Rightarrow> string list" where
  "rule_lines ls = filter is_rule_line ls"

definition line_ids :: "nat \<times> string \<Rightarrow> int list" where
  "line_ids item = (if is_rule_line (snd item) then [rule_line_id (trim_space (snd item))] else [])"

lemma scopes_differ [simp]: "PolicyScopeSystem \<noteq> PolicyScopeEnterprise" "PolicyScopeEnterprise \<noteq> PolicyScopeSystem"
  by (simp_all add: PolicyScopeSystem_def PolicyScopeEnterprise_def)

lemma contains_Nil [simp]: "contains [] sub \<longleftrightarrow> sub = []"
  by simp

lemma to_lower_Nil [simp]: "to_lower [] = []"
  by (simp add: to_lower_def)

lemma safe_rule_step_iff:
  "safe_rule_step (seen, n) (k, raw) = Inr st \<longleftrightarrow>
     (if is_rule_line raw
      then safe_rule_line (trim_space raw) \<and> rule_line_id (trim_space raw) \<notin> set seen \<and>
           st = (rule_line_id (trim_space raw) # seen, n + 1)
      else st = (seen, n))"
  by (auto simp: safe_rule_step_def Let_def is_rule_line_def safe_rule_line_def rule_line_id_def
        usable_rule_id_def in_scope_namespace_def split: option.splits)

interpretation safe_rules: id_reservation safe_rule_step line_ids "\<lambda>st. set (fst st)"
proof
  fix s s' :: "int list \<times> int" and x :: "nat \<times> string"
  obtain seen n k raw where "s = (seen, n)" "x = (k, raw)" by fastforce
  then show "safe_rule_step s x = Inr s' \<Longrightarrow>
      distinct (line_ids x) \<and> set (line_ids x) \<inter> set (fst s) = {} \<and> set (fst s') = set (fst s) \<union> set (line_ids x)"
    by (auto simp: safe_rule_step_iff line_ids_def split: if_splits)
qed

lemma concat_line_ids:
  "concat (map line_ids (enumerate k ls)) = map (\<lambda>l. rule_line_id (trim_space l)) (rule_lines ls)"
  by (induction ls arbitrary: k) (auto simp: line_ids_def rule_lines_def)

lemma safe_rules_loop_lines:
  "fold_result safe_rule_step (seen, n) (enumerate k ls) = Inr (seen', n') \<Longrightarrow>
     (\<forall>l \<in> set (rule_lines ls). safe_rule_line (trim_space l)) \<and> n' = n + int (length (rule_lines ls))"
proof (induction ls arbitrary: seen n k)
  case (Cons l ls)
  from Cons.prems obtain st where st: "safe_rule_step (seen, n) (k, l) = Inr st"
    and rest: "fold_result safe_rule_step st (enumerate (Suc k) ls) = Inr (seen', n')"
    by (auto split: sum.splits)
  obtain s1 n1 where s1: "st = (s1, n1)" by fastforce
  show ?case
    using Cons.IH [of s1 n1 "Suc k"] st rest
    by (auto simp: s1 safe_rule_step_iff rule_lines_def split: if_splits)
qed (simp add: rule_lines_def)

lemma safe_rules_loop_accepts:
  assumes "\<forall>l \<in> set (rule_lines ls). safe_rule_line (trim_space l)"
    and "distinct (map (\<lambda>l. rule_line_id (trim_space l)) (rule_lines ls))"
    and "set (map (\<lambda>l. rule_line_id (trim_space l)) (rule_lines ls)) \<inter> set seen = {}"
  shows "\<exists>seen'. fold_result safe_rule_step (seen, n) (enumerate k ls) = Inr (seen', n + int (length (rule_lines ls)))"
  using assms
proof (induction ls arbitrary: seen n k)
  case (Cons l ls)
  define st where "st = (if is_rule_line l then (rule_line_id (trim_space l) # seen, n + 1) else (seen, n))"
  have step: "safe_rule_step (seen, n) (k, l) = Inr st"
    using Cons.prems by (auto simp: safe_rule_step_iff st_def rule_lines_def)
  have "\<exists>seen'. fold_result safe_rule_step st (enumerate (Suc k) ls) =
          Inr (seen', snd st + int (length (rule_lines ls)))"
    using Cons.IH [of "fst st" "snd st" "Suc k"] Cons.prems
    by (auto simp: st_def rule_lines_def split: if_splits)
  then show ?case using step by (auto simp: st_def rule_lines_def split: if_splits)
qed (simp add: rule_lines_def)

lemma safe_rules_loop_distinct:
  assumes "fold_result safe_rule_step ([], 0) (enumerate k ls) = Inr st"
  shows "distinct (map (\<lambda>l. rule_line_id (trim_space l)) (rule_lines ls))"
  using safe_rules.loop_distinct [OF assms] by (simp add: concat_line_ids)

lemma rule_lines_Nil [simp]: "rule_lines [[]] = []"
  by (simp add: rule_lines_def is_rule_line_def trim_space_def)

lemma safeCustomRules_iff:
  "safeCustomRules raw = Inr (text, n) \<longleftrightarrow>
     text = trim_space (crlf_to_lf raw) \<and> len text \<le> 32768 \<and>
     (\<forall>l \<in> set (rule_lines (split newline text)). safe_rule_line (trim_space l)) \<and>
     distinct (map (\<lambda>l. rule_line_id (trim_space l)) (rule_lines (split newline text))) \<and>
     n = int (length (rule_lines (split newline text)))"
  (is "?lhs \<longleftrightarrow> ?rhs")
proof (cases "trim_space (crlf_to_lf raw) = []")
  case True
  then show ?thesis by (auto simp: safeCustomRules_def)
next
  case False
  show ?thesis
  proof
    assume ?lhs
    with False obtain seen where
      loop: "fold_result safe_rule_step ([], 0) (enumerate 0 (split newline text)) = Inr (seen, n)"
      and "text = trim_space (crlf_to_lf raw)" "len text \<le> 32768"
      by (auto simp: safeCustomRules_def Let_def split: if_splits sum.splits)
    then show ?rhs
      using safe_rules_loop_lines [OF loop] safe_rules_loop_distinct [OF loop] by simp
  next
    assume rhs: ?rhs
    with safe_rules_loop_accepts [of "split newline text" "[]" 0 0] obtain seen where
      "fold_result safe_rule_step ([], 0) (enumerate 0 (split newline text)) = Inr (seen, n)" by auto
    with rhs False show ?lhs by (auto simp: safeCustomRules_def Let_def)
  qed
qed

lemma policyPaths_iff:
  "policyPaths text = Inr vs \<longleftrightarrow>
     vs = uniqueNonEmptyLines text \<and> len vs \<le> 100 \<and> (\<forall>v \<in> set vs. valid_policy_path v)"
  by (auto simp: policyPaths_def Let_def check_all_iff)

lemma policyIPs_iff:
  "policyIPs parse_ip parse_cidr text = Inr vs \<longleftrightarrow>
     vs = uniqueNonEmptyLines text \<and> len vs \<le> 100 \<and> (\<forall>v \<in> set vs. parse_ip v \<or> parse_cidr v)"
  by (auto simp: policyIPs_def Let_def check_all_iff)

section \<open>Properties\<close>

text \<open>C3:
  the custom-rule validator accepts a text exactly when the text, with its line ends
  normalised and trimmed, is at most 32 KiB, every line that is neither blank nor a comment is
  one complete \<^verbatim>\<open>SecRule\<close> with balanced quotes, a phase, no forbidden token, operator or action
  and an identifier of the system, enterprise or legacy namespaces, and no identifier occurs on
  two lines; it then returns the normalised text and the number of rules.
\<close>

theorem safeCustomRules_accepts_exactly:
  "safeCustomRules raw = Inr (text, n) \<longleftrightarrow>
     text = trim_space (crlf_to_lf raw) \<and> len text \<le> 32768 \<and>
     list_all (\<lambda>l. safe_rule_line (trim_space l)) (rule_lines (split newline text)) \<and>
     distinct (map (\<lambda>l. rule_line_id (trim_space l)) (rule_lines (split newline text))) \<and>
     n = int (length (rule_lines (split newline text)))"
  unfolding list_all_iff by (rule safeCustomRules_iff)

text \<open>
  an accepted list of excluded paths has at most 100 values, pairwise different, each an
  absolute path of at most 512 bytes without a quote, a backslash or a line end; written back
  one per line it is accepted again as the same list.
\<close>

theorem policyPaths_roundtrip:
  assumes "policyPaths text = Inr vs"
  shows "policyPaths (join [newline] vs) = Inr vs \<and> distinct vs \<and> len vs \<le> 100 \<and>
    list_all (\<lambda>v. has_prefix v ''/'' \<and> len v \<le> 512 \<and> dquote \<notin> set v \<and> backslash \<notin> set v \<and> newline \<notin> set v) vs"
proof -
  have vs: "vs = uniqueNonEmptyLines text" "len vs \<le> 100" "\<forall>v \<in> set vs. valid_policy_path v"
    using assms by (auto simp: policyPaths_iff)
  have "policyPaths (join [newline] vs) = Inr vs"
    using vs by (simp add: policyPaths_iff uniqueNonEmptyLines_idem)
  then show ?thesis
    using vs by (auto simp: list_all_iff valid_policy_path_def contains_any_iff)
qed

lemma policyPaths_roundtrip_witness:
  "policyPaths (join [newline] [''/health'', ''/static'']) = Inr [''/health'', ''/static'']"
proof -
  have "policyPaths (''  /health'' @ [carriage_return, newline] @ ''/static'' @ [newline, newline] @ ''/health'') =
      Inr [''/health'', ''/static'']"
    by code_simp
  from policyPaths_roundtrip [OF this] show ?thesis by simp
qed

text \<open>
  The list of forbidden actions is not closed under ModSecurity's parameters: a rule with
  \<^verbatim>\<open>allow:phase\<close> is accepted although \<^verbatim>\<open>allow\<close> is refused.
\<close>

lemma allow_parameter_not_refused:
  "safeCustomRules (''SecRule ARGS '' @ [dquote] @ ''@rx a'' @ [dquote] @ '' '' @ [dquote] @
      ''id:50000,phase:1,allow:phase'' @ [dquote]) \<noteq> Inl (ForbiddenActions 1)"
  "safeCustomRules (''SecRule ARGS '' @ [dquote] @ ''@rx a'' @ [dquote] @ '' '' @ [dquote] @
      ''id:50000,phase:1,allow'' @ [dquote]) = Inl (ForbiddenActions 1)"
  by code_simp+

end
