(* ===== verification/System_Policy.thy ===== *)
theory System_Policy
  imports Rule_Text "HOL-Library.AList" "HOL-Library.Product_Lexorder"
begin

text \<open>
  The built-in system policies, \<^verbatim>\<open>src/internal/systempolicy/catalog.go\<close> and
  \<^verbatim>\<open>migration.go\<close>: the policy template and its validation, the order of versions, the catalog
  that is loaded from the embedded files, and the migration plan.

  A Go map whose length or iteration matters is an association list. The embedded files are
  arguments of \<open>Load\<close>: the decoded lifecycle file and, for every template file, its name, its
  bytes and what \<^verbatim>\<open>json.Unmarshal\<close> gives for it; \<open>sha256_hex\<close> is the library's digest.
\<close>

section \<open>Versions\<close>

text \<open>\<^verbatim>\<open>fmt.Sscanf(s, "%d", &n)\<close>: the number at the start of the text, 0 when there is none or it does not fit.\<close>

definition sscanf_int :: "string \<Rightarrow> int" where
  "sscanf_int s =
     (let s1 = dropWhile (\<lambda>c. is_space c \<and> c \<noteq> newline) s;
          neg = (case s1 of c # _ \<Rightarrow> c = CHR ''-'' | [] \<Rightarrow> False);
          s2 = (case s1 of c # cs \<Rightarrow> if c = CHR ''-'' \<or> c = CHR ''+'' then cs else s1 | [] \<Rightarrow> []);
          ds = takeWhile is_digit s2;
          n = (if neg then - decimal ds else decimal ds)
      in if n > int64_max \<or> n < int64_min then 0 else n)"

text \<open>\<^verbatim>\<open>strings.SplitN\<close> with a separator of one byte: the last part keeps the rest.\<close>

fun splitN :: "char \<Rightarrow> nat \<Rightarrow> string \<Rightarrow> string list" where
  "splitN sep 0 s = []"
| "splitN sep (Suc 0) s = [s]"
| "splitN sep (Suc (Suc n)) s =
     (case cut sep s of None \<Rightarrow> [s] | Some (a, b) \<Rightarrow> a # splitN sep (Suc n) b)"

definition versionPart :: "string \<Rightarrow> nat \<Rightarrow> string" where
  "versionPart version i =
     (let parts = splitN (CHR ''.'') 4 (trim_prefix version ''v'')
      in if i \<ge> length parts then ''0'' else parts ! i)"

definition string_compare :: "string \<Rightarrow> string \<Rightarrow> int" where
  "string_compare a b = (if a < b then - 1 else if a > b then 1 else 0)"

fun compare_parts :: "(string \<Rightarrow> nat \<Rightarrow> int) \<Rightarrow> string \<Rightarrow> string \<Rightarrow> nat list \<Rightarrow> int \<Rightarrow> int" where
  "compare_parts num left right [] otherwise = otherwise"
| "compare_parts num left right (i # is) otherwise =
     (let l = num left i; r = num right i
      in if l < r then - 1 else if l > r then 1 else compare_parts num left right is otherwise)"

definition compareVersion :: "string \<Rightarrow> string \<Rightarrow> int" where
  "compareVersion left right =
     compare_parts (\<lambda>v i. sscanf_int (versionPart v i)) left right [0, 1, 2] (string_compare left right)"

section \<open>Templates\<close>

record PolicySourceRef =
  src_ID :: string
  src_Repository :: string
  src_Channel :: string
  src_Tag :: string
  src_Commit :: string
  src_TagObjectSHA :: string
  src_TagVerified :: bool
  src_ArchiveSHA256 :: string
  src_IndexSHA256 :: string

record RuleCondition =
  rc_Field :: string
  rc_Operator :: string
  rc_Value :: string

record RuleExclusion =
  re_RuleID :: int
  re_Conditions :: "RuleCondition list"

record TargetExclusion =
  te_RuleID :: int
  te_Target :: string
  te_Conditions :: "RuleCondition list"

record EngineBypass =
  eb_Reason :: string
  eb_ExpiresAt :: time
  eb_Conditions :: "RuleCondition list"

record Defaults =
  d_Mode :: string
  d_ParanoiaLevel :: int
  d_ExecutingParanoiaLevel :: int
  d_InboundScore :: int
  d_OutboundScore :: int
  d_RequestBody :: bool
  d_ResponseBody :: bool
  d_EarlyBlocking :: bool
  d_SamplingPercentage :: int
  d_ExcludedPaths :: "string list"
  d_ExcludedIPs :: "string list"
  d_CustomRules :: string
  d_CustomRuleCount :: int
  d_CRSSource :: "PolicySourceRef option"
  d_CRSSetup :: "(string \<times> string) list"
  d_BeforeExclusions :: "RuleExclusion list"
  d_AfterExclusions :: "RuleExclusion list"
  d_TagExclusions :: "string list"
  d_TargetExclusions :: "TargetExclusion list"
  d_EngineBypasses :: "EngineBypass list"
  d_ArtifactFormat :: string
  d_HotRuleSetVersion :: string
  d_HotRuleSetSHA256 :: string

record Template =
  t_SchemaVersion :: int
  t_Key :: string
  t_Version :: string
  t_Name :: string
  t_Description :: string
  t_CRSTrack :: string
  t_CRSVersion :: string
  t_Defaults :: Defaults
  t_MigrationNotes :: "string list"
  t_Status :: string
  t_Digest :: string

definition Reference :: "Template \<Rightarrow> string" where
  "Reference t = t_Key t @ ''@'' @ t_Version t"

datatype template_error =
    TemplateFieldsRequired
  | InvalidTrack
  | InvalidDefaultMode
  | InvalidDefaultParanoia
  | InvalidDefaultInbound
  | UnsupportedFormat
  | SourceNotPinned
  | ChannelMismatch
  | CRSVersionMismatch
  | InvalidDefaultExecuting
  | InvalidDefaultOutbound
  | InvalidDefaultSampling

definition is_bundle_format :: "string \<Rightarrow> bool" where
  "is_bundle_format f \<longleftrightarrow> f = ''policy-bundle-v2'' \<or> f = ''policy-bundle-v3''"

text \<open>The checks of \<^verbatim>\<open>Validate\<close> on the pinned CRS source of a policy bundle.\<close>

definition validate_source :: "Template \<Rightarrow> template_error option" where
  "validate_source t =
     (case d_CRSSource (t_Defaults t) of
        None \<Rightarrow> Some SourceNotPinned
      | Some src \<Rightarrow>
          if src_ID src = [] \<or> src_Commit src = [] \<or> len (src_ArchiveSHA256 src) \<noteq> 64 \<or> len (src_IndexSHA256 src) \<noteq> 64
            then Some SourceNotPinned
          else if src_Channel src \<noteq> [] \<and> src_Channel src \<noteq> t_CRSTrack t then Some ChannelMismatch
          else if trim_prefix (t_CRSVersion t) ''v'' \<noteq> trim_prefix (src_Tag src) ''v'' then Some CRSVersionMismatch
          else None)"

definition Validate :: "Template \<Rightarrow> template_error option" where
  "Validate t =
     (let d = t_Defaults t
      in if t_SchemaVersion t < 1 \<or> t_Key t = [] \<or> t_Version t = [] \<or> t_Name t = [] \<or> t_CRSVersion t = []
           then Some TemplateFieldsRequired
         else if t_CRSTrack t \<noteq> ''stable'' \<and> t_CRSTrack t \<noteq> ''lts'' then Some InvalidTrack
         else if d_Mode d \<noteq> ''DetectionOnly'' \<and> d_Mode d \<noteq> ''On'' then Some InvalidDefaultMode
         else if d_ParanoiaLevel d < 1 \<or> d_ParanoiaLevel d > 4 then Some InvalidDefaultParanoia
         else if d_InboundScore d < 1 \<or> d_InboundScore d > 100 then Some InvalidDefaultInbound
         else if d_ArtifactFormat d \<noteq> [] \<and> \<not> is_bundle_format (d_ArtifactFormat d) then Some UnsupportedFormat
         else case (if is_bundle_format (d_ArtifactFormat d) then validate_source t else None) of
             Some e \<Rightarrow> Some e
           | None \<Rightarrow>
               if d_ExecutingParanoiaLevel d \<noteq> 0 \<and>
                    (d_ExecutingParanoiaLevel d < d_ParanoiaLevel d \<or> d_ExecutingParanoiaLevel d > 4)
                 then Some InvalidDefaultExecuting
               else if d_OutboundScore d \<noteq> 0 \<and> (d_OutboundScore d < 1 \<or> d_OutboundScore d > 100)
                 then Some InvalidDefaultOutbound
               else if d_SamplingPercentage d \<noteq> 0 \<and> (d_SamplingPercentage d < 1 \<or> d_SamplingPercentage d > 100)
                 then Some InvalidDefaultSampling
               else None)"

section \<open>Catalog\<close>

definition StatusPublished :: string where "StatusPublished = ''PUBLISHED''"
definition StatusDeprecated :: string where "StatusDeprecated = ''DEPRECATED''"
definition StatusWithdrawn :: string where "StatusWithdrawn = ''WITHDRAWN''"

definition validStatus :: "string \<Rightarrow> bool" where
  "validStatus status \<longleftrightarrow> status = StatusPublished \<or> status = StatusDeprecated \<or> status = StatusWithdrawn"

record policyLifecycle =
  lc_Key :: string
  lc_CurrentVersion :: string
  lc_Versions :: "(string \<times> string) list"

record lifecycleCatalog =
  lc_DefaultKey :: string
  lc_Policies :: "policyLifecycle list"

record Catalog =
  c_items :: "Template list"
  c_byKey :: "(string \<times> Template) list"
  c_byRefs :: "(string \<times> Template) list"
  c_defaultKey :: string

datatype catalog_error =
    DefaultKeyRequired
  | LifecycleFieldsRequired
  | InvalidStatus string
  | CurrentNotPublished string
  | TemplateUndecodable string
  | TemplateInvalid string template_error
  | MissingLifecycle string
  | DuplicateTemplate string
  | VersionsDoNotMatch
  | DefaultMissing string
  | DefaultNotDetectionOnly

definition status_step :: "string \<Rightarrow> (string \<times> string) list \<Rightarrow> string \<times> string \<Rightarrow> catalog_error + (string \<times> string) list" where
  "status_step key statuses item =
     (let (version, status) = item
      in if \<not> validStatus status then Inl (InvalidStatus (key @ ''@'' @ version))
         else Inr (AList.update (key @ ''@'' @ version) status statuses))"

text \<open>One iteration over \<^verbatim>\<open>lifecycle.Policies\<close>: the state is the maps \<^verbatim>\<open>statuses\<close> and \<^verbatim>\<open>currentRefs\<close>.\<close>

definition lifecycle_step ::
  "(string \<times> string) list \<times> (string \<times> string) list \<Rightarrow> policyLifecycle \<Rightarrow>
     catalog_error + ((string \<times> string) list \<times> (string \<times> string) list)" where
  "lifecycle_step st policy =
     (let (statuses, currentRefs) = st
      in if lc_Key policy = [] \<or> lc_CurrentVersion policy = [] \<or> lc_Versions policy = [] then Inl LifecycleFieldsRequired
         else case fold_result (status_step (lc_Key policy)) statuses (lc_Versions policy) of
             Inl e \<Rightarrow> Inl e
           | Inr statuses' \<Rightarrow>
               (let currentRef = lc_Key policy @ ''@'' @ lc_CurrentVersion policy
                in if map_of statuses' currentRef \<noteq> Some StatusPublished then Inl (CurrentNotPublished currentRef)
                   else Inr (statuses', AList.update (lc_Key policy) currentRef currentRefs)))"

record template_file =
  tf_Name :: string
  tf_IsDir :: bool
  tf_Raw :: string
  tf_Decoded :: "Template option"

definition template_step ::
  "(string \<Rightarrow> string) \<Rightarrow> (string \<times> string) list \<Rightarrow> (string \<times> string) list \<Rightarrow> Catalog \<Rightarrow> template_file \<Rightarrow> catalog_error + Catalog" where
  "template_step sha256_hex statuses currentRefs catalog entry =
     (if tf_IsDir entry \<or> \<not> has_suffix (tf_Name entry) ''.json'' then Inr catalog
      else case tf_Decoded entry of
          None \<Rightarrow> Inl (TemplateUndecodable (tf_Name entry))
        | Some item0 \<Rightarrow>
            (case Validate item0 of
               Some e \<Rightarrow> Inl (TemplateInvalid (tf_Name entry) e)
             | None \<Rightarrow>
                 (case map_of statuses (Reference item0) of
                    None \<Rightarrow> Inl (MissingLifecycle (Reference item0))
                  | Some status \<Rightarrow>
                      (let item = item0\<lparr>t_Status := status, t_Digest := sha256_hex (tf_Raw entry)\<rparr>
                       in if map_of (c_byRefs catalog) (Reference item) \<noteq> None then Inl (DuplicateTemplate (Reference item))
                          else Inr (catalog\<lparr>
                            c_items := c_items catalog @ [item],
                            c_byRefs := AList.update (Reference item) item (c_byRefs catalog),
                            c_byKey := (if map_of currentRefs (t_Key item) = Some (Reference item)
                                        then AList.update (t_Key item) item (c_byKey catalog)
                                        else c_byKey catalog)\<rparr>)))))"

definition template_less :: "Template \<Rightarrow> Template \<Rightarrow> bool" where
  "template_less a b =
     (if t_Key a = t_Key b then compareVersion (t_Version a) (t_Version b) > 0 else t_Key a < t_Key b)"

definition Load :: "(string \<Rightarrow> string) \<Rightarrow> lifecycleCatalog \<Rightarrow> template_file list \<Rightarrow> catalog_error + Catalog" where
  "Load sha256_hex lifecycle entries =
     (if lc_DefaultKey lifecycle = [] then Inl DefaultKeyRequired
      else case fold_result lifecycle_step ([], []) (lc_Policies lifecycle) of
          Inl e \<Rightarrow> Inl e
        | Inr (statuses, currentRefs) \<Rightarrow>
            (case fold_result (template_step sha256_hex statuses currentRefs)
                    \<lparr>c_items = [], c_byKey = [], c_byRefs = [], c_defaultKey = lc_DefaultKey lifecycle\<rparr> entries of
               Inl e \<Rightarrow> Inl e
             | Inr catalog \<Rightarrow>
                 if len (c_items catalog) \<noteq> len statuses then Inl VersionsDoNotMatch
                 else (case map_of (c_byKey catalog) (c_defaultKey catalog) of
                         None \<Rightarrow> Inl (DefaultMissing (c_defaultKey catalog))
                       | Some item \<Rightarrow>
                           if d_Mode (t_Defaults item) \<noteq> ''DetectionOnly'' then Inl DefaultNotDetectionOnly
                           else Inr (catalog\<lparr>c_items := sort_by template_less (c_items catalog)\<rparr>))))"

definition Latest :: "Catalog \<Rightarrow> string \<Rightarrow> Template option" where
  "Latest c key = map_of (c_byKey c) key"

definition Version :: "Catalog \<Rightarrow> string \<Rightarrow> string \<Rightarrow> Template option" where
  "Version c key version = map_of (c_byRefs c) (key @ ''@'' @ version)"

text \<open>\<^verbatim>\<open>Default\<close> and the zero value Go's map lookup would give are told apart by the option.\<close>

definition Default :: "Catalog \<Rightarrow> Template option" where
  "Default c = map_of (c_byKey c) (c_defaultKey c)"

definition ListTemplates :: "Catalog \<Rightarrow> Template list" where
  "ListTemplates c = c_items c"

definition ListLatest :: "Catalog \<Rightarrow> Template list" where
  "ListLatest c = sort_by (\<lambda>a b. t_Key a < t_Key b) (map snd (c_byKey c))"

section \<open>Migration plan\<close>

record MigrationPlan =
  mp_Status :: string
  mp_Changes :: "string list"
  mp_Warnings :: "string list"

definition PlanMigration :: "int \<Rightarrow> string \<Rightarrow> string \<Rightarrow> Template \<Rightarrow> MigrationPlan" where
  "PlanMigration sourceSchemaVersion sourceTemplateVersion sourceCRSVersion target =
     \<lparr>mp_Status = ''READY'',
      mp_Changes =
        (if sourceSchemaVersion \<noteq> t_SchemaVersion target
         then [''schema '' @ (if sourceSchemaVersion \<noteq> 0 then itoa sourceSchemaVersion else ''unset'') @ '' -> '' @
               itoa (t_SchemaVersion target)]
         else []) @
        (if sourceTemplateVersion \<noteq> t_Version target
         then [''template '' @ sourceTemplateVersion @ '' -> '' @ t_Version target] else []) @
        (if sourceCRSVersion \<noteq> t_CRSVersion target
         then [''CRS '' @ sourceCRSVersion @ '' -> '' @ t_CRSVersion target] else []),
      mp_Warnings =
        (if sourceCRSVersion \<noteq> t_CRSVersion target
         then [''CRS rule IDs, exclusions, plugins and engine compatibility must be checked by the release verification pipeline'']
         else [])\<rparr>"

section \<open>Lemmas\<close>

definition version_key :: "string \<Rightarrow> int \<times> int \<times> int \<times> string" where
  "version_key v = (sscanf_int (versionPart v 0), sscanf_int (versionPart v 1), sscanf_int (versionPart v 2), v)"

interpretation system_versions: version_order compareVersion version_key
  by unfold_locales (auto simp: compareVersion_def version_key_def string_compare_def Let_def)

interpretation template_order: sort_order template_less
proof
  fix x y z :: Template
  show "template_less x y \<Longrightarrow> \<not> template_less y x"
    by (auto simp: template_less_def system_versions.cmp_gt_0 split: if_splits)
  show "template_less x z \<Longrightarrow> template_less x y \<or> template_less y z"
    by (auto simp: template_less_def system_versions.cmp_gt_0 split: if_splits)
qed

lemma Validate_ignores_status [simp]:
  "Validate (t\<lparr>t_Status := s, t_Digest := d\<rparr>) = Validate t"
  by (cases t) (simp only: Validate_def validate_source_def Template.select_convs Template.update_convs)

lemma Reference_ignores_status [simp]:
  "Reference (t\<lparr>t_Status := s, t_Digest := d\<rparr>) = Reference t"
  by (simp add: Reference_def)

text \<open>What the loop over the template files keeps of the catalog under construction.\<close>

definition catalog_inv :: "(string \<times> string) list \<Rightarrow> (string \<times> string) list \<Rightarrow> Catalog \<Rightarrow> bool" where
  "catalog_inv statuses currentRefs c \<longleftrightarrow>
     (\<forall>r t. map_of (c_byRefs c) r = Some t \<longrightarrow>
        Reference t = r \<and> Validate t = None \<and> map_of statuses r = Some (t_Status t) \<and> t \<in> set (c_items c)) \<and>
     (\<forall>k t. map_of (c_byKey c) k = Some t \<longrightarrow>
        t_Key t = k \<and> map_of currentRefs k = Some (Reference t) \<and> map_of (c_byRefs c) (Reference t) = Some t) \<and>
     (\<forall>t \<in> set (c_items c). map_of (c_byRefs c) (Reference t) = Some t)"

lemma catalog_inv_ref:
  "catalog_inv statuses refs c \<Longrightarrow> map_of (c_byRefs c) r = Some t \<Longrightarrow>
     Reference t = r \<and> Validate t = None \<and> map_of statuses r = Some (t_Status t) \<and> t \<in> set (c_items c)"
  unfolding catalog_inv_def by blast

lemma catalog_inv_key:
  "catalog_inv statuses refs c \<Longrightarrow> map_of (c_byKey c) k = Some t \<Longrightarrow>
     t_Key t = k \<and> map_of refs k = Some (Reference t) \<and> map_of (c_byRefs c) (Reference t) = Some t"
  unfolding catalog_inv_def by blast

lemma catalog_inv_item:
  "catalog_inv statuses refs c \<Longrightarrow> t \<in> set (c_items c) \<Longrightarrow> map_of (c_byRefs c) (Reference t) = Some t"
  unfolding catalog_inv_def by blast

lemma catalog_inv_step:
  assumes "catalog_inv statuses currentRefs c" "template_step sha statuses currentRefs c entry = Inr c'"
  shows "catalog_inv statuses currentRefs c'"
proof (cases "tf_IsDir entry \<or> \<not> has_suffix (tf_Name entry) ''.json''")
  case True
  with assms show ?thesis by (auto simp: template_step_def)
next
  case False
  with assms(2) obtain item0 status item where
    valid: "Validate item0 = None" and status: "map_of statuses (Reference item0) = Some status"
    and item: "item = item0\<lparr>t_Status := status, t_Digest := sha (tf_Raw entry)\<rparr>"
    and new: "map_of (c_byRefs c) (Reference item) = None"
    and c': "c' = c\<lparr>c_items := c_items c @ [item], c_byRefs := AList.update (Reference item) item (c_byRefs c),
      c_byKey := (if map_of currentRefs (t_Key item) = Some (Reference item)
                  then AList.update (t_Key item) item (c_byKey c) else c_byKey c)\<rparr>"
    by (auto simp: template_step_def Let_def split: option.splits if_splits)
  have facts: "Validate item = None" "map_of statuses (Reference item) = Some (t_Status item)"
    using valid status by (simp_all add: item)
  have refs: "map_of (c_byRefs c') = (map_of (c_byRefs c))(Reference item \<mapsto> item)"
    and items: "set (c_items c') = insert item (set (c_items c))"
    and keys: "map_of (c_byKey c') = (if map_of currentRefs (t_Key item) = Some (Reference item)
      then (map_of (c_byKey c))(t_Key item \<mapsto> item) else map_of (c_byKey c))"
    by (simp_all add: c' update_conv')
  have old: "Reference t \<noteq> Reference item" if "map_of (c_byRefs c) (Reference t) = Some t" for t
    using that new by auto
  have r: "Reference t = r \<and> Validate t = None \<and> map_of statuses r = Some (t_Status t) \<and> t \<in> set (c_items c')"
    if "map_of (c_byRefs c') r = Some t" for r t
  proof (cases "r = Reference item")
    case True
    with that have "t = item" by (simp add: refs)
    with True facts show ?thesis by (simp only: items) simp
  next
    case False
    with that have "map_of (c_byRefs c) r = Some t" by (simp add: refs)
    from catalog_inv_ref [OF assms(1) this] show ?thesis unfolding items by blast
  qed
  have k: "t_Key t = k \<and> map_of currentRefs k = Some (Reference t) \<and> map_of (c_byRefs c') (Reference t) = Some t"
    if "map_of (c_byKey c') k = Some t" for k t
  proof (cases "map_of (c_byKey c) k = Some t")
    case True
    from catalog_inv_key [OF assms(1) this] show ?thesis using old [of t] unfolding refs by simp
  next
    case False
    with that have "k = t_Key item \<and> t = item \<and> map_of currentRefs k = Some (Reference item)"
      by (auto simp: keys fun_upd_apply split: if_split_asm)
    then show ?thesis unfolding refs by (elim conjE) (simp only: fun_upd_same simp_thms)
  qed
  have i: "map_of (c_byRefs c') (Reference t) = Some t" if "t \<in> set (c_items c')" for t
  proof (cases "t = item")
    case False
    with that have "t \<in> set (c_items c)" unfolding items by blast
    from catalog_inv_item [OF assms(1) this] show ?thesis using old [of t] unfolding refs by simp
  qed (simp add: refs)
  show ?thesis unfolding catalog_inv_def using r k i by blast
qed

lemma catalog_inv_loop:
  assumes "fold_result (template_step sha statuses currentRefs) c entries = Inr c'"
    and "catalog_inv statuses currentRefs c"
  shows "catalog_inv statuses currentRefs c'"
  using assms catalog_inv_step by (rule fold_result_inv)

lemma template_step_defaultKey:
  "template_step sha statuses currentRefs c entry = Inr c' \<Longrightarrow> c_defaultKey c' = c_defaultKey c"
  by (auto simp: template_step_def Let_def split: option.splits if_splits)

text \<open>The lifecycle loop: a current reference is one whose status is published.\<close>

definition ref_of_key :: "string \<Rightarrow> string \<Rightarrow> bool" where
  "ref_of_key key r \<longleftrightarrow> has_prefix r (key @ ''@'')"

lemma ref_of_key_unique:
  assumes "CHR ''@'' \<notin> set k" "CHR ''@'' \<notin> set k'" "ref_of_key k r" "ref_of_key k' r"
  shows "k = k'"
proof -
  obtain a where a: "r = k @ CHR ''@'' # a" using assms(3) by (auto simp: ref_of_key_def has_prefix_iff)
  obtain b where b: "r = k' @ CHR ''@'' # b" using assms(4) by (auto simp: ref_of_key_def has_prefix_iff)
  from a b have "split (CHR ''@'') r = k # split (CHR ''@'') a" "split (CHR ''@'') r = k' # split (CHR ''@'') b"
    using assms split_append_no_sep by metis+
  then show ?thesis by simp
qed

lemma status_steps_other_keys:
  assumes "fold_result (status_step key) statuses vs = Inr statuses'" "\<not> ref_of_key key r"
  shows "map_of statuses' r = map_of statuses r"
  using assms
proof (induction vs arbitrary: statuses)
  case (Cons v vs)
  have "r \<noteq> key @ ''@'' @ fst v" using Cons.prems(2) by (auto simp: ref_of_key_def has_prefix_iff)
  with Cons show ?case
    by (auto simp: status_step_def update_conv' split: sum.splits prod.splits if_splits)
qed simp

definition lifecycle_inv :: "(string \<times> string) list \<times> (string \<times> string) list \<Rightarrow> bool" where
  "lifecycle_inv st \<longleftrightarrow> (\<forall>k r. map_of (snd st) k = Some r \<longrightarrow>
     CHR ''@'' \<notin> set k \<and> ref_of_key k r \<and> map_of (fst st) r = Some StatusPublished)"

lemma lifecycle_step_inv:
  assumes inv: "lifecycle_inv (statuses, refs)" and step: "lifecycle_step (statuses, refs) p = Inr (statuses', refs')"
    and key: "CHR ''@'' \<notin> set (lc_Key p)"
    and fresh: "map_of refs (lc_Key p) = None"
  shows "lifecycle_inv (statuses', refs') \<and> dom (map_of refs') = insert (lc_Key p) (dom (map_of refs))"
proof -
  let ?cur = "lc_Key p @ ''@'' @ lc_CurrentVersion p"
  have loop: "fold_result (status_step (lc_Key p)) statuses (lc_Versions p) = Inr statuses'"
    and cur: "map_of statuses' ?cur = Some StatusPublished"
    and refs': "refs' = AList.update (lc_Key p) ?cur refs"
    using step by (auto simp: lifecycle_step_def Let_def split: if_splits sum.splits)
  have cur_ref: "ref_of_key (lc_Key p) ?cur" by (auto simp: ref_of_key_def has_prefix_iff)
  have old: "map_of statuses' r = Some StatusPublished" if "map_of refs k = Some r" for k r
  proof -
    have k: "CHR ''@'' \<notin> set k" "ref_of_key k r" "map_of statuses r = Some StatusPublished"
      using inv that by (auto simp: lifecycle_inv_def)
    have "k \<noteq> lc_Key p" using fresh that by auto
    then have "\<not> ref_of_key (lc_Key p) r" using ref_of_key_unique k key by blast
    then show ?thesis using status_steps_other_keys [OF loop] k(3) by simp
  qed
  have "lifecycle_inv (statuses', refs')"
    using inv key cur cur_ref old by (auto simp: lifecycle_inv_def refs' update_conv')
  then show ?thesis by (auto simp: refs' update_conv')
qed

lemma lifecycle_loop_inv:
  assumes "fold_result lifecycle_step (statuses, refs) ps = Inr (statuses', refs')" "lifecycle_inv (statuses, refs)"
    and "distinct (map lc_Key ps)" "\<forall>p \<in> set ps. CHR ''@'' \<notin> set (lc_Key p) \<and> map_of refs (lc_Key p) = None"
  shows "lifecycle_inv (statuses', refs')"
  using assms
proof (induction ps arbitrary: statuses refs)
  case (Cons p ps)
  from Cons.prems(1) obtain s1 r1 where step: "lifecycle_step (statuses, refs) p = Inr (s1, r1)"
    and rest: "fold_result lifecycle_step (s1, r1) ps = Inr (statuses', refs')"
    by (auto split: sum.splits)
  have inv1: "lifecycle_inv (s1, r1)" and dom1: "dom (map_of r1) = insert (lc_Key p) (dom (map_of refs))"
    using lifecycle_step_inv [OF Cons.prems(2) step] Cons.prems(4) by auto
  have "\<forall>q \<in> set ps. CHR ''@'' \<notin> set (lc_Key q) \<and> map_of r1 (lc_Key q) = None"
  proof
    fix q assume q: "q \<in> set ps"
    then have "lc_Key q \<noteq> lc_Key p" using Cons.prems(3) by (auto simp: rev_image_eqI)
    then have "lc_Key q \<notin> dom (map_of r1)" using q Cons.prems(4) by (auto simp: dom1)
    with q Cons.prems(4) show "CHR ''@'' \<notin> set (lc_Key q) \<and> map_of r1 (lc_Key q) = None" by auto
  qed
  with Cons.IH [OF rest inv1] Cons.prems(3) show ?case by auto
qed simp

lemma Load_parts:
  assumes "Load sha lifecycle entries = Inr c"
  obtains statuses refs c0 where
    "fold_result lifecycle_step ([], []) (lc_Policies lifecycle) = Inr (statuses, refs)"
    "catalog_inv statuses refs c0" "c = c0\<lparr>c_items := sort_by template_less (c_items c0)\<rparr>"
    "c_defaultKey c0 = lc_DefaultKey lifecycle"
    "\<exists>t. map_of (c_byKey c0) (c_defaultKey c0) = Some t \<and> d_Mode (t_Defaults t) = ''DetectionOnly''"
proof -
  let ?c = "\<lparr>c_items = [], c_byKey = [], c_byRefs = [], c_defaultKey = lc_DefaultKey lifecycle\<rparr> :: Catalog"
  obtain statuses refs c0 where parts:
    "fold_result lifecycle_step ([], []) (lc_Policies lifecycle) = Inr (statuses, refs)"
    and loop: "fold_result (template_step sha statuses refs) ?c entries = Inr c0"
    and c: "c = c0\<lparr>c_items := sort_by template_less (c_items c0)\<rparr>"
    and def: "\<exists>t. map_of (c_byKey c0) (c_defaultKey c0) = Some t \<and> d_Mode (t_Defaults t) = ''DetectionOnly''"
    using assms by (auto simp: Load_def split: if_splits sum.splits option.splits)
  have "catalog_inv statuses refs c0"
    by (rule catalog_inv_loop [OF loop]) (simp add: catalog_inv_def)
  moreover have "c_defaultKey c0 = lc_DefaultKey lifecycle"
    by (rule fold_result_inv [OF loop]) (auto dest: template_step_defaultKey)
  ultimately show ?thesis using that parts c def by blast
qed

section \<open>Properties\<close>

text \<open>
  versions are totally ordered by \<^verbatim>\<open>compareVersion\<close>: it is antisymmetric, gives 0 only on equal
  texts and is transitive, so the newest version of a list is well defined.
\<close>

theorem compareVersion_total_order:
  "compareVersion b a = - compareVersion a b \<and> (compareVersion a b = 0 \<longleftrightarrow> a = b) \<and>
   (compareVersion a b \<le> 0 \<and> compareVersion b c \<le> 0 \<longrightarrow> compareVersion a c \<le> 0)"
proof (intro conjI impI)
  show "compareVersion b a = - compareVersion a b" by (rule system_versions.cmp_flip)
  show "compareVersion a b = 0 \<longleftrightarrow> a = b" by (auto simp: system_versions.cmp_eq_0 version_key_def)
  show "compareVersion a b \<le> 0 \<and> compareVersion b c \<le> 0 \<Longrightarrow> compareVersion a c \<le> 0"
    using system_versions.cmp_trans by blast
qed

lemma compareVersion_total_order_witness:
  "compareVersion ''v4.9.0'' ''4.10.0'' \<le> 0 \<and> compareVersion ''4.10.0'' ''4.25.1'' \<le> 0 \<and> compareVersion ''v4.9.0'' ''4.25.1'' \<le> 0"
proof -
  have "compareVersion ''v4.9.0'' ''4.10.0'' = - 1" "compareVersion ''4.10.0'' ''4.25.1'' = - 1"
    by code_simp+
  then show ?thesis using compareVersion_total_order [of "''4.10.0''" "''v4.9.0''" "''4.25.1''"] by simp
qed

text \<open>
  a catalog that loads is consistent. The default policy exists and starts in detection-only
  mode; every current policy is valid, published, filed under its own key and found again under
  its key and version; the list of templates is sorted by key and then newest version first.
  The keys of the lifecycle file are assumed different and without the separator of references.
\<close>

theorem Load_consistent:
  assumes "Load sha lifecycle entries = Inr c"
    and "distinct (map lc_Key (lc_Policies lifecycle))"
    and "\<forall>p \<in> set (lc_Policies lifecycle). CHR ''@'' \<notin> set (lc_Key p)"
  shows "(\<exists>t. Default c = Some t \<and> Latest c (lc_DefaultKey lifecycle) = Some t \<and> d_Mode (t_Defaults t) = ''DetectionOnly'') \<and>
    (\<forall>k t. Latest c k = Some t \<longrightarrow> t_Key t = k \<and> t_Status t = StatusPublished \<and> Validate t = None \<and>
       Version c k (t_Version t) = Some t \<and> t \<in> set (ListTemplates c)) \<and>
    sorted_wrt (\<lambda>x y. \<not> template_less y x) (ListTemplates c)"
proof -
  obtain statuses refs c0 where
    lc: "fold_result lifecycle_step ([], []) (lc_Policies lifecycle) = Inr (statuses, refs)"
    and inv: "catalog_inv statuses refs c0" and c: "c = c0\<lparr>c_items := sort_by template_less (c_items c0)\<rparr>"
    and def: "c_defaultKey c0 = lc_DefaultKey lifecycle"
      "\<exists>t. map_of (c_byKey c0) (c_defaultKey c0) = Some t \<and> d_Mode (t_Defaults t) = ''DetectionOnly''"
    using Load_parts [OF assms(1)] by blast
  have linv: "lifecycle_inv (statuses, refs)"
    by (rule lifecycle_loop_inv [OF lc]) (use assms in \<open>auto simp: lifecycle_inv_def\<close>)
  have latest: "t_Key t = k \<and> t_Status t = StatusPublished \<and> Validate t = None \<and>
      Version c k (t_Version t) = Some t \<and> t \<in> set (ListTemplates c)" if t: "Latest c k = Some t" for k t
  proof -
    have k: "map_of (c_byKey c0) k = Some t" using t by (simp add: Latest_def c)
    then have ref: "t_Key t = k" "map_of refs k = Some (Reference t)" "map_of (c_byRefs c0) (Reference t) = Some t"
      using catalog_inv_key [OF inv] by blast+
    then have ok: "Validate t = None" "map_of statuses (Reference t) = Some (t_Status t)" "t \<in> set (c_items c0)"
      using catalog_inv_ref [OF inv] by blast+
    have "map_of statuses (Reference t) = Some StatusPublished" using linv ref(2) by (auto simp: lifecycle_inv_def)
    with ok(2) have "t_Status t = StatusPublished" by simp
    moreover have "Reference t = k @ ''@'' @ t_Version t" using ref(1) by (simp add: Reference_def)
    ultimately show ?thesis using ref ok by (simp add: Version_def ListTemplates_def c)
  qed
  have "\<exists>t. Default c = Some t \<and> Latest c (lc_DefaultKey lifecycle) = Some t \<and> d_Mode (t_Defaults t) = ''DetectionOnly''"
    using def by (simp add: Default_def Latest_def c)
  moreover have "sorted_wrt (\<lambda>x y. \<not> template_less y x) (ListTemplates c)"
    using template_order.sorted_sort_by [of "c_items c0"] by (simp add: ListTemplates_def c)
  ultimately show ?thesis using latest by blast
qed

definition baseline_template :: Template where
  "baseline_template = \<lparr>t_SchemaVersion = 1, t_Key = ''crs-baseline'', t_Version = ''1.0.0'', t_Name = ''CRS Baseline'',
     t_Description = [], t_CRSTrack = ''stable'', t_CRSVersion = ''4.0.0'',
     t_Defaults = \<lparr>d_Mode = ''DetectionOnly'', d_ParanoiaLevel = 1, d_ExecutingParanoiaLevel = 0, d_InboundScore = 5,
       d_OutboundScore = 0, d_RequestBody = True, d_ResponseBody = False, d_EarlyBlocking = False,
       d_SamplingPercentage = 0, d_ExcludedPaths = [], d_ExcludedIPs = [], d_CustomRules = [], d_CustomRuleCount = 0,
       d_CRSSource = None, d_CRSSetup = [], d_BeforeExclusions = [], d_AfterExclusions = [], d_TagExclusions = [],
       d_TargetExclusions = [], d_EngineBypasses = [], d_ArtifactFormat = [], d_HotRuleSetVersion = [],
       d_HotRuleSetSHA256 = []\<rparr>,
     t_MigrationNotes = [], t_Status = [], t_Digest = []\<rparr>"

lemma Load_consistent_witness:
  "\<exists>c t. Load id \<lparr>lc_DefaultKey = ''crs-baseline'', lc_Policies = [\<lparr>lc_Key = ''crs-baseline'', lc_CurrentVersion = ''1.0.0'',
      lc_Versions = [(''1.0.0'', ''PUBLISHED'')]\<rparr>]\<rparr>
      [\<lparr>tf_Name = ''crs-baseline.v1.json'', tf_IsDir = False, tf_Raw = ''{}'', tf_Decoded = Some baseline_template\<rparr>] = Inr c \<and>
    Default c = Some t \<and> d_Mode (t_Defaults t) = ''DetectionOnly''"
proof -
  let ?l = "\<lparr>lc_DefaultKey = ''crs-baseline'', lc_Policies = [\<lparr>lc_Key = ''crs-baseline'', lc_CurrentVersion = ''1.0.0'',
      lc_Versions = [(''1.0.0'', ''PUBLISHED'')]\<rparr>]\<rparr> :: lifecycleCatalog"
  let ?e = "[\<lparr>tf_Name = ''crs-baseline.v1.json'', tf_IsDir = False, tf_Raw = ''{}'', tf_Decoded = Some baseline_template\<rparr>]"
  have "isl (Load id ?l ?e) = False" by code_simp
  then obtain c where c: "Load id ?l ?e = Inr c" by (cases "Load id ?l ?e") auto
  then show ?thesis using Load_consistent [OF c] by auto
qed

end
