(* ===== verification/Policy_Settings.thy ===== *)
theory Policy_Settings
  imports System_Policy
begin

text \<open>
  The policy author's settings, \<^verbatim>\<open>src/internal/manager/policy_config.go\<close>, and the exclusion type
  they share with the structured configuration (\<^verbatim>\<open>policy_configuration.go\<close>): the settings
  record, the resolution of the scalar settings against a system policy, and the single-file
  artifact that was the policy format before policy bundles. \<^verbatim>\<open>json.Marshal\<close> is the argument
  \<open>marshal\<close>.
\<close>

section \<open>Data\<close>

record PolicyExclusionCondition =
  cd_Field :: string
  cd_Operator :: string
  cd_Value :: string
  cd_Order :: int

record PolicyExclusion =
  ex_ID :: string
  ex_SourceScope :: string
  ex_Type :: string
  ex_LoadStage :: string
  ex_RuleID :: int
  ex_RuleTag :: string
  ex_Target :: string
  ex_GeneratedRuleID :: int
  ex_Reason :: string
  ex_ExpiresAt :: "time option"
  ex_Enabled :: bool
  ex_Legacy :: bool
  ex_Order :: int
  ex_Conditions :: "PolicyExclusionCondition list"

record PolicyScalarOverrides =
  so_Mode :: string
  so_ParanoiaLevel :: int
  so_ExecutingParanoiaLevel :: int
  so_InboundScore :: int
  so_OutboundScore :: int
  so_RequestBody :: bool
  so_ResponseBody :: bool
  so_EarlyBlocking :: bool
  so_SamplingPercentage :: int

record PolicyDeliveryMetadata =
  dm_Format :: string
  dm_BasePolicyID :: string
  dm_BasePolicySHA256 :: string
  dm_BaseArtifactPath :: string
  dm_BaseArtifactSHA256 :: string
  dm_BaseArtifactSignature :: string
  dm_OverrideConfigSHA256 :: string
  dm_EffectiveConfigSHA256 :: string
  dm_ValidationDigest :: string

record ManagedPolicyMetadata =
  mm_SchemaVersion :: int
  mm_TemplateKey :: string
  mm_TemplateVersion :: string
  mm_CRSTrack :: string
  mm_CRSVersion :: string
  mm_Target :: string
  mm_AutoUpdate :: bool
  mm_PolicyOrigin :: string
  mm_MigrationStatus :: string
  mm_MigratedFrom :: string

record PolicySettings =
  s_SchemaVersion :: int
  s_TemplateKey :: string
  s_TemplateVersion :: string
  s_CRSTrack :: string
  s_CRSVersion :: string
  s_Target :: string
  s_AutoUpdate :: bool
  s_PolicyOrigin :: string
  s_MigrationStatus :: string
  s_MigratedFrom :: string
  s_ArtifactFormat :: string
  s_ScalarSource :: string
  s_ScalarOverrides :: "PolicyScalarOverrides option"
  s_Delivery :: "PolicyDeliveryMetadata option"
  s_ParanoiaLevel :: int
  s_ExecutingParanoiaLevel :: int
  s_InboundScore :: int
  s_OutboundScore :: int
  s_RequestBody :: bool
  s_ResponseBody :: bool
  s_EarlyBlocking :: bool
  s_SamplingPercentage :: int
  s_LegacyPolicyConfirmed :: bool
  s_ExcludedPaths :: "string list"
  s_ExcludedIPs :: "string list"
  s_Exclusions :: "PolicyExclusion list"
  s_CustomRules :: string
  s_CustomRuleCount :: int

section \<open>Scalar settings\<close>

definition PolicyScalarSourceInherit :: string where "PolicyScalarSourceInherit = ''INHERIT''"
definition PolicyScalarSourceCustom :: string where "PolicyScalarSourceCustom = ''CUSTOM''"

datatype scalar_error = OverridesRequired | InvalidScalarSource

definition resolvePolicyScalars :: "Template \<Rightarrow> string \<Rightarrow> PolicySettings \<Rightarrow> scalar_error + (string \<times> PolicySettings)" where
  "resolvePolicyScalars policyTemplate requestedMode settings =
     (let d = t_Defaults policyTemplate
      in if s_ScalarSource settings = PolicyScalarSourceInherit then
           Inr (d_Mode d, settings\<lparr>
             s_ParanoiaLevel := d_ParanoiaLevel d,
             s_ExecutingParanoiaLevel :=
               (if d_ExecutingParanoiaLevel d = 0 then d_ParanoiaLevel d else d_ExecutingParanoiaLevel d),
             s_InboundScore := d_InboundScore d,
             s_OutboundScore := (if d_OutboundScore d = 0 then 4 else d_OutboundScore d),
             s_RequestBody := d_RequestBody d,
             s_ResponseBody := d_ResponseBody d,
             s_EarlyBlocking := d_EarlyBlocking d,
             s_SamplingPercentage := (if d_SamplingPercentage d = 0 then 100 else d_SamplingPercentage d)\<rparr>)
         else if s_ScalarSource settings = PolicyScalarSourceCustom then
           (case s_ScalarOverrides settings of
              None \<Rightarrow> Inl OverridesRequired
            | Some overrides \<Rightarrow>
                Inr (so_Mode overrides, settings\<lparr>
                  s_ParanoiaLevel := so_ParanoiaLevel overrides,
                  s_ExecutingParanoiaLevel := so_ExecutingParanoiaLevel overrides,
                  s_InboundScore := so_InboundScore overrides,
                  s_OutboundScore := so_OutboundScore overrides,
                  s_RequestBody := so_RequestBody overrides,
                  s_ResponseBody := so_ResponseBody overrides,
                  s_EarlyBlocking := so_EarlyBlocking overrides,
                  s_SamplingPercentage := so_SamplingPercentage overrides\<rparr>))
         else if s_ScalarSource settings = [] then Inr (requestedMode, settings)
         else Inl InvalidScalarSource)"

section \<open>Single-file artifact\<close>

datatype artifact_error =
    InvalidMode
  | InvalidParanoiaLevel
  | InvalidInboundScore
  | RuleError rule_error
  | SettingsNotEncodable
  | ArtifactTooLarge

definition line_of :: "string \<Rightarrow> string" where
  "line_of s = s @ [newline]"

definition quoted :: "string \<Rightarrow> string" where
  "quoted s = dquote # s @ [dquote]"

text \<open>The bypass rule of the \<open>i\<close>-th excluded address or path.\<close>

definition bypass_line :: "string \<Rightarrow> string \<Rightarrow> int \<Rightarrow> string \<Rightarrow> string" where
  "bypass_line field op ruleID val =
     line_of (''SecRule '' @ field @ '' '' @ quoted (op @ '' '' @ val) @ '' '' @
       quoted (''id:'' @ itoa ruleID @ '',phase:1,pass,nolog,ctl:ruleEngine=Off''))"

definition artifact_text :: "string \<Rightarrow> int \<Rightarrow> int \<Rightarrow> bool \<Rightarrow> string list \<Rightarrow> string list \<Rightarrow> string \<Rightarrow> string" where
  "artifact_text mode paranoiaLevel inboundScore requestBody paths ips rules =
     line_of ''# Generated and signed by M-WAF Manager.'' @
     line_of (''SecRuleEngine '' @ mode) @
     line_of (''SecRequestBodyAccess '' @ (if requestBody then ''On'' else ''Off'')) @
     line_of (''SecAction '' @ quoted (''id:210000,phase:1,nolog,pass,t:none,setvar:tx.blocking_paranoia_level='' @
       itoa paranoiaLevel @ '',setvar:tx.detection_paranoia_level='' @ itoa paranoiaLevel)) @
     line_of (''SecAction '' @ quoted (''id:210001,phase:1,nolog,pass,t:none,setvar:tx.inbound_anomaly_score_threshold='' @
       itoa inboundScore)) @
     concat (map (\<lambda>(i, ip). bypass_line ''REMOTE_ADDR'' ''@ipMatch'' (220000 + int i) ip) (enumerate 0 ips)) @
     concat (map (\<lambda>(i, path). bypass_line ''REQUEST_URI'' ''@beginsWith'' (230000 + int i) path) (enumerate 0 paths)) @
     (if rules \<noteq> [] then line_of ''# Custom rules'' @ line_of rules else [])"

definition managed_settings ::
  "ManagedPolicyMetadata \<Rightarrow> int \<Rightarrow> int \<Rightarrow> bool \<Rightarrow> string list \<Rightarrow> string list \<Rightarrow> string \<Rightarrow> int \<Rightarrow> PolicySettings" where
  "managed_settings metadata paranoiaLevel inboundScore requestBody paths ips rules ruleCount =
     \<lparr>s_SchemaVersion = mm_SchemaVersion metadata, s_TemplateKey = mm_TemplateKey metadata,
      s_TemplateVersion = mm_TemplateVersion metadata, s_CRSTrack = mm_CRSTrack metadata,
      s_CRSVersion = mm_CRSVersion metadata, s_Target = mm_Target metadata, s_AutoUpdate = mm_AutoUpdate metadata,
      s_PolicyOrigin = mm_PolicyOrigin metadata, s_MigrationStatus = mm_MigrationStatus metadata,
      s_MigratedFrom = mm_MigratedFrom metadata, s_ArtifactFormat = [], s_ScalarSource = [],
      s_ScalarOverrides = None, s_Delivery = None, s_ParanoiaLevel = paranoiaLevel, s_ExecutingParanoiaLevel = 0,
      s_InboundScore = inboundScore, s_OutboundScore = 0, s_RequestBody = requestBody, s_ResponseBody = False,
      s_EarlyBlocking = False, s_SamplingPercentage = 0, s_LegacyPolicyConfirmed = False,
      s_ExcludedPaths = paths, s_ExcludedIPs = ips, s_Exclusions = [], s_CustomRules = rules,
      s_CustomRuleCount = ruleCount\<rparr>"

definition buildManagedPolicyArtifact ::
  "(string \<Rightarrow> bool) \<Rightarrow> (string \<Rightarrow> bool) \<Rightarrow> (PolicySettings \<Rightarrow> string option) \<Rightarrow>
   string \<Rightarrow> int \<Rightarrow> int \<Rightarrow> bool \<Rightarrow> string \<Rightarrow> string \<Rightarrow> string \<Rightarrow> ManagedPolicyMetadata \<Rightarrow>
   artifact_error + (string \<times> string)" where
  "buildManagedPolicyArtifact parse_ip parse_cidr marshal mode paranoiaLevel inboundScore requestBody
       pathsText ipsText customRules metadata =
     (if mode \<noteq> ''DetectionOnly'' \<and> mode \<noteq> ''On'' then Inl InvalidMode
      else if paranoiaLevel < 1 \<or> paranoiaLevel > 4 then Inl InvalidParanoiaLevel
      else if inboundScore < 1 \<or> inboundScore > 100 then Inl InvalidInboundScore
      else case policyPaths pathsText of Inl e \<Rightarrow> Inl (RuleError e) | Inr paths \<Rightarrow>
        (case policyIPs parse_ip parse_cidr ipsText of Inl e \<Rightarrow> Inl (RuleError e) | Inr ips \<Rightarrow>
          (case safeCustomRules customRules of Inl e \<Rightarrow> Inl (RuleError e) | Inr (rules, ruleCount) \<Rightarrow>
            (case marshal (managed_settings metadata paranoiaLevel inboundScore requestBody paths ips rules ruleCount) of
               None \<Rightarrow> Inl SettingsNotEncodable
             | Some settingsJSON \<Rightarrow>
                 (let artifact = artifact_text mode paranoiaLevel inboundScore requestBody paths ips rules
                  in if len artifact > 1048576 then Inl ArtifactTooLarge
                     else Inr (artifact, settingsJSON))))))"

definition empty_metadata :: ManagedPolicyMetadata where
  "empty_metadata = \<lparr>mm_SchemaVersion = 0, mm_TemplateKey = [], mm_TemplateVersion = [], mm_CRSTrack = [],
     mm_CRSVersion = [], mm_Target = [], mm_AutoUpdate = False, mm_PolicyOrigin = [], mm_MigrationStatus = [],
     mm_MigratedFrom = []\<rparr>"

definition buildPolicyArtifact ::
  "(string \<Rightarrow> bool) \<Rightarrow> (string \<Rightarrow> bool) \<Rightarrow> (PolicySettings \<Rightarrow> string option) \<Rightarrow>
   string \<Rightarrow> int \<Rightarrow> int \<Rightarrow> bool \<Rightarrow> string \<Rightarrow> string \<Rightarrow> string \<Rightarrow> artifact_error + (string \<times> string)" where
  "buildPolicyArtifact parse_ip parse_cidr marshal mode paranoiaLevel inboundScore requestBody pathsText ipsText customRules =
     buildManagedPolicyArtifact parse_ip parse_cidr marshal mode paranoiaLevel inboundScore requestBody
       pathsText ipsText customRules empty_metadata"

definition buildEnterprisePolicyArtifact ::
  "(string \<Rightarrow> bool) \<Rightarrow> (string \<Rightarrow> bool) \<Rightarrow> (PolicySettings \<Rightarrow> string option) \<Rightarrow> Template \<Rightarrow>
   string \<Rightarrow> int \<Rightarrow> int \<Rightarrow> bool \<Rightarrow> string \<Rightarrow> string \<Rightarrow> string \<Rightarrow> ManagedPolicyMetadata \<Rightarrow>
   artifact_error + (string \<times> string)" where
  "buildEnterprisePolicyArtifact parse_ip parse_cidr marshal policyTemplate mode paranoiaLevel inboundScore requestBody
       pathsText ipsText customRules metadata =
     (case policyPaths pathsText of Inl e \<Rightarrow> Inl (RuleError e) | Inr enterprisePaths \<Rightarrow>
        (case policyIPs parse_ip parse_cidr ipsText of Inl e \<Rightarrow> Inl (RuleError e) | Inr enterpriseIPs \<Rightarrow>
          (case safeCustomRules customRules of Inl e \<Rightarrow> Inl (RuleError e) | Inr (enterpriseRules, enterpriseRuleCount) \<Rightarrow>
            (case validateCustomRuleScopeIDs enterpriseRules PolicyScopeEnterprise of
               Some e \<Rightarrow> Inl (RuleError e)
             | None \<Rightarrow>
                 (let d = t_Defaults policyTemplate;
                      effectivePaths = d_ExcludedPaths d @ enterprisePaths;
                      effectiveIPs = d_ExcludedIPs d @ enterpriseIPs;
                      effectiveRules = join [newline] (uniqueNonEmptyLines (d_CustomRules d @ [newline] @ enterpriseRules))
                  in case buildManagedPolicyArtifact parse_ip parse_cidr marshal mode paranoiaLevel inboundScore requestBody
                            (join [newline] effectivePaths) (join [newline] effectiveIPs) effectiveRules metadata of
                       Inl e \<Rightarrow> Inl e
                     | Inr (artifact, _) \<Rightarrow>
                         (case marshal (managed_settings metadata paranoiaLevel inboundScore requestBody
                                  enterprisePaths enterpriseIPs enterpriseRules enterpriseRuleCount) of
                            None \<Rightarrow> Inl SettingsNotEncodable
                          | Some settingsJSON \<Rightarrow> Inr (artifact, settingsJSON)))))))"

section \<open>Lemmas\<close>

lemma Validate_ranges:
  assumes "Validate t = None"
  shows "d_Mode (t_Defaults t) = ''DetectionOnly'' \<or> d_Mode (t_Defaults t) = ''On''"
    "1 \<le> d_ParanoiaLevel (t_Defaults t)" "d_ParanoiaLevel (t_Defaults t) \<le> 4"
    "1 \<le> d_InboundScore (t_Defaults t)" "d_InboundScore (t_Defaults t) \<le> 100"
    "d_ExecutingParanoiaLevel (t_Defaults t) = 0 \<or>
       d_ParanoiaLevel (t_Defaults t) \<le> d_ExecutingParanoiaLevel (t_Defaults t) \<and> d_ExecutingParanoiaLevel (t_Defaults t) \<le> 4"
    "d_OutboundScore (t_Defaults t) = 0 \<or> 1 \<le> d_OutboundScore (t_Defaults t) \<and> d_OutboundScore (t_Defaults t) \<le> 100"
    "d_SamplingPercentage (t_Defaults t) = 0 \<or> 1 \<le> d_SamplingPercentage (t_Defaults t) \<and> d_SamplingPercentage (t_Defaults t) \<le> 100"
  using assms by (auto simp: Validate_def Let_def split: if_splits option.splits)

lemma contains_append_left: "contains a x \<Longrightarrow> contains (a @ b) x"
  by (auto simp: contains_iff) (metis append.assoc)

lemma contains_append_right: "contains b x \<Longrightarrow> contains (a @ b) x"
  by (auto simp: contains_iff) (metis append.assoc)

lemma contains_concat: "x \<in> set xs \<Longrightarrow> contains (concat xs) x"
  by (induction xs) (auto simp: contains_iff intro: contains_append_right [unfolded contains_iff])

lemma enumerate_mem: "x \<in> set xs \<Longrightarrow> \<exists>i < length xs. (i, x) \<in> set (enumerate 0 xs)"
  by (drule in_set_conv_nth [THEN iffD1]) (fastforce simp: in_set_enumerate_eq)

lemma contains_bypass_line:
  assumes "v \<in> set vs"
  shows "\<exists>i < length vs. contains (concat (map (\<lambda>(i, v). bypass_line field op (base + int i) v) (enumerate 0 vs)))
    (bypass_line field op (base + int i) v)"
proof -
  obtain i where i: "i < length vs" "(i, v) \<in> set (enumerate 0 vs)" using enumerate_mem [OF assms] by blast
  have "bypass_line field op (base + int i) v \<in> set (map (\<lambda>(i, v). bypass_line field op (base + int i) v) (enumerate 0 vs))"
    using i(2) by (force simp: image_iff)
  from contains_concat [OF this] show ?thesis using i(1) by blast
qed

lemma artifact_has_path:
  "path \<in> set paths \<Longrightarrow> \<exists>i < length paths. contains (artifact_text mode pl score rb paths ips rules)
    (bypass_line ''REQUEST_URI'' ''@beginsWith'' (230000 + int i) path)"
  unfolding artifact_text_def
  by (drule contains_bypass_line [of _ _ "''REQUEST_URI''" "''@beginsWith''" 230000])
    (blast intro: contains_append_left contains_append_right)

lemma artifact_has_ip:
  "ip \<in> set ips \<Longrightarrow> \<exists>i < length ips. contains (artifact_text mode pl score rb paths ips rules)
    (bypass_line ''REMOTE_ADDR'' ''@ipMatch'' (220000 + int i) ip)"
  unfolding artifact_text_def
  by (drule contains_bypass_line [of _ _ "''REMOTE_ADDR''" "''@ipMatch''" 220000])
    (blast intro: contains_append_left contains_append_right)

lemma buildManaged_parts:
  assumes "buildManagedPolicyArtifact pip pcidr marshal mode pl score rb pathsText ipsText rulesText md = Inr (artifact, js)"
  obtains paths ips rules n where "policyPaths pathsText = Inr paths" "policyIPs pip pcidr ipsText = Inr ips"
    "safeCustomRules rulesText = Inr (rules, n)" "artifact = artifact_text mode pl score rb paths ips rules"
    "len artifact \<le> 1048576" "mode = ''DetectionOnly'' \<or> mode = ''On''" "1 \<le> pl" "pl \<le> 4" "1 \<le> score" "score \<le> 100"
    "marshal (managed_settings md pl score rb paths ips rules n) = Some js"
  using assms by (auto simp: buildManagedPolicyArtifact_def Let_def split: if_splits sum.splits option.splits)

text \<open>A trimmed line of a list is one of the values read back from the joined list.\<close>

lemma joined_line:
  assumes "v \<in> set xs" "trim_space v = v" "v \<noteq> []" "newline \<notin> set v"
  shows "v \<in> set (uniqueNonEmptyLines (join [newline] xs))"
  using set_split_join [OF assms(1,4)] assms(2,3) by (force simp: set_uniqueNonEmptyLines)

section \<open>Properties\<close>

text \<open>
  settings that inherit from a valid system policy resolve to a valid mode and to values in
  range: paranoia level 1 to 4, executing paranoia level between it and 4, both anomaly
  thresholds and the sampling percentage 1 to 100, whatever the settings held before.
\<close>

theorem inherited_scalars_valid:
  assumes "Validate t = None" "s_ScalarSource settings = PolicyScalarSourceInherit"
  shows "\<exists>mode s. resolvePolicyScalars t requested settings = Inr (mode, s) \<and>
    (mode = ''DetectionOnly'' \<or> mode = ''On'') \<and>
    1 \<le> s_ParanoiaLevel s \<and> s_ParanoiaLevel s \<le> s_ExecutingParanoiaLevel s \<and> s_ExecutingParanoiaLevel s \<le> 4 \<and>
    1 \<le> s_InboundScore s \<and> s_InboundScore s \<le> 100 \<and> 1 \<le> s_OutboundScore s \<and> s_OutboundScore s \<le> 100 \<and>
    1 \<le> s_SamplingPercentage s \<and> s_SamplingPercentage s \<le> 100"
  using Validate_ranges [OF assms(1)] assms(2) by (auto simp: resolvePolicyScalars_def Let_def)

lemma inherited_scalars_valid_witness:
  "Validate baseline_template = None \<and>
   (\<exists>mode s. resolvePolicyScalars baseline_template ''On''
      ((managed_settings empty_metadata 9 900 True [] [] [] 0)\<lparr>s_ScalarSource := PolicyScalarSourceInherit\<rparr>) = Inr (mode, s) \<and>
      s_ParanoiaLevel s \<le> 4)"
proof -
  have v: "Validate baseline_template = None" by code_simp
  show ?thesis
    using v inherited_scalars_valid [OF v, of "(managed_settings empty_metadata 9 900 True [] [] [] 0)
      \<lparr>s_ScalarSource := PolicyScalarSourceInherit\<rparr>" "''On''"]
    by fastforce
qed

text \<open>
  an enterprise artifact carries a bypass rule for every excluded path and address of the
  enterprise and for every one of the system policy that is a single trimmed line; the settings
  stored with it hold only the enterprise's own.
\<close>

theorem enterprise_artifact_covers:
  assumes "buildEnterprisePolicyArtifact pip pcidr marshal t mode pl score rb pathsText ipsText rulesText md = Inr (artifact, js)"
  shows "\<exists>paths ips rules n. policyPaths pathsText = Inr paths \<and> policyIPs pip pcidr ipsText = Inr ips \<and>
    safeCustomRules rulesText = Inr (rules, n) \<and>
    marshal (managed_settings md pl score rb paths ips rules n) = Some js \<and>
    (\<forall>v \<in> set (d_ExcludedPaths (t_Defaults t)) \<union> set paths. trim_space v = v \<and> v \<noteq> [] \<and> newline \<notin> set v \<longrightarrow>
       (\<exists>i. contains artifact (bypass_line ''REQUEST_URI'' ''@beginsWith'' (230000 + int i) v))) \<and>
    (\<forall>v \<in> set (d_ExcludedIPs (t_Defaults t)) \<union> set ips. trim_space v = v \<and> v \<noteq> [] \<and> newline \<notin> set v \<longrightarrow>
       (\<exists>i. contains artifact (bypass_line ''REMOTE_ADDR'' ''@ipMatch'' (220000 + int i) v)))"
proof -
  obtain paths ips rules n rulesText' js' where own: "policyPaths pathsText = Inr paths" "policyIPs pip pcidr ipsText = Inr ips"
    "safeCustomRules rulesText = Inr (rules, n)" "marshal (managed_settings md pl score rb paths ips rules n) = Some js"
    and built: "buildManagedPolicyArtifact pip pcidr marshal mode pl score rb
      (join [newline] (d_ExcludedPaths (t_Defaults t) @ paths)) (join [newline] (d_ExcludedIPs (t_Defaults t) @ ips))
      rulesText' md = Inr (artifact, js')"
    using assms by (auto simp: buildEnterprisePolicyArtifact_def Let_def split: sum.splits option.splits)
  obtain epaths eips erules where eff:
    "policyPaths (join [newline] (d_ExcludedPaths (t_Defaults t) @ paths)) = Inr epaths"
    "policyIPs pip pcidr (join [newline] (d_ExcludedIPs (t_Defaults t) @ ips)) = Inr eips"
    "artifact = artifact_text mode pl score rb epaths eips erules"
    using buildManaged_parts [OF built] by metis
  have "v \<in> set epaths" if "v \<in> set (d_ExcludedPaths (t_Defaults t)) \<union> set paths" "trim_space v = v \<and> v \<noteq> [] \<and> newline \<notin> set v" for v
    using eff(1) joined_line [of v] that by (auto simp: policyPaths_iff)
  moreover have "v \<in> set eips" if "v \<in> set (d_ExcludedIPs (t_Defaults t)) \<union> set ips" "trim_space v = v \<and> v \<noteq> [] \<and> newline \<notin> set v" for v
    using eff(2) joined_line [of v] that by (auto simp: policyIPs_iff)
  moreover have "\<exists>i. contains artifact (bypass_line ''REQUEST_URI'' ''@beginsWith'' (230000 + int i) v)" if "v \<in> set epaths" for v
    using artifact_has_path [OF that] unfolding eff(3) by blast
  moreover have "\<exists>i. contains artifact (bypass_line ''REMOTE_ADDR'' ''@ipMatch'' (220000 + int i) v)" if "v \<in> set eips" for v
    using artifact_has_ip [OF that] unfolding eff(3) by blast
  ultimately show ?thesis using own by blast
qed

lemma enterprise_artifact_covers_witness:
  "\<exists>artifact js. buildEnterprisePolicyArtifact (\<lambda>v. v = ''192.0.2.1'') (\<lambda>v. False) (\<lambda>s. Some ''{}'') baseline_template
      ''On'' 1 5 True ''/health'' ''192.0.2.1'' [] empty_metadata = Inr (artifact, js) \<and>
    (\<exists>i. contains artifact (bypass_line ''REQUEST_URI'' ''@beginsWith'' (230000 + int i) ''/health''))"
proof -
  let ?r = "buildEnterprisePolicyArtifact (\<lambda>v. v = ''192.0.2.1'') (\<lambda>v. False) (\<lambda>s. Some ''{}'') baseline_template
      ''On'' 1 5 True ''/health'' ''192.0.2.1'' [] empty_metadata"
  have "isl ?r = False" by code_simp
  then obtain artifact js where r: "?r = Inr (artifact, js)" by (cases ?r) auto
  have p: "policyPaths ''/health'' = Inr [''/health'']" and ok: "trim_space ''/health'' = ''/health''" "newline \<notin> set ''/health''"
    by code_simp+
  show ?thesis using enterprise_artifact_covers [OF r] r p ok by fastforce
qed

end
