(* ===== verification/Policy_Configuration.thy ===== *)
theory Policy_Configuration
  imports Policy_Settings
begin

text \<open>
  The structured policy configuration, \<^verbatim>\<open>src/internal/manager/policy_configuration.go\<close>: the
  authoring model that every policy revision stores. Its operations normalise a configuration,
  validate it, digest it, build it from a template and an author's settings, and read it back
  into settings or a template; the last section checks it against an indexed CRS release.

  The library's address parser is the record \<open>netip\<close>, its JSON encoder and SHA-256 digest are the
  arguments \<open>marshal\<close> and \<open>sha256_hex\<close>, and \<open>randomID n\<close> is the \<open>n\<close>-th random identifier drawn.
\<close>

section \<open>Data\<close>

definition PolicyExclusionRule :: string where "PolicyExclusionRule = ''RULE''"
definition PolicyExclusionTarget :: string where "PolicyExclusionTarget = ''TARGET''"
definition PolicyExclusionTag :: string where "PolicyExclusionTag = ''TAG''"
definition PolicyExclusionEngineBypass :: string where "PolicyExclusionEngineBypass = ''ENGINE_BYPASS''"
definition PolicyExclusionBefore :: string where "PolicyExclusionBefore = ''BEFORE_CRS''"
definition PolicyExclusionAfter :: string where "PolicyExclusionAfter = ''AFTER_CRS''"
definition PolicyIPActionBlock :: string where "PolicyIPActionBlock = ''BLOCK''"
definition PolicyIPActionTrust :: string where "PolicyIPActionTrust = ''TRUST''"

lemmas exclusion_kinds = PolicyExclusionRule_def PolicyExclusionTarget_def PolicyExclusionTag_def
  PolicyExclusionEngineBypass_def
lemmas exclusion_stages = PolicyExclusionBefore_def PolicyExclusionAfter_def
lemmas policy_scopes = PolicyScopeSystem_def PolicyScopeEnterprise_def

record CRSSetupValue =
  sv_Key :: string
  sv_Value :: string
  sv_SourceScope :: string

record PolicyCustomRule =
  cr_ID :: string
  cr_SourceScope :: string
  cr_RuleID :: int
  cr_Name :: string
  cr_Phase :: string
  cr_Severity :: string
  cr_CanonicalSecRule :: string
  cr_ContentSHA256 :: string
  cr_Enabled :: bool
  cr_LegacyIDRange :: bool
  cr_Order :: int

record PolicyIPRule =
  ip_ID :: string
  ip_SourceScope :: string
  ip_Action :: string
  ip_Network :: string
  ip_GeneratedRuleID :: int
  ip_Reason :: string
  ip_ExpiresAt :: "time option"
  ip_CreatedBy :: string
  ip_Enabled :: bool
  ip_Order :: int

record PolicyConfiguration =
  pc_ID :: string
  pc_SystemPolicyVersionID :: string
  pc_PolicyRevisionID :: string
  pc_CRSReleaseID :: string
  pc_EngineMode :: string
  pc_BlockingParanoiaLevel :: int
  pc_ExecutingParanoiaLevel :: int
  pc_InboundAnomalyThreshold :: int
  pc_OutboundAnomalyThreshold :: int
  pc_RequestBodyAccess :: bool
  pc_ResponseBodyAccess :: bool
  pc_EarlyBlocking :: bool
  pc_SamplingPercentage :: int
  pc_RuleIDNamespaceVersion :: int
  pc_ConfigSHA256 :: string
  pc_Setup :: "CRSSetupValue list"
  pc_Exclusions :: "PolicyExclusion list"
  pc_CustomRules :: "PolicyCustomRule list"
  pc_IPRules :: "PolicyIPRule list"

text \<open>
  The functions of \<^verbatim>\<open>net\<close> and \<^verbatim>\<open>net/netip\<close> the code calls. An address is given by its text:
  \<open>na_ParseAddr\<close> is the parsed address, \<open>na_MaskedPrefix a bits\<close> the text of
  \<^verbatim>\<open>PrefixFrom(a, bits).Masked()\<close>, and \<open>na_ParsePrefix\<close> the text of the masked parsed prefix.
\<close>

record netip =
  na_ParseIP :: "string \<Rightarrow> bool"
  na_ParseCIDR :: "string \<Rightarrow> bool"
  na_ParseAddr :: "string \<Rightarrow> string option"
  na_Is4 :: "string \<Rightarrow> bool"
  na_Unmap :: "string \<Rightarrow> string"
  na_MaskedPrefix :: "string \<Rightarrow> int \<Rightarrow> string"
  na_ParsePrefix :: "string \<Rightarrow> string option"

definition canonicalPolicyNetwork :: "netip \<Rightarrow> string \<Rightarrow> string option" where
  "canonicalPolicyNetwork net val =
     (let v = trim_space val
      in case na_ParseAddr net v of
          Some address \<Rightarrow>
            Some (na_MaskedPrefix net (na_Unmap net address) (if na_Is4 net address then 32 else 128))
        | None \<Rightarrow> na_ParsePrefix net v)"

definition validIPMatchValue :: "netip \<Rightarrow> string \<Rightarrow> bool" where
  "validIPMatchValue net val =
     (let items = fields_func (\<lambda>c. c = CHR '','' \<or> c = CHR '' '' \<or> c = tab) val
      in items \<noteq> [] \<and> list_all (\<lambda>item. na_ParseIP net item \<or> na_ParseCIDR net item) items)"

definition validPolicyScope :: "string \<Rightarrow> bool" where
  "validPolicyScope scope \<longleftrightarrow> scope = PolicyScopeSystem \<or> scope = PolicyScopeEnterprise"

definition validConditionField :: "string \<Rightarrow> bool" where
  "validConditionField v \<longleftrightarrow>
     v = ''REQUEST_URI'' \<or> v = ''REQUEST_METHOD'' \<or> v = ''REQUEST_HEADERS:Host'' \<or> v = ''REMOTE_ADDR''"

definition validConditionOperator :: "string \<Rightarrow> bool" where
  "validConditionOperator v \<longleftrightarrow> v = ''@beginsWith'' \<or> v = ''@streq'' \<or> v = ''@ipMatch''"

definition sameCRSMajorMinor :: "string \<Rightarrow> string \<Rightarrow> bool" where
  "sameCRSMajorMinor left right =
     (let leftParts = split (CHR ''.'') (trim_prefix (trim_space left) ''v'');
          rightParts = split (CHR ''.'') (trim_prefix (trim_space right) ''v'')
      in len leftParts \<ge> 2 \<and> len rightParts \<ge> 2 \<and> leftParts ! 0 = rightParts ! 0 \<and> leftParts ! 1 = rightParts ! 1)"

section \<open>Normalize\<close>

definition normalize_condition :: "nat \<times> PolicyExclusionCondition \<Rightarrow> PolicyExclusionCondition" where
  "normalize_condition item =
     (case item of (i, condition) \<Rightarrow>
        condition\<lparr>cd_Field := trim_space (cd_Field condition), cd_Operator := trim_space (cd_Operator condition),
          cd_Value := trim_space (cd_Value condition), cd_Order := int i\<rparr>)"

definition normalize_setup :: "CRSSetupValue \<Rightarrow> CRSSetupValue" where
  "normalize_setup item =
     item\<lparr>sv_Key := trim_space (sv_Key item), sv_Value := join '' '' (go_fields (sv_Value item))\<rparr>"

definition normalize_exclusion :: "PolicyExclusion \<Rightarrow> PolicyExclusion" where
  "normalize_exclusion item =
     item\<lparr>ex_RuleTag := trim_space (ex_RuleTag item), ex_Target := trim_space (ex_Target item),
       ex_Reason := trim_space (ex_Reason item),
       ex_Conditions := sort_by (\<lambda>a b. cd_Order a < cd_Order b)
         (map normalize_condition (enumerate 0 (ex_Conditions item)))\<rparr>"

definition normalize_custom_rule :: "(string \<Rightarrow> string) \<Rightarrow> PolicyCustomRule \<Rightarrow> PolicyCustomRule" where
  "normalize_custom_rule sha256_hex item =
     (let rule = trim_space (crlf_to_lf (cr_CanonicalSecRule item))
      in item\<lparr>cr_Name := trim_space (cr_Name item), cr_Phase := trim_space (cr_Phase item),
           cr_Severity := trim_space (cr_Severity item), cr_CanonicalSecRule := rule,
           cr_ContentSHA256 := sha256_hex rule\<rparr>)"

definition normalize_ip_rule :: "netip \<Rightarrow> PolicyIPRule \<Rightarrow> PolicyIPRule" where
  "normalize_ip_rule net item =
     item\<lparr>ip_Network := (case canonicalPolicyNetwork net (ip_Network item) of Some n \<Rightarrow> n | None \<Rightarrow> []),
       ip_Reason := trim_space (ip_Reason item), ip_CreatedBy := trim_space (ip_CreatedBy item)\<rparr>"

definition Normalize :: "netip \<Rightarrow> (string \<Rightarrow> string) \<Rightarrow> PolicyConfiguration \<Rightarrow> PolicyConfiguration" where
  "Normalize net sha256_hex c =
     c\<lparr>pc_ExecutingParanoiaLevel :=
         (if pc_ExecutingParanoiaLevel c = 0 then pc_BlockingParanoiaLevel c else pc_ExecutingParanoiaLevel c),
       pc_OutboundAnomalyThreshold := (if pc_OutboundAnomalyThreshold c = 0 then 4 else pc_OutboundAnomalyThreshold c),
       pc_SamplingPercentage := (if pc_SamplingPercentage c = 0 then 100 else pc_SamplingPercentage c),
       pc_RuleIDNamespaceVersion := (if pc_RuleIDNamespaceVersion c = 0 then 1 else pc_RuleIDNamespaceVersion c),
       pc_Setup := sort_by (\<lambda>a b. sv_Key a < sv_Key b) (map normalize_setup (pc_Setup c)),
       pc_Exclusions := sort_by (\<lambda>a b. ex_Order a < ex_Order b) (map normalize_exclusion (pc_Exclusions c)),
       pc_CustomRules := sort_by (\<lambda>a b. cr_Order a < cr_Order b) (map (normalize_custom_rule sha256_hex) (pc_CustomRules c)),
       pc_IPRules := sort_by (\<lambda>a b. ip_Order a < ip_Order b) (map (normalize_ip_rule net) (pc_IPRules c))\<rparr>"

section \<open>Validation\<close>

datatype config_error =
    OneOwnerRequired
  | EngineModeInvalid
  | ParanoiaLevelsInvalid
  | ThresholdsInvalid
  | SamplingInvalid
  | NamespaceUnsupported
  | SetupInvalid string
  | ExclusionScopeOrStage
  | ExclusionNeedsCondition
  | ExclusionCannotHaveConditions
  | ExclusionCannotReserveID
  | ExclusionNeedsRuleID
  | ExclusionNeedsTarget
  | ExclusionNeedsTag
  | BypassNeedsConditionAndID
  | BypassNeedsReasonAndExpiry
  | BypassExpiry
  | ExclusionTypeUnsupported
  | ConditionUnsupported
  | IPMatchField
  | IPMatchValue
  | ExclusionNeedsGeneratedID
  | GeneratedIDInvalid int
  | IPRuleScopeOrAction
  | IPRuleNotCanonical string
  | IPRuleDuplicate string string
  | IPRuleNeedsReason
  | TrustExpiry
  | BlockExpiry
  | IPRuleIDInvalid int
  | CustomRuleFields
  | CustomRuleUnsafe int
  | CustomRuleNoID int
  | CustomRuleOtherID int
  | CustomRuleNamespace int string
  | CustomRuleLegacyNamespace int
  | DuplicateRuleID int
  | ConfigNotEncodable
  | CustomRuleText rule_error

definition seven_days :: duration where
  "seven_days = 7 * 24 * hour"

definition validate_condition :: "netip \<Rightarrow> PolicyExclusionCondition \<Rightarrow> config_error option" where
  "validate_condition net condition =
     (if \<not> validConditionField (cd_Field condition) \<or> \<not> validConditionOperator (cd_Operator condition) \<or>
         cd_Value condition = [] \<or> len (cd_Value condition) > 1024 \<or>
         contains_any (cd_Value condition) [dquote, backslash, carriage_return, newline] then Some ConditionUnsupported
      else if cd_Operator condition = ''@ipMatch'' \<and> cd_Field condition \<noteq> ''REMOTE_ADDR'' then Some IPMatchField
      else if cd_Operator condition = ''@ipMatch'' \<and> \<not> validIPMatchValue net (cd_Value condition) then Some IPMatchValue
      else None)"

text \<open>The \<^verbatim>\<open>switch item.Type\<close> of \<^verbatim>\<open>validatePolicyExclusion\<close>.\<close>

definition validate_exclusion_type :: "PolicyExclusion \<Rightarrow> time \<Rightarrow> config_error option" where
  "validate_exclusion_type item now =
     (if ex_Type item = PolicyExclusionRule then
        (if ex_RuleID item = 0 then Some ExclusionNeedsRuleID else None)
      else if ex_Type item = PolicyExclusionTarget then
        (if ex_RuleID item = 0 \<or> ex_Target item = [] \<or>
            contains_any (ex_Target item) [dquote, squote, backslash, CHR '';'', carriage_return, newline, CHR '' '', tab]
         then Some ExclusionNeedsTarget else None)
      else if ex_Type item = PolicyExclusionTag then
        (if ex_RuleTag item = [] \<or>
            contains_any (ex_RuleTag item) [dquote, squote, backslash, carriage_return, newline, CHR '' '', tab]
         then Some ExclusionNeedsTag else None)
      else if ex_Type item = PolicyExclusionEngineBypass then
        (if ex_LoadStage item \<noteq> PolicyExclusionBefore \<or> ex_GeneratedRuleID item = 0 then Some BypassNeedsConditionAndID
         else if \<not> ex_Legacy item then
           (case ex_ExpiresAt item of
              None \<Rightarrow> Some BypassNeedsReasonAndExpiry
            | Some expiry \<Rightarrow>
                if ex_Reason item = [] then Some BypassNeedsReasonAndExpiry
                else if expiry < now \<or> expiry > now + seven_days then Some BypassExpiry
                else None)
         else None)
      else Some ExclusionTypeUnsupported)"

definition validatePolicyExclusion :: "netip \<Rightarrow> PolicyExclusion \<Rightarrow> time \<Rightarrow> config_error option" where
  "validatePolicyExclusion net item now =
     (if \<not> validPolicyScope (ex_SourceScope item) \<or>
         (ex_LoadStage item \<noteq> PolicyExclusionBefore \<and> ex_LoadStage item \<noteq> PolicyExclusionAfter) then Some ExclusionScopeOrStage
      else if ex_LoadStage item = PolicyExclusionBefore \<and> len (ex_Conditions item) = 0 then Some ExclusionNeedsCondition
      else if ex_LoadStage item = PolicyExclusionAfter \<and> len (ex_Conditions item) \<noteq> 0 then Some ExclusionCannotHaveConditions
      else if ex_LoadStage item = PolicyExclusionAfter \<and> ex_GeneratedRuleID item \<noteq> 0 then Some ExclusionCannotReserveID
      else case validate_exclusion_type item now of
          Some e \<Rightarrow> Some e
        | None \<Rightarrow>
            (case first_error (validate_condition net) (ex_Conditions item) of
               Some e \<Rightarrow> Some e
             | None \<Rightarrow>
                 if ex_LoadStage item = PolicyExclusionBefore \<and> ex_GeneratedRuleID item = 0 then Some ExclusionNeedsGeneratedID
                 else None))"

definition setup_step :: "string list \<Rightarrow> CRSSetupValue \<Rightarrow> config_error + string list" where
  "setup_step keys item =
     (if sv_Key item = [] \<or> sv_Value item = [] \<or> \<not> validPolicyScope (sv_SourceScope item) \<or> sv_Key item \<in> set keys
      then Inl (SetupInvalid (sv_Key item)) else Inr (sv_Key item # keys))"

definition exclusion_step :: "netip \<Rightarrow> time \<Rightarrow> int list \<Rightarrow> PolicyExclusion \<Rightarrow> config_error + int list" where
  "exclusion_step net now used item =
     (case validatePolicyExclusion net item now of
        Some e \<Rightarrow> Inl e
      | None \<Rightarrow>
          (let g = ex_GeneratedRuleID item
           in if g \<noteq> 0 then
                (if g < mwafGeneratedRuleIDMin \<or> g > mwafGeneratedRuleIDMax \<or> g \<in> set used
                 then Inl (GeneratedIDInvalid g) else Inr (g # used))
              else Inr used))"

text \<open>
  The loop over the IP rules also keeps the keys \<^verbatim>\<open>seenIPRules\<close>; the action and the network are
  joined by a NUL byte.
\<close>

definition ip_rule_key :: "PolicyIPRule \<Rightarrow> string" where
  "ip_rule_key item = ip_Action item @ CHR 0x00 # ip_Network item"

definition ip_rule_step ::
  "netip \<Rightarrow> time \<Rightarrow> string list \<times> int list \<Rightarrow> PolicyIPRule \<Rightarrow> config_error + (string list \<times> int list)" where
  "ip_rule_step net now st item =
     (let (seen, used) = st; g = ip_GeneratedRuleID item
      in if \<not> validPolicyScope (ip_SourceScope item) \<or>
            (ip_Action item \<noteq> PolicyIPActionBlock \<and> ip_Action item \<noteq> PolicyIPActionTrust) then Inl IPRuleScopeOrAction
         else if canonicalPolicyNetwork net (ip_Network item) \<noteq> Some (ip_Network item)
           then Inl (IPRuleNotCanonical (ip_Network item))
         else if ip_rule_key item \<in> set seen then Inl (IPRuleDuplicate (ip_Action item) (ip_Network item))
         else if ip_Reason item = [] then Inl IPRuleNeedsReason
         else case (if ip_Action item = PolicyIPActionTrust then
                      (case ip_ExpiresAt item of
                         None \<Rightarrow> Some TrustExpiry
                       | Some expiry \<Rightarrow> if \<not> expiry > now \<or> expiry > now + seven_days then Some TrustExpiry else None)
                    else
                      (case ip_ExpiresAt item of
                         None \<Rightarrow> None
                       | Some expiry \<Rightarrow> if \<not> expiry > now then Some BlockExpiry else None)) of
             Some e \<Rightarrow> Inl e
           | None \<Rightarrow>
               if g < mwafGeneratedRuleIDMin \<or> g > mwafGeneratedRuleIDMax \<or> g \<in> set used then Inl (IPRuleIDInvalid g)
               else Inr (ip_rule_key item # seen, g # used))"

definition custom_rule_step :: "int list \<Rightarrow> PolicyCustomRule \<Rightarrow> config_error + int list" where
  "custom_rule_step used item =
     (let rule = cr_CanonicalSecRule item; i = cr_RuleID item
      in if \<not> validPolicyScope (cr_SourceScope item) \<or> i = 0 \<or> rule = [] then Inl CustomRuleFields
         else case safeCustomRules rule of
             Inl e \<Rightarrow> Inl (CustomRuleUnsafe i)
           | Inr (validated, count) \<Rightarrow>
               if count \<noteq> 1 \<or> trim_space validated \<noteq> trim_space rule then Inl (CustomRuleUnsafe i)
               else (case custom_rule_id rule of
                       None \<Rightarrow> Inl (CustomRuleNoID i)
                     | Some digits \<Rightarrow>
                         if fst (atoi digits) \<noteq> i then Inl (CustomRuleOtherID i)
                         else if \<not> cr_LegacyIDRange item \<and> \<not> in_scope_namespace (cr_SourceScope item) i
                           then Inl (CustomRuleNamespace i (cr_SourceScope item))
                         else if cr_LegacyIDRange item \<and> \<not> isLegacyPolicyRuleID i then Inl (CustomRuleLegacyNamespace i)
                         else if i \<in> set used then Inl (DuplicateRuleID i)
                         else Inr (i # used)))"

definition validate_scalars :: "PolicyConfiguration \<Rightarrow> config_error option" where
  "validate_scalars c =
     (if (pc_SystemPolicyVersionID c = []) = (pc_PolicyRevisionID c = []) then Some OneOwnerRequired
      else if pc_EngineMode c \<noteq> ''DetectionOnly'' \<and> pc_EngineMode c \<noteq> ''On'' then Some EngineModeInvalid
      else if pc_BlockingParanoiaLevel c < 1 \<or> pc_BlockingParanoiaLevel c > 4 \<or>
              pc_ExecutingParanoiaLevel c < pc_BlockingParanoiaLevel c \<or> pc_ExecutingParanoiaLevel c > 4
        then Some ParanoiaLevelsInvalid
      else if pc_InboundAnomalyThreshold c < 1 \<or> pc_InboundAnomalyThreshold c > 100 \<or>
              pc_OutboundAnomalyThreshold c < 1 \<or> pc_OutboundAnomalyThreshold c > 100 then Some ThresholdsInvalid
      else if pc_SamplingPercentage c < 1 \<or> pc_SamplingPercentage c > 100 then Some SamplingInvalid
      else if pc_RuleIDNamespaceVersion c \<noteq> 1 then Some NamespaceUnsupported
      else None)"

definition ValidateAt :: "netip \<Rightarrow> PolicyConfiguration \<Rightarrow> time \<Rightarrow> config_error option" where
  "ValidateAt net c now =
     (case validate_scalars c of Some e \<Rightarrow> Some e | None \<Rightarrow>
       (case fold_result setup_step [] (pc_Setup c) of Inl e \<Rightarrow> Some e | Inr _ \<Rightarrow>
         (case fold_result (exclusion_step net now) [] (pc_Exclusions c) of Inl e \<Rightarrow> Some e | Inr used1 \<Rightarrow>
           (case fold_result (ip_rule_step net now) ([], used1) (pc_IPRules c) of Inl e \<Rightarrow> Some e | Inr (_, used2) \<Rightarrow>
             (case fold_result custom_rule_step used2 (pc_CustomRules c) of Inl e \<Rightarrow> Some e | Inr _ \<Rightarrow> None)))))"

section \<open>Validation: lemmas\<close>

definition exclusion_ids :: "PolicyExclusion \<Rightarrow> int list" where
  "exclusion_ids item = (if ex_GeneratedRuleID item = 0 then [] else [ex_GeneratedRuleID item])"

text \<open>Every rule identifier a configuration puts into the generated ModSecurity files.\<close>

definition config_rule_ids :: "PolicyConfiguration \<Rightarrow> int list" where
  "config_rule_ids c = concat (map exclusion_ids (pc_Exclusions c)) @ map ip_GeneratedRuleID (pc_IPRules c) @
     map cr_RuleID (pc_CustomRules c)"

definition in_generated_namespace :: "int \<Rightarrow> bool" where
  "in_generated_namespace i \<longleftrightarrow> mwafGeneratedRuleIDMin \<le> i \<and> i \<le> mwafGeneratedRuleIDMax"

lemma exclusion_step_Inr:
  assumes "exclusion_step net now used item = Inr used'"
  shows "validatePolicyExclusion net item now = None" "used' = exclusion_ids item @ used"
    "\<forall>i \<in> set (exclusion_ids item). in_generated_namespace i \<and> i \<notin> set used"
  using assms
  by (auto simp: exclusion_step_def exclusion_ids_def in_generated_namespace_def Let_def split: option.splits if_splits)

lemma ip_rule_step_Inr:
  assumes "ip_rule_step net now (seen, used) item = Inr (seen', used')"
  shows "used' = ip_GeneratedRuleID item # used" "seen' = ip_rule_key item # seen" "ip_rule_key item \<notin> set seen"
    "in_generated_namespace (ip_GeneratedRuleID item)" "ip_GeneratedRuleID item \<notin> set used"
    "canonicalPolicyNetwork net (ip_Network item) = Some (ip_Network item)" "ip_Reason item \<noteq> []"
    "ip_Action item = PolicyIPActionTrust \<Longrightarrow>
       \<exists>expiry. ip_ExpiresAt item = Some expiry \<and> now < expiry \<and> expiry \<le> now + seven_days"
    "\<And>expiry. ip_ExpiresAt item = Some expiry \<Longrightarrow> now < expiry"
    "ip_Action item = PolicyIPActionBlock \<or> ip_Action item = PolicyIPActionTrust"
  using assms
  by (auto simp: ip_rule_step_def in_generated_namespace_def Let_def split: option.splits if_splits)

lemma custom_rule_step_Inr:
  assumes "custom_rule_step used item = Inr used'"
  shows "used' = cr_RuleID item # used" "cr_RuleID item \<notin> set used" "validPolicyScope (cr_SourceScope item)"
    "if cr_LegacyIDRange item then isLegacyPolicyRuleID (cr_RuleID item)
     else in_scope_namespace (cr_SourceScope item) (cr_RuleID item)"
    "\<exists>text. safeCustomRules (cr_CanonicalSecRule item) = Inr (text, 1)"
    "\<exists>digits. custom_rule_id (cr_CanonicalSecRule item) = Some digits \<and> fst (atoi digits) = cr_RuleID item"
  using assms by (auto simp: custom_rule_step_def Let_def split: option.splits if_splits sum.splits)

interpretation exclusion_loop: id_reservation "exclusion_step net now" exclusion_ids set for net now
proof
  fix s s' x assume "exclusion_step net now s x = Inr s'"
  from exclusion_step_Inr [OF this]
  show "distinct (exclusion_ids x) \<and> set (exclusion_ids x) \<inter> set s = {} \<and> set s' = set s \<union> set (exclusion_ids x)"
    by (auto simp: exclusion_ids_def split: if_splits)
qed

interpretation ip_rule_loop: id_reservation "ip_rule_step net now" "\<lambda>item. [ip_GeneratedRuleID item]" "\<lambda>st. set (snd st)" for net now
proof
  fix s s' :: "string list \<times> int list" and x assume step: "ip_rule_step net now s x = Inr s'"
  obtain seen used seen' used' where s: "s = (seen, used)" "s' = (seen', used')" by fastforce
  from ip_rule_step_Inr [OF step [unfolded s]]
  show "distinct [ip_GeneratedRuleID x] \<and> set [ip_GeneratedRuleID x] \<inter> set (snd s) = {} \<and>
      set (snd s') = set (snd s) \<union> set [ip_GeneratedRuleID x]"
    by (auto simp: s)
qed

interpretation custom_rule_loop: id_reservation custom_rule_step "\<lambda>item. [cr_RuleID item]" set
proof
  fix s s' x assume "custom_rule_step s x = Inr s'"
  from custom_rule_step_Inr [OF this]
  show "distinct [cr_RuleID x] \<and> set [cr_RuleID x] \<inter> set s = {} \<and> set s' = set s \<union> set [cr_RuleID x]" by auto
qed

lemma ValidateAt_loops:
  assumes "ValidateAt net c now = None"
  obtains keys used1 seen used2 used3 where "validate_scalars c = None"
    "fold_result setup_step [] (pc_Setup c) = Inr keys"
    "fold_result (exclusion_step net now) [] (pc_Exclusions c) = Inr used1"
    "fold_result (ip_rule_step net now) ([], used1) (pc_IPRules c) = Inr (seen, used2)"
    "fold_result custom_rule_step used2 (pc_CustomRules c) = Inr used3"
proof -
  have scalars: "validate_scalars c = None"
    using assms by (cases "validate_scalars c") (simp_all add: ValidateAt_def)
  obtain keys where stp: "fold_result setup_step [] (pc_Setup c) = Inr keys"
    using assms scalars by (cases "fold_result setup_step [] (pc_Setup c)") (simp_all add: ValidateAt_def)
  obtain used1 where ex: "fold_result (exclusion_step net now) [] (pc_Exclusions c) = Inr used1"
    using assms scalars stp
    by (cases "fold_result (exclusion_step net now) [] (pc_Exclusions c)") (simp_all add: ValidateAt_def)
  obtain st where ip: "fold_result (ip_rule_step net now) ([], used1) (pc_IPRules c) = Inr st"
    using assms scalars stp ex
    by (cases "fold_result (ip_rule_step net now) ([], used1) (pc_IPRules c)") (simp_all add: ValidateAt_def)
  obtain used3 where "fold_result custom_rule_step (snd st) (pc_CustomRules c) = Inr used3"
    using assms scalars stp ex ip
    by (cases "fold_result custom_rule_step (snd st) (pc_CustomRules c)") (simp_all add: ValidateAt_def split_beta)
  with scalars stp ex ip show ?thesis using that [of keys used1 "fst st" "snd st" used3] by simp
qed

lemma concat_singletons [simp]: "concat (map (\<lambda>x. [f x]) xs) = map f xs"
  by (induction xs) auto

lemma ValidateAt_distinct_ids:
  assumes "ValidateAt net c now = None"
  shows "distinct (config_rule_ids c)"
proof -
  obtain used1 seen used2 used3 where
    ex: "fold_result (exclusion_step net now) [] (pc_Exclusions c) = Inr used1"
    and ip: "fold_result (ip_rule_step net now) ([], used1) (pc_IPRules c) = Inr (seen, used2)"
    and cr: "fold_result custom_rule_step used2 (pc_CustomRules c) = Inr used3"
    by (rule ValidateAt_loops [OF assms])
  show ?thesis
    using exclusion_loop.loop_reserves [OF ex] ip_rule_loop.loop_reserves [OF ip] custom_rule_loop.loop_reserves [OF cr]
    by (auto simp: config_rule_ids_def)
qed

lemma ValidateAt_exclusion:
  assumes "ValidateAt net c now = None" "e \<in> set (pc_Exclusions c)"
  shows "validatePolicyExclusion net e now = None"
    "\<forall>i \<in> set (exclusion_ids e). in_generated_namespace i"
proof -
  obtain used1 where "fold_result (exclusion_step net now) [] (pc_Exclusions c) = Inr used1"
    using ValidateAt_loops [OF assms(1)] by blast
  from fold_result_each [OF this assms(2)] obtain u u' where "exclusion_step net now u e = Inr u'" by blast
  from exclusion_step_Inr [OF this] show "validatePolicyExclusion net e now = None"
    "\<forall>i \<in> set (exclusion_ids e). in_generated_namespace i" by auto
qed

lemma ValidateAt_ip_rule:
  assumes "ValidateAt net c now = None" "r \<in> set (pc_IPRules c)"
  obtains s u s' u' where "ip_rule_step net now (s, u) r = Inr (s', u')"
proof -
  obtain used1 st where "fold_result (ip_rule_step net now) ([], used1) (pc_IPRules c) = Inr st"
    using ValidateAt_loops [OF assms(1)] by blast
  from fold_result_each [OF this assms(2)] that show ?thesis by fastforce
qed

lemma ValidateAt_custom_rule:
  assumes "ValidateAt net c now = None" "r \<in> set (pc_CustomRules c)"
  obtains u u' where "custom_rule_step u r = Inr u'"
proof -
  obtain used2 used3 where "fold_result custom_rule_step used2 (pc_CustomRules c) = Inr used3"
    using ValidateAt_loops [OF assms(1)] by blast
  from fold_result_each [OF this assms(2)] that show ?thesis by blast
qed

lemma exclusion_id_before:
  assumes "validatePolicyExclusion net e now = None"
  shows "exclusion_ids e \<noteq> [] \<longleftrightarrow> ex_LoadStage e = PolicyExclusionBefore"
    "ex_LoadStage e = PolicyExclusionBefore \<longleftrightarrow> ex_Conditions e \<noteq> []"
  using assms
  by (auto simp: validatePolicyExclusion_def exclusion_ids_def exclusion_stages split: option.splits if_splits)

lemma bypass_expiry:
  assumes "validatePolicyExclusion net e now = None" "ex_Type e = PolicyExclusionEngineBypass" "\<not> ex_Legacy e"
  shows "\<exists>expiry. ex_ExpiresAt e = Some expiry \<and> now \<le> expiry \<and> expiry \<le> now + seven_days" "ex_Reason e \<noteq> []"
  using assms
  by (auto simp: validatePolicyExclusion_def validate_exclusion_type_def exclusion_kinds split: option.splits if_splits)

section \<open>Properties\<close>

text \<open>C1:
  a configuration that validates gives every generated exclusion, IP rule and custom rule an
  identifier of its own; the generated ones lie in 5000..9999, the custom ones in the namespace
  of their scope or, when they are marked legacy, in a preserved legacy range, so that no
  identifier of M-WAF itself, of the system author and of the enterprise author coincide.
\<close>

theorem ValidateAt_rule_ids:
  assumes "ValidateAt net c now = None"
  shows "distinct (config_rule_ids c) \<and>
    (\<forall>e \<in> set (pc_Exclusions c). \<forall>i \<in> set (exclusion_ids e). in_generated_namespace i) \<and>
    (\<forall>r \<in> set (pc_IPRules c). in_generated_namespace (ip_GeneratedRuleID r)) \<and>
    (\<forall>r \<in> set (pc_CustomRules c). if cr_LegacyIDRange r then isLegacyPolicyRuleID (cr_RuleID r)
       else in_scope_namespace (cr_SourceScope r) (cr_RuleID r))"
proof (intro conjI ballI)
  show "distinct (config_rule_ids c)" using assms by (rule ValidateAt_distinct_ids)
next
  fix e i assume "e \<in> set (pc_Exclusions c)" "i \<in> set (exclusion_ids e)"
  then show "in_generated_namespace i" using ValidateAt_exclusion(2) [OF assms] by blast
next
  fix r assume "r \<in> set (pc_IPRules c)"
  from ValidateAt_ip_rule [OF assms this] show "in_generated_namespace (ip_GeneratedRuleID r)"
    using ip_rule_step_Inr(4) by metis
next
  fix r assume "r \<in> set (pc_CustomRules c)"
  from ValidateAt_custom_rule [OF assms this]
  show "if cr_LegacyIDRange r then isLegacyPolicyRuleID (cr_RuleID r) else in_scope_namespace (cr_SourceScope r) (cr_RuleID r)"
    using custom_rule_step_Inr(4) by metis
qed

text \<open>
  no protection is switched off for longer than a week. In a configuration that validates at
  a moment, every trusted address and every engine bypass that is not a preserved legacy one has
  a reason and an expiry that is not past and at most seven days away, and no IP rule has expired.
\<close>

theorem ValidateAt_bypass_bounded:
  assumes "ValidateAt net c now = None"
  shows "(\<forall>e \<in> set (pc_Exclusions c). ex_Type e = PolicyExclusionEngineBypass \<and> \<not> ex_Legacy e \<longrightarrow> ex_Reason e \<noteq> [] \<and>
      (\<exists>expiry. ex_ExpiresAt e = Some expiry \<and> now \<le> expiry \<and> expiry \<le> now + seven_days)) \<and>
    (\<forall>r \<in> set (pc_IPRules c). ip_Action r = PolicyIPActionTrust \<longrightarrow> ip_Reason r \<noteq> [] \<and>
      (\<exists>expiry. ip_ExpiresAt r = Some expiry \<and> now < expiry \<and> expiry \<le> now + seven_days)) \<and>
    (\<forall>r \<in> set (pc_IPRules c). \<forall>expiry. ip_ExpiresAt r = Some expiry \<longrightarrow> now < expiry)"
proof (intro conjI ballI allI impI)
  fix e assume "e \<in> set (pc_Exclusions c)" "ex_Type e = PolicyExclusionEngineBypass \<and> \<not> ex_Legacy e"
  then show "ex_Reason e \<noteq> []" "\<exists>expiry. ex_ExpiresAt e = Some expiry \<and> now \<le> expiry \<and> expiry \<le> now + seven_days"
    using bypass_expiry ValidateAt_exclusion(1) [OF assms] by blast+
next
  fix r assume r: "r \<in> set (pc_IPRules c)" and "ip_Action r = PolicyIPActionTrust"
  with ValidateAt_ip_rule [OF assms r]
  show "ip_Reason r \<noteq> []" "\<exists>expiry. ip_ExpiresAt r = Some expiry \<and> now < expiry \<and> expiry \<le> now + seven_days"
    using ip_rule_step_Inr(7,8) by metis+
next
  fix r expiry assume r: "r \<in> set (pc_IPRules c)" and "ip_ExpiresAt r = Some expiry"
  with ValidateAt_ip_rule [OF assms r] show "now < expiry" using ip_rule_step_Inr(9) by metis
qed

text \<open>A configuration with one rule of every kind, on which the properties apply.\<close>

definition sample_netip :: netip where
  "sample_netip = \<lparr>na_ParseIP = (\<lambda>v. v = ''192.0.2.7''), na_ParseCIDR = (\<lambda>v. v = ''192.0.2.0/24''),
     na_ParseAddr = (\<lambda>v. if v = ''192.0.2.7'' then Some v else None), na_Is4 = (\<lambda>v. True), na_Unmap = (\<lambda>v. v),
     na_MaskedPrefix = (\<lambda>v bits. v @ ''/'' @ itoa bits),
     na_ParsePrefix = (\<lambda>v. if v = ''192.0.2.0/24'' \<or> v = ''192.0.2.7/32'' then Some v else None)\<rparr>"

definition sample_configuration :: PolicyConfiguration where
  "sample_configuration = \<lparr>pc_ID = ''c1'', pc_SystemPolicyVersionID = [], pc_PolicyRevisionID = ''r1'', pc_CRSReleaseID = ''crs'',
     pc_EngineMode = ''On'', pc_BlockingParanoiaLevel = 1, pc_ExecutingParanoiaLevel = 2, pc_InboundAnomalyThreshold = 5,
     pc_OutboundAnomalyThreshold = 4, pc_RequestBodyAccess = True, pc_ResponseBodyAccess = False, pc_EarlyBlocking = False,
     pc_SamplingPercentage = 100, pc_RuleIDNamespaceVersion = 1, pc_ConfigSHA256 = [],
     pc_Setup = [\<lparr>sv_Key = ''max_num_args'', sv_Value = ''255'', sv_SourceScope = ''SYSTEM''\<rparr>],
     pc_Exclusions = [\<lparr>ex_ID = ''e1'', ex_SourceScope = ''ENTERPRISE'', ex_Type = ''ENGINE_BYPASS'', ex_LoadStage = ''BEFORE_CRS'',
       ex_RuleID = 0, ex_RuleTag = [], ex_Target = [], ex_GeneratedRuleID = 5000, ex_Reason = ''load test'',
       ex_ExpiresAt = Some (2 * hour), ex_Enabled = True, ex_Legacy = False, ex_Order = 0,
       ex_Conditions = [\<lparr>cd_Field = ''REQUEST_URI'', cd_Operator = ''@beginsWith'', cd_Value = ''/bench'', cd_Order = 0\<rparr>]\<rparr>],
     pc_CustomRules = [\<lparr>cr_ID = ''k1'', cr_SourceScope = ''ENTERPRISE'', cr_RuleID = 40001, cr_Name = [], cr_Phase = ''1'', cr_Severity = [],
       cr_CanonicalSecRule = ''SecRule ARGS '' @ quoted ''@rx x'' @ '' '' @ quoted ''id:40001,phase:1,deny'',
       cr_ContentSHA256 = [], cr_Enabled = True, cr_LegacyIDRange = False, cr_Order = 0\<rparr>],
     pc_IPRules = [\<lparr>ip_ID = ''i1'', ip_SourceScope = ''ENTERPRISE'', ip_Action = ''TRUST'', ip_Network = ''192.0.2.0/24'',
       ip_GeneratedRuleID = 5001, ip_Reason = ''office'', ip_ExpiresAt = Some hour, ip_CreatedBy = [], ip_Enabled = True, ip_Order = 0\<rparr>]\<rparr>"

lemma sample_configuration_valid: "ValidateAt sample_netip sample_configuration 0 = None"
  by code_simp

lemma ValidateAt_rule_ids_witness:
  "ValidateAt sample_netip sample_configuration 0 = None \<and> distinct (config_rule_ids sample_configuration)"
  using ValidateAt_rule_ids [OF sample_configuration_valid] sample_configuration_valid by blast

lemma ValidateAt_bypass_bounded_witness:
  "ValidateAt sample_netip sample_configuration 0 = None \<and>
   list_all (\<lambda>r. case ip_ExpiresAt r of None \<Rightarrow> True | Some expiry \<Rightarrow> 0 < expiry) (pc_IPRules sample_configuration)"
  using ValidateAt_bypass_bounded [OF sample_configuration_valid] sample_configuration_valid
  by (auto simp: list_all_iff split: option.splits)

end
