(* ===== verification/Policy_Structured.thy ===== *)
theory Policy_Structured
  imports Policy_Configuration
begin

text \<open>
  The second half of \<^verbatim>\<open>src/internal/manager/policy_configuration.go\<close> and the allocation of rule
  identifiers in \<^verbatim>\<open>policy_mutation.go\<close>: the digest of a configuration, its views as settings, as
  a template and as CRS setup values, its construction from a template and an author's settings,
  and the check of its identifiers against an indexed CRS release.

  \<^verbatim>\<open>UpdateDigest\<close> copies the configuration struct but not its slices, so the identifiers it blanks
  for the digest are blanked in the configuration itself; the model does the same.
\<close>

section \<open>Digest\<close>

definition blank_item_ids :: "PolicyConfiguration \<Rightarrow> PolicyConfiguration" where
  "blank_item_ids c =
     c\<lparr>pc_Exclusions := map (\<lambda>e. e\<lparr>ex_ID := []\<rparr>) (pc_Exclusions c),
       pc_CustomRules := map (\<lambda>r. r\<lparr>cr_ID := []\<rparr>) (pc_CustomRules c),
       pc_IPRules := map (\<lambda>r. r\<lparr>ip_ID := []\<rparr>) (pc_IPRules c)\<rparr>"

definition blank_owner :: "PolicyConfiguration \<Rightarrow> PolicyConfiguration" where
  "blank_owner c = c\<lparr>pc_ID := [], pc_SystemPolicyVersionID := [], pc_PolicyRevisionID := [], pc_ConfigSHA256 := []\<rparr>"

definition UpdateDigest ::
  "netip \<Rightarrow> (string \<Rightarrow> string) \<Rightarrow> (PolicyConfiguration \<Rightarrow> string option) \<Rightarrow> PolicyConfiguration \<Rightarrow> config_error + PolicyConfiguration" where
  "UpdateDigest net sha256_hex marshal c0 =
     (let c = blank_item_ids (Normalize net sha256_hex c0)
      in case marshal (blank_owner c) of
          None \<Rightarrow> Inl ConfigNotEncodable
        | Some raw \<Rightarrow> Inr (c\<lparr>pc_ConfigSHA256 := sha256_hex raw\<rparr>))"

section \<open>Views of a configuration\<close>

definition boolInt :: "bool \<Rightarrow> string" where
  "boolInt b = (if b then ''1'' else ''0'')"

definition isCorePolicySetupKey :: "string \<Rightarrow> bool" where
  "isCorePolicySetupKey key \<longleftrightarrow>
     key \<in> set [''blocking_paranoia_level'', ''detection_paranoia_level'', ''inbound_anomaly_score_threshold'',
       ''outbound_anomaly_score_threshold'', ''early_blocking'', ''sampling_percentage'']"

definition CRSSetupMap :: "PolicyConfiguration \<Rightarrow> (string \<times> string) list" where
  "CRSSetupMap c =
     (let values = fold (\<lambda>item. AList.update (sv_Key item) (sv_Value item)) (pc_Setup c) []
      in AList.update ''sampling_percentage'' (itoa (pc_SamplingPercentage c))
        (AList.update ''early_blocking'' (boolInt (pc_EarlyBlocking c))
        (AList.update ''outbound_anomaly_score_threshold'' (itoa (pc_OutboundAnomalyThreshold c))
        (AList.update ''inbound_anomaly_score_threshold'' (itoa (pc_InboundAnomalyThreshold c))
        (AList.update ''detection_paranoia_level'' (itoa (pc_ExecutingParanoiaLevel c))
        (AList.update ''blocking_paranoia_level'' (itoa (pc_BlockingParanoiaLevel c)) values))))))"

text \<open>
  How \<^verbatim>\<open>ApplyToSettings\<close> and \<^verbatim>\<open>ApplyToSystemPolicyTemplate\<close> read an exclusion: a legacy engine
  bypass with one condition on the path or the address is an entry of a list of the settings.
\<close>

definition legacy_path :: "PolicyExclusion \<Rightarrow> string option" where
  "legacy_path item =
     (case ex_Conditions item of
        [condition] \<Rightarrow>
          if ex_Type item = PolicyExclusionEngineBypass \<and> ex_Legacy item \<and>
             cd_Field condition = ''REQUEST_URI'' \<and> cd_Operator condition = ''@beginsWith''
          then Some (cd_Value condition) else None
      | _ \<Rightarrow> None)"

definition legacy_ip :: "PolicyExclusion \<Rightarrow> string option" where
  "legacy_ip item =
     (case ex_Conditions item of
        [condition] \<Rightarrow>
          if ex_Type item = PolicyExclusionEngineBypass \<and> ex_Legacy item \<and>
             cd_Field condition = ''REMOTE_ADDR'' \<and> cd_Operator condition = ''@ipMatch''
          then Some (cd_Value condition) else None
      | _ \<Rightarrow> None)"

definition apply_exclusion :: "PolicySettings \<Rightarrow> PolicyExclusion \<Rightarrow> PolicySettings" where
  "apply_exclusion settings item =
     (if ex_SourceScope item \<noteq> PolicyScopeEnterprise then settings
      else case legacy_path item of
          Some v \<Rightarrow> settings\<lparr>s_ExcludedPaths := s_ExcludedPaths settings @ [v]\<rparr>
        | None \<Rightarrow>
            (case legacy_ip item of
               Some v \<Rightarrow> settings\<lparr>s_ExcludedIPs := s_ExcludedIPs settings @ [v]\<rparr>
             | None \<Rightarrow> settings\<lparr>s_Exclusions := s_Exclusions settings @ [item]\<rparr>))"

definition ApplyToSettings :: "PolicyConfiguration \<Rightarrow> PolicySettings \<Rightarrow> PolicySettings" where
  "ApplyToSettings c settings =
     (let s0 = settings\<lparr>s_ParanoiaLevel := pc_BlockingParanoiaLevel c,
            s_ExecutingParanoiaLevel := pc_ExecutingParanoiaLevel c,
            s_InboundScore := pc_InboundAnomalyThreshold c, s_OutboundScore := pc_OutboundAnomalyThreshold c,
            s_RequestBody := pc_RequestBodyAccess c, s_ResponseBody := pc_ResponseBodyAccess c,
            s_EarlyBlocking := pc_EarlyBlocking c, s_SamplingPercentage := pc_SamplingPercentage c,
            s_ExcludedPaths := [], s_ExcludedIPs := [], s_Exclusions := []\<rparr>;
          s1 = foldl apply_exclusion s0 (pc_Exclusions c);
          customRules = map cr_CanonicalSecRule
            (filter (\<lambda>r. cr_SourceScope r = PolicyScopeEnterprise \<and> cr_Enabled r) (pc_CustomRules c))
      in s1\<lparr>s_CustomRules := join [newline] customRules, s_CustomRuleCount := len customRules\<rparr>)"

definition ScopeCounts :: "PolicyConfiguration \<Rightarrow> string \<Rightarrow> int \<times> int \<times> int" where
  "ScopeCounts c scope =
     (len (filter (\<lambda>s. sv_SourceScope s = scope) (pc_Setup c)),
      len (filter (\<lambda>e. ex_SourceScope e = scope \<and> ex_Enabled e) (pc_Exclusions c)),
      len (filter (\<lambda>r. cr_SourceScope r = scope \<and> cr_Enabled r) (pc_CustomRules c)) +
      len (filter (\<lambda>r. ip_SourceScope r = scope \<and> ip_Enabled r) (pc_IPRules c)))"

definition EnterpriseEngineBypassCount :: "PolicyConfiguration \<Rightarrow> int" where
  "EnterpriseEngineBypassCount c =
     len (filter (\<lambda>e. ex_SourceScope e = PolicyScopeEnterprise \<and> ex_Type e = PolicyExclusionEngineBypass \<and> ex_Enabled e)
       (pc_Exclusions c))"

definition to_rule_condition :: "PolicyExclusionCondition \<Rightarrow> RuleCondition" where
  "to_rule_condition c = \<lparr>rc_Field = cd_Field c, rc_Operator = cd_Operator c, rc_Value = cd_Value c\<rparr>"

definition apply_template_exclusion :: "Defaults \<Rightarrow> PolicyExclusion \<Rightarrow> Defaults" where
  "apply_template_exclusion d item =
     (let conditions = map to_rule_condition (ex_Conditions item)
      in if ex_SourceScope item \<noteq> PolicyScopeSystem \<or> \<not> ex_Enabled item then d
         else if ex_Type item = PolicyExclusionEngineBypass \<and> ex_Legacy item \<and> len conditions = 1 then
           (case legacy_path item of
              Some v \<Rightarrow> d\<lparr>d_ExcludedPaths := d_ExcludedPaths d @ [v]\<rparr>
            | None \<Rightarrow> (case legacy_ip item of Some v \<Rightarrow> d\<lparr>d_ExcludedIPs := d_ExcludedIPs d @ [v]\<rparr> | None \<Rightarrow> d))
         else if ex_Type item = PolicyExclusionRule then
           (if ex_LoadStage item = PolicyExclusionBefore
            then d\<lparr>d_BeforeExclusions := d_BeforeExclusions d @ [\<lparr>re_RuleID = ex_RuleID item, re_Conditions = conditions\<rparr>]\<rparr>
            else d\<lparr>d_AfterExclusions := d_AfterExclusions d @ [\<lparr>re_RuleID = ex_RuleID item, re_Conditions = conditions\<rparr>]\<rparr>)
         else if ex_Type item = PolicyExclusionTarget then
           d\<lparr>d_TargetExclusions := d_TargetExclusions d @
             [\<lparr>te_RuleID = ex_RuleID item, te_Target = ex_Target item, te_Conditions = conditions\<rparr>]\<rparr>
         else if ex_Type item = PolicyExclusionTag then d\<lparr>d_TagExclusions := d_TagExclusions d @ [ex_RuleTag item]\<rparr>
         else if ex_Type item = PolicyExclusionEngineBypass then
           (case ex_ExpiresAt item of
              None \<Rightarrow> d
            | Some expiry \<Rightarrow> d\<lparr>d_EngineBypasses := d_EngineBypasses d @
                [\<lparr>eb_Reason = ex_Reason item, eb_ExpiresAt = expiry, eb_Conditions = conditions\<rparr>]\<rparr>)
         else d)"

definition ApplyToSystemPolicyTemplate :: "PolicyConfiguration \<Rightarrow> Template \<Rightarrow> Template" where
  "ApplyToSystemPolicyTemplate c item =
     (let d0 = (t_Defaults item)\<lparr>d_Mode := pc_EngineMode c, d_ParanoiaLevel := pc_BlockingParanoiaLevel c,
            d_ExecutingParanoiaLevel := pc_ExecutingParanoiaLevel c, d_InboundScore := pc_InboundAnomalyThreshold c,
            d_OutboundScore := pc_OutboundAnomalyThreshold c, d_RequestBody := pc_RequestBodyAccess c,
            d_ResponseBody := pc_ResponseBodyAccess c, d_EarlyBlocking := pc_EarlyBlocking c,
            d_SamplingPercentage := pc_SamplingPercentage c, d_CRSSetup := CRSSetupMap c,
            d_ExcludedPaths := [], d_ExcludedIPs := [], d_BeforeExclusions := [], d_AfterExclusions := [],
            d_TagExclusions := [], d_TargetExclusions := [], d_EngineBypasses := []\<rparr>;
          d1 = foldl apply_template_exclusion d0 (pc_Exclusions c);
          rules = map cr_CanonicalSecRule
            (filter (\<lambda>r. cr_SourceScope r = PolicyScopeSystem \<and> cr_Enabled r) (pc_CustomRules c))
      in item\<lparr>t_Defaults := d1\<lparr>d_CustomRules := join [newline] rules, d_CustomRuleCount := len rules\<rparr>\<rparr>)"

section \<open>Building a configuration\<close>

text \<open>
  The local variables of \<^verbatim>\<open>structuredConfigurationFromPolicy\<close>: the configuration's exclusions and
  custom rules under construction, \<^verbatim>\<open>legacy\<close>, \<^verbatim>\<open>generatedID\<close>, and how many random identifiers
  have been drawn.
\<close>

record structuring =
  st_Exclusions :: "PolicyExclusion list"
  st_CustomRules :: "PolicyCustomRule list"
  st_legacy :: bool
  st_generatedID :: int
  st_drawn :: nat

definition add_exclusion :: "(nat \<Rightarrow> string) \<Rightarrow> bool \<Rightarrow> PolicyExclusion \<Rightarrow> structuring \<Rightarrow> structuring" where
  "add_exclusion randomID reserve item st =
     st\<lparr>st_Exclusions := st_Exclusions st @
          [item\<lparr>ex_ID := randomID (st_drawn st), ex_Order := len (st_Exclusions st),
             ex_GeneratedRuleID := (if reserve then st_generatedID st else ex_GeneratedRuleID item)\<rparr>],
        st_generatedID := (if reserve then st_generatedID st + 1 else st_generatedID st),
        st_drawn := Suc (st_drawn st)\<rparr>"

definition blank_exclusion :: PolicyExclusion where
  "blank_exclusion = \<lparr>ex_ID = [], ex_SourceScope = [], ex_Type = [], ex_LoadStage = [], ex_RuleID = 0, ex_RuleTag = [],
     ex_Target = [], ex_GeneratedRuleID = 0, ex_Reason = [], ex_ExpiresAt = None, ex_Enabled = False, ex_Legacy = False,
     ex_Order = 0, ex_Conditions = []\<rparr>"

definition from_conditions :: "RuleCondition list \<Rightarrow> PolicyExclusionCondition list" where
  "from_conditions cs = map (\<lambda>(i, c). \<lparr>cd_Field = rc_Field c, cd_Operator = rc_Operator c, cd_Value = rc_Value c, cd_Order = int i\<rparr>)
     (enumerate 0 cs)"

definition appendBypass :: "(nat \<Rightarrow> string) \<Rightarrow> string \<Rightarrow> string \<Rightarrow> string \<Rightarrow> structuring \<Rightarrow> string \<Rightarrow> structuring" where
  "appendBypass randomID scope field op st val =
     (add_exclusion randomID True
        (blank_exclusion\<lparr>ex_SourceScope := scope, ex_Type := PolicyExclusionEngineBypass, ex_LoadStage := PolicyExclusionBefore,
           ex_Enabled := True, ex_Legacy := True,
           ex_Conditions := [\<lparr>cd_Field = field, cd_Operator = op, cd_Value = val, cd_Order = 0\<rparr>]\<rparr>) st)
     \<lparr>st_legacy := True\<rparr>"

definition append_engine_bypass :: "(nat \<Rightarrow> string) \<Rightarrow> structuring \<Rightarrow> EngineBypass \<Rightarrow> structuring" where
  "append_engine_bypass randomID st item =
     add_exclusion randomID True
       (blank_exclusion\<lparr>ex_SourceScope := PolicyScopeSystem, ex_Type := PolicyExclusionEngineBypass,
          ex_LoadStage := PolicyExclusionBefore, ex_Reason := eb_Reason item, ex_ExpiresAt := Some (eb_ExpiresAt item),
          ex_Enabled := True, ex_Conditions := from_conditions (eb_Conditions item)\<rparr>) st"

definition append_rule_exclusion :: "(nat \<Rightarrow> string) \<Rightarrow> string \<Rightarrow> string \<Rightarrow> structuring \<Rightarrow> RuleExclusion \<Rightarrow> structuring" where
  "append_rule_exclusion randomID scope stage st item =
     add_exclusion randomID (re_Conditions item \<noteq> [])
       (blank_exclusion\<lparr>ex_SourceScope := scope, ex_Type := PolicyExclusionRule, ex_LoadStage := stage,
          ex_RuleID := re_RuleID item, ex_Enabled := True, ex_Conditions := from_conditions (re_Conditions item)\<rparr>) st"

definition append_tag_exclusion :: "(nat \<Rightarrow> string) \<Rightarrow> structuring \<Rightarrow> string \<Rightarrow> structuring" where
  "append_tag_exclusion randomID st tag =
     add_exclusion randomID False
       (blank_exclusion\<lparr>ex_SourceScope := PolicyScopeSystem, ex_Type := PolicyExclusionTag,
          ex_LoadStage := PolicyExclusionAfter, ex_RuleTag := tag, ex_Enabled := True\<rparr>) st"

definition append_target_exclusion :: "(nat \<Rightarrow> string) \<Rightarrow> structuring \<Rightarrow> TargetExclusion \<Rightarrow> structuring" where
  "append_target_exclusion randomID st item =
     add_exclusion randomID (te_Conditions item \<noteq> [])
       (blank_exclusion\<lparr>ex_SourceScope := PolicyScopeSystem, ex_Type := PolicyExclusionTarget,
          ex_LoadStage := (if te_Conditions item \<noteq> [] then PolicyExclusionBefore else PolicyExclusionAfter),
          ex_RuleID := te_RuleID item, ex_Target := te_Target item, ex_Enabled := True,
          ex_Conditions := from_conditions (te_Conditions item)\<rparr>) st"

definition append_enterprise_exclusion :: "(nat \<Rightarrow> string) \<Rightarrow> structuring \<Rightarrow> PolicyExclusion \<Rightarrow> structuring" where
  "append_enterprise_exclusion randomID st item =
     add_exclusion randomID (ex_LoadStage item = PolicyExclusionBefore \<and> ex_Conditions item \<noteq> [])
       (item\<lparr>ex_SourceScope := PolicyScopeEnterprise\<rparr>) st"

definition append_custom_rule :: "(nat \<Rightarrow> string) \<Rightarrow> string \<Rightarrow> structuring \<Rightarrow> string \<Rightarrow> config_error + structuring" where
  "append_custom_rule randomID scope st raw =
     (let line = trim_space raw
      in if line = [] \<or> has_prefix line ''#'' then Inr st
         else case custom_rule_id line of
             None \<Rightarrow> Inl (CustomRuleNoID 0)
           | Some digits \<Rightarrow>
               (let ruleID = fst (atoi digits); validRange = in_scope_namespace scope ruleID
                in Inr (st\<lparr>st_CustomRules := st_CustomRules st @
                     [\<lparr>cr_ID = randomID (st_drawn st), cr_SourceScope = scope, cr_RuleID = ruleID, cr_Name = [],
                       cr_Phase = secRuleActionValue line ''phase'', cr_Severity = secRuleActionValue line ''severity'',
                       cr_CanonicalSecRule = line, cr_ContentSHA256 = [], cr_Enabled = True,
                       cr_LegacyIDRange = (\<not> validRange), cr_Order = len (st_CustomRules st)\<rparr>],
                     st_legacy := (st_legacy st \<or> \<not> validRange), st_drawn := Suc (st_drawn st)\<rparr>)))"

definition appendCustomRules :: "(nat \<Rightarrow> string) \<Rightarrow> string \<Rightarrow> string \<Rightarrow> structuring \<Rightarrow> config_error + structuring" where
  "appendCustomRules randomID scope raw st =
     (if trim_space raw = [] then Inr st
      else case safeCustomRules raw of
          Inl e \<Rightarrow> Inl (CustomRuleText e)
        | Inr (validated, _) \<Rightarrow> fold_result (append_custom_rule randomID scope) st (split newline validated))"

text \<open>All exclusions in the order of the source: the system layer first, then the enterprise's.\<close>

definition structured_exclusions :: "(nat \<Rightarrow> string) \<Rightarrow> Template \<Rightarrow> PolicySettings \<Rightarrow> structuring" where
  "structured_exclusions randomID template settings =
     (let d = t_Defaults template;
          s0 = \<lparr>st_Exclusions = [], st_CustomRules = [], st_legacy = False, st_generatedID = mwafGeneratedRuleIDMin, st_drawn = 1\<rparr>;
          s1 = foldl (appendBypass randomID PolicyScopeSystem ''REMOTE_ADDR'' ''@ipMatch'') s0 (d_ExcludedIPs d);
          s2 = foldl (appendBypass randomID PolicyScopeSystem ''REQUEST_URI'' ''@beginsWith'') s1 (d_ExcludedPaths d);
          s3 = foldl (append_engine_bypass randomID) s2 (d_EngineBypasses d);
          s4 = foldl (append_rule_exclusion randomID PolicyScopeSystem PolicyExclusionBefore) s3 (d_BeforeExclusions d);
          s5 = foldl (append_rule_exclusion randomID PolicyScopeSystem PolicyExclusionAfter) s4 (d_AfterExclusions d);
          s6 = foldl (append_tag_exclusion randomID) s5 (d_TagExclusions d);
          s7 = foldl (append_target_exclusion randomID) s6 (d_TargetExclusions d);
          s8 = foldl (appendBypass randomID PolicyScopeEnterprise ''REMOTE_ADDR'' ''@ipMatch'') s7 (s_ExcludedIPs settings);
          s9 = foldl (appendBypass randomID PolicyScopeEnterprise ''REQUEST_URI'' ''@beginsWith'') s8 (s_ExcludedPaths settings)
      in foldl (append_enterprise_exclusion randomID) s9 (s_Exclusions settings))"

definition structured_base :: "(nat \<Rightarrow> string) \<Rightarrow> string \<Rightarrow> string \<Rightarrow> Template \<Rightarrow> string \<Rightarrow> PolicySettings \<Rightarrow> PolicyConfiguration" where
  "structured_base randomID ownerSystemPolicyID ownerRevisionID template mode settings =
     (let d = t_Defaults template;
          blocking = (if s_ParanoiaLevel settings = 0 then d_ParanoiaLevel d else s_ParanoiaLevel settings)
      in \<lparr>pc_ID = randomID 0, pc_SystemPolicyVersionID = ownerSystemPolicyID, pc_PolicyRevisionID = ownerRevisionID,
          pc_CRSReleaseID = (case d_CRSSource d of None \<Rightarrow> [] | Some src \<Rightarrow> src_ID src),
          pc_EngineMode = mode, pc_BlockingParanoiaLevel = blocking,
          pc_ExecutingParanoiaLevel = (if s_ExecutingParanoiaLevel settings = 0 then blocking else s_ExecutingParanoiaLevel settings),
          pc_InboundAnomalyThreshold = (if s_InboundScore settings = 0 then d_InboundScore d else s_InboundScore settings),
          pc_OutboundAnomalyThreshold = (if s_OutboundScore settings = 0 then 4 else s_OutboundScore settings),
          pc_RequestBodyAccess = s_RequestBody settings, pc_ResponseBodyAccess = s_ResponseBody settings,
          pc_EarlyBlocking = s_EarlyBlocking settings,
          pc_SamplingPercentage = (if s_SamplingPercentage settings = 0 then 100 else s_SamplingPercentage settings),
          pc_RuleIDNamespaceVersion = 1, pc_ConfigSHA256 = [],
          pc_Setup = map (\<lambda>(k, v). \<lparr>sv_Key = k, sv_Value = v, sv_SourceScope = PolicyScopeSystem\<rparr>)
            (filter (\<lambda>(k, v). \<not> isCorePolicySetupKey k) (d_CRSSetup d)),
          pc_Exclusions = [], pc_CustomRules = [], pc_IPRules = []\<rparr>)"

definition structuredConfigurationFromPolicy ::
  "netip \<Rightarrow> (string \<Rightarrow> string) \<Rightarrow> (PolicyConfiguration \<Rightarrow> string option) \<Rightarrow> (nat \<Rightarrow> string) \<Rightarrow> time \<Rightarrow>
   string \<Rightarrow> string \<Rightarrow> Template \<Rightarrow> string \<Rightarrow> PolicySettings \<Rightarrow> config_error + (PolicyConfiguration \<times> bool)" where
  "structuredConfigurationFromPolicy net sha256_hex marshal randomID now ownerSystemPolicyID ownerRevisionID template mode settings =
     (case appendCustomRules randomID PolicyScopeSystem (d_CustomRules (t_Defaults template))
             (structured_exclusions randomID template settings) of
        Inl e \<Rightarrow> Inl e
      | Inr st1 \<Rightarrow>
          (case appendCustomRules randomID PolicyScopeEnterprise (s_CustomRules settings) st1 of
             Inl e \<Rightarrow> Inl e
           | Inr st2 \<Rightarrow>
               (case UpdateDigest net sha256_hex marshal
                       ((structured_base randomID ownerSystemPolicyID ownerRevisionID template mode settings)
                        \<lparr>pc_Exclusions := st_Exclusions st2, pc_CustomRules := st_CustomRules st2\<rparr>) of
                  Inl e \<Rightarrow> Inl e
                | Inr c \<Rightarrow>
                    (case ValidateAt net c now of
                       Some e \<Rightarrow> Inl e
                     | None \<Rightarrow> Inr (c, st_legacy st2)))))"

section \<open>Allocating identifiers\<close>

fun next_free_id :: "int list \<Rightarrow> int list \<Rightarrow> int option" where
  "next_free_id used [] = None"
| "next_free_id used (i # is) = (if i \<in> set used then next_free_id used is else Some i)"

definition nextGeneratedPolicyRuleID :: "PolicyConfiguration \<Rightarrow> int option" where
  "nextGeneratedPolicyRuleID c =
     next_free_id (map ex_GeneratedRuleID (pc_Exclusions c) @ map ip_GeneratedRuleID (pc_IPRules c))
       [mwafGeneratedRuleIDMin .. mwafGeneratedRuleIDMax]"

text \<open>The filters of \<^verbatim>\<open>ExpireIPRules\<close> and \<^verbatim>\<open>ExpirePolicyExceptions\<close>; what is kept is renumbered.\<close>

definition expired :: "time option \<Rightarrow> time \<Rightarrow> bool" where
  "expired expiry now = (case expiry of None \<Rightarrow> False | Some e \<Rightarrow> \<not> e > now)"

definition expire_ip_rules :: "time \<Rightarrow> PolicyConfiguration \<Rightarrow> PolicyConfiguration" where
  "expire_ip_rules now c =
     c\<lparr>pc_IPRules := map (\<lambda>(i, r). r\<lparr>ip_Order := int i\<rparr>)
         (enumerate 0 (filter (\<lambda>r. \<not> expired (ip_ExpiresAt r) now) (pc_IPRules c)))\<rparr>"

definition expire_exceptions :: "time \<Rightarrow> PolicyConfiguration \<Rightarrow> PolicyConfiguration" where
  "expire_exceptions now c =
     c\<lparr>pc_Exclusions := map (\<lambda>(i, e). e\<lparr>ex_Order := int i\<rparr>)
         (enumerate 0 (filter (\<lambda>e. \<not> (ex_SourceScope e = PolicyScopeEnterprise \<and> ex_Enabled e \<and> expired (ex_ExpiresAt e) now))
            (pc_Exclusions c)))\<rparr>"

section \<open>Check against a CRS release\<close>

record crs_Rule =
  ru_ID :: int
  ru_File :: string
  ru_Line :: int
  ru_Phase :: string
  ru_ParanoiaLevel :: int
  ru_Severity :: string
  ru_Tags :: "string list"
  ru_Message :: string
  ru_Variables :: "string list"
  ru_Operator :: string
  ru_ContentHash :: string
  ru_Directive :: string

record SetupField =
  sf_Key :: string
  sf_Label :: string
  sf_Type :: string
  sf_Default :: string
  sf_Minimum :: int
  sf_Maximum :: int
  sf_Options :: "string list"
  sf_Description :: string

datatype release_error =
    SetupNamespaceExceeded
  | SetupNotSupported string
  | SetupOutsideRange string
  | SetupCharacters string
  | SetupOption string
  | SetupIDConflict int
  | ExclusionIDConflict int
  | ExcludedRuleAbsent int
  | ExcludedTargetAbsent int string
  | ExcludedTagAbsent string
  | LegacyRuleMustMove int
  | CustomRuleConflict int
  | IPRuleConflict int

definition setupValueAllowsUnlimited :: "string \<Rightarrow> bool" where
  "setupValueAllowsUnlimited key \<longleftrightarrow> key = ''max_file_size'' \<or> key = ''combined_file_sizes''"

text \<open>A variable without its modifiers and its selector.\<close>

definition target_base :: "string \<Rightarrow> string" where
  "target_base v = takeWhile (\<lambda>c. c \<noteq> CHR '':'') (trim_prefix (trim_prefix (trim_space v) ''!'') ''&'')"

definition ruleHasTarget :: "crs_Rule \<Rightarrow> string \<Rightarrow> bool" where
  "ruleHasTarget rule target = list_ex (\<lambda>variable. target_base variable = target_base target) (ru_Variables rule)"

text \<open>
  \<^verbatim>\<open>upstreamRules[id]\<close>: the last rule of the index with the identifier, when it is not the zero
  value that a missing key gives.
\<close>

definition upstream_rule :: "crs_Rule list \<Rightarrow> int \<Rightarrow> crs_Rule option" where
  "upstream_rule rules i = (if i = 0 then None else find (\<lambda>r. ru_ID r = i) (rev rules))"

definition check_setup_value :: "SetupField list \<Rightarrow> CRSSetupValue \<Rightarrow> release_error option" where
  "check_setup_value setupFields item =
     (case find (\<lambda>f. sf_Key f = sv_Key item) (rev setupFields) of
        None \<Rightarrow> Some (SetupNotSupported (sv_Key item))
      | Some def \<Rightarrow>
          if sf_Type def = ''integer'' \<or> sf_Type def = ''number'' then
            (if setupValueAllowsUnlimited (sv_Key item) \<and> equal_fold (sv_Value item) ''unlimited'' then None
             else case atoi (sv_Value item) of
                 (n, err) \<Rightarrow>
                   if err \<noteq> None \<or> sf_Minimum def \<noteq> 0 \<and> n < sf_Minimum def \<or> sf_Maximum def \<noteq> 0 \<and> n > sf_Maximum def
                   then Some (SetupOutsideRange (sv_Key item)) else None)
          else if len (sv_Value item) > 4096 \<or> contains_any (sv_Value item) [dquote, squote, backslash, carriage_return, newline]
            then Some (SetupCharacters (sv_Key item))
          else if sf_Options def \<noteq> [] \<and> sv_Value item \<notin> set (sf_Options def) then Some (SetupOption (sv_Key item))
          else None)"

definition check_exclusion :: "crs_Rule list \<Rightarrow> PolicyExclusion \<Rightarrow> release_error option" where
  "check_exclusion rules item =
     (if ex_GeneratedRuleID item \<noteq> 0 \<and> upstream_rule rules (ex_GeneratedRuleID item) \<noteq> None
        then Some (ExclusionIDConflict (ex_GeneratedRuleID item))
      else if (ex_Type item = PolicyExclusionRule \<or> ex_Type item = PolicyExclusionTarget) \<and>
              upstream_rule rules (ex_RuleID item) = None then Some (ExcludedRuleAbsent (ex_RuleID item))
      else if ex_Type item = PolicyExclusionTarget \<and>
              \<not> (case upstream_rule rules (ex_RuleID item) of Some rule \<Rightarrow> ruleHasTarget rule (ex_Target item) | None \<Rightarrow> False)
        then Some (ExcludedTargetAbsent (ex_RuleID item) (ex_Target item))
      else if ex_Type item = PolicyExclusionTag \<and> \<not> list_ex (\<lambda>r. ex_RuleTag item \<in> set (ru_Tags r)) rules
        then Some (ExcludedTagAbsent (ex_RuleTag item))
      else None)"

definition check_custom_rule :: "crs_Rule list \<Rightarrow> PolicyCustomRule \<Rightarrow> release_error option" where
  "check_custom_rule rules item =
     (if cr_LegacyIDRange item then Some (LegacyRuleMustMove (cr_RuleID item))
      else if upstream_rule rules (cr_RuleID item) \<noteq> None then Some (CustomRuleConflict (cr_RuleID item))
      else None)"

definition check_ip_rule :: "crs_Rule list \<Rightarrow> PolicyIPRule \<Rightarrow> release_error option" where
  "check_ip_rule rules item =
     (if upstream_rule rules (ip_GeneratedRuleID item) \<noteq> None then Some (IPRuleConflict (ip_GeneratedRuleID item)) else None)"

definition validateConfigurationRuleIDs :: "PolicyConfiguration \<Rightarrow> SetupField list \<Rightarrow> crs_Rule list \<Rightarrow> release_error option" where
  "validateConfigurationRuleIDs c setupFields rules =
     (if len (CRSSetupMap c) > mwafSetupRuleIDMax - mwafSetupRuleIDMin + 1 then Some SetupNamespaceExceeded
      else case first_error (check_setup_value setupFields) (pc_Setup c) of Some e \<Rightarrow> Some e | None \<Rightarrow>
        (case first_error (\<lambda>i. if upstream_rule rules i \<noteq> None then Some (SetupIDConflict i) else None)
                [mwafSetupRuleIDMin .. mwafSetupRuleIDMin + len (CRSSetupMap c) - 1] of Some e \<Rightarrow> Some e | None \<Rightarrow>
          (case first_error (check_exclusion rules) (pc_Exclusions c) of Some e \<Rightarrow> Some e | None \<Rightarrow>
            (case first_error (check_custom_rule rules) (pc_CustomRules c) of Some e \<Rightarrow> Some e | None \<Rightarrow>
              first_error (check_ip_rule rules) (pc_IPRules c)))))"

section \<open>Lemmas\<close>

subsection \<open>Identifiers of a built configuration\<close>

text \<open>The exclusions that the construction gives an identifier.\<close>

definition reserved :: "PolicyExclusion \<Rightarrow> bool" where
  "reserved e \<longleftrightarrow> ex_Conditions e \<noteq> [] \<and> (ex_LoadStage e = PolicyExclusionBefore \<or> ex_SourceScope e = PolicyScopeSystem)"

definition reserved_ids :: "PolicyExclusion list \<Rightarrow> int list" where
  "reserved_ids es = map ex_GeneratedRuleID (filter reserved es)"

definition structuring_inv :: "structuring \<Rightarrow> bool" where
  "structuring_inv st \<longleftrightarrow>
     sorted_wrt (<) (reserved_ids (st_Exclusions st)) \<and>
     (\<forall>i \<in> set (reserved_ids (st_Exclusions st)). mwafGeneratedRuleIDMin \<le> i \<and> i < st_generatedID st) \<and>
     mwafGeneratedRuleIDMin \<le> st_generatedID st \<and>
     map ex_Order (st_Exclusions st) = map int [0..<length (st_Exclusions st)]"

lemma reserved_keeps [simp]:
  "reserved (e\<lparr>ex_ID := a, ex_Order := b, ex_GeneratedRuleID := g\<rparr>) = reserved e"
  by (simp add: reserved_def)

lemma add_exclusion_inv:
  assumes "structuring_inv st" "reserved item \<Longrightarrow> reserve"
  shows "structuring_inv (add_exclusion rid reserve item st)"
  using assms by (auto simp: structuring_inv_def add_exclusion_def reserved_ids_def sorted_wrt_append)

lemma legacy_flag_inv [simp]: "structuring_inv (st\<lparr>st_legacy := b\<rparr>) = structuring_inv st"
  by (simp add: structuring_inv_def)

lemma structuring_foldl:
  "(\<And>s x. structuring_inv s \<Longrightarrow> structuring_inv (f s x)) \<Longrightarrow> structuring_inv s \<Longrightarrow> structuring_inv (foldl f s xs)"
  by (induction xs arbitrary: s) auto

named_theorems structuring_steps \<open>the steps of the construction keep its invariant\<close>

lemma appendBypass_inv [structuring_steps]:
  "structuring_inv st \<Longrightarrow> structuring_inv (appendBypass rid scope field op st v)"
  by (simp add: appendBypass_def add_exclusion_inv)

lemma append_engine_bypass_inv [structuring_steps]:
  "structuring_inv st \<Longrightarrow> structuring_inv (append_engine_bypass rid st item)"
  by (simp add: append_engine_bypass_def add_exclusion_inv)

lemma from_conditions_Nil [simp]: "from_conditions cs = [] \<longleftrightarrow> cs = []"
  by (cases cs) (auto simp: from_conditions_def)

lemma append_rule_exclusion_inv [structuring_steps]:
  "structuring_inv st \<Longrightarrow> structuring_inv (append_rule_exclusion rid scope stage st item)"
  by (auto simp: append_rule_exclusion_def reserved_def intro!: add_exclusion_inv)

lemma append_tag_exclusion_inv [structuring_steps]:
  "structuring_inv st \<Longrightarrow> structuring_inv (append_tag_exclusion rid st tag)"
  by (auto simp: append_tag_exclusion_def reserved_def blank_exclusion_def intro!: add_exclusion_inv)

lemma append_target_exclusion_inv [structuring_steps]:
  "structuring_inv st \<Longrightarrow> structuring_inv (append_target_exclusion rid st item)"
  by (auto simp: append_target_exclusion_def reserved_def intro!: add_exclusion_inv)

lemma append_enterprise_exclusion_inv [structuring_steps]:
  "structuring_inv st \<Longrightarrow> structuring_inv (append_enterprise_exclusion rid st item)"
  by (auto simp: append_enterprise_exclusion_def reserved_def intro!: add_exclusion_inv)

lemma structured_exclusions_inv: "structuring_inv (structured_exclusions rid template settings)"
proof -
  have start: "structuring_inv \<lparr>st_Exclusions = [], st_CustomRules = [], st_legacy = False,
      st_generatedID = mwafGeneratedRuleIDMin, st_drawn = 1\<rparr>"
    by (simp add: structuring_inv_def reserved_ids_def)
  show ?thesis
    unfolding structured_exclusions_def Let_def
    by ((rule structuring_foldl, erule structuring_steps)+, rule start)
qed

text \<open>Every step appends one exclusion of a known scope.\<close>

definition appends_scope :: "string \<Rightarrow> (structuring \<Rightarrow> 'a \<Rightarrow> structuring) \<Rightarrow> bool" where
  "appends_scope scope f \<longleftrightarrow>
     (\<forall>st x. \<exists>e. st_Exclusions (f st x) = st_Exclusions st @ [e] \<and> ex_SourceScope e = scope)"

lemma appends_scope_foldl:
  assumes "appends_scope scope f"
  shows "\<exists>es. st_Exclusions (foldl f st xs) = st_Exclusions st @ es \<and> (\<forall>e \<in> set es. ex_SourceScope e = scope)"
proof (induction xs arbitrary: st)
  case (Cons x xs)
  obtain e where e: "st_Exclusions (f st x) = st_Exclusions st @ [e]" "ex_SourceScope e = scope"
    using assms unfolding appends_scope_def by blast
  obtain es where "st_Exclusions (foldl f (f st x) xs) = st_Exclusions (f st x) @ es" "\<forall>e \<in> set es. ex_SourceScope e = scope"
    using Cons.IH by blast
  then have "st_Exclusions (foldl f st (x # xs)) = st_Exclusions st @ (e # es) \<and> (\<forall>e \<in> set (e # es). ex_SourceScope e = scope)"
    using e by simp
  then show ?case by blast
qed simp

lemma appends_scope_steps:
  "appends_scope scope (appendBypass rid scope field op)"
  "appends_scope PolicyScopeSystem (append_engine_bypass rid)"
  "appends_scope scope (append_rule_exclusion rid scope stage)"
  "appends_scope PolicyScopeSystem (append_tag_exclusion rid)"
  "appends_scope PolicyScopeSystem (append_target_exclusion rid)"
  "appends_scope PolicyScopeEnterprise (append_enterprise_exclusion rid)"
  by (auto simp: appends_scope_def appendBypass_def append_engine_bypass_def append_rule_exclusion_def
      append_tag_exclusion_def append_target_exclusion_def append_enterprise_exclusion_def add_exclusion_def)

definition scope_suffix :: "string \<Rightarrow> structuring \<Rightarrow> structuring \<Rightarrow> bool" where
  "scope_suffix scope st st' \<longleftrightarrow>
     (\<exists>es. st_Exclusions st' = st_Exclusions st @ es \<and> (\<forall>e \<in> set es. ex_SourceScope e = scope))"

lemma scope_suffix_trans: "scope_suffix sc a b \<Longrightarrow> scope_suffix sc b c \<Longrightarrow> scope_suffix sc a c"
proof -
  assume "scope_suffix sc a b" "scope_suffix sc b c"
  then obtain es fs where "st_Exclusions b = st_Exclusions a @ es" "\<forall>e \<in> set es. ex_SourceScope e = sc"
    "st_Exclusions c = st_Exclusions b @ fs" "\<forall>e \<in> set fs. ex_SourceScope e = sc"
    unfolding scope_suffix_def by blast
  then have "st_Exclusions c = st_Exclusions a @ (es @ fs) \<and> (\<forall>e \<in> set (es @ fs). ex_SourceScope e = sc)" by auto
  then show ?thesis unfolding scope_suffix_def by blast
qed

lemma scope_suffix_foldl: "appends_scope sc f \<Longrightarrow> scope_suffix sc st (foldl f st xs)"
  unfolding scope_suffix_def by (rule appends_scope_foldl)

lemma structured_scopes:
  obtains sys ent where "st_Exclusions (structured_exclusions rid template settings) = sys @ ent"
    "\<forall>e \<in> set sys. ex_SourceScope e = PolicyScopeSystem" "\<forall>e \<in> set ent. ex_SourceScope e = PolicyScopeEnterprise"
proof -
  let ?d = "t_Defaults template"
  define s0 where "s0 = \<lparr>st_Exclusions = [], st_CustomRules = [], st_legacy = False,
    st_generatedID = mwafGeneratedRuleIDMin, st_drawn = 1\<rparr>"
  define s7 where "s7 =
    foldl (append_target_exclusion rid)
    (foldl (append_tag_exclusion rid)
    (foldl (append_rule_exclusion rid PolicyScopeSystem PolicyExclusionAfter)
    (foldl (append_rule_exclusion rid PolicyScopeSystem PolicyExclusionBefore)
    (foldl (append_engine_bypass rid)
    (foldl (appendBypass rid PolicyScopeSystem ''REQUEST_URI'' ''@beginsWith'')
    (foldl (appendBypass rid PolicyScopeSystem ''REMOTE_ADDR'' ''@ipMatch'') s0
      (d_ExcludedIPs ?d)) (d_ExcludedPaths ?d)) (d_EngineBypasses ?d)) (d_BeforeExclusions ?d)) (d_AfterExclusions ?d))
      (d_TagExclusions ?d)) (d_TargetExclusions ?d)"
  have "scope_suffix PolicyScopeSystem s0 s7"
    unfolding s7_def by (intro scope_suffix_foldl [OF appends_scope_steps(5), THEN scope_suffix_trans [rotated]]
      scope_suffix_foldl [OF appends_scope_steps(4), THEN scope_suffix_trans [rotated]]
      scope_suffix_foldl [OF appends_scope_steps(3), THEN scope_suffix_trans [rotated]]
      scope_suffix_foldl [OF appends_scope_steps(2), THEN scope_suffix_trans [rotated]]
      scope_suffix_foldl [OF appends_scope_steps(1), THEN scope_suffix_trans [rotated]]
      scope_suffix_foldl [OF appends_scope_steps(1)])
  then have sys: "\<forall>e \<in> set (st_Exclusions s7). ex_SourceScope e = PolicyScopeSystem"
    by (auto simp: scope_suffix_def s0_def)
  have "scope_suffix PolicyScopeEnterprise s7 (structured_exclusions rid template settings)"
    unfolding structured_exclusions_def Let_def s0_def [symmetric] s7_def [symmetric]
    by (intro scope_suffix_foldl [OF appends_scope_steps(6), THEN scope_suffix_trans [rotated]]
      scope_suffix_foldl [OF appends_scope_steps(1), THEN scope_suffix_trans [rotated]]
      scope_suffix_foldl [OF appends_scope_steps(1)])
  then show ?thesis using sys that unfolding scope_suffix_def by blast
qed

subsection \<open>What a built configuration holds\<close>

interpretation exclusion_order: sort_order "\<lambda>a b. ex_Order a < ex_Order b"
  by unfold_locales auto

lemma ordered_by_index:
  assumes "map f xs = map int [0..<length xs]"
  shows "sorted_wrt (\<lambda>x y. \<not> f y < f x) xs"
proof -
  have "f (xs ! i) = int i" if "i < length xs" for i
    using arg_cong [OF assms, of "\<lambda>l. l ! i"] that by simp
  then show ?thesis by (simp add: sorted_wrt_iff_nth_less)
qed

lemma append_custom_rule_exclusions:
  "append_custom_rule rid scope st raw = Inr st' \<Longrightarrow> st_Exclusions st' = st_Exclusions st"
  by (auto simp: append_custom_rule_def Let_def split: if_splits option.splits)

lemma appendCustomRules_exclusions:
  assumes "appendCustomRules rid scope raw st = Inr st'"
  shows "st_Exclusions st' = st_Exclusions st"
proof -
  have "st_Exclusions s' = st_Exclusions st" if "fold_result (append_custom_rule rid scope) st ls = Inr s'" for ls s'
    by (rule fold_result_inv [OF that]) (auto dest: append_custom_rule_exclusions)
  with assms show ?thesis by (auto simp: appendCustomRules_def split: if_splits sum.splits)
qed

lemma structured_parts:
  assumes "structuredConfigurationFromPolicy net sha marshal rid now owner revID template mode settings = Inr (c, legacy)"
  obtains st1 st2 where
    "appendCustomRules rid PolicyScopeSystem (d_CustomRules (t_Defaults template)) (structured_exclusions rid template settings) = Inr st1"
    "appendCustomRules rid PolicyScopeEnterprise (s_CustomRules settings) st1 = Inr st2"
    "UpdateDigest net sha marshal ((structured_base rid owner revID template mode settings)
       \<lparr>pc_Exclusions := st_Exclusions st2, pc_CustomRules := st_CustomRules st2\<rparr>) = Inr c"
    "ValidateAt net c now = None" "legacy = st_legacy st2"
  using assms by (auto simp: structuredConfigurationFromPolicy_def split: sum.splits option.splits)

lemma UpdateDigest_exclusions:
  assumes "UpdateDigest net sha marshal c0 = Inr c"
    and "map ex_Order (pc_Exclusions c0) = map int [0..<length (pc_Exclusions c0)]"
  shows "pc_Exclusions c = map (\<lambda>e. (normalize_exclusion e)\<lparr>ex_ID := []\<rparr>) (pc_Exclusions c0)"
proof -
  have "map ex_Order (map normalize_exclusion (pc_Exclusions c0)) = map ex_Order (pc_Exclusions c0)"
    by (simp add: normalize_exclusion_def)
  then have "sort_by (\<lambda>a b. ex_Order a < ex_Order b) (map normalize_exclusion (pc_Exclusions c0)) =
      map normalize_exclusion (pc_Exclusions c0)"
    using assms(2) by (intro exclusion_order.sort_by_id ordered_by_index) simp
  then show ?thesis
    using assms(1) by (auto simp: UpdateDigest_def Let_def blank_item_ids_def Normalize_def split: option.splits)
qed

lemma structured_exclusions_final:
  assumes "structuredConfigurationFromPolicy net sha marshal rid now owner revID template mode settings = Inr (c, legacy)"
  shows "pc_Exclusions c = map (\<lambda>e. (normalize_exclusion e)\<lparr>ex_ID := []\<rparr>) (st_Exclusions (structured_exclusions rid template settings))"
    "ValidateAt net c now = None"
proof -
  obtain st1 st2 where
    r1: "appendCustomRules rid PolicyScopeSystem (d_CustomRules (t_Defaults template)) (structured_exclusions rid template settings) = Inr st1"
    and r2: "appendCustomRules rid PolicyScopeEnterprise (s_CustomRules settings) st1 = Inr st2"
    and up: "UpdateDigest net sha marshal ((structured_base rid owner revID template mode settings)
       \<lparr>pc_Exclusions := st_Exclusions st2, pc_CustomRules := st_CustomRules st2\<rparr>) = Inr c"
    and valid: "ValidateAt net c now = None"
    by (rule structured_parts [OF assms])
  have st: "st_Exclusions st2 = st_Exclusions (structured_exclusions rid template settings)"
    using appendCustomRules_exclusions [OF r1] appendCustomRules_exclusions [OF r2] by simp
  show "ValidateAt net c now = None" by (rule valid)
  have "map ex_Order (st_Exclusions st2) = map int [0..<length (st_Exclusions st2)]"
    using structured_exclusions_inv [of rid template settings] by (simp add: st structuring_inv_def)
  with UpdateDigest_exclusions [OF up] show "pc_Exclusions c =
      map (\<lambda>e. (normalize_exclusion e)\<lparr>ex_ID := []\<rparr>) (st_Exclusions (structured_exclusions rid template settings))"
    by (simp add: st)
qed

lemma normalize_reserved:
  "reserved ((normalize_exclusion e)\<lparr>ex_ID := []\<rparr>) = reserved e"
  "ex_GeneratedRuleID ((normalize_exclusion e)\<lparr>ex_ID := []\<rparr>) = ex_GeneratedRuleID e"
  "ex_SourceScope ((normalize_exclusion e)\<lparr>ex_ID := []\<rparr>) = ex_SourceScope e"
  by (simp_all add: reserved_def normalize_exclusion_def enumerate_eq_zip)

lemma reserved_ids_normalized:
  "reserved_ids (map (\<lambda>e. (normalize_exclusion e)\<lparr>ex_ID := []\<rparr>) es) = reserved_ids es"
  by (simp add: reserved_ids_def filter_map o_def normalize_reserved)

lemma concat_exclusion_ids:
  assumes "\<And>e. e \<in> set es \<Longrightarrow> \<exists>net now. validatePolicyExclusion net e now = None"
  shows "concat (map exclusion_ids es) = reserved_ids es"
  using assms
proof (induction es)
  case (Cons e es)
  obtain net now where v: "validatePolicyExclusion net e now = None" using Cons.prems [of e] by auto
  have "exclusion_ids e = (if reserved e then [ex_GeneratedRuleID e] else [])"
    using exclusion_id_before [OF v] v
    by (auto simp: reserved_def exclusion_ids_def validatePolicyExclusion_def exclusion_stages split: if_splits)
  with Cons show ?case by (simp add: reserved_ids_def)
qed (simp add: reserved_ids_def)

subsection \<open>Allocation and release check\<close>

definition generated_ids :: "PolicyConfiguration \<Rightarrow> int list" where
  "generated_ids c = map ex_GeneratedRuleID (pc_Exclusions c) @ map ip_GeneratedRuleID (pc_IPRules c)"

lemma next_free_id_upto:
  "(next_free_id used [lo..hi] = Some i \<longleftrightarrow>
      lo \<le> i \<and> i \<le> hi \<and> i \<notin> set used \<and> (\<forall>j. lo \<le> j \<and> j \<le> hi \<and> j \<notin> set used \<longrightarrow> i \<le> j)) \<and>
   (next_free_id used [lo..hi] = None \<longleftrightarrow> {lo..hi} \<subseteq> set used)"
proof (induction lo hi rule: upto.induct)
  case (1 lo hi)
  show ?case
  proof (cases "lo \<le> hi")
    case True
    have split: "lo \<le> j \<longleftrightarrow> j = lo \<or> lo + 1 \<le> j" for j :: int by auto
    have rng: "{lo..hi} = insert lo {lo + 1..hi}" using True by auto
    show ?thesis
      using "1.IH" [OF True] True unfolding upto.simps [of lo hi] rng
      by (cases "lo \<in> set used") (auto simp: split)
  qed auto
qed

definition setup_rule_ids :: "PolicyConfiguration \<Rightarrow> int list" where
  "setup_rule_ids c = [mwafSetupRuleIDMin .. mwafSetupRuleIDMin + len (CRSSetupMap c) - 1]"

lemma upstream_rule_None: "upstream_rule rules i = None \<longleftrightarrow> i = 0 \<or> i \<notin> ru_ID ` set rules"
  by (auto simp: upstream_rule_def find_None_iff)

lemma namespace_from_5000:
  "in_generated_namespace i \<Longrightarrow> 5000 \<le> i" "in_scope_namespace scope i \<Longrightarrow> 5000 \<le> i" "isLegacyPolicyRuleID i \<Longrightarrow> 5000 \<le> i"
  by (auto simp: in_generated_namespace_def in_scope_namespace_def isLegacyPolicyRuleID_def rule_id_bounds)

lemma config_rule_ids_from_5000:
  assumes "ValidateAt net c now = None" "i \<in> set (config_rule_ids c)"
  shows "5000 \<le> i"
proof -
  consider (ex) e where "e \<in> set (pc_Exclusions c)" "i \<in> set (exclusion_ids e)"
    | (ip) r where "r \<in> set (pc_IPRules c)" "i = ip_GeneratedRuleID r"
    | (cr) r where "r \<in> set (pc_CustomRules c)" "i = cr_RuleID r"
    using assms(2) by (auto simp: config_rule_ids_def)
  then show ?thesis
  proof cases
    case ex
    then show ?thesis using ValidateAt_exclusion(2) [OF assms(1)] namespace_from_5000(1) by blast
  next
    case ip
    obtain s u s' u' where "ip_rule_step net now (s, u) r = Inr (s', u')" by (rule ValidateAt_ip_rule [OF assms(1) ip(1)])
    from ip_rule_step_Inr(4) [OF this] ip(2) show ?thesis using namespace_from_5000(1) by blast
  next
    case cr
    obtain u u' where "custom_rule_step u r = Inr u'" by (rule ValidateAt_custom_rule [OF assms(1) cr(1)])
    from custom_rule_step_Inr(4) [OF this] cr(2) show ?thesis using namespace_from_5000(2,3) by (auto split: if_splits)
  qed
qed

lemma release_checks:
  assumes "validateConfigurationRuleIDs c fs rules = None"
  shows "len (CRSSetupMap c) \<le> 4000" "\<forall>i \<in> set (setup_rule_ids c). upstream_rule rules i = None"
    "\<forall>e \<in> set (pc_Exclusions c). check_exclusion rules e = None"
    "\<forall>r \<in> set (pc_CustomRules c). check_custom_rule rules r = None"
    "\<forall>r \<in> set (pc_IPRules c). check_ip_rule rules r = None"
proof -
  show "len (CRSSetupMap c) \<le> 4000"
    using assms by (auto simp: validateConfigurationRuleIDs_def rule_id_bounds split: if_splits)
  have 1: "first_error (check_setup_value fs) (pc_Setup c) = None"
    using assms by (auto simp: validateConfigurationRuleIDs_def split: if_splits option.splits)
  have 2: "first_error (\<lambda>i. if upstream_rule rules i \<noteq> None then Some (SetupIDConflict i) else None) (setup_rule_ids c) = None"
    using assms 1 unfolding validateConfigurationRuleIDs_def setup_rule_ids_def by (simp split: if_splits option.splits)
  then show "\<forall>i \<in> set (setup_rule_ids c). upstream_rule rules i = None"
    by (auto simp: first_error_None split: if_splits)
  have 3: "first_error (check_exclusion rules) (pc_Exclusions c) = None"
    using assms 1 2 unfolding validateConfigurationRuleIDs_def setup_rule_ids_def by (simp split: if_splits option.splits)
  then show "\<forall>e \<in> set (pc_Exclusions c). check_exclusion rules e = None" by (simp add: first_error_None)
  have 4: "first_error (check_custom_rule rules) (pc_CustomRules c) = None"
    using assms 1 2 3 unfolding validateConfigurationRuleIDs_def setup_rule_ids_def by (simp split: if_splits option.splits)
  then show "\<forall>r \<in> set (pc_CustomRules c). check_custom_rule rules r = None" by (simp add: first_error_None)
  have "first_error (check_ip_rule rules) (pc_IPRules c) = None"
    using assms 1 2 3 4 unfolding validateConfigurationRuleIDs_def setup_rule_ids_def by (simp split: if_splits option.splits)
  then show "\<forall>r \<in> set (pc_IPRules c). check_ip_rule rules r = None" by (simp add: first_error_None)
qed

lemma release_setup_ids:
  "validateConfigurationRuleIDs c fs rules = None \<Longrightarrow> i \<in> set (setup_rule_ids c) \<Longrightarrow> i < 5000 \<and> upstream_rule rules i = None"
  using release_checks(1,2) [of c fs rules] by (auto simp: setup_rule_ids_def rule_id_bounds)

lemma release_config_ids:
  assumes "validateConfigurationRuleIDs c fs rules = None" "i \<in> set (config_rule_ids c)"
  shows "upstream_rule rules i = None"
  using assms(2) release_checks(3-5) [OF assms(1)]
  by (fastforce simp: config_rule_ids_def exclusion_ids_def check_exclusion_def check_custom_rule_def check_ip_rule_def split: if_splits)

subsection \<open>Views of the exclusions\<close>

definition stored :: "PolicyExclusion \<Rightarrow> PolicyExclusion" where
  "stored e = (normalize_exclusion e)\<lparr>ex_ID := []\<rparr>"

definition path_view :: "PolicyExclusion \<Rightarrow> string option" where
  "path_view e = (if ex_SourceScope e = PolicyScopeEnterprise then legacy_path e else None)"

definition ip_view :: "PolicyExclusion \<Rightarrow> string option" where
  "ip_view e = (if ex_SourceScope e = PolicyScopeEnterprise \<and> legacy_path e = None then legacy_ip e else None)"

definition other_view :: "PolicyExclusion \<Rightarrow> unit option" where
  "other_view e =
     (if ex_SourceScope e = PolicyScopeEnterprise \<and> legacy_path e = None \<and> legacy_ip e = None then Some () else None)"

lemma map_filter_Cons: "List.map_filter f (x # xs) = (case f x of None \<Rightarrow> [] | Some y \<Rightarrow> [y]) @ List.map_filter f xs"
  by (simp add: List.map_filter_simps split: option.splits)

lemma map_filter_append: "List.map_filter f (xs @ ys) = List.map_filter f xs @ List.map_filter f ys"
  by (induction xs) (auto simp: map_filter_Cons List.map_filter_simps split: option.splits)

lemma map_filter_map: "List.map_filter f (map g xs) = List.map_filter (\<lambda>x. f (g x)) xs"
  by (induction xs) (auto simp: map_filter_Cons List.map_filter_simps split: option.splits)

lemma map_filter_None: "(\<And>x. x \<in> set xs \<Longrightarrow> f x = None) \<Longrightarrow> List.map_filter f xs = []"
  by (induction xs) (auto simp: map_filter_Cons List.map_filter_simps)

lemma map_filter_Some: "List.map_filter (\<lambda>x. Some (f x)) xs = map f xs"
  by (induction xs) (auto simp: List.map_filter_simps)

lemma length_map_filter_Some: "(\<And>x. x \<in> set xs \<Longrightarrow> f x \<noteq> None) \<Longrightarrow> length (List.map_filter f xs) = length xs"
  by (induction xs) (auto simp: map_filter_Cons List.map_filter_simps split: option.splits)

lemma apply_exclusions_views:
  "s_ExcludedPaths (foldl apply_exclusion s es) = s_ExcludedPaths s @ List.map_filter path_view es"
  "s_ExcludedIPs (foldl apply_exclusion s es) = s_ExcludedIPs s @ List.map_filter ip_view es"
  "length (s_Exclusions (foldl apply_exclusion s es)) = length (s_Exclusions s) + length (List.map_filter other_view es)"
  by (induction es arbitrary: s)
    (auto simp: apply_exclusion_def path_view_def ip_view_def other_view_def map_filter_Cons List.map_filter_simps split: option.splits)

text \<open>A step that appends one exclusion appends at most one value to a view.\<close>

definition appends_view :: "(PolicyExclusion \<Rightarrow> 'b option) \<Rightarrow> (structuring \<Rightarrow> 'a \<Rightarrow> structuring) \<Rightarrow> ('a \<Rightarrow> 'b option) \<Rightarrow> bool" where
  "appends_view view f val \<longleftrightarrow> (\<forall>st x. \<exists>e. st_Exclusions (f st x) = st_Exclusions st @ [e] \<and> view e = val x)"

lemma appends_view_foldl:
  assumes "appends_view view f val"
  shows "List.map_filter view (st_Exclusions (foldl f st xs)) = List.map_filter view (st_Exclusions st) @ List.map_filter val xs"
proof (induction xs arbitrary: st)
  case (Cons x xs)
  obtain e where "st_Exclusions (f st x) = st_Exclusions st @ [e]" "view e = val x"
    using assms unfolding appends_view_def by blast
  with Cons show ?case by (simp add: map_filter_append map_filter_Cons List.map_filter_simps split: option.splits)
qed (simp add: List.map_filter_simps)

definition view_steps ::
  "(nat \<Rightarrow> string) \<Rightarrow> (PolicyExclusion \<Rightarrow> 'b option) \<Rightarrow> (string \<Rightarrow> 'b option) \<Rightarrow> (string \<Rightarrow> 'b option) \<Rightarrow>
   (PolicyExclusion \<Rightarrow> 'b option) \<Rightarrow> bool" where
  "view_steps rid view ip path own \<longleftrightarrow>
     appends_view view (appendBypass rid PolicyScopeSystem ''REMOTE_ADDR'' ''@ipMatch'') (\<lambda>_. None) \<and>
     appends_view view (appendBypass rid PolicyScopeSystem ''REQUEST_URI'' ''@beginsWith'') (\<lambda>_. None) \<and>
     appends_view view (append_engine_bypass rid) (\<lambda>_. None) \<and>
     appends_view view (append_rule_exclusion rid PolicyScopeSystem PolicyExclusionBefore) (\<lambda>_. None) \<and>
     appends_view view (append_rule_exclusion rid PolicyScopeSystem PolicyExclusionAfter) (\<lambda>_. None) \<and>
     appends_view view (append_tag_exclusion rid) (\<lambda>_. None) \<and>
     appends_view view (append_target_exclusion rid) (\<lambda>_. None) \<and>
     appends_view view (appendBypass rid PolicyScopeEnterprise ''REMOTE_ADDR'' ''@ipMatch'') ip \<and>
     appends_view view (appendBypass rid PolicyScopeEnterprise ''REQUEST_URI'' ''@beginsWith'') path \<and>
     appends_view view (append_enterprise_exclusion rid) own"

lemma structured_view:
  assumes "view_steps rid view ip path own"
  shows "List.map_filter view (st_Exclusions (structured_exclusions rid template settings)) =
    List.map_filter ip (s_ExcludedIPs settings) @ List.map_filter path (s_ExcludedPaths settings) @
    List.map_filter own (s_Exclusions settings)"
  using assms unfolding view_steps_def structured_exclusions_def Let_def
  by (elim conjE) (simp add: appends_view_foldl map_filter_None List.map_filter_simps)

lemmas step_defs = appendBypass_def append_engine_bypass_def append_rule_exclusion_def append_tag_exclusion_def
  append_target_exclusion_def append_enterprise_exclusion_def add_exclusion_def

lemma stored_simps [simp]:
  "ex_SourceScope (stored e) = ex_SourceScope e" "ex_Type (stored e) = ex_Type e" "ex_Legacy (stored e) = ex_Legacy e"
  "ex_Conditions (stored e) = sort_by (\<lambda>a b. cd_Order a < cd_Order b) (map normalize_condition (enumerate 0 (ex_Conditions e)))"
  by (simp_all add: stored_def normalize_exclusion_def)

lemma trim_literals [simp]:
  "trim_space ''REQUEST_URI'' = ''REQUEST_URI''" "trim_space ''REMOTE_ADDR'' = ''REMOTE_ADDR''"
  "trim_space ''@beginsWith'' = ''@beginsWith''" "trim_space ''@ipMatch'' = ''@ipMatch''"
  by (simp_all add: trim_space_def trim_by_def is_space_def)

lemma legacy_views_cong:
  assumes "ex_Conditions a = ex_Conditions b" "ex_Type a = ex_Type b" "ex_Legacy a = ex_Legacy b"
  shows "legacy_path a = legacy_path b" "legacy_ip a = legacy_ip b"
  using assms by (simp_all add: legacy_path_def legacy_ip_def cong: list.case_cong)

lemma stored_own:
  "legacy_path (stored (e\<lparr>ex_SourceScope := s, ex_ID := a, ex_Order := b, ex_GeneratedRuleID := g\<rparr>)) = legacy_path (normalize_exclusion e)"
  "legacy_ip (stored (e\<lparr>ex_SourceScope := s, ex_ID := a, ex_Order := b, ex_GeneratedRuleID := g\<rparr>)) = legacy_ip (normalize_exclusion e)"
  by (rule legacy_views_cong; simp add: normalize_exclusion_def)+

lemma stored_single:
  assumes "ex_Conditions e = [condition]"
  shows "legacy_path (stored e) = (if ex_Type e = PolicyExclusionEngineBypass \<and> ex_Legacy e \<and>
      trim_space (cd_Field condition) = ''REQUEST_URI'' \<and> trim_space (cd_Operator condition) = ''@beginsWith''
      then Some (trim_space (cd_Value condition)) else None)"
    "legacy_ip (stored e) = (if ex_Type e = PolicyExclusionEngineBypass \<and> ex_Legacy e \<and>
      trim_space (cd_Field condition) = ''REMOTE_ADDR'' \<and> trim_space (cd_Operator condition) = ''@ipMatch''
      then Some (trim_space (cd_Value condition)) else None)"
  using assms by (simp_all add: legacy_path_def legacy_ip_def normalize_condition_def)

lemma path_view_steps:
  "view_steps rid (\<lambda>e. path_view (stored e)) (\<lambda>_. None) (\<lambda>v. Some (trim_space v)) (\<lambda>e. legacy_path (normalize_exclusion e))"
  unfolding view_steps_def appends_view_def
  by (auto simp: step_defs path_view_def stored_own stored_single)

lemma ip_view_steps:
  "view_steps rid (\<lambda>e. ip_view (stored e)) (\<lambda>v. Some (trim_space v)) (\<lambda>_. None)
     (\<lambda>e. if legacy_path (normalize_exclusion e) = None then legacy_ip (normalize_exclusion e) else None)"
  unfolding view_steps_def appends_view_def
  by (auto simp: step_defs ip_view_def stored_own stored_single)

lemma other_view_steps:
  "view_steps rid (\<lambda>e. other_view (stored e)) (\<lambda>_. None) (\<lambda>_. None)
     (\<lambda>e. if legacy_path (normalize_exclusion e) = None \<and> legacy_ip (normalize_exclusion e) = None then Some () else None)"
  unfolding view_steps_def appends_view_def
  by (auto simp: step_defs other_view_def stored_own stored_single)

section \<open>Properties\<close>

text \<open>
  a configuration built from a template and an author's settings reserves its generated
  identifiers in strictly increasing order, all of the system layer before all of the
  enterprise's, so that separately rendered base and override artifacts cannot reserve the same
  identifier.
\<close>

theorem structured_ids_ordered:
  assumes "structuredConfigurationFromPolicy net sha marshal rid now owner revID template mode settings = Inr (c, legacy)"
  shows "sorted_wrt (<) (concat (map exclusion_ids (pc_Exclusions c))) \<and>
    (\<forall>a \<in> set (pc_Exclusions c). \<forall>b \<in> set (pc_Exclusions c).
       ex_SourceScope a = PolicyScopeSystem \<longrightarrow> ex_SourceScope b = PolicyScopeEnterprise \<longrightarrow>
       (\<forall>i \<in> set (exclusion_ids a). \<forall>j \<in> set (exclusion_ids b). i < j))"
proof -
  let ?es = "st_Exclusions (structured_exclusions rid template settings)"
  let ?n = "\<lambda>e. (normalize_exclusion e)\<lparr>ex_ID := []\<rparr>"
  have c: "pc_Exclusions c = map ?n ?es" and valid: "ValidateAt net c now = None"
    using structured_exclusions_final [OF assms] by blast+
  have ids: "concat (map exclusion_ids es) = reserved_ids es" if "set es \<subseteq> set (pc_Exclusions c)" for es
    using that ValidateAt_exclusion(1) [OF valid] by (intro concat_exclusion_ids) blast
  have "concat (map exclusion_ids (pc_Exclusions c)) = reserved_ids ?es"
    using ids [OF subset_refl] unfolding c reserved_ids_normalized .
  then have sorted: "sorted_wrt (<) (concat (map exclusion_ids (pc_Exclusions c)))"
    using structured_exclusions_inv [of rid template settings] by (simp add: structuring_inv_def)
  obtain sys ent where split: "?es = sys @ ent" and scopes: "\<forall>e \<in> set sys. ex_SourceScope e = PolicyScopeSystem"
    "\<forall>e \<in> set ent. ex_SourceScope e = PolicyScopeEnterprise" by (rule structured_scopes)
  have "sorted_wrt (<) (concat (map exclusion_ids (map ?n sys)) @ concat (map exclusion_ids (map ?n ent)))"
    using sorted by (simp add: c split)
  then have less: "i < j" if "a \<in> set (map ?n sys)" "b \<in> set (map ?n ent)" "i \<in> set (exclusion_ids a)" "j \<in> set (exclusion_ids b)" for a b i j
    using that unfolding sorted_wrt_append by fastforce
  have "a \<in> set (map ?n sys)" if "a \<in> set (pc_Exclusions c)" "ex_SourceScope a = PolicyScopeSystem" for a
    using that scopes by (auto simp: c split normalize_reserved(3))
  moreover have "b \<in> set (map ?n ent)" if "b \<in> set (pc_Exclusions c)" "ex_SourceScope b = PolicyScopeEnterprise" for b
    using that scopes by (auto simp: c split normalize_reserved(3))
  ultimately show ?thesis using sorted less by blast
qed

text \<open>A template with an excluded address and an author's settings with an excluded path.\<close>

definition sample_template :: Template where
  "sample_template = baseline_template\<lparr>t_Defaults := (t_Defaults baseline_template)\<lparr>d_ExcludedIPs := [''192.0.2.7'']\<rparr>\<rparr>"

definition sample_settings :: PolicySettings where
  "sample_settings = managed_settings empty_metadata 1 5 True [''/health''] [] [] 0"

lemma sample_structured:
  "\<exists>c legacy. structuredConfigurationFromPolicy sample_netip id (\<lambda>c. Some []) (\<lambda>n. []) 0 [] ''r1'' sample_template ''On'' sample_settings =
     Inr (c, legacy)"
proof -
  have "isl (structuredConfigurationFromPolicy sample_netip id (\<lambda>c. Some []) (\<lambda>n. []) 0 [] ''r1'' sample_template ''On'' sample_settings) = False"
    by code_simp
  then show ?thesis
    by (cases "structuredConfigurationFromPolicy sample_netip id (\<lambda>c. Some []) (\<lambda>n. []) 0 [] ''r1'' sample_template ''On'' sample_settings") auto
qed

lemma structured_ids_ordered_witness:
  "\<exists>c legacy. structuredConfigurationFromPolicy sample_netip id (\<lambda>c. Some []) (\<lambda>n. []) 0 [] ''r1'' sample_template ''On'' sample_settings =
     Inr (c, legacy) \<and> sorted_wrt (<) (concat (map exclusion_ids (pc_Exclusions c)))"
  using sample_structured structured_ids_ordered by blast

text \<open>
  the allocator returns the smallest identifier of 5000..9999 that no exclusion and no IP
  rule of the configuration has, and it fails exactly when all of them are taken.
\<close>

theorem nextGeneratedPolicyRuleID_least_free:
  "(nextGeneratedPolicyRuleID c = Some i \<longleftrightarrow>
      in_generated_namespace i \<and> i \<notin> set (generated_ids c) \<and>
      (\<forall>j. in_generated_namespace j \<and> j \<notin> set (generated_ids c) \<longrightarrow> i \<le> j)) \<and>
   (nextGeneratedPolicyRuleID c = None \<longleftrightarrow> {mwafGeneratedRuleIDMin .. mwafGeneratedRuleIDMax} \<subseteq> set (generated_ids c))"
  using next_free_id_upto [of "generated_ids c" mwafGeneratedRuleIDMin mwafGeneratedRuleIDMax]
  unfolding nextGeneratedPolicyRuleID_def generated_ids_def in_generated_namespace_def by blast

lemma nextGeneratedPolicyRuleID_least_free_witness:
  "nextGeneratedPolicyRuleID sample_configuration = Some 5002"
proof -
  have "set (generated_ids sample_configuration) = {5000, 5001}" by code_simp
  then show ?thesis
    using nextGeneratedPolicyRuleID_least_free [of sample_configuration 5002]
    by (auto simp: in_generated_namespace_def rule_id_bounds)
qed

text \<open>
  a configuration that validates and that the check against a CRS release accepts shares no
  rule identifier with the release: the identifiers of its CRS setup actions (from 1000), of its
  exclusions, IP rules and custom rules are pairwise different and none is a rule of the release.
\<close>

theorem release_ids_disjoint:
  assumes "ValidateAt net c now = None" "validateConfigurationRuleIDs c fs rules = None"
  shows "distinct (setup_rule_ids c @ config_rule_ids c) \<and>
    set (setup_rule_ids c @ config_rule_ids c) \<inter> (ru_ID ` set rules - {0}) = {}"
proof
  have ns: "i \<ge> 5000" if "i \<in> set (config_rule_ids c)" for i
    using config_rule_ids_from_5000 [OF assms(1) that] .
  have setup_ids: "i < 5000 \<and> upstream_rule rules i = None" if "i \<in> set (setup_rule_ids c)" for i
    using release_setup_ids [OF assms(2) that] .
  show "distinct (setup_rule_ids c @ config_rule_ids c)"
    using ns setup_ids ValidateAt_distinct_ids [OF assms(1)] by (force simp: setup_rule_ids_def)
  have "upstream_rule rules i = None" if "i \<in> set (setup_rule_ids c @ config_rule_ids c)" for i
    using that setup_ids release_config_ids [OF assms(2)] by auto
  then show "set (setup_rule_ids c @ config_rule_ids c) \<inter> (ru_ID ` set rules - {0}) = {}"
    by (fastforce simp: upstream_rule_None)
qed

lemma release_ids_disjoint_witness:
  "distinct (setup_rule_ids sample_configuration @ config_rule_ids sample_configuration)"
proof -
  let ?rule = "\<lparr>ru_ID = 920100, ru_File = [], ru_Line = 1, ru_Phase = ''1'', ru_ParanoiaLevel = 1, ru_Severity = [], ru_Tags = [],
    ru_Message = [], ru_Variables = [], ru_Operator = [], ru_ContentHash = [], ru_Directive = []\<rparr>"
  let ?field = "\<lparr>sf_Key = ''max_num_args'', sf_Label = [], sf_Type = ''integer'', sf_Default = [], sf_Minimum = 1, sf_Maximum = 1000,
    sf_Options = [], sf_Description = []\<rparr>"
  have "validateConfigurationRuleIDs sample_configuration [?field] [?rule] = None" by code_simp
  from release_ids_disjoint [OF sample_configuration_valid this] show ?thesis by blast
qed

text \<open>C31:
  excluded paths and addresses survive the structured form. Building a configuration from an
  author's settings and applying it to any settings gives back the author's excluded paths and
  addresses, trimmed and in order, provided none of the author's other exclusions is itself a
  legacy bypass of a path or an address.
\<close>

theorem structured_settings_roundtrip:
  assumes "structuredConfigurationFromPolicy net sha marshal rid now owner revID template mode settings = Inr (c, legacy)"
    and "\<forall>e \<in> set (s_Exclusions settings). legacy_path (normalize_exclusion e) = None \<and> legacy_ip (normalize_exclusion e) = None"
  shows "s_ExcludedPaths (ApplyToSettings c other) = map trim_space (s_ExcludedPaths settings) \<and>
    s_ExcludedIPs (ApplyToSettings c other) = map trim_space (s_ExcludedIPs settings) \<and>
    len (s_Exclusions (ApplyToSettings c other)) = len (s_Exclusions settings)"
proof -
  have c: "pc_Exclusions c = map stored (st_Exclusions (structured_exclusions rid template settings))"
    using structured_exclusions_final(1) [OF assms(1)] by (simp add: stored_def)
  have paths: "List.map_filter path_view (pc_Exclusions c) = map trim_space (s_ExcludedPaths settings)"
    unfolding c map_filter_map structured_view [OF path_view_steps]
    using assms(2) by (simp add: map_filter_None map_filter_Some)
  have ips: "List.map_filter ip_view (pc_Exclusions c) = map trim_space (s_ExcludedIPs settings)"
    unfolding c map_filter_map structured_view [OF ip_view_steps]
    using assms(2) by (simp add: map_filter_None map_filter_Some)
  have others: "length (List.map_filter other_view (pc_Exclusions c)) = length (s_Exclusions settings)"
    unfolding c map_filter_map structured_view [OF other_view_steps]
    using assms(2) by (simp add: map_filter_None length_map_filter_Some)
  show ?thesis
    using paths ips others by (simp add: ApplyToSettings_def Let_def apply_exclusions_views)
qed

lemma structured_settings_roundtrip_witness:
  "\<exists>c legacy. structuredConfigurationFromPolicy sample_netip id (\<lambda>c. Some []) (\<lambda>n. []) 0 [] ''r1'' sample_template ''On'' sample_settings =
     Inr (c, legacy) \<and> s_ExcludedPaths (ApplyToSettings c sample_settings) = map trim_space [''/health'']"
proof -
  obtain c legacy where c: "structuredConfigurationFromPolicy sample_netip id (\<lambda>c. Some []) (\<lambda>n. []) 0 [] ''r1'' sample_template ''On''
      sample_settings = Inr (c, legacy)" using sample_structured by blast
  have "s_Exclusions sample_settings = []" "s_ExcludedPaths sample_settings = [''/health'']"
    by (simp_all add: sample_settings_def managed_settings_def)
  with structured_settings_roundtrip [OF c, of sample_settings] c show ?thesis by auto
qed

text \<open>
  an expired engine bypass of the system layer. The expiry job only removes the enterprise's exceptions, so the configuration it
  prepares still holds the system bypass, and its validation fails; the same holds for the job that removes expired IP rules.
\<close>

theorem expired_system_bypass_blocks:
  assumes "e \<in> set (pc_Exclusions c)" "ex_SourceScope e = PolicyScopeSystem" "ex_Type e = PolicyExclusionEngineBypass"
    "\<not> ex_Legacy e" "ex_ExpiresAt e = Some expiry" "expiry < now"
  shows "ValidateAt net (expire_exceptions now c) now \<noteq> None \<and> ValidateAt net (expire_ip_rules now c) now \<noteq> None"
proof
  have kept: "e \<in> set (filter (\<lambda>e. \<not> (ex_SourceScope e = PolicyScopeEnterprise \<and> ex_Enabled e \<and> expired (ex_ExpiresAt e) now)) (pc_Exclusions c))"
    using assms(1,2) by simp
  then obtain i where "e\<lparr>ex_Order := i\<rparr> \<in> set (pc_Exclusions (expire_exceptions now c))"
    using enumerate_mem [OF kept] by (force simp: expire_exceptions_def image_iff)
  moreover have "validatePolicyExclusion net (e\<lparr>ex_Order := i\<rparr>) now \<noteq> None"
    using bypass_expiry(1) [of net "e\<lparr>ex_Order := i\<rparr>" now] assms(3-6) by auto
  ultimately show "ValidateAt net (expire_exceptions now c) now \<noteq> None"
    using ValidateAt_exclusion(1) [of net "expire_exceptions now c" now "e\<lparr>ex_Order := i\<rparr>"] by (intro notI) (simp only: simp_thms)
  have "validatePolicyExclusion net e now \<noteq> None" using bypass_expiry(1) [of net e now] assms(3-6) by auto
  moreover have "e \<in> set (pc_Exclusions (expire_ip_rules now c))" using assms(1) by (simp add: expire_ip_rules_def)
  ultimately show "ValidateAt net (expire_ip_rules now c) now \<noteq> None"
    using ValidateAt_exclusion(1) [of net "expire_ip_rules now c" now e] by (intro notI) (simp only: simp_thms)
qed

lemma expired_system_bypass_blocks_witness:
  "\<exists>c. ValidateAt sample_netip (expire_exceptions (3 * hour) c) (3 * hour) \<noteq> None"
proof -
  let ?c = "sample_configuration\<lparr>pc_Exclusions := map (\<lambda>e. e\<lparr>ex_SourceScope := PolicyScopeSystem\<rparr>) (pc_Exclusions sample_configuration)\<rparr>"
  obtain e where e: "e \<in> set (pc_Exclusions ?c)" "ex_SourceScope e = PolicyScopeSystem" "ex_Type e = PolicyExclusionEngineBypass"
      "\<not> ex_Legacy e" "ex_ExpiresAt e = Some (2 * hour)"
    by (simp add: sample_configuration_def PolicyExclusionEngineBypass_def)
  have "ValidateAt sample_netip (expire_exceptions (3 * hour) ?c) (3 * hour) \<noteq> None"
    using expired_system_bypass_blocks [OF e, of "3 * hour" sample_netip] by simp
  then show ?thesis by blast
qed

end
