(* ===== verification/Paths.thy ===== *)
theory Paths
  imports Prelude
begin

text \<open>
  Slash-separated paths as the packages \<^verbatim>\<open>path\<close> and \<^verbatim>\<open>path/filepath\<close> of the standard library
  treat them on the systems the program runs on, and what cleaning does to absolute and relative paths. A relative path
  that stays relative to its root when it is cleaned names a file below any root it is joined to.
\<close>

section \<open>Cleaning\<close>

text \<open>\<^verbatim>\<open>path.Clean\<close>.\<close>

definition clean_step :: "bool \<Rightarrow> string list \<Rightarrow> string \<Rightarrow> string list" where
  "clean_step rooted acc part =
     (if part = [] \<or> part = ''.'' then acc
      else if part = ''..'' then
        (if acc \<noteq> [] \<and> last acc \<noteq> ''..'' then butlast acc else if rooted then acc else acc @ [part])
      else acc @ [part])"

definition path_clean :: "string \<Rightarrow> string" where
  "path_clean p =
     (let rooted = has_prefix p ''/'';
          s = join ''/'' (foldl (clean_step rooted) [] (split (CHR ''/'') p))
      in if rooted then ''/'' @ s else if s = [] then ''.'' else s)"

section \<open>Parts of a path\<close>

definition path_dir :: "string \<Rightarrow> string" where
  "path_dir p = path_clean (rev (dropWhile (\<lambda>c. c \<noteq> CHR ''/'') (rev p)))"

definition path_base :: "string \<Rightarrow> string" where
  "path_base p = rev (takeWhile (\<lambda>c. c \<noteq> CHR ''/'') (rev p))"

definition path_join :: "string \<Rightarrow> string \<Rightarrow> string" where
  "path_join a b = path_clean (a @ ''/'' @ b)"

definition is_abs :: "string \<Rightarrow> bool" where
  "is_abs p \<longleftrightarrow> has_prefix p ''/''"

section \<open>Clean paths\<close>

text \<open>The parts that cleaning a path keeps.\<close>

definition plain_part :: "string \<Rightarrow> bool" where
  "plain_part w \<longleftrightarrow> w \<noteq> [] \<and> w \<noteq> ''.'' \<and> w \<noteq> ''..'' \<and> CHR ''/'' \<notin> set w"

lemma clean_step_plain:
  "list_all plain_part acc \<Longrightarrow> CHR ''/'' \<notin> set w \<Longrightarrow> list_all plain_part (clean_step True acc w)"
  by (auto simp: clean_step_def plain_part_def list_all_iff dest: in_set_butlastD)

lemma clean_parts_plain:
  "list_all plain_part acc \<Longrightarrow> list_all (\<lambda>w. CHR ''/'' \<notin> set w) ws \<Longrightarrow> list_all plain_part (foldl (clean_step True) acc ws)"
  by (induction ws arbitrary: acc) (simp_all add: clean_step_plain)

lemma clean_parts_same: "list_all plain_part ws \<Longrightarrow> foldl (clean_step True) acc ws = acc @ ws"
  by (induction ws arbitrary: acc) (simp_all add: clean_step_def plain_part_def)

lemma rooted_clean:
  assumes "list_all plain_part ws"
  shows "path_clean (CHR ''/'' # join ''/'' ws) = CHR ''/'' # join ''/'' ws"
proof -
  have "split (CHR ''/'') (join ''/'' ws) = (if ws = [] then [[]] else ws)"
    using assms split_join [of ws "CHR ''/''"] by (auto simp: plain_part_def list_all_iff)
  then show ?thesis
    using assms clean_parts_same [OF assms, of "[]"] by (simp add: path_clean_def has_prefix_def clean_step_def)
qed

lemma path_clean_rooted:
  assumes "is_abs p"
  shows "path_clean (path_clean p) = path_clean p \<and> is_abs (path_clean p)"
proof -
  let ?ws = "foldl (clean_step True) [] (split (CHR ''/'') p)"
  have p: "path_clean p = CHR ''/'' # join ''/'' ?ws" using assms by (simp add: path_clean_def is_abs_def)
  have "list_all plain_part ?ws" by (rule clean_parts_plain) (auto simp: list_all_iff dest: split_no_sep)
  from rooted_clean [OF this] show ?thesis unfolding p by (simp add: is_abs_def has_prefix_def)
qed

lemma clean_parts_nonempty:
  "list_all (\<lambda>w. w \<noteq> [] \<and> CHR ''/'' \<notin> set w) acc \<Longrightarrow> list_all (\<lambda>w. CHR ''/'' \<notin> set w) ws \<Longrightarrow>
   list_all (\<lambda>w. w \<noteq> [] \<and> CHR ''/'' \<notin> set w) (foldl (clean_step rooted) acc ws)"
proof (induction ws arbitrary: acc)
  case (Cons w ws)
  have "list_all (\<lambda>w. w \<noteq> [] \<and> CHR ''/'' \<notin> set w) (clean_step rooted acc w)"
    using Cons.prems by (auto simp: clean_step_def list_all_iff dest: in_set_butlastD)
  with Cons show ?case by simp
qed simp

lemma join_not_rooted: "list_all (\<lambda>w. w \<noteq> [] \<and> CHR ''/'' \<notin> set w) ws \<Longrightarrow> \<not> is_abs (join ''/'' ws)"
  by (induction ws rule: induct_list012) (auto simp: is_abs_def has_prefix_def neq_Nil_conv)

lemma path_clean_abs:
  assumes "is_abs (path_clean p)"
  shows "is_abs p"
proof (rule ccontr)
  assume rel: "\<not> is_abs p"
  let ?ws = "foldl (clean_step False) [] (split (CHR ''/'') p)"
  have "list_all (\<lambda>w. w \<noteq> [] \<and> CHR ''/'' \<notin> set w) ?ws"
    by (rule clean_parts_nonempty) (auto simp: list_all_iff dest: split_no_sep)
  from join_not_rooted [OF this] show False
    using assms rel by (simp add: path_clean_def is_abs_def Let_def has_prefix_def split: if_splits)
qed

section \<open>Paths below a root\<close>

definition unsafe_path :: "string \<Rightarrow> bool" where
  "unsafe_path clean \<longleftrightarrow> has_prefix clean ''/'' \<or> clean = ''.'' \<or> has_prefix clean ''../'' \<or> clean = ''..''"

text \<open>The parts of a clean relative path leave the directory some number of times first, and never fewer times later.\<close>

lemma clean_step_relative:
  assumes ws: "list_all plain_part ws" and w: "CHR ''/'' \<notin> set w"
  shows "\<exists>k ws'. clean_step False (replicate n ''..'' @ ws) w = replicate (n + k) ''..'' @ ws' \<and> list_all plain_part ws'"
proof -
  have app: "replicate n ''..'' @ [''..''] = replicate (n + 1) ''..''" by (simp add: replicate_append_same)
  consider "w = [] \<or> w = ''.''" | "w = ''..''" "ws = []" | "w = ''..''" "ws \<noteq> []" | "plain_part w"
    using w by (auto simp: plain_part_def)
  then show ?thesis
  proof cases
    case 1
    then have "clean_step False (replicate n ''..'' @ ws) w = replicate (n + 0) ''..'' @ ws" by (auto simp: clean_step_def)
    then show ?thesis using ws by blast
  next
    case 2
    then have "clean_step False (replicate n ''..'' @ ws) w = replicate (n + 1) ''..'' @ []"
      using app by (cases n) (simp_all add: clean_step_def last_replicate)
    then show ?thesis by (metis list.pred_inject(1))
  next
    case 3
    then have "last ws \<noteq> ''..''" using ws by (auto simp: list_all_iff plain_part_def dest!: last_in_set)
    then have "clean_step False (replicate n ''..'' @ ws) w = replicate (n + 0) ''..'' @ butlast ws"
      using 3 by (simp add: clean_step_def butlast_append)
    moreover have "list_all plain_part (butlast ws)" using ws by (auto simp: list_all_iff dest: in_set_butlastD)
    ultimately show ?thesis by blast
  next
    case 4
    then have "clean_step False (replicate n ''..'' @ ws) w = replicate (n + 0) ''..'' @ (ws @ [w])"
      by (auto simp: clean_step_def plain_part_def)
    moreover have "list_all plain_part (ws @ [w])" using ws 4 by simp
    ultimately show ?thesis by blast
  qed
qed

lemma clean_relative_form:
  assumes "list_all plain_part ws" "list_all (\<lambda>w. CHR ''/'' \<notin> set w) ps"
  shows "\<exists>k ws'. foldl (clean_step False) (replicate n ''..'' @ ws) ps = replicate (n + k) ''..'' @ ws' \<and> list_all plain_part ws'"
  using assms
proof (induction ps arbitrary: n ws)
  case Nil
  then show ?case by (metis add_0_right foldl_Nil)
next
  case (Cons p ps)
  obtain k ws' where k: "clean_step False (replicate n ''..'' @ ws) p = replicate (n + k) ''..'' @ ws'" "list_all plain_part ws'"
    using clean_step_relative[OF Cons.prems(1)] Cons.prems(2) by (metis list.pred_inject(2))
  obtain j ws'' where "foldl (clean_step False) (replicate (n + k) ''..'' @ ws') ps = replicate (n + k + j) ''..'' @ ws''"
    "list_all plain_part ws''"
    using Cons.IH[OF k(2)] Cons.prems(2) by (metis list.pred_inject(2))
  then show ?case using k by (metis add.assoc foldl_Cons)
qed

text \<open>Below a root the parts of a path that never leaves its directory are cleaned as they are by themselves.\<close>

lemma clean_below:
  assumes "list_all plain_part rs" "list_all plain_part ws" "list_all (\<lambda>w. CHR ''/'' \<notin> set w) ps"
    and "''..'' \<notin> set (foldl (clean_step False) ws ps)"
  shows "foldl (clean_step True) (rs @ ws) ps = rs @ foldl (clean_step False) ws ps"
  using assms(2-4)
proof (induction ps arbitrary: ws)
  case (Cons p ps)
  obtain k ws' where k: "clean_step False ws p = replicate k ''..'' @ ws'" "list_all plain_part ws'"
    using clean_step_relative[OF Cons.prems(1), of p 0] Cons.prems(2) by auto
  have "k = 0"
  proof (rule ccontr)
    assume "k \<noteq> 0"
    moreover obtain j ws'' where "foldl (clean_step False) (replicate k ''..'' @ ws') ps = replicate (k + j) ''..'' @ ws''"
      using clean_relative_form[OF k(2)] Cons.prems(2) by (metis list.pred_inject(2))
    ultimately show False using Cons.prems(3) k(1) by simp
  qed
  then have step: "clean_step False ws p = ws'" using k by simp
  have "clean_step True (rs @ ws) p = rs @ ws'"
  proof (cases "p = ''..''")
    case True
    then have "ws \<noteq> [] \<and> last ws \<noteq> ''..''"
      using step k(2) Cons.prems(1) by (auto simp: clean_step_def plain_part_def split: if_splits)
    then show ?thesis using step True by (auto simp: clean_step_def butlast_append)
  qed (use step in \<open>auto simp: clean_step_def\<close>)
  then show ?case using Cons.IH[OF k(2)] Cons.prems(2,3) step by simp
qed simp

text \<open>
  A path that is not unsafe once cleaned names a file below the root, and the same file whether it is cleaned before it is
  joined to the root or not.
\<close>

lemma safe_path_below:
  assumes root: "list_all plain_part rs" and safe: "\<not> unsafe_path (path_clean p)"
  obtains ws where "ws \<noteq> []" "list_all plain_part ws"
    "path_join (CHR ''/'' # join ''/'' rs) p = CHR ''/'' # join ''/'' (rs @ ws)"
    "path_join (CHR ''/'' # join ''/'' rs) (path_clean p) = CHR ''/'' # join ''/'' (rs @ ws)"
proof -
  let ?ps = "split (CHR ''/'') p"
  let ?ws = "foldl (clean_step False) [] ?ps"
  have slashes: "list_all (\<lambda>w. CHR ''/'' \<notin> set w) ?ps" by (auto simp: list_all_iff dest: split_no_sep)
  have rel: "\<not> has_prefix p ''/''"
  proof
    assume "has_prefix p ''/''"
    then have "has_prefix (path_clean p) ''/''" by (simp add: path_clean_def Let_def has_prefix_def)
    then show False using safe by (simp add: unsafe_path_def)
  qed
  have c: "path_clean p = (if join ''/'' ?ws = [] then ''.'' else join ''/'' ?ws)"
    using rel by (simp add: path_clean_def Let_def)
  obtain k ws where ws: "?ws = replicate k ''..'' @ ws" "list_all plain_part ws"
    using clean_relative_form[of "[]" ?ps 0] slashes by auto
  have "k = 0"
  proof (cases k)
    case (Suc j)
    then have "?ws = ''..'' # replicate j ''..'' @ ws" using ws by simp
    then have "has_prefix (path_clean p) ''../'' \<or> path_clean p = ''..''"
      unfolding c by (cases "replicate j ''..'' @ ws") (simp_all add: has_prefix_def)
    then show ?thesis using safe by (auto simp: unsafe_path_def)
  qed simp
  then have plain: "list_all plain_part ?ws" using ws by simp
  have ne: "?ws \<noteq> []" using c safe by (auto simp: unsafe_path_def)
  have cp: "path_clean p = join ''/'' ?ws"
    using c safe by (auto simp: unsafe_path_def split: if_splits)
  have dots: "''..'' \<notin> set ?ws" using plain by (auto simp: list_all_iff plain_part_def)
  have root_parts: "split (CHR ''/'') (join ''/'' rs @ CHR ''/'' # q) =
      (if rs = [] then [[]] else rs) @ split (CHR ''/'') q" for q
    using root split_join[of rs "CHR ''/''"] split_append[of "CHR ''/''" "join ''/'' rs" q]
    by (auto simp: plain_part_def list_all_iff)
  have joined: "path_join (CHR ''/'' # join ''/'' rs) q = CHR ''/'' # join ''/'' (rs @ foldl (clean_step False) [] (split (CHR ''/'') q))"
    if "''..'' \<notin> set (foldl (clean_step False) [] (split (CHR ''/'') q))" for q
  proof -
    have "foldl (clean_step True) rs (split (CHR ''/'') q) = rs @ foldl (clean_step False) [] (split (CHR ''/'') q)"
      using clean_below[OF root, of "[]" "split (CHR ''/'') q"] that by (auto simp: list_all_iff dest: split_no_sep)
    then show ?thesis
      using clean_parts_same[OF root, of "[]"]
      by (cases "rs = []") (simp_all add: path_join_def path_clean_def has_prefix_def root_parts clean_step_def)
  qed
  have again: "foldl (clean_step False) [] (split (CHR ''/'') (join ''/'' ?ws)) = ?ws"
  proof -
    have "split (CHR ''/'') (join ''/'' ?ws) = ?ws"
      using split_join[of ?ws "CHR ''/''"] plain ne by (auto simp: plain_part_def list_all_iff)
    moreover have "foldl (clean_step False) [] ws' = ws'" if "list_all plain_part ws'" for ws'
    proof -
      have "list_all plain_part ws' \<Longrightarrow> foldl (clean_step False) acc ws' = acc @ ws'" for acc
        by (induction ws' arbitrary: acc) (simp_all add: clean_step_def plain_part_def)
      then show ?thesis using that by simp
    qed
    ultimately show ?thesis using plain by simp
  qed
  show ?thesis
  proof
    show "path_join (CHR ''/'' # join ''/'' rs) p = CHR ''/'' # join ''/'' (rs @ ?ws)" by (rule joined[OF dots])
    show "path_join (CHR ''/'' # join ''/'' rs) (path_clean p) = CHR ''/'' # join ''/'' (rs @ ?ws)"
      using joined[of "path_clean p"] again dots unfolding cp by simp
  qed (use ne plain in auto)
qed

end
