(* ===== verification/Policy_Bundle.thy ===== *)
theory Policy_Bundle
  imports Policy_Structured Paths
begin

text \<open>
  The signed policy archives, \<^verbatim>\<open>src/internal/policybundle/bundle.go\<close>: the rendering of the
  ModSecurity files, the four archive formats (the self-contained v2 and v3 bundles, the base
  policy and the enterprise override), and the parser that the Manager and the Agent verify an
  archive with.

  Archives, JSON and digests are arguments. \<open>pack\<close> is tar and gzip writing: from the entries to the
  bytes. \<open>unpack\<close> is their reading: \<^term>\<open>None\<close> when the gzip header is refused, else the entries
  and whether the archive ends in an error. \<open>encode\<close> and \<open>decode\<close> are the JSON codec of the
  manifest, with unknown fields refused, and \<open>sha256_hex\<close> is the digest. Their documented round trip is the
  predicate \<open>codec_ok\<close>.
\<close>

section \<open>Data\<close>

definition Format :: string where "Format = ''policy-bundle-v2''"
definition FormatV3 :: string where "FormatV3 = ''policy-bundle-v3''"
definition FormatBase :: string where "FormatBase = ''policy-base-v1''"
definition FormatOverride :: string where "FormatOverride = ''policy-override-v1''"

lemmas bundle_formats = Format_def FormatV3_def FormatBase_def FormatOverride_def

definition orderedFiles :: "string list" where
  "orderedFiles = [''00-engine.conf'', ''20-crs-setup.conf'', ''30-before-crs-exclusions.conf'', ''40-crs-rules.conf'',
     ''50-after-crs-exclusions.conf'', ''60-service-rules.conf'']"

definition baseOrderedFiles :: "string list" where
  "baseOrderedFiles = [''00-base-engine.conf'', ''20-base-crs-setup.conf'', ''30-base-before-crs-exclusions.conf'',
     ''40-base-crs-rules.conf'', ''50-base-after-crs-exclusions.conf'', ''60-base-service-rules.conf'']"

definition overrideOrderedFiles :: "string list" where
  "overrideOrderedFiles = [''10-enterprise-engine.conf'', ''25-enterprise-crs-setup.conf'',
     ''35-enterprise-before-crs-exclusions.conf'', ''55-enterprise-after-crs-exclusions.conf'', ''65-enterprise-service-rules.conf'']"

record FileManifest =
  fm_Path :: string
  fm_Size :: int
  fm_SHA256 :: string

record Manifest =
  m_SchemaVersion :: int
  m_ArtifactFormat :: string
  m_PolicySource :: PolicySourceRef
  m_BasePolicyID :: string
  m_BaseArtifactSHA256 :: string
  m_OverrideConfigSHA256 :: string
  m_EffectiveConfigSHA256 :: string
  m_ValidationDigest :: string
  m_Files :: "FileManifest list"

record bundle_Exclusion =
  be_Type :: string
  be_LoadStage :: string
  be_RuleID :: int
  be_RuleTag :: string
  be_Target :: string
  be_GeneratedRuleID :: int
  be_Enabled :: bool
  be_Conditions :: "RuleCondition list"

record bundle_CustomRule =
  bu_RuleID :: int
  bu_Scope :: string
  bu_Canonical :: string
  bu_Enabled :: bool

record bundle_IPRule =
  bp_Action :: string
  bp_Network :: string
  bp_GeneratedRuleID :: int
  bp_Enabled :: bool

record Input =
  bi_Mode :: string
  bi_RequestBody :: bool
  bi_ResponseBody :: bool
  bi_CRSSetup :: "(string \<times> string) list"
  bi_Before :: "RuleExclusion list"
  bi_After :: "RuleExclusion list"
  bi_Target :: "TargetExclusion list"
  bi_ExcludedPaths :: "string list"
  bi_ExcludedIPs :: "string list"
  bi_SystemRules :: string
  bi_EnterpriseRules :: string
  bi_Exclusions :: "bundle_Exclusion list"
  bi_CustomRules :: "bundle_CustomRule list"
  bi_IPRules :: "bundle_IPRule list"

record OverrideInput =
  oi_IncludeScalars :: bool
  oi_Mode :: string
  oi_RequestBody :: bool
  oi_ResponseBody :: bool
  oi_CRSSetup :: "(string \<times> string) list"
  oi_Exclusions :: "bundle_Exclusion list"
  oi_CustomRules :: "bundle_CustomRule list"
  oi_IPRules :: "bundle_IPRule list"

record OverrideMetadata =
  om_BasePolicyID :: string
  om_BaseArtifactSHA256 :: string
  om_OverrideConfigSHA256 :: string
  om_EffectiveConfigSHA256 :: string
  om_ValidationDigest :: string

record tar_entry =
  tar_Name :: string
  tar_Regular :: bool
  tar_Size :: int
  tar_Content :: "string option"

section \<open>Rendering\<close>

definition onOff :: "bool \<Rightarrow> string" where
  "onOff b = (if b then ''On'' else ''Off'')"

definition renderEngine :: "string \<Rightarrow> bool \<Rightarrow> bool \<Rightarrow> string" where
  "renderEngine mode requestBody responseBody =
     line_of ''# Engine settings generated by M-WAF.'' @ line_of (''SecRuleEngine '' @ mode) @
     line_of (''SecRequestBodyAccess '' @ onOff requestBody) @ line_of (''SecResponseBodyAccess '' @ onOff responseBody)"

definition setup_line :: "int \<Rightarrow> string \<Rightarrow> string \<Rightarrow> string" where
  "setup_line i key val =
     (if equal_fold (trim_space val) ''unlimited'' then []
      else line_of (''SecAction '' @ quoted (''id:'' @ itoa i @ '',phase:1,pass,nolog,t:none,setvar:'' @
             [squote] @ ''tx.'' @ key @ ''='' @ filter (\<lambda>c. c \<noteq> squote) val @ [squote])))"

definition renderSetupValues :: "(string \<times> string) list \<Rightarrow> int \<Rightarrow> string" where
  "renderSetupValues values firstRuleID =
     concat (map (\<lambda>(i, key). setup_line (firstRuleID + int i) key (case map_of values key of Some v \<Rightarrow> v | None \<Rightarrow> []))
       (enumerate 0 (sort_by (<) (map fst values))))"

definition renderSetup :: "(string \<times> string) list \<Rightarrow> string" where
  "renderSetup values =
     line_of ''# Upstream CRS setup followed by reviewed M-WAF overrides.'' @
     line_of ''Include /usr/share/mwaf/crs/crs-setup.conf'' @ renderSetupValues values 1000"

text \<open>\<^verbatim>\<open>strings.Replace(s, old, new, 1)\<close> for a non-empty \<^verbatim>\<open>old\<close>.\<close>

fun replace_first :: "string \<Rightarrow> string \<Rightarrow> string \<Rightarrow> string" where
  "replace_first old new [] = []"
| "replace_first old new (c # cs) =
     (if has_prefix (c # cs) old then new @ drop (length old) (c # cs) else c # replace_first old new cs)"

definition renderSetupV3 :: "(string \<times> string) list \<Rightarrow> string" where
  "renderSetupV3 values =
     replace_first ''/usr/share/mwaf/crs/crs-setup.conf'' ''/etc/mwaf/active/crs/crs-setup.conf'' (renderSetup values)"

text \<open>The rules of a chain: the first carries the identifier, the last the action.\<close>

definition chain_lines :: "int \<Rightarrow> string \<Rightarrow> RuleCondition list \<Rightarrow> string" where
  "chain_lines ruleID finalAction conditions =
     concat (map (\<lambda>(index, condition).
       (let action = (if int index = len conditions - 1 then finalAction else ''chain'')
        in if index = 0
           then line_of (''SecRule '' @ rc_Field condition @ '' '' @ quoted (rc_Operator condition @ '' '' @ rc_Value condition) @ '' '' @
                  quoted (''id:'' @ itoa ruleID @ '',phase:1,pass,nolog,'' @ action))
           else line_of (''SecRule '' @ rc_Field condition @ '' '' @ quoted (rc_Operator condition @ '' '' @ rc_Value condition) @ '' '' @
                  quoted (''t:none,'' @ action)))) (enumerate 0 conditions))"

definition structured_action :: "bundle_Exclusion \<Rightarrow> string" where
  "structured_action e =
     (if be_Type e = ''RULE'' then ''ctl:ruleRemoveById='' @ itoa (be_RuleID e)
      else if be_Type e = ''TARGET'' then ''ctl:ruleRemoveTargetById='' @ itoa (be_RuleID e) @ '';'' @ be_Target e
      else if be_Type e = ''TAG'' then ''ctl:ruleRemoveByTag='' @ be_RuleTag e
      else if be_Type e = ''ENGINE_BYPASS'' then ''ctl:ruleEngine=Off''
      else ''chain'')"

definition writeStructuredConditionalRule :: "bundle_Exclusion \<Rightarrow> string" where
  "writeStructuredConditionalRule e = chain_lines (be_GeneratedRuleID e) (structured_action e) (be_Conditions e)"

definition writeConditionalRule :: "int \<Rightarrow> int \<Rightarrow> string \<Rightarrow> RuleCondition list \<Rightarrow> string" where
  "writeConditionalRule i ruleID target conditions =
     chain_lines i
       (if target \<noteq> [] then ''ctl:ruleRemoveTargetById='' @ itoa ruleID @ '';'' @ target
        else ''ctl:ruleRemoveById='' @ itoa ruleID) conditions"

definition ip_rule_line :: "bundle_IPRule \<Rightarrow> string" where
  "ip_rule_line rule =
     (if \<not> bp_Enabled rule then []
      else if bp_Action rule = ''BLOCK'' then
        line_of (''SecRule REMOTE_ADDR '' @ quoted (''@ipMatch '' @ bp_Network rule) @ '' '' @
          quoted (''id:'' @ itoa (bp_GeneratedRuleID rule) @ '',phase:1,deny,status:403,log,msg:'' @ [squote] @ ''M-WAF IP block'' @ [squote]))
      else if bp_Action rule = ''TRUST'' then
        line_of (''SecRule REMOTE_ADDR '' @ quoted (''@ipMatch '' @ bp_Network rule) @ '' '' @
          quoted (''id:'' @ itoa (bp_GeneratedRuleID rule) @ '',phase:1,pass,nolog,ctl:ruleEngine=Off''))
      else [])"

text \<open>The rules of an input without structured exclusions, numbered from 5000 in the order of the loops.\<close>

definition unstructured_before :: "Input \<Rightarrow> (int \<Rightarrow> string) list" where
  "unstructured_before input =
     map (\<lambda>e i. writeConditionalRule i (re_RuleID e) [] (re_Conditions e)) (filter (\<lambda>e. re_Conditions e \<noteq> []) (bi_Before input)) @
     map (\<lambda>e i. writeConditionalRule i (te_RuleID e) (te_Target e) (te_Conditions e))
       (filter (\<lambda>e. te_Conditions e \<noteq> []) (bi_Target input)) @
     map (\<lambda>ip i. bypass_line ''REMOTE_ADDR'' ''@ipMatch'' i ip) (bi_ExcludedIPs input) @
     map (\<lambda>path i. bypass_line ''REQUEST_URI'' ''@beginsWith'' i path) (bi_ExcludedPaths input)"

definition renderBefore :: "Input \<Rightarrow> string" where
  "renderBefore input =
     line_of ''# IP controls and conditional exclusions evaluated before CRS.'' @
     concat (map ip_rule_line (bi_IPRules input)) @
     (if bi_Exclusions input \<noteq> [] then
        concat (map writeStructuredConditionalRule
          (filter (\<lambda>e. be_Enabled e \<and> be_LoadStage e = ''BEFORE_CRS'' \<and> be_Conditions e \<noteq> []) (bi_Exclusions input)))
      else concat (map (\<lambda>(i, render). render (5000 + int i)) (enumerate 0 (unstructured_before input))))"

definition after_line :: "bundle_Exclusion \<Rightarrow> string" where
  "after_line e =
     (if be_Type e = ''RULE'' then line_of (''SecRuleRemoveById '' @ itoa (be_RuleID e))
      else if be_Type e = ''TARGET'' then
        line_of (''SecRuleUpdateTargetById '' @ itoa (be_RuleID e) @ '' !'' @ trim_prefix (be_Target e) ''!'')
      else if be_Type e = ''TAG'' then line_of (''SecRuleRemoveByTag '' @ be_RuleTag e)
      else [])"

definition renderAfter :: "Input \<Rightarrow> string" where
  "renderAfter input =
     line_of ''# Static exclusions evaluated after CRS is loaded.'' @
     (if bi_Exclusions input \<noteq> [] then
        concat (map after_line
          (filter (\<lambda>e. be_Enabled e \<and> be_LoadStage e = ''AFTER_CRS'' \<and> be_Conditions e = []) (bi_Exclusions input)))
      else
        concat (map (\<lambda>e. line_of (''SecRuleRemoveById '' @ itoa (re_RuleID e)))
          (filter (\<lambda>e. re_Conditions e = []) (bi_After input))) @
        concat (map (\<lambda>e. line_of (''SecRuleUpdateTargetById '' @ itoa (te_RuleID e) @ '' !'' @ trim_prefix (te_Target e) ''!''))
          (filter (\<lambda>e. te_Conditions e = []) (bi_Target input))))"

definition renderServiceRules :: "Input \<Rightarrow> string" where
  "renderServiceRules input =
     line_of ''# M-WAF service and enterprise rules.'' @
     (if bi_CustomRules input \<noteq> [] then
        concat (map (\<lambda>r. line_of (trim_space (bu_Canonical r)))
          (filter (\<lambda>r. bu_Enabled r \<and> trim_space (bu_Canonical r) \<noteq> []) (bi_CustomRules input)))
      else
        concat (map (\<lambda>rules. if trim_space rules \<noteq> [] then line_of (trim_space rules) else [])
          [bi_SystemRules input, bi_EnterpriseRules input]))"

section \<open>Archives\<close>

datatype bundle_error =
    SourceRequired
  | BundleModeInvalid
  | CRSSetupRequired
  | UnsafeCRSFile string
  | BasePolicyIDRequired
  | OverrideMetadataRequired
  | FileMissing string
  | FilesTooLarge
  | ManifestNotEncodable
  | BundleTooLarge
  | BundleSizeInvalid
  | NotGzip
  | ArchiveBroken
  | UnsafeEntry string
  | EntryUnreadable
  | ManifestMissing
  | ManifestUndecodable
  | ManifestInvalid
  | ManifestFileInvalid
  | CoreOrderInvalid
  | UnexpectedPayload
  | InvalidCRSPath
  | UnexpectedOverrideFile
  | FileVerificationFailed string
  | UnlistedFiles

definition file_limit :: int where "file_limit = 8388608"
definition total_limit :: int where "total_limit = 67108864"
definition small_limit :: int where "small_limit = 4194304"

definition source_ok :: "PolicySourceRef \<Rightarrow> bool" where
  "source_ok source \<longleftrightarrow> \<not> (src_ID source = [] \<or> src_Commit source = [] \<or> len (src_IndexSHA256 source) \<noteq> 64)"

definition mode_ok :: "string \<Rightarrow> bool" where
  "mode_ok mode \<longleftrightarrow> mode = ''DetectionOnly'' \<or> mode = ''On''"

text \<open>The manifest before the files are listed, with the fields Go leaves at their zero value.\<close>

definition blank_manifest :: "PolicySourceRef \<Rightarrow> Manifest" where
  "blank_manifest source = \<lparr>m_SchemaVersion = 0, m_ArtifactFormat = [], m_PolicySource = source, m_BasePolicyID = [],
     m_BaseArtifactSHA256 = [], m_OverrideConfigSHA256 = [], m_EffectiveConfigSHA256 = [], m_ValidationDigest = [], m_Files = []\<rparr>"

definition is_self_contained :: "string \<Rightarrow> bool" where
  "is_self_contained format \<longleftrightarrow> format = FormatV3 \<or> format = FormatBase"

definition file_manifest :: "(string \<Rightarrow> string) \<Rightarrow> string \<times> string \<Rightarrow> FileManifest" where
  "file_manifest sha256_hex item = (case item of (name, raw) \<Rightarrow> \<lparr>fm_Path = name, fm_Size = len raw, fm_SHA256 = sha256_hex raw\<rparr>)"

text \<open>The loop of \<^verbatim>\<open>buildArchive\<close> that looks up the files to write, in order.\<close>

definition lookup_step :: "(string \<times> string) list \<Rightarrow> (string \<times> string) list \<Rightarrow> string \<Rightarrow> bundle_error + (string \<times> string) list" where
  "lookup_step files acc name =
     (case map_of files name of None \<Rightarrow> Inl (FileMissing name) | Some raw \<Rightarrow> Inr (acc @ [(name, raw)]))"

definition buildArchive ::
  "(string \<Rightarrow> string) \<Rightarrow> (Manifest \<Rightarrow> string option) \<Rightarrow> ((string \<times> string) list \<Rightarrow> string) \<Rightarrow>
   PolicySourceRef \<Rightarrow> string \<Rightarrow> int \<Rightarrow> (string \<times> string) list \<Rightarrow> string list \<Rightarrow> Manifest \<Rightarrow> bundle_error + (string \<times> Manifest)" where
  "buildArchive sha256_hex encode pack source format schemaVersion files names seed =
     (case fold_result (lookup_step files) [] names of
        Inl e \<Rightarrow> Inl e
      | Inr items \<Rightarrow>
          (let manifest = seed\<lparr>m_SchemaVersion := schemaVersion, m_ArtifactFormat := format, m_PolicySource := source,
                 m_Files := m_Files seed @ map (file_manifest sha256_hex) items\<rparr>;
               totalSize = sum_list (map (\<lambda>item. len (snd item)) items)
           in if is_self_contained format \<and> totalSize > total_limit then Inl FilesTooLarge
              else case encode manifest of
                  None \<Rightarrow> Inl ManifestNotEncodable
                | Some manifestRaw \<Rightarrow>
                    (let output = pack ((''manifest.json'', manifestRaw @ [newline]) # items);
                         limit = (if is_self_contained format then total_limit else small_limit)
                     in if len output > limit then Inl BundleTooLarge else Inr (output, manifest))))"

definition Build ::
  "(string \<Rightarrow> string) \<Rightarrow> (Manifest \<Rightarrow> string option) \<Rightarrow> ((string \<times> string) list \<Rightarrow> string) \<Rightarrow>
   PolicySourceRef \<Rightarrow> Input \<Rightarrow> bundle_error + (string \<times> Manifest)" where
  "Build sha256_hex encode pack source input =
     (if \<not> source_ok source then Inl SourceRequired
      else if \<not> mode_ok (bi_Mode input) then Inl BundleModeInvalid
      else buildArchive sha256_hex encode pack source Format 2
        [(''00-engine.conf'', renderEngine (bi_Mode input) (bi_RequestBody input) (bi_ResponseBody input)),
         (''20-crs-setup.conf'', renderSetup (bi_CRSSetup input)),
         (''30-before-crs-exclusions.conf'', renderBefore input),
         (''40-crs-rules.conf'', line_of ''# Immutable OWASP CRS rules supplied by the signed module package.'' @
            line_of ''Include /usr/share/mwaf/crs/rules/*.conf''),
         (''50-after-crs-exclusions.conf'', renderAfter input),
         (''60-service-rules.conf'', renderServiceRules input)]
        orderedFiles (blank_manifest source))"

definition crs_file_ok :: "string \<times> string \<Rightarrow> bool" where
  "crs_file_ok item \<longleftrightarrow>
     \<not> (path_clean (fst item) \<noteq> fst item \<or> \<not> has_prefix (fst item) ''crs/'' \<or> has_prefix (fst item) ''crs/../'' \<or>
        len (snd item) > file_limit)"

definition BuildWithCRS ::
  "(string \<Rightarrow> string) \<Rightarrow> (Manifest \<Rightarrow> string option) \<Rightarrow> ((string \<times> string) list \<Rightarrow> string) \<Rightarrow>
   PolicySourceRef \<Rightarrow> Input \<Rightarrow> (string \<times> string) list \<Rightarrow> bundle_error + (string \<times> Manifest)" where
  "BuildWithCRS sha256_hex encode pack source input crsFiles =
     (if \<not> source_ok source then Inl SourceRequired
      else if \<not> mode_ok (bi_Mode input) then Inl BundleModeInvalid
      else if map_of crsFiles ''crs/crs-setup.conf'' = None then Inl CRSSetupRequired
      else case first_error (\<lambda>item. if crs_file_ok item then None else Some (UnsafeCRSFile (fst item))) crsFiles of
          Some e \<Rightarrow> Inl e
        | None \<Rightarrow>
            buildArchive sha256_hex encode pack source FormatV3 3
              ([(''00-engine.conf'', renderEngine (bi_Mode input) (bi_RequestBody input) (bi_ResponseBody input)),
                (''20-crs-setup.conf'', renderSetupV3 (bi_CRSSetup input)),
                (''30-before-crs-exclusions.conf'', renderBefore input),
                (''40-crs-rules.conf'', line_of ''# Immutable OWASP CRS rules carried by this signed policy revision.'' @
                   line_of ''Include /etc/mwaf/active/crs/rules/*.conf''),
                (''50-after-crs-exclusions.conf'', renderAfter input),
                (''60-service-rules.conf'', renderServiceRules input)] @ crsFiles)
              (orderedFiles @ sort_by (<) (map fst crsFiles)) (blank_manifest source))"

definition BuildBaseWithCRS ::
  "(string \<Rightarrow> string) \<Rightarrow> (Manifest \<Rightarrow> string option) \<Rightarrow> ((string \<times> string) list \<Rightarrow> string) \<Rightarrow>
   string \<Rightarrow> PolicySourceRef \<Rightarrow> Input \<Rightarrow> (string \<times> string) list \<Rightarrow> bundle_error + (string \<times> Manifest)" where
  "BuildBaseWithCRS sha256_hex encode pack basePolicyID source input crsFiles =
     (if basePolicyID = [] then Inl BasePolicyIDRequired
      else if \<not> source_ok source then Inl SourceRequired
      else if \<not> mode_ok (bi_Mode input) then Inl BundleModeInvalid
      else if map_of crsFiles ''crs/crs-setup.conf'' = None then Inl CRSSetupRequired
      else case first_error (\<lambda>item. if crs_file_ok item then None else Some (UnsafeCRSFile (fst item))) crsFiles of
          Some e \<Rightarrow> Inl e
        | None \<Rightarrow>
            buildArchive sha256_hex encode pack source FormatBase 1
              ([(''00-base-engine.conf'', renderEngine (bi_Mode input) (bi_RequestBody input) (bi_ResponseBody input)),
                (''20-base-crs-setup.conf'', renderSetupV3 (bi_CRSSetup input)),
                (''30-base-before-crs-exclusions.conf'', renderBefore input),
                (''40-base-crs-rules.conf'', line_of ''# Immutable OWASP CRS rules carried by this signed base policy.'' @
                   line_of ''Include /etc/mwaf/active/crs/rules/*.conf''),
                (''50-base-after-crs-exclusions.conf'', renderAfter input),
                (''60-base-service-rules.conf'', renderServiceRules input)] @ crsFiles)
              (baseOrderedFiles @ sort_by (<) (map fst crsFiles)) ((blank_manifest source)\<lparr>m_BasePolicyID := basePolicyID\<rparr>))"

definition overlay_input :: "OverrideInput \<Rightarrow> Input" where
  "overlay_input input = \<lparr>bi_Mode = [], bi_RequestBody = False, bi_ResponseBody = False, bi_CRSSetup = [], bi_Before = [],
     bi_After = [], bi_Target = [], bi_ExcludedPaths = [], bi_ExcludedIPs = [], bi_SystemRules = [], bi_EnterpriseRules = [],
     bi_Exclusions = oi_Exclusions input, bi_CustomRules = oi_CustomRules input, bi_IPRules = oi_IPRules input\<rparr>"

definition override_metadata_ok :: "OverrideMetadata \<Rightarrow> bool" where
  "override_metadata_ok md \<longleftrightarrow>
     \<not> (om_BasePolicyID md = [] \<or> len (om_BaseArtifactSHA256 md) \<noteq> 64 \<or> len (om_OverrideConfigSHA256 md) \<noteq> 64 \<or>
        len (om_EffectiveConfigSHA256 md) \<noteq> 64 \<or> len (om_ValidationDigest md) \<noteq> 64)"

definition override_engine :: "OverrideInput \<Rightarrow> string" where
  "override_engine input =
     (if oi_IncludeScalars input then renderEngine (oi_Mode input) (oi_RequestBody input) (oi_ResponseBody input)
      else line_of ''# Enterprise policy inherits base engine settings.'')"

definition override_setup :: "OverrideInput \<Rightarrow> string" where
  "override_setup input =
     (if oi_IncludeScalars input then renderSetupValues (oi_CRSSetup input) 3000
      else line_of ''# Enterprise policy inherits base CRS setup.'')"

definition BuildOverride ::
  "(string \<Rightarrow> string) \<Rightarrow> (Manifest \<Rightarrow> string option) \<Rightarrow> ((string \<times> string) list \<Rightarrow> string) \<Rightarrow>
   PolicySourceRef \<Rightarrow> OverrideInput \<Rightarrow> OverrideMetadata \<Rightarrow> bundle_error + (string \<times> Manifest)" where
  "BuildOverride sha256_hex encode pack source input metadata =
     (if \<not> source_ok source then Inl SourceRequired
      else if \<not> override_metadata_ok metadata then Inl OverrideMetadataRequired
      else if oi_IncludeScalars input \<and> \<not> mode_ok (oi_Mode input) then Inl BundleModeInvalid
      else buildArchive sha256_hex encode pack source FormatOverride 1
        [(''10-enterprise-engine.conf'', override_engine input),
         (''25-enterprise-crs-setup.conf'', override_setup input),
         (''35-enterprise-before-crs-exclusions.conf'', renderBefore (overlay_input input)),
         (''55-enterprise-after-crs-exclusions.conf'', renderAfter (overlay_input input)),
         (''65-enterprise-service-rules.conf'', renderServiceRules (overlay_input input))]
        overrideOrderedFiles
        ((blank_manifest source)\<lparr>m_BasePolicyID := om_BasePolicyID metadata, m_BaseArtifactSHA256 := om_BaseArtifactSHA256 metadata,
           m_OverrideConfigSHA256 := om_OverrideConfigSHA256 metadata, m_EffectiveConfigSHA256 := om_EffectiveConfigSHA256 metadata,
           m_ValidationDigest := om_ValidationDigest metadata\<rparr>))"

section \<open>Parse\<close>

definition allowed_entry :: "string \<Rightarrow> bool" where
  "allowed_entry name \<longleftrightarrow> name = ''manifest.json'' \<or> name \<in> set orderedFiles \<or> name \<in> set baseOrderedFiles \<or>
     name \<in> set overrideOrderedFiles \<or> has_prefix name ''crs/''"

text \<open>One entry of the archive: the state is the map of the files read so far and their total size.\<close>

definition entry_step :: "(string \<times> string) list \<times> int \<Rightarrow> tar_entry \<Rightarrow> bundle_error + ((string \<times> string) list \<times> int)" where
  "entry_step st entry =
     (let (files, totalSize) = st; name = tar_Name entry; clean = path_clean name
      in if \<not> tar_Regular entry \<or> clean \<noteq> name \<or> has_prefix clean ''../'' \<or> \<not> allowed_entry name \<or> tar_Size entry < 0 \<or>
            tar_Size entry > file_limit \<or> totalSize + tar_Size entry > total_limit \<or> map_of files name \<noteq> None \<or> len files \<ge> 4096
         then Inl (UnsafeEntry name)
         else case tar_Content entry of
             None \<Rightarrow> Inl EntryUnreadable
           | Some content \<Rightarrow>
               if len content \<noteq> tar_Size entry then Inl EntryUnreadable
               else Inr (files @ [(name, content)], totalSize + len content))"

definition valid_v2 :: "Manifest \<Rightarrow> bool" where
  "valid_v2 m \<longleftrightarrow> m_SchemaVersion m = 2 \<and> m_ArtifactFormat m = Format \<and> length (m_Files m) = length orderedFiles"

definition valid_v3 :: "Manifest \<Rightarrow> bool" where
  "valid_v3 m \<longleftrightarrow> m_SchemaVersion m = 3 \<and> m_ArtifactFormat m = FormatV3 \<and> length (m_Files m) > length orderedFiles"

definition valid_base :: "Manifest \<Rightarrow> bool" where
  "valid_base m \<longleftrightarrow> m_SchemaVersion m = 1 \<and> m_ArtifactFormat m = FormatBase \<and> length (m_Files m) > length baseOrderedFiles \<and>
     m_BasePolicyID m \<noteq> []"

definition valid_override :: "Manifest \<Rightarrow> bool" where
  "valid_override m \<longleftrightarrow> m_SchemaVersion m = 1 \<and> m_ArtifactFormat m = FormatOverride \<and>
     length (m_Files m) = length overrideOrderedFiles \<and> m_BasePolicyID m \<noteq> [] \<and> len (m_BaseArtifactSHA256 m) = 64 \<and>
     len (m_OverrideConfigSHA256 m) = 64 \<and> len (m_EffectiveConfigSHA256 m) = 64 \<and> len (m_ValidationDigest m) = 64"

definition core_files :: "Manifest \<Rightarrow> string list" where
  "core_files m = (if valid_base m then baseOrderedFiles else if valid_override m then overrideOrderedFiles else orderedFiles)"

definition verify_step ::
  "(string \<Rightarrow> string) \<Rightarrow> Manifest \<Rightarrow> (string \<times> string) list \<Rightarrow> string list \<Rightarrow> nat \<times> FileManifest \<Rightarrow> bundle_error + string list" where
  "verify_step sha256_hex m files seen item =
     (let (index, entry) = item; path = fm_Path entry
      in case map_of files path of
          None \<Rightarrow> Inl ManifestFileInvalid
        | Some content \<Rightarrow>
            if path \<in> set seen then Inl ManifestFileInvalid
            else if index < length (core_files m) \<and> path \<noteq> core_files m ! index then Inl CoreOrderInvalid
            else if valid_v2 m \<and> path \<notin> set orderedFiles then Inl UnexpectedPayload
            else if (valid_v3 m \<or> valid_base m) \<and> index \<ge> length (core_files m) \<and> \<not> has_prefix path ''crs/'' then Inl InvalidCRSPath
            else if valid_override m \<and> path \<notin> set overrideOrderedFiles then Inl UnexpectedOverrideFile
            else if fm_Size entry \<noteq> len content \<or> \<not> equal_fold (fm_SHA256 entry) (sha256_hex content)
              then Inl (FileVerificationFailed path)
            else Inr (path # seen))"

definition check_manifest ::
  "(string \<Rightarrow> string) \<Rightarrow> Manifest \<Rightarrow> (string \<times> string) list \<Rightarrow> bundle_error + (Manifest \<times> (string \<times> string) list)" where
  "check_manifest sha256_hex m files =
     (if \<not> valid_v2 m \<and> \<not> valid_v3 m \<and> \<not> valid_base m \<and> \<not> valid_override m \<or> src_ID (m_PolicySource m) = []
        then Inl ManifestInvalid
      else case fold_result (verify_step sha256_hex m files) [] (enumerate 0 (m_Files m)) of
          Inl e \<Rightarrow> Inl e
        | Inr seen \<Rightarrow>
            if len seen + 1 \<noteq> len files \<or> (valid_v3 m \<or> valid_base m) \<and> map_of files ''crs/crs-setup.conf'' = None
              then Inl UnlistedFiles
            else Inr (m, filter (\<lambda>item. fst item \<noteq> ''manifest.json'') files))"

definition Parse ::
  "(string \<Rightarrow> string) \<Rightarrow> (string \<Rightarrow> Manifest option) \<Rightarrow> (string \<Rightarrow> (tar_entry list \<times> bool) option) \<Rightarrow> string \<Rightarrow>
   bundle_error + (Manifest \<times> (string \<times> string) list)" where
  "Parse sha256_hex decode unpack raw =
     (if raw = [] \<or> len raw > total_limit then Inl BundleSizeInvalid
      else case unpack raw of
          None \<Rightarrow> Inl NotGzip
        | Some (entries, broken) \<Rightarrow>
            (case fold_result entry_step ([], 0) entries of
               Inl e \<Rightarrow> Inl e
             | Inr (files, totalSize) \<Rightarrow>
                 if broken then Inl ArchiveBroken
                 else (case map_of files ''manifest.json'' of
                         None \<Rightarrow> Inl ManifestMissing
                       | Some manifestRaw \<Rightarrow>
                           (case decode manifestRaw of
                              None \<Rightarrow> Inl ManifestUndecodable
                            | Some m \<Rightarrow> check_manifest sha256_hex m files))))"

section \<open>Reading an archive: lemmas\<close>

definition entry_ok :: "string \<times> string \<Rightarrow> bool" where
  "entry_ok item \<longleftrightarrow> path_clean (fst item) = fst item \<and> \<not> has_prefix (fst item) ''../'' \<and> allowed_entry (fst item) \<and>
     len (snd item) \<le> file_limit"

definition total_size :: "(string \<times> string) list \<Rightarrow> int" where
  "total_size items = sum_list (map (\<lambda>item. len (snd item)) items)"

definition read_inv :: "(string \<times> string) list \<times> int \<Rightarrow> bool" where
  "read_inv st \<longleftrightarrow> distinct (map fst (fst st)) \<and> list_all entry_ok (fst st) \<and> snd st = total_size (fst st) \<and> snd st \<le> total_limit"

lemma total_size_append [simp]: "total_size (xs @ ys) = total_size xs + total_size ys"
  by (simp add: total_size_def)

lemma total_size_Cons [simp]: "total_size (x # xs) = len (snd x) + total_size xs" "total_size [] = 0"
  by (simp_all add: total_size_def)

lemma total_size_nonneg: "0 \<le> total_size xs"
  by (induction xs) auto

lemma entry_step_iff:
  "entry_step (files, tot) entry = Inr st' \<longleftrightarrow>
     (\<exists>content. tar_Regular entry \<and> tar_Content entry = Some content \<and> tar_Size entry = len content \<and>
        entry_ok (tar_Name entry, content) \<and> tot + len content \<le> total_limit \<and> tar_Name entry \<notin> fst ` set files \<and>
        len files < 4096 \<and> st' = (files @ [(tar_Name entry, content)], tot + len content))"
  by (auto simp: entry_step_def Let_def entry_ok_def map_of_eq_None_iff split: option.splits if_splits)

lemma read_inv_loop:
  assumes "fold_result entry_step ([], 0) entries = Inr st"
  shows "read_inv st"
proof (rule fold_result_inv [OF assms])
  show "read_inv ([], 0)" by (simp add: read_inv_def total_limit_def)
next
  fix u e u' assume "read_inv u" "entry_step u e = Inr u'"
  then show "read_inv u'" by (cases u) (auto simp: read_inv_def entry_step_iff)
qed

text \<open>Where an entry of the manifest may stand.\<close>

definition entry_place :: "Manifest \<Rightarrow> nat \<Rightarrow> string \<Rightarrow> bool" where
  "entry_place m i path \<longleftrightarrow>
     (i < length (core_files m) \<longrightarrow> path = core_files m ! i) \<and> (valid_v2 m \<longrightarrow> path \<in> set orderedFiles) \<and>
     ((valid_v3 m \<or> valid_base m) \<and> length (core_files m) \<le> i \<longrightarrow> has_prefix path ''crs/'') \<and>
     (valid_override m \<longrightarrow> path \<in> set overrideOrderedFiles)"

definition entry_verified :: "(string \<Rightarrow> string) \<Rightarrow> (string \<times> string) list \<Rightarrow> FileManifest \<Rightarrow> bool" where
  "entry_verified sha files f \<longleftrightarrow> (case map_of files (fm_Path f) of
      None \<Rightarrow> False | Some body \<Rightarrow> fm_Size f = len body \<and> equal_fold (fm_SHA256 f) (sha body))"

lemma verify_step_iff:
  "verify_step sha m files seen (i, f) = Inr seen' \<longleftrightarrow>
     entry_verified sha files f \<and> fm_Path f \<notin> set seen \<and> entry_place m i (fm_Path f) \<and> seen' = fm_Path f # seen"
  by (auto simp: verify_step_def Let_def entry_verified_def entry_place_def not_less split: option.splits if_splits)

lemma verify_loop_iff:
  "fold_result (verify_step sha m files) seen (enumerate k fs) = Inr seen' \<longleftrightarrow>
     (\<forall>f \<in> set fs. entry_verified sha files f) \<and> distinct (map fm_Path fs) \<and> set (map fm_Path fs) \<inter> set seen = {} \<and>
     (\<forall>i < length fs. entry_place m (k + i) (fm_Path (fs ! i))) \<and> seen' = rev (map fm_Path fs) @ seen"
proof (induction fs arbitrary: k seen)
  case (Cons f fs)
  have places: "(\<forall>i < length (f # fs). entry_place m (k + i) (fm_Path ((f # fs) ! i))) \<longleftrightarrow>
      entry_place m k (fm_Path f) \<and> (\<forall>i < length fs. entry_place m (Suc k + i) (fm_Path (fs ! i)))"
    by (auto simp: All_less_Suc2 simp del: All_less_Suc)
  have "fold_result (verify_step sha m files) seen (enumerate k (f # fs)) = Inr seen' \<longleftrightarrow>
      entry_verified sha files f \<and> fm_Path f \<notin> set seen \<and> entry_place m k (fm_Path f) \<and>
      fold_result (verify_step sha m files) (fm_Path f # seen) (enumerate (Suc k) fs) = Inr seen'"
  proof (cases "verify_step sha m files seen (k, f)")
    case (Inl e)
    then have "verify_step sha m files seen (k, f) \<noteq> Inr (fm_Path f # seen)" by simp
    then show ?thesis using Inl verify_step_iff [of sha m files seen k f "fm_Path f # seen"] by auto
  next
    case (Inr s)
    then show ?thesis using verify_step_iff [of sha m files seen k f s] by auto
  qed
  then show ?case unfolding Cons.IH places by auto
qed auto

lemma core_name_facts:
  "''manifest.json'' \<notin> set orderedFiles" "''manifest.json'' \<notin> set baseOrderedFiles" "''manifest.json'' \<notin> set overrideOrderedFiles"
  "\<not> has_prefix ''manifest.json'' ''crs/''"
  by (simp_all add: orderedFiles_def baseOrderedFiles_def overrideOrderedFiles_def has_prefix_def)

definition bundle_valid :: "Manifest \<Rightarrow> bool" where
  "bundle_valid m \<longleftrightarrow> valid_v2 m \<or> valid_v3 m \<or> valid_base m \<or> valid_override m"

lemma core_files_length: "bundle_valid m \<Longrightarrow> length (core_files m) \<le> length (m_Files m)"
  by (auto simp: bundle_valid_def core_files_def valid_v2_def valid_v3_def valid_base_def valid_override_def)

lemma entry_place_not_manifest:
  assumes "bundle_valid m" "entry_place m i path"
  shows "path \<noteq> ''manifest.json''"
proof (cases "i < length (core_files m)")
  case True
  then have "path \<in> set (core_files m)" using assms(2) by (simp add: entry_place_def)
  then show ?thesis using core_name_facts by (auto simp: core_files_def split: if_splits)
next
  case False
  then show ?thesis using assms core_name_facts by (auto simp: entry_place_def bundle_valid_def)
qed

lemma Parse_parts:
  assumes "Parse sha decode unpack raw = Inr (m, files)"
  obtains all tot seen where "read_inv (all, tot)" "bundle_valid m" "src_ID (m_PolicySource m) \<noteq> []"
    "fold_result (verify_step sha m all) [] (enumerate 0 (m_Files m)) = Inr seen" "length all = length seen + 1"
    "''manifest.json'' \<in> fst ` set all" "files = filter (\<lambda>item. fst item \<noteq> ''manifest.json'') all"
    "valid_v3 m \<or> valid_base m \<longrightarrow> map_of all ''crs/crs-setup.conf'' \<noteq> None"
proof -
  obtain entries all tot mraw where
    loop: "fold_result entry_step ([], 0) entries = Inr (all, tot)" and mraw: "map_of all ''manifest.json'' = Some mraw"
    and check: "check_manifest sha m all = Inr (m, files)"
    using assms
    by (auto simp: Parse_def check_manifest_def split: if_splits option.splits sum.splits)
  obtain seen where "fold_result (verify_step sha m all) [] (enumerate 0 (m_Files m)) = Inr seen"
    "bundle_valid m" "src_ID (m_PolicySource m) \<noteq> []" "length all = length seen + 1"
    "files = filter (\<lambda>item. fst item \<noteq> ''manifest.json'') all"
    "valid_v3 m \<or> valid_base m \<longrightarrow> map_of all ''crs/crs-setup.conf'' \<noteq> None"
    using check by (auto simp: check_manifest_def bundle_valid_def split: if_splits sum.splits)
  moreover have "''manifest.json'' \<in> fst ` set all" using map_of_SomeD [OF mraw] by force
  ultimately show ?thesis using that read_inv_loop [OF loop] by blast
qed

lemma total_size_filter: "total_size (filter P xs) \<le> total_size xs"
  by (induction xs) (auto intro: order_trans)

lemma map_of_filter_other: "fst_n \<noteq> k \<Longrightarrow> map_of (filter (\<lambda>item. fst item \<noteq> k) xs) fst_n = map_of xs fst_n"
  by (induction xs) auto

section \<open>Properties\<close>

text \<open>C2:
  an archive that parses is exactly what its manifest lists. Every listed file is present with
  the listed size and digest and no other file is; the names are distinct, clean, without a
  parent directory and at most 8 MiB each, 64 MiB together; and the first files are the format's
  core files in their order.
\<close>

theorem Parse_sound:
  assumes "Parse sha decode unpack raw = Inr (m, files)"
  shows "distinct (map fst files) \<and> set (map fst files) = set (map fm_Path (m_Files m)) \<and> distinct (map fm_Path (m_Files m)) \<and>
    list_all (entry_verified sha files) (m_Files m) \<and> list_all entry_ok files \<and> total_size files \<le> total_limit \<and>
    take (length (core_files m)) (map fm_Path (m_Files m)) = core_files m"
proof -
  obtain all tot seen where inv: "read_inv (all, tot)" and valid: "bundle_valid m"
    and loop: "fold_result (verify_step sha m all) [] (enumerate 0 (m_Files m)) = Inr seen"
    and count: "length all = length seen + 1" and mem: "''manifest.json'' \<in> fst ` set all"
    and files: "files = filter (\<lambda>item. fst item \<noteq> ''manifest.json'') all"
    using Parse_parts [OF assms] by metis
  have v: "\<forall>f \<in> set (m_Files m). entry_verified sha all f" "distinct (map fm_Path (m_Files m))"
    "\<forall>i < length (m_Files m). entry_place m i (fm_Path (m_Files m ! i))" "seen = rev (map fm_Path (m_Files m))"
    using loop unfolding verify_loop_iff by simp_all
  have not_manifest: "fm_Path f \<noteq> ''manifest.json''" if "f \<in> set (m_Files m)" for f
    using that v(3) entry_place_not_manifest [OF valid] by (metis in_set_conv_nth)
  have distinct_all: "distinct (map fst all)" using inv by (simp add: read_inv_def)
  have sub: "insert ''manifest.json'' (fm_Path ` set (m_Files m)) \<subseteq> fst ` set all"
    using v(1) mem by (force simp: entry_verified_def split: option.splits dest: map_of_SomeD)
  have "''manifest.json'' \<notin> fm_Path ` set (m_Files m)" using not_manifest by force
  then have "card (insert ''manifest.json'' (fm_Path ` set (m_Files m))) = length all"
    using distinct_card [OF v(2)] v(4) count by simp
  moreover have "card (fst ` set all) = length all" using distinct_card [OF distinct_all] by simp
  ultimately have names: "fst ` set all = insert ''manifest.json'' (fm_Path ` set (m_Files m))"
    using sub by (metis card_subset_eq finite_imageI finite_set)
  have "fst ` set files = fst ` set all - {''manifest.json''}" by (auto simp: files)
  then have "set (map fst files) = set (map fm_Path (m_Files m))" using names not_manifest by auto
  moreover have "distinct (map fst files)" using distinct_all by (simp add: files distinct_map_filter)
  moreover have "list_all (entry_verified sha files) (m_Files m)"
    using v(1) not_manifest by (auto simp: list_all_iff entry_verified_def files map_of_filter_other)
  moreover have "list_all entry_ok files" using inv by (auto simp: read_inv_def files list_all_iff)
  moreover have "total_size files \<le> total_size all" unfolding files by (rule total_size_filter)
  then have "total_size files \<le> total_limit" using inv by (simp add: read_inv_def)
  moreover have "take (length (core_files m)) (map fm_Path (m_Files m)) = core_files m"
    using core_files_length [OF valid] v(3) by (intro nth_equalityI) (auto simp: entry_place_def)
  ultimately show ?thesis using v(2) by blast
qed

text \<open>
  the files of a base policy and of an enterprise override never collide, and the web server,
  which loads them in the order of their names, reads each enterprise file after the base file of
  its stage and before the next stage; the CRS rules come between the exclusions for before and
  after.
\<close>

theorem base_override_load_order:
  "set baseOrderedFiles \<inter> set overrideOrderedFiles = {} \<and>
   sort_by (<) (overrideOrderedFiles @ baseOrderedFiles) =
     [''00-base-engine.conf'', ''10-enterprise-engine.conf'', ''20-base-crs-setup.conf'', ''25-enterprise-crs-setup.conf'',
      ''30-base-before-crs-exclusions.conf'', ''35-enterprise-before-crs-exclusions.conf'', ''40-base-crs-rules.conf'',
      ''50-base-after-crs-exclusions.conf'', ''55-enterprise-after-crs-exclusions.conf'', ''60-base-service-rules.conf'',
      ''65-enterprise-service-rules.conf'']"
  by code_simp


section \<open>Round trip\<close>

definition regular_entry :: "string \<times> string \<Rightarrow> tar_entry" where
  "regular_entry item = \<lparr>tar_Name = fst item, tar_Regular = True, tar_Size = len (snd item), tar_Content = Some (snd item)\<rparr>"

text \<open>What is assumed of tar, gzip and JSON: what was written is read back, and no archive is empty.\<close>

definition codec_ok ::
  "(Manifest \<Rightarrow> string option) \<Rightarrow> (string \<Rightarrow> Manifest option) \<Rightarrow> ((string \<times> string) list \<Rightarrow> string) \<Rightarrow>
   (string \<Rightarrow> (tar_entry list \<times> bool) option) \<Rightarrow> bool" where
  "codec_ok encode decode pack unpack \<longleftrightarrow>
     (\<forall>m raw. encode m = Some raw \<longrightarrow> decode (raw @ [newline]) = Some m) \<and>
     (\<forall>items. pack items \<noteq> [] \<and> unpack (pack items) = Some (map regular_entry items, False))"

text \<open>The limits of the reader that the writer does not check itself.\<close>

definition readable :: "(Manifest \<Rightarrow> string option) \<Rightarrow> Manifest \<Rightarrow> bool" where
  "readable encode m \<longleftrightarrow>
     (case encode m of None \<Rightarrow> False | Some raw \<Rightarrow>
        len raw + 1 \<le> file_limit \<and> len raw + 1 + sum_list (map fm_Size (m_Files m)) \<le> total_limit) \<and>
     (\<forall>f \<in> set (m_Files m). fm_Size f \<le> file_limit) \<and> len (m_Files m) < 4096"

lemma lookup_loop:
  "fold_result (lookup_step files) acc names = Inr items \<Longrightarrow>
     \<exists>new. items = acc @ new \<and> map fst new = names \<and> (\<forall>(n, raw) \<in> set new. map_of files n = Some raw)"
proof (induction names arbitrary: acc)
  case (Cons n names)
  then obtain raw where raw: "map_of files n = Some raw"
    and "fold_result (lookup_step files) (acc @ [(n, raw)]) names = Inr items"
    by (cases "map_of files n") (simp_all add: lookup_step_def [of files acc n])
  with Cons.IH obtain new where "items = (acc @ [(n, raw)]) @ new" "map fst new = names"
    "\<forall>(n, raw) \<in> set new. map_of files n = Some raw" by blast
  then have "items = acc @ ((n, raw) # new) \<and> map fst ((n, raw) # new) = n # names \<and>
      (\<forall>(n, raw) \<in> set ((n, raw) # new). map_of files n = Some raw)" using raw by simp
  then show ?case by (rule exI)
qed simp

lemma entries_accepted:
  assumes "list_all entry_ok items" "distinct (map fst files @ map fst items)" "tot + total_size items \<le> total_limit"
    "len files + len items \<le> 4096"
  shows "fold_result entry_step (files, tot) (map regular_entry items) = Inr (files @ items, tot + total_size items)"
  using assms
proof (induction items arbitrary: files tot)
  case (Cons item items)
  have "entry_step (files, tot) (regular_entry item) = Inr (files @ [item], tot + len (snd item))"
    using Cons.prems total_size_nonneg [of items] by (auto simp: entry_step_iff regular_entry_def)
  then show ?case using Cons.IH [of "files @ [item]" "tot + len (snd item)"] Cons.prems by simp
qed simp

lemma buildArchive_parts:
  assumes "buildArchive sha encode pack source format version files names seed = Inr (raw, m)" "m_Files seed = []"
  obtains items mraw where "map fst items = names" "\<forall>(n, body) \<in> set items. map_of files n = Some body"
    "m = seed\<lparr>m_SchemaVersion := version, m_ArtifactFormat := format, m_PolicySource := source, m_Files := map (file_manifest sha) items\<rparr>"
    "encode m = Some mraw" "raw = pack ((''manifest.json'', mraw @ [newline]) # items)" "len raw \<le> total_limit"
proof -
  obtain items where items: "fold_result (lookup_step files) [] names = Inr items"
    using assms(1) by (cases "fold_result (lookup_step files) [] names") (auto simp: buildArchive_def)
  have "map fst items = names" "\<forall>(n, body) \<in> set items. map_of files n = Some body"
    using lookup_loop [OF items] by auto
  moreover have "len raw \<le> total_limit"
    using assms(1) items by (auto simp: buildArchive_def Let_def small_limit_def total_limit_def split: if_splits option.splits)
  ultimately show ?thesis
    using that assms items by (fastforce simp: buildArchive_def Let_def split: if_splits option.splits)
qed

lemma file_manifest_simps [simp]:
  "fm_Path (file_manifest sha item) = fst item" "fm_Size (file_manifest sha item) = len (snd item)"
  "fm_SHA256 (file_manifest sha item) = sha (snd item)"
  by (simp_all add: file_manifest_def split: prod.splits)

lemma sizes_of_items:
  "sum_list (map fm_Size (map (file_manifest sha) items)) = total_size items"
  "map fm_Path (map (file_manifest sha) items) = map fst items"
  by (induction items) (auto simp: file_manifest_def split: prod.splits)

lemma path_clean_manifest: "path_clean ''manifest.json'' = ''manifest.json'' \<and> \<not> has_prefix ''manifest.json'' ''../''"
  by code_simp

lemma archive_roundtrip:
  assumes codec: "codec_ok encode decode pack unpack"
    and m: "m = seed\<lparr>m_SchemaVersion := version, m_ArtifactFormat := format, m_PolicySource := source, m_Files := map (file_manifest sha) items\<rparr>"
    and enc: "encode m = Some mraw" and raw: "raw = pack ((''manifest.json'', mraw @ [newline]) # items)" "len raw \<le> total_limit"
    and size: "readable encode m" and src: "src_ID source \<noteq> []" and valid: "bundle_valid m"
    and names: "distinct (map fst items)" "\<forall>n \<in> fst ` set items. path_clean n = n \<and> \<not> has_prefix n ''../'' \<and> allowed_entry n"
    and place: "\<forall>i < length items. entry_place m i (map fst items ! i)"
    and crs: "valid_v3 m \<or> valid_base m \<longrightarrow> ''crs/crs-setup.conf'' \<in> fst ` set items"
  shows "Parse sha decode unpack raw = Inr (m, items)"
proof -
  let ?all = "(''manifest.json'', mraw @ [newline]) # items"
  have mf: "m_Files m = map (file_manifest sha) items" and msrc: "m_PolicySource m = source" by (simp_all add: m)
  have paths: "map fm_Path (m_Files m) = map fst items" and count: "length (m_Files m) = length items"
    by (simp_all add: mf sizes_of_items(2) del: map_map)
  have "len mraw + 1 + sum_list (map fm_Size (m_Files m)) \<le> total_limit" using size enc by (simp add: readable_def)
  then have fits: "len mraw + 1 \<le> file_limit" "len mraw + 1 + total_size items \<le> total_limit" "len items < 4096"
    using size enc count sizes_of_items(1) [of sha items] by (simp_all add: readable_def mf del: map_map)
  have small: "len (snd item) \<le> file_limit" if "item \<in> set items" for item
    using that size by (auto simp: readable_def mf)
  have not_m: "''manifest.json'' \<notin> fst ` set items"
    using place entry_place_not_manifest [OF valid] by (metis in_set_conv_nth length_map list.set_map)
  have "list_all entry_ok ?all"
    using names(2) fits(1) small path_clean_manifest by (auto simp: list_all_iff entry_ok_def allowed_entry_def)
  then have read: "fold_result entry_step ([], 0) (map regular_entry ?all) = Inr (?all, total_size ?all)"
    using entries_accepted [of ?all "[]" 0] names(1) not_m fits by simp
  have verified: "entry_verified sha ?all f" if "f \<in> set (m_Files m)" for f
    using that names(1) not_m by (auto simp: mf entry_verified_def image_iff)
  have "\<forall>i < length (m_Files m). entry_place m (0 + i) (fm_Path (m_Files m ! i))" using place by (simp add: mf)
  with verified have "fold_result (verify_step sha m ?all) [] (enumerate 0 (m_Files m)) = Inr (rev (map fm_Path (m_Files m)))"
    unfolding verify_loop_iff paths using names(1) by simp
  moreover have "filter (\<lambda>item. fst item \<noteq> ''manifest.json'') ?all = items"
    using not_m by (force simp: filter_id_conv)
  moreover have "valid_v3 m \<or> valid_base m \<longrightarrow> map_of ?all ''crs/crs-setup.conf'' \<noteq> None"
    using crs by (auto simp: map_of_eq_None_iff)
  ultimately have check: "check_manifest sha m ?all = Inr (m, items)"
    using valid src count by (auto simp: check_manifest_def bundle_valid_def msrc)
  have "unpack raw = Some (map regular_entry ?all, False)" "raw \<noteq> []" "decode (mraw @ [newline]) = Some m"
    using codec enc by (auto simp: codec_ok_def raw)
  then show ?thesis using read check raw(2) by (simp add: Parse_def)
qed


lemma core_names_clean:
  "\<forall>n \<in> set (baseOrderedFiles @ overrideOrderedFiles). path_clean n = n \<and> \<not> has_prefix n ''../'' \<and> \<not> has_prefix n ''crs/''"
  by code_simp

lemma core_names_distinct: "distinct baseOrderedFiles" "distinct overrideOrderedFiles"
  by (simp_all add: baseOrderedFiles_def overrideOrderedFiles_def)

lemma formats_differ [simp]:
  "FormatBase \<noteq> Format" "FormatBase \<noteq> FormatV3" "FormatBase \<noteq> FormatOverride"
  "FormatOverride \<noteq> Format" "FormatOverride \<noteq> FormatV3" "FormatOverride \<noteq> FormatBase"
  by (simp_all add: bundle_formats)

lemma crs_prefix_not_parent: "has_prefix n ''crs/'' \<Longrightarrow> \<not> has_prefix n ''../''"
  by (auto simp: has_prefix_iff)

lemma lookup_in_items:
  assumes "\<forall>(n, body) \<in> set items. map_of files n = Some body" "n \<in> fst ` set items" "distinct (map fst items)"
  shows "map_of items n = map_of files n"
proof -
  obtain body where "(n, body) \<in> set items" using assms(2) by auto
  with assms(1,3) show ?thesis by force
qed

lemma base_manifest_valid:
  assumes "m_SchemaVersion m = 1" "m_ArtifactFormat m = FormatBase" "m_BasePolicyID m \<noteq> []"
    "map fm_Path (m_Files m) = baseOrderedFiles @ names" "names \<noteq> []" "\<forall>n \<in> set names. has_prefix n ''crs/''"
  shows "valid_base m" "bundle_valid m" "\<forall>i < length (m_Files m). entry_place m i (map fm_Path (m_Files m) ! i)"
proof -
  have "length (m_Files m) = length baseOrderedFiles + length names"
    using arg_cong [OF assms(4), of length] by simp
  then show vb: "valid_base m" using assms(1-3,5) by (simp add: valid_base_def)
  then show "bundle_valid m" by (simp add: bundle_valid_def)
  have other: "\<not> valid_v2 m" "\<not> valid_v3 m" "\<not> valid_override m" and core: "core_files m = baseOrderedFiles"
    using assms(2) vb by (simp_all add: valid_v2_def valid_v3_def valid_override_def core_files_def)
  have "names ! j \<in> set names" if "j < length names" for j using that by simp
  then show "\<forall>i < length (m_Files m). entry_place m i (map fm_Path (m_Files m) ! i)"
    using assms(6) \<open>length (m_Files m) = _\<close> by (auto simp: entry_place_def other core assms(4) nth_append)
qed

lemma override_manifest_valid:
  assumes "m_SchemaVersion m = 1" "m_ArtifactFormat m = FormatOverride" "m_BasePolicyID m \<noteq> []"
    "len (m_BaseArtifactSHA256 m) = 64" "len (m_OverrideConfigSHA256 m) = 64" "len (m_EffectiveConfigSHA256 m) = 64"
    "len (m_ValidationDigest m) = 64" "map fm_Path (m_Files m) = overrideOrderedFiles"
  shows "valid_override m" "bundle_valid m" "\<forall>i < length (m_Files m). entry_place m i (map fm_Path (m_Files m) ! i)"
proof -
  have count: "length (m_Files m) = length overrideOrderedFiles" using arg_cong [OF assms(8), of length] by simp
  then show vo: "valid_override m" using assms(1-7) by (simp add: valid_override_def)
  then show "bundle_valid m" by (simp add: bundle_valid_def)
  have other: "\<not> valid_v2 m" "\<not> valid_v3 m" "\<not> valid_base m" and core: "core_files m = overrideOrderedFiles"
    using assms(2) vo by (simp_all add: valid_v2_def valid_v3_def valid_base_def core_files_def)
  then show "\<forall>i < length (m_Files m). entry_place m i (map fm_Path (m_Files m) ! i)"
    by (simp add: entry_place_def assms(8) count)
qed

abbreviation base_core :: "Input \<Rightarrow> (string \<times> string) list" where
  "base_core input \<equiv> [(''00-base-engine.conf'', renderEngine (bi_Mode input) (bi_RequestBody input) (bi_ResponseBody input)),
    (''20-base-crs-setup.conf'', renderSetupV3 (bi_CRSSetup input)), (''30-base-before-crs-exclusions.conf'', renderBefore input),
    (''40-base-crs-rules.conf'', line_of ''# Immutable OWASP CRS rules carried by this signed base policy.'' @
       line_of ''Include /etc/mwaf/active/crs/rules/*.conf''),
    (''50-base-after-crs-exclusions.conf'', renderAfter input), (''60-base-service-rules.conf'', renderServiceRules input)]"

lemma base_archive_parsed:
  assumes "BuildBaseWithCRS sha encode pack basePolicyID source input crsFiles = Inr (raw, m)"
    and "codec_ok encode decode pack unpack" "readable encode m" "distinct (map fst crsFiles)"
  obtains items where "Parse sha decode unpack raw = Inr (m, items)" "m_BasePolicyID m = basePolicyID" "m_PolicySource m = source"
    "distinct (map fst items)" "fst ` set items = set (baseOrderedFiles @ map fst crsFiles)"
    "\<forall>(n, body) \<in> set items. map_of (base_core input @ crsFiles) n = Some body" "\<forall>item \<in> set crsFiles. crs_file_ok item"
proof -
  let ?names = "baseOrderedFiles @ sort_by (<) (map fst crsFiles)"
  let ?seed = "(blank_manifest source)\<lparr>m_BasePolicyID := basePolicyID\<rparr>"
  have id: "basePolicyID \<noteq> []" and src: "source_ok source" and setup_file: "''crs/crs-setup.conf'' \<in> fst ` set crsFiles"
    and crs: "\<forall>item \<in> set crsFiles. crs_file_ok item"
    and built: "buildArchive sha encode pack source FormatBase 1 (base_core input @ crsFiles) ?names ?seed = Inr (raw, m)"
    using assms(1)
    by (auto simp: BuildBaseWithCRS_def map_of_eq_None_iff first_error_if_None split: if_splits option.splits)
  obtain items mraw where items: "map fst items = ?names" "\<forall>(n, body) \<in> set items. map_of (base_core input @ crsFiles) n = Some body"
    and m: "m = ?seed\<lparr>m_SchemaVersion := 1, m_ArtifactFormat := FormatBase, m_PolicySource := source, m_Files := map (file_manifest sha) items\<rparr>"
    and enc: "encode m = Some mraw" and raw: "raw = pack ((''manifest.json'', mraw @ [newline]) # items)" "len raw \<le> total_limit"
    by (rule buildArchive_parts [OF built]) (simp_all add: blank_manifest_def)
  have mf: "m_Files m = map (file_manifest sha) items" "m_SchemaVersion m = 1" "m_ArtifactFormat m = FormatBase"
    "m_BasePolicyID m = basePolicyID" "m_PolicySource m = source" by (simp_all add: m blank_manifest_def)
  have paths: "map fm_Path (m_Files m) = ?names" using items(1) sizes_of_items(2) [of sha items] by (simp add: mf(1) del: map_map)
  have crs_names: "\<forall>n \<in> set (sort_by (<) (map fst crsFiles)). has_prefix n ''crs/'' \<and> path_clean n = n"
    using crs by (auto simp: crs_file_ok_def)
  have nonempty: "crsFiles \<noteq> []" using setup_file by auto
  have place: "bundle_valid m" "\<forall>i < length (m_Files m). entry_place m i (map fm_Path (m_Files m) ! i)"
    using base_manifest_valid [of m "sort_by (<) (map fst crsFiles)"] mf(2-4) id paths nonempty crs_names by simp_all
  have fst_items: "fst ` set items = set ?names" using items(1) by (metis list.set_map)
  have distinct_names: "distinct (map fst items)"
    unfolding items(1) using core_names_distinct(1) core_names_clean crs_names assms(4) by auto
  have parsed: "Parse sha decode unpack raw = Inr (m, items)"
  proof (rule archive_roundtrip [OF assms(2) m enc raw assms(3)])
    show "src_ID source \<noteq> []" using src by (simp add: source_ok_def)
    show "bundle_valid m" by (rule place(1))
    show "distinct (map fst items)" by (rule distinct_names)
    show "\<forall>n \<in> fst ` set items. path_clean n = n \<and> \<not> has_prefix n ''../'' \<and> allowed_entry n"
      unfolding fst_items using core_names_clean crs_names crs_prefix_not_parent by (auto simp: allowed_entry_def)
    show "\<forall>i < length items. entry_place m i (map fst items ! i)"
      using place(2) unfolding paths items(1) by (simp add: mf(1))
    show "valid_v3 m \<or> valid_base m \<longrightarrow> ''crs/crs-setup.conf'' \<in> fst ` set items"
      unfolding fst_items using setup_file by auto
  qed
  show ?thesis
    by (rule that [OF parsed mf(4,5) distinct_names _ items(2) crs]) (simp add: fst_items)
qed

abbreviation override_core :: "OverrideInput \<Rightarrow> (string \<times> string) list" where
  "override_core input \<equiv> [(''10-enterprise-engine.conf'', override_engine input), (''25-enterprise-crs-setup.conf'', override_setup input),
    (''35-enterprise-before-crs-exclusions.conf'', renderBefore (overlay_input input)),
    (''55-enterprise-after-crs-exclusions.conf'', renderAfter (overlay_input input)),
    (''65-enterprise-service-rules.conf'', renderServiceRules (overlay_input input))]"

lemma override_archive_parsed:
  assumes "BuildOverride sha encode pack source input metadata = Inr (raw, m)"
    and "codec_ok encode decode pack unpack" "readable encode m"
  obtains items where "Parse sha decode unpack raw = Inr (m, items)" "m_BasePolicyID m = om_BasePolicyID metadata"
    "m_BaseArtifactSHA256 m = om_BaseArtifactSHA256 metadata" "m_ValidationDigest m = om_ValidationDigest metadata"
    "m_EffectiveConfigSHA256 m = om_EffectiveConfigSHA256 metadata"
    "map fst items = overrideOrderedFiles" "\<forall>(n, body) \<in> set items. map_of (override_core input) n = Some body"
proof -
  let ?seed = "(blank_manifest source)\<lparr>m_BasePolicyID := om_BasePolicyID metadata, m_BaseArtifactSHA256 := om_BaseArtifactSHA256 metadata,
    m_OverrideConfigSHA256 := om_OverrideConfigSHA256 metadata, m_EffectiveConfigSHA256 := om_EffectiveConfigSHA256 metadata,
    m_ValidationDigest := om_ValidationDigest metadata\<rparr>"
  have src: "source_ok source" and md: "override_metadata_ok metadata"
    and built: "buildArchive sha encode pack source FormatOverride 1 (override_core input) overrideOrderedFiles ?seed = Inr (raw, m)"
    using assms(1) by (auto simp: BuildOverride_def split: if_splits)
  obtain items mraw where items: "map fst items = overrideOrderedFiles" "\<forall>(n, body) \<in> set items. map_of (override_core input) n = Some body"
    and m: "m = ?seed\<lparr>m_SchemaVersion := 1, m_ArtifactFormat := FormatOverride, m_PolicySource := source, m_Files := map (file_manifest sha) items\<rparr>"
    and enc: "encode m = Some mraw" and raw: "raw = pack ((''manifest.json'', mraw @ [newline]) # items)" "len raw \<le> total_limit"
    by (rule buildArchive_parts [OF built]) (simp_all add: blank_manifest_def)
  have mf: "m_Files m = map (file_manifest sha) items" "m_SchemaVersion m = 1" "m_ArtifactFormat m = FormatOverride"
    "m_BasePolicyID m = om_BasePolicyID metadata" "m_BaseArtifactSHA256 m = om_BaseArtifactSHA256 metadata"
    "m_OverrideConfigSHA256 m = om_OverrideConfigSHA256 metadata" "m_EffectiveConfigSHA256 m = om_EffectiveConfigSHA256 metadata"
    "m_ValidationDigest m = om_ValidationDigest metadata" by (simp_all add: m blank_manifest_def)
  have paths: "map fm_Path (m_Files m) = overrideOrderedFiles"
    using items(1) sizes_of_items(2) [of sha items] by (simp add: mf(1) del: map_map)
  have vo: "valid_override m" and place: "bundle_valid m" "\<forall>i < length (m_Files m). entry_place m i (map fm_Path (m_Files m) ! i)"
    using override_manifest_valid [of m] mf md paths by (auto simp: override_metadata_ok_def)
  have fst_items: "fst ` set items = set overrideOrderedFiles" using items(1) by (metis list.set_map)
  have parsed: "Parse sha decode unpack raw = Inr (m, items)"
  proof (rule archive_roundtrip [OF assms(2) m enc raw assms(3)])
    show "src_ID source \<noteq> []" using src by (simp add: source_ok_def)
    show "bundle_valid m" by (rule place(1))
    show "distinct (map fst items)" unfolding items(1) by (rule core_names_distinct(2))
    show "\<forall>n \<in> fst ` set items. path_clean n = n \<and> \<not> has_prefix n ''../'' \<and> allowed_entry n"
      unfolding fst_items using core_names_clean by (auto simp: allowed_entry_def)
    show "\<forall>i < length items. entry_place m i (map fst items ! i)"
      using place(2) unfolding paths items(1) by (simp add: mf(1))
    show "valid_v3 m \<or> valid_base m \<longrightarrow> ''crs/crs-setup.conf'' \<in> fst ` set items"
      using mf(3) by (simp add: valid_v3_def valid_base_def)
  qed
  show ?thesis by (rule that [OF parsed mf(4,5,8,7) items])
qed

text \<open>
  a base policy is read back as it was written. When the archive and JSON libraries read what
  they wrote and the files keep the reader's limits, parsing the archive that
  \<^verbatim>\<open>BuildBaseWithCRS\<close> made gives its manifest, the rendered files and the CRS files unchanged.
\<close>

theorem base_policy_roundtrip:
  assumes "BuildBaseWithCRS sha encode pack basePolicyID source input crsFiles = Inr (raw, m)"
    and "codec_ok encode decode pack unpack" "readable encode m" "distinct (map fst crsFiles)"
  shows "\<exists>files. Parse sha decode unpack raw = Inr (m, files) \<and> m_BasePolicyID m = basePolicyID \<and> m_PolicySource m = source \<and>
    map_of files ''20-base-crs-setup.conf'' = Some (renderSetupV3 (bi_CRSSetup input)) \<and>
    map_of files ''30-base-before-crs-exclusions.conf'' = Some (renderBefore input) \<and>
    map_of files ''60-base-service-rules.conf'' = Some (renderServiceRules input) \<and>
    (\<forall>(n, body) \<in> set crsFiles. map_of files n = Some body)"
proof -
  obtain items where parsed: "Parse sha decode unpack raw = Inr (m, items)" "m_BasePolicyID m = basePolicyID" "m_PolicySource m = source"
    and distinct_names: "distinct (map fst items)" and names: "fst ` set items = set (baseOrderedFiles @ map fst crsFiles)"
    and items: "\<forall>(n, body) \<in> set items. map_of (base_core input @ crsFiles) n = Some body" and crs: "\<forall>item \<in> set crsFiles. crs_file_ok item"
    by (rule base_archive_parsed [OF assms])
  have find: "map_of items n = map_of (base_core input @ crsFiles) n" if "n \<in> set (baseOrderedFiles @ map fst crsFiles)" for n
    using that lookup_in_items [OF items _ distinct_names] unfolding names by blast
  have "map_of items n = Some body" if "(n, body) \<in> set crsFiles" for n body
  proof -
    have "n \<notin> fst ` set (base_core input)" using that crs by (auto simp: crs_file_ok_def has_prefix_def)
    then have "map_of (base_core input @ crsFiles) n = map_of crsFiles n"
      by (simp add: map_add_dom_app_simps(3) map_of_eq_None_iff [symmetric])
    moreover have "map_of crsFiles n = Some body" using that assms(4) by simp
    moreover have "n \<in> set (baseOrderedFiles @ map fst crsFiles)" using that by force
    ultimately show ?thesis using find by simp
  qed
  moreover have "\<forall>n \<in> {''20-base-crs-setup.conf'', ''30-base-before-crs-exclusions.conf'', ''60-base-service-rules.conf''}.
      n \<in> set (baseOrderedFiles @ map fst crsFiles)" by (simp add: baseOrderedFiles_def)
  ultimately show ?thesis using parsed find by auto
qed

text \<open>
  an enterprise override is read back as it was written, and its manifest pins the base policy
  and the base artifact it was validated with.
\<close>

theorem override_roundtrip:
  assumes "BuildOverride sha encode pack source input metadata = Inr (raw, m)"
    and "codec_ok encode decode pack unpack" "readable encode m"
  shows "\<exists>files. Parse sha decode unpack raw = Inr (m, files) \<and> m_BasePolicyID m = om_BasePolicyID metadata \<and>
    m_BaseArtifactSHA256 m = om_BaseArtifactSHA256 metadata \<and> m_ValidationDigest m = om_ValidationDigest metadata \<and>
    map_of files ''35-enterprise-before-crs-exclusions.conf'' = Some (renderBefore (overlay_input input)) \<and>
    map_of files ''65-enterprise-service-rules.conf'' = Some (renderServiceRules (overlay_input input))"
proof -
  obtain items where parsed: "Parse sha decode unpack raw = Inr (m, items)" "m_BasePolicyID m = om_BasePolicyID metadata"
      "m_BaseArtifactSHA256 m = om_BaseArtifactSHA256 metadata" "m_ValidationDigest m = om_ValidationDigest metadata"
    and items: "map fst items = overrideOrderedFiles" "\<forall>(n, body) \<in> set items. map_of (override_core input) n = Some body"
    by (rule override_archive_parsed [OF assms])
  have "fst ` set items = set overrideOrderedFiles" using items(1) by (metis list.set_map)
  then have "map_of items n = map_of (override_core input) n" if "n \<in> set overrideOrderedFiles" for n
    using that lookup_in_items [OF items(2)] core_names_distinct(2) unfolding items(1) by blast
  moreover have "\<forall>n \<in> {''35-enterprise-before-crs-exclusions.conf'', ''65-enterprise-service-rules.conf''}.
      n \<in> set overrideOrderedFiles" by (simp add: overrideOrderedFiles_def)
  ultimately show ?thesis using parsed by auto
qed


text \<open>A codec with the assumed round trip: every byte of a name or a body is preceded by a mark.\<close>

definition sample_field :: "string \<Rightarrow> string" where
  "sample_field s = concat (map (\<lambda>c. [CHR ''x'', c]) s) @ ''y''"

fun read_field :: "string \<Rightarrow> (string \<times> string) option" where
  "read_field [] = None"
| "read_field [a] = (if a = CHR ''y'' then Some ([], []) else None)"
| "read_field (a # c # cs) =
     (if a = CHR ''y'' then Some ([], c # cs)
      else case read_field cs of Some (s, r) \<Rightarrow> Some (c # s, r) | None \<Rightarrow> None)"

fun read_items :: "nat \<Rightarrow> string \<Rightarrow> (string \<times> string) list" where
  "read_items 0 s = []"
| "read_items (Suc n) s =
     (case read_field s of None \<Rightarrow> [] | Some (a, r) \<Rightarrow>
       (case read_field r of None \<Rightarrow> [] | Some (b, r') \<Rightarrow> (a, b) # read_items n r'))"

definition sample_pack :: "(string \<times> string) list \<Rightarrow> string" where
  "sample_pack items = CHR ''z'' # concat (map (\<lambda>(n, b). sample_field n @ sample_field b) items)"

definition sample_unpack :: "string \<Rightarrow> (tar_entry list \<times> bool) option" where
  "sample_unpack s = Some (map regular_entry (read_items (length s) (tl s)), False)"

lemma read_sample_field: "read_field (sample_field s @ r) = Some (s, r)"
proof (induction s)
  case Nil
  show ?case by (cases r) (simp_all add: sample_field_def)
qed (simp add: sample_field_def)

lemma read_sample_items:
  "length items \<le> n \<Longrightarrow> read_items n (concat (map (\<lambda>(n, b). sample_field n @ sample_field b) items)) = items"
proof (induction items arbitrary: n)
  case Nil
  show ?case by (cases n) auto
next
  case (Cons item items)
  then obtain k where "n = Suc k" by (cases n) auto
  with Cons show ?case by (cases item) (simp add: read_sample_field)
qed

lemma sample_pack_length: "length items \<le> length (sample_pack items)"
proof -
  have "length items \<le> length (concat (map (\<lambda>(n, b). sample_field n @ sample_field b) items))"
    by (induction items) (auto simp: sample_field_def)
  then show ?thesis by (simp add: sample_pack_def)
qed

lemma sample_codec: "codec_ok (\<lambda>m. if m = m0 then Some [] else None) (\<lambda>_. Some m0) sample_pack sample_unpack"
proof -
  have "sample_unpack (sample_pack items) = Some (map regular_entry items, False)" for items
    using read_sample_items [OF sample_pack_length [of items]] by (simp add: sample_unpack_def sample_pack_def)
  then show ?thesis by (auto simp: codec_ok_def sample_pack_def)
qed

definition sample_source :: PolicySourceRef where
  "sample_source = \<lparr>src_ID = ''crs-4.0.0'', src_Repository = [], src_Channel = ''stable'', src_Tag = ''v4.0.0'', src_Commit = ''abc'',
     src_TagObjectSHA = [], src_TagVerified = True, src_ArchiveSHA256 = replicate 64 CHR ''a'', src_IndexSHA256 = replicate 64 CHR ''b''\<rparr>"

definition sample_override :: OverrideInput where
  "sample_override = \<lparr>oi_IncludeScalars = False, oi_Mode = [], oi_RequestBody = False, oi_ResponseBody = False,
     oi_CRSSetup = [(''max_num_args'', ''100'')], oi_Exclusions = [], oi_CustomRules = [], oi_IPRules = []\<rparr>"

definition sample_metadata :: OverrideMetadata where
  "sample_metadata = \<lparr>om_BasePolicyID = ''crs-baseline@1.0.0'', om_BaseArtifactSHA256 = replicate 64 CHR ''c'',
     om_OverrideConfigSHA256 = replicate 64 CHR ''d'', om_EffectiveConfigSHA256 = replicate 64 CHR ''e'',
     om_ValidationDigest = replicate 64 CHR ''f''\<rparr>"

definition sample_override_manifest :: Manifest where
  "sample_override_manifest = snd (projr (BuildOverride id (\<lambda>m. Some []) sample_pack sample_source sample_override sample_metadata))"

lemma sample_override_built:
  obtains raw m where "BuildOverride id (\<lambda>m. if m = sample_override_manifest then Some [] else None) sample_pack sample_source
      sample_override sample_metadata = Inr (raw, m)" "readable (\<lambda>m. if m = sample_override_manifest then Some [] else None) m"
proof -
  let ?encode = "\<lambda>m. if m = sample_override_manifest then Some [] else None"
  let ?r = "BuildOverride id ?encode sample_pack sample_source sample_override sample_metadata"
  have ok: "isl ?r = False" "readable ?encode (snd (projr ?r))" by code_simp+
  then obtain raw m where r: "?r = Inr (raw, m)" by (cases ?r) auto
  have "readable ?encode m" using ok(2) unfolding r by simp
  with r show ?thesis by (rule that)
qed

lemma override_roundtrip_witness:
  "\<exists>raw m files. BuildOverride id (\<lambda>m. if m = sample_override_manifest then Some [] else None) sample_pack sample_source sample_override
      sample_metadata = Inr (raw, m) \<and> Parse id (\<lambda>_. Some sample_override_manifest) sample_unpack raw = Inr (m, files)"
proof -
  let ?encode = "\<lambda>m. if m = sample_override_manifest then Some [] else None"
  obtain raw m where r: "BuildOverride id ?encode sample_pack sample_source sample_override sample_metadata = Inr (raw, m)"
    and "readable ?encode m" by (rule sample_override_built)
  from override_roundtrip [OF r sample_codec this(2)] r show ?thesis by blast
qed

definition sample_input :: Input where
  "sample_input = (overlay_input sample_override)\<lparr>bi_Mode := ''On''\<rparr>"

definition sample_base_manifest :: Manifest where
  "sample_base_manifest = snd (projr (BuildBaseWithCRS id (\<lambda>m. Some []) sample_pack ''crs-baseline@1.0.0'' sample_source sample_input
     [(''crs/crs-setup.conf'', ''# setup'')]))"

lemma base_policy_roundtrip_witness:
  "\<exists>raw m files. BuildBaseWithCRS id (\<lambda>m. if m = sample_base_manifest then Some [] else None) sample_pack ''crs-baseline@1.0.0''
      sample_source sample_input [(''crs/crs-setup.conf'', ''# setup'')] = Inr (raw, m) \<and>
    Parse id (\<lambda>_. Some sample_base_manifest) sample_unpack raw = Inr (m, files) \<and> map_of files ''crs/crs-setup.conf'' = Some ''# setup''"
proof -
  let ?encode = "\<lambda>m. if m = sample_base_manifest then Some [] else None"
  let ?r = "BuildBaseWithCRS id ?encode sample_pack ''crs-baseline@1.0.0'' sample_source sample_input [(''crs/crs-setup.conf'', ''# setup'')]"
  have ok: "isl ?r = False" "readable ?encode (snd (projr ?r))" by code_simp+
  then obtain raw m where r: "?r = Inr (raw, m)" by (cases ?r) auto
  have "readable ?encode m" using ok(2) unfolding r by simp
  from base_policy_roundtrip [OF r sample_codec this] r show ?thesis by fastforce
qed

lemma Parse_sound_witness:
  "\<exists>raw m files. Parse id (\<lambda>_. Some sample_override_manifest) sample_unpack raw = Inr (m, files) \<and>
     set (map fst files) = set (map fm_Path (m_Files m))"
proof -
  let ?encode = "\<lambda>m. if m = sample_override_manifest then Some [] else None"
  obtain raw m where r: "BuildOverride id ?encode sample_pack sample_source sample_override sample_metadata = Inr (raw, m)"
    and "readable ?encode m" by (rule sample_override_built)
  then obtain files where p: "Parse id (\<lambda>_. Some sample_override_manifest) sample_unpack raw = Inr (m, files)"
    by (rule override_archive_parsed [OF _ sample_codec])
  from Parse_sound [OF p] p show ?thesis by blast
qed

end
