(* ===== verification/Policy_Delivery.thy ===== *)
theory Policy_Delivery
  imports Policy_Bundle
begin

text \<open>
  Split policy delivery, \<^verbatim>\<open>src/internal/manager/policy_delivery.go\<close>: the Manager renders an
  immutable base policy from the system layer and a separate override from the enterprise layer,
  after checking that the two compose, and pins the override to the digest of the base artifact.

  The record \<open>delivery_env\<close> holds what the function calls outside this code: the stored base
  configuration, the indexed CRS source and its files, the signer, the encoders and the clock.
\<close>

section \<open>Inputs of the renderers\<close>

definition policyBundleExclusion :: "PolicyExclusion \<Rightarrow> bundle_Exclusion" where
  "policyBundleExclusion item =
     \<lparr>be_Type = ex_Type item, be_LoadStage = ex_LoadStage item, be_RuleID = ex_RuleID item, be_RuleTag = ex_RuleTag item,
      be_Target = ex_Target item, be_GeneratedRuleID = ex_GeneratedRuleID item, be_Enabled = ex_Enabled item,
      be_Conditions = map to_rule_condition (ex_Conditions item)\<rparr>"

definition bundle_custom_rule :: "PolicyCustomRule \<Rightarrow> bundle_CustomRule" where
  "bundle_custom_rule item = \<lparr>bu_RuleID = cr_RuleID item, bu_Scope = cr_SourceScope item, bu_Canonical = cr_CanonicalSecRule item,
     bu_Enabled = cr_Enabled item\<rparr>"

definition bundle_ip_rule :: "PolicyIPRule \<Rightarrow> bundle_IPRule" where
  "bundle_ip_rule item = \<lparr>bp_Action = ip_Action item, bp_Network = ip_Network item, bp_GeneratedRuleID = ip_GeneratedRuleID item,
     bp_Enabled = ip_Enabled item\<rparr>"

definition policyBundleInputFromConfiguration :: "PolicyConfiguration \<Rightarrow> Input" where
  "policyBundleInputFromConfiguration c =
     \<lparr>bi_Mode = pc_EngineMode c, bi_RequestBody = pc_RequestBodyAccess c, bi_ResponseBody = pc_ResponseBodyAccess c,
      bi_CRSSetup = CRSSetupMap c, bi_Before = [], bi_After = [], bi_Target = [], bi_ExcludedPaths = [], bi_ExcludedIPs = [],
      bi_SystemRules = [], bi_EnterpriseRules = [], bi_Exclusions = map policyBundleExclusion (pc_Exclusions c),
      bi_CustomRules = map bundle_custom_rule (pc_CustomRules c), bi_IPRules = map bundle_ip_rule (pc_IPRules c)\<rparr>"

record policyOverrideSnapshot =
  os_ScalarSource :: string
  os_Scalars :: "PolicyScalarOverrides option"
  os_Setup :: "CRSSetupValue list"
  os_Exclusions :: "PolicyExclusion list"
  os_CustomRules :: "PolicyCustomRule list"
  os_IPRules :: "PolicyIPRule list"

definition resolved_scalars :: "PolicyConfiguration \<Rightarrow> PolicyScalarOverrides" where
  "resolved_scalars c =
     \<lparr>so_Mode = pc_EngineMode c, so_ParanoiaLevel = pc_BlockingParanoiaLevel c,
      so_ExecutingParanoiaLevel = pc_ExecutingParanoiaLevel c, so_InboundScore = pc_InboundAnomalyThreshold c,
      so_OutboundScore = pc_OutboundAnomalyThreshold c, so_RequestBody = pc_RequestBodyAccess c,
      so_ResponseBody = pc_ResponseBodyAccess c, so_EarlyBlocking = pc_EarlyBlocking c,
      so_SamplingPercentage = pc_SamplingPercentage c\<rparr>"

definition policyOverrideFromConfiguration ::
  "PolicyConfiguration \<Rightarrow> string \<Rightarrow> PolicyScalarOverrides option \<Rightarrow> OverrideInput \<times> policyOverrideSnapshot" where
  "policyOverrideFromConfiguration c scalarSource scalarOverrides =
     (let includeScalars = (scalarSource \<noteq> PolicyScalarSourceInherit);
          setupItems = filter (\<lambda>s. sv_SourceScope s = PolicyScopeEnterprise) (pc_Setup c);
          exclusions = filter (\<lambda>e. ex_SourceScope e = PolicyScopeEnterprise) (pc_Exclusions c);
          rules = filter (\<lambda>r. cr_SourceScope r = PolicyScopeEnterprise) (pc_CustomRules c);
          ips = filter (\<lambda>r. ip_SourceScope r = PolicyScopeEnterprise) (pc_IPRules c)
      in (\<lparr>oi_IncludeScalars = includeScalars, oi_Mode = pc_EngineMode c, oi_RequestBody = pc_RequestBodyAccess c,
           oi_ResponseBody = pc_ResponseBodyAccess c,
           oi_CRSSetup = fold (\<lambda>s. AList.update (sv_Key s) (sv_Value s)) setupItems (if includeScalars then CRSSetupMap c else []),
           oi_Exclusions = map policyBundleExclusion exclusions, oi_CustomRules = map bundle_custom_rule rules,
           oi_IPRules = map bundle_ip_rule ips\<rparr>,
          \<lparr>os_ScalarSource = scalarSource,
           os_Scalars = (if includeScalars
             then Some (case scalarOverrides of Some o' \<Rightarrow> o' | None \<Rightarrow> resolved_scalars c) else None),
           os_Setup = setupItems, os_Exclusions = exclusions, os_CustomRules = rules, os_IPRules = ips\<rparr>))"

section \<open>Composition\<close>

record systemOverlay =
  so_Setup :: "CRSSetupValue list"
  so_Exclusions :: "PolicyExclusion list"
  so_CustomRules :: "PolicyCustomRule list"
  so_IPRules :: "PolicyIPRule list"

definition system_overlay :: "PolicyConfiguration \<Rightarrow> systemOverlay" where
  "system_overlay c =
     \<lparr>so_Setup = filter (\<lambda>s. sv_SourceScope s = PolicyScopeSystem) (pc_Setup c),
      so_Exclusions = map (\<lambda>e. e\<lparr>ex_ID := []\<rparr>) (filter (\<lambda>e. ex_SourceScope e = PolicyScopeSystem) (pc_Exclusions c)),
      so_CustomRules = map (\<lambda>r. r\<lparr>cr_ID := []\<rparr>) (filter (\<lambda>r. cr_SourceScope r = PolicyScopeSystem) (pc_CustomRules c)),
      so_IPRules = map (\<lambda>r. r\<lparr>ip_ID := []\<rparr>) (filter (\<lambda>r. ip_SourceScope r = PolicyScopeSystem) (pc_IPRules c))\<rparr>"

definition systemPolicyOverlayDigest ::
  "(string \<Rightarrow> string) \<Rightarrow> (systemOverlay \<Rightarrow> string option) \<Rightarrow> PolicyConfiguration \<Rightarrow> string option" where
  "systemPolicyOverlayDigest sha256_hex marshal_overlay c = map_option sha256_hex (marshal_overlay (system_overlay c))"

datatype delivery_error =
    SplitNeedsSource
  | StoreFailed
  | BaseConfigurationFailed config_error
  | BaseInvalid config_error
  | EffectiveInvalid config_error
  | CRSIdentityDiffers
  | InheritedScalarsDiffer
  | OverlayNotEncodable
  | SystemOverlayChanged
  | SourceUnavailable
  | ReleaseCheckFailed release_error
  | SourceFilesUnavailable
  | BundleFailed bundle_error
  | BaseIdentityMismatch
  | SnapshotNotEncodable
  | RenderedBaseInvalid bundle_error
  | RenderedOverrideInvalid bundle_error
  | CompositionFailed
  | ArtifactNotWritten

definition inherited_scalars_equal :: "PolicyConfiguration \<Rightarrow> PolicyConfiguration \<Rightarrow> bool" where
  "inherited_scalars_equal b e \<longleftrightarrow>
     pc_EngineMode b = pc_EngineMode e \<and> pc_BlockingParanoiaLevel b = pc_BlockingParanoiaLevel e \<and>
     pc_ExecutingParanoiaLevel b = pc_ExecutingParanoiaLevel e \<and> pc_InboundAnomalyThreshold b = pc_InboundAnomalyThreshold e \<and>
     pc_OutboundAnomalyThreshold b = pc_OutboundAnomalyThreshold e \<and> pc_RequestBodyAccess b = pc_RequestBodyAccess e \<and>
     pc_ResponseBodyAccess b = pc_ResponseBodyAccess e \<and> pc_EarlyBlocking b = pc_EarlyBlocking e \<and>
     pc_SamplingPercentage b = pc_SamplingPercentage e"

definition validatePolicyComposition ::
  "(string \<Rightarrow> string) \<Rightarrow> (systemOverlay \<Rightarrow> string option) \<Rightarrow> PolicyConfiguration \<Rightarrow> PolicyConfiguration \<Rightarrow> string \<Rightarrow> delivery_error option" where
  "validatePolicyComposition sha256_hex marshal_overlay baseConfiguration effective scalarSource =
     (if pc_CRSReleaseID baseConfiguration \<noteq> pc_CRSReleaseID effective \<or>
         pc_RuleIDNamespaceVersion baseConfiguration \<noteq> pc_RuleIDNamespaceVersion effective then Some CRSIdentityDiffers
      else if scalarSource = PolicyScalarSourceInherit \<and> \<not> inherited_scalars_equal baseConfiguration effective
        then Some InheritedScalarsDiffer
      else case systemPolicyOverlayDigest sha256_hex marshal_overlay baseConfiguration of
          None \<Rightarrow> Some OverlayNotEncodable
        | Some baseSystem \<Rightarrow>
            (case systemPolicyOverlayDigest sha256_hex marshal_overlay effective of
               None \<Rightarrow> Some OverlayNotEncodable
             | Some effectiveSystem \<Rightarrow> if baseSystem \<noteq> effectiveSystem then Some SystemOverlayChanged else None))"

section \<open>Preparing the artifacts\<close>

record policyValidationDigestInput =
  vd_BasePolicyID :: string
  vd_BasePolicySHA256 :: string
  vd_BaseArtifactSHA256 :: string
  vd_CRSReleaseID :: string
  vd_CRSIndexSHA256 :: string
  vd_OverrideConfigSHA256 :: string
  vd_EffectiveConfigSHA256 :: string
  vd_Renderer :: string

record indexed_source =
  is_ID :: string
  is_IndexSHA256 :: string
  is_Setup :: "SetupField list"
  is_Rules :: "crs_Rule list"

record delivery_env =
  de_net :: netip
  de_sha256_hex :: "string \<Rightarrow> string"
  de_marshal_config :: "PolicyConfiguration \<Rightarrow> string option"
  de_marshal_overlay :: "systemOverlay \<Rightarrow> string option"
  de_marshal_snapshot :: "policyOverrideSnapshot \<Rightarrow> string option"
  de_marshal_validation :: "policyValidationDigestInput \<Rightarrow> string option"
  de_randomID :: "nat \<Rightarrow> string"
  de_encode :: "Manifest \<Rightarrow> string option"
  de_decode :: "string \<Rightarrow> Manifest option"
  de_pack :: "(string \<times> string) list \<Rightarrow> string"
  de_unpack :: "string \<Rightarrow> (tar_entry list \<times> bool) option"
  de_Sign :: "string \<Rightarrow> string \<times> string"
  de_stored_base :: "string \<Rightarrow> unit + PolicyConfiguration option"
  de_indexedPolicySource :: "string \<Rightarrow> unit + indexed_source option"
  de_policySourceFiles :: "string \<Rightarrow> (string \<times> string) list option"
  de_writeArtifact :: "string \<Rightarrow> string \<Rightarrow> bool"
  de_now :: time

definition policyDeliveryFormatSplit :: string where
  "policyDeliveryFormatSplit = ''base-plus-override-v1''"

definition base_settings :: "Template \<Rightarrow> PolicySettings" where
  "base_settings t =
     (let d = t_Defaults t
      in (managed_settings empty_metadata (d_ParanoiaLevel d) (d_InboundScore d) (d_RequestBody d) [] [] [] 0)
         \<lparr>s_ExecutingParanoiaLevel := d_ExecutingParanoiaLevel d, s_OutboundScore := d_OutboundScore d,
          s_ResponseBody := d_ResponseBody d, s_EarlyBlocking := d_EarlyBlocking d, s_SamplingPercentage := d_SamplingPercentage d\<rparr>)"

text \<open>The base configuration: the stored one, or the one derived from the template when none is stored.\<close>

definition base_configuration :: "delivery_env \<Rightarrow> Template \<Rightarrow> delivery_error + PolicyConfiguration" where
  "base_configuration env t =
     (case de_stored_base env (Reference t) of
        Inl _ \<Rightarrow> Inl StoreFailed
      | Inr (Some c) \<Rightarrow> Inr c
      | Inr None \<Rightarrow>
          (case structuredConfigurationFromPolicy (de_net env) (de_sha256_hex env) (de_marshal_config env) (de_randomID env) (de_now env)
                  (Reference t) [] t (d_Mode (t_Defaults t)) (base_settings t) of
             Inl e \<Rightarrow> Inl (BaseConfigurationFailed e)
           | Inr (c, _) \<Rightarrow> Inr c))"

text \<open>The second half of the function: both artifacts are rendered, parsed back and compared.\<close>

definition render_split ::
  "delivery_env \<Rightarrow> Template \<Rightarrow> PolicySourceRef \<Rightarrow> PolicyConfiguration \<Rightarrow> PolicyConfiguration \<Rightarrow> indexed_source \<Rightarrow>
   (string \<times> string) list \<Rightarrow> string \<Rightarrow> PolicyScalarOverrides option \<Rightarrow> delivery_error + (string \<times> string \<times> PolicyDeliveryMetadata)" where
  "render_split env t crsSource baseConfiguration c source files scalarSource scalarOverrides =
     (case BuildBaseWithCRS (de_sha256_hex env) (de_encode env) (de_pack env) (Reference t) crsSource
             (policyBundleInputFromConfiguration baseConfiguration) files of
        Inl e \<Rightarrow> Inl (BundleFailed e)
      | Inr (baseRaw, baseManifest) \<Rightarrow>
          (let (baseSHA256, baseSignature) = de_Sign env baseRaw;
               (overrideInput, snapshot) = policyOverrideFromConfiguration c scalarSource scalarOverrides
           in if m_BasePolicyID baseManifest \<noteq> Reference t then Inl BaseIdentityMismatch
              else case de_marshal_snapshot env snapshot of
                  None \<Rightarrow> Inl SnapshotNotEncodable
                | Some overrideRaw \<Rightarrow>
                    (let overrideSHA256 = de_sha256_hex env overrideRaw;
                         basePolicySHA256 = (if t_Digest t = [] then pc_ConfigSHA256 baseConfiguration else t_Digest t)
                     in case de_marshal_validation env
                               \<lparr>vd_BasePolicyID = Reference t, vd_BasePolicySHA256 = basePolicySHA256, vd_BaseArtifactSHA256 = baseSHA256,
                                vd_CRSReleaseID = is_ID source, vd_CRSIndexSHA256 = is_IndexSHA256 source,
                                vd_OverrideConfigSHA256 = overrideSHA256, vd_EffectiveConfigSHA256 = pc_ConfigSHA256 c,
                                vd_Renderer = FormatOverride\<rparr> of
                          None \<Rightarrow> Inl SnapshotNotEncodable
                        | Some validationRaw \<Rightarrow>
                            (let validationDigest = de_sha256_hex env validationRaw
                             in case BuildOverride (de_sha256_hex env) (de_encode env) (de_pack env) crsSource overrideInput
                                       \<lparr>om_BasePolicyID = Reference t, om_BaseArtifactSHA256 = baseSHA256,
                                        om_OverrideConfigSHA256 = overrideSHA256, om_EffectiveConfigSHA256 = pc_ConfigSHA256 c,
                                        om_ValidationDigest = validationDigest\<rparr> of
                                  Inl e \<Rightarrow> Inl (BundleFailed e)
                                | Inr (overrideArtifact, overrideManifest) \<Rightarrow>
                                    (case Parse (de_sha256_hex env) (de_decode env) (de_unpack env) baseRaw of
                                       Inl e \<Rightarrow> Inl (RenderedBaseInvalid e)
                                     | Inr (parsedBase, _) \<Rightarrow>
                                         (case Parse (de_sha256_hex env) (de_decode env) (de_unpack env) overrideArtifact of
                                            Inl e \<Rightarrow> Inl (RenderedOverrideInvalid e)
                                          | Inr (parsedOverride, _) \<Rightarrow>
                                              if m_BasePolicyID parsedBase \<noteq> m_BasePolicyID parsedOverride \<or>
                                                 m_BaseArtifactSHA256 parsedOverride \<noteq> baseSHA256 \<or>
                                                 m_ValidationDigest parsedOverride \<noteq> validationDigest \<or>
                                                 m_EffectiveConfigSHA256 overrideManifest \<noteq> pc_ConfigSHA256 c
                                              then Inl CompositionFailed
                                              else (let path = ''policy-bases/'' @ baseSHA256 @ ''.base.tar.gz''
                                                    in if \<not> de_writeArtifact env path baseRaw then Inl ArtifactNotWritten
                                                       else Inr (overrideArtifact, baseRaw,
                                                         \<lparr>dm_Format = policyDeliveryFormatSplit, dm_BasePolicyID = Reference t,
                                                          dm_BasePolicySHA256 = basePolicySHA256, dm_BaseArtifactPath = path,
                                                          dm_BaseArtifactSHA256 = baseSHA256, dm_BaseArtifactSignature = baseSignature,
                                                          dm_OverrideConfigSHA256 = overrideSHA256,
                                                          dm_EffectiveConfigSHA256 = pc_ConfigSHA256 c,
                                                          dm_ValidationDigest = validationDigest\<rparr>))))))))"

definition prepareSplitPolicyArtifacts ::
  "delivery_env \<Rightarrow> Template \<Rightarrow> PolicyConfiguration \<Rightarrow> string \<Rightarrow> PolicyScalarOverrides option \<Rightarrow>
   delivery_error + (string \<times> string \<times> PolicyDeliveryMetadata)" where
  "prepareSplitPolicyArtifacts env t c scalarSource scalarOverrides =
     (case d_CRSSource (t_Defaults t) of
        None \<Rightarrow> Inl SplitNeedsSource
      | Some crsSource \<Rightarrow>
          if d_ArtifactFormat (t_Defaults t) \<noteq> FormatV3 then Inl SplitNeedsSource
          else case base_configuration env t of Inl e \<Rightarrow> Inl e | Inr baseConfiguration \<Rightarrow>
            (case ValidateAt (de_net env) baseConfiguration (de_now env) of Some e \<Rightarrow> Inl (BaseInvalid e) | None \<Rightarrow>
              (case ValidateAt (de_net env) c (de_now env) of Some e \<Rightarrow> Inl (EffectiveInvalid e) | None \<Rightarrow>
                (case validatePolicyComposition (de_sha256_hex env) (de_marshal_overlay env) baseConfiguration c scalarSource of
                   Some e \<Rightarrow> Inl e
                 | None \<Rightarrow>
                     (case de_indexedPolicySource env (pc_CRSReleaseID c) of
                        Inl _ \<Rightarrow> Inl StoreFailed
                      | Inr None \<Rightarrow> Inl SourceUnavailable
                      | Inr (Some source) \<Rightarrow>
                          if is_ID source \<noteq> src_ID crsSource then Inl SourceUnavailable
                          else (case validateConfigurationRuleIDs c (is_Setup source) (is_Rules source) of
                                  Some e \<Rightarrow> Inl (ReleaseCheckFailed e)
                                | None \<Rightarrow>
                                    (case de_policySourceFiles env (src_ID crsSource) of
                                       None \<Rightarrow> Inl SourceFilesUnavailable
                                     | Some files \<Rightarrow>
                                         render_split env t crsSource baseConfiguration c source files scalarSource scalarOverrides)))))))"

section \<open>Lemmas\<close>

text \<open>The rule identifiers of a configuration with the scope of the item that has them.\<close>

definition scoped_ids :: "PolicyConfiguration \<Rightarrow> (string \<times> int list) list" where
  "scoped_ids c = map (\<lambda>e. (ex_SourceScope e, exclusion_ids e)) (pc_Exclusions c) @
     map (\<lambda>r. (ip_SourceScope r, [ip_GeneratedRuleID r])) (pc_IPRules c) @
     map (\<lambda>r. (cr_SourceScope r, [cr_RuleID r])) (pc_CustomRules c)"

definition scope_rule_ids :: "string \<Rightarrow> PolicyConfiguration \<Rightarrow> int list" where
  "scope_rule_ids scope c = concat (map snd (filter (\<lambda>x. fst x = scope) (scoped_ids c)))"

lemma config_rule_ids_scoped: "config_rule_ids c = concat (map snd (scoped_ids c))"
  by (simp add: config_rule_ids_def scoped_ids_def o_def)

lemma distinct_concat_filter:
  "distinct (concat (map f xs)) \<Longrightarrow>
     set (concat (map f (filter P xs))) \<inter> set (concat (map f (filter (\<lambda>x. \<not> P x) xs))) = {}"
proof (induction xs)
  case (Cons x xs)
  have "set (concat (map f (filter Q xs))) \<subseteq> set (concat (map f xs))" for Q by auto
  with Cons show ?case by (auto simp: disjoint_iff)
qed simp

lemma scopes_disjoint:
  assumes "distinct (config_rule_ids c)" "s \<noteq> s'"
  shows "set (scope_rule_ids s c) \<inter> set (scope_rule_ids s' c) = {}"
proof -
  have "set (scope_rule_ids s' c) \<subseteq> set (concat (map snd (filter (\<lambda>x. \<not> fst x = s) (scoped_ids c))))"
    using assms(2) by (auto simp: scope_rule_ids_def)
  then show ?thesis
    using distinct_concat_filter [of snd "scoped_ids c" "\<lambda>x. fst x = s"] assms(1)
    by (auto simp: config_rule_ids_scoped scope_rule_ids_def)
qed

lemma exclusion_ids_of: "exclusion_ids = (\<lambda>g. if g = 0 then [] else [g]) \<circ> ex_GeneratedRuleID"
  by (auto simp: exclusion_ids_def)

lemma scope_rule_ids_alt:
  "scope_rule_ids s c =
     concat (map (\<lambda>g. if g = 0 then [] else [g]) (map ex_GeneratedRuleID (filter (\<lambda>e. ex_SourceScope e = s) (pc_Exclusions c)))) @
     map ip_GeneratedRuleID (filter (\<lambda>r. ip_SourceScope r = s) (pc_IPRules c)) @
     map cr_RuleID (filter (\<lambda>r. cr_SourceScope r = s) (pc_CustomRules c))"
  by (simp add: scope_rule_ids_def scoped_ids_def filter_map o_def exclusion_ids_of)

text \<open>Equal system overlays have equal system identifiers: blanking the row identifiers does not change them.\<close>

lemma overlay_scope_ids:
  assumes "system_overlay a = system_overlay b"
  shows "scope_rule_ids PolicyScopeSystem a = scope_rule_ids PolicyScopeSystem b"
proof -
  have "map ex_GeneratedRuleID (so_Exclusions (system_overlay a)) = map ex_GeneratedRuleID (so_Exclusions (system_overlay b))"
    "map ip_GeneratedRuleID (so_IPRules (system_overlay a)) = map ip_GeneratedRuleID (so_IPRules (system_overlay b))"
    "map cr_RuleID (so_CustomRules (system_overlay a)) = map cr_RuleID (so_CustomRules (system_overlay b))"
    unfolding assms by (rule refl)+
  then show ?thesis unfolding scope_rule_ids_alt by (simp add: system_overlay_def o_def)
qed

lemma composition_overlay:
  assumes "validatePolicyComposition sha marshal_overlay b e source = None"
    and "inj_on marshal_overlay {system_overlay b, system_overlay e}"
    and "inj_on sha (the ` marshal_overlay ` {system_overlay b, system_overlay e})"
  shows "system_overlay b = system_overlay e"
proof -
  obtain rb re where r: "marshal_overlay (system_overlay b) = Some rb" "marshal_overlay (system_overlay e) = Some re" "sha rb = sha re"
    using assms(1)
    by (auto simp: validatePolicyComposition_def systemPolicyOverlayDigest_def split: if_splits option.splits)
  have "sha (the (marshal_overlay (system_overlay b))) = sha (the (marshal_overlay (system_overlay e))) \<longleftrightarrow>
      the (marshal_overlay (system_overlay b)) = the (marshal_overlay (system_overlay e))"
    by (rule inj_on_eq_iff [OF assms(3)]) blast+
  then have "marshal_overlay (system_overlay b) = marshal_overlay (system_overlay e)" using r by simp
  moreover have "marshal_overlay (system_overlay b) = marshal_overlay (system_overlay e) \<longleftrightarrow> system_overlay b = system_overlay e"
    by (rule inj_on_eq_iff [OF assms(2)]) blast+
  ultimately show ?thesis by (rule iffD1 [rotated])
qed

definition only_system :: "PolicyConfiguration \<Rightarrow> bool" where
  "only_system c \<longleftrightarrow> list_all (\<lambda>x. fst x = PolicyScopeSystem) (scoped_ids c)"

lemma only_system_ids: "only_system c \<Longrightarrow> scope_rule_ids PolicyScopeSystem c = config_rule_ids c"
  by (simp add: only_system_def scope_rule_ids_def config_rule_ids_scoped list_all_iff filter_True)

lemma render_split_parts:
  assumes "render_split env t crsSource b c source files ss so = Inr (overrideRaw, baseRaw, md)"
  shows "\<exists>mb fb mo fo. Parse (de_sha256_hex env) (de_decode env) (de_unpack env) baseRaw = Inr (mb, fb) \<and>
    Parse (de_sha256_hex env) (de_decode env) (de_unpack env) overrideRaw = Inr (mo, fo) \<and> m_BasePolicyID mo = m_BasePolicyID mb \<and>
    m_BaseArtifactSHA256 mo = fst (de_Sign env baseRaw) \<and> m_ValidationDigest mo = dm_ValidationDigest md"
    "dm_BaseArtifactSHA256 md = fst (de_Sign env baseRaw)" "dm_BasePolicyID md = Reference t"
    "dm_EffectiveConfigSHA256 md = pc_ConfigSHA256 c" "de_writeArtifact env (dm_BaseArtifactPath md) baseRaw"
  using assms
  by (auto simp: render_split_def Let_def split: sum.splits option.splits if_splits prod.splits)

lemma prepareSplit_parts:
  assumes "prepareSplitPolicyArtifacts env t c ss so = Inr out"
  obtains crsSource b source files where "base_configuration env t = Inr b" "ValidateAt (de_net env) b (de_now env) = None"
    "ValidateAt (de_net env) c (de_now env) = None"
    "validatePolicyComposition (de_sha256_hex env) (de_marshal_overlay env) b c ss = None"
    "validateConfigurationRuleIDs c (is_Setup source) (is_Rules source) = None"
    "render_split env t crsSource b c source files ss so = Inr out"
proof -
  obtain crsSource where src: "d_CRSSource (t_Defaults t) = Some crsSource"
    using assms by (cases "d_CRSSource (t_Defaults t)") (simp_all add: prepareSplitPolicyArtifacts_def)
  have fmt: "d_ArtifactFormat (t_Defaults t) = FormatV3"
    using assms src by (auto simp: prepareSplitPolicyArtifacts_def split: if_splits)
  obtain b where b: "base_configuration env t = Inr b"
    using assms src fmt by (cases "base_configuration env t") (simp_all add: prepareSplitPolicyArtifacts_def)
  have vb: "ValidateAt (de_net env) b (de_now env) = None"
    using assms src fmt b by (cases "ValidateAt (de_net env) b (de_now env)") (simp_all add: prepareSplitPolicyArtifacts_def)
  have vc: "ValidateAt (de_net env) c (de_now env) = None"
    using assms src fmt b vb by (cases "ValidateAt (de_net env) c (de_now env)") (simp_all add: prepareSplitPolicyArtifacts_def)
  have vcomp: "validatePolicyComposition (de_sha256_hex env) (de_marshal_overlay env) b c ss = None"
    using assms src fmt b vb vc
    by (cases "validatePolicyComposition (de_sha256_hex env) (de_marshal_overlay env) b c ss") (simp_all add: prepareSplitPolicyArtifacts_def)
  show ?thesis
    using assms src fmt b vb vc vcomp that
    by (auto simp: prepareSplitPolicyArtifacts_def split: sum.splits option.splits if_splits)
qed

section \<open>Properties\<close>

text \<open>
  separately delivered base and override never reserve the same rule identifier. When an
  effective configuration validates and composes with a base configuration that holds only the
  system layer, the identifiers of the base are those of the system layer of the effective
  configuration, and none of them is an identifier of its enterprise layer, which the override
  carries. JSON encoding and SHA-256 are assumed to tell the two system layers apart.
\<close>

theorem composition_ids_disjoint:
  assumes "ValidateAt net c now = None" "validatePolicyComposition sha marshal_overlay b c source = None" "only_system b"
    and "inj_on marshal_overlay {system_overlay b, system_overlay c}"
    and "inj_on sha (the ` marshal_overlay ` {system_overlay b, system_overlay c})"
  shows "config_rule_ids b = scope_rule_ids PolicyScopeSystem c \<and>
    set (config_rule_ids b) \<inter> set (scope_rule_ids PolicyScopeEnterprise c) = {}"
proof -
  have "config_rule_ids b = scope_rule_ids PolicyScopeSystem c"
    using overlay_scope_ids [OF composition_overlay [OF assms(2,4,5)]] only_system_ids [OF assms(3)] by simp
  then show ?thesis using scopes_disjoint [OF ValidateAt_distinct_ids [OF assms(1)]] by simp
qed

lemma composition_ids_disjoint_witness:
  "\<exists>b. ValidateAt sample_netip sample_configuration 0 = None \<and> config_rule_ids b = scope_rule_ids PolicyScopeSystem sample_configuration"
proof -
  let ?b = "sample_configuration\<lparr>pc_Exclusions := [], pc_CustomRules := [], pc_IPRules := []\<rparr>"
  have same: "system_overlay ?b = system_overlay sample_configuration"
    by (simp add: system_overlay_def sample_configuration_def PolicyScopeSystem_def)
  have comp: "validatePolicyComposition id (\<lambda>_. Some []) ?b sample_configuration PolicyScalarSourceInherit = None"
    and sys: "only_system ?b"
    by (simp_all add: validatePolicyComposition_def inherited_scalars_equal_def systemPolicyOverlayDigest_def only_system_def scoped_ids_def)
  have "inj_on (\<lambda>_. Some []) {system_overlay ?b, system_overlay sample_configuration}" unfolding same by simp
  from composition_ids_disjoint [OF sample_configuration_valid comp sys this] sample_configuration_valid show ?thesis by auto
qed

text \<open>C29:
  a prepared split delivery is self-consistent. Both artifacts parse, name the same base
  policy, and the override pins the digest under which the signer signed the base artifact; the
  metadata returned with them carries the same digests, the base artifact has been written under
  its path, and the base and the effective configuration both validate.
\<close>

theorem split_delivery_consistent:
  assumes "prepareSplitPolicyArtifacts env t c ss so = Inr (overrideRaw, baseRaw, md)"
  shows "\<exists>mb fb mo fo. Parse (de_sha256_hex env) (de_decode env) (de_unpack env) baseRaw = Inr (mb, fb) \<and>
    Parse (de_sha256_hex env) (de_decode env) (de_unpack env) overrideRaw = Inr (mo, fo) \<and> m_BasePolicyID mo = m_BasePolicyID mb \<and>
    m_BaseArtifactSHA256 mo = fst (de_Sign env baseRaw) \<and> dm_BaseArtifactSHA256 md = fst (de_Sign env baseRaw) \<and>
    m_ValidationDigest mo = dm_ValidationDigest md \<and> dm_BasePolicyID md = Reference t \<and>
    de_writeArtifact env (dm_BaseArtifactPath md) baseRaw \<and> ValidateAt (de_net env) c (de_now env) = None"
proof -
  obtain crsSource b source files where "ValidateAt (de_net env) c (de_now env) = None"
    and r: "render_split env t crsSource b c source files ss so = Inr (overrideRaw, baseRaw, md)"
    by (rule prepareSplit_parts [OF assms])
  then show ?thesis using render_split_parts [OF r] by blast
qed

definition sample_sha :: "string \<Rightarrow> string" where
  "sample_sha s = ''aaaaaaaaaaaaaaaaaaaaaaaaaaaaaaaaaaaaaaaaaaaaaaaaaaaaaaaaaaaaaaaa''"

definition split_template :: Template where
  "split_template = baseline_template\<lparr>t_Defaults := (t_Defaults baseline_template)\<lparr>d_CRSSource := Some sample_source,
     d_ArtifactFormat := FormatV3\<rparr>\<rparr>"

definition split_configuration :: PolicyConfiguration where
  "split_configuration = sample_configuration\<lparr>pc_Setup := [], pc_Exclusions := [], pc_CustomRules := [], pc_IPRules := [],
     pc_CRSReleaseID := src_ID sample_source, pc_ConfigSHA256 := replicate 64 CHR ''e''\<rparr>"

definition split_files :: "(string \<times> string) list" where
  "split_files = [(''crs/crs-setup.conf'', ''# setup'')]"

definition split_digest :: string where
  "split_digest = ''aaaaaaaaaaaaaaaaaaaaaaaaaaaaaaaaaaaaaaaaaaaaaaaaaaaaaaaaaaaaaaaa''"

definition split_metadata :: OverrideMetadata where
  "split_metadata = \<lparr>om_BasePolicyID = Reference split_template, om_BaseArtifactSHA256 = split_digest,
     om_OverrideConfigSHA256 = sample_sha [], om_EffectiveConfigSHA256 = pc_ConfigSHA256 split_configuration,
     om_ValidationDigest = sample_sha []\<rparr>"

definition build_split_base :: "(Manifest \<Rightarrow> string option) \<Rightarrow> bundle_error + (string \<times> Manifest)" where
  "build_split_base encode = BuildBaseWithCRS sample_sha encode sample_pack (Reference split_template) sample_source
     (policyBundleInputFromConfiguration split_configuration) split_files"

definition build_split_override :: "(Manifest \<Rightarrow> string option) \<Rightarrow> bundle_error + (string \<times> Manifest)" where
  "build_split_override encode = BuildOverride sample_sha encode sample_pack sample_source
     (fst (policyOverrideFromConfiguration split_configuration PolicyScalarSourceInherit None)) split_metadata"

definition split_base_manifest :: Manifest where
  "split_base_manifest = snd (projr (build_split_base (\<lambda>_. Some [])))"

definition split_override_manifest :: Manifest where
  "split_override_manifest = snd (projr (build_split_override (\<lambda>_. Some ''o'')))"

definition split_encode :: "Manifest \<Rightarrow> string option" where
  "split_encode m = (if m = split_base_manifest then Some [] else if m = split_override_manifest then Some ''o'' else None)"

definition split_decode :: "string \<Rightarrow> Manifest option" where
  "split_decode s = Some (if s = [newline] then split_base_manifest else split_override_manifest)"

definition split_env :: delivery_env where
  "split_env =
     \<lparr>de_net = sample_netip, de_sha256_hex = sample_sha, de_marshal_config = (\<lambda>_. Some []), de_marshal_overlay = (\<lambda>_. Some []),
      de_marshal_snapshot = (\<lambda>_. Some []), de_marshal_validation = (\<lambda>_. Some []), de_randomID = (\<lambda>_. []),
      de_encode = split_encode, de_decode = split_decode,
      de_pack = sample_pack, de_unpack = sample_unpack, de_Sign = (\<lambda>_. (split_digest, [])),
      de_stored_base = (\<lambda>_. Inr (Some split_configuration)),
      de_indexedPolicySource = (\<lambda>i. Inr (Some \<lparr>is_ID = i, is_IndexSHA256 = [], is_Setup = [], is_Rules = []\<rparr>)),
      de_policySourceFiles = (\<lambda>_. Some split_files), de_writeArtifact = (\<lambda>_ _. True), de_now = 0\<rparr>"

lemma split_codec: "codec_ok split_encode split_decode sample_pack sample_unpack"
proof -
  have "decode_ok = (\<forall>m raw. split_encode m = Some raw \<longrightarrow> split_decode (raw @ [newline]) = Some m) \<Longrightarrow> decode_ok" for decode_ok
    unfolding split_encode_def split_decode_def by (simp split: if_split)
  then show ?thesis using sample_codec unfolding codec_ok_def by blast
qed

lemma buildArchive_cong:
  assumes "buildArchive sha e pack source format version files names seed = Inr (raw, m)" "e' m = e m"
  shows "buildArchive sha e' pack source format version files names seed = Inr (raw, m)"
  using assms by (auto simp: buildArchive_def Let_def split: sum.splits if_splits option.splits)

lemma build_split_cong:
  "build_split_base e = Inr (raw, m) \<Longrightarrow> e' m = e m \<Longrightarrow> build_split_base e' = Inr (raw, m)"
  "build_split_override e = Inr (raw, m) \<Longrightarrow> e' m = e m \<Longrightarrow> build_split_override e' = Inr (raw, m)"
  unfolding build_split_base_def build_split_override_def BuildBaseWithCRS_def BuildOverride_def
  by (auto simp: Let_def split: if_splits option.splits intro: buildArchive_cong)

lemma readable_cong: "e' m = e m \<Longrightarrow> readable e' m = readable e m"
  by (simp add: readable_def)

lemma split_base_succeeds:
  "case build_split_base (\<lambda>_. Some []) of Inr (raw, m) \<Rightarrow> readable (\<lambda>_. Some []) m \<and> m_ArtifactFormat m = FormatBase | Inl _ \<Rightarrow> False"
  by code_simp

lemma split_override_succeeds:
  "case build_split_override (\<lambda>_. Some ''o'') of Inr (raw, m) \<Rightarrow> readable (\<lambda>_. Some ''o'') m \<and> m_ArtifactFormat m = FormatOverride | Inl _ \<Rightarrow> False"
  by code_simp

lemma split_base_built:
  obtains raw m files where "build_split_base split_encode = Inr (raw, m)" "Parse sample_sha split_decode sample_unpack raw = Inr (m, files)"
    "m_BasePolicyID m = Reference split_template"
proof -
  obtain raw m where b: "build_split_base (\<lambda>_. Some []) = Inr (raw, m)" "readable (\<lambda>_. Some []) m"
    using split_base_succeeds by (auto split: sum.splits)
  have e: "split_encode m = Some []" using b(1) by (simp add: split_encode_def split_base_manifest_def)
  have r: "build_split_base split_encode = Inr (raw, m)" by (rule build_split_cong(1) [OF b(1)]) (simp add: e)
  have "readable split_encode m" using b(2) readable_cong [of split_encode m "\<lambda>_. Some []"] e by simp
  moreover have "distinct (map fst split_files)" by (simp add: split_files_def)
  ultimately obtain items where "Parse sample_sha split_decode sample_unpack raw = Inr (m, items)" "m_BasePolicyID m = Reference split_template"
    by (rule base_archive_parsed [OF r [unfolded build_split_base_def] split_codec])
  with r show ?thesis by (rule that)
qed

lemma split_override_built:
  obtains raw m files where "build_split_override split_encode = Inr (raw, m)"
    "Parse sample_sha split_decode sample_unpack raw = Inr (m, files)" "m_BasePolicyID m = Reference split_template"
    "m_BaseArtifactSHA256 m = split_digest" "m_ValidationDigest m = sample_sha []"
    "m_EffectiveConfigSHA256 m = pc_ConfigSHA256 split_configuration"
proof -
  obtain raw m where b: "build_split_override (\<lambda>_. Some ''o'') = Inr (raw, m)" "readable (\<lambda>_. Some ''o'') m" "m_ArtifactFormat m = FormatOverride"
    using split_override_succeeds by (auto split: sum.splits)
  have "m_ArtifactFormat split_base_manifest = FormatBase"
    using split_base_succeeds by (auto simp: split_base_manifest_def split: sum.splits)
  then have "m \<noteq> split_base_manifest" using b(3) by auto
  then have e: "split_encode m = Some ''o''" using b(1) by (simp add: split_encode_def split_override_manifest_def)
  have r: "build_split_override split_encode = Inr (raw, m)" by (rule build_split_cong(2) [OF b(1)]) (simp add: e)
  have "readable split_encode m" using b(2) readable_cong [of split_encode m "\<lambda>_. Some ''o''"] e by simp
  then obtain items where "Parse sample_sha split_decode sample_unpack raw = Inr (m, items)" "m_BasePolicyID m = om_BasePolicyID split_metadata"
    "m_BaseArtifactSHA256 m = om_BaseArtifactSHA256 split_metadata" "m_ValidationDigest m = om_ValidationDigest split_metadata"
    "m_EffectiveConfigSHA256 m = om_EffectiveConfigSHA256 split_metadata"
    by (rule override_archive_parsed [OF r [unfolded build_split_override_def] split_codec])
  with that [OF r] show ?thesis by (simp add: split_metadata_def)
qed

lemma split_checks:
  "ValidateAt sample_netip split_configuration 0 = None"
  "validatePolicyComposition sample_sha (\<lambda>_. Some []) split_configuration split_configuration PolicyScalarSourceInherit = None"
  "validateConfigurationRuleIDs split_configuration [] [] = None"
  by code_simp+

lemma split_prepared:
  obtains overrideRaw baseRaw md where
    "prepareSplitPolicyArtifacts split_env split_template split_configuration PolicyScalarSourceInherit None = Inr (overrideRaw, baseRaw, md)"
proof -
  obtain baseRaw mb fb where b: "build_split_base split_encode = Inr (baseRaw, mb)"
    "Parse sample_sha split_decode sample_unpack baseRaw = Inr (mb, fb)" "m_BasePolicyID mb = Reference split_template"
    by (rule split_base_built)
  obtain overrideRaw mo fo where o: "build_split_override split_encode = Inr (overrideRaw, mo)"
    "Parse sample_sha split_decode sample_unpack overrideRaw = Inr (mo, fo)" "m_BasePolicyID mo = Reference split_template"
    "m_BaseArtifactSHA256 mo = split_digest" "m_ValidationDigest mo = sample_sha []"
    "m_EffectiveConfigSHA256 mo = pc_ConfigSHA256 split_configuration"
    by (rule split_override_built)
  let ?t = "split_template" and ?c = "split_configuration"
  obtain oi sn where ov: "policyOverrideFromConfiguration ?c PolicyScalarSourceInherit None = (oi, sn)" by fastforce
  have env: "de_net split_env = sample_netip" "de_sha256_hex split_env = sample_sha" "de_now split_env = 0"
    "de_decode split_env = split_decode" "de_unpack split_env = sample_unpack" "de_encode split_env = split_encode"
    "de_pack split_env = sample_pack" "\<And>x. de_Sign split_env x = (split_digest, [])"
    "de_marshal_overlay split_env = (\<lambda>_. Some [])" "\<And>x. de_marshal_snapshot split_env x = Some []"
    "\<And>x. de_marshal_validation split_env x = Some []" "\<And>x. de_stored_base split_env x = Inr (Some ?c)"
    "\<And>i. de_indexedPolicySource split_env i = Inr (Some \<lparr>is_ID = i, is_IndexSHA256 = [], is_Setup = [], is_Rules = []\<rparr>)"
    "\<And>x. de_policySourceFiles split_env x = Some split_files" "\<And>x y. de_writeArtifact split_env x y"
    by (simp_all add: split_env_def)
  have t: "d_CRSSource (t_Defaults ?t) = Some sample_source" "d_ArtifactFormat (t_Defaults ?t) = FormatV3"
    "pc_CRSReleaseID ?c = src_ID sample_source" by (simp_all add: split_template_def split_configuration_def)
  have render: "\<exists>md. render_split split_env ?t sample_source ?c ?c source split_files PolicyScalarSourceInherit None =
      Inr (overrideRaw, baseRaw, md)" for source
    using b o unfolding render_split_def env build_split_base_def build_split_override_def ov split_metadata_def by (simp add: env Let_def)
  have "prepareSplitPolicyArtifacts split_env ?t ?c PolicyScalarSourceInherit None =
      render_split split_env ?t sample_source ?c ?c \<lparr>is_ID = src_ID sample_source, is_IndexSHA256 = [], is_Setup = [], is_Rules = []\<rparr>
        split_files PolicyScalarSourceInherit None"
    unfolding prepareSplitPolicyArtifacts_def base_configuration_def env t by (simp add: env t split_checks)
  then obtain md where r: "prepareSplitPolicyArtifacts split_env ?t ?c PolicyScalarSourceInherit None = Inr (overrideRaw, baseRaw, md)"
    using render by auto
  then show ?thesis by (rule that)
qed

lemma split_delivery_consistent_witness:
  "\<exists>overrideRaw baseRaw md m files.
     prepareSplitPolicyArtifacts split_env split_template split_configuration PolicyScalarSourceInherit None = Inr (overrideRaw, baseRaw, md) \<and>
     Parse sample_sha split_decode sample_unpack overrideRaw = Inr (m, files) \<and> m_BaseArtifactSHA256 m = split_digest"
proof -
  obtain overrideRaw baseRaw md where
    r: "prepareSplitPolicyArtifacts split_env split_template split_configuration PolicyScalarSourceInherit None = Inr (overrideRaw, baseRaw, md)"
    by (rule split_prepared)
  have "de_sha256_hex split_env = sample_sha" "de_decode split_env = split_decode" "de_unpack split_env = sample_unpack"
    "\<And>x. de_Sign split_env x = (split_digest, [])" by (simp_all add: split_env_def)
  with split_delivery_consistent [OF r] r show ?thesis by auto
qed


text \<open>
  With inherited scalars the override renders no CRS setup: enterprise setup values are listed in
  the snapshot whose digest is signed, and are absent from the rendered file.
\<close>

lemma inherited_override_drops_setup:
  "override_setup (fst (policyOverrideFromConfiguration c PolicyScalarSourceInherit so)) =
     line_of ''# Enterprise policy inherits base CRS setup.''"
  "os_Setup (snd (policyOverrideFromConfiguration c PolicyScalarSourceInherit so)) =
     filter (\<lambda>s. sv_SourceScope s = PolicyScopeEnterprise) (pc_Setup c)"
  by (simp_all add: override_setup_def policyOverrideFromConfiguration_def Let_def)

end
