(* ===== verification/Policy_Revision.thy ===== *)
theory Policy_Revision
  imports Policy_Delivery
begin

text \<open>
  Preparing a policy revision, \<^verbatim>\<open>preparePolicyRevision\<close> and \<^verbatim>\<open>prepareTransitionRevision\<close> of
  \<^verbatim>\<open>src/internal/manager/system_policy_sync.go\<close>: the settings of an enterprise policy are resolved against
  its template, structured, checked against the CRS release and rendered as a signed artifact in the
  delivery format of the template. The random identifier drawn first is an argument.
\<close>

record revision_env =
  re_delivery :: delivery_env
  re_marshal_settings :: "PolicySettings \<Rightarrow> string option"
  re_unmarshal_settings :: "string \<Rightarrow> PolicySettings option"

record PolicyRevisionInput =
  pr_ID :: string
  pr_SystemPolicyVersionID :: string
  pr_ParentRevisionID :: string
  pr_Name :: string
  pr_Description :: string
  pr_Mode :: string
  pr_Settings :: PolicySettings
  pr_ArtifactPath :: string
  pr_ArtifactSHA256 :: string
  pr_ArtifactSignature :: string
  pr_PolicyOrigin :: string
  pr_Configuration :: PolicyConfiguration

datatype revision_error =
    ScalarsUnresolved scalar_error
  | ArtifactFailed artifact_error
  | SettingsNotDecodable
  | ConfigurationFailed config_error
  | PolicyMigrationRequired
  | BundleNeedsSource
  | IndexStoreFailed
  | IndexUnavailable
  | ReleaseRejected release_error
  | SplitFailed delivery_error
  | BuildFailed bundle_error
  | RevisionSettingsNotEncodable
  | RevisionNotWritten

definition revision_metadata :: "PolicySettings \<Rightarrow> string \<Rightarrow> ManagedPolicyMetadata" where
  "revision_metadata s parentRevisionID =
     \<lparr>mm_SchemaVersion = s_SchemaVersion s, mm_TemplateKey = s_TemplateKey s, mm_TemplateVersion = s_TemplateVersion s,
      mm_CRSTrack = s_CRSTrack s, mm_CRSVersion = s_CRSVersion s, mm_Target = s_Target s, mm_AutoUpdate = s_AutoUpdate s,
      mm_PolicyOrigin = s_PolicyOrigin s, mm_MigrationStatus = s_MigrationStatus s, mm_MigratedFrom = parentRevisionID\<rparr>"

text \<open>The fields the artifact builder does not carry are copied from the resolved settings.\<close>

definition carry_settings :: "PolicySettings \<Rightarrow> PolicySettings \<Rightarrow> PolicySettings" where
  "carry_settings s normalized = normalized\<lparr>
     s_ExecutingParanoiaLevel := s_ExecutingParanoiaLevel s, s_OutboundScore := s_OutboundScore s,
     s_ResponseBody := s_ResponseBody s, s_EarlyBlocking := s_EarlyBlocking s, s_SamplingPercentage := s_SamplingPercentage s,
     s_LegacyPolicyConfirmed := s_LegacyPolicyConfirmed s, s_ScalarSource := s_ScalarSource s,
     s_ScalarOverrides := s_ScalarOverrides s, s_Exclusions := s_Exclusions s\<rparr>"

definition settle_scalars :: "PolicyConfiguration \<Rightarrow> bool \<Rightarrow> string \<Rightarrow> PolicySettings \<Rightarrow> PolicySettings" where
  "settle_scalars c legacy origin normalized =
     (let n = normalized\<lparr>
        s_ParanoiaLevel := pc_BlockingParanoiaLevel c, s_ExecutingParanoiaLevel := pc_ExecutingParanoiaLevel c,
        s_InboundScore := pc_InboundAnomalyThreshold c, s_OutboundScore := pc_OutboundAnomalyThreshold c,
        s_RequestBody := pc_RequestBodyAccess c, s_ResponseBody := pc_ResponseBodyAccess c,
        s_EarlyBlocking := pc_EarlyBlocking c, s_SamplingPercentage := pc_SamplingPercentage c\<rparr>
      in if \<not> legacy \<or> origin = ''system-migration'' then n\<lparr>s_LegacyPolicyConfirmed := False\<rparr> else n)"

definition migration_needed :: "PolicyConfiguration \<Rightarrow> bool \<Rightarrow> string \<Rightarrow> PolicySettings \<Rightarrow> bool" where
  "migration_needed c legacy origin settings \<longleftrightarrow>
     list_ex cr_LegacyIDRange (pc_CustomRules c) \<or>
     legacy \<and> (origin = ''administrator'' \<or> origin = ''system-migration'' \<and> \<not> s_LegacyPolicyConfirmed settings)"

text \<open>The artifact of the template's delivery format, the settings that name it and the file extension.\<close>

definition revision_artifact ::
  "revision_env \<Rightarrow> Template \<Rightarrow> PolicyConfiguration \<Rightarrow> string \<Rightarrow> PolicySettings \<Rightarrow> revision_error + (string \<times> PolicySettings \<times> string)" where
  "revision_artifact env t c artifact normalized =
     (let d = t_Defaults t; de = re_delivery env
      in if d_ArtifactFormat d \<noteq> Format \<and> d_ArtifactFormat d \<noteq> FormatV3 then Inr (artifact, normalized, ''.conf'')
         else case d_CRSSource d of None \<Rightarrow> Inl BundleNeedsSource | Some crsSource \<Rightarrow>
           (case de_indexedPolicySource de (pc_CRSReleaseID c) of
              Inl _ \<Rightarrow> Inl IndexStoreFailed
            | Inr None \<Rightarrow> Inl IndexUnavailable
            | Inr (Some source) \<Rightarrow>
                (case validateConfigurationRuleIDs c (is_Setup source) (is_Rules source) of
                   Some e \<Rightarrow> Inl (ReleaseRejected e)
                 | None \<Rightarrow>
                     if d_ArtifactFormat d = FormatV3
                     then (case prepareSplitPolicyArtifacts de t c (s_ScalarSource normalized) (s_ScalarOverrides normalized) of
                             Inl e \<Rightarrow> Inl (SplitFailed e)
                           | Inr (overrideRaw, _, md) \<Rightarrow>
                               Inr (overrideRaw, normalized\<lparr>s_Delivery := Some md, s_ArtifactFormat := FormatOverride\<rparr>, ''.override.tar.gz''))
                     else (case Build (de_sha256_hex de) (de_encode de) (de_pack de) crsSource (policyBundleInputFromConfiguration c) of
                             Inl e \<Rightarrow> Inl (BuildFailed e)
                           | Inr (raw, _) \<Rightarrow> Inr (raw, normalized\<lparr>s_ArtifactFormat := Format\<rparr>, ''.tar.gz'')))))"

definition preparePolicyRevision ::
  "revision_env \<Rightarrow> string \<Rightarrow> Template \<Rightarrow> string \<Rightarrow> string \<Rightarrow> string \<Rightarrow> PolicySettings \<Rightarrow> string \<Rightarrow> string \<Rightarrow>
   revision_error + PolicyRevisionInput" where
  "preparePolicyRevision env revisionID t name description mode settings parentRevisionID origin =
     (case resolvePolicyScalars t mode settings of
        Inl e \<Rightarrow> Inl (ScalarsUnresolved e)
      | Inr (mode', s) \<Rightarrow>
          (let de = re_delivery env
           in case buildEnterprisePolicyArtifact (na_ParseIP (de_net de)) (na_ParseCIDR (de_net de)) (re_marshal_settings env) t mode'
                     (s_ParanoiaLevel s) (s_InboundScore s) (s_RequestBody s) (join [newline] (s_ExcludedPaths s))
                     (join [newline] (s_ExcludedIPs s)) (s_CustomRules s) (revision_metadata s parentRevisionID) of
                Inl e \<Rightarrow> Inl (ArtifactFailed e)
              | Inr (artifact, settingsJSON) \<Rightarrow>
                  (case re_unmarshal_settings env settingsJSON of
                     None \<Rightarrow> Inl SettingsNotDecodable
                   | Some decoded \<Rightarrow>
                       (case structuredConfigurationFromPolicy (de_net de) (de_sha256_hex de) (de_marshal_config de) (de_randomID de)
                               (de_now de) [] revisionID t mode' (carry_settings s decoded) of
                          Inl e \<Rightarrow> Inl (ConfigurationFailed e)
                        | Inr (c, legacy) \<Rightarrow>
                            if migration_needed c legacy origin s then Inl PolicyMigrationRequired
                            else (case revision_artifact env t c artifact (settle_scalars c legacy origin (carry_settings s decoded)) of
                                    Inl e \<Rightarrow> Inl e
                                  | Inr (raw, normalized, extension) \<Rightarrow>
                                      if re_marshal_settings env normalized = None then Inl RevisionSettingsNotEncodable
                                      else (let (hash, signature) = de_Sign de raw; path = ''policies/'' @ revisionID @ extension
                                            in if \<not> de_writeArtifact de path raw then Inl RevisionNotWritten
                                               else Inr \<lparr>pr_ID = revisionID, pr_SystemPolicyVersionID = Reference t,
                                                 pr_ParentRevisionID = parentRevisionID, pr_Name = take 255 name,
                                                 pr_Description = take 1024 description, pr_Mode = mode', pr_Settings = normalized,
                                                 pr_ArtifactPath = path, pr_ArtifactSHA256 = hash, pr_ArtifactSignature = signature,
                                                 pr_PolicyOrigin = origin, pr_Configuration = c\<rparr>))))))"

text \<open>The minimal DetectionOnly policy a server runs while its CRS package is exchanged.\<close>

definition transition_settings :: "Template \<Rightarrow> string \<Rightarrow> PolicySettings" where
  "transition_settings t target =
     (managed_settings
        \<lparr>mm_SchemaVersion = t_SchemaVersion t, mm_TemplateKey = t_Key t, mm_TemplateVersion = t_Version t, mm_CRSTrack = t_CRSTrack t,
         mm_CRSVersion = t_CRSVersion t, mm_Target = target, mm_AutoUpdate = False, mm_PolicyOrigin = ''system-transition'',
         mm_MigrationStatus = ''TRANSITION'', mm_MigratedFrom = []\<rparr> 1 5 True [] [] [] 0)
     \<lparr>s_ExecutingParanoiaLevel := 1, s_OutboundScore := 4, s_SamplingPercentage := 100\<rparr>"

definition legacy_template :: "Template \<Rightarrow> Template" where
  "legacy_template t = t\<lparr>t_Defaults := (t_Defaults t)\<lparr>d_ArtifactFormat := [], d_CRSSource := None\<rparr>\<rparr>"

definition prepareTransitionRevision ::
  "revision_env \<Rightarrow> string \<Rightarrow> Template \<Rightarrow> string \<Rightarrow> string \<Rightarrow> string \<Rightarrow> string \<Rightarrow> revision_error + PolicyRevisionInput" where
  "prepareTransitionRevision env revisionID t name description policyTarget parentRevisionID =
     preparePolicyRevision env revisionID (legacy_template t) name description
       ''DetectionOnly'' (transition_settings t policyTarget) parentRevisionID ''system-transition''"

section \<open>Properties\<close>

lemma structured_validates:
  "structuredConfigurationFromPolicy net sha marshal rid now sid ownerID t mode s = Inr (c, legacy) \<Longrightarrow> ValidateAt net c now = None"
  by (auto simp: structuredConfigurationFromPolicy_def split: sum.splits option.splits)

lemma preparePolicyRevision_parts:
  assumes "preparePolicyRevision env rid t name description mode settings parent origin = Inr r"
  obtains s decoded legacy artifact extension raw where
    "structuredConfigurationFromPolicy (de_net (re_delivery env)) (de_sha256_hex (re_delivery env)) (de_marshal_config (re_delivery env))
       (de_randomID (re_delivery env)) (de_now (re_delivery env)) [] rid t (pr_Mode r) (carry_settings s decoded) = Inr (pr_Configuration r, legacy)"
    "resolvePolicyScalars t mode settings = Inr (pr_Mode r, s)"
    "\<not> migration_needed (pr_Configuration r) legacy origin s"
    "revision_artifact env t (pr_Configuration r) artifact (settle_scalars (pr_Configuration r) legacy origin (carry_settings s decoded)) =
       Inr (raw, pr_Settings r, extension)"
    "pr_ArtifactPath r = ''policies/'' @ rid @ extension" "de_Sign (re_delivery env) raw = (pr_ArtifactSHA256 r, pr_ArtifactSignature r)"
    "de_writeArtifact (re_delivery env) (pr_ArtifactPath r) raw"
  using assms that
  by (auto simp: preparePolicyRevision_def Let_def split: sum.splits option.splits if_splits prod.splits)


lemma revision_artifact_scalars:
  assumes "revision_artifact env t c artifact n = Inr (raw, n', ext)"
  shows "s_ParanoiaLevel n' = s_ParanoiaLevel n" "s_ExecutingParanoiaLevel n' = s_ExecutingParanoiaLevel n"
    "s_InboundScore n' = s_InboundScore n" "s_OutboundScore n' = s_OutboundScore n" "s_RequestBody n' = s_RequestBody n"
    "s_ResponseBody n' = s_ResponseBody n" "s_EarlyBlocking n' = s_EarlyBlocking n" "s_SamplingPercentage n' = s_SamplingPercentage n"
  using assms by (auto simp: revision_artifact_def Let_def split: sum.splits option.splits if_splits)

lemma revision_artifact_split:
  assumes "revision_artifact env t c artifact n = Inr (raw, n', ext)" "d_ArtifactFormat (t_Defaults t) = FormatV3"
  obtains baseRaw md ss so where "prepareSplitPolicyArtifacts (re_delivery env) t c ss so = Inr (raw, baseRaw, md)" "s_Delivery n' = Some md"
    "s_ArtifactFormat n' = FormatOverride"
  using assms that by (auto simp: revision_artifact_def Let_def split: sum.splits option.splits if_splits)

lemma settle_scalars_simps:
  "s_ParanoiaLevel (settle_scalars c l org n) = pc_BlockingParanoiaLevel c"
  "s_ExecutingParanoiaLevel (settle_scalars c l org n) = pc_ExecutingParanoiaLevel c"
  "s_InboundScore (settle_scalars c l org n) = pc_InboundAnomalyThreshold c"
  "s_OutboundScore (settle_scalars c l org n) = pc_OutboundAnomalyThreshold c"
  "s_RequestBody (settle_scalars c l org n) = pc_RequestBodyAccess c"
  "s_ResponseBody (settle_scalars c l org n) = pc_ResponseBodyAccess c"
  "s_EarlyBlocking (settle_scalars c l org n) = pc_EarlyBlocking c"
  "s_SamplingPercentage (settle_scalars c l org n) = pc_SamplingPercentage c"
  by (simp_all add: settle_scalars_def Let_def)

text \<open>The delivery record of a split revision names the digest the override is pinned to.\<close>

lemma split_override_pinned:
  assumes "prepareSplitPolicyArtifacts env t c ss so = Inr (raw, baseRaw, md)"
  shows "\<exists>m files. Parse (de_sha256_hex env) (de_decode env) (de_unpack env) raw = Inr (m, files) \<and>
    m_BaseArtifactSHA256 m = dm_BaseArtifactSHA256 md \<and> m_ValidationDigest m = dm_ValidationDigest md"
proof -
  obtain crsSource b source files where r: "render_split env t crsSource b c source files ss so = Inr (raw, baseRaw, md)"
    by (rule prepareSplit_parts [OF assms])
  then show ?thesis using render_split_parts [OF r] by auto
qed

text \<open>C30:
  every revision that is prepared is safe to deploy. Its configuration validates, so that its rule
  identifiers are distinct; none of its rules is outside the current identifier ranges; the stored
  settings state the eight scalars of the configuration (both paranoia levels, both thresholds, access to the
  bodies of requests and responses, early blocking and sampling); the digest and the signature are those of the
  artifact written under its path; and a split revision pins the base artifact its delivery record names.
\<close>

theorem prepared_revision_sound:
  assumes "preparePolicyRevision env rid t name description mode settings parent origin = Inr r"
  shows "ValidateAt (de_net (re_delivery env)) (pr_Configuration r) (de_now (re_delivery env)) = None \<and>
    distinct (config_rule_ids (pr_Configuration r)) \<and> list_all (\<lambda>rule. \<not> cr_LegacyIDRange rule) (pc_CustomRules (pr_Configuration r)) \<and>
    s_ParanoiaLevel (pr_Settings r) = pc_BlockingParanoiaLevel (pr_Configuration r) \<and>
    s_ExecutingParanoiaLevel (pr_Settings r) = pc_ExecutingParanoiaLevel (pr_Configuration r) \<and>
    s_InboundScore (pr_Settings r) = pc_InboundAnomalyThreshold (pr_Configuration r) \<and>
    s_OutboundScore (pr_Settings r) = pc_OutboundAnomalyThreshold (pr_Configuration r) \<and>
    s_RequestBody (pr_Settings r) = pc_RequestBodyAccess (pr_Configuration r) \<and>
    s_ResponseBody (pr_Settings r) = pc_ResponseBodyAccess (pr_Configuration r) \<and>
    s_EarlyBlocking (pr_Settings r) = pc_EarlyBlocking (pr_Configuration r) \<and>
    s_SamplingPercentage (pr_Settings r) = pc_SamplingPercentage (pr_Configuration r) \<and>
    (\<exists>raw. de_Sign (re_delivery env) raw = (pr_ArtifactSHA256 r, pr_ArtifactSignature r) \<and>
       de_writeArtifact (re_delivery env) (pr_ArtifactPath r) raw \<and>
       (d_ArtifactFormat (t_Defaults t) = FormatV3 \<longrightarrow>
          (\<exists>m files md. Parse (de_sha256_hex (re_delivery env)) (de_decode (re_delivery env)) (de_unpack (re_delivery env)) raw = Inr (m, files) \<and>
             s_Delivery (pr_Settings r) = Some md \<and> m_BaseArtifactSHA256 m = dm_BaseArtifactSHA256 md)))"
proof -
  let ?c = "pr_Configuration r" and ?d = "re_delivery env"
  obtain s decoded legacy artifact extension raw where
    c: "structuredConfigurationFromPolicy (de_net ?d) (de_sha256_hex ?d) (de_marshal_config ?d) (de_randomID ?d) (de_now ?d) [] rid t
      (pr_Mode r) (carry_settings s decoded) = Inr (?c, legacy)"
    and ok: "\<not> migration_needed ?c legacy origin s"
    and a: "revision_artifact env t ?c artifact (settle_scalars ?c legacy origin (carry_settings s decoded)) = Inr (raw, pr_Settings r, extension)"
    and w: "de_Sign ?d raw = (pr_ArtifactSHA256 r, pr_ArtifactSignature r)" "de_writeArtifact ?d (pr_ArtifactPath r) raw"
    by (rule preparePolicyRevision_parts [OF assms])
  have v: "ValidateAt (de_net ?d) ?c (de_now ?d) = None" by (rule structured_validates [OF c])
  have "list_all (\<lambda>rule. \<not> cr_LegacyIDRange rule) (pc_CustomRules ?c)"
    using ok by (auto simp: migration_needed_def list_ex_iff list_all_iff)
  moreover have "\<exists>m files md. Parse (de_sha256_hex ?d) (de_decode ?d) (de_unpack ?d) raw = Inr (m, files) \<and>
      s_Delivery (pr_Settings r) = Some md \<and> m_BaseArtifactSHA256 m = dm_BaseArtifactSHA256 md"
    if v3: "d_ArtifactFormat (t_Defaults t) = FormatV3"
  proof -
    obtain baseRaw md ss so where "prepareSplitPolicyArtifacts ?d t ?c ss so = Inr (raw, baseRaw, md)" "s_Delivery (pr_Settings r) = Some md"
      by (rule revision_artifact_split [OF a v3])
    then show ?thesis using split_override_pinned by blast
  qed
  ultimately show ?thesis
    using v ValidateAt_distinct_ids [OF v] revision_artifact_scalars [OF a] settle_scalars_simps w by auto
qed

definition revision_sample_env :: revision_env where
  "revision_sample_env = \<lparr>re_delivery = split_env, re_marshal_settings = (\<lambda>_. Some []),
     re_unmarshal_settings = (\<lambda>_. Some (transition_settings baseline_template []))\<rparr>"

lemma prepared_revision_sound_witness:
  "\<exists>r. prepareTransitionRevision revision_sample_env ''rev-1'' baseline_template ''transition'' [] [] ''rev-0'' = Inr r \<and>
     list_all (\<lambda>rule. \<not> cr_LegacyIDRange rule) (pc_CustomRules (pr_Configuration r)) \<and> pr_ArtifactSHA256 r = split_digest"
proof -
  let ?r = "prepareTransitionRevision revision_sample_env ''rev-1'' baseline_template ''transition'' [] [] ''rev-0''"
  have "isl ?r = False" by code_simp
  then obtain r where r: "?r = Inr r" by (cases ?r) auto
  have "de_Sign (re_delivery revision_sample_env) = (\<lambda>_. (split_digest, []))" by (simp add: revision_sample_env_def split_env_def)
  with prepared_revision_sound [OF r [unfolded prepareTransitionRevision_def]] r show ?thesis by auto
qed

text \<open>
  the revision a server runs while its CRS package is exchanged never blocks a request: it is a
  DetectionOnly policy with the legacy single-file format, whatever the format of the target template.
\<close>

theorem transition_revision_detection_only:
  assumes "prepareTransitionRevision env rid t name description target parent = Inr r"
  shows "pr_Mode r = ''DetectionOnly'' \<and> pr_ArtifactPath r = ''policies/'' @ rid @ ''.conf'' \<and>
    pr_SystemPolicyVersionID r = Reference t \<and> pr_PolicyOrigin r = ''system-transition''"
proof -
  let ?t = "legacy_template t"
  have p: "preparePolicyRevision env rid ?t name description ''DetectionOnly'' (transition_settings t target) parent ''system-transition'' = Inr r"
    using assms by (simp add: prepareTransitionRevision_def)
  obtain s decoded legacy artifact extension raw where
    m: "resolvePolicyScalars ?t ''DetectionOnly'' (transition_settings t target) = Inr (pr_Mode r, s)"
    and a: "revision_artifact env ?t (pr_Configuration r) artifact (settle_scalars (pr_Configuration r) legacy ''system-transition''
      (carry_settings s decoded)) = Inr (raw, pr_Settings r, extension)" and path: "pr_ArtifactPath r = ''policies/'' @ rid @ extension"
    by (rule preparePolicyRevision_parts [OF p])
  have "extension = ''.conf''" using a by (simp add: revision_artifact_def legacy_template_def Format_def FormatV3_def Let_def)
  moreover have "pr_Mode r = ''DetectionOnly''"
    using m by (auto simp: resolvePolicyScalars_def transition_settings_def managed_settings_def PolicyScalarSourceInherit_def
        PolicyScalarSourceCustom_def Let_def split: if_splits option.splits)
  moreover have "pr_SystemPolicyVersionID r = Reference ?t \<and> pr_PolicyOrigin r = ''system-transition''"
    using p by (auto simp: preparePolicyRevision_def Let_def split: sum.splits option.splits if_splits prod.splits)
  ultimately show ?thesis using path by (simp add: Reference_def legacy_template_def)
qed

lemma transition_revision_detection_only_witness:
  "\<exists>r. prepareTransitionRevision revision_sample_env ''rev-1'' baseline_template ''transition'' [] [] ''rev-0'' = Inr r \<and>
     pr_Mode r = ''DetectionOnly''"
proof -
  let ?r = "prepareTransitionRevision revision_sample_env ''rev-1'' baseline_template ''transition'' [] [] ''rev-0''"
  have "isl ?r = False" by code_simp
  then obtain r where r: "?r = Inr r" by (cases ?r) auto
  from transition_revision_detection_only [OF r] r show ?thesis by auto
qed

end
