(* ===== verification/Rollout_Store.thy ===== *)
theory Rollout_Store
  imports Policy_Delivery
begin

text \<open>
  The database operations of staged policy rollouts,
  \<^verbatim>\<open>src/internal/manager/store_policy_domains.go\<close> and \<^verbatim>\<open>store_policy_membership.go\<close>. A table is a
  list of records, an \<^verbatim>\<open>UPDATE ... WHERE\<close> is \<open>update_where\<close>, a transaction is a function from
  the database to an error or the new database, so that an error leaves it unchanged.
  \<^verbatim>\<open>RowsAffected\<close> is \<open>changed_rows\<close>: the driver is configured without \<^verbatim>\<open>clientFoundRows\<close>
  (\<^verbatim>\<open>config/manager.go\<close>), so that a row that keeps all its values is not counted. A NULL identifier is
  the empty string, as the queries read it (\<^verbatim>\<open>COALESCE(x,'')\<close>). The message texts of the detail columns
  are the errors they render. Failures of the connection, the columns with display names, users and
  start and completion times are left out.
\<close>

section \<open>Tables\<close>

datatype rollout_type = SEED | UPDATE | ROLLBACK | RECOVERY

datatype rollout_status =
    AWAITING_APPROVAL | QUEUED | CANARY | EXPANDING | PAUSED | R_APPLIED | R_FAILED | CANCELLED

datatype target_status =
    T_PENDING | DEFERRED | TRANSITION_PENDING | PACKAGE_PENDING | POLICY_PENDING | ROLLBACK_PENDING
  | T_APPLIED | T_FAILED | ROLLED_BACK

datatype deployment_status = D_PENDING | D_APPLIED | D_FAILED | SUPERSEDED

datatype rollout_error =
    ErrNoRows
  | RevisionChanged
  | ActiveRolloutExists
  | ServerHasActiveRollout
  | NoActiveServer
  | ErrEnterpriseNotActive
  | CanaryChanged
  | UnfinishedTargets
  | InvalidTargetStatus
  | ForeignKeyFails
  | DuplicateKey
  | InvalidStrategy
  | PinnedByUser
  | NoDeployableRevision
  | MoveNotUnassigned
  | MoveRolledBack
  | ServerOffline
  | TemplateUnavailable
  | TemplateWithdrawn
  | SplitUnsupported
  | TransitionPolicyFailed
  | PackageFailed
  | FinalPolicyFailed
  | CatalogUnavailable
  | ServerNotReady
  | ManualConnector
  | PackageUnresolved
  | SourceVersionUnavailable
  | RevisionNotPrepared
  | CanaryOffline
  | CanaryVersionDiffers
  | CanaryRevisionUnknown
  | BlockedRateExceeded int int
  | Joined "rollout_error list"

type_synonym detail = "rollout_error option"

record PolicyRolloutRecord =
  ro_ID :: string
  ro_EnterprisePolicyID :: string
  ro_EnterpriseID :: string
  ro_Type :: rollout_type
  ro_Status :: rollout_status
  ro_FromRevisionID :: string
  ro_TargetSystemPolicyVersionID :: string
  ro_TargetRevisionID :: string
  ro_ExpectedRevisionID :: string
  ro_Detail :: detail

record target_row =
  pt_RolloutID :: string
  pt_ServerID :: string
  pt_BatchNo :: nat
  pt_Status :: target_status
  pt_ResumeStatus :: "target_status option"
  pt_SourceAgentPackageID :: string
  pt_SourceModulePackageID :: string
  pt_SourceRevisionID :: string
  pt_TargetAgentPackageID :: string
  pt_TargetModulePackageID :: string
  pt_TransitionRevisionID :: string
  pt_FinalRevisionID :: string
  pt_PackageDeploymentID :: string
  pt_Detail :: detail
  pt_StabilizedAt :: "time option"

record server_inventory =
  inv_CRSVersion :: string
  inv_PolicyFormats :: "string list"
  inv_InstallationStage :: string
  inv_InstallationMode :: string
  inv_ConnectorLoaded :: bool
  inv_ConfigTestOK :: bool

record server_row =
  srv_ID :: string
  srv_EnterpriseID :: string
  srv_Name :: string
  srv_Revoked :: bool
  srv_LastHeartbeatAt :: time
  srv_Inventory :: server_inventory
  srv_PolicyRevision :: string

record desired_state =
  ds_ServerID :: string
  ds_PolicyRevisionID :: string
  ds_AgentPackageID :: string
  ds_ModulePackageID :: string
  ds_PackageDeploymentID :: string

record policy_deployment =
  pd_ServerID :: string
  pd_PolicyRevisionID :: string
  pd_Status :: deployment_status
  pd_RolloutID :: string

record package_deployment =
  kd_ID :: string
  kd_ServerID :: string
  kd_AgentPackageID :: string
  kd_ModulePackageID :: string
  kd_Status :: deployment_status
  kd_RolloutID :: string

record policy_row =
  ep_ID :: string
  ep_EnterpriseID :: string
  ep_Target :: string
  ep_UpdateStrategy :: string
  ep_Status :: string
  ep_CurrentRevisionID :: string
  ep_PreviousRevisionID :: string
  ep_CurrentSystemPolicyID :: string

record revision_row =
  rv_ID :: string
  rv_EnterprisePolicyID :: string
  rv_SystemPolicyVersionID :: string
  rv_ArtifactFormat :: string

record incident_row =
  si_AgentID :: string
  si_Blocked :: bool
  si_OccurredAt :: time
  si_PolicyRevision :: string

text \<open>The database. \<open>db_ids\<close> counts the random identifiers drawn so far.\<close>

record database =
  db_active_enterprises :: "string list"
  db_policies :: "policy_row list"
  db_revisions :: "revision_row list"
  db_rollouts :: "PolicyRolloutRecord list"
  db_targets :: "target_row list"
  db_servers :: "server_row list"
  db_desired :: "desired_state list"
  db_policy_deployments :: "policy_deployment list"
  db_package_deployments :: "package_deployment list"
  db_policy_servers :: "(string \<times> string) list"
  db_incidents :: "incident_row list"
  db_ids :: nat

definition update_where :: "('a \<Rightarrow> bool) \<Rightarrow> ('a \<Rightarrow> 'a) \<Rightarrow> 'a list \<Rightarrow> 'a list" where
  "update_where P f rows = map (\<lambda>r. if P r then f r else r) rows"

definition changed_rows :: "('a \<Rightarrow> bool) \<Rightarrow> ('a \<Rightarrow> 'a) \<Rightarrow> 'a list \<Rightarrow> nat" where
  "changed_rows P f rows = length (filter (\<lambda>r. P r \<and> f r \<noteq> r) rows)"

section \<open>Queries\<close>

definition is_active :: "rollout_status \<Rightarrow> bool" where
  "is_active s \<longleftrightarrow> s \<in> {AWAITING_APPROVAL, QUEUED, CANARY, EXPANDING, PAUSED}"

definition finished :: "target_status \<Rightarrow> bool" where
  "finished s \<longleftrightarrow> s = T_APPLIED \<or> s = ROLLED_BACK"

definition policy_row_of :: "database \<Rightarrow> string \<Rightarrow> policy_row option" where
  "policy_row_of db i = find (\<lambda>p. ep_ID p = i) (db_policies db)"

definition rollout_row_of :: "database \<Rightarrow> string \<Rightarrow> PolicyRolloutRecord option" where
  "rollout_row_of db i = find (\<lambda>r. ro_ID r = i) (db_rollouts db)"

definition server_row_of :: "database \<Rightarrow> string \<Rightarrow> server_row option" where
  "server_row_of db i = find (\<lambda>r. srv_ID r = i) (db_servers db)"

definition desired_of :: "database \<Rightarrow> string \<Rightarrow> desired_state option" where
  "desired_of db i = find (\<lambda>r. ds_ServerID r = i) (db_desired db)"

definition revision_exists :: "database \<Rightarrow> string \<Rightarrow> bool" where
  "revision_exists db i \<longleftrightarrow> list_ex (\<lambda>r. rv_ID r = i) (db_revisions db)"

definition lockActiveEnterprise :: "database \<Rightarrow> string \<Rightarrow> bool" where
  "lockActiveEnterprise db enterpriseID \<longleftrightarrow> List.member (db_active_enterprises db) enterpriseID"

definition EnterprisePolicyByID :: "database \<Rightarrow> string \<Rightarrow> string \<Rightarrow> rollout_error + policy_row" where
  "EnterprisePolicyByID db scopeEnterpriseID i =
     (case find (\<lambda>p. ep_ID p = i \<and> (scopeEnterpriseID = [] \<or> ep_EnterpriseID p = scopeEnterpriseID)) (db_policies db) of
        None \<Rightarrow> Inl ErrNoRows | Some p \<Rightarrow> Inr p)"

definition PolicyRevisionByID :: "database \<Rightarrow> string \<Rightarrow> string \<Rightarrow> rollout_error + revision_row" where
  "PolicyRevisionByID db enterprisePolicyID revisionID =
     (case find (\<lambda>r. rv_ID r = revisionID \<and> rv_EnterprisePolicyID r = enterprisePolicyID) (db_revisions db) of
        None \<Rightarrow> Inl ErrNoRows | Some r \<Rightarrow> Inr r)"

definition revision_owner :: "database \<Rightarrow> string \<Rightarrow> string \<Rightarrow> (policy_row \<times> revision_row) option" where
  "revision_owner db enterpriseID revisionID =
     (case find (\<lambda>r. rv_ID r = revisionID) (db_revisions db) of
        None \<Rightarrow> None
      | Some r \<Rightarrow> (case policy_row_of db (rv_EnterprisePolicyID r) of
            None \<Rightarrow> None
          | Some p \<Rightarrow> if ep_EnterpriseID p = enterpriseID then Some (p, r) else None))"

definition PolicyRevisionSystemVersion :: "database \<Rightarrow> string \<Rightarrow> string \<Rightarrow> rollout_error + string" where
  "PolicyRevisionSystemVersion db enterpriseID revisionID =
     (case revision_owner db enterpriseID revisionID of None \<Rightarrow> Inl ErrNoRows | Some (p, r) \<Rightarrow> Inr (rv_SystemPolicyVersionID r))"

definition PolicyRevisionOwner :: "database \<Rightarrow> string \<Rightarrow> string \<Rightarrow> rollout_error + (string \<times> string)" where
  "PolicyRevisionOwner db enterpriseID revisionID =
     (case revision_owner db enterpriseID revisionID of None \<Rightarrow> Inl ErrNoRows | Some (p, r) \<Rightarrow> Inr (ep_ID p, rv_SystemPolicyVersionID r))"

definition CountBlockedEvents :: "database \<Rightarrow> string \<Rightarrow> time \<Rightarrow> time \<Rightarrow> string \<Rightarrow> int" where
  "CountBlockedEvents db serverID from to policyRevision =
     len (filter (\<lambda>i. si_AgentID i = serverID \<and> si_Blocked i \<and> from \<le> si_OccurredAt i \<and> si_OccurredAt i < to \<and>
       (policyRevision = [] \<or> si_PolicyRevision i = policyRevision)) (db_incidents db))"

definition PolicyUpdateBlocked :: "database \<Rightarrow> string \<Rightarrow> string \<Rightarrow> bool" where
  "PolicyUpdateBlocked db policyID targetSystemVersionID \<longleftrightarrow>
     list_ex (\<lambda>r. ro_EnterprisePolicyID r = policyID \<and>
       (is_active (ro_Status r) \<or>
        ro_Type r = UPDATE \<and> ro_TargetSystemPolicyVersionID r = targetSystemVersionID \<and> ro_Status r = R_FAILED)) (db_rollouts db)"

definition ListPolicyServerIDs :: "database \<Rightarrow> string \<Rightarrow> string \<Rightarrow> string list" where
  "ListPolicyServerIDs db enterpriseID policyID =
     map srv_ID (sort_by (\<lambda>a b. srv_Name a < srv_Name b \<or> srv_Name a = srv_Name b \<and> srv_ID a < srv_ID b)
       (filter (\<lambda>s. List.member (db_policy_servers db) (srv_ID s, policyID) \<and> srv_EnterpriseID s = enterpriseID \<and> \<not> srv_Revoked s)
          (if list_ex (\<lambda>p. ep_ID p = policyID \<and> ep_EnterpriseID p = enterpriseID) (db_policies db) then db_servers db else [])))"

definition policy_has_active :: "database \<Rightarrow> string \<Rightarrow> bool" where
  "policy_has_active db policyID \<longleftrightarrow>
     list_ex (\<lambda>r. ro_EnterprisePolicyID r = policyID \<and> is_active (ro_Status r)) (db_rollouts db)"

definition policy_has_other_active :: "database \<Rightarrow> string \<Rightarrow> string \<Rightarrow> bool" where
  "policy_has_other_active db policyID rolloutID \<longleftrightarrow>
     list_ex (\<lambda>r. ro_EnterprisePolicyID r = policyID \<and> ro_ID r \<noteq> rolloutID \<and> is_active (ro_Status r)) (db_rollouts db)"

definition ListActivePolicyRollouts :: "database \<Rightarrow> PolicyRolloutRecord list" where
  "ListActivePolicyRollouts db =
     filter (\<lambda>r. List.member (db_active_enterprises db) (ro_EnterpriseID r) \<and> ro_Status r \<in> {QUEUED, CANARY, EXPANDING}) (db_rollouts db)"

record PolicyRolloutTargetRecord =
  tr_ServerID :: string
  tr_ServerName :: string
  tr_BatchNo :: nat
  tr_Status :: target_status
  tr_ResumeStatus :: "target_status option"
  tr_SourceRevisionID :: string
  tr_TransitionRevisionID :: string
  tr_FinalRevisionID :: string
  tr_PackageDeploymentID :: string
  tr_Detail :: detail
  tr_Online :: bool
  tr_InventoryCRSVersion :: string
  tr_CurrentPolicyRevision :: string
  tr_DesiredPolicyRevision :: string
  tr_PackageStatus :: "deployment_status option"
  tr_PolicyStatus :: "deployment_status option"
  tr_TransitionPolicyStatus :: "deployment_status option"
  tr_StabilizedAt :: "time option"

definition minutes :: "int \<Rightarrow> duration" where
  "minutes n = n * 60000000000"

definition policy_status :: "database \<Rightarrow> string \<Rightarrow> string \<Rightarrow> deployment_status option" where
  "policy_status db serverID revisionID =
     map_option pd_Status (find (\<lambda>d. pd_ServerID d = serverID \<and> pd_PolicyRevisionID d = revisionID) (db_policy_deployments db))"

definition target_record :: "database \<Rightarrow> time \<Rightarrow> target_row \<Rightarrow> server_row \<Rightarrow> PolicyRolloutTargetRecord" where
  "target_record db now t s =
     \<lparr>tr_ServerID = pt_ServerID t, tr_ServerName = srv_Name s, tr_BatchNo = pt_BatchNo t, tr_Status = pt_Status t,
      tr_ResumeStatus = pt_ResumeStatus t, tr_SourceRevisionID = pt_SourceRevisionID t,
      tr_TransitionRevisionID = pt_TransitionRevisionID t, tr_FinalRevisionID = pt_FinalRevisionID t,
      tr_PackageDeploymentID = pt_PackageDeploymentID t, tr_Detail = pt_Detail t,
      tr_Online = (\<not> srv_Revoked s \<and> now - minutes 2 \<le> srv_LastHeartbeatAt s),
      tr_InventoryCRSVersion = inv_CRSVersion (srv_Inventory s), tr_CurrentPolicyRevision = srv_PolicyRevision s,
      tr_DesiredPolicyRevision = (case desired_of db (srv_ID s) of None \<Rightarrow> [] | Some d \<Rightarrow> ds_PolicyRevisionID d),
      tr_PackageStatus = map_option kd_Status (find (\<lambda>d. kd_ID d = pt_PackageDeploymentID t) (db_package_deployments db)),
      tr_PolicyStatus = policy_status db (pt_ServerID t) (pt_FinalRevisionID t),
      tr_TransitionPolicyStatus = policy_status db (pt_ServerID t) (pt_TransitionRevisionID t),
      tr_StabilizedAt = pt_StabilizedAt t\<rparr>"

definition ListPolicyRolloutTargets :: "database \<Rightarrow> time \<Rightarrow> string \<Rightarrow> PolicyRolloutTargetRecord list" where
  "ListPolicyRolloutTargets db now rolloutID =
     sort_by (\<lambda>a b. tr_BatchNo a < tr_BatchNo b \<or> tr_BatchNo a = tr_BatchNo b \<and> tr_ServerName a < tr_ServerName b)
       (List.map_filter (\<lambda>t. map_option (target_record db now t) (server_row_of db (pt_ServerID t)))
          (filter (\<lambda>t. pt_RolloutID t = rolloutID) (db_targets db)))"

section \<open>Transactions\<close>

type_synonym transaction = "database \<Rightarrow> rollout_error + database"

definition server_accessible :: "database \<Rightarrow> string \<Rightarrow> string \<Rightarrow> bool" where
  "server_accessible db enterpriseID serverID \<longleftrightarrow>
     (case server_row_of db serverID of None \<Rightarrow> False | Some s \<Rightarrow> srv_EnterpriseID s = enterpriseID \<and> \<not> srv_Revoked s)"

definition validate_server_step :: "database \<Rightarrow> string \<Rightarrow> string list \<Rightarrow> string \<Rightarrow> rollout_error + string list" where
  "validate_server_step db enterpriseID validated serverID =
     (if serverID = [] \<or> List.member validated serverID then Inr validated
      else if \<not> server_accessible db enterpriseID serverID \<or> desired_of db serverID = None then Inl ErrNoRows
      else Inr (validated @ [serverID]))"

definition validatePolicyRolloutServersTx :: "database \<Rightarrow> string \<Rightarrow> string list \<Rightarrow> rollout_error + string list" where
  "validatePolicyRolloutServersTx db enterpriseID serverIDs =
     (case fold_result (validate_server_step db enterpriseID) [] serverIDs of
        Inl e \<Rightarrow> Inl e
      | Inr validated \<Rightarrow> if validated = [] then Inl NoActiveServer else Inr validated)"

definition server_has_active :: "database \<Rightarrow> string \<Rightarrow> string \<Rightarrow> bool" where
  "server_has_active db serverID excludedRolloutID \<longleftrightarrow>
     list_ex (\<lambda>t. pt_ServerID t = serverID \<and>
       list_ex (\<lambda>r. ro_ID r = pt_RolloutID t \<and> is_active (ro_Status r) \<and> (excludedRolloutID = [] \<or> ro_ID r \<noteq> excludedRolloutID)) (db_rollouts db))
       (db_targets db)"

definition ensureNoActivePolicyRolloutsTx :: "database \<Rightarrow> string list \<Rightarrow> string \<Rightarrow> rollout_error option" where
  "ensureNoActivePolicyRolloutsTx db serverIDs excludedRolloutID =
     first_error (\<lambda>i. if server_has_active db i excludedRolloutID then Some ServerHasActiveRollout else None) serverIDs"

definition batch_of :: "nat \<Rightarrow> nat" where
  "batch_of index = (if index > 0 then 1 + (index - 1) div 25 else 0)"

definition new_target :: "string \<Rightarrow> string \<Rightarrow> nat \<Rightarrow> desired_state \<Rightarrow> target_row" where
  "new_target rolloutID finalRevisionID index d =
     \<lparr>pt_RolloutID = rolloutID, pt_ServerID = ds_ServerID d, pt_BatchNo = batch_of index, pt_Status = T_PENDING, pt_ResumeStatus = None,
      pt_SourceAgentPackageID = ds_AgentPackageID d, pt_SourceModulePackageID = ds_ModulePackageID d,
      pt_SourceRevisionID = ds_PolicyRevisionID d, pt_TargetAgentPackageID = [], pt_TargetModulePackageID = [],
      pt_TransitionRevisionID = [], pt_FinalRevisionID = finalRevisionID, pt_PackageDeploymentID = [], pt_Detail = None,
      pt_StabilizedAt = None\<rparr>"

definition insert_target_step :: "string \<Rightarrow> string \<Rightarrow> database \<Rightarrow> nat \<times> string \<Rightarrow> rollout_error + database" where
  "insert_target_step rolloutID finalRevisionID db item =
     (case desired_of db (snd item) of
        None \<Rightarrow> Inl ErrNoRows
      | Some d \<Rightarrow> Inr (db\<lparr>db_targets := db_targets db @ [new_target rolloutID finalRevisionID (fst item) d]\<rparr>))"

definition insertRolloutTargetsTx :: "string \<Rightarrow> string \<Rightarrow> string list \<Rightarrow> transaction" where
  "insertRolloutTargetsTx rolloutID finalRevisionID serverIDs db =
     fold_result (insert_target_step rolloutID finalRevisionID) db (enumerate 0 serverIDs)"

definition insert_rollout :: "PolicyRolloutRecord \<Rightarrow> transaction" where
  "insert_rollout r db =
     (if rollout_row_of db (ro_ID r) \<noteq> None then Inl DuplicateKey
      else if ro_FromRevisionID r \<noteq> [] \<and> \<not> revision_exists db (ro_FromRevisionID r) \<or>
              \<not> revision_exists db (ro_TargetRevisionID r) \<or> policy_row_of db (ro_EnterprisePolicyID r) = None then Inl ForeignKeyFails
      else Inr (db\<lparr>db_rollouts := db_rollouts db @ [r], db_ids := Suc (db_ids db)\<rparr>))"

definition insertPolicyRevisionTx :: "revision_row \<Rightarrow> transaction" where
  "insertPolicyRevisionTx revision db =
     (if revision_exists db (rv_ID revision) then Inl DuplicateKey
      else Inr (db\<lparr>db_revisions := db_revisions db @ [revision]\<rparr>))"

definition new_rollout ::
  "(nat \<Rightarrow> string) \<Rightarrow> database \<Rightarrow> policy_row \<Rightarrow> rollout_type \<Rightarrow> rollout_status \<Rightarrow> string \<Rightarrow> string \<Rightarrow> string \<Rightarrow> PolicyRolloutRecord" where
  "new_rollout randomID db policy typ status from target targetSystem =
     \<lparr>ro_ID = randomID (db_ids db), ro_EnterprisePolicyID = ep_ID policy, ro_EnterpriseID = ep_EnterpriseID policy, ro_Type = typ,
      ro_Status = status, ro_FromRevisionID = from, ro_TargetSystemPolicyVersionID = targetSystem, ro_TargetRevisionID = target,
      ro_ExpectedRevisionID = from, ro_Detail = None\<rparr>"

definition optional_servers :: "database \<Rightarrow> string \<Rightarrow> string list \<Rightarrow> rollout_error + string list" where
  "optional_servers db enterpriseID serverIDs =
     (if serverIDs = [] then Inr []
      else case validatePolicyRolloutServersTx db enterpriseID serverIDs of
          Inl e \<Rightarrow> Inl e
        | Inr ids \<Rightarrow> (case ensureNoActivePolicyRolloutsTx db ids [] of Some e \<Rightarrow> Inl e | None \<Rightarrow> Inr ids))"

definition optional_revision :: "revision_row option \<Rightarrow> transaction" where
  "optional_revision revision db = (case revision of None \<Rightarrow> Inr db | Some r \<Rightarrow> insertPolicyRevisionTx r db)"

definition insert_with_targets :: "PolicyRolloutRecord \<Rightarrow> string list \<Rightarrow> transaction" where
  "insert_with_targets r serverIDs db =
     (case insert_rollout r db of Inl e \<Rightarrow> Inl e | Inr db' \<Rightarrow> insertRolloutTargetsTx (ro_ID r) (ro_TargetRevisionID r) serverIDs db')"

definition CreatePolicyRollout ::
  "(nat \<Rightarrow> string) \<Rightarrow> string \<Rightarrow> string \<Rightarrow> string \<Rightarrow> rollout_type \<Rightarrow> rollout_status \<Rightarrow> revision_row option \<Rightarrow> string \<Rightarrow> string \<Rightarrow> string list \<Rightarrow> transaction" where
  "CreatePolicyRollout randomID policyID enterpriseID expectedRevisionID rolloutType rolloutStatus revision targetRevisionID targetSystemVersionID serverIDs db =
     (if \<not> lockActiveEnterprise db enterpriseID then Inl ErrEnterpriseNotActive
      else case find (\<lambda>p. ep_ID p = policyID \<and> ep_EnterpriseID p = enterpriseID) (db_policies db) of
          None \<Rightarrow> Inl ErrNoRows
        | Some policy \<Rightarrow>
            if ep_CurrentRevisionID policy \<noteq> expectedRevisionID then Inl RevisionChanged
            else if policy_has_active db policyID then Inl ActiveRolloutExists
            else (case optional_servers db enterpriseID serverIDs of
                    Inl e \<Rightarrow> Inl e
                  | Inr ids \<Rightarrow>
                      (case optional_revision revision db of
                         Inl e \<Rightarrow> Inl e
                       | Inr db' \<Rightarrow>
                           if \<not> revision_exists db' (ep_CurrentRevisionID policy) then Inl ForeignKeyFails
                           else insert_with_targets
                             (new_rollout randomID db' policy rolloutType rolloutStatus (ep_CurrentRevisionID policy)
                                (case revision of None \<Rightarrow> targetRevisionID | Some r \<Rightarrow> rv_ID r) targetSystemVersionID) ids db')))"

definition new_policy :: "string \<Rightarrow> string \<Rightarrow> string \<Rightarrow> policy_row" where
  "new_policy policyID enterpriseID strategy =
     \<lparr>ep_ID = policyID, ep_EnterpriseID = enterpriseID, ep_Target = ''policy:'' @ policyID, ep_UpdateStrategy = strategy,
      ep_Status = ''ACTIVE'', ep_CurrentRevisionID = [], ep_PreviousRevisionID = [], ep_CurrentSystemPolicyID = []\<rparr>"

definition CreateEnterprisePolicyWithRollout ::
  "(nat \<Rightarrow> string) \<Rightarrow> string \<Rightarrow> string \<Rightarrow> string \<Rightarrow> revision_row \<Rightarrow> rollout_type \<Rightarrow> rollout_status \<Rightarrow> string list \<Rightarrow> transaction" where
  "CreateEnterprisePolicyWithRollout randomID enterpriseID policyID strategy revision rolloutType rolloutStatus serverIDs db =
     (if \<not> lockActiveEnterprise db enterpriseID then Inl ErrEnterpriseNotActive
      else case validatePolicyRolloutServersTx db enterpriseID serverIDs of
          Inl e \<Rightarrow> Inl e
        | Inr ids \<Rightarrow>
            (case ensureNoActivePolicyRolloutsTx db ids [] of
               Some e \<Rightarrow> Inl e
             | None \<Rightarrow>
                 if policy_row_of db policyID \<noteq> None then Inl DuplicateKey
                 else let policy = new_policy policyID enterpriseID strategy
                      in case insertPolicyRevisionTx revision (db\<lparr>db_policies := db_policies db @ [policy]\<rparr>) of
                           Inl e \<Rightarrow> Inl e
                         | Inr db' \<Rightarrow>
                             insert_with_targets
                               (new_rollout randomID db' policy rolloutType rolloutStatus [] (rv_ID revision) (rv_SystemPolicyVersionID revision))
                               ids db'))"

definition CreatePolicyMembershipRollout :: "(nat \<Rightarrow> string) \<Rightarrow> string \<Rightarrow> string \<Rightarrow> string list \<Rightarrow> transaction" where
  "CreatePolicyMembershipRollout randomID policyID enterpriseID serverIDs db =
     (if \<not> lockActiveEnterprise db enterpriseID then Inl ErrEnterpriseNotActive
      else case find (\<lambda>p. ep_ID p = policyID \<and> ep_EnterpriseID p = enterpriseID \<and> ep_Status p = ''ACTIVE'') (db_policies db) of
          None \<Rightarrow> Inl ErrNoRows
        | Some policy \<Rightarrow>
            if ep_CurrentRevisionID policy = [] \<or> ep_CurrentSystemPolicyID policy = [] then Inl NoDeployableRevision
            else (case validatePolicyRolloutServersTx db enterpriseID serverIDs of
                    Inl e \<Rightarrow> Inl e
                  | Inr validated \<Rightarrow>
                      (let selected = filter (\<lambda>i. map_of (db_policy_servers db) i \<noteq> Some policyID) validated
                       in if selected = [] then Inr db
                          else if policy_has_active db policyID then Inl ActiveRolloutExists
                          else case ensureNoActivePolicyRolloutsTx db selected [] of
                              Some e \<Rightarrow> Inl e
                            | None \<Rightarrow>
                                insert_with_targets
                                  (new_rollout randomID db policy SEED QUEUED (ep_CurrentRevisionID policy) (ep_CurrentRevisionID policy)
                                     (ep_CurrentSystemPolicyID policy)) selected db)))"

definition unlock_policy :: "policy_row \<Rightarrow> policy_row" where
  "unlock_policy p = p\<lparr>ep_Status := ''ACTIVE'', ep_UpdateStrategy := ''MANUAL''\<rparr>"

text \<open>Unlike the other operations, a conversion does not look for unfinished rollouts of the policy.\<close>

definition ConvertLegacyEnterprisePolicy ::
  "(nat \<Rightarrow> string) \<Rightarrow> string \<Rightarrow> string \<Rightarrow> string \<Rightarrow> revision_row \<Rightarrow> string list \<Rightarrow> transaction" where
  "ConvertLegacyEnterprisePolicy randomID policyID enterpriseID expectedRevisionID revision serverIDs db =
     (if \<not> lockActiveEnterprise db enterpriseID then Inl ErrEnterpriseNotActive
      else case validatePolicyRolloutServersTx db enterpriseID serverIDs of
          Inl e \<Rightarrow> Inl e
        | Inr ids \<Rightarrow>
            (case ensureNoActivePolicyRolloutsTx db ids [] of
               Some e \<Rightarrow> Inl e
             | None \<Rightarrow>
                 let P = (\<lambda>p. ep_ID p = policyID \<and> ep_EnterpriseID p = enterpriseID \<and> ep_Status p = ''LEGACY_LOCKED'' \<and>
                            ep_CurrentRevisionID p = expectedRevisionID)
                 in if changed_rows P unlock_policy (db_policies db) \<noteq> 1 then Inl RevisionChanged
                    else case find P (db_policies db) of
                        None \<Rightarrow> Inl RevisionChanged
                      | Some policy \<Rightarrow>
                          (case insertPolicyRevisionTx revision (db\<lparr>db_policies := update_where P unlock_policy (db_policies db)\<rparr>) of
                             Inl e \<Rightarrow> Inl e
                           | Inr db' \<Rightarrow>
                               if \<not> revision_exists db' expectedRevisionID then Inl ForeignKeyFails
                               else insert_with_targets
                                 (new_rollout randomID db' policy UPDATE QUEUED expectedRevisionID (rv_ID revision) (rv_SystemPolicyVersionID revision))
                                 ids db')))"

definition rollout_guard :: "database \<Rightarrow> string \<Rightarrow> string \<Rightarrow> string \<Rightarrow> string \<Rightarrow> rollout_status list \<Rightarrow> PolicyRolloutRecord \<Rightarrow> bool" where
  "rollout_guard db scopeEnterpriseID policyID rolloutID expectedRevisionID statuses r \<longleftrightarrow>
     ro_ID r = rolloutID \<and> ro_EnterprisePolicyID r = policyID \<and> List.member statuses (ro_Status r) \<and>
     lockActiveEnterprise db (ro_EnterpriseID r) \<and> ro_ExpectedRevisionID r = expectedRevisionID \<and>
     (case policy_row_of db policyID of None \<Rightarrow> False | Some p \<Rightarrow> ep_CurrentRevisionID p = expectedRevisionID) \<and>
     (scopeEnterpriseID = [] \<or> ro_EnterpriseID r = scopeEnterpriseID)"

definition set_rollout_status :: "rollout_status \<Rightarrow> detail \<Rightarrow> PolicyRolloutRecord \<Rightarrow> PolicyRolloutRecord" where
  "set_rollout_status status d r = r\<lparr>ro_Status := status, ro_Detail := d\<rparr>"

definition ApprovePolicyRollout :: "string \<Rightarrow> string \<Rightarrow> string \<Rightarrow> string \<Rightarrow> transaction" where
  "ApprovePolicyRollout scopeEnterpriseID policyID rolloutID expectedRevisionID db =
     (let P = rollout_guard db scopeEnterpriseID policyID rolloutID expectedRevisionID [AWAITING_APPROVAL]
      in if changed_rows P (set_rollout_status QUEUED None) (db_rollouts db) \<noteq> 1 then Inl ErrNoRows
         else Inr (db\<lparr>db_rollouts := update_where P (set_rollout_status QUEUED None) (db_rollouts db)\<rparr>))"

definition retry_target :: "target_row \<Rightarrow> target_row" where
  "retry_target t = t\<lparr>pt_Status := T_PENDING, pt_ResumeStatus := None, pt_Detail := None, pt_StabilizedAt := None\<rparr>"

definition retryable :: "string \<Rightarrow> target_row \<Rightarrow> bool" where
  "retryable rolloutID t \<longleftrightarrow> pt_RolloutID t = rolloutID \<and> (pt_Status t = T_FAILED \<or> pt_Status t = ROLLED_BACK)"

definition RetryPolicyRollout :: "string \<Rightarrow> string \<Rightarrow> string \<Rightarrow> string \<Rightarrow> transaction" where
  "RetryPolicyRollout scopeEnterpriseID policyID rolloutID expectedRevisionID db =
     (case find (\<lambda>p. ep_ID p = policyID \<and> lockActiveEnterprise db (ep_EnterpriseID p) \<and>
              (scopeEnterpriseID = [] \<or> ep_EnterpriseID p = scopeEnterpriseID)) (db_policies db) of
        None \<Rightarrow> Inl ErrNoRows
      | Some policy \<Rightarrow>
          if policy_has_other_active db policyID rolloutID then Inl ActiveRolloutExists
          else (case ensureNoActivePolicyRolloutsTx db
                       (sort_by (<) (map pt_ServerID (filter (retryable rolloutID) (db_targets db)))) rolloutID of
                  Some e \<Rightarrow> Inl e
                | None \<Rightarrow>
                    (let P = rollout_guard db scopeEnterpriseID policyID rolloutID expectedRevisionID [PAUSED, R_FAILED]
                     in if changed_rows P (set_rollout_status QUEUED None) (db_rollouts db) \<noteq> 1 then Inl ErrNoRows
                        else Inr (db\<lparr>db_rollouts := update_where P (set_rollout_status QUEUED None) (db_rollouts db),
                                     db_targets := update_where (retryable rolloutID) retry_target (db_targets db)\<rparr>))))"

definition UpdateEnterprisePolicyStrategy :: "string \<Rightarrow> string \<Rightarrow> string \<Rightarrow> string \<Rightarrow> transaction" where
  "UpdateEnterprisePolicyStrategy scopeEnterpriseID policyID expectedRevisionID strategy db =
     (if \<not> List.member [''MANUAL'', ''AUTOMATIC'', ''PINNED''] strategy then Inl InvalidStrategy
      else case find (\<lambda>p. ep_ID p = policyID \<and> ep_Status p = ''ACTIVE'' \<and> lockActiveEnterprise db (ep_EnterpriseID p) \<and>
              ep_CurrentRevisionID p = expectedRevisionID \<and> (scopeEnterpriseID = [] \<or> ep_EnterpriseID p = scopeEnterpriseID)) (db_policies db) of
          None \<Rightarrow> Inl ErrNoRows
        | Some policy \<Rightarrow>
            let waiting = (\<lambda>r. ro_EnterprisePolicyID r = policyID \<and> ro_Status r = AWAITING_APPROVAL);
                rollouts = db_rollouts db;
                rollouts1 = (if strategy = ''PINNED'' then update_where waiting (set_rollout_status CANCELLED (Some PinnedByUser)) rollouts else rollouts);
                rollouts2 = (if strategy = ''AUTOMATIC''
                  then update_where (\<lambda>r. waiting r \<and> ro_ExpectedRevisionID r = expectedRevisionID) (set_rollout_status QUEUED None) rollouts1 else rollouts1)
            in Inr (db\<lparr>db_policies := update_where (\<lambda>p. ep_ID p = policyID) (\<lambda>p. p\<lparr>ep_UpdateStrategy := strategy\<rparr>) (db_policies db),
                       db_rollouts := rollouts2\<rparr>))"

section \<open>Transactions of the synchronisation\<close>

definition of_target :: "string \<Rightarrow> string \<Rightarrow> target_row \<Rightarrow> bool" where
  "of_target rolloutID serverID t \<longleftrightarrow> pt_RolloutID t = rolloutID \<and> pt_ServerID t = serverID"

definition update_targets :: "(target_row \<Rightarrow> bool) \<Rightarrow> (target_row \<Rightarrow> target_row) \<Rightarrow> database \<Rightarrow> database" where
  "update_targets P f db = db\<lparr>db_targets := update_where P f (db_targets db)\<rparr>"

definition UpdatePolicyRolloutStatus :: "string \<Rightarrow> rollout_status \<Rightarrow> detail \<Rightarrow> database \<Rightarrow> database" where
  "UpdatePolicyRolloutStatus rolloutID status d db =
     db\<lparr>db_rollouts := update_where (\<lambda>r. ro_ID r = rolloutID \<and> ro_Status r \<noteq> CANCELLED) (set_rollout_status status d) (db_rollouts db)\<rparr>"

definition set_target_status :: "time \<Rightarrow> target_status \<Rightarrow> detail \<Rightarrow> target_row \<Rightarrow> target_row" where
  "set_target_status now status d t =
     t\<lparr>pt_Status := status, pt_ResumeStatus := None, pt_Detail := d,
       pt_StabilizedAt := (if status = T_APPLIED then Some now else pt_StabilizedAt t)\<rparr>"

definition assign_member :: "string \<Rightarrow> policy_row \<Rightarrow> database \<Rightarrow> database" where
  "assign_member serverID policy db =
     (if server_accessible db (ep_EnterpriseID policy) serverID
      then db\<lparr>db_policy_servers := AList.update serverID (ep_ID policy) (db_policy_servers db)\<rparr> else db)"

definition UpdatePolicyRolloutTarget :: "time \<Rightarrow> string \<Rightarrow> string \<Rightarrow> target_status \<Rightarrow> detail \<Rightarrow> transaction" where
  "UpdatePolicyRolloutTarget now rolloutID serverID status d db =
     (let P = of_target rolloutID serverID; f = set_target_status now status d
      in if changed_rows P f (db_targets db) \<noteq> 1 then Inl ErrNoRows
         else let db' = update_targets P f db
              in if status \<noteq> T_APPLIED then Inr db'
                 else case rollout_row_of db' rolloutID of
                     None \<Rightarrow> Inl ErrNoRows
                   | Some r \<Rightarrow>
                       (case policy_row_of db' (ro_EnterprisePolicyID r) of
                          None \<Rightarrow> Inl ErrNoRows
                        | Some policy \<Rightarrow>
                            Inr (if ro_Type r = SEED \<and> (ro_FromRevisionID r \<noteq> [] \<or> ep_Target policy = ''policy:'' @ ep_ID policy)
                                 then assign_member serverID policy db' else db')))"

definition DeferPolicyRolloutTarget :: "string \<Rightarrow> string \<Rightarrow> target_status \<Rightarrow> database \<Rightarrow> database" where
  "DeferPolicyRolloutTarget rolloutID serverID resumeStatus =
     update_targets (\<lambda>t. of_target rolloutID serverID t \<and> pt_Status t = resumeStatus)
       (\<lambda>t. t\<lparr>pt_Status := DEFERRED, pt_ResumeStatus := Some resumeStatus, pt_Detail := Some ServerOffline\<rparr>)"

definition ResumePolicyRolloutTarget :: "string \<Rightarrow> string \<Rightarrow> target_status \<Rightarrow> database \<Rightarrow> database" where
  "ResumePolicyRolloutTarget rolloutID serverID resumeStatus =
     update_targets (\<lambda>t. of_target rolloutID serverID t \<and> pt_Status t = DEFERRED)
       (\<lambda>t. t\<lparr>pt_Status := resumeStatus, pt_ResumeStatus := None, pt_Detail := None\<rparr>)"

definition set_batch :: "nat \<Rightarrow> target_row \<Rightarrow> target_row" where
  "set_batch n t = t\<lparr>pt_BatchNo := n\<rparr>"

definition SwapPolicyRolloutCanary :: "string \<Rightarrow> string \<Rightarrow> string \<Rightarrow> nat \<Rightarrow> transaction" where
  "SwapPolicyRolloutCanary rolloutID deferredServerID canaryServerID replacementBatch db =
     (let P = (\<lambda>t. of_target rolloutID deferredServerID t \<and> pt_BatchNo t = 0 \<and> pt_Status t = DEFERRED)
      in if changed_rows P (set_batch replacementBatch) (db_targets db) \<noteq> 1 then Inl CanaryChanged
         else let db' = update_targets P (set_batch replacementBatch) db;
                  Q = (\<lambda>t. of_target rolloutID canaryServerID t \<and> pt_BatchNo t = replacementBatch \<and> pt_Status t = T_PENDING)
              in if changed_rows Q (set_batch 0) (db_targets db') \<noteq> 1 then Inl CanaryChanged
                 else Inr (update_targets Q (set_batch 0) db'))"

definition InsertPolicyRevision :: "string \<Rightarrow> revision_row \<Rightarrow> transaction" where
  "InsertPolicyRevision enterpriseID revision db =
     (if \<not> lockActiveEnterprise db enterpriseID then Inl ErrEnterpriseNotActive else insertPolicyRevisionTx revision db)"

definition supersede_policies :: "string \<Rightarrow> database \<Rightarrow> database" where
  "supersede_policies serverID db =
     db\<lparr>db_policy_deployments := update_where (\<lambda>d. pd_ServerID d = serverID \<and> pd_Status d = D_PENDING)
        (\<lambda>d. d\<lparr>pd_Status := SUPERSEDED\<rparr>) (db_policy_deployments db)\<rparr>"

definition supersede_packages :: "string \<Rightarrow> database \<Rightarrow> database" where
  "supersede_packages serverID db =
     db\<lparr>db_package_deployments := update_where (\<lambda>d. kd_ServerID d = serverID \<and> kd_Status d = D_PENDING)
        (\<lambda>d. d\<lparr>kd_Status := SUPERSEDED\<rparr>) (db_package_deployments db)\<rparr>"

definition desire_revision :: "string \<Rightarrow> string \<Rightarrow> database \<Rightarrow> database" where
  "desire_revision serverID revisionID db =
     db\<lparr>db_desired := update_where (\<lambda>d. ds_ServerID d = serverID) (\<lambda>d. d\<lparr>ds_PolicyRevisionID := revisionID\<rparr>) (db_desired db)\<rparr>"

definition desire_packages :: "string \<Rightarrow> string \<Rightarrow> string \<Rightarrow> string \<Rightarrow> database \<Rightarrow> database" where
  "desire_packages serverID agentID moduleID deploymentID db =
     db\<lparr>db_desired := update_where (\<lambda>d. ds_ServerID d = serverID)
        (\<lambda>d. d\<lparr>ds_AgentPackageID := agentID, ds_ModulePackageID := moduleID, ds_PackageDeploymentID := deploymentID\<rparr>) (db_desired db)\<rparr>"

definition upsert_policy_deployment :: "string \<Rightarrow> string \<Rightarrow> string \<Rightarrow> database \<Rightarrow> database" where
  "upsert_policy_deployment serverID revisionID rolloutID db =
     (let P = (\<lambda>d. pd_ServerID d = serverID \<and> pd_PolicyRevisionID d = revisionID); rows = db_policy_deployments db
      in db\<lparr>db_policy_deployments :=
             (if list_ex P rows then update_where P (\<lambda>d. d\<lparr>pd_Status := D_PENDING, pd_RolloutID := rolloutID\<rparr>) rows
              else rows @ [\<lparr>pd_ServerID = serverID, pd_PolicyRevisionID = revisionID, pd_Status = D_PENDING, pd_RolloutID = rolloutID\<rparr>])\<rparr>)"

definition AssignPolicyForRollout :: "string \<Rightarrow> string \<Rightarrow> string \<Rightarrow> string \<Rightarrow> target_status \<Rightarrow> transaction" where
  "AssignPolicyForRollout rolloutID enterpriseID serverID revisionID targetStatus db =
     (if \<not> lockActiveEnterprise db enterpriseID then Inl ErrEnterpriseNotActive
      else if \<not> server_accessible db enterpriseID serverID then Inl ErrNoRows
      else if \<not> revision_exists db revisionID then Inl ForeignKeyFails
      else let db' = upsert_policy_deployment serverID revisionID rolloutID (desire_revision serverID revisionID (supersede_policies serverID db))
           in if targetStatus = TRANSITION_PENDING
              then Inr (update_targets (of_target rolloutID serverID)
                     (\<lambda>t. t\<lparr>pt_TransitionRevisionID := revisionID, pt_Status := TRANSITION_PENDING, pt_Detail := None\<rparr>) db')
              else if targetStatus = POLICY_PENDING
              then Inr (update_targets (of_target rolloutID serverID) (\<lambda>t. t\<lparr>pt_Status := POLICY_PENDING, pt_Detail := None\<rparr>) db')
              else Inl InvalidTargetStatus)"

definition AssignPackagesForRollout ::
  "(nat \<Rightarrow> string) \<Rightarrow> string \<Rightarrow> string \<Rightarrow> string \<Rightarrow> string \<Rightarrow> string \<Rightarrow> target_status \<Rightarrow> transaction" where
  "AssignPackagesForRollout randomID rolloutID enterpriseID serverID agentID moduleID targetStatus db =
     (if targetStatus \<noteq> PACKAGE_PENDING \<and> targetStatus \<noteq> ROLLBACK_PENDING then Inl InvalidTargetStatus
      else if \<not> lockActiveEnterprise db enterpriseID then Inl ErrEnterpriseNotActive
      else if \<not> server_accessible db enterpriseID serverID then Inl ErrNoRows
      else let deploymentID = randomID (db_ids db); db1 = supersede_packages serverID db
           in if list_ex (\<lambda>d. kd_ID d = deploymentID) (db_package_deployments db1) then Inl DuplicateKey
              else let db2 = db1\<lparr>db_ids := Suc (db_ids db1), db_package_deployments := db_package_deployments db1 @
                         [\<lparr>kd_ID = deploymentID, kd_ServerID = serverID, kd_AgentPackageID = agentID, kd_ModulePackageID = moduleID,
                           kd_Status = D_PENDING, kd_RolloutID = rolloutID\<rparr>]\<rparr>
                   in Inr (update_targets (of_target rolloutID serverID)
                        (\<lambda>t. t\<lparr>pt_PackageDeploymentID := deploymentID, pt_TargetAgentPackageID := agentID, pt_TargetModulePackageID := moduleID,
                           pt_Status := targetStatus, pt_Detail := None\<rparr>)
                        (desire_packages serverID agentID moduleID deploymentID db2)))"

definition promote_revision :: "PolicyRolloutRecord \<Rightarrow> policy_row \<Rightarrow> policy_row" where
  "promote_revision r p = p\<lparr>ep_PreviousRevisionID := ep_CurrentRevisionID p, ep_CurrentRevisionID := ro_TargetRevisionID r,
     ep_CurrentSystemPolicyID := ro_TargetSystemPolicyVersionID r\<rparr>"

definition CompletePolicyRollout :: "PolicyRolloutRecord \<Rightarrow> transaction" where
  "CompletePolicyRollout r db =
     (if list_ex (\<lambda>t. pt_RolloutID t = ro_ID r \<and> \<not> finished (pt_Status t)) (db_targets db) then Inl UnfinishedTargets
      else case find (\<lambda>p. ep_ID p = ro_EnterprisePolicyID r \<and> lockActiveEnterprise db (ep_EnterpriseID p)) (db_policies db) of
          None \<Rightarrow> Inl ErrNoRows
        | Some policy \<Rightarrow>
            if ep_CurrentRevisionID policy \<noteq> ro_ExpectedRevisionID r then Inl RevisionChanged
            else Inr (db\<lparr>db_policies := (if ro_Type r \<noteq> RECOVERY \<and> ro_TargetRevisionID r \<noteq> ep_CurrentRevisionID policy
                       then update_where (\<lambda>p. ep_ID p = ro_EnterprisePolicyID r) (promote_revision r) (db_policies db) else db_policies db),
                     db_rollouts := update_where (\<lambda>x. ro_ID x = ro_ID r) (set_rollout_status R_APPLIED None) (db_rollouts db)\<rparr>))"

definition failed_seed_target :: "database \<Rightarrow> string \<Rightarrow> string \<Rightarrow> string \<Rightarrow> target_row option" where
  "failed_seed_target db rolloutID enterpriseID serverID =
     (case rollout_row_of db rolloutID of
        None \<Rightarrow> None
      | Some r \<Rightarrow> if ro_Type r = SEED \<and> ro_EnterpriseID r = enterpriseID
          then find (\<lambda>t. of_target rolloutID serverID t \<and> pt_Status t = T_FAILED) (db_targets db) else None)"

definition RestoreUnassignedPolicyAfterFailedMove :: "string \<Rightarrow> string \<Rightarrow> string \<Rightarrow> transaction" where
  "RestoreUnassignedPolicyAfterFailedMove rolloutID enterpriseID serverID db =
     (case failed_seed_target db rolloutID enterpriseID serverID of
        None \<Rightarrow> Inl MoveNotUnassigned
      | Some t \<Rightarrow>
          (case server_row_of db serverID of
             None \<Rightarrow> Inl MoveNotUnassigned
           | Some s \<Rightarrow>
               if pt_SourceRevisionID t \<noteq> [] \<or> srv_EnterpriseID s \<noteq> enterpriseID \<or> map_of (db_policy_servers db) serverID \<noteq> None
               then Inl MoveNotUnassigned
               else Inr (update_targets (of_target rolloutID serverID) (\<lambda>t. t\<lparr>pt_Status := ROLLED_BACK, pt_Detail := Some MoveRolledBack\<rparr>)
                      (desire_revision serverID [] (supersede_policies serverID db)))))"

definition RestorePolicyRevisionAfterFailedMove :: "(nat \<Rightarrow> string) \<Rightarrow> string \<Rightarrow> string \<Rightarrow> string \<Rightarrow> string \<Rightarrow> transaction" where
  "RestorePolicyRevisionAfterFailedMove randomID rolloutID enterpriseID serverID sourceRevisionID db =
     (case failed_seed_target db rolloutID enterpriseID serverID of
        None \<Rightarrow> Inl ErrNoRows
      | Some t \<Rightarrow>
          (case revision_owner db enterpriseID sourceRevisionID of
             None \<Rightarrow> Inl ErrNoRows
           | Some (policy, _) \<Rightarrow>
               if pt_SourceRevisionID t \<noteq> sourceRevisionID \<or> map_of (db_policy_servers db) serverID \<noteq> Some (ep_ID policy) \<or>
                  \<not> server_accessible db enterpriseID serverID then Inl ErrNoRows
               else let db1 = supersede_policies serverID db; deploymentID = randomID (db_ids db);
                        db2 = (if pt_SourceAgentPackageID t \<noteq> [] \<and> pt_SourceModulePackageID t \<noteq> []
                          then desire_packages serverID (pt_SourceAgentPackageID t) (pt_SourceModulePackageID t) deploymentID
                                 ((supersede_packages serverID db1)\<lparr>db_ids := Suc (db_ids db),
                                    db_package_deployments := db_package_deployments (supersede_packages serverID db1) @
                                      [\<lparr>kd_ID = deploymentID, kd_ServerID = serverID, kd_AgentPackageID = pt_SourceAgentPackageID t,
                                        kd_ModulePackageID = pt_SourceModulePackageID t, kd_Status = D_PENDING, kd_RolloutID = rolloutID\<rparr>]\<rparr>)
                          else db1)
                    in Inr (upsert_policy_deployment serverID sourceRevisionID rolloutID (desire_revision serverID sourceRevisionID db2))))"

section \<open>Servers and enterprises that leave\<close>

text \<open>
  What \<^verbatim>\<open>DeleteRevokedServer\<close> (\<^verbatim>\<open>store_operations.go\<close>) and \<^verbatim>\<open>DeleteOrTerminateEnterprise\<close>
  (\<^verbatim>\<open>store_enterprise_lifecycle.go\<close>) do to these tables; the theory \<^verbatim>\<open>Fleet\<close> has the operations.
\<close>

definition delete_server_rows :: "string \<Rightarrow> database \<Rightarrow> database" where
  "delete_server_rows serverID db =
     db\<lparr>db_policy_servers := filter (\<lambda>m. fst m \<noteq> serverID) (db_policy_servers db),
        db_targets := filter (\<lambda>t. pt_ServerID t \<noteq> serverID) (db_targets db),
        db_desired := filter (\<lambda>d. ds_ServerID d \<noteq> serverID) (db_desired db),
        db_policy_deployments := filter (\<lambda>d. pd_ServerID d \<noteq> serverID) (db_policy_deployments db),
        db_package_deployments := filter (\<lambda>d. kd_ServerID d \<noteq> serverID) (db_package_deployments db),
        db_incidents := filter (\<lambda>i. si_AgentID i \<noteq> serverID) (db_incidents db),
        db_servers := filter (\<lambda>s. \<not> (srv_ID s = serverID \<and> srv_Revoked s)) (db_servers db)\<rparr>"

definition server_of :: "string \<Rightarrow> database \<Rightarrow> string \<Rightarrow> bool" where
  "server_of e db serverID \<longleftrightarrow> list_ex (\<lambda>s. srv_ID s = serverID \<and> srv_EnterpriseID s = e) (db_servers db)"

definition policy_of :: "string \<Rightarrow> database \<Rightarrow> string \<Rightarrow> bool" where
  "policy_of e db policyID \<longleftrightarrow> list_ex (\<lambda>p. ep_ID p = policyID \<and> ep_EnterpriseID p = e) (db_policies db)"

definition terminate_db :: "string \<Rightarrow> database \<Rightarrow> database" where
  "terminate_db e db =
     db\<lparr>db_policy_servers := filter (\<lambda>m. \<not> policy_of e db (snd m)) (db_policy_servers db),
        db_servers := update_where (\<lambda>s. srv_EnterpriseID s = e) (\<lambda>s. s\<lparr>srv_Revoked := True\<rparr>) (db_servers db),
        db_rollouts := update_where (\<lambda>r. policy_of e db (ro_EnterprisePolicyID r) \<and> is_active (ro_Status r))
          (set_rollout_status CANCELLED (Some ErrEnterpriseNotActive)) (db_rollouts db),
        db_policy_deployments := update_where (\<lambda>d. server_of e db (pd_ServerID d) \<and> pd_Status d = D_PENDING)
          (\<lambda>d. d\<lparr>pd_Status := SUPERSEDED\<rparr>) (db_policy_deployments db),
        db_package_deployments := update_where (\<lambda>d. server_of e db (kd_ServerID d) \<and> kd_Status d = D_PENDING)
          (\<lambda>d. d\<lparr>kd_Status := SUPERSEDED\<rparr>) (db_package_deployments db)\<rparr>"

end
