(* ===== verification/Rollout.thy ===== *)
theory Rollout
  imports Complex_Main Rollout_Store Policy_Revision
begin

text \<open>
  The rollout engine, \<^verbatim>\<open>processPolicyRollout\<close> and what it calls in
  \<^verbatim>\<open>src/internal/manager/system_policy_sync.go\<close>: one pass over a rollout brings its targets up to date with
  the connection of their servers, gives an offline canary's place to another server, evaluates the
  canary, and advances the targets of the lowest unfinished batch. A pass is a function from the database to
  an error and the database it leaves, because what it committed before an error stays. The clock is read once
  per pass; the log lines and audit records of a pass are left out.

  The record \<open>rollout_env\<close> holds the template lookup, the preparation of revisions, the random identifiers
  and the package catalog. Rates of the canary gate are \<^typ>\<open>rat\<close> where the code has \<^verbatim>\<open>float64\<close>.
\<close>

record rollout_env =
  ve_template :: "string \<Rightarrow> Template option"
  ve_revision :: revision_env
  ve_randomID :: "nat \<Rightarrow> string"
  ve_ResolveCRS :: "(server_inventory \<Rightarrow> string \<Rightarrow> (string \<times> string) option) option"

type_synonym outcome = "rollout_error option \<times> database"

section \<open>Advancing a target\<close>

definition normalizeCRSVersion :: "string \<Rightarrow> string" where
  "normalizeCRSVersion val = trim_prefix (trim_space val) ''v''"

definition ServerByID :: "database \<Rightarrow> string \<Rightarrow> string \<Rightarrow> rollout_error + server_row" where
  "ServerByID db enterpriseID serverID =
     (case find (\<lambda>s. srv_ID s = serverID \<and> (enterpriseID = [] \<or> srv_EnterpriseID s = enterpriseID)) (db_servers db) of
        None \<Rightarrow> Inl ErrNoRows | Some s \<Rightarrow> Inr s)"

definition serverSupportsSplitPolicy :: "server_row \<Rightarrow> bool" where
  "serverSupportsSplitPolicy s \<longleftrightarrow>
     List.member (inv_PolicyFormats (srv_Inventory s)) FormatBase \<and> List.member (inv_PolicyFormats (srv_Inventory s)) FormatOverride"

definition serverReadyForPolicyCompatibility :: "server_row \<Rightarrow> bool" where
  "serverReadyForPolicyCompatibility s \<longleftrightarrow>
     (let i = srv_Inventory s
      in if inv_InstallationStage i \<noteq> [] then inv_InstallationStage i = ''PROTECTED''
         else inv_ConnectorLoaded i \<and> inv_ConfigTestOK i)"

definition source_revision :: "PolicyRolloutRecord \<Rightarrow> PolicyRolloutTargetRecord \<Rightarrow> string" where
  "source_revision r x = (if tr_SourceRevisionID x = [] then ro_FromRevisionID r else tr_SourceRevisionID x)"

definition rolloutNeedsV2Package ::
  "rollout_env \<Rightarrow> PolicyRolloutRecord \<Rightarrow> PolicyRolloutTargetRecord \<Rightarrow> Template \<Rightarrow> database \<Rightarrow> rollout_error + bool" where
  "rolloutNeedsV2Package env r x t db =
     (if d_ArtifactFormat (t_Defaults t) \<noteq> Format then Inr False
      else if source_revision r x = [] then Inr True
      else case PolicyRevisionSystemVersion db (ro_EnterpriseID r) (source_revision r x) of
          Inl e \<Rightarrow> Inl e
        | Inr v \<Rightarrow> if v = [] then Inl SourceVersionUnavailable
            else Inr (case ve_template env v of None \<Rightarrow> True | Some b \<Rightarrow> d_ArtifactFormat (t_Defaults b) \<noteq> Format))"

definition queueRolloutPackage ::
  "rollout_env \<Rightarrow> PolicyRolloutRecord \<Rightarrow> Template \<Rightarrow> PolicyRolloutTargetRecord \<Rightarrow> transaction" where
  "queueRolloutPackage env r t x db =
     (case ve_ResolveCRS env of
        None \<Rightarrow> Inl CatalogUnavailable
      | Some resolve \<Rightarrow>
          (case ServerByID db (ro_EnterpriseID r) (tr_ServerID x) of
             Inl e \<Rightarrow> Inl e
           | Inr s \<Rightarrow>
               if \<not> serverReadyForPolicyCompatibility s then Inl ServerNotReady
               else if inv_InstallationMode (srv_Inventory s) = ''manual'' then Inl ManualConnector
               else (case resolve (srv_Inventory s) (t_CRSVersion t) of
                       None \<Rightarrow> Inl PackageUnresolved
                     | Some (agentID, moduleID) \<Rightarrow>
                         AssignPackagesForRollout (ve_randomID env) (ro_ID r) (ro_EnterpriseID r) (tr_ServerID x) agentID moduleID
                           (if ro_Type r = ROLLBACK \<or> ro_Type r = RECOVERY then ROLLBACK_PENDING else PACKAGE_PENDING) db)))"

definition revision_row_of :: "string \<Rightarrow> PolicyRevisionInput \<Rightarrow> revision_row" where
  "revision_row_of policyID i =
     \<lparr>rv_ID = pr_ID i, rv_EnterprisePolicyID = policyID, rv_SystemPolicyVersionID = pr_SystemPolicyVersionID i,
      rv_ArtifactFormat = s_ArtifactFormat (pr_Settings i)\<rparr>"

definition create_transition ::
  "rollout_env \<Rightarrow> PolicyRolloutRecord \<Rightarrow> Template \<Rightarrow> string \<Rightarrow> database \<Rightarrow> (rollout_error + string) \<times> database" where
  "create_transition env r t sourceRevisionID db =
     (case EnterprisePolicyByID db (ro_EnterpriseID r) (ro_EnterprisePolicyID r) of
        Inl e \<Rightarrow> (Inl e, db)
      | Inr policy \<Rightarrow>
          (let revisionID = ve_randomID env (db_ids db); db1 = db\<lparr>db_ids := Suc (db_ids db)\<rparr>
           in case prepareTransitionRevision (ve_revision env) revisionID t [] [] (ep_Target policy) sourceRevisionID of
                Inl _ \<Rightarrow> (Inl RevisionNotPrepared, db1)
              | Inr revision \<Rightarrow>
                  (case InsertPolicyRevision (ro_EnterpriseID r) (revision_row_of (ro_EnterprisePolicyID r) revision) db1 of
                     Inl e \<Rightarrow> (Inl e, db1)
                   | Inr db2 \<Rightarrow> (Inr (pr_ID revision), db2))))"

text \<open>A transaction as the last step: the identifier of the shared transition revision is kept.\<close>

definition commit :: "string \<Rightarrow> transaction \<Rightarrow> database \<Rightarrow> rollout_error option \<times> string \<times> database" where
  "commit transitionID tx db = (case tx db of Inl e \<Rightarrow> (Some e, transitionID, db) | Inr db' \<Rightarrow> (None, transitionID, db'))"

definition start_transition ::
  "rollout_env \<Rightarrow> PolicyRolloutRecord \<Rightarrow> Template \<Rightarrow> string \<Rightarrow> PolicyRolloutTargetRecord \<Rightarrow> database \<Rightarrow> rollout_error option \<times> string \<times> database" where
  "start_transition env r t transitionID x db =
     (let assign = (\<lambda>revisionID. AssignPolicyForRollout (ro_ID r) (ro_EnterpriseID r) (tr_ServerID x) revisionID TRANSITION_PENDING)
      in if ro_Type r \<noteq> SEED \<and> transitionID \<noteq> [] then commit transitionID (assign transitionID) db
         else case create_transition env r t (source_revision r x) db of
             (Inl e, db') \<Rightarrow> (Some e, transitionID, db')
           | (Inr revisionID, db') \<Rightarrow>
               commit (if ro_Type r \<noteq> SEED then revisionID else transitionID) (assign revisionID) db')"

definition split_check :: "PolicyRolloutRecord \<Rightarrow> PolicyRolloutTargetRecord \<Rightarrow> database \<Rightarrow> rollout_error option" where
  "split_check r x db =
     (case PolicyRevisionByID db (ro_EnterprisePolicyID r) (tr_FinalRevisionID x) of
        Inl e \<Rightarrow> Some e
      | Inr finalRevision \<Rightarrow>
          if rv_ArtifactFormat finalRevision \<noteq> FormatOverride then None
          else (case ServerByID db (ro_EnterpriseID r) (tr_ServerID x) of
                  Inl e \<Rightarrow> Some e
                | Inr s \<Rightarrow> if serverSupportsSplitPolicy s then None else Some SplitUnsupported))"

definition advance_pending ::
  "rollout_env \<Rightarrow> PolicyRolloutRecord \<Rightarrow> Template \<Rightarrow> string \<Rightarrow> PolicyRolloutTargetRecord \<Rightarrow> database \<Rightarrow> rollout_error option \<times> string \<times> database" where
  "advance_pending env r t transitionID x db =
     (case split_check r x db of
        Some e \<Rightarrow> (Some e, transitionID, db)
      | None \<Rightarrow>
          (case rolloutNeedsV2Package env r x t db of
             Inl e \<Rightarrow> (Some e, transitionID, db)
           | Inr needsV2Package \<Rightarrow>
               if d_ArtifactFormat (t_Defaults t) = FormatV3 \<or>
                  normalizeCRSVersion (tr_InventoryCRSVersion x) = normalizeCRSVersion (t_CRSVersion t) \<and> \<not> needsV2Package
               then commit transitionID (AssignPolicyForRollout (ro_ID r) (ro_EnterpriseID r) (tr_ServerID x) (tr_FinalRevisionID x) POLICY_PENDING) db
               else if source_revision r x \<noteq> [] then start_transition env r t transitionID x db
               else commit transitionID (queueRolloutPackage env r t x) db))"

definition advance_package ::
  "PolicyRolloutRecord \<Rightarrow> Template \<Rightarrow> string \<Rightarrow> PolicyRolloutTargetRecord \<Rightarrow> database \<Rightarrow> rollout_error option \<times> string \<times> database" where
  "advance_package r t transitionID x db =
     (if tr_PackageStatus x = Some D_FAILED then (Some PackageFailed, transitionID, db)
      else if tr_PackageStatus x = Some D_APPLIED \<and> normalizeCRSVersion (tr_InventoryCRSVersion x) = normalizeCRSVersion (t_CRSVersion t)
      then commit transitionID (AssignPolicyForRollout (ro_ID r) (ro_EnterpriseID r) (tr_ServerID x) (tr_FinalRevisionID x) POLICY_PENDING) db
      else (None, transitionID, db))"

definition advanceRolloutTarget ::
  "rollout_env \<Rightarrow> time \<Rightarrow> PolicyRolloutRecord \<Rightarrow> Template \<Rightarrow> string \<Rightarrow> PolicyRolloutTargetRecord \<Rightarrow> database \<Rightarrow>
   rollout_error option \<times> string \<times> database" where
  "advanceRolloutTarget env now r t transitionID x db =
     (case tr_Status x of
        T_PENDING \<Rightarrow> advance_pending env r t transitionID x db
      | DEFERRED \<Rightarrow> advance_pending env r t transitionID x db
      | TRANSITION_PENDING \<Rightarrow>
          if tr_TransitionPolicyStatus x = Some D_FAILED then (Some TransitionPolicyFailed, transitionID, db)
          else if tr_CurrentPolicyRevision x = tr_TransitionRevisionID x \<and> tr_TransitionPolicyStatus x = Some D_APPLIED
          then commit transitionID (queueRolloutPackage env r t x) db
          else (None, transitionID, db)
      | PACKAGE_PENDING \<Rightarrow> advance_package r t transitionID x db
      | ROLLBACK_PENDING \<Rightarrow> advance_package r t transitionID x db
      | POLICY_PENDING \<Rightarrow>
          if tr_PolicyStatus x = Some D_FAILED then (Some FinalPolicyFailed, transitionID, db)
          else if tr_PolicyStatus x = Some D_APPLIED \<and> tr_CurrentPolicyRevision x = tr_FinalRevisionID x
          then commit transitionID (UpdatePolicyRolloutTarget now (ro_ID r) (tr_ServerID x) T_APPLIED None) db
          else (None, transitionID, db)
      | _ \<Rightarrow> (None, transitionID, db))"

section \<open>Failure handling\<close>

definition rolloutTargetChanged :: "PolicyRolloutTargetRecord \<Rightarrow> bool" where
  "rolloutTargetChanged x \<longleftrightarrow> tr_TransitionRevisionID x \<noteq> [] \<or> tr_PackageDeploymentID x \<noteq> [] \<or>
     tr_DesiredPolicyRevision x = tr_FinalRevisionID x \<and> tr_FinalRevisionID x \<noteq> []"

definition rolloutTargetFailed :: "PolicyRolloutTargetRecord \<Rightarrow> bool" where
  "rolloutTargetFailed x \<longleftrightarrow> \<not> finished (tr_Status x) \<and>
     (tr_Status x = T_FAILED \<or> tr_TransitionPolicyStatus x = Some D_FAILED \<or> tr_PackageStatus x = Some D_FAILED \<or> tr_PolicyStatus x = Some D_FAILED)"

definition last_transaction :: "transaction \<Rightarrow> database \<Rightarrow> outcome" where
  "last_transaction tx db = (case tx db of Inl e \<Rightarrow> (Some e, db) | Inr db' \<Rightarrow> (None, db'))"

definition create_recovery :: "rollout_env \<Rightarrow> policy_row \<Rightarrow> string \<Rightarrow> string \<Rightarrow> string list \<Rightarrow> transaction" where
  "create_recovery env policy revisionID systemVersionID serverIDs =
     CreatePolicyRollout (ve_randomID env) (ep_ID policy) (ep_EnterpriseID policy) (ep_CurrentRevisionID policy) RECOVERY QUEUED None
       revisionID systemVersionID serverIDs"

definition recoverFailedCanary ::
  "rollout_env \<Rightarrow> time \<Rightarrow> PolicyRolloutRecord \<Rightarrow> PolicyRolloutTargetRecord \<Rightarrow> detail \<Rightarrow> database \<Rightarrow> outcome" where
  "recoverFailedCanary env now r canary d db =
     (case UpdatePolicyRolloutTarget now (ro_ID r) (tr_ServerID canary) T_FAILED d db of
        Inl e \<Rightarrow> (Some e, db)
      | Inr db1 \<Rightarrow>
          (let db2 = UpdatePolicyRolloutStatus (ro_ID r) R_FAILED d db1
           in case EnterprisePolicyByID db2 (ro_EnterpriseID r) (ro_EnterprisePolicyID r) of
                Inl e \<Rightarrow> (Some e, db2)
              | Inr policy \<Rightarrow>
                  if tr_SourceRevisionID canary = [] then (None, db2)
                  else (case PolicyRevisionSystemVersion db2 (ro_EnterpriseID r) (tr_SourceRevisionID canary) of
                          Inl e \<Rightarrow> (Some e, db2)
                        | Inr v \<Rightarrow>
                            if v = [] then (Some SourceVersionUnavailable, db2)
                            else last_transaction (create_recovery env policy (tr_SourceRevisionID canary) v [tr_ServerID canary]) db2)))"

text \<open>The targets of a failed move, each marked as failed.\<close>

fun mark_failed ::
  "time \<Rightarrow> string \<Rightarrow> detail \<Rightarrow> PolicyRolloutTargetRecord list \<Rightarrow> database \<Rightarrow> (rollout_error + PolicyRolloutTargetRecord list) \<times> database" where
  "mark_failed now rolloutID d [] db = (Inr [], db)"
| "mark_failed now rolloutID d (x # xs) db =
     (if \<not> rolloutTargetFailed x then mark_failed now rolloutID d xs db
      else let mark = (if tr_Status x = T_FAILED then Inr db
             else UpdatePolicyRolloutTarget now rolloutID (tr_ServerID x) T_FAILED (if tr_Detail x \<noteq> None then tr_Detail x else d) db)
           in case mark of
                Inl e \<Rightarrow> (Inl e, db)
              | Inr db' \<Rightarrow>
                  (case mark_failed now rolloutID d xs db' of
                     (Inl e, db'') \<Rightarrow> (Inl e, db'')
                   | (Inr failed, db'') \<Rightarrow> (Inr (x\<lparr>tr_Status := T_FAILED\<rparr> # failed), db'')))"

record recovery_group =
  rg_key :: "string \<times> string \<times> string"
  rg_policy :: policy_row
  rg_serverIDs :: "string list"

definition add_to_group :: "database \<Rightarrow> string \<Rightarrow> string \<times> string \<times> string \<Rightarrow> string \<Rightarrow> recovery_group list \<Rightarrow> rollout_error + recovery_group list" where
  "add_to_group db enterpriseID key serverID groups =
     (if list_ex (\<lambda>g. rg_key g = key) groups
      then Inr (map (\<lambda>g. if rg_key g = key then g\<lparr>rg_serverIDs := rg_serverIDs g @ [serverID]\<rparr> else g) groups)
      else case EnterprisePolicyByID db enterpriseID (fst key) of
          Inl e \<Rightarrow> Inl e
        | Inr policy \<Rightarrow> Inr (groups @ [\<lparr>rg_key = key, rg_policy = policy, rg_serverIDs = [serverID]\<rparr>]))"

definition recover_step ::
  "rollout_env \<Rightarrow> PolicyRolloutRecord \<Rightarrow> PolicyRolloutTargetRecord \<Rightarrow> recovery_group list \<times> rollout_error list \<times> database \<Rightarrow>
   recovery_group list \<times> rollout_error list \<times> database" where
  "recover_step env r x st =
     (let (groups, errs, db) = st; tx = (\<lambda>op. case op db of Inl e \<Rightarrow> (groups, errs @ [e], db) | Inr db' \<Rightarrow> (groups, errs, db'))
      in if \<not> rolloutTargetChanged x then st
         else if tr_SourceRevisionID x = [] then tx (RestoreUnassignedPolicyAfterFailedMove (ro_ID r) (ro_EnterpriseID r) (tr_ServerID x))
         else case PolicyRevisionOwner db (ro_EnterpriseID r) (tr_SourceRevisionID x) of
             Inl e \<Rightarrow> (groups, errs @ [e], db)
           | Inr (policyID, v) \<Rightarrow>
               if v = [] then tx (RestorePolicyRevisionAfterFailedMove (ve_randomID env) (ro_ID r) (ro_EnterpriseID r) (tr_ServerID x) (tr_SourceRevisionID x))
               else (case add_to_group db (ro_EnterpriseID r) (policyID, tr_SourceRevisionID x, v) (tr_ServerID x) groups of
                       Inl e \<Rightarrow> (groups, errs @ [e], db)
                     | Inr groups' \<Rightarrow> (groups', errs, db)))"

definition recover_group_step :: "rollout_env \<Rightarrow> recovery_group \<Rightarrow> rollout_error list \<times> database \<Rightarrow> rollout_error list \<times> database" where
  "recover_group_step env g st =
     (let (errs, db) = st; (_, revisionID, systemVersionID) = rg_key g
      in case create_recovery env (rg_policy g) revisionID systemVersionID (rg_serverIDs g) db of
           Inl e \<Rightarrow> (errs @ [e], db) | Inr db' \<Rightarrow> (errs, db'))"

definition seed_failure :: "rollout_env \<Rightarrow> time \<Rightarrow> PolicyRolloutRecord \<Rightarrow> PolicyRolloutTargetRecord list \<Rightarrow> detail \<Rightarrow> database \<Rightarrow> outcome" where
  "seed_failure env now r targets d db =
     (case mark_failed now (ro_ID r) d targets db of
        (Inl e, db1) \<Rightarrow> (Some e, db1)
      | (Inr failed, db1) \<Rightarrow>
          if \<not> list_ex rolloutTargetChanged failed then (None, UpdatePolicyRolloutStatus (ro_ID r) PAUSED d db1)
          else (let db2 = UpdatePolicyRolloutStatus (ro_ID r) R_FAILED d db1;
                    (groups, errs, db3) = fold (recover_step env r) failed ([], [], db2);
                    (errs', db4) = fold (recover_group_step env) groups (errs, db3)
                in (if errs' = [] then None else Some (Joined errs'), db4)))"

definition needs_recovery :: "PolicyRolloutTargetRecord \<Rightarrow> bool" where
  "needs_recovery x \<longleftrightarrow> tr_Status x \<noteq> T_PENDING \<and> tr_Status x \<noteq> DEFERRED \<and> (tr_Status x \<noteq> T_FAILED \<or> rolloutTargetChanged x)"

definition handleRolloutFailure ::
  "rollout_env \<Rightarrow> time \<Rightarrow> PolicyRolloutRecord \<Rightarrow> PolicyRolloutTargetRecord list \<Rightarrow> detail \<Rightarrow> database \<Rightarrow> outcome" where
  "handleRolloutFailure env now r targets d db =
     (case EnterprisePolicyByID db (ro_EnterpriseID r) (ro_EnterprisePolicyID r) of
        Inl e \<Rightarrow> (Some e, db)
      | Inr policy \<Rightarrow>
          if ro_Type r = SEED then seed_failure env now r targets d db
          else case (if ro_Type r = UPDATE \<and> ro_FromRevisionID r \<noteq> []
                then find (\<lambda>x. tr_BatchNo x = 0 \<and> tr_Status x = T_FAILED \<and> rolloutTargetChanged x) targets else None) of
              Some canary \<Rightarrow> recoverFailedCanary env now r canary d db
            | None \<Rightarrow>
                if ro_Type r \<noteq> UPDATE \<or> ep_UpdateStrategy policy \<noteq> ''AUTOMATIC'' \<or> ro_FromRevisionID r = []
                then (None, UpdatePolicyRolloutStatus (ro_ID r) PAUSED d db)
                else (let recoveryServers = map tr_ServerID (filter needs_recovery targets)
                      in if recoveryServers = [] then (None, UpdatePolicyRolloutStatus (ro_ID r) PAUSED d db)
                         else let db1 = UpdatePolicyRolloutStatus (ro_ID r) R_FAILED d db
                              in case PolicyRevisionByID db1 (ro_EnterprisePolicyID r) (ro_FromRevisionID r) of
                                   Inl e \<Rightarrow> (Some e, db1)
                                 | Inr fromRevision \<Rightarrow>
                                     last_transaction (create_recovery env policy (rv_ID fromRevision) (rv_SystemPolicyVersionID fromRevision)
                                       recoveryServers) db1))"

section \<open>A pass over a rollout\<close>

definition refresh_target :: "string \<Rightarrow> PolicyRolloutTargetRecord \<Rightarrow> database \<Rightarrow> PolicyRolloutTargetRecord \<times> database" where
  "refresh_target rolloutID x db =
     (if tr_Status x = DEFERRED \<and> tr_Online x then
        (let resumeStatus = (case tr_ResumeStatus x of None \<Rightarrow> T_PENDING | Some s \<Rightarrow> s)
         in (x\<lparr>tr_Status := resumeStatus, tr_ResumeStatus := None\<rparr>, ResumePolicyRolloutTarget rolloutID (tr_ServerID x) resumeStatus db))
      else if tr_Status x \<noteq> DEFERRED \<and> \<not> finished (tr_Status x) \<and> tr_Status x \<noteq> T_FAILED \<and> \<not> tr_Online x then
        (x\<lparr>tr_ResumeStatus := Some (tr_Status x), tr_Status := DEFERRED\<rparr>, DeferPolicyRolloutTarget rolloutID (tr_ServerID x) (tr_Status x) db)
      else (x, db))"

fun refresh_targets :: "string \<Rightarrow> PolicyRolloutTargetRecord list \<Rightarrow> database \<Rightarrow> PolicyRolloutTargetRecord list \<times> database" where
  "refresh_targets rolloutID [] db = ([], db)"
| "refresh_targets rolloutID (x # xs) db =
     (let (x', db') = refresh_target rolloutID x db; (xs', db'') = refresh_targets rolloutID xs db' in (x' # xs', db''))"

definition is_canary :: "target_status \<Rightarrow> PolicyRolloutTargetRecord \<Rightarrow> bool" where
  "is_canary s x \<longleftrightarrow> tr_BatchNo x = 0 \<and> tr_Status x = s"

definition last_such :: "('a \<Rightarrow> bool) \<Rightarrow> 'a list \<Rightarrow> 'a option" where
  "last_such P xs = find P (rev xs)"

definition canary_applied :: "PolicyRolloutTargetRecord list \<Rightarrow> bool" where
  "canary_applied targets \<longleftrightarrow> list_ex (\<lambda>x. tr_BatchNo x = 0 \<and> finished (tr_Status x)) targets"

definition is_candidate :: "PolicyRolloutTargetRecord \<Rightarrow> bool" where
  "is_candidate x \<longleftrightarrow> tr_BatchNo x > 0 \<and> tr_Status x = T_PENDING \<and> tr_Online x"

definition set_record_batch :: "string \<Rightarrow> nat \<Rightarrow> PolicyRolloutTargetRecord \<Rightarrow> PolicyRolloutTargetRecord" where
  "set_record_batch serverID n x = (if tr_ServerID x = serverID then x\<lparr>tr_BatchNo := n\<rparr> else x)"

definition replace_canary ::
  "string \<Rightarrow> PolicyRolloutTargetRecord list \<Rightarrow> database \<Rightarrow> rollout_error + (PolicyRolloutTargetRecord list \<times> database)" where
  "replace_canary rolloutID targets db =
     (case last_such (is_canary DEFERRED) targets of
        None \<Rightarrow> Inr (targets, db)
      | Some deferredCanary \<Rightarrow>
          if canary_applied targets then Inr (targets, db)
          else (case find is_candidate targets of
                  None \<Rightarrow> Inr (targets, db)
                | Some candidate \<Rightarrow>
                    (case SwapPolicyRolloutCanary rolloutID (tr_ServerID deferredCanary) (tr_ServerID candidate) (tr_BatchNo candidate) db of
                       Inl e \<Rightarrow> Inl e
                     | Inr db' \<Rightarrow>
                         Inr (map (set_record_batch (tr_ServerID candidate) 0 \<circ> set_record_batch (tr_ServerID deferredCanary) (tr_BatchNo candidate)) targets, db'))))"

definition hasPendingExpansionTargets :: "PolicyRolloutTargetRecord list \<Rightarrow> bool" where
  "hasPendingExpansionTargets targets \<longleftrightarrow> list_ex (\<lambda>x. tr_BatchNo x > 0 \<and> \<not> finished (tr_Status x)) targets"

definition rate_exceeded :: "int \<Rightarrow> int \<Rightarrow> bool" where
  "rate_exceeded baseline observed \<longleftrightarrow> (of_int observed / 10 :: rat) > max 5 (of_int baseline / 60 * 3)"

datatype gate = Gate_not_ready | Gate_failed rollout_error | Gate_passed

definition evaluateCanaryGate :: "time \<Rightarrow> Template \<Rightarrow> PolicyRolloutTargetRecord \<Rightarrow> database \<Rightarrow> gate" where
  "evaluateCanaryGate now t canary db =
     (case tr_StabilizedAt canary of
        None \<Rightarrow> Gate_not_ready
      | Some start \<Rightarrow>
          if now < start + minutes 10 then Gate_not_ready
          else if \<not> tr_Online canary then Gate_failed CanaryOffline
          else if normalizeCRSVersion (tr_InventoryCRSVersion canary) \<noteq> normalizeCRSVersion (t_CRSVersion t) then Gate_failed CanaryVersionDiffers
          else if tr_CurrentPolicyRevision canary \<noteq> tr_FinalRevisionID canary \<or> tr_PolicyStatus canary \<noteq> Some D_APPLIED
          then Gate_failed CanaryRevisionUnknown
          else (let baseline = CountBlockedEvents db (tr_ServerID canary) (start - minutes 60) start [];
                    observed = CountBlockedEvents db (tr_ServerID canary) start (start + minutes 10) (tr_FinalRevisionID canary)
                in if rate_exceeded baseline observed then Gate_failed (BlockedRateExceeded observed baseline) else Gate_passed))"

definition gate_applies :: "PolicyRolloutRecord \<Rightarrow> PolicyRolloutTargetRecord list \<Rightarrow> bool" where
  "gate_applies r targets \<longleftrightarrow> ro_Type r = UPDATE \<and> ro_FromRevisionID r \<noteq> [] \<and> ro_Status r = CANARY \<and> hasPendingExpansionTargets targets"

definition waiting :: "PolicyRolloutTargetRecord \<Rightarrow> bool" where
  "waiting x \<longleftrightarrow> \<not> finished (tr_Status x) \<and> tr_Status x \<noteq> DEFERRED"

definition current_batch :: "PolicyRolloutTargetRecord list \<Rightarrow> nat option" where
  "current_batch targets =
     fold (\<lambda>x acc. if \<not> waiting x then acc else case acc of None \<Rightarrow> Some (tr_BatchNo x) | Some b \<Rightarrow> Some (min (tr_BatchNo x) b)) targets None"

definition existingTransitionRevision :: "PolicyRolloutTargetRecord list \<Rightarrow> string" where
  "existingTransitionRevision targets =
     (case find (\<lambda>x. tr_TransitionRevisionID x \<noteq> []) targets of None \<Rightarrow> [] | Some x \<Rightarrow> tr_TransitionRevisionID x)"

fun advance_targets ::
  "rollout_env \<Rightarrow> time \<Rightarrow> PolicyRolloutRecord \<Rightarrow> Template \<Rightarrow> nat \<Rightarrow> string \<Rightarrow> PolicyRolloutTargetRecord list \<Rightarrow> database \<Rightarrow> outcome" where
  "advance_targets env now r t batch transitionID [] db = (None, db)"
| "advance_targets env now r t batch transitionID (x # xs) db =
     (if tr_BatchNo x \<noteq> batch \<or> finished (tr_Status x) \<or> \<not> tr_Online x then advance_targets env now r t batch transitionID xs db
      else case advanceRolloutTarget env now r t transitionID x db of
          (None, transitionID', db') \<Rightarrow> advance_targets env now r t batch transitionID' xs db'
        | (Some e, _, db') \<Rightarrow>
            (let db'' = (case UpdatePolicyRolloutTarget now (ro_ID r) (tr_ServerID x) T_FAILED (Some e) db' of Inl _ \<Rightarrow> db' | Inr d \<Rightarrow> d)
             in handleRolloutFailure env now r (ListPolicyRolloutTargets db'' now (ro_ID r)) (Some e) db''))"

definition expand_rollout ::
  "rollout_env \<Rightarrow> time \<Rightarrow> PolicyRolloutRecord \<Rightarrow> Template \<Rightarrow> PolicyRolloutTargetRecord list \<Rightarrow> database \<Rightarrow> outcome" where
  "expand_rollout env now r t targets db =
     (case current_batch targets of
        None \<Rightarrow> if list_ex (\<lambda>x. tr_Status x = DEFERRED) targets then (None, db) else last_transaction (CompletePolicyRollout r) db
      | Some batch \<Rightarrow>
          (let rolloutStatus = (if batch > 0 then EXPANDING else CANARY);
               db' = (if ro_Status r \<noteq> rolloutStatus then UpdatePolicyRolloutStatus (ro_ID r) rolloutStatus None db else db)
           in advance_targets env now r t batch (existingTransitionRevision targets) targets db'))"

definition gated_expansion ::
  "rollout_env \<Rightarrow> time \<Rightarrow> PolicyRolloutRecord \<Rightarrow> Template \<Rightarrow> PolicyRolloutTargetRecord option \<Rightarrow> PolicyRolloutTargetRecord list \<Rightarrow> database \<Rightarrow> outcome" where
  "gated_expansion env now r t appliedCanary targets db =
     (case (if gate_applies r targets then appliedCanary else None) of
        None \<Rightarrow> expand_rollout env now r t targets db
      | Some canary \<Rightarrow>
          (case evaluateCanaryGate now t canary db of
             Gate_not_ready \<Rightarrow> (None, db)
           | Gate_failed failure \<Rightarrow> recoverFailedCanary env now r canary (Some failure) db
           | Gate_passed \<Rightarrow> expand_rollout env now r t targets db))"

definition processPolicyRollout :: "rollout_env \<Rightarrow> time \<Rightarrow> PolicyRolloutRecord \<Rightarrow> database \<Rightarrow> outcome" where
  "processPolicyRollout env now r db =
     (case ve_template env (ro_TargetSystemPolicyVersionID r) of
        None \<Rightarrow> (Some TemplateUnavailable, UpdatePolicyRolloutStatus (ro_ID r) R_FAILED (Some TemplateUnavailable) db)
      | Some t \<Rightarrow>
          if t_Status t = StatusWithdrawn
          then (Some TemplateWithdrawn, UpdatePolicyRolloutStatus (ro_ID r) R_FAILED (Some TemplateWithdrawn) db)
          else (let targets = ListPolicyRolloutTargets db now (ro_ID r)
                in case find (\<lambda>x. tr_Status x = T_FAILED) targets of
                     Some x \<Rightarrow> handleRolloutFailure env now r targets (tr_Detail x) db
                   | None \<Rightarrow>
                       (let (targets1, db1) = refresh_targets (ro_ID r) targets db
                        in case replace_canary (ro_ID r) targets1 db1 of
                             Inl e \<Rightarrow> (Some e, db1)
                           | Inr (targets2, db2) \<Rightarrow>
                               gated_expansion env now r t (last_such (is_canary T_APPLIED) targets1) targets2 db2)))"

definition sync_rollouts :: "rollout_env \<Rightarrow> time \<Rightarrow> database \<Rightarrow> database" where
  "sync_rollouts env now db = fold (\<lambda>r db. snd (processPolicyRollout env now r db)) (ListActivePolicyRollouts db) db"

end
