(* ===== verification/Rollout_Invariants.thy ===== *)
theory Rollout_Invariants
  imports Rollout "HOL-Library.Multiset"
begin

text \<open>
  Invariants of staged rollouts. The step relation \<open>rollout_step\<close> has one rule per operation that changes
  rollouts (the conversion of a legacy policy and the end of an enterprise among them), one for a pass of the engine, one for the
  deletion of a revoked server, which removes its targets, and one for everything that servers and the rest of the Manager
  write to the other tables, new policies included; the invariant \<open>rollouts_ok\<close> is kept by each of them. What it says of canaries holds
  while no server was deleted, and what it says of the unfinished rollouts of a policy holds for policies that were
  not converted while they had one. The locale
  \<open>layout_kept\<close> is the contract most transactions share: they leave the list of targets and the
  assignment of targets to batches as they are.
\<close>

section \<open>Layout of the targets\<close>

definition target_keys :: "database \<Rightarrow> (string \<times> string) list" where
  "target_keys db = map (\<lambda>t. (pt_RolloutID t, pt_ServerID t)) (db_targets db)"

definition slots :: "database \<Rightarrow> (string \<times> nat) multiset" where
  "slots db = mset (map (\<lambda>t. (pt_RolloutID t, pt_BatchNo t)) (db_targets db))"

definition rollout_ids :: "database \<Rightarrow> string list" where
  "rollout_ids db = map ro_ID (db_rollouts db)"

definition policy_ids :: "database \<Rightarrow> string list" where
  "policy_ids db = map ep_ID (db_policies db)"

text \<open>
  A rollout has at most one canary, and no batch after it has more than 25 servers. As long as no server was
  deleted (\<open>whole\<close>), every rollout with targets has its canary.
\<close>

definition batches_ok :: "bool \<Rightarrow> database \<Rightarrow> bool" where
  "batches_ok whole db \<longleftrightarrow> distinct (target_keys db) \<and> fst ` set (target_keys db) \<subseteq> set (rollout_ids db) \<and>
     (\<forall>rid b. count (slots db) (rid, b) \<le> (if b = 0 then 1 else 25)) \<and>
     (whole \<longrightarrow> (\<forall>rid. rid \<in> fst ` set (target_keys db) \<longrightarrow> count (slots db) (rid, 0) = 1))"

lemma batches_ok_cong:
  "target_keys db' = target_keys db \<Longrightarrow> slots db' = slots db \<Longrightarrow> rollout_ids db' = rollout_ids db \<Longrightarrow> batches_ok C db' = batches_ok C db"
  by (simp add: batches_ok_def)

lemma update_where_map:
  assumes "\<And>x. P x \<Longrightarrow> g (f x) = g x"
  shows "map g (update_where P f xs) = map g xs"
  using assms by (induction xs) (auto simp: update_where_def)

lemma update_where_ball: "(\<forall>x \<in> set (update_where P f xs). Q x) \<longleftrightarrow> (\<forall>x \<in> set xs. Q (if P x then f x else x))"
  by (auto simp: update_where_def)

lemma update_targets_keeps:
  assumes "\<And>t. P t \<Longrightarrow> pt_RolloutID (f t) = pt_RolloutID t \<and> pt_ServerID (f t) = pt_ServerID t \<and> pt_BatchNo (f t) = pt_BatchNo t"
  shows "target_keys (update_targets P f db) = target_keys db" "slots (update_targets P f db) = slots db"
proof -
  show "target_keys (update_targets P f db) = target_keys db"
    using assms by (simp add: target_keys_def update_targets_def update_where_map)
  have "map (\<lambda>t. (pt_RolloutID t, pt_BatchNo t)) (update_where P f (db_targets db)) = map (\<lambda>t. (pt_RolloutID t, pt_BatchNo t)) (db_targets db)"
    by (rule update_where_map) (use assms in simp)
  then show "slots (update_targets P f db) = slots db" by (simp add: slots_def update_targets_def)
qed

text \<open>The tables an operation on targets leaves alone.\<close>

definition same_rollouts :: "database \<Rightarrow> database \<Rightarrow> bool" where
  "same_rollouts db db' \<longleftrightarrow> db_rollouts db' = db_rollouts db \<and> db_policies db' = db_policies db"

locale layout_kept =
  fixes op :: transaction
  assumes layout: "op db = Inr db' \<Longrightarrow> target_keys db' = target_keys db \<and> slots db' = slots db"
    and rollouts: "op db = Inr db' \<Longrightarrow> same_rollouts db db'"
begin

lemma keeps_batches: "op db = Inr db' \<Longrightarrow> batches_ok C db' = batches_ok C db"
  using layout rollouts by (intro batches_ok_cong) (auto simp: rollout_ids_def same_rollouts_def)

lemma keeps_last: "batches_ok C (snd (last_transaction op db)) = batches_ok C db" "same_rollouts db (snd (last_transaction op db))"
  using keeps_batches rollouts by (auto simp: last_transaction_def same_rollouts_def split: sum.splits)

lemma keeps_commit: "batches_ok C (snd (snd (commit tid op db))) = batches_ok C db" "same_rollouts db (snd (snd (commit tid op db)))"
  using keeps_batches rollouts by (auto simp: commit_def same_rollouts_def split: sum.splits)

end

lemmas target_ops = set_target_status_def assign_member_def supersede_policies_def supersede_packages_def desire_revision_def
  desire_packages_def upsert_policy_deployment_def

lemma frame_simps [simp]:
  "db_targets (assign_member s p db) = db_targets db" "db_rollouts (assign_member s p db) = db_rollouts db"
  "db_policies (assign_member s p db) = db_policies db"
  "db_targets (supersede_policies s db) = db_targets db" "db_rollouts (supersede_policies s db) = db_rollouts db"
  "db_policies (supersede_policies s db) = db_policies db"
  "db_targets (supersede_packages s db) = db_targets db" "db_rollouts (supersede_packages s db) = db_rollouts db"
  "db_policies (supersede_packages s db) = db_policies db"
  "db_targets (desire_revision s v db) = db_targets db" "db_rollouts (desire_revision s v db) = db_rollouts db"
  "db_policies (desire_revision s v db) = db_policies db"
  "db_targets (desire_packages s a m d db) = db_targets db" "db_rollouts (desire_packages s a m d db) = db_rollouts db"
  "db_policies (desire_packages s a m d db) = db_policies db"
  "db_targets (upsert_policy_deployment s v rid db) = db_targets db" "db_rollouts (upsert_policy_deployment s v rid db) = db_rollouts db"
  "db_policies (upsert_policy_deployment s v rid db) = db_policies db"
  "db_rollouts (update_targets P f db) = db_rollouts db" "db_policies (update_targets P f db) = db_policies db"
  by (simp_all add: target_ops update_targets_def Let_def)

lemma frame_layout:
  "db_targets db' = db_targets db \<Longrightarrow> target_keys db' = target_keys db"
  "db_targets db' = db_targets db \<Longrightarrow> slots db' = slots db"
  by (simp_all add: target_keys_def slots_def)

lemma update_targets_layout:
  assumes "\<And>t. P t \<Longrightarrow> pt_RolloutID (f t) = pt_RolloutID t \<and> pt_ServerID (f t) = pt_ServerID t \<and> pt_BatchNo (f t) = pt_BatchNo t"
    and "db_targets db1 = db_targets db"
  shows "target_keys (update_targets P f db1) = target_keys db \<and> slots (update_targets P f db1) = slots db"
  using update_targets_keeps [of P f db1, OF assms(1)] assms(2) by (simp add: frame_layout [OF assms(2)])

interpretation update_target: layout_kept "UpdatePolicyRolloutTarget now rid sid status d" for now rid sid status d
proof
  fix db db' assume op: "UpdatePolicyRolloutTarget now rid sid status d db = Inr db'"
  let ?db = "update_targets (of_target rid sid) (set_target_status now status d) db"
  have "db_targets db' = db_targets ?db" "same_rollouts ?db db'"
    using op by (auto simp: UpdatePolicyRolloutTarget_def Let_def same_rollouts_def split: if_splits option.splits)
  moreover have "target_keys ?db = target_keys db \<and> slots ?db = slots db"
    by (rule update_targets_layout) (simp_all add: set_target_status_def)
  ultimately show "target_keys db' = target_keys db \<and> slots db' = slots db" "same_rollouts db db'"
    by (simp_all add: same_rollouts_def target_keys_def slots_def)
qed

interpretation assign_policy: layout_kept "AssignPolicyForRollout rid eid sid revisionID status" for rid eid sid revisionID status
proof
  fix db db' assume op: "AssignPolicyForRollout rid eid sid revisionID status db = Inr db'"
  then obtain f where db': "db' = update_targets (of_target rid sid) f (upsert_policy_deployment sid revisionID rid (desire_revision sid revisionID (supersede_policies sid db)))"
    and f: "\<And>t. pt_RolloutID (f t) = pt_RolloutID t \<and> pt_ServerID (f t) = pt_ServerID t \<and> pt_BatchNo (f t) = pt_BatchNo t"
    by (auto simp: AssignPolicyForRollout_def Let_def split: if_splits)
  show "target_keys db' = target_keys db \<and> slots db' = slots db" unfolding db' by (rule update_targets_layout) (simp_all add: f)
  show "same_rollouts db db'" by (simp add: db' same_rollouts_def)
qed

interpretation assign_packages: layout_kept "AssignPackagesForRollout randomID rid eid sid agentID moduleID status"
  for randomID rid eid sid agentID moduleID status
proof
  fix db db' assume op: "AssignPackagesForRollout randomID rid eid sid agentID moduleID status db = Inr db'"
  then obtain f db1 where db': "db' = update_targets (of_target rid sid) f db1" "db_targets db1 = db_targets db"
      "db_rollouts db1 = db_rollouts db" "db_policies db1 = db_policies db"
    and f: "\<And>t. pt_RolloutID (f t) = pt_RolloutID t \<and> pt_ServerID (f t) = pt_ServerID t \<and> pt_BatchNo (f t) = pt_BatchNo t"
    by (auto simp: AssignPackagesForRollout_def Let_def split: if_splits)
  show "target_keys db' = target_keys db \<and> slots db' = slots db" unfolding db'(1) by (rule update_targets_layout) (simp_all add: f db'(2))
  show "same_rollouts db db'" by (simp add: db' same_rollouts_def)
qed

interpretation restore_unassigned: layout_kept "RestoreUnassignedPolicyAfterFailedMove rid eid sid" for rid eid sid
proof
  fix db db' assume op: "RestoreUnassignedPolicyAfterFailedMove rid eid sid db = Inr db'"
  then obtain f where db': "db' = update_targets (of_target rid sid) f (desire_revision sid [] (supersede_policies sid db))"
    and f: "\<And>t. pt_RolloutID (f t) = pt_RolloutID t \<and> pt_ServerID (f t) = pt_ServerID t \<and> pt_BatchNo (f t) = pt_BatchNo t"
    by (auto simp: RestoreUnassignedPolicyAfterFailedMove_def split: if_splits option.splits)
  show "target_keys db' = target_keys db \<and> slots db' = slots db" unfolding db' by (rule update_targets_layout) (simp_all add: f)
  show "same_rollouts db db'" by (simp add: db' same_rollouts_def)
qed

interpretation restore_revision: layout_kept "RestorePolicyRevisionAfterFailedMove randomID rid eid sid revisionID" for randomID rid eid sid revisionID
proof
  fix db db' assume op: "RestorePolicyRevisionAfterFailedMove randomID rid eid sid revisionID db = Inr db'"
  then have t: "db_targets db' = db_targets db" and r: "same_rollouts db db'"
    by (auto simp: RestorePolicyRevisionAfterFailedMove_def same_rollouts_def Let_def split: if_splits option.splits prod.splits)
  show "target_keys db' = target_keys db \<and> slots db' = slots db" using frame_layout [OF t] by simp
  show "same_rollouts db db'" by (rule r)
qed

interpretation queue_package: layout_kept "queueRolloutPackage env r t x" for env r t x
proof
  fix db db' assume "queueRolloutPackage env r t x db = Inr db'"
  then obtain agentID moduleID status where a: "AssignPackagesForRollout (ve_randomID env) (ro_ID r) (ro_EnterpriseID r) (tr_ServerID x) agentID moduleID status db = Inr db'"
    by (auto simp: queueRolloutPackage_def split: option.splits sum.splits if_splits)
  show "target_keys db' = target_keys db \<and> slots db' = slots db" by (rule assign_packages.layout [OF a])
  show "same_rollouts db db'" by (rule assign_packages.rollouts [OF a])
qed

text \<open>Exchanging the canary moves two targets between batches and keeps the size of every batch.\<close>

lemma exchange_batch:
  assumes "changed_rows P (set_batch n) ts = 1" "\<forall>t \<in> set ts. P t \<longrightarrow> pt_RolloutID t = rid \<and> pt_BatchNo t = m"
  shows "mset (map (\<lambda>t. (pt_RolloutID t, pt_BatchNo t)) (update_where P (set_batch n) ts)) + {#(rid, m)#} =
    mset (map (\<lambda>t. (pt_RolloutID t, pt_BatchNo t)) ts) + {#(rid, n)#}"
  using assms
proof (induction ts)
  case (Cons t ts)
  let ?g = "\<lambda>t. (pt_RolloutID t, pt_BatchNo t)"
  show ?case
  proof (cases "P t \<and> set_batch n t \<noteq> t")
    case True
    then have "changed_rows P (set_batch n) ts = 0" using Cons.prems(1) by (simp add: changed_rows_def)
    then have "\<forall>u \<in> set ts. P u \<longrightarrow> set_batch n u = u" by (simp add: changed_rows_def filter_empty_conv)
    then have "update_where P (set_batch n) ts = ts" unfolding update_where_def by (intro map_idI) simp
    then have "update_where P (set_batch n) (t # ts) = set_batch n t # ts" using True by (simp add: update_where_def)
    moreover have "pt_RolloutID t = rid" "pt_BatchNo t = m" using True Cons.prems(2) by simp_all
    ultimately show ?thesis by (simp add: set_batch_def [of n t])
  next
    case False
    then have "changed_rows P (set_batch n) ts = 1" using Cons.prems(1) by (auto simp: changed_rows_def split: if_splits)
    then have ih: "mset (map ?g (update_where P (set_batch n) ts)) + {#(rid, m)#} = mset (map ?g ts) + {#(rid, n)#}"
      using Cons.IH Cons.prems(2) by simp
    have "update_where P (set_batch n) (t # ts) = t # update_where P (set_batch n) ts"
      using False by (simp add: update_where_def)
    then show ?thesis using ih by simp
  qed
qed (simp add: changed_rows_def)

interpretation swap_canary: layout_kept "SwapPolicyRolloutCanary rid deferred canary batch" for rid deferred canary batch
proof
  fix db db' assume op: "SwapPolicyRolloutCanary rid deferred canary batch db = Inr db'"
  let ?P = "\<lambda>t. of_target rid deferred t \<and> pt_BatchNo t = 0 \<and> pt_Status t = DEFERRED"
  let ?Q = "\<lambda>t. of_target rid canary t \<and> pt_BatchNo t = batch \<and> pt_Status t = T_PENDING"
  let ?db = "update_targets ?P (set_batch batch) db"
  have P: "changed_rows ?P (set_batch batch) (db_targets db) = 1" and Q: "changed_rows ?Q (set_batch 0) (db_targets ?db) = 1"
    and db': "db' = update_targets ?Q (set_batch 0) ?db"
    using op by (auto simp: SwapPolicyRolloutCanary_def Let_def split: if_splits)
  have "slots ?db + {#(rid, 0)#} = slots db + {#(rid, batch)#}"
    using exchange_batch [OF P, of rid 0] by (simp add: slots_def update_targets_def of_target_def)
  moreover have "slots db' + {#(rid, batch)#} = slots ?db + {#(rid, 0)#}"
    using exchange_batch [OF Q, of rid batch] by (simp add: slots_def update_targets_def of_target_def db')
  ultimately have "slots db' = slots db" by simp
  moreover have "target_keys db' = target_keys db"
    unfolding db' target_keys_def update_targets_def by (simp add: update_where_map set_batch_def)
  ultimately show "target_keys db' = target_keys db \<and> slots db' = slots db" by simp
  show "same_rollouts db db'" by (simp add: db' same_rollouts_def)
qed

section \<open>New rollouts\<close>

lemma batch_members: "{i. i < k \<and> batch_of i = b} \<subseteq> (if b = 0 then {0} else {25 * (b - 1) + 1 ..< 25 * b + 1})"
  by (auto simp: batch_of_def split: if_splits)

lemma count_batches:
  "count (mset (map (\<lambda>i. (rid, batch_of i)) [0..<k])) (rid', b) = (if rid' = rid then card {i. i < k \<and> batch_of i = b} else 0)"
proof (induction k)
  case (Suc k)
  have "{i. i < Suc k \<and> batch_of i = b} = (if batch_of k = b then insert k {i. i < k \<and> batch_of i = b} else {i. i < k \<and> batch_of i = b})"
    by (auto simp: less_Suc_eq)
  then have "card {i. i < Suc k \<and> batch_of i = b} = (if batch_of k = b then Suc (card {i. i < k \<and> batch_of i = b}) else card {i. i < k \<and> batch_of i = b})"
    by simp
  then show ?case using Suc by (cases "rid' = rid") simp_all
qed simp

lemma batch_size: "card {i. i < k \<and> batch_of i = b} \<le> (if b = 0 then 1 else 25)"
proof -
  have "card {i. i < k \<and> batch_of i = b} \<le> card (if b = 0 then {0} else {25 * (b - 1) + 1 ..< 25 * b + 1})"
    by (rule card_mono [OF _ batch_members]) simp
  also have "\<dots> \<le> (if b = 0 then 1 else 25)" by (cases b) auto
  finally show ?thesis .
qed

lemma one_canary: "0 < k \<Longrightarrow> card {i. i < k \<and> batch_of i = 0} = 1"
proof -
  assume "0 < k"
  then have "{i. i < k \<and> batch_of i = 0} = {0}" by (auto simp: batch_of_def)
  then show ?thesis by simp
qed

lemma find_Some: "find P xs = Some x \<Longrightarrow> x \<in> set xs \<and> P x"
  by (induction xs) (auto split: if_splits)

lemma find_None: "find P xs = None \<longleftrightarrow> (\<forall>x \<in> set xs. \<not> P x)"
  by (induction xs) auto

lemma insert_targets:
  "fold_result (insert_target_step rid fin) db (enumerate n sids) = Inr db' \<Longrightarrow>
     target_keys db' = target_keys db @ map (\<lambda>s. (rid, s)) sids \<and>
     slots db' = slots db + mset (map (\<lambda>i. (rid, batch_of i)) [n..<n + length sids]) \<and> same_rollouts db db' \<and> db_ids db' = db_ids db"
proof (induction sids arbitrary: n db)
  case (Cons s sids)
  from Cons.prems obtain d where d: "desired_of db s = Some d"
    and rest: "fold_result (insert_target_step rid fin) (db\<lparr>db_targets := db_targets db @ [new_target rid fin n d]\<rparr>) (enumerate (Suc n) sids) = Inr db'"
    by (cases "desired_of db s") (simp_all add: insert_target_step_def [of rid fin db "(n, s)"])
  have "ds_ServerID d = s" using d find_Some by (fastforce simp: desired_of_def)
  moreover have "[n..<n + length (s # sids)] = n # [Suc n..<Suc n + length sids]" by (subst upt_conv_Cons) simp_all
  ultimately show ?case
    using Cons.IH [OF rest] by (simp add: target_keys_def slots_def new_target_def same_rollouts_def)
qed (simp add: same_rollouts_def)

section \<open>The invariant\<close>

definition active_policies :: "database \<Rightarrow> string list" where
  "active_policies db = map ro_EnterprisePolicyID (filter (\<lambda>r. is_active (ro_Status r)) (db_rollouts db))"

text \<open>
  At most one rollout of a policy in \<open>single\<close> is active, and the batches of every rollout are well formed.
\<close>

definition rollouts_ok :: "bool \<Rightarrow> string set \<Rightarrow> database \<Rightarrow> bool" where
  "rollouts_ok whole single db \<longleftrightarrow> batches_ok whole db \<and> distinct (rollout_ids db) \<and>
     distinct (filter (\<lambda>p. p \<in> single) (active_policies db)) \<and>
     ro_EnterprisePolicyID ` set (db_rollouts db) \<subseteq> set (policy_ids db)"

definition row_active :: "database \<Rightarrow> string \<Rightarrow> bool" where
  "row_active db rid \<longleftrightarrow> (\<forall>r \<in> set (db_rollouts db). ro_ID r = rid \<longrightarrow> is_active (ro_Status r))"

lemma same_rollouts_ok:
  "same_rollouts db db' \<Longrightarrow> batches_ok C db' \<Longrightarrow> rollouts_ok C L db \<Longrightarrow> rollouts_ok C L db'"
  "same_rollouts db db' \<Longrightarrow> row_active db' rid = row_active db rid"
  by (simp_all add: same_rollouts_def rollouts_ok_def rollout_ids_def active_policies_def policy_ids_def row_active_def)

context layout_kept
begin

lemma keeps_ok: "op db = Inr db' \<Longrightarrow> rollouts_ok C L db \<Longrightarrow> rollouts_ok C L db'"
  using same_rollouts_ok(1) [OF rollouts, of db db' C L] keeps_batches [of db db' C] by (simp add: rollouts_ok_def)

lemma keeps_row: "op db = Inr db' \<Longrightarrow> row_active db' rid = row_active db rid"
  using same_rollouts_ok(2) [OF rollouts] .

lemma keeps_ok_commit:
  "rollouts_ok C L db \<Longrightarrow> rollouts_ok C L (snd (snd (commit tid op db)))" "row_active (snd (snd (commit tid op db))) rid = row_active db rid"
  using keeps_ok keeps_row by (auto simp: commit_def split: sum.splits)

end

lemma same_tables_ok:
  assumes "db_targets db' = db_targets db" "db_rollouts db' = db_rollouts db" "db_policies db' = db_policies db"
  shows "rollouts_ok C L db' = rollouts_ok C L db" "row_active db' rid = row_active db rid"
  using frame_layout [OF assms(1)] assms(2,3)
  by (simp_all add: rollouts_ok_def batches_ok_def rollout_ids_def active_policies_def policy_ids_def row_active_def)

lemma target_update_ok:
  assumes "\<And>t. P t \<Longrightarrow> pt_RolloutID (f t) = pt_RolloutID t \<and> pt_ServerID (f t) = pt_ServerID t \<and> pt_BatchNo (f t) = pt_BatchNo t"
  shows "rollouts_ok C L (update_targets P f db) = rollouts_ok C L db" "row_active (update_targets P f db) rid = row_active db rid"
  using update_targets_keeps [of P f, OF assms] by (simp_all add: rollouts_ok_def batches_ok_def rollout_ids_def active_policies_def policy_ids_def row_active_def)

text \<open>Changing the status of rollouts.\<close>

definition set_status :: "(PolicyRolloutRecord \<Rightarrow> bool) \<Rightarrow> rollout_status \<Rightarrow> detail \<Rightarrow> database \<Rightarrow> database" where
  "set_status P s d db = db\<lparr>db_rollouts := update_where P (set_rollout_status s d) (db_rollouts db)\<rparr>"

lemma set_status_frame:
  "batches_ok C (set_status P s d db) = batches_ok C db" "rollout_ids (set_status P s d db) = rollout_ids db"
  "policy_ids (set_status P s d db) = policy_ids db"
  "ro_EnterprisePolicyID ` set (db_rollouts (set_status P s d db)) = ro_EnterprisePolicyID ` set (db_rollouts db)"
proof -
  have m: "map g (update_where P (set_rollout_status s d) rs) = map g rs" if "\<And>r. g (set_rollout_status s d r) = g r" for g :: "_ \<Rightarrow> string" and rs
    using that by (simp add: update_where_map)
  show ids: "rollout_ids (set_status P s d db) = rollout_ids db" by (simp add: rollout_ids_def set_status_def m set_rollout_status_def)
  show "batches_ok C (set_status P s d db) = batches_ok C db"
    by (rule batches_ok_cong [OF _ _ ids]) (simp_all add: set_status_def target_keys_def slots_def)
  show "policy_ids (set_status P s d db) = policy_ids db" by (simp add: policy_ids_def set_status_def)
  have "map ro_EnterprisePolicyID (db_rollouts (set_status P s d db)) = map ro_EnterprisePolicyID (db_rollouts db)"
    by (simp add: set_status_def m set_rollout_status_def)
  then show "ro_EnterprisePolicyID ` set (db_rollouts (set_status P s d db)) = ro_EnterprisePolicyID ` set (db_rollouts db)"
    by (metis list.set_map)
qed

lemma set_status_active:
  "active_policies (set_status P s d db) =
     map ro_EnterprisePolicyID (filter (\<lambda>r. if P r then is_active s else is_active (ro_Status r)) (db_rollouts db))"
proof -
  have "map ro_EnterprisePolicyID (filter (\<lambda>r. is_active (ro_Status r)) (update_where P (set_rollout_status s d) rs)) =
      map ro_EnterprisePolicyID (filter (\<lambda>r. if P r then is_active s else is_active (ro_Status r)) rs)" for rs
    by (induction rs) (auto simp: update_where_def set_rollout_status_def)
  then show ?thesis by (simp add: active_policies_def set_status_def)
qed

lemma set_status_keeps:
  assumes "rollouts_ok C L db" "\<forall>r \<in> set (db_rollouts db). P r \<longrightarrow> is_active s \<longrightarrow> is_active (ro_Status r)"
  shows "rollouts_ok C L (set_status P s d db)"
proof -
  let ?A = "\<lambda>r. is_active (ro_Status r)"
  let ?S = "\<lambda>r. ro_EnterprisePolicyID r \<in> L"
  have "filter ?S (filter (\<lambda>r. if P r then is_active s else ?A r) (db_rollouts db)) =
      filter (\<lambda>r. P r \<longrightarrow> is_active s) (filter ?S (filter ?A (db_rollouts db)))"
    using assms(2) by (auto intro!: filter_cong)
  then have "distinct (filter (\<lambda>p. p \<in> L) (active_policies (set_status P s d db)))"
    using assms(1) unfolding set_status_active
    by (simp add: rollouts_ok_def active_policies_def filter_map comp_def distinct_map_filter del: filter_filter)
  then show ?thesis using assms(1) by (simp add: rollouts_ok_def set_status_frame)
qed

lemma update_status_is: "UpdatePolicyRolloutStatus rid s d db = set_status (\<lambda>r. ro_ID r = rid \<and> ro_Status r \<noteq> CANCELLED) s d db"
  by (simp add: UpdatePolicyRolloutStatus_def set_status_def)

lemma update_status_ok:
  "rollouts_ok C L db \<Longrightarrow> \<not> is_active s \<or> row_active db rid \<Longrightarrow> rollouts_ok C L (UpdatePolicyRolloutStatus rid s d db)"
  unfolding update_status_is by (rule set_status_keeps) (auto simp: row_active_def)

lemma update_status_row:
  "row_active db rid \<Longrightarrow> is_active s \<Longrightarrow> row_active (UpdatePolicyRolloutStatus rid s d db) rid"
  by (simp add: row_active_def UpdatePolicyRolloutStatus_def update_where_ball set_rollout_status_def) fastforce

text \<open>Creating rollouts.\<close>

lemma validated_servers:
  "validatePolicyRolloutServersTx db eid sids = Inr ids \<Longrightarrow> distinct ids \<and> ids \<noteq> []"
proof -
  have "fold_result (validate_server_step db eid) acc sids = Inr ids \<Longrightarrow> distinct acc \<Longrightarrow> distinct ids" for acc
    by (rule fold_result_inv [where I = distinct]) (auto simp: validate_server_step_def List.member_iff split: if_splits)
  then show "validatePolicyRolloutServersTx db eid sids = Inr ids \<Longrightarrow> distinct ids \<and> ids \<noteq> []"
    by (auto simp: validatePolicyRolloutServersTx_def split: sum.splits if_splits)
qed

lemma insert_targets_batches:
  assumes "batches_ok C db" "rid \<notin> set (rollout_ids db)" "rollout_ids db1 = rollout_ids db @ [rid]" "db_targets db1 = db_targets db"
    and "insertRolloutTargetsTx rid fin sids db1 = Inr db'" "distinct sids"
  shows "batches_ok C db'" "same_rollouts db1 db'"
proof -
  have new: "target_keys db' = target_keys db @ map (\<lambda>s. (rid, s)) sids"
    "slots db' = slots db + mset (map (\<lambda>i. (rid, batch_of i)) [0..<length sids])" and same: "same_rollouts db1 db'"
    using insert_targets [OF assms(5) [unfolded insertRolloutTargetsTx_def]] frame_layout [OF assms(4)] by simp_all
  have ids: "rollout_ids db' = rollout_ids db @ [rid]" using same assms(3) by (simp add: same_rollouts_def rollout_ids_def)
  have fresh: "rid \<notin> fst ` set (target_keys db)" using assms(1,2) by (auto simp: batches_ok_def)
  have none: "count (slots db) (rid, b) = 0" for b
  proof -
    have "(rid, b) \<notin> (\<lambda>t. (pt_RolloutID t, pt_BatchNo t)) ` set (db_targets db)" using fresh by (force simp: target_keys_def)
    then show ?thesis by (simp add: slots_def count_eq_zero_iff)
  qed
  have count: "count (slots db') (rid', b) = (if rid' = rid then card {i. i < length sids \<and> batch_of i = b} else count (slots db) (rid', b))" for rid' b
    unfolding new(2) count_union count_batches using none by simp
  have "distinct (target_keys db')" using assms(1,6) fresh by (auto simp: new(1) batches_ok_def distinct_map inj_on_def image_iff)
  moreover have "fst ` set (target_keys db') \<subseteq> set (rollout_ids db')" using assms(1) by (auto simp: new(1) ids batches_ok_def)
  moreover have "count (slots db') (rid', b) \<le> (if b = 0 then 1 else 25)" for rid' b
    using assms(1) batch_size [of "length sids" b] unfolding count batches_ok_def by (cases "rid' = rid") (simp_all only: if_True if_False simp_thms)
  moreover have "count (slots db') (rid', 0) = 1" if "C" "rid' \<in> fst ` set (target_keys db')" for rid'
  proof (cases "rid' = rid")
    case True
    then have "sids \<noteq> []" using that fresh by (auto simp: new(1))
    then show ?thesis using True one_canary [of "length sids"] by (simp add: count)
  next
    case False
    then have "rid' \<in> fst ` set (target_keys db)" using that by (auto simp: new(1))
    then show ?thesis using False assms(1) \<open>C\<close> unfolding count batches_ok_def by simp
  qed
  ultimately show "batches_ok C db'" by (simp add: batches_ok_def)
  show "same_rollouts db1 db'" by (rule same)
qed

lemma insert_with_targets_ok:
  assumes "rollouts_ok C L db" "insert_with_targets r sids db = Inr db'" "distinct sids"
    and "is_active (ro_Status r) \<longrightarrow> ro_EnterprisePolicyID r \<in> L \<longrightarrow> ro_EnterprisePolicyID r \<notin> set (active_policies db)"
  shows "rollouts_ok C L db'"
proof -
  let ?db = "db\<lparr>db_rollouts := db_rollouts db @ [r], db_ids := Suc (db_ids db)\<rparr>"
  have new: "rollout_row_of db (ro_ID r) = None" and policy: "policy_row_of db (ro_EnterprisePolicyID r) \<noteq> None"
    and ins: "insertRolloutTargetsTx (ro_ID r) (ro_TargetRevisionID r) sids ?db = Inr db'"
    using assms(2) by (auto simp: insert_with_targets_def insert_rollout_def split: if_splits)
  have fresh: "ro_ID r \<notin> set (rollout_ids db)" using new by (auto simp: rollout_row_of_def rollout_ids_def find_None)
  obtain p where "find (\<lambda>p. ep_ID p = ro_EnterprisePolicyID r) (db_policies db) = Some p" using policy by (auto simp: policy_row_of_def)
  from find_Some [OF this] have known: "ro_EnterprisePolicyID r \<in> set (policy_ids db)" by (force simp: policy_ids_def)
  have b: "batches_ok C db'" "same_rollouts ?db db'"
    by (rule insert_targets_batches [where C = C, OF _ fresh _ _ ins assms(3)]; use assms(1) in \<open>simp add: rollouts_ok_def rollout_ids_def\<close>)+
  have "rollout_ids db' = rollout_ids db @ [ro_ID r]" "policy_ids db' = policy_ids db"
    "active_policies db' = active_policies db @ (if is_active (ro_Status r) then [ro_EnterprisePolicyID r] else [])"
    "ro_EnterprisePolicyID ` set (db_rollouts db') = insert (ro_EnterprisePolicyID r) (ro_EnterprisePolicyID ` set (db_rollouts db))"
    using b(2) by (simp_all add: same_rollouts_def rollout_ids_def policy_ids_def active_policies_def)
  then show ?thesis using assms(1,4) fresh known b(1) by (auto simp: rollouts_ok_def)
qed

lemma no_active: "\<not> policy_has_active db pid \<Longrightarrow> pid \<notin> set (active_policies db)"
  by (auto simp: policy_has_active_def active_policies_def list_ex_iff)

lemma optional_servers_distinct: "optional_servers db eid sids = Inr ids \<Longrightarrow> distinct ids"
  using validated_servers by (auto simp: optional_servers_def split: if_splits sum.splits option.splits)

lemma revision_inserted:
  "insertPolicyRevisionTx v db = Inr db' \<Longrightarrow> db_targets db' = db_targets db \<and> db_rollouts db' = db_rollouts db \<and> db_policies db' = db_policies db"
  by (auto simp: insertPolicyRevisionTx_def split: if_splits)

lemma optional_revision_frame:
  "optional_revision v db = Inr db' \<Longrightarrow> db_targets db' = db_targets db \<and> db_rollouts db' = db_rollouts db \<and> db_policies db' = db_policies db"
  using revision_inserted by (auto simp: optional_revision_def split: option.splits)

lemma new_rollout_simps [simp]:
  "ro_ID (new_rollout randomID db p typ s from target v) = randomID (db_ids db)"
  "ro_Status (new_rollout randomID db p typ s from target v) = s"
  "ro_EnterprisePolicyID (new_rollout randomID db p typ s from target v) = ep_ID p"
  by (simp_all add: new_rollout_def)

lemma CreatePolicyRollout_ok:
  assumes "rollouts_ok C L db" "CreatePolicyRollout randomID pid eid expected typ status v target targetSystem sids db = Inr db'"
  shows "rollouts_ok C L db'"
proof -
  obtain policy ids db1 where policy: "find (\<lambda>p. ep_ID p = pid \<and> ep_EnterpriseID p = eid) (db_policies db) = Some policy"
    and free: "\<not> policy_has_active db pid" and ids: "optional_servers db eid sids = Inr ids" and rev: "optional_revision v db = Inr db1"
    and ins: "insert_with_targets (new_rollout randomID db1 policy typ status (ep_CurrentRevisionID policy)
      (case v of None \<Rightarrow> target | Some r \<Rightarrow> rv_ID r) targetSystem) ids db1 = Inr db'"
    using assms(2) by (auto simp: CreatePolicyRollout_def split: if_splits option.splits sum.splits)
  have f: "db_targets db1 = db_targets db" "db_rollouts db1 = db_rollouts db" "db_policies db1 = db_policies db"
    using optional_revision_frame [OF rev] by simp_all
  have "ep_ID policy = pid" using find_Some [OF policy] by simp
  moreover have "active_policies db1 = active_policies db" using f(2) by (simp add: active_policies_def)
  ultimately show ?thesis
    using insert_with_targets_ok [OF _ ins optional_servers_distinct [OF ids]] same_tables_ok(1) [OF f] assms(1) no_active [OF free] by simp
qed

lemma CreateEnterprisePolicyWithRollout_ok:
  assumes "rollouts_ok C L db" "CreateEnterprisePolicyWithRollout randomID eid pid strategy v typ status sids db = Inr db'"
  shows "rollouts_ok C L db'"
proof -
  obtain policy ids db1 where ids: "validatePolicyRolloutServersTx db eid sids = Inr ids" and new: "policy_row_of db pid = None"
    and policy: "policy = new_policy pid eid strategy" and rev: "insertPolicyRevisionTx v (db\<lparr>db_policies := db_policies db @ [policy]\<rparr>) = Inr db1"
    and ins: "insert_with_targets (new_rollout randomID db1 policy typ status [] (rv_ID v) (rv_SystemPolicyVersionID v)) ids db1 = Inr db'"
    using assms(2) by (auto simp: CreateEnterprisePolicyWithRollout_def Let_def split: if_splits option.splits sum.splits)
  have f: "db_targets db1 = db_targets db" "db_rollouts db1 = db_rollouts db" "db_policies db1 = db_policies db @ [policy]"
    using revision_inserted [OF rev] by simp_all
  have "pid \<notin> set (policy_ids db)" using new by (auto simp: policy_row_of_def policy_ids_def find_None)
  then have "pid \<notin> set (active_policies db)" using assms(1) by (auto simp: rollouts_ok_def active_policies_def)
  moreover have "rollouts_ok C L db1"
    using assms(1) f(2,3) frame_layout [OF f(1)]
    by (auto simp: rollouts_ok_def batches_ok_def rollout_ids_def active_policies_def policy_ids_def)
  moreover have "active_policies db1 = active_policies db" using f(2) by (simp add: active_policies_def)
  ultimately show ?thesis
    using insert_with_targets_ok [OF _ ins] validated_servers [OF ids] policy by (simp add: new_policy_def)
qed

lemma CreatePolicyMembershipRollout_ok:
  assumes "rollouts_ok C L db" "CreatePolicyMembershipRollout randomID pid eid sids db = Inr db'"
  shows "rollouts_ok C L db'"
proof -
  obtain policy validated where policy: "find (\<lambda>p. ep_ID p = pid \<and> ep_EnterpriseID p = eid \<and> ep_Status p = ''ACTIVE'') (db_policies db) = Some policy"
    and v: "validatePolicyRolloutServersTx db eid sids = Inr validated"
    and r: "db' = db \<or> \<not> policy_has_active db pid \<and>
      insert_with_targets (new_rollout randomID db policy SEED QUEUED (ep_CurrentRevisionID policy) (ep_CurrentRevisionID policy)
        (ep_CurrentSystemPolicyID policy)) (filter (\<lambda>i. map_of (db_policy_servers db) i \<noteq> Some pid) validated) db = Inr db'"
    using assms(2) by (auto simp: CreatePolicyMembershipRollout_def Let_def split: if_splits option.splits sum.splits)
  have "ep_ID policy = pid" using find_Some [OF policy] by simp
  moreover have "distinct (filter (\<lambda>i. map_of (db_policy_servers db) i \<noteq> Some pid) validated)" using validated_servers [OF v] by simp
  ultimately show ?thesis
    using r assms(1) no_active insert_with_targets_ok by (metis new_rollout_simps(3))
qed

section \<open>Administrative operations\<close>

lemma ApprovePolicyRollout_ok:
  assumes "rollouts_ok C L db" "ApprovePolicyRollout scope pid rid expected db = Inr db'"
  shows "rollouts_ok C L db'"
proof -
  have "db' = set_status (rollout_guard db scope pid rid expected [AWAITING_APPROVAL]) QUEUED None db"
    using assms(2) by (auto simp: ApprovePolicyRollout_def set_status_def Let_def split: if_splits)
  then show ?thesis using assms(1) by (auto intro!: set_status_keeps simp: rollout_guard_def is_active_def)
qed

lemma distinct_ids_eq: "distinct (map f xs) \<Longrightarrow> x \<in> set xs \<Longrightarrow> y \<in> set xs \<Longrightarrow> f x = f y \<Longrightarrow> x = y"
  by (simp add: distinct_map inj_on_def)

lemma reactivated_ok:
  assumes "rollouts_ok C L db" "\<not> policy_has_other_active db pid rid"
    and P: "\<And>r. P r \<Longrightarrow> ro_ID r = rid \<and> ro_EnterprisePolicyID r = pid"
  shows "rollouts_ok C L (set_status P s d db)"
proof -
  let ?rs = "db_rollouts db" and ?Q = "\<lambda>r. if P r then is_active s else is_active (ro_Status r)"
  have ids: "distinct (map ro_ID ?rs)" and act: "distinct (map ro_EnterprisePolicyID (filter (\<lambda>r. ro_EnterprisePolicyID r \<in> L) (filter (\<lambda>r. is_active (ro_Status r)) ?rs)))"
    using assms(1) by (simp_all add: rollouts_ok_def rollout_ids_def active_policies_def filter_map comp_def)
  have single: "ro_ID r = rid" if "r \<in> set ?rs" "?Q r" "ro_EnterprisePolicyID r = pid" for r
    using that assms(2) P [of r] by (auto simp: policy_has_other_active_def list_ex_iff split: if_splits)
  let ?S = "\<lambda>r. ro_EnterprisePolicyID r \<in> L"
  have "inj_on ro_EnterprisePolicyID (set (filter ?S (filter ?Q ?rs)))"
  proof (rule inj_onI)
    fix x y assume x: "x \<in> set (filter ?S (filter ?Q ?rs))" and y: "y \<in> set (filter ?S (filter ?Q ?rs))" and eq: "ro_EnterprisePolicyID x = ro_EnterprisePolicyID y"
    show "x = y"
    proof (cases "ro_EnterprisePolicyID x = pid")
      case True
      then have "ro_ID x = ro_ID y" using single x y eq by auto
      then show ?thesis using distinct_ids_eq [OF ids] x y by simp
    next
      case False
      then have "\<not> P x" "\<not> P y" using P eq by auto
      then show ?thesis using distinct_ids_eq [OF act] x y eq by simp
    qed
  qed
  moreover have "distinct (filter ?S (filter ?Q ?rs))" using ids by (simp add: distinct_map)
  ultimately have "distinct (filter (\<lambda>p. p \<in> L) (active_policies (set_status P s d db)))"
    unfolding set_status_active by (simp add: filter_map comp_def distinct_map del: filter_filter)
  then show ?thesis using assms(1) by (simp add: rollouts_ok_def set_status_frame)
qed

lemma RetryPolicyRollout_ok:
  assumes "rollouts_ok C L db" "RetryPolicyRollout scope pid rid expected db = Inr db'"
  shows "rollouts_ok C L db'"
proof -
  let ?P = "rollout_guard db scope pid rid expected [PAUSED, R_FAILED]"
  have other: "\<not> policy_has_other_active db pid rid"
    and db': "db' = update_targets (retryable rid) retry_target (set_status ?P QUEUED None db)"
    using assms(2) by (auto simp: RetryPolicyRollout_def set_status_def update_targets_def Let_def split: if_splits option.splits)
  have "rollouts_ok C L (set_status ?P QUEUED None db)"
    by (rule reactivated_ok [OF assms(1) other]) (simp add: rollout_guard_def)
  then show ?thesis unfolding db' by (subst target_update_ok) (simp_all add: retry_target_def)
qed

lemma policies_updated_ok:
  assumes "rollouts_ok C L db" "\<And>p. ep_ID (f p) = ep_ID p"
  shows "rollouts_ok C L (db\<lparr>db_policies := update_where P f (db_policies db)\<rparr>)"
proof -
  have "policy_ids (db\<lparr>db_policies := update_where P f (db_policies db)\<rparr>) = policy_ids db"
    using assms(2) by (simp add: policy_ids_def update_where_map)
  then show ?thesis
    using assms(1) by (simp add: rollouts_ok_def batches_ok_def rollout_ids_def active_policies_def target_keys_def slots_def)
qed

lemma UpdateEnterprisePolicyStrategy_ok:
  assumes "rollouts_ok C L db" "UpdateEnterprisePolicyStrategy scope pid expected strategy db = Inr db'"
  shows "rollouts_ok C L db'"
proof -
  let ?w = "\<lambda>r. ro_EnterprisePolicyID r = pid \<and> ro_Status r = AWAITING_APPROVAL"
  let ?d1 = "if strategy = ''PINNED'' then set_status ?w CANCELLED (Some PinnedByUser) db else db"
  let ?d2 = "if strategy = ''AUTOMATIC'' then set_status (\<lambda>r. ?w r \<and> ro_ExpectedRevisionID r = expected) QUEUED None ?d1 else ?d1"
  have db': "db' = ?d2\<lparr>db_policies := update_where (\<lambda>p. ep_ID p = pid) (\<lambda>p. p\<lparr>ep_UpdateStrategy := strategy\<rparr>) (db_policies ?d2)\<rparr>"
    using assms(2) by (auto simp: UpdateEnterprisePolicyStrategy_def set_status_def Let_def split: if_splits option.splits)
  have d1: "rollouts_ok C L ?d1" using assms(1) by (auto intro!: set_status_keeps simp: is_active_def)
  have d2: "rollouts_ok C L ?d2" using d1 by (auto intro!: set_status_keeps simp: is_active_def)
  show ?thesis unfolding db' by (rule policies_updated_ok [OF d2]) simp
qed

lemma CompletePolicyRollout_ok:
  assumes "rollouts_ok C L db" "CompletePolicyRollout r db = Inr db'"
  shows "rollouts_ok C L db'"
proof -
  let ?d = "set_status (\<lambda>x. ro_ID x = ro_ID r) R_APPLIED None db"
  have d: "rollouts_ok C L ?d" using assms(1) by (rule set_status_keeps) (simp add: is_active_def)
  have "db' = ?d \<or> db' = ?d\<lparr>db_policies := update_where (\<lambda>p. ep_ID p = ro_EnterprisePolicyID r) (promote_revision r) (db_policies ?d)\<rparr>"
    using assms(2) by (auto simp: CompletePolicyRollout_def set_status_def split: if_splits option.splits)
  then show ?thesis using d policies_updated_ok [OF d, of "promote_revision r"] by (auto simp: promote_revision_def)
qed

section \<open>The pass\<close>

lemma create_recovery_ok: "rollouts_ok C L db \<Longrightarrow> rollouts_ok C L (snd (last_transaction (create_recovery env policy v s sids) db))"
  using CreatePolicyRollout_ok by (auto simp: last_transaction_def create_recovery_def split: sum.splits)

lemma recoverFailedCanary_ok: "rollouts_ok C L db \<Longrightarrow> rollouts_ok C L (snd (recoverFailedCanary env now r canary d db))"
proof (cases "UpdatePolicyRolloutTarget now (ro_ID r) (tr_ServerID canary) T_FAILED d db")
  case (Inr db1)
  assume "rollouts_ok C L db"
  then have "rollouts_ok C L db1" using update_target.keeps_ok [OF Inr] by simp
  then have "rollouts_ok C L (UpdatePolicyRolloutStatus (ro_ID r) R_FAILED d db1)" by (rule update_status_ok) (simp add: is_active_def)
  then show ?thesis using Inr create_recovery_ok by (auto simp: recoverFailedCanary_def Let_def split: sum.splits)
qed (simp add: recoverFailedCanary_def)

lemma mark_failed_ok:
  "mark_failed now rid d xs db = (res, db') \<Longrightarrow> rollouts_ok C L db \<Longrightarrow> rollouts_ok C L db' \<and> row_active db' rid' = row_active db rid'"
proof (induction xs arbitrary: db res)
  case (Cons x xs)
  show ?case
  proof (cases "\<not> rolloutTargetFailed x")
    case False
    let ?m = "if tr_Status x = T_FAILED then Inr db
      else UpdatePolicyRolloutTarget now rid (tr_ServerID x) T_FAILED (if tr_Detail x \<noteq> None then tr_Detail x else d) db"
    show ?thesis
    proof (cases ?m)
      case (Inr db1)
      then have "rollouts_ok C L db1" "row_active db1 rid' = row_active db rid'"
        using Cons.prems(2) update_target.keeps_ok update_target.keeps_row by (auto split: if_splits)
      then show ?thesis using Cons.IH [of db1] Cons.prems(1) False Inr by (auto simp: Let_def split: prod.splits sum.splits)
    qed (use Cons.prems False in \<open>auto simp: Let_def\<close>)
  qed (use Cons in simp)
qed simp

lemma recover_step_ok: "rollouts_ok C L (snd (snd st)) \<Longrightarrow> rollouts_ok C L (snd (snd (recover_step env r x st)))"
  using restore_unassigned.keeps_ok restore_revision.keeps_ok
  by (auto simp: recover_step_def Let_def split: prod.splits sum.splits)

lemma recover_group_step_ok: "rollouts_ok C L (snd st) \<Longrightarrow> rollouts_ok C L (snd (recover_group_step env g st))"
  using CreatePolicyRollout_ok by (auto simp: recover_group_step_def create_recovery_def Let_def split: prod.splits sum.splits)

lemma fold_inv: "I s \<Longrightarrow> (\<And>x s. I s \<Longrightarrow> I (f x s)) \<Longrightarrow> I (fold f xs s)"
  by (induction xs arbitrary: s) simp_all

lemma seed_failure_ok:
  assumes "rollouts_ok C L db" "row_active db (ro_ID r)"
  shows "rollouts_ok C L (snd (seed_failure env now r targets d db))"
proof -
  obtain res db1 where m: "mark_failed now (ro_ID r) d targets db = (res, db1)" by fastforce
  have ok: "rollouts_ok C L db1" "row_active db1 (ro_ID r)" using mark_failed_ok [OF m] assms by simp_all
  show ?thesis
  proof (cases res)
    case (Inr failed)
    let ?db2 = "UpdatePolicyRolloutStatus (ro_ID r) R_FAILED d db1"
    have db2: "rollouts_ok C L ?db2" by (rule update_status_ok [OF ok(1)]) (simp add: is_active_def)
    obtain groups errs db3 where g: "fold (recover_step env r) failed ([], [], ?db2) = (groups, errs, db3)" by (metis prod_cases3)
    have db3: "rollouts_ok C L db3"
      using fold_inv [of "\<lambda>st. rollouts_ok C L (snd (snd st))" "([], [], ?db2)" "recover_step env r" failed] db2 recover_step_ok g by simp
    have "rollouts_ok C L (snd (fold (recover_group_step env) groups (errs, db3)))"
      using fold_inv [of "\<lambda>st. rollouts_ok C L (snd st)" "(errs, db3)" "recover_group_step env" groups] db3 recover_group_step_ok by simp
    then show ?thesis using m Inr g update_status_ok [OF ok(1)] ok(2) by (auto simp: seed_failure_def Let_def split: prod.splits)
  qed (use m ok in \<open>simp add: seed_failure_def\<close>)
qed

lemma handleRolloutFailure_ok:
  assumes "rollouts_ok C L db" "row_active db (ro_ID r)"
  shows "rollouts_ok C L (snd (handleRolloutFailure env now r targets d db))"
proof -
  have "rollouts_ok C L (UpdatePolicyRolloutStatus (ro_ID r) s d db)" for s using assms by (simp add: update_status_ok)
  then show ?thesis
    using seed_failure_ok [OF assms] recoverFailedCanary_ok [OF assms(1)] create_recovery_ok assms(1)
    by (auto simp: handleRolloutFailure_def Let_def split: sum.splits option.splits)
qed

lemma refresh_target_ok:
  "refresh_target rid x db = (x', db') \<Longrightarrow> rollouts_ok C L db' = rollouts_ok C L db \<and> row_active db' rid' = row_active db rid'"
  by (auto simp: refresh_target_def ResumePolicyRolloutTarget_def DeferPolicyRolloutTarget_def Let_def target_update_ok split: if_splits)

lemma refresh_targets_ok:
  "refresh_targets rid xs db = (xs', db') \<Longrightarrow> rollouts_ok C L db' = rollouts_ok C L db \<and> row_active db' rid' = row_active db rid'"
proof (induction xs arbitrary: db xs')
  case (Cons x xs)
  obtain x1 db1 where h: "refresh_target rid x db = (x1, db1)" by fastforce
  obtain xs2 db2 where t: "refresh_targets rid xs db1 = (xs2, db2)" by fastforce
  have "db2 = db'" using Cons.prems h t by simp
  then show ?case using Cons.IH [of db1 xs2] refresh_target_ok [OF h] t by simp
qed simp

lemma replace_canary_ok:
  "replace_canary rid xs db = Inr (xs', db') \<Longrightarrow> rollouts_ok C L db \<Longrightarrow> rollouts_ok C L db' \<and> row_active db' rid' = row_active db rid'"
  using swap_canary.keeps_ok swap_canary.keeps_row
  by (auto simp: replace_canary_def split: option.splits if_splits sum.splits)

lemma create_transition_frame:
  assumes "create_transition env r t source db = (res, db')"
  shows "db_targets db' = db_targets db \<and> db_rollouts db' = db_rollouts db \<and> db_policies db' = db_policies db"
proof -
  have "InsertPolicyRevision eid v db1 = Inr db2 \<Longrightarrow>
      db_targets db2 = db_targets db1 \<and> db_rollouts db2 = db_rollouts db1 \<and> db_policies db2 = db_policies db1" for eid v db1 db2
    using revision_inserted by (auto simp: InsertPolicyRevision_def split: if_splits)
  then show ?thesis using assms by (fastforce simp: create_transition_def Let_def split: sum.splits)
qed

lemma start_transition_ok:
  assumes "rollouts_ok C L db"
  shows "rollouts_ok C L (snd (snd (start_transition env r t tid x db))) \<and> row_active (snd (snd (start_transition env r t tid x db))) rid = row_active db rid"
proof -
  obtain res db1 where c: "create_transition env r t (source_revision r x) db = (res, db1)" by fastforce
  have f: "db_targets db1 = db_targets db" "db_rollouts db1 = db_rollouts db" "db_policies db1 = db_policies db"
    using create_transition_frame [OF c] by simp_all
  have "rollouts_ok C L db1" "row_active db1 rid = row_active db rid" using same_tables_ok [OF f] assms by simp_all
  then show ?thesis
    using assms assign_policy.keeps_ok_commit c by (cases res) (simp_all add: start_transition_def Let_def)
qed

lemma advanceRolloutTarget_ok:
  assumes "rollouts_ok C L db"
  shows "rollouts_ok C L (snd (snd (advanceRolloutTarget env now r t tid x db))) \<and>
    row_active (snd (snd (advanceRolloutTarget env now r t tid x db))) rid = row_active db rid"
proof -
  have p: "rollouts_ok C L (snd (snd (advance_pending env r t tid x db))) \<and> row_active (snd (snd (advance_pending env r t tid x db))) rid = row_active db rid"
    using assms start_transition_ok [OF assms] assign_policy.keeps_ok_commit queue_package.keeps_ok_commit
    by (simp add: advance_pending_def split: option.splits sum.splits)
  have k: "rollouts_ok C L (snd (snd (advance_package r t tid x db))) \<and> row_active (snd (snd (advance_package r t tid x db))) rid = row_active db rid"
    using assms assign_policy.keeps_ok_commit by (simp add: advance_package_def)
  show ?thesis
    using assms p k queue_package.keeps_ok_commit update_target.keeps_ok_commit
    by (cases "tr_Status x") (simp_all add: advanceRolloutTarget_def)
qed

lemma advance_targets_ok:
  "rollouts_ok C L db \<Longrightarrow> row_active db (ro_ID r) \<Longrightarrow> rollouts_ok C L (snd (advance_targets env now r t batch tid xs db))"
proof (induction xs arbitrary: db tid)
  case (Cons x xs)
  obtain res tid' db1 where a: "advanceRolloutTarget env now r t tid x db = (res, tid', db1)" by (metis prod_cases3)
  have ok: "rollouts_ok C L db1" "row_active db1 (ro_ID r)"
    using advanceRolloutTarget_ok [OF Cons.prems(1), of env now r t tid x "ro_ID r"] Cons.prems(2) a by simp_all
  have "rollouts_ok C L db2 \<and> row_active db2 (ro_ID r)"
    if "db2 = (case UpdatePolicyRolloutTarget now (ro_ID r) (tr_ServerID x) T_FAILED d db1 of Inl _ \<Rightarrow> db1 | Inr d \<Rightarrow> d)" for db2 d
    using that ok update_target.keeps_ok update_target.keeps_row by (auto split: sum.splits)
  then show ?case
    using Cons ok a handleRolloutFailure_ok by (simp add: Let_def split: option.splits)
qed simp

lemma expand_rollout_ok:
  assumes "rollouts_ok C L db" "row_active db (ro_ID r)"
  shows "rollouts_ok C L (snd (expand_rollout env now r t targets db))"
proof -
  have c: "rollouts_ok C L (snd (last_transaction (CompletePolicyRollout r) db))"
    using CompletePolicyRollout_ok assms(1) by (auto simp: last_transaction_def split: sum.splits)
  have u: "rollouts_ok C L (if b then UpdatePolicyRolloutStatus (ro_ID r) s None db else db) \<and>
      row_active (if b then UpdatePolicyRolloutStatus (ro_ID r) s None db else db) (ro_ID r)" if "is_active s" for b s
    using that assms update_status_ok update_status_row by simp
  have "rollouts_ok C L (snd (advance_targets env now r t batch tid targets
      (if ro_Status r \<noteq> s then UpdatePolicyRolloutStatus (ro_ID r) s None db else db)))" if "is_active s" for batch tid s
    using advance_targets_ok u [OF that] by blast
  then show ?thesis
    using assms(1) c by (simp add: expand_rollout_def Let_def is_active_def split: option.splits)
qed

lemma processPolicyRollout_ok:
  assumes "rollouts_ok C L db" "row_active db (ro_ID r)"
  shows "rollouts_ok C L (snd (processPolicyRollout env now r db))"
proof -
  let ?targets = "ListPolicyRolloutTargets db now (ro_ID r)"
  obtain xs1 db1 where f: "refresh_targets (ro_ID r) ?targets db = (xs1, db1)" by fastforce
  have ok1: "rollouts_ok C L db1" "row_active db1 (ro_ID r)" using refresh_targets_ok [OF f] assms by simp_all
  have "rollouts_ok C L (snd (gated_expansion env now r t c xs2 db2))" if "replace_canary (ro_ID r) xs1 db1 = Inr (xs2, db2)" for t c xs2 db2
    using replace_canary_ok [OF that ok1(1), of "ro_ID r"] ok1(2) expand_rollout_ok recoverFailedCanary_ok
    by (auto simp: gated_expansion_def split: option.splits gate.splits)
  moreover have "rollouts_ok C L (UpdatePolicyRolloutStatus (ro_ID r) R_FAILED d db)" for d
    using assms by (simp add: update_status_ok)
  ultimately show ?thesis
    using f ok1(1) handleRolloutFailure_ok [OF assms]
    by (auto simp: processPolicyRollout_def Let_def split: option.splits sum.splits)
qed

section \<open>Conversion, termination and deletion\<close>

lemma ConvertLegacyEnterprisePolicy_ok:
  assumes "rollouts_ok C L db" "ConvertLegacyEnterprisePolicy randomID pid eid expected v sids db = Inr db'"
    and "pid \<in> L \<longrightarrow> \<not> policy_has_active db pid"
  shows "rollouts_ok C L db'"
proof -
  let ?P = "\<lambda>p. ep_ID p = pid \<and> ep_EnterpriseID p = eid \<and> ep_Status p = ''LEGACY_LOCKED'' \<and> ep_CurrentRevisionID p = expected"
  let ?db = "db\<lparr>db_policies := update_where ?P unlock_policy (db_policies db)\<rparr>"
  obtain policy ids db1 where policy: "find ?P (db_policies db) = Some policy" and ids: "validatePolicyRolloutServersTx db eid sids = Inr ids"
    and rev: "insertPolicyRevisionTx v ?db = Inr db1"
    and ins: "insert_with_targets (new_rollout randomID db1 policy UPDATE QUEUED expected (rv_ID v) (rv_SystemPolicyVersionID v)) ids db1 = Inr db'"
    using assms(2) by (auto simp: ConvertLegacyEnterprisePolicy_def Let_def split: if_splits option.splits sum.splits)
  have f: "db_targets db1 = db_targets ?db" "db_rollouts db1 = db_rollouts ?db" "db_policies db1 = db_policies ?db"
    using revision_inserted [OF rev] by simp_all
  have "rollouts_ok C L ?db" by (rule policies_updated_ok [OF assms(1)]) (simp add: unlock_policy_def)
  then have ok: "rollouts_ok C L db1" using same_tables_ok(1) [OF f] by simp
  have "ep_ID policy = pid" using find_Some [OF policy] by simp
  moreover have "pid \<notin> set (active_policies db1)" if "pid \<in> L" using that assms(3) no_active f(2) by (simp add: active_policies_def)
  ultimately show ?thesis using insert_with_targets_ok [OF ok ins] validated_servers [OF ids] by simp
qed

lemma terminate_db_ok:
  assumes "rollouts_ok C L db"
  shows "rollouts_ok C L ((terminate_db e db)\<lparr>db_active_enterprises := es\<rparr>)"
proof -
  let ?d = "set_status (\<lambda>r. policy_of e db (ro_EnterprisePolicyID r) \<and> is_active (ro_Status r)) CANCELLED (Some ErrEnterpriseNotActive) db"
  have "rollouts_ok C L ?d" by (rule set_status_keeps [OF assms]) (simp add: is_active_def)
  then show ?thesis using same_tables_ok(1) [of "(terminate_db e db)\<lparr>db_active_enterprises := es\<rparr>" ?d] by (simp add: terminate_db_def set_status_def)
qed

lemma delete_server_rows_ok:
  assumes "rollouts_ok C L db"
  shows "rollouts_ok False L (delete_server_rows sid db)"
proof -
  let ?d = "delete_server_rows sid db"
  have t: "db_targets ?d = filter (\<lambda>t. pt_ServerID t \<noteq> sid) (db_targets db)" and r: "same_rollouts db ?d"
    by (simp_all add: delete_server_rows_def same_rollouts_def)
  have keys: "target_keys ?d = filter (\<lambda>k. snd k \<noteq> sid) (target_keys db)" by (simp add: target_keys_def t filter_map comp_def)
  have "slots ?d \<subseteq># slots db" by (simp add: slots_def t mset_filter image_mset_subseteq_mono)
  then have "count (slots ?d) k \<le> count (slots db) k" for k by (rule mset_subset_eq_count)
  moreover have "count (slots db) (rid, b) \<le> (if b = 0 then 1 else 25)" for rid b
    using assms by (simp only: rollouts_ok_def batches_ok_def)
  ultimately have "count (slots ?d) (rid, b) \<le> (if b = 0 then 1 else 25)" for rid b by (rule le_trans)
  moreover have "distinct (target_keys ?d)" using assms by (simp add: keys rollouts_ok_def batches_ok_def)
  moreover have "fst ` set (target_keys ?d) \<subseteq> set (rollout_ids db)" using assms by (auto simp: keys rollouts_ok_def batches_ok_def)
  ultimately have "batches_ok False ?d" using r by (simp add: batches_ok_def rollout_ids_def same_rollouts_def)
  then show ?thesis using assms r by (simp add: rollouts_ok_def same_rollouts_def rollout_ids_def active_policies_def policy_ids_def)
qed

section \<open>Reachable databases\<close>

text \<open>
  What servers and the rest of the Manager write: server inventories and heartbeats, revocations, desired states,
  deployment reports, memberships, incidents, revisions, and the policies that \<^verbatim>\<open>BackfillEnterprisePolicyDomains\<close>
  adds with new identifiers.
\<close>

definition added_policies :: "database \<Rightarrow> database \<Rightarrow> policy_row list" where
  "added_policies db db' = drop (length (db_policies db)) (db_policies db')"

definition environment_change :: "database \<Rightarrow> database \<Rightarrow> bool" where
  "environment_change db db' \<longleftrightarrow> db_rollouts db' = db_rollouts db \<and> db_targets db' = db_targets db \<and>
     db_policies db' = db_policies db @ added_policies db db' \<and>
     list_all (\<lambda>p. \<not> List.member (policy_ids db) (ep_ID p)) (added_policies db db')"

text \<open>Every operation on rollouts but the deletion of a server, and then all of them.\<close>

inductive rollout_operation :: "rollout_env \<Rightarrow> database \<Rightarrow> database \<Rightarrow> bool" for env where
  create: "CreatePolicyRollout (ve_randomID env) pid eid expected typ status v target targetSystem sids db = Inr db' \<Longrightarrow> rollout_operation env db db'"
| new_policy: "CreateEnterprisePolicyWithRollout (ve_randomID env) eid pid strategy v typ status sids db = Inr db' \<Longrightarrow> rollout_operation env db db'"
| membership: "CreatePolicyMembershipRollout (ve_randomID env) pid eid sids db = Inr db' \<Longrightarrow> rollout_operation env db db'"
| convert: "ConvertLegacyEnterprisePolicy (ve_randomID env) pid eid expected v sids db = Inr db' \<Longrightarrow> rollout_operation env db db'"
| approve: "ApprovePolicyRollout scope pid rid expected db = Inr db' \<Longrightarrow> rollout_operation env db db'"
| retry: "RetryPolicyRollout scope pid rid expected db = Inr db' \<Longrightarrow> rollout_operation env db db'"
| strategy: "UpdateEnterprisePolicyStrategy scope pid expected strategy db = Inr db' \<Longrightarrow> rollout_operation env db db'"
| pass: "r \<in> set (ListActivePolicyRollouts db) \<Longrightarrow> rollout_operation env db (snd (processPolicyRollout env now r db))"
| terminate_enterprise: "rollout_operation env db ((terminate_db e db)\<lparr>db_active_enterprises := filter (\<lambda>x. x \<noteq> e) (db_active_enterprises db)\<rparr>)"
| other: "environment_change db db' \<Longrightarrow> rollout_operation env db db'"

inductive rollout_step :: "rollout_env \<Rightarrow> database \<Rightarrow> database \<Rightarrow> bool" for env where
  operation: "rollout_operation env db db' \<Longrightarrow> rollout_step env db db'"
| delete_server: "list_ex (\<lambda>s. srv_ID s = sid \<and> srv_Revoked s) (db_servers db) \<Longrightarrow> rollout_step env db (delete_server_rows sid db)"

inductive reachable :: "rollout_env \<Rightarrow> database \<Rightarrow> bool" for env where
  init: "db_rollouts db = [] \<Longrightarrow> db_targets db = [] \<Longrightarrow> reachable env db"
| step: "reachable env db \<Longrightarrow> rollout_step env db db' \<Longrightarrow> reachable env db'"

inductive undeleted :: "rollout_env \<Rightarrow> database \<Rightarrow> bool" for env where
  init: "db_rollouts db = [] \<Longrightarrow> db_targets db = [] \<Longrightarrow> undeleted env db"
| step: "undeleted env db \<Longrightarrow> rollout_operation env db db' \<Longrightarrow> undeleted env db'"

lemma reachable_operation: "reachable env db \<Longrightarrow> rollout_operation env db db' \<Longrightarrow> reachable env db'"
  by (rule reachable.step [OF _ rollout_step.operation])

lemma reachable_unchanged:
  assumes "reachable env db" "db_rollouts db' = db_rollouts db" "db_targets db' = db_targets db" "db_policies db' = db_policies db"
  shows "reachable env db'"
  by (rule reachable_operation [OF assms(1) rollout_operation.other]) (simp add: environment_change_def added_policies_def assms)

lemma listed_row_active:
  assumes "rollouts_ok C L db" "r \<in> set (ListActivePolicyRollouts db)"
  shows "row_active db (ro_ID r)"
proof -
  have r: "r \<in> set (db_rollouts db)" "is_active (ro_Status r)"
    using assms(2) by (auto simp: ListActivePolicyRollouts_def is_active_def)
  have "x = r" if "x \<in> set (db_rollouts db)" "ro_ID x = ro_ID r" for x
    using distinct_ids_eq [of ro_ID "db_rollouts db" x r] that r(1) assms(1) by (simp add: rollouts_ok_def rollout_ids_def)
  then show ?thesis using r(2) by (auto simp: row_active_def)
qed

lemmas operation_ok = CreatePolicyRollout_ok CreateEnterprisePolicyWithRollout_ok CreatePolicyMembershipRollout_ok
  ApprovePolicyRollout_ok RetryPolicyRollout_ok UpdateEnterprisePolicyStrategy_ok

lemma environment_ok:
  assumes "environment_change db db'" "rollouts_ok C L db"
  shows "rollouts_ok C L db'"
proof -
  have "db_rollouts db' = db_rollouts db" "db_targets db' = db_targets db" "policy_ids db' = policy_ids db @ map ep_ID (added_policies db db')"
    using assms(1) by (auto simp: environment_change_def policy_ids_def)
  then show ?thesis
    using assms(2) by (auto simp: rollouts_ok_def batches_ok_def rollout_ids_def active_policies_def target_keys_def slots_def)
qed

text \<open>A conversion of a policy in \<open>L\<close> with an unfinished rollout is the only operation that can break the invariant.\<close>

definition converted_active :: "rollout_env \<Rightarrow> string \<Rightarrow> database \<Rightarrow> database \<Rightarrow> bool" where
  "converted_active env pid db db' \<longleftrightarrow> policy_has_active db pid \<and>
     (\<exists>eid expected v sids. ConvertLegacyEnterprisePolicy (ve_randomID env) pid eid expected v sids db = Inr db')"

lemma rollout_operation_ok:
  assumes "rollout_operation env db db'" "rollouts_ok C L db" "\<forall>pid \<in> L. \<not> converted_active env pid db db'"
  shows "rollouts_ok C L db'"
  using assms
proof (induction rule: rollout_operation.induct)
  case (convert pid eid expected v sids db db')
  then show ?case by (intro ConvertLegacyEnterprisePolicy_ok [OF convert(2) convert(1)]) (auto simp: converted_active_def)
next
  case (pass r db now)
  then show ?case using processPolicyRollout_ok listed_row_active by blast
qed (blast intro: operation_ok terminate_db_ok environment_ok)+

lemma incomplete_ok: "rollouts_ok C L db \<Longrightarrow> rollouts_ok False L db"
  by (simp add: rollouts_ok_def batches_ok_def)

lemma rollout_step_ok:
  assumes "rollout_step env db db'" "rollouts_ok False L db" "\<forall>pid \<in> L. \<not> converted_active env pid db db'"
  shows "rollouts_ok False L db'"
  using assms by (cases rule: rollout_step.cases) (blast intro: rollout_operation_ok delete_server_rows_ok)+

lemma initial_ok: "db_rollouts db = [] \<Longrightarrow> db_targets db = [] \<Longrightarrow> rollouts_ok C L db"
  by (simp add: rollouts_ok_def batches_ok_def target_keys_def slots_def rollout_ids_def active_policies_def)

lemma reachable_ok: "reachable env db \<Longrightarrow> rollouts_ok False {} db"
  by (induction rule: reachable.induct) (blast intro: initial_ok rollout_step_ok)+

lemma undeleted_ok: "undeleted env db \<Longrightarrow> rollouts_ok True {} db"
  by (induction rule: undeleted.induct) (blast intro: initial_ok rollout_operation_ok)+

lemma undeleted_reachable: "undeleted env db \<Longrightarrow> reachable env db"
  by (induction rule: undeleted.induct) (blast intro: reachable.init reachable_operation)+

text \<open>A second unfinished rollout of a policy goes back to such a conversion.\<close>

lemma second_rollout_converted:
  "reachable env db \<Longrightarrow> rollouts_ok False {pid} db \<or>
     (\<exists>db1 db2. reachable env db1 \<and> converted_active env pid db1 db2 \<and> (rollout_step env)\<^sup>*\<^sup>* db2 db)"
proof (induction rule: reachable.induct)
  case (step db db')
  show ?case
  proof (cases "rollouts_ok False {pid} db")
    case True
    then show ?thesis using step rollout_step_ok [of env db db' "{pid}"] by blast
  next
    case False
    then show ?thesis using step by (meson rtranclp.rtrancl_into_rtrancl)
  qed
qed (simp add: initial_ok)

end
