(* ===== verification/Rollout_Safety.thy ===== *)
theory Rollout_Safety
  imports Rollout_Invariants
begin

text \<open>
  Safety of the staged rollout: which servers a pass may start on, when a rollout completes, what the
  canary gate demands, and reachable states in which these promises end: a policy that was converted, a canary that was
  deleted, a canary that failed and a retry. The locale \<open>starts_at_most\<close> is
  the contract of a transaction that begins the rollout on given targets only.
\<close>

section \<open>Targets a rollout has begun on\<close>

definition started :: "target_status \<Rightarrow> bool" where
  "started s \<longleftrightarrow> s \<in> {TRANSITION_PENDING, PACKAGE_PENDING, ROLLBACK_PENDING, POLICY_PENDING, T_APPLIED}"

definition begun :: "target_row \<Rightarrow> bool" where
  "begun t \<longleftrightarrow> started (pt_Status t) \<or> pt_Status t = DEFERRED \<and> (case pt_ResumeStatus t of None \<Rightarrow> False | Some s \<Rightarrow> started s)"

definition begun_keys :: "database \<Rightarrow> (string \<times> string) set" where
  "begun_keys db = (\<lambda>t. (pt_RolloutID t, pt_ServerID t)) ` {t \<in> set (db_targets db). begun t}"

lemma begun_keys_update:
  assumes "\<And>t. P t \<Longrightarrow> t \<in> set (db_targets db) \<Longrightarrow> begun (f t) \<Longrightarrow> begun t \<or> (pt_RolloutID t, pt_ServerID t) \<in> K"
    and "\<And>t. pt_RolloutID (f t) = pt_RolloutID t \<and> pt_ServerID (f t) = pt_ServerID t"
  shows "begun_keys (update_targets P f db) \<subseteq> begun_keys db \<union> K"
proof
  fix k assume "k \<in> begun_keys (update_targets P f db)"
  then obtain t where t: "t \<in> set (db_targets db)" "begun (if P t then f t else t)" and k: "k = (pt_RolloutID (if P t then f t else t), pt_ServerID (if P t then f t else t))"
    by (auto simp: begun_keys_def update_targets_def update_where_def)
  have "k = (pt_RolloutID t, pt_ServerID t)" using k assms(2) by simp
  moreover have "begun t \<or> (pt_RolloutID t, pt_ServerID t) \<in> K" using t assms(1) by (auto split: if_splits)
  ultimately show "k \<in> begun_keys db \<union> K" using t(1) by (auto simp: begun_keys_def)
qed

lemma begun_keys_frame: "db_targets db' = db_targets db \<Longrightarrow> begun_keys db' = begun_keys db"
  by (simp add: begun_keys_def)

locale starts_at_most =
  fixes op :: transaction and K :: "(string \<times> string) set"
  assumes starts: "op db = Inr db' \<Longrightarrow> begun_keys db' \<subseteq> begun_keys db \<union> K"
begin

lemma starts_last: "begun_keys (snd (last_transaction op db)) \<subseteq> begun_keys db \<union> K"
  using starts by (auto simp: last_transaction_def split: sum.splits)

lemma starts_commit: "begun_keys (snd (snd (commit tid op db))) \<subseteq> begun_keys db \<union> K"
  using starts by (auto simp: commit_def split: sum.splits)

end

lemma not_started [simp]: "\<not> started DEFERRED" "\<not> started T_PENDING" "\<not> started T_FAILED" "\<not> started ROLLED_BACK"
  by (simp_all add: started_def)

lemma set_target_status_begun: "begun (set_target_status now s d t) \<longleftrightarrow> started s"
  by (simp add: begun_def set_target_status_def)

lemma update_target_begun:
  assumes "UpdatePolicyRolloutTarget now rid sid s d db = Inr db'"
  shows "begun_keys db' \<subseteq> begun_keys db \<union> (if started s then {(rid, sid)} else {})"
proof -
  let ?db = "update_targets (of_target rid sid) (set_target_status now s d) db"
  have "db_targets db' = db_targets ?db"
    using assms by (auto simp: UpdatePolicyRolloutTarget_def Let_def split: if_splits option.splits)
  moreover have "begun_keys ?db \<subseteq> begun_keys db \<union> (if started s then {(rid, sid)} else {})"
  proof (rule begun_keys_update)
    show "pt_RolloutID (set_target_status now s d t) = pt_RolloutID t \<and> pt_ServerID (set_target_status now s d t) = pt_ServerID t" for t
      by (simp add: set_target_status_def)
  qed (auto simp: set_target_status_begun of_target_def)
  ultimately show ?thesis using begun_keys_frame [of db' ?db] by simp
qed

interpretation mark_target_failed: starts_at_most "UpdatePolicyRolloutTarget now rid sid T_FAILED d" "{}" for now rid sid d
  using update_target_begun by unfold_locales (fastforce simp: started_def)

interpretation mark_target_applied: starts_at_most "UpdatePolicyRolloutTarget now rid sid T_APPLIED d" "{(rid, sid)}" for now rid sid d
  using update_target_begun by unfold_locales (fastforce simp: started_def)

interpretation start_policy: starts_at_most "AssignPolicyForRollout rid eid sid revisionID status" "{(rid, sid)}" for rid eid sid revisionID status
proof
  fix db db' assume "AssignPolicyForRollout rid eid sid revisionID status db = Inr db'"
  then obtain f db1 where db': "db' = update_targets (of_target rid sid) f db1" "db_targets db1 = db_targets db"
    and f: "\<And>t. pt_RolloutID (f t) = pt_RolloutID t \<and> pt_ServerID (f t) = pt_ServerID t"
    by (auto simp: AssignPolicyForRollout_def Let_def split: if_splits)
  show "begun_keys db' \<subseteq> begun_keys db \<union> {(rid, sid)}"
    unfolding db'(1) begun_keys_frame [OF db'(2), symmetric] by (rule begun_keys_update) (auto simp: of_target_def f)
qed

interpretation start_package: starts_at_most "queueRolloutPackage env r t x" "{(ro_ID r, tr_ServerID x)}" for env r t x
proof
  fix db db' assume "queueRolloutPackage env r t x db = Inr db'"
  then obtain agentID moduleID status where "AssignPackagesForRollout (ve_randomID env) (ro_ID r) (ro_EnterpriseID r) (tr_ServerID x) agentID moduleID status db = Inr db'"
    by (auto simp: queueRolloutPackage_def split: option.splits sum.splits if_splits)
  then obtain f db1 where db': "db' = update_targets (of_target (ro_ID r) (tr_ServerID x)) f db1" "db_targets db1 = db_targets db"
    and f: "\<And>t. pt_RolloutID (f t) = pt_RolloutID t \<and> pt_ServerID (f t) = pt_ServerID t"
    by (auto simp: AssignPackagesForRollout_def Let_def split: if_splits)
  show "begun_keys db' \<subseteq> begun_keys db \<union> {(ro_ID r, tr_ServerID x)}"
    unfolding db'(1) begun_keys_frame [OF db'(2), symmetric] by (rule begun_keys_update) (auto simp: of_target_def f)
qed

interpretation roll_back_target: starts_at_most "RestoreUnassignedPolicyAfterFailedMove rid eid sid" "{}" for rid eid sid
proof
  fix db db' assume op: "RestoreUnassignedPolicyAfterFailedMove rid eid sid db = Inr db'"
  then have db': "db' = update_targets (of_target rid sid) (\<lambda>t. t\<lparr>pt_Status := ROLLED_BACK, pt_Detail := Some MoveRolledBack\<rparr>) (desire_revision sid [] (supersede_policies sid db))"
    by (auto simp: RestoreUnassignedPolicyAfterFailedMove_def split: if_splits option.splits)
  have "begun_keys db' \<subseteq> begun_keys (desire_revision sid [] (supersede_policies sid db)) \<union> {}"
    unfolding db' by (rule begun_keys_update) (simp_all add: begun_def started_def)
  then show "begun_keys db' \<subseteq> begun_keys db \<union> {}" by (simp add: begun_keys_def)
qed

interpretation restore_source: starts_at_most "RestorePolicyRevisionAfterFailedMove randomID rid eid sid revisionID" "{}" for randomID rid eid sid revisionID
proof
  fix db db' assume op: "RestorePolicyRevisionAfterFailedMove randomID rid eid sid revisionID db = Inr db'"
  then have "db_targets db' = db_targets db"
    by (auto simp: RestorePolicyRevisionAfterFailedMove_def Let_def split: if_splits option.splits prod.splits)
  then show "begun_keys db' \<subseteq> begun_keys db \<union> {}" by (simp add: begun_keys_def)
qed

lemma new_target_not_begun: "\<not> begun (new_target rid fin i d)"
  by (simp add: begun_def started_def new_target_def)

lemma begun_keys_append: "\<not> begun t \<Longrightarrow> begun_keys (db\<lparr>db_targets := db_targets db @ [t]\<rparr>) = begun_keys db"
  by (auto simp: begun_keys_def)

lemma insert_targets_begun:
  "fold_result (insert_target_step rid fin) db items = Inr db' \<Longrightarrow> begun_keys db' = begun_keys db"
proof (induction items arbitrary: db)
  case (Cons i items)
  from Cons.prems obtain d where "fold_result (insert_target_step rid fin) (db\<lparr>db_targets := db_targets db @ [new_target rid fin (fst i) d]\<rparr>) items = Inr db'"
    by (cases "desired_of db (snd i)") (simp_all add: insert_target_step_def [of rid fin db i])
  from Cons.IH [OF this] show ?case by (simp add: begun_keys_append new_target_not_begun)
qed simp

interpretation new_recovery: starts_at_most "create_recovery env policy v s sids" "{}" for env policy v s sids
proof
  fix db db' assume "create_recovery env policy v s sids db = Inr db'"
  then obtain r ids where "insert_with_targets r ids db = Inr db'"
    by (auto simp: create_recovery_def CreatePolicyRollout_def optional_revision_def split: if_splits option.splits sum.splits)
  then obtain db1 where "insertRolloutTargetsTx (ro_ID r) (ro_TargetRevisionID r) ids db1 = Inr db'" "db_targets db1 = db_targets db"
    by (auto simp: insert_with_targets_def insert_rollout_def split: if_splits)
  then show "begun_keys db' \<subseteq> begun_keys db \<union> {}"
    using insert_targets_begun [of "ro_ID r" "ro_TargetRevisionID r" db1 _ db'] begun_keys_frame [of db1 db] by (simp add: insertRolloutTargetsTx_def)
qed

text \<open>Failure handling begins nothing.\<close>

lemma update_status_begun [simp]: "begun_keys (UpdatePolicyRolloutStatus rid s d db) = begun_keys db"
  by (simp add: begun_keys_def UpdatePolicyRolloutStatus_def)

lemma recoverFailedCanary_begun: "begun_keys (snd (recoverFailedCanary env now r canary d db)) \<subseteq> begun_keys db"
proof (cases "UpdatePolicyRolloutTarget now (ro_ID r) (tr_ServerID canary) T_FAILED d db")
  case (Inr db1)
  let ?db2 = "UpdatePolicyRolloutStatus (ro_ID r) R_FAILED d db1"
  have "begun_keys ?db2 \<subseteq> begun_keys db" using mark_target_failed.starts [OF Inr] by simp
  moreover have "begun_keys (snd (last_transaction (create_recovery env policy v s sids) ?db2)) \<subseteq> begun_keys ?db2" for policy v s sids
    using new_recovery.starts_last [of env policy v s sids ?db2] by blast
  ultimately show ?thesis
    unfolding recoverFailedCanary_def Let_def Inr sum.case by (simp split: sum.split) blast
qed (simp add: recoverFailedCanary_def)

lemma mark_failed_begun: "mark_failed now rid d xs db = (res, db') \<Longrightarrow> begun_keys db' \<subseteq> begun_keys db"
proof (induction xs arbitrary: db res)
  case (Cons x xs)
  show ?case
  proof (cases "\<not> rolloutTargetFailed x")
    case False
    let ?m = "if tr_Status x = T_FAILED then Inr db
      else UpdatePolicyRolloutTarget now rid (tr_ServerID x) T_FAILED (if tr_Detail x \<noteq> None then tr_Detail x else d) db"
    show ?thesis
    proof (cases ?m)
      case (Inr db1)
      then have "begun_keys db1 \<subseteq> begun_keys db" using mark_target_failed.starts by (fastforce split: if_splits)
      moreover have "begun_keys db' \<subseteq> begun_keys db1"
        using Cons.IH [of db1] Cons.prems False Inr by (auto simp: Let_def split: prod.splits sum.splits)
      ultimately show ?thesis by blast
    qed (use Cons.prems False in \<open>auto simp: Let_def\<close>)
  qed (use Cons in simp)
qed simp

lemma recover_step_begun: "begun_keys (snd (snd (recover_step env r x st))) \<subseteq> begun_keys (snd (snd st))"
proof -
  obtain groups errs db where st: "st = (groups, errs, db)" by (metis prod_cases3)
  have op: "begun_keys (snd (snd (case op db of Inl e \<Rightarrow> (groups, errs @ [e], db) | Inr db' \<Rightarrow> (groups, errs, db')))) \<subseteq> begun_keys db"
    if "starts_at_most op {}" for op
    using starts_at_most.starts [OF that] by (fastforce split: sum.splits)
  show ?thesis
    using op [OF roll_back_target.starts_at_most_axioms] op [OF restore_source.starts_at_most_axioms]
    by (simp add: recover_step_def st Let_def split: sum.split prod.split)
qed

lemma recover_group_step_begun: "begun_keys (snd (recover_group_step env g st)) \<subseteq> begun_keys (snd st)"
  using new_recovery.starts by (fastforce simp: recover_group_step_def Let_def split: prod.splits sum.splits)

lemma fold_begun:
  assumes "\<And>x s. begun_keys (h (f x s)) \<subseteq> begun_keys (h s)"
  shows "begun_keys (h (fold f xs s)) \<subseteq> begun_keys (h s)"
  using assms by (induction xs arbitrary: s) (simp, fastforce)

lemma seed_failure_begun: "begun_keys (snd (seed_failure env now r targets d db)) \<subseteq> begun_keys db"
proof -
  obtain res db1 where m: "mark_failed now (ro_ID r) d targets db = (res, db1)" by fastforce
  note m1 = mark_failed_begun [OF m]
  show ?thesis
  proof (cases res)
    case (Inr failed)
    let ?db2 = "UpdatePolicyRolloutStatus (ro_ID r) R_FAILED d db1"
    obtain groups errs db3 where g: "fold (recover_step env r) failed ([], [], ?db2) = (groups, errs, db3)" by (metis prod_cases3)
    have "begun_keys db3 \<subseteq> begun_keys db1"
      using fold_begun [of "\<lambda>st. snd (snd st)" "recover_step env r" failed "([], [], ?db2)"] recover_step_begun g by simp
    moreover have "begun_keys (snd (fold (recover_group_step env) groups (errs, db3))) \<subseteq> begun_keys db3"
      using fold_begun [of snd "recover_group_step env" groups "(errs, db3)"] recover_group_step_begun by simp
    ultimately show ?thesis using m m1 Inr g by (simp add: seed_failure_def Let_def split: prod.split) fastforce
  qed (use m m1 in \<open>simp add: seed_failure_def\<close>)
qed

lemma handleRolloutFailure_begun: "begun_keys (snd (handleRolloutFailure env now r targets d db)) \<subseteq> begun_keys db"
proof -
  have "begun_keys (snd (last_transaction (create_recovery env policy v s sids) (UpdatePolicyRolloutStatus (ro_ID r) R_FAILED d db))) \<subseteq> begun_keys db"
    for policy v s sids
    using new_recovery.starts_last [of env policy v s sids "UpdatePolicyRolloutStatus (ro_ID r) R_FAILED d db"] by simp
  then show ?thesis
    using seed_failure_begun recoverFailedCanary_begun
    by (simp add: handleRolloutFailure_def Let_def split: sum.split option.split)
qed

section \<open>What a pass begins\<close>

lemma create_transition_begun: "create_transition env r t source db = (res, db') \<Longrightarrow> begun_keys db' = begun_keys db"
  using create_transition_frame begun_keys_frame by metis

lemma start_transition_begun:
  "begun_keys (snd (snd (start_transition env r t tid x db))) \<subseteq> begun_keys db \<union> {(ro_ID r, tr_ServerID x)}"
proof -
  obtain res db1 where c: "create_transition env r t (source_revision r x) db = (res, db1)" by fastforce
  have "begun_keys (snd (snd (commit i (AssignPolicyForRollout (ro_ID r) (ro_EnterpriseID r) (tr_ServerID x) v s) db'))) \<subseteq>
      insert (ro_ID r, tr_ServerID x) (begun_keys db)" if "begun_keys db' = begun_keys db" for i v s db'
    using start_policy.starts_commit [of i "ro_ID r" "ro_EnterpriseID r" "tr_ServerID x" v s db'] that by simp
  then show ?thesis
    using create_transition_begun [OF c] c by (cases res) (simp_all add: start_transition_def Let_def subset_insertI)
qed

lemma advanceRolloutTarget_begun:
  "begun_keys (snd (snd (advanceRolloutTarget env now r t tid x db))) \<subseteq> begun_keys db \<union> {(ro_ID r, tr_ServerID x)}"
proof -
  have p: "begun_keys (snd (snd (advance_pending env r t tid x db))) \<subseteq> begun_keys db \<union> {(ro_ID r, tr_ServerID x)}"
    using start_transition_begun [of env r t tid x db] start_policy.starts_commit [of tid "ro_ID r" "ro_EnterpriseID r" "tr_ServerID x" _ _ db]
      start_package.starts_commit [of tid env r t x db]
    by (simp add: advance_pending_def subset_insertI split: option.split sum.split)
  have k: "begun_keys (snd (snd (advance_package r t tid x db))) \<subseteq> begun_keys db \<union> {(ro_ID r, tr_ServerID x)}"
    using start_policy.starts_commit [of tid "ro_ID r" "ro_EnterpriseID r" "tr_ServerID x" _ _ db] by (simp add: advance_package_def subset_insertI)
  show ?thesis
    using p k start_package.starts_commit [of tid env r t x db] mark_target_applied.starts_commit [of tid now "ro_ID r" "tr_ServerID x" None db]
    by (cases "tr_Status x") (simp_all add: advanceRolloutTarget_def subset_insertI)
qed

definition advanced :: "nat \<Rightarrow> PolicyRolloutTargetRecord \<Rightarrow> bool" where
  "advanced batch x \<longleftrightarrow> tr_BatchNo x = batch \<and> \<not> finished (tr_Status x) \<and> tr_Online x"

lemma advance_targets_begun:
  "begun_keys (snd (advance_targets env now r t batch tid xs db)) \<subseteq>
     begun_keys db \<union> (\<lambda>x. (ro_ID r, tr_ServerID x)) ` {x \<in> set xs. advanced batch x}"
proof (induction xs arbitrary: db tid)
  case (Cons x xs)
  show ?case
  proof (cases "advanced batch x")
    case True
    obtain res tid' db1 where a: "advanceRolloutTarget env now r t tid x db = (res, tid', db1)" by (metis prod_cases3)
    have db1: "begun_keys db1 \<subseteq> begun_keys db \<union> {(ro_ID r, tr_ServerID x)}"
      using advanceRolloutTarget_begun [of env now r t tid x db] a by simp
    have "begun_keys (case UpdatePolicyRolloutTarget now (ro_ID r) (tr_ServerID x) T_FAILED d db1 of Inl _ \<Rightarrow> db1 | Inr d \<Rightarrow> d) \<subseteq> begun_keys db1" for d
      using mark_target_failed.starts [of now "ro_ID r" "tr_ServerID x" d db1] by (auto split: sum.splits)
    then have "begun_keys (snd (handleRolloutFailure env now r ts d
        (case UpdatePolicyRolloutTarget now (ro_ID r) (tr_ServerID x) T_FAILED d db1 of Inl _ \<Rightarrow> db1 | Inr d \<Rightarrow> d))) \<subseteq> begun_keys db1" for d ts
      using handleRolloutFailure_begun by blast
    then show ?thesis
      using db1 True Cons.IH [of tid' db1] a by (auto simp: advanced_def Let_def split: option.splits) blast+
  next
    case False
    then have "advance_targets env now r t batch tid (x # xs) db = advance_targets env now r t batch tid xs db"
      by (auto simp: advanced_def)
    then show ?thesis using Cons.IH [of tid db] by auto
  qed
qed simp

text \<open>
  What the schema guarantees of the table of targets: the foreign key to the servers and the check on the
  status a deferred target resumes with.
\<close>

definition resumable :: "target_status option \<Rightarrow> bool" where
  "resumable s \<longleftrightarrow> (case s of None \<Rightarrow> True | Some s \<Rightarrow> s \<in> {T_PENDING, TRANSITION_PENDING, PACKAGE_PENDING, POLICY_PENDING, ROLLBACK_PENDING})"

definition target_schema :: "database \<Rightarrow> bool" where
  "target_schema db \<longleftrightarrow> list_all (\<lambda>t. server_row_of db (pt_ServerID t) \<noteq> None \<and> resumable (pt_ResumeStatus t)) (db_targets db)"

definition record_of :: "target_row \<Rightarrow> PolicyRolloutTargetRecord \<Rightarrow> bool" where
  "record_of t x \<longleftrightarrow> tr_ServerID x = pt_ServerID t \<and> tr_BatchNo x = pt_BatchNo t \<and> tr_Status x = pt_Status t \<and> tr_ResumeStatus x = pt_ResumeStatus t"

lemma listed_records:
  "x \<in> set (ListPolicyRolloutTargets db now rid) \<Longrightarrow> \<exists>t \<in> set (db_targets db). pt_RolloutID t = rid \<and> record_of t x"
  by (auto simp: ListPolicyRolloutTargets_def List.map_filter_def record_of_def target_record_def)

lemma rows_listed:
  assumes "target_schema db" "t \<in> set (db_targets db)"
  shows "\<exists>x \<in> set (ListPolicyRolloutTargets db now (pt_RolloutID t)). record_of t x"
proof -
  obtain s where s: "server_row_of db (pt_ServerID t) = Some s" using assms by (auto simp: target_schema_def list_all_iff)
  have "target_record db now t s \<in> set (ListPolicyRolloutTargets db now (pt_RolloutID t))"
    using assms(2) s by (force simp: ListPolicyRolloutTargets_def List.map_filter_def)
  moreover have "record_of t (target_record db now t s)" by (simp add: record_of_def target_record_def)
  ultimately show ?thesis by blast
qed

definition refreshed :: "PolicyRolloutTargetRecord \<Rightarrow> PolicyRolloutTargetRecord" where
  "refreshed x =
     (if tr_Status x = DEFERRED \<and> tr_Online x then
        x\<lparr>tr_Status := (case tr_ResumeStatus x of None \<Rightarrow> T_PENDING | Some s \<Rightarrow> s), tr_ResumeStatus := None\<rparr>
      else if tr_Status x \<noteq> DEFERRED \<and> \<not> finished (tr_Status x) \<and> tr_Status x \<noteq> T_FAILED \<and> \<not> tr_Online x then
        x\<lparr>tr_ResumeStatus := Some (tr_Status x), tr_Status := DEFERRED\<rparr>
      else x)"

lemma refresh_target_record: "refresh_target rid x db = (x', db') \<Longrightarrow> x' = refreshed x"
  by (auto simp: refresh_target_def refreshed_def Let_def split: if_splits)

lemma refresh_targets_records: "refresh_targets rid xs db = (xs', db') \<Longrightarrow> xs' = map refreshed xs"
  by (induction xs arbitrary: db xs' db') (auto split: prod.splits dest: refresh_target_record)

lemma refreshed_simps [simp]:
  "tr_ServerID (refreshed x) = tr_ServerID x" "tr_BatchNo (refreshed x) = tr_BatchNo x" "tr_Online (refreshed x) = tr_Online x"
  by (simp_all add: refreshed_def)

definition begun_record :: "PolicyRolloutTargetRecord \<Rightarrow> bool" where
  "begun_record x \<longleftrightarrow> started (tr_Status x) \<or> tr_Status x = DEFERRED \<and> (case tr_ResumeStatus x of None \<Rightarrow> False | Some s \<Rightarrow> started s)"

lemma record_begun: "record_of t x \<Longrightarrow> begun t = begun_record x"
  by (simp add: record_of_def begun_def begun_record_def)

lemma refreshed_started: "started (tr_Status (refreshed x)) \<Longrightarrow> begun_record x"
  by (auto simp: refreshed_def begun_record_def started_def split: if_splits option.splits)

lemma refresh_target_begun:
  "begun_keys (snd (refresh_target rid x db)) \<subseteq> begun_keys db \<union> (if begun_record x then {(rid, tr_ServerID x)} else {})"
proof (cases "tr_Status x = DEFERRED \<and> tr_Online x")
  case True
  let ?s = "case tr_ResumeStatus x of None \<Rightarrow> T_PENDING | Some s \<Rightarrow> s"
  have "begun_keys (ResumePolicyRolloutTarget rid (tr_ServerID x) ?s db) \<subseteq> begun_keys db \<union> (if begun_record x then {(rid, tr_ServerID x)} else {})"
    unfolding ResumePolicyRolloutTarget_def
    by (rule begun_keys_update) (use True in \<open>auto simp: of_target_def begun_def begun_record_def started_def split: option.splits\<close>)
  then show ?thesis using True by (simp add: refresh_target_def Let_def)
next
  case False
  have "begun_keys (DeferPolicyRolloutTarget rid (tr_ServerID x) (tr_Status x) db) \<subseteq> begun_keys db \<union> {}"
    unfolding DeferPolicyRolloutTarget_def by (rule begun_keys_update) (auto simp: begun_def)
  then show ?thesis using False by (auto simp: refresh_target_def)
qed

lemma refresh_targets_begun:
  "refresh_targets rid xs db = (xs', db') \<Longrightarrow>
     begun_keys db' \<subseteq> begun_keys db \<union> (\<lambda>x. (rid, tr_ServerID x)) ` {x \<in> set xs. begun_record x}"
proof (induction xs arbitrary: db xs')
  case (Cons x xs)
  obtain x1 db1 where h: "refresh_target rid x db = (x1, db1)" by fastforce
  obtain xs2 db2 where t: "refresh_targets rid xs db1 = (xs2, db2)" by fastforce
  have "db2 = db'" using Cons.prems h t by simp
  then show ?case
    using Cons.IH [of db1 xs2] t refresh_target_begun [of rid x db] h by (auto split: if_splits)
qed simp

lemma refresh_listed_begun:
  assumes "refresh_targets rid (ListPolicyRolloutTargets db now rid) db = (xs', db')"
  shows "begun_keys db' \<subseteq> begun_keys db"
proof -
  have "(\<lambda>x. (rid, tr_ServerID x)) ` {x \<in> set (ListPolicyRolloutTargets db now rid). begun_record x} \<subseteq> begun_keys db"
    using listed_records [of _ db now rid] record_begun by (force simp: begun_keys_def record_of_def)
  then show ?thesis using refresh_targets_begun [OF assms] by blast
qed

interpretation exchange_canary: starts_at_most "SwapPolicyRolloutCanary rid deferred canary batch" "{}" for rid deferred canary batch
proof
  fix db db' assume op: "SwapPolicyRolloutCanary rid deferred canary batch db = Inr db'"
  obtain P Q where db': "db' = update_targets Q (set_batch 0) (update_targets P (set_batch batch) db)"
    using op by (auto simp: SwapPolicyRolloutCanary_def Let_def split: if_splits)
  have "begun_keys (update_targets R (set_batch n) d) \<subseteq> begun_keys d \<union> {}" for R n d
    by (rule begun_keys_update) (auto simp: set_batch_def begun_def)
  then show "begun_keys db' \<subseteq> begun_keys db \<union> {}" unfolding db' by blast
qed

lemma replace_canary_begun: "replace_canary rid xs db = Inr (xs', db') \<Longrightarrow> begun_keys db' \<subseteq> begun_keys db"
  using exchange_canary.starts by (fastforce simp: replace_canary_def split: option.splits if_splits sum.splits)

lemma current_batch_least:
  "fold (\<lambda>x acc. if \<not> waiting x then acc else case acc of None \<Rightarrow> Some (tr_BatchNo x) | Some b \<Rightarrow> Some (min (tr_BatchNo x) b)) xs acc = Some b \<Longrightarrow>
     ((\<exists>x \<in> set xs. waiting x \<and> tr_BatchNo x = b) \<or> acc = Some b) \<and> (\<forall>x \<in> set xs. waiting x \<longrightarrow> b \<le> tr_BatchNo x) \<and>
     (case acc of None \<Rightarrow> True | Some c \<Rightarrow> b \<le> c)"
proof (induction xs arbitrary: acc)
  case (Cons x xs)
  show ?case using Cons.IH Cons.prems by (cases "waiting x"; cases acc) (fastforce simp: min_def split: if_splits)+
qed simp

lemma current_batch_Some:
  assumes "current_batch xs = Some b"
  shows "\<exists>x \<in> set xs. waiting x \<and> tr_BatchNo x = b" "\<And>x. x \<in> set xs \<Longrightarrow> waiting x \<Longrightarrow> b \<le> tr_BatchNo x"
  using current_batch_least [OF assms [unfolded current_batch_def]] by auto

lemma current_batch_None: "current_batch xs = None \<longleftrightarrow> (\<forall>x \<in> set xs. \<not> waiting x)"
proof -
  have "fold (\<lambda>x acc. if \<not> waiting x then acc else case acc of None \<Rightarrow> Some (tr_BatchNo x) | Some b \<Rightarrow> Some (min (tr_BatchNo x) b)) xs acc = None \<longleftrightarrow>
      acc = None \<and> (\<forall>x \<in> set xs. \<not> waiting x)" for acc
    by (induction xs arbitrary: acc) (auto split: option.splits)
  then show ?thesis by (simp add: current_batch_def)
qed

lemma count_mset_map: "count (mset (map g xs)) a = length (filter (\<lambda>x. g x = a) xs)"
  by (induction xs) auto

lemma slot_count: "count (slots db) (rid, b) = length (filter (\<lambda>t. pt_RolloutID t = rid \<and> pt_BatchNo t = b) (db_targets db))"
  by (simp add: slots_def count_mset_map del: mset_map)

lemma short_list_eq: "length xs \<le> 1 \<Longrightarrow> x \<in> set xs \<Longrightarrow> y \<in> set xs \<Longrightarrow> x = y"
  by (cases xs) auto

lemma canary_unique:
  assumes "batches_ok C db" "t \<in> set (db_targets db)" "u \<in> set (db_targets db)" "pt_RolloutID t = pt_RolloutID u" "pt_BatchNo t = 0" "pt_BatchNo u = 0"
  shows "t = u"
proof -
  let ?F = "filter (\<lambda>x. pt_RolloutID x = pt_RolloutID t \<and> pt_BatchNo x = 0) (db_targets db)"
  have "count (slots db) (pt_RolloutID t, 0) \<le> (if (0::nat) = 0 then 1 else 25)" using assms(1) unfolding batches_ok_def by blast
  then have "length ?F \<le> 1" by (simp add: slot_count)
  moreover have "t \<in> set ?F" "u \<in> set ?F" using assms(2-6) by simp_all
  ultimately show ?thesis by (rule short_list_eq)
qed

definition canary_unfinished :: "database \<Rightarrow> string \<Rightarrow> bool" where
  "canary_unfinished db rid \<longleftrightarrow> list_ex (\<lambda>t. pt_RolloutID t = rid \<and> pt_BatchNo t = 0 \<and> \<not> finished (pt_Status t)) (db_targets db)"

lemma set_record_batch_simps [simp]:
  "tr_ServerID (set_record_batch sid n x) = tr_ServerID x" "tr_Status (set_record_batch sid n x) = tr_Status x"
  "tr_Online (set_record_batch sid n x) = tr_Online x"
  "tr_BatchNo (set_record_batch sid n x) = (if tr_ServerID x = sid then n else tr_BatchNo x)"
  by (simp_all add: set_record_batch_def)

lemma replaced_canary:
  assumes "replace_canary rid xs db = Inr (ys, db')" "\<forall>x \<in> set xs. \<forall>y \<in> set xs. tr_BatchNo x = 0 \<longrightarrow> tr_BatchNo y = 0 \<longrightarrow> tr_ServerID x = tr_ServerID y"
  shows "ys = xs \<and> (last_such (is_canary DEFERRED) ys = None \<or> canary_applied ys \<or> find is_candidate ys = None) \<or>
    (\<exists>c \<in> set ys. tr_BatchNo c = 0 \<and> waiting c \<and> (\<forall>y \<in> set ys. tr_BatchNo y = 0 \<longrightarrow> tr_ServerID y = tr_ServerID c))"
proof (cases "ys = xs \<and> (last_such (is_canary DEFERRED) ys = None \<or> canary_applied ys \<or> find is_candidate ys = None)")
  case False
  then obtain d c where d: "last_such (is_canary DEFERRED) xs = Some d" and c: "find is_candidate xs = Some c"
    and ys: "ys = map (set_record_batch (tr_ServerID c) 0 \<circ> set_record_batch (tr_ServerID d) (tr_BatchNo c)) xs"
    using assms(1) by (auto simp: replace_canary_def split: option.splits if_splits sum.splits)
  have dx: "d \<in> set xs" "tr_BatchNo d = 0" using find_Some [OF d [unfolded last_such_def]] by (simp_all add: is_canary_def)
  have cx: "c \<in> set xs" "tr_Status c = T_PENDING" "tr_BatchNo c > 0" using find_Some [OF c] by (simp_all add: is_candidate_def)
  let ?c = "(set_record_batch (tr_ServerID c) 0 \<circ> set_record_batch (tr_ServerID d) (tr_BatchNo c)) c"
  have "?c \<in> set ys" using cx(1) ys by auto
  moreover have "tr_BatchNo ?c = 0" "waiting ?c" using cx(2) by (simp_all add: waiting_def finished_def)
  moreover have "tr_ServerID y = tr_ServerID ?c" if y: "y \<in> set ys" "tr_BatchNo y = 0" for y
  proof -
    have "tr_ServerID x = tr_ServerID d" if "x \<in> set xs" "tr_BatchNo x = 0" for x using assms(2) dx that by blast
    then show ?thesis using y cx(3) unfolding ys by (auto split: if_splits)
  qed
  ultimately have "\<exists>c \<in> set ys. tr_BatchNo c = 0 \<and> waiting c \<and> (\<forall>y \<in> set ys. tr_BatchNo y = 0 \<longrightarrow> tr_ServerID y = tr_ServerID c)" by blast
  then show ?thesis by (rule disjI2)
qed (rule disjI1)

lemma advanced_targets_begun:
  assumes db: "batches_ok C db" "target_schema db" "canary_unfinished db rid"
    and xs: "xs = ListPolicyRolloutTargets db now rid" "\<forall>x \<in> set xs. tr_Status x \<noteq> T_FAILED"
    and ys: "replace_canary rid (map refreshed xs) db1 = Inr (ys, db2)" and b: "current_batch ys = Some b"
  shows "\<exists>sid. \<forall>y \<in> set ys. advanced b y \<longrightarrow> (rid, tr_ServerID y) \<in> begun_keys db \<union> {(rid, sid)}"
proof -
  have row: "\<exists>t \<in> set (db_targets db). pt_RolloutID t = rid \<and> record_of t x" if "x \<in> set xs" for x
    using listed_records that unfolding xs(1) by blast
  have uniq: "tr_ServerID x = tr_ServerID y" if "x \<in> set xs" "y \<in> set xs" "tr_BatchNo x = 0" "tr_BatchNo y = 0" for x y
    using row [OF that(1)] row [OF that(2)] that(3,4) canary_unique [OF db(1)] by (metis record_of_def)
  have one: "\<forall>x \<in> set (map refreshed xs). \<forall>y \<in> set (map refreshed xs). tr_BatchNo x = 0 \<longrightarrow> tr_BatchNo y = 0 \<longrightarrow> tr_ServerID x = tr_ServerID y"
    by (auto intro: uniq)
  consider (replaced) c where "c \<in> set ys" "tr_BatchNo c = 0" "waiting c" "\<forall>y \<in> set ys. tr_BatchNo y = 0 \<longrightarrow> tr_ServerID y = tr_ServerID c"
    | (kept) "ys = map refreshed xs" "last_such (is_canary DEFERRED) ys = None \<or> canary_applied ys \<or> find is_candidate ys = None"
    using replaced_canary [OF ys one] by metis
  then show ?thesis
  proof cases
    case replaced
    then have "b = 0" using current_batch_Some(2) [OF b] by fastforce
    then show ?thesis using replaced(4) by (auto simp: advanced_def)
  next
    case kept
    show ?thesis
    proof (cases "b = 0")
      case True
      then have "\<exists>sid. \<forall>y \<in> set ys. advanced b y \<longrightarrow> tr_ServerID y = sid" using one unfolding kept(1) advanced_def by blast
      then show ?thesis by blast
    next
      case False
      have schema: "resumable (tr_ResumeStatus x)" if "x \<in> set xs" for x
        using row [OF that] db(2) by (auto simp: target_schema_def list_all_iff record_of_def)
      obtain u where u: "u \<in> set (db_targets db)" "pt_RolloutID u = rid" "pt_BatchNo u = 0" "\<not> finished (pt_Status u)"
        using db(3) by (auto simp: canary_unfinished_def list_ex_iff)
      then obtain c where c: "c \<in> set xs" "record_of u c" using rows_listed [OF db(2) u(1)] xs(1) by blast
      have unfin: "\<not> finished (tr_Status (refreshed x))" if "x \<in> set xs" "tr_BatchNo x = 0" for x
      proof -
        have "\<not> finished (tr_Status x)" using row [OF that(1)] that(2) canary_unique [OF db(1) u(1)] u by (metis record_of_def)
        then show ?thesis using schema [OF that(1)] by (auto simp: refreshed_def resumable_def finished_def split: option.splits)
      qed
      have c0: "tr_BatchNo (refreshed c) = 0" using c(2) u(3) by (simp add: record_of_def)
      have "\<not> waiting (refreshed c)" using current_batch_Some(2) [OF b, of "refreshed c"] False kept(1) c(1) c0 by auto
      then have "tr_Status (refreshed c) = DEFERRED" using unfin [OF c(1)] c0 by (simp add: waiting_def)
      then have "last_such (is_canary DEFERRED) ys \<noteq> None"
        using kept(1) c(1) c0 by (auto simp: last_such_def find_None is_canary_def)
      moreover have "\<not> canary_applied ys" using unfin kept(1) by (auto simp: canary_applied_def list_ex_iff)
      ultimately have "find is_candidate ys = None" using kept(2) by auto
      then have idle: "\<not> is_candidate (refreshed x)" if "x \<in> set xs" for x using that kept(1) by (simp add: find_None)
      have "(rid, tr_ServerID x) \<in> begun_keys db" if x: "x \<in> set xs" "advanced b (refreshed x)" for x
      proof -
        have "tr_Status (refreshed x) \<notin> {T_PENDING, DEFERRED, T_FAILED} \<and> \<not> finished (tr_Status (refreshed x))"
          using x idle [OF x(1)] False schema [OF x(1)] xs(2)
          by (auto simp: advanced_def is_candidate_def refreshed_def resumable_def split: option.splits if_splits)
        then have "started (tr_Status (refreshed x))" by (cases "tr_Status (refreshed x)") (auto simp: started_def finished_def)
        then have "begun_record x" by (rule refreshed_started)
        then show ?thesis using row [OF x(1)] record_begun by (force simp: begun_keys_def record_of_def)
      qed
      then show ?thesis using kept(1) by auto
    qed
  qed
qed

definition advanced_keys :: "PolicyRolloutRecord \<Rightarrow> PolicyRolloutTargetRecord list \<Rightarrow> (string \<times> string) set" where
  "advanced_keys r xs =
     (case current_batch xs of None \<Rightarrow> {} | Some b \<Rightarrow> (\<lambda>x. (ro_ID r, tr_ServerID x)) ` {x \<in> set xs. advanced b x})"

lemma expand_rollout_begun:
  "begun_keys (snd (expand_rollout env now r t xs db)) \<subseteq> begun_keys db \<union> advanced_keys r xs"
proof (cases "current_batch xs")
  case None
  have "begun_keys (snd (last_transaction (CompletePolicyRollout r) db)) = begun_keys db"
    by (auto simp: last_transaction_def CompletePolicyRollout_def begun_keys_def split: sum.splits if_splits option.splits)
  then show ?thesis using None by (simp add: expand_rollout_def advanced_keys_def)
next
  case (Some b)
  then show ?thesis
    using advance_targets_begun [of env now r t b "existingTransitionRevision xs" xs db]
      advance_targets_begun [of env now r t b "existingTransitionRevision xs" xs "UpdatePolicyRolloutStatus (ro_ID r) s None db" for s]
    by (simp add: expand_rollout_def advanced_keys_def Let_def)
qed

lemma gated_expansion_begun:
  "begun_keys (snd (gated_expansion env now r t c xs db)) \<subseteq> begun_keys db \<union> advanced_keys r xs"
proof -
  have "begun_keys (snd (recoverFailedCanary env now r canary d db)) \<subseteq> begun_keys db \<union> advanced_keys r xs" for canary d
    using recoverFailedCanary_begun by blast
  with expand_rollout_begun [of env now r t xs db] show ?thesis
    by (simp add: gated_expansion_def split: option.split gate.split)
qed

text \<open>C4:
  the canary goes first. As long as the canary of an active rollout (its target in batch 0) is listed and
  has not finished, a pass of the engine begins the rollout on at most one server it had not begun on before,
  whatever the servers report and whichever errors occur. (\<open>target_schema\<close> is the primary key of the targets.) A canary is no longer listed when its revoked server
  was deleted; \<open>deleted_canary_expands\<close> shows what happens then.
\<close>

theorem canary_first:
  assumes "reachable env db" "target_schema db" "r \<in> set (ListActivePolicyRollouts db)" "canary_unfinished db (ro_ID r)"
  shows "\<exists>sid. begun_keys (snd (processPolicyRollout env now r db)) \<subseteq> begun_keys db \<union> {(ro_ID r, sid)}"
proof -
  let ?xs = "ListPolicyRolloutTargets db now (ro_ID r)"
  have ok: "batches_ok False db" using reachable_ok [OF assms(1)] by (simp add: rollouts_ok_def)
  obtain xs1 db1 where f: "refresh_targets (ro_ID r) ?xs db = (xs1, db1)" by fastforce
  have xs1: "xs1 = map refreshed ?xs" by (rule refresh_targets_records [OF f])
  have db1: "begun_keys db1 \<subseteq> begun_keys db" by (rule refresh_listed_begun [OF f])
  have pass: "\<exists>sid. begun_keys (snd (gated_expansion env now r t c ys db2)) \<subseteq> begun_keys db \<union> {(ro_ID r, sid)}"
    if none: "find (\<lambda>x. tr_Status x = T_FAILED) ?xs = None" and ys: "replace_canary (ro_ID r) xs1 db1 = Inr (ys, db2)" for t c ys db2
  proof -
    obtain sid where sid: "advanced_keys r ys \<subseteq> begun_keys db \<union> {(ro_ID r, sid)}"
    proof (cases "current_batch ys")
      case (Some b)
      obtain sid where "\<forall>y \<in> set ys. advanced b y \<longrightarrow> (ro_ID r, tr_ServerID y) \<in> begun_keys db \<union> {(ro_ID r, sid)}"
        using advanced_targets_begun [OF ok assms(2,4) refl _ ys [unfolded xs1] Some] none by (auto simp: find_None)
      then show ?thesis using that [of sid] by (simp add: advanced_keys_def Some image_subset_iff)
    qed (simp add: advanced_keys_def that)
    have "begun_keys db2 \<subseteq> begun_keys db" using replace_canary_begun [OF ys] db1 by blast
    then show ?thesis using gated_expansion_begun [of env now r t c ys db2] sid by blast
  qed
  have "\<exists>sid. begun_keys db' \<subseteq> begun_keys db \<union> {(ro_ID r, sid)}" if "begun_keys db' \<subseteq> begun_keys db" for db'
    using that by blast
  then show ?thesis
    using pass db1 handleRolloutFailure_begun [of env now r ?xs _ db] f
    by (simp add: processPolicyRollout_def Let_def split: option.split sum.split)
qed

section \<open>A sample of two servers\<close>

definition demo_env :: rollout_env where
  "demo_env = \<lparr>ve_template = (\<lambda>v. if v = ''v1'' then Some baseline_template else None), ve_revision = revision_sample_env,
     ve_randomID = (\<lambda>n. replicate (Suc n) CHR ''x''), ve_ResolveCRS = None\<rparr>"

definition demo_server :: "string \<Rightarrow> server_row" where
  "demo_server sid = \<lparr>srv_ID = sid, srv_EnterpriseID = ''e'', srv_Name = sid, srv_Revoked = False, srv_LastHeartbeatAt = 0,
     srv_Inventory = \<lparr>inv_CRSVersion = ''4.0.0'', inv_PolicyFormats = [], inv_InstallationStage = ''PROTECTED'', inv_InstallationMode = ''managed'',
       inv_ConnectorLoaded = True, inv_ConfigTestOK = True\<rparr>, srv_PolicyRevision = ''r0''\<rparr>"

definition demo_policy :: "string \<Rightarrow> policy_row" where
  "demo_policy pid = (new_policy pid ''e'' ''MANUAL'')\<lparr>ep_CurrentRevisionID := ''r0'', ep_CurrentSystemPolicyID := ''v1''\<rparr>"

definition demo_start :: database where
  "demo_start = \<lparr>db_active_enterprises = [''e''], db_policies = [demo_policy ''p'', demo_policy ''q''],
     db_revisions = map (\<lambda>i. \<lparr>rv_ID = i, rv_EnterprisePolicyID = ''p'', rv_SystemPolicyVersionID = ''v1'', rv_ArtifactFormat = []\<rparr>) [''r0'', ''r1''],
     db_rollouts = [], db_targets = [], db_servers = map demo_server [''s1'', ''s2''],
     db_desired = map (\<lambda>i. \<lparr>ds_ServerID = i, ds_PolicyRevisionID = ''r0'', ds_AgentPackageID = [], ds_ModulePackageID = [], ds_PackageDeploymentID = []\<rparr>) [''s1'', ''s2''],
     db_policy_deployments = [], db_package_deployments = [], db_policy_servers = [], db_incidents = [], db_ids = 0\<rparr>"

definition demo_create :: "string \<Rightarrow> string \<Rightarrow> transaction" where
  "demo_create pid targetSystem =
     CreatePolicyRollout (ve_randomID demo_env) pid ''e'' ''r0'' UPDATE QUEUED None ''r1'' targetSystem [''s1'', ''s2'']"

definition demo_db :: "string \<Rightarrow> database" where
  "demo_db targetSystem = (case demo_create ''p'' targetSystem demo_start of Inl _ \<Rightarrow> demo_start | Inr db \<Rightarrow> db)"

definition demo_rollout :: "string \<Rightarrow> PolicyRolloutRecord" where
  "demo_rollout targetSystem = hd (ListActivePolicyRollouts (demo_db targetSystem))"

lemma demo_created: "\<not> isl (demo_create ''p'' ''v1'' demo_start)" "\<not> isl (demo_create ''p'' ''v2'' demo_start)"
  by code_simp+

lemma demo_undeleted:
  assumes "v \<in> {''v1'', ''v2''}"
  shows "undeleted demo_env (demo_db v)"
proof -
  have "demo_create ''p'' v demo_start = Inr (demo_db v)"
    using demo_created assms by (auto simp: demo_db_def split: sum.splits)
  then have "rollout_operation demo_env demo_start (demo_db v)"
    unfolding demo_create_def by (rule rollout_operation.create)
  moreover have "undeleted demo_env demo_start" by (rule undeleted.init) (simp_all add: demo_start_def)
  ultimately show ?thesis by (rule undeleted.step [rotated])
qed

lemmas demo_reachable = undeleted_reachable [OF demo_undeleted]

lemma demo_active: "demo_rollout ''v1'' \<in> set (ListActivePolicyRollouts (demo_db ''v1''))" "demo_rollout ''v2'' \<in> set (ListActivePolicyRollouts (demo_db ''v2''))"
proof -
  have "ListActivePolicyRollouts (demo_db ''v1'') \<noteq> []" "ListActivePolicyRollouts (demo_db ''v2'') \<noteq> []" by code_simp+
  then show "demo_rollout ''v1'' \<in> set (ListActivePolicyRollouts (demo_db ''v1''))" "demo_rollout ''v2'' \<in> set (ListActivePolicyRollouts (demo_db ''v2''))"
    by (simp_all add: demo_rollout_def)
qed

lemma canary_first_witness:
  "\<exists>sid. begun_keys (snd (processPolicyRollout demo_env 0 (demo_rollout ''v1'') (demo_db ''v1''))) \<subseteq>
     begun_keys (demo_db ''v1'') \<union> {(ro_ID (demo_rollout ''v1''), sid)}"
proof (rule canary_first [OF demo_reachable _ demo_active(1)])
  show "target_schema (demo_db ''v1'')" by code_simp
  show "canary_unfinished (demo_db ''v1'') (ro_ID (demo_rollout ''v1''))" by code_simp
qed simp

section \<open>Rollouts of a policy and their batches\<close>

text \<open>C6:
  a policy has one unfinished rollout. Whenever two different unfinished rollouts of a policy exist, one
  operation of the past explains it: the conversion of the policy from its legacy form was accepted while
  the policy already had an unfinished rollout. No other operation (creating, approving, retrying, changing the
  strategy, adding servers, a pass of the engine, termination, deletion of servers) gives a policy a second one.
\<close>

theorem one_active_rollout:
  assumes "reachable env db" "r \<in> set (db_rollouts db)" "r' \<in> set (db_rollouts db)" "is_active (ro_Status r)" "is_active (ro_Status r')"
    and "ro_EnterprisePolicyID r = ro_EnterprisePolicyID r'" "r \<noteq> r'"
  shows "\<exists>db1 db2 eid expected v sids. reachable env db1 \<and> policy_has_active db1 (ro_EnterprisePolicyID r) \<and>
    ConvertLegacyEnterprisePolicy (ve_randomID env) (ro_EnterprisePolicyID r) eid expected v sids db1 = Inr db2 \<and> (rollout_step env)\<^sup>*\<^sup>* db2 db"
proof -
  let ?p = "ro_EnterprisePolicyID r"
  have "\<not> rollouts_ok False {?p} db"
  proof
    assume "rollouts_ok False {?p} db"
    then have "distinct (map ro_EnterprisePolicyID (filter (\<lambda>x. ro_EnterprisePolicyID x = ?p \<and> is_active (ro_Status x)) (db_rollouts db)))"
      by (simp add: rollouts_ok_def active_policies_def filter_map comp_def conj_commute)
    from distinct_ids_eq [OF this, of r r'] show False using assms(2-7) by simp
  qed
  then show ?thesis using second_rollout_converted [OF assms(1), of ?p] by (auto simp: converted_active_def)
qed

text \<open>
  The sample in which the policy is in its legacy form and its recovery on the first server is queued, as
  \<^verbatim>\<open>system_policy_sync.go\<close> creates it for servers that failed to move to another policy. The first
  server is then revoked, so that the conversion is asked for the second one.
\<close>

definition legacy_start :: database where
  "legacy_start = demo_start\<lparr>db_policies := [(demo_policy ''p'')\<lparr>ep_Status := ''LEGACY_LOCKED''\<rparr>]\<rparr>"

definition legacy_recovery :: database where
  "legacy_recovery =
     (case CreatePolicyRollout (ve_randomID demo_env) ''p'' ''e'' ''r0'' RECOVERY QUEUED None ''r0'' ''v1'' [''s1''] legacy_start of
        Inl _ \<Rightarrow> legacy_start | Inr db \<Rightarrow> db)"

definition revoke_rows :: "string \<Rightarrow> database \<Rightarrow> database" where
  "revoke_rows sid db = db\<lparr>db_servers := update_where (\<lambda>s. srv_ID s = sid) (\<lambda>s. s\<lparr>srv_Revoked := True\<rparr>) (db_servers db)\<rparr>"

definition legacy_converted :: database where
  "legacy_converted =
     (case ConvertLegacyEnterprisePolicy (ve_randomID demo_env) ''p'' ''e'' ''r0''
             \<lparr>rv_ID = ''r2'', rv_EnterprisePolicyID = ''p'', rv_SystemPolicyVersionID = ''v1'', rv_ArtifactFormat = []\<rparr> [''s2'']
             (revoke_rows ''s1'' legacy_recovery) of
        Inl _ \<Rightarrow> legacy_start | Inr db \<Rightarrow> db)"

lemma revoke_rows_reachable: "reachable env db \<Longrightarrow> reachable env (revoke_rows sid db)"
  by (rule reachable_unchanged) (simp_all add: revoke_rows_def)

lemma legacy_recovery_reachable: "reachable demo_env legacy_recovery"
proof -
  have "reachable demo_env legacy_start" by (rule reachable.init) (simp_all add: legacy_start_def demo_start_def)
  moreover have "\<not> isl (CreatePolicyRollout (ve_randomID demo_env) ''p'' ''e'' ''r0'' RECOVERY QUEUED None ''r0'' ''v1'' [''s1''] legacy_start)" by code_simp
  then have "CreatePolicyRollout (ve_randomID demo_env) ''p'' ''e'' ''r0'' RECOVERY QUEUED None ''r0'' ''v1'' [''s1''] legacy_start = Inr legacy_recovery"
    by (auto simp: legacy_recovery_def split: sum.splits)
  ultimately show ?thesis by (blast intro: reachable_operation rollout_operation.create)
qed

lemma legacy_converted_reachable: "reachable demo_env legacy_converted"
proof -
  let ?c = "ConvertLegacyEnterprisePolicy (ve_randomID demo_env) ''p'' ''e'' ''r0''
    \<lparr>rv_ID = ''r2'', rv_EnterprisePolicyID = ''p'', rv_SystemPolicyVersionID = ''v1'', rv_ArtifactFormat = []\<rparr> [''s2''] (revoke_rows ''s1'' legacy_recovery)"
  have "\<not> isl ?c" by code_simp
  then have "?c = Inr legacy_converted" by (auto simp: legacy_converted_def split: sum.splits)
  then show ?thesis using revoke_rows_reachable [OF legacy_recovery_reachable] by (blast intro: reachable_operation rollout_operation.convert)
qed

lemma legacy_two:
  "hd (db_rollouts legacy_converted) \<in> set (db_rollouts legacy_converted)" "last (db_rollouts legacy_converted) \<in> set (db_rollouts legacy_converted)"
  "is_active (ro_Status (hd (db_rollouts legacy_converted)))" "is_active (ro_Status (last (db_rollouts legacy_converted)))"
  "ro_EnterprisePolicyID (hd (db_rollouts legacy_converted)) = ro_EnterprisePolicyID (last (db_rollouts legacy_converted))"
  "hd (db_rollouts legacy_converted) \<noteq> last (db_rollouts legacy_converted)"
proof -
  have "db_rollouts legacy_converted \<noteq> []" by code_simp
  then show "hd (db_rollouts legacy_converted) \<in> set (db_rollouts legacy_converted)" "last (db_rollouts legacy_converted) \<in> set (db_rollouts legacy_converted)"
    by simp_all
qed code_simp+

lemma one_active_rollout_witness:
  "\<exists>db1 db2 eid expected v sids. policy_has_active db1 ''p'' \<and>
     ConvertLegacyEnterprisePolicy (ve_randomID demo_env) ''p'' eid expected v sids db1 = Inr db2 \<and> (rollout_step demo_env)\<^sup>*\<^sup>* db2 legacy_converted"
proof -
  have "ro_EnterprisePolicyID (hd (db_rollouts legacy_converted)) = ''p''" by code_simp
  from one_active_rollout [OF legacy_converted_reachable legacy_two, unfolded this] show ?thesis by blast
qed


text \<open>C7:
  the targets of a rollout are staged. A rollout has at most one server in batch 0, the canary, and at
  most 25 in each later batch, also after canaries were exchanged, targets retried and servers deleted, and no
  server is listed twice in a rollout. As long as no revoked server has been deleted, every rollout with targets
  has its canary.
\<close>

theorem staged_batches:
  assumes "reachable env db" "t \<in> set (db_targets db)"
  shows "length (filter (\<lambda>u. pt_RolloutID u = pt_RolloutID t \<and> pt_BatchNo u = 0) (db_targets db)) \<le> 1 \<and>
    (\<forall>b. length (filter (\<lambda>u. pt_RolloutID u = pt_RolloutID t \<and> pt_BatchNo u = Suc b) (db_targets db)) \<le> 25) \<and>
    distinct (map (\<lambda>u. (pt_RolloutID u, pt_ServerID u)) (db_targets db)) \<and>
    (undeleted env db \<longrightarrow> length (filter (\<lambda>u. pt_RolloutID u = pt_RolloutID t \<and> pt_BatchNo u = 0) (db_targets db)) = 1)"
proof (intro conjI allI impI)
  have ok: "batches_ok False db" using reachable_ok [OF assms(1)] by (simp add: rollouts_ok_def)
  have "count (slots db) (pt_RolloutID t, b) \<le> (if b = 0 then 1 else 25)" for b using ok unfolding batches_ok_def by blast
  from this [of 0] this [of "Suc b" for b]
  show "length (filter (\<lambda>u. pt_RolloutID u = pt_RolloutID t \<and> pt_BatchNo u = 0) (db_targets db)) \<le> 1"
    "length (filter (\<lambda>u. pt_RolloutID u = pt_RolloutID t \<and> pt_BatchNo u = Suc b) (db_targets db)) \<le> 25" for b
    by (simp_all add: slot_count)
  show "distinct (map (\<lambda>u. (pt_RolloutID u, pt_ServerID u)) (db_targets db))" using ok by (simp add: batches_ok_def target_keys_def)
  assume "undeleted env db"
  then have "batches_ok True db" using undeleted_ok by (simp add: rollouts_ok_def)
  moreover have "pt_RolloutID t \<in> fst ` set (target_keys db)" using assms(2) by (force simp: target_keys_def)
  ultimately have "count (slots db) (pt_RolloutID t, 0) = 1" by (simp add: batches_ok_def)
  then show "length (filter (\<lambda>u. pt_RolloutID u = pt_RolloutID t \<and> pt_BatchNo u = 0) (db_targets db)) = 1" by (simp add: slot_count)
qed

lemma staged_batches_witness:
  "length (filter (\<lambda>u. pt_RolloutID u = pt_RolloutID (hd (db_targets (demo_db ''v1''))) \<and> pt_BatchNo u = 0) (db_targets (demo_db ''v1''))) = 1"
proof -
  have "db_targets (demo_db ''v1'') \<noteq> []" by code_simp
  then have "hd (db_targets (demo_db ''v1'')) \<in> set (db_targets (demo_db ''v1''))" by (rule hd_in_set)
  then show ?thesis using staged_batches [OF demo_reachable, of "''v1''"] demo_undeleted by simp
qed








section \<open>The canary gate\<close>

lemma listed_record_of:
  assumes "batches_ok C db" "x \<in> set (ListPolicyRolloutTargets db now rid)" "y \<in> set (ListPolicyRolloutTargets db now rid)"
    and "tr_BatchNo x = 0" "tr_BatchNo y = 0"
  shows "x = y"
proof -
  have "\<exists>t \<in> set (db_targets db). pt_RolloutID t = rid \<and> record_of t z \<and> map_option (target_record db now t) (server_row_of db (pt_ServerID t)) = Some z"
    if "z \<in> set (ListPolicyRolloutTargets db now rid)" for z
    using that by (auto simp: ListPolicyRolloutTargets_def List.map_filter_def record_of_def target_record_def)
  from this [OF assms(2)] this [OF assms(3)] show ?thesis
    using assms(4,5) canary_unique [OF assms(1)] by (metis option.inject record_of_def)
qed

lemma finished_refreshed: "finished (tr_Status x) \<Longrightarrow> refreshed x = x"
  by (auto simp: refreshed_def finished_def)

lemma rate_exceeded_iff: "rate_exceeded baseline observed \<longleftrightarrow> observed > 50 \<and> 2 * observed > baseline"
proof -
  have "(of_int observed / 10 :: rat) > 5 \<longleftrightarrow> (of_int observed :: rat) > of_int 50" by (simp add: field_simps)
  moreover have "(of_int observed / 10 :: rat) > of_int baseline / 60 * 3 \<longleftrightarrow> (of_int (2 * observed) :: rat) > of_int baseline"
    by (simp add: field_simps)
  ultimately show ?thesis unfolding rate_exceeded_def max_less_iff_conj of_int_less_iff by simp
qed

lemma no_expansion_begins_nothing:
  assumes "\<not> hasPendingExpansionTargets xs" "\<And>x. x \<in> set xs \<Longrightarrow> tr_BatchNo x = 0 \<Longrightarrow> finished (tr_Status x)"
  shows "current_batch xs = None"
  using assms by (fastforce simp: current_batch_None waiting_def hasPendingExpansionTargets_def list_ex_iff)

lemma gate_passed_canary:
  assumes "evaluateCanaryGate now t c db = Gate_passed"
  shows "\<exists>start. tr_StabilizedAt c = Some start \<and> start + minutes 10 \<le> now \<and> tr_Online c \<and>
    normalizeCRSVersion (tr_InventoryCRSVersion c) = normalizeCRSVersion (t_CRSVersion t) \<and>
    tr_CurrentPolicyRevision c = tr_FinalRevisionID c \<and> tr_PolicyStatus c = Some D_APPLIED \<and>
    (let observed = CountBlockedEvents db (tr_ServerID c) start (start + minutes 10) (tr_FinalRevisionID c)
     in observed \<le> 50 \<or> 2 * observed \<le> CountBlockedEvents db (tr_ServerID c) (start - minutes 60) start [])"
  using assms by (auto simp: evaluateCanaryGate_def rate_exceeded_iff Let_def split: option.splits if_splits)

lemma refresh_targets_incidents: "refresh_targets rid xs db = (xs', db') \<Longrightarrow> db_incidents db' = db_incidents db"
  by (induction xs arbitrary: db xs')
    (auto simp: refresh_target_def ResumePolicyRolloutTarget_def DeferPolicyRolloutTarget_def update_targets_def Let_def split: prod.splits if_splits)

lemma CountBlockedEvents_frame: "db_incidents db' = db_incidents db \<Longrightarrow> CountBlockedEvents db' = CountBlockedEvents db"
  by (intro ext) (simp add: CountBlockedEvents_def)

text \<open>C5:
  an update leaves its canary only through the gate. When the canary of an update has applied the new
  revision and the rollout is still in its canary stage, a pass that begins on any further server happens only
  when the canary was observed for ten minutes and is connected, its CRS version and policy revision are the
  target's, its deployment is reported as applied, and it blocked at most 50 requests in those ten minutes or at
  most half of the number it blocked in the hour before.
\<close>

theorem expansion_needs_gate:
  assumes "reachable env db" "r \<in> set (ListActivePolicyRollouts db)" "ro_Type r = UPDATE" "ro_FromRevisionID r \<noteq> []" "ro_Status r = CANARY"
    and c: "c \<in> set (ListPolicyRolloutTargets db now (ro_ID r))" "tr_BatchNo c = 0" "tr_Status c = T_APPLIED"
    and begins: "\<not> begun_keys (snd (processPolicyRollout env now r db)) \<subseteq> begun_keys db"
  shows "\<exists>t start. ve_template env (ro_TargetSystemPolicyVersionID r) = Some t \<and> tr_StabilizedAt c = Some start \<and> start + minutes 10 \<le> now \<and>
    tr_Online c \<and> normalizeCRSVersion (tr_InventoryCRSVersion c) = normalizeCRSVersion (t_CRSVersion t) \<and>
    tr_CurrentPolicyRevision c = tr_FinalRevisionID c \<and> tr_PolicyStatus c = Some D_APPLIED \<and>
    (let observed = CountBlockedEvents db (tr_ServerID c) start (start + minutes 10) (tr_FinalRevisionID c)
     in observed \<le> 50 \<or> 2 * observed \<le> CountBlockedEvents db (tr_ServerID c) (start - minutes 60) start [])"
proof -
  let ?xs = "ListPolicyRolloutTargets db now (ro_ID r)"
  have ok: "batches_ok False db" using reachable_ok [OF assms(1)] by (simp add: rollouts_ok_def)
  obtain xs1 db1 where f: "refresh_targets (ro_ID r) ?xs db = (xs1, db1)" by fastforce
  have xs1: "xs1 = map refreshed ?xs" by (rule refresh_targets_records [OF f])
  have db1: "begun_keys db1 \<subseteq> begun_keys db" by (rule refresh_listed_begun [OF f])
  have rc: "refreshed c = c" using c(3) by (simp add: finished_refreshed finished_def)
  have canary: "y = c" if "y \<in> set xs1" "tr_BatchNo y = 0" for y
    using that listed_record_of [OF ok _ c(1) _ c(2)] rc unfolding xs1 by auto
  have cx: "c \<in> set xs1" using c(1) rc xs1 by force
  have applied: "canary_applied xs1" using cx c(2,3) by (auto simp: canary_applied_def list_ex_iff finished_def)
  have keep: "replace_canary (ro_ID r) xs1 db1 = Inr (xs1, db1)" using applied by (simp add: replace_canary_def split: option.split)
  have last: "last_such (is_canary T_APPLIED) xs1 = Some c"
  proof (cases "last_such (is_canary T_APPLIED) xs1")
    case None
    then show ?thesis using cx c(2,3) by (auto simp: last_such_def find_None is_canary_def)
  next
    case (Some y)
    then show ?thesis using find_Some [OF Some [unfolded last_such_def]] canary by (simp add: is_canary_def)
  qed
  obtain t where t: "ve_template env (ro_TargetSystemPolicyVersionID r) = Some t" and
    g: "\<not> begun_keys (snd (gated_expansion env now r t (Some c) xs1 db1)) \<subseteq> begun_keys db"
    using begins f keep last handleRolloutFailure_begun [of env now r ?xs _ db]
    by (auto simp: processPolicyRollout_def Let_def split: option.splits if_splits)
  have "advanced_keys r xs1 \<noteq> {}" using g gated_expansion_begun [of env now r t "Some c" xs1 db1] db1 by blast
  then have "current_batch xs1 \<noteq> None" by (auto simp: advanced_keys_def)
  moreover have "finished (tr_Status y)" if "y \<in> set xs1" "tr_BatchNo y = 0" for y using canary [OF that] c(3) by (simp add: finished_def)
  ultimately have "hasPendingExpansionTargets xs1" using no_expansion_begins_nothing [of xs1] by metis
  then have "evaluateCanaryGate now t c db1 = Gate_passed"
    using g assms(3-5) db1 recoverFailedCanary_begun [of env now r c _ db1]
    by (auto simp: gated_expansion_def gate_applies_def split: gate.splits)
  from gate_passed_canary [OF this] show ?thesis
    using t unfolding CountBlockedEvents_frame [OF refresh_targets_incidents [OF f]] by blast
qed

text \<open>The sample after the canary has applied the revision and was observed for ten minutes.\<close>

definition demo_pass :: "time \<Rightarrow> database \<Rightarrow> database" where
  "demo_pass now db = snd (processPolicyRollout demo_env now (hd (ListActivePolicyRollouts db)) db)"

definition demo_report :: "time \<Rightarrow> string \<Rightarrow> database \<Rightarrow> database" where
  "demo_report now revisionID db =
     db\<lparr>db_servers := map (\<lambda>s. s\<lparr>srv_LastHeartbeatAt := now, srv_PolicyRevision := revisionID\<rparr>) (db_servers db),
        db_policy_deployments := map (\<lambda>d. d\<lparr>pd_Status := D_APPLIED\<rparr>) (db_policy_deployments db)\<rparr>"

definition demo_observed :: database where
  "demo_observed = demo_report (minutes 10) ''r1'' (demo_pass 0 (demo_report 0 ''r1'' (demo_pass 0 (demo_db ''v1''))))"

lemma demo_pass_reachable: "reachable demo_env db \<Longrightarrow> ListActivePolicyRollouts db \<noteq> [] \<Longrightarrow> reachable demo_env (demo_pass now db)"
  unfolding demo_pass_def by (rule reachable_operation [OF _ rollout_operation.pass]) simp_all

lemma demo_report_reachable: "reachable env db \<Longrightarrow> reachable env (demo_report now v db)"
  by (rule reachable_unchanged) (simp_all add: demo_report_def)

lemma demo_observed_reachable: "reachable demo_env demo_observed"
proof -
  have "ListActivePolicyRollouts (demo_db ''v1'') \<noteq> []" "ListActivePolicyRollouts (demo_report 0 ''r1'' (demo_pass 0 (demo_db ''v1''))) \<noteq> []"
    by code_simp+
  then show ?thesis
    unfolding demo_observed_def by (intro demo_report_reachable demo_pass_reachable demo_reachable) simp_all
qed

lemma expansion_needs_gate_witness:
  "\<exists>start. tr_StabilizedAt (hd (ListPolicyRolloutTargets demo_observed (minutes 10) ''x'')) = Some start \<and> start + minutes 10 \<le> minutes 10"
proof -
  let ?r = "hd (ListActivePolicyRollouts demo_observed)" and ?c = "hd (ListPolicyRolloutTargets demo_observed (minutes 10) ''x'')"
  have nonempty: "ListActivePolicyRollouts demo_observed \<noteq> []" "ListPolicyRolloutTargets demo_observed (minutes 10) ''x'' \<noteq> []" by code_simp+
  have id: "ro_ID ?r = ''x''" by code_simp
  have "?c \<in> set (ListPolicyRolloutTargets demo_observed (minutes 10) (ro_ID ?r))" unfolding id using nonempty(2) by simp
  moreover have "ro_Type ?r = UPDATE" "ro_FromRevisionID ?r \<noteq> []" "ro_Status ?r = CANARY" "tr_BatchNo ?c = 0" "tr_Status ?c = T_APPLIED" by code_simp+
  moreover have "\<not> begun_keys (snd (processPolicyRollout demo_env (minutes 10) ?r demo_observed)) \<subseteq> begun_keys demo_observed" by code_simp
  ultimately show ?thesis
    using expansion_needs_gate [OF demo_observed_reachable list.set_sel(1) [OF nonempty(1)], of ?c "minutes 10"] by blast
qed

section \<open>States the engine does not leave\<close>

lemma find_stronger: "find P xs = Some x \<Longrightarrow> Q x \<Longrightarrow> (\<And>y. Q y \<Longrightarrow> P y) \<Longrightarrow> find Q xs = Some x"
  by (induction xs) (auto split: if_splits)

lemma failed_again:
  assumes "batches_ok C db" "x \<in> set (ListPolicyRolloutTargets db now rid)" "tr_Status x = T_FAILED" "tr_ResumeStatus x = None"
  shows "UpdatePolicyRolloutTarget now' rid (tr_ServerID x) T_FAILED (tr_Detail x) db = Inl ErrNoRows"
proof -
  obtain t where t: "t \<in> set (db_targets db)" "pt_RolloutID t = rid" "record_of t x" "pt_Detail t = tr_Detail x"
    using assms(2) by (auto simp: ListPolicyRolloutTargets_def List.map_filter_def record_of_def target_record_def)
  have "set_target_status now' T_FAILED (tr_Detail x) u = u" if "u \<in> set (db_targets db)" "of_target rid (tr_ServerID x) u" for u
  proof -
    have "u = t" using distinct_ids_eq [of "\<lambda>t. (pt_RolloutID t, pt_ServerID t)" "db_targets db" u t] assms(1) that t
      by (simp add: batches_ok_def target_keys_def of_target_def record_of_def)
    then show ?thesis using t(3,4) assms(3,4) by (simp add: set_target_status_def record_of_def)
  qed
  then have "changed_rows (of_target rid (tr_ServerID x)) (set_target_status now' T_FAILED (tr_Detail x)) (db_targets db) = 0"
    by (auto simp: changed_rows_def filter_empty_conv)
  then show ?thesis by (simp add: UpdatePolicyRolloutTarget_def)
qed

text \<open>C37:
  a canary that failed stays failed and is not restored. When the first failed target of an update is
  its canary and its server was already changed, the engine marks it as failed once more; this changes no
  column, so that \<^verbatim>\<open>RowsAffected\<close> is 0 and the pass ends with \<^verbatim>\<open>sql.ErrNoRows\<close>
  before the rollout is closed and the recovery is created. Every later pass does the same.
\<close>

theorem failed_canary_unrecovered:
  assumes "reachable env db" "ve_template env (ro_TargetSystemPolicyVersionID r) = Some t" "t_Status t \<noteq> StatusWithdrawn"
    and "ro_Type r = UPDATE" "ro_FromRevisionID r \<noteq> []" "EnterprisePolicyByID db (ro_EnterpriseID r) (ro_EnterprisePolicyID r) = Inr policy"
    and c: "find (\<lambda>x. tr_Status x = T_FAILED) (ListPolicyRolloutTargets db now (ro_ID r)) = Some canary"
      "tr_BatchNo canary = 0" "tr_ResumeStatus canary = None" "rolloutTargetChanged canary"
  shows "processPolicyRollout env now r db = (Some ErrNoRows, db)"
proof -
  let ?xs = "ListPolicyRolloutTargets db now (ro_ID r)"
  have x: "canary \<in> set ?xs" "tr_Status canary = T_FAILED" using find_Some [OF c(1)] by simp_all
  have f: "find (\<lambda>x. tr_BatchNo x = 0 \<and> tr_Status x = T_FAILED \<and> rolloutTargetChanged x) ?xs = Some canary"
    by (rule find_stronger [OF c(1)]) (use c(2,4) x(2) in simp_all)
  have "recoverFailedCanary env now r canary (tr_Detail canary) db = (Some ErrNoRows, db)"
    using failed_again [where C = False, OF _ x c(3)] reachable_ok [OF assms(1)] by (simp add: recoverFailedCanary_def rollouts_ok_def)
  then show ?thesis using assms(2-6) c(1) f by (simp add: processPolicyRollout_def handleRolloutFailure_def Let_def)
qed

text \<open>The sample with a canary whose agent could not apply the revision, after the pass that noticed it.\<close>

definition demo_failed :: database where
  "demo_failed = (let db = demo_pass 0 (demo_db ''v1'')
     in demo_pass 0 (db\<lparr>db_policy_deployments := map (\<lambda>d. d\<lparr>pd_Status := D_FAILED\<rparr>) (db_policy_deployments db)\<rparr>))"

lemma demo_failed_reachable: "reachable demo_env demo_failed"
proof -
  let ?db = "demo_pass 0 (demo_db ''v1'')"
  let ?db' = "?db\<lparr>db_policy_deployments := map (\<lambda>d. d\<lparr>pd_Status := D_FAILED\<rparr>) (db_policy_deployments ?db)\<rparr>"
  have "ListActivePolicyRollouts (demo_db ''v1'') \<noteq> []" "ListActivePolicyRollouts ?db' \<noteq> []" by code_simp+
  moreover have "reachable demo_env ?db'" if "reachable demo_env ?db"
    by (rule reachable_unchanged [OF that]) simp_all
  ultimately show ?thesis
    unfolding demo_failed_def Let_def by (intro demo_pass_reachable) (simp_all add: demo_pass_reachable demo_reachable)
qed

lemma failed_canary_unrecovered_witness:
  "processPolicyRollout demo_env 0 (hd (ListActivePolicyRollouts demo_failed)) demo_failed = (Some ErrNoRows, demo_failed)"
proof -
  let ?r = "hd (ListActivePolicyRollouts demo_failed)" and ?c = "hd (ListPolicyRolloutTargets demo_failed 0 ''x'')"
  have p: "EnterprisePolicyByID demo_failed (ro_EnterpriseID ?r) (ro_EnterprisePolicyID ?r) = Inr (demo_policy ''p'')" by code_simp
  have t: "ve_template demo_env (ro_TargetSystemPolicyVersionID ?r) = Some baseline_template" by code_simp
  have c: "find (\<lambda>x. tr_Status x = T_FAILED) (ListPolicyRolloutTargets demo_failed 0 (ro_ID ?r)) = Some ?c" by code_simp
  show ?thesis
    by (rule failed_canary_unrecovered [OF demo_failed_reachable t _ _ _ p c]) (code_simp+)
qed

text \<open>The sample with a rollout of a second policy created after the first one failed, and the first one retried.\<close>

definition demo_second :: database where
  "demo_second = (case demo_create ''q'' ''v1'' (demo_pass 0 (demo_db ''v2'')) of Inl _ \<Rightarrow> demo_start | Inr db \<Rightarrow> db)"

definition demo_retried :: database where
  "demo_retried = (case RetryPolicyRollout [] ''p'' ''x'' ''r0'' demo_second of Inl _ \<Rightarrow> demo_start | Inr db \<Rightarrow> db)"

lemma demo_retried_reachable: "reachable demo_env demo_retried"
proof -
  have "ListActivePolicyRollouts (demo_db ''v2'') \<noteq> []" by code_simp
  then have p: "reachable demo_env (demo_pass 0 (demo_db ''v2''))" by (simp add: demo_pass_reachable demo_reachable)
  have "\<not> isl (demo_create ''q'' ''v1'' (demo_pass 0 (demo_db ''v2'')))" by code_simp
  then have "demo_create ''q'' ''v1'' (demo_pass 0 (demo_db ''v2'')) = Inr demo_second" by (auto simp: demo_second_def split: sum.splits)
  from reachable_operation [OF p rollout_operation.create [OF this [unfolded demo_create_def]]] have "reachable demo_env demo_second" .
  moreover have "\<not> isl (RetryPolicyRollout [] ''p'' ''x'' ''r0'' demo_second)" by code_simp
  then have "RetryPolicyRollout [] ''p'' ''x'' ''r0'' demo_second = Inr demo_retried" by (auto simp: demo_retried_def split: sum.splits)
  ultimately show ?thesis by (blast intro: reachable_operation rollout_operation.retry)
qed

text \<open>C38:
  a server can be in two unfinished rollouts. Creating a rollout refuses servers with an unfinished
  rollout, but retrying a failed rollout checks only its failed targets: a target that was still pending
  when the rollout failed may have been given to another policy's rollout in the meantime.
\<close>

theorem retry_shares_server:
  "\<exists>db r r'. reachable demo_env db \<and> r \<in> set (db_rollouts db) \<and> r' \<in> set (db_rollouts db) \<and> r \<noteq> r' \<and>
     is_active (ro_Status r) \<and> is_active (ro_Status r') \<and>
     (ro_ID r, ''s1'') \<in> set (target_keys db) \<and> (ro_ID r', ''s1'') \<in> set (target_keys db)"
proof (intro exI conjI)
  let ?db = demo_retried and ?r = "hd (db_rollouts demo_retried)" and ?r' = "last (db_rollouts demo_retried)"
  show "reachable demo_env ?db" by (rule demo_retried_reachable)
  have "db_rollouts ?db \<noteq> []" by code_simp
  then show "?r \<in> set (db_rollouts ?db)" "?r' \<in> set (db_rollouts ?db)" by simp_all
  show "?r \<noteq> ?r'" "is_active (ro_Status ?r)" "is_active (ro_Status ?r')"
    "(ro_ID ?r, ''s1'') \<in> set (target_keys ?db)" "(ro_ID ?r', ''s1'') \<in> set (target_keys ?db)" by code_simp+
qed

end
