(* ===== verification/Agent_Audit.thy ===== *)
theory Agent_Audit
  imports Prelude "HOL-Library.AList" "HOL-Library.Sublist"
begin

text \<open>
  Delivery of security events by the agent: the reader of the ModSecurity audit log
  (\<^verbatim>\<open>src/internal/agent/audit.go\<close>), the spool of unconfirmed batches (\<^verbatim>\<open>spool.go\<close>) and the flush
  that connects them with the Manager (\<^verbatim>\<open>flushAudit\<close> in \<^verbatim>\<open>agent.go\<close>).

  JSON, RFC 3339 times and SHA-256 are arguments. The contents of the agent's own files have an
  abstract type \<open>'r\<close>; the record \<open>agent_codec\<close> holds the functions that write and read them, and
  \<open>agent_codec_ok\<close> is their documented round trip. What may go wrong outside the program is a list of outcomes: every call
  that sends, writes or removes takes the next one. A crash between two calls leaves the same files as the
  refusal of the second one. The reader handles a log that is replaced (another device or inode) or shorter than its position by starting
  over, as the code does. The histories of \<open>agent_run\<close> and \<open>log_history\<close>, over which the theorems on delivery range, are those of one
  file that may grow between two reads and is neither rotated nor truncated: what a rotation removes before the agent
  has read it is lost, and a log that is cut in place (\<^verbatim>\<open>copytruncate\<close>) and has grown past the stored offset before the next read
  is read on from the middle. File paths are file names in the spool
  directory; batch identifiers are those of \<^verbatim>\<open>randomID\<close>, without separators. In the pattern of
  matched variables \<^verbatim>\<open>(?i)\<close> covers ASCII.
\<close>

section \<open>Audit records\<close>

record audit_message =
  am_Message :: string
  am_RuleID :: string
  am_Severity :: string
  am_Match :: string
  am_Tags :: "string list"

record audit_entry =
  ae_UniqueID :: string
  ae_ClientIP :: string
  ae_Time :: string
  ae_Method :: string
  ae_URI :: string
  ae_RequestClientIP :: string
  ae_HTTPCode :: int
  ae_Messages :: "audit_message list"

record SecurityEvent =
  se_EventID :: string
  se_RequestID :: string
  se_OccurredAt :: time
  se_TransactionID :: string
  se_Method :: string
  se_URI :: string
  se_ClientIP :: string
  se_StatusCode :: int
  se_RuleID :: string
  se_Message :: string
  se_MatchedVariable :: string
  se_RuleTags :: "string list"
  se_Severity :: string
  se_Blocked :: bool
  se_PolicyRevision :: string

record log_env =
  le_unmarshal :: "string \<Rightarrow> audit_entry option"
  le_parse_time :: "string \<Rightarrow> time option"
  le_sha256_hex :: "string \<Rightarrow> string"

definition backtick :: char where "backtick = CHR 0x60"

text \<open>
  The pattern \<^verbatim>\<open>against variable [`']?([^`' ]+)\<close>, matched at a given place: the first submatch.
\<close>

definition variable_char :: "char \<Rightarrow> bool" where
  "variable_char c \<longleftrightarrow> c \<noteq> backtick \<and> c \<noteq> squote \<and> c \<noteq> CHR '' ''"

definition audit_variable_at :: "string \<Rightarrow> string option" where
  "audit_variable_at s =
     (let key = ''against variable ''
      in if to_lower (take (length key) s) \<noteq> key then None
         else let rest = drop (length key) s;
                  rest' = (case rest of c # cs \<Rightarrow> if c = backtick \<or> c = squote then cs else rest | [] \<Rightarrow> []);
                  name = takeWhile variable_char rest'
              in if name = [] then None else Some name)"

fun auditVariablePattern :: "string \<Rightarrow> string option" where
  "auditVariablePattern [] = None"
| "auditVariablePattern (c # cs) = (case audit_variable_at (c # cs) of Some name \<Rightarrow> Some name | None \<Rightarrow> auditVariablePattern cs)"

definition auditMatchedVariable :: "string \<Rightarrow> string" where
  "auditMatchedVariable match = (case auditVariablePattern match of None \<Rightarrow> [] | Some name \<Rightarrow> trim_space name)"

definition uniqueAuditTags :: "string list \<Rightarrow> string list" where
  "uniqueAuditTags tags = unique_loop (\<lambda>t. t = []) [] (map trim_space tags)"

definition httpForbidden :: int where "httpForbidden = 403"

definition message_rule_id :: "audit_message \<Rightarrow> string" where
  "message_rule_id m = trim_by (\<lambda>c. c = dquote) (am_RuleID m)"

definition denies :: "int \<Rightarrow> audit_message \<Rightarrow> bool" where
  "denies code m \<longleftrightarrow> contains (to_lower (am_Message m)) ''access denied with code'' \<or>
     (message_rule_id m = ''949110'' \<or> message_rule_id m = ''959100'') \<and> code \<ge> 400"

definition event_id :: "string \<Rightarrow> nat \<Rightarrow> string" where
  "event_id requestID i = requestID @ ''-'' @ itoa (int i)"

definition event_of :: "string \<Rightarrow> time \<Rightarrow> string \<Rightarrow> bool \<Rightarrow> audit_entry \<Rightarrow> nat \<times> audit_message \<Rightarrow> SecurityEvent" where
  "event_of requestID when clientIP blocked entry item =
     (case item of (i, m) \<Rightarrow>
       \<lparr>se_EventID = event_id requestID i, se_RequestID = requestID, se_OccurredAt = when, se_TransactionID = ae_UniqueID entry,
        se_Method = ae_Method entry, se_URI = ae_URI entry, se_ClientIP = clientIP, se_StatusCode = ae_HTTPCode entry,
        se_RuleID = message_rule_id m, se_Message = am_Message m, se_MatchedVariable = auditMatchedVariable (am_Match m),
        se_RuleTags = uniqueAuditTags (am_Tags m), se_Severity = am_Severity m, se_Blocked = blocked, se_PolicyRevision = []\<rparr>)"

definition parseAuditLine :: "log_env \<Rightarrow> time \<Rightarrow> string \<Rightarrow> SecurityEvent list" where
  "parseAuditLine env now line =
     (case le_unmarshal env line of
        None \<Rightarrow> []
      | Some entry \<Rightarrow>
          let when = (case le_parse_time env (ae_Time entry) of None \<Rightarrow> now | Some t \<Rightarrow> t);
              requestID = le_sha256_hex env line;
              clientIP = (if trim_space (ae_ClientIP entry) = [] then trim_space (ae_RequestClientIP entry) else trim_space (ae_ClientIP entry));
              blocked = (ae_HTTPCode entry = httpForbidden \<or> list_ex (denies (ae_HTTPCode entry)) (ae_Messages entry))
          in map (event_of requestID when clientIP blocked entry) (enumerate 0 (ae_Messages entry)))"

section \<open>The reader\<close>

record AuditPosition =
  ap_Device :: nat
  ap_Inode :: nat
  ap_Offset :: int
  ap_MessageOffset :: int

definition no_position :: AuditPosition where
  "no_position = \<lparr>ap_Device = 0, ap_Inode = 0, ap_Offset = 0, ap_MessageOffset = 0\<rparr>"

definition Empty :: "AuditPosition \<Rightarrow> bool" where
  "Empty p \<longleftrightarrow> ap_Device p = 0 \<and> ap_Inode p = 0 \<and> ap_Offset p = 0 \<and> ap_MessageOffset p = 0"

record audit_file =
  af_device :: nat
  af_inode :: nat
  af_content :: string

text \<open>\<^verbatim>\<open>reader.ReadBytes('\\n')\<close>: a complete line and what follows it, none at the end of the file.\<close>

definition next_line :: "string \<Rightarrow> (string \<times> string) option" where
  "next_line s = (case dropWhile (\<lambda>c. c \<noteq> newline) s of [] \<Rightarrow> None | _ # rest \<Rightarrow> Some (takeWhile (\<lambda>c. c \<noteq> newline) s, rest))"

lemma next_line_Some: "next_line s = Some (line, rest) \<longleftrightarrow> s = line @ newline # rest \<and> newline \<notin> set line"
proof
  assume "next_line s = Some (line, rest)"
  then obtain c where d: "dropWhile (\<lambda>c. c \<noteq> newline) s = c # rest" "line = takeWhile (\<lambda>c. c \<noteq> newline) s"
    by (auto simp: next_line_def split: list.splits)
  then have "c = newline" using hd_dropWhile [of "\<lambda>c. c \<noteq> newline" s] by simp
  moreover have "s = line @ c # rest" using takeWhile_dropWhile_id [of "\<lambda>c. c \<noteq> newline" s] d by simp
  moreover have "newline \<notin> set line" using d(2) set_takeWhileD by fastforce
  ultimately show "s = line @ newline # rest \<and> newline \<notin> set line" by simp
next
  assume s: "s = line @ newline # rest \<and> newline \<notin> set line"
  then have "dropWhile (\<lambda>c. c \<noteq> newline) (line @ newline # rest) = newline # rest"
    by (subst dropWhile_append2) auto
  moreover have "takeWhile (\<lambda>c. c \<noteq> newline) (line @ newline # rest) = line"
    using s by (subst takeWhile_append2) auto
  ultimately show "next_line s = Some (line, rest)" using s by (simp add: next_line_def)
qed

lemma next_line_shorter: "next_line s = Some (line, rest) \<Longrightarrow> length rest < length s"
  by (simp add: next_line_Some)

definition advance_to :: "int \<Rightarrow> AuditPosition \<Rightarrow> AuditPosition" where
  "advance_to lineEnd p = p\<lparr>ap_Offset := lineEnd, ap_MessageOffset := 0\<rparr>"

function read_loop :: "(string \<Rightarrow> SecurityEvent list) \<Rightarrow> int \<Rightarrow> string \<Rightarrow> SecurityEvent list \<Rightarrow> AuditPosition \<Rightarrow> SecurityEvent list \<times> AuditPosition" where
  "read_loop parse limit s events p =
     (case next_line s of
        None \<Rightarrow> (events, p)
      | Some (line, rest) \<Rightarrow>
          let lineEnd = ap_Offset p + len line + 1; parsed = parse line
          in if ap_MessageOffset p > 0 \<and> ap_MessageOffset p \<ge> len parsed
             then read_loop parse limit rest events (advance_to lineEnd p)
             else let parsed' = drop (nat (ap_MessageOffset p)) parsed; remaining = limit - len events
                  in if len parsed' > remaining
                     then if len events > 0 then (events, p)
                          else (events @ take (nat remaining) parsed', p\<lparr>ap_MessageOffset := ap_MessageOffset p + remaining\<rparr>)
                     else if len (events @ parsed') \<ge> limit then (events @ parsed', advance_to lineEnd p)
                          else read_loop parse limit rest (events @ parsed') (advance_to lineEnd p))"
  by pat_completeness auto
termination
  by (relation "measure (\<lambda>(_, _, s, _, _). length s)") (auto dest: next_line_shorter)

declare read_loop.simps [simp del]

text \<open>The position a read starts at: a rotated or truncated file is read from its beginning.\<close>

definition start_position :: "audit_file \<Rightarrow> AuditPosition \<Rightarrow> AuditPosition" where
  "start_position f p =
     (let fresh = (\<lambda>p. p\<lparr>ap_Offset := 0, ap_MessageOffset := 0\<rparr>);
          p1 = (if (ap_Device p \<noteq> 0 \<or> ap_Inode p \<noteq> 0) \<and> (ap_Device p \<noteq> af_device f \<or> ap_Inode p \<noteq> af_inode f) then fresh p else p);
          p2 = (if len (af_content f) < ap_Offset p1 then fresh p1 else p1)
      in p2\<lparr>ap_Device := af_device f, ap_Inode := af_inode f\<rparr>)"

definition ReadBatch :: "log_env \<Rightarrow> time \<Rightarrow> int \<Rightarrow> audit_file option \<Rightarrow> AuditPosition \<Rightarrow> SecurityEvent list \<times> AuditPosition" where
  "ReadBatch env now limit file checkpoint =
     (case file of
        None \<Rightarrow> ([], no_position)
      | Some f \<Rightarrow>
          let p = start_position f checkpoint
          in read_loop (parseAuditLine env now) limit (drop (nat (ap_Offset p)) (af_content f)) [] p)"

section \<open>The spool\<close>

record EventBatch =
  eb_BatchID :: string
  eb_Events :: "SecurityEvent list"

record SpoolItem =
  sp_Batch :: EventBatch
  sp_NextPosition :: AuditPosition
  sp_NextOffset :: int

record 'r agent_codec =
  ac_put_item :: "SpoolItem \<Rightarrow> 'r"
  ac_get_item :: "'r \<Rightarrow> SpoolItem option"
  ac_size :: "'r \<Rightarrow> int"
  ac_put_position :: "AuditPosition \<Rightarrow> 'r"
  ac_get_position :: "'r \<Rightarrow> AuditPosition option"
  ac_legacy_offset :: "'r \<Rightarrow> int option"

definition agent_codec_ok :: "'r agent_codec \<Rightarrow> bool" where
  "agent_codec_ok c \<longleftrightarrow> (\<forall>i. ac_get_item c (ac_put_item c i) = Some i) \<and> (\<forall>p. ac_get_position c (ac_put_position c p) = Some p)"

datatype call_outcome = Done | Lost | Refused

datatype agent_error =
    ReadFailed
  | SendFailed
  | WriteFailed
  | RemoveFailed
  | SpoolLimitExceeded
  | SpoolUndecodable string
  | InvalidSpool string
  | UnsafeSpoolPath

record 'r agent_state =
  st_checkpoint :: "'r option"
  st_spool :: "(string \<times> 'r) list"
  st_sent :: "EventBatch list"
  st_ids :: nat

record 'r flush_env =
  fe_codec :: "'r agent_codec"
  fe_log :: log_env
  fe_file :: "nat \<Rightarrow> audit_file option"
  fe_now :: "nat \<Rightarrow> time"
  fe_revision :: "nat \<Rightarrow> string"
  fe_randomID :: "nat \<Rightarrow> string"
  fe_EventBatchSize :: int
  fe_EventBatchesPerFlush :: nat
  fe_SpoolMaxBytes :: int

text \<open>The result of a call: its error, the files it leaves and the outcomes that remain.\<close>

type_synonym 'r call = "agent_error option \<times> 'r agent_state \<times> call_outcome list"

definition take_outcome :: "call_outcome list \<Rightarrow> call_outcome \<times> call_outcome list" where
  "take_outcome os = (case os of [] \<Rightarrow> (Done, []) | x # xs \<Rightarrow> (x, xs))"

definition is_spool_file :: "string \<Rightarrow> bool" where
  "is_spool_file name \<longleftrightarrow> has_suffix name ''.json''"

definition Stats :: "'r agent_codec \<Rightarrow> (string \<times> 'r) list \<Rightarrow> int \<times> int" where
  "Stats codec files =
     (let entries = filter (\<lambda>(name, _). is_spool_file name) files in (len entries, sum_list (map (\<lambda>(_, raw). ac_size codec raw) entries)))"

definition Put :: "'r flush_env \<Rightarrow> EventBatch \<Rightarrow> AuditPosition \<Rightarrow> 'r agent_state \<Rightarrow> call_outcome list \<Rightarrow> 'r call" where
  "Put env batch nextPosition st os =
     (let raw = ac_put_item (fe_codec env) \<lparr>sp_Batch = batch, sp_NextPosition = nextPosition, sp_NextOffset = 0\<rparr>;
          currentBytes = snd (Stats (fe_codec env) (st_spool st))
      in if fe_SpoolMaxBytes env > 0 \<and> currentBytes + ac_size (fe_codec env) raw > fe_SpoolMaxBytes env
         then (Some SpoolLimitExceeded, st, os)
         else case take_outcome os of
             (Done, os') \<Rightarrow> (None, st\<lparr>st_spool := AList.update (eb_BatchID batch @ ''.json'') raw (st_spool st)\<rparr>, os')
           | (_, os') \<Rightarrow> (Some WriteFailed, st, os'))"

definition decode_item :: "'r agent_codec \<Rightarrow> string \<Rightarrow> 'r \<Rightarrow> agent_error + SpoolItem" where
  "decode_item codec name raw =
     (case ac_get_item codec raw of
        None \<Rightarrow> Inl (SpoolUndecodable name)
      | Some item0 \<Rightarrow>
          let position = (if Empty (sp_NextPosition item0) \<and> sp_NextOffset item0 > 0
                then (sp_NextPosition item0)\<lparr>ap_Offset := sp_NextOffset item0\<rparr> else sp_NextPosition item0);
              item = item0\<lparr>sp_NextPosition := position, sp_NextOffset := 0\<rparr>
          in if eb_BatchID (sp_Batch item) = [] \<or> ap_Offset position < 0 \<or> ap_MessageOffset position < 0 \<or>
                name \<noteq> eb_BatchID (sp_Batch item) @ ''.json''
             then Inl (InvalidSpool name) else Inr item)"

definition pending_step :: "'r agent_codec \<Rightarrow> (string \<times> SpoolItem) list \<Rightarrow> string \<times> 'r \<Rightarrow> agent_error + (string \<times> SpoolItem) list" where
  "pending_step codec items entry =
     (case entry of (name, raw) \<Rightarrow>
        if \<not> is_spool_file name then Inr items
        else case decode_item codec name raw of Inl e \<Rightarrow> Inl e | Inr item \<Rightarrow> Inr (items @ [(name, item)]))"

definition Pending :: "'r agent_codec \<Rightarrow> (string \<times> 'r) list \<Rightarrow> agent_error + (string \<times> SpoolItem) list" where
  "Pending codec files = fold_result (pending_step codec) [] (sort_by (\<lambda>a b. fst a < fst b) files)"

definition Remove :: "string \<Rightarrow> 'r agent_state \<Rightarrow> call_outcome list \<Rightarrow> 'r call" where
  "Remove name st os =
     (if CHR ''/'' \<in> set name \<or> \<not> is_spool_file name then (Some UnsafeSpoolPath, st, os)
      else case take_outcome os of
          (Done, os') \<Rightarrow> (None, st\<lparr>st_spool := AList.delete name (st_spool st)\<rparr>, os')
        | (_, os') \<Rightarrow> (Some RemoveFailed, st, os'))"

section \<open>The flush\<close>

definition Commit :: "'r agent_codec \<Rightarrow> AuditPosition \<Rightarrow> 'r agent_state \<Rightarrow> call_outcome list \<Rightarrow> 'r call" where
  "Commit codec position st os =
     (case take_outcome os of
        (Done, os') \<Rightarrow> (None, st\<lparr>st_checkpoint := Some (ac_put_position codec position)\<rparr>, os')
      | (_, os') \<Rightarrow> (Some WriteFailed, st, os'))"

definition checkpoint :: "'r agent_codec \<Rightarrow> 'r agent_state \<Rightarrow> AuditPosition" where
  "checkpoint codec st =
     (case st_checkpoint st of
        None \<Rightarrow> no_position
      | Some raw \<Rightarrow>
          (case ac_get_position codec raw of
             Some p \<Rightarrow> if ap_Offset p \<ge> 0 \<and> ap_MessageOffset p \<ge> 0 then p
               else (case ac_legacy_offset codec raw of Some n \<Rightarrow> if n \<ge> 0 then no_position\<lparr>ap_Offset := n\<rparr> else no_position | None \<Rightarrow> no_position)
           | None \<Rightarrow> (case ac_legacy_offset codec raw of Some n \<Rightarrow> if n \<ge> 0 then no_position\<lparr>ap_Offset := n\<rparr> else no_position | None \<Rightarrow> no_position)))"

text \<open>The Manager has the batch when the call succeeds, and also when only the answer is lost.\<close>

definition SendEvents :: "EventBatch \<Rightarrow> 'r agent_state \<Rightarrow> call_outcome list \<Rightarrow> 'r call" where
  "SendEvents batch st os =
     (case take_outcome os of
        (Done, os') \<Rightarrow> (None, st\<lparr>st_sent := st_sent st @ [batch]\<rparr>, os')
      | (Lost, os') \<Rightarrow> (Some SendFailed, st\<lparr>st_sent := st_sent st @ [batch]\<rparr>, os')
      | (Refused, os') \<Rightarrow> (Some SendFailed, st, os'))"

definition and_then :: "'r call \<Rightarrow> ('r agent_state \<Rightarrow> call_outcome list \<Rightarrow> 'r call) \<Rightarrow> 'r call" where
  "and_then c f = (case c of (Some e, st, os) \<Rightarrow> (Some e, st, os) | (None, st, os) \<Rightarrow> f st os)"

text \<open>A spooled batch is sent, then the position after it is committed, then the file is removed.\<close>

definition deliver :: "'r flush_env \<Rightarrow> string \<Rightarrow> EventBatch \<Rightarrow> AuditPosition \<Rightarrow> 'r agent_state \<Rightarrow> call_outcome list \<Rightarrow> 'r call" where
  "deliver env name batch position st os =
     and_then (and_then (SendEvents batch st os) (Commit (fe_codec env) position)) (Remove name)"

fun flush_pending ::
  "'r flush_env \<Rightarrow> (string \<times> SpoolItem) list \<Rightarrow> nat \<Rightarrow> 'r agent_state \<Rightarrow> call_outcome list \<Rightarrow> 'r call + nat \<times> 'r agent_state \<times> call_outcome list" where
  "flush_pending env [] sentBatches st os = Inr (sentBatches, st, os)"
| "flush_pending env ((name, item) # items) sentBatches st os =
     (if sentBatches \<ge> fe_EventBatchesPerFlush env then Inl (None, st, os)
      else case deliver env name (sp_Batch item) (sp_NextPosition item) st os of
          (Some e, st', os') \<Rightarrow> Inl (Some e, st', os')
        | (None, st', os') \<Rightarrow> flush_pending env items (Suc sentBatches) st' os')"

definition stamp_revision :: "string \<Rightarrow> SecurityEvent \<Rightarrow> SecurityEvent" where
  "stamp_revision revision e = (if se_PolicyRevision e = [] then e\<lparr>se_PolicyRevision := revision\<rparr> else e)"

definition flush_batch :: "'r flush_env \<Rightarrow> nat \<Rightarrow> SecurityEvent list \<Rightarrow> AuditPosition \<Rightarrow> 'r agent_state \<Rightarrow> call_outcome list \<Rightarrow> 'r call" where
  "flush_batch env k events nextPosition st os =
     (let batch = \<lparr>eb_BatchID = fe_randomID env (st_ids st), eb_Events = map (stamp_revision (fe_revision env k)) events\<rparr>
      in and_then (Put env batch nextPosition (st\<lparr>st_ids := Suc (st_ids st)\<rparr>) os)
           (deliver env (eb_BatchID batch @ ''.json'') batch nextPosition))"

function flush_log :: "'r flush_env \<Rightarrow> nat \<Rightarrow> 'r agent_state \<Rightarrow> call_outcome list \<Rightarrow> 'r call" where
  "flush_log env sentBatches st os =
     (if sentBatches \<ge> fe_EventBatchesPerFlush env then (None, st, os)
      else case take_outcome os of
          (Done, os') \<Rightarrow>
            (let (events, nextPosition) = ReadBatch (fe_log env) (fe_now env sentBatches) (fe_EventBatchSize env)
                   (fe_file env sentBatches) (checkpoint (fe_codec env) st)
             in if events = [] then (if \<not> Empty nextPosition then Commit (fe_codec env) nextPosition st os' else (None, st, os'))
                else case flush_batch env sentBatches events nextPosition st os' of
                    (Some e, st', os'') \<Rightarrow> (Some e, st', os'')
                  | (None, st', os'') \<Rightarrow> flush_log env (Suc sentBatches) st' os'')
        | (_, os') \<Rightarrow> (Some ReadFailed, st, os'))"
  by pat_completeness auto
termination
  by (relation "measure (\<lambda>(env, n, _, _). fe_EventBatchesPerFlush env - n)") auto

declare flush_log.simps [simp del]

definition flushAudit :: "'r flush_env \<Rightarrow> 'r agent_state \<Rightarrow> call_outcome list \<Rightarrow> 'r call" where
  "flushAudit env st os =
     (case Pending (fe_codec env) (st_spool st) of
        Inl e \<Rightarrow> (Some e, st, os)
      | Inr items \<Rightarrow>
          (case flush_pending env items 0 st os of
             Inl result \<Rightarrow> result
           | Inr (sentBatches, st', os') \<Rightarrow> flush_log env sentBatches st' os'))"

section \<open>Events of a log\<close>

text \<open>The identifiers of the events of a line and of a log. They do not depend on the time of reading.\<close>

definition audit_line_ids :: "log_env \<Rightarrow> string \<Rightarrow> string list" where
  "audit_line_ids env line =
     (case le_unmarshal env line of None \<Rightarrow> [] | Some entry \<Rightarrow> map (event_id (le_sha256_hex env line)) [0..<length (ae_Messages entry)])"

function log_ids :: "log_env \<Rightarrow> string \<Rightarrow> string list" where
  "log_ids env s = (case next_line s of None \<Rightarrow> [] | Some (line, rest) \<Rightarrow> audit_line_ids env line @ log_ids env rest)"
  by pat_completeness auto
termination
  by (relation "measure (\<lambda>(_, s). length s)") (auto dest: next_line_shorter)

declare log_ids.simps [simp del]

definition head_ids :: "log_env \<Rightarrow> string \<Rightarrow> string list" where
  "head_ids env s = (case next_line s of None \<Rightarrow> [] | Some (line, _) \<Rightarrow> audit_line_ids env line)"

text \<open>The events before a position.\<close>

definition ids_before :: "log_env \<Rightarrow> string \<Rightarrow> AuditPosition \<Rightarrow> string list" where
  "ids_before env c p = log_ids env (take (nat (ap_Offset p)) c) @ take (nat (ap_MessageOffset p)) (head_ids env (drop (nat (ap_Offset p)) c))"

definition closed_text :: "string \<Rightarrow> bool" where
  "closed_text a \<longleftrightarrow> a = [] \<or> last a = newline"

definition at_line :: "log_env \<Rightarrow> string \<Rightarrow> AuditPosition \<Rightarrow> bool" where
  "at_line env c p \<longleftrightarrow> 0 \<le> ap_Offset p \<and> ap_Offset p \<le> len c \<and> closed_text (take (nat (ap_Offset p)) c) \<and>
     0 \<le> ap_MessageOffset p \<and> ap_MessageOffset p \<le> len (head_ids env (drop (nat (ap_Offset p)) c))"

lemma parse_ids: "map se_EventID (parseAuditLine env now line) = audit_line_ids env line"
proof -
  have "map se_EventID (map (event_of r w c b e) (enumerate n ms)) = map (event_id r) [n..<n + length ms]" for r w c b e n ms
    by (induction ms arbitrary: n) (simp_all add: event_of_def upt_conv_Cons del: upt_Suc)
  then show ?thesis by (simp add: parseAuditLine_def audit_line_ids_def Let_def split: option.split)
qed

lemma length_parse: "length (parseAuditLine env now line) = length (audit_line_ids env line)"
  using parse_ids [of env now line] by (metis length_map)

lemma next_line_None: "next_line s = None \<longleftrightarrow> newline \<notin> set s"
proof (cases "newline \<in> set s")
  case True
  then obtain line rest where "s = line @ newline # rest" "newline \<notin> set line" using split_list_first by metis
  then have "next_line s = Some (line, rest)" by (simp add: next_line_Some)
  then show ?thesis using True by simp
next
  case False
  have "newline \<in> set s" if "next_line s = Some (line, rest)" for line rest using that by (simp add: next_line_Some)
  then show ?thesis using False by (cases "next_line s") auto
qed

lemma log_ids_append: "closed_text a \<Longrightarrow> log_ids env (a @ b) = log_ids env a @ log_ids env b"
proof (induction env a rule: log_ids.induct)
  case (1 env a)
  show ?case
  proof (cases "next_line a")
    case None
    then have "a = []" using 1(2) last_in_set [of a] unfolding next_line_None closed_text_def by metis
    then show ?thesis by (simp add: log_ids.simps [of env "[]"] next_line_def)
  next
    case (Some x)
    obtain line rest where x: "x = (line, rest)" by fastforce
    have a: "a = line @ newline # rest" "newline \<notin> set line" using Some x by (simp_all add: next_line_Some)
    have "closed_text rest" using 1(2) a(1) by (auto simp: closed_text_def split: if_splits)
    then have "log_ids env (rest @ b) = log_ids env rest @ log_ids env b" using 1(1) [OF Some x [symmetric]] by simp
    moreover have "next_line (a @ b) = Some (line, rest @ b)" using a by (simp add: next_line_Some)
    ultimately show ?thesis using Some x by (simp add: log_ids.simps [of env "a @ b"] log_ids.simps [of env a])
  qed
qed

lemma log_ids_line: "newline \<notin> set line \<Longrightarrow> log_ids env (line @ [newline]) = audit_line_ids env line"
proof -
  assume n: "newline \<notin> set line"
  then have "next_line (line @ [newline]) = Some (line, [])" by (simp add: next_line_Some)
  then show ?thesis by (simp add: log_ids.simps [of env "line @ [newline]"] log_ids.simps [of env "[]"] next_line_def [of "[]"])
qed

text \<open>A position given by the text before it.\<close>

definition splits_at :: "string \<Rightarrow> string \<Rightarrow> string \<Rightarrow> AuditPosition \<Rightarrow> bool" where
  "splits_at c a b p \<longleftrightarrow> c = a @ b \<and> closed_text a \<and> ap_Offset p = len a"

lemma splits_at_ids:
  assumes "splits_at c a b p"
  shows "ids_before env c p = log_ids env a @ take (nat (ap_MessageOffset p)) (head_ids env b)"
    and "at_line env c p \<longleftrightarrow> 0 \<le> ap_MessageOffset p \<and> ap_MessageOffset p \<le> len (head_ids env b)"
    and "log_ids env c = log_ids env a @ log_ids env b"
  using assms by (simp_all add: splits_at_def ids_before_def at_line_def log_ids_append)

lemma splits_at_exists: "at_line env c p \<Longrightarrow> splits_at c (take (nat (ap_Offset p)) c) (drop (nat (ap_Offset p)) c) p"
  by (auto simp: at_line_def splits_at_def)

lemma splits_next:
  assumes "splits_at c a b p" "next_line b = Some (line, rest)"
  shows "splits_at c (a @ line @ [newline]) rest (advance_to (ap_Offset p + len line + 1) p)"
    and "ids_before env c (advance_to (ap_Offset p + len line + 1) p) = log_ids env a @ audit_line_ids env line"
    and "head_ids env b = audit_line_ids env line"
proof -
  have b: "b = line @ newline # rest" "newline \<notin> set line" using assms(2) by (simp_all add: next_line_Some)
  show s: "splits_at c (a @ line @ [newline]) rest (advance_to (ap_Offset p + len line + 1) p)"
    using assms(1) b(1) by (simp add: splits_at_def closed_text_def advance_to_def)
  show "ids_before env c (advance_to (ap_Offset p + len line + 1) p) = log_ids env a @ audit_line_ids env line"
    using splits_at_ids(1) [OF s] assms(1) b(2) by (simp add: splits_at_def log_ids_append log_ids_line advance_to_def)
  show "head_ids env b = audit_line_ids env line" using assms(2) by (simp add: head_ids_def)
qed

text \<open>
  What one run of the loop of \<^verbatim>\<open>ReadBatch\<close> does: the events it adds are the ones between the two positions,
  in order, and it stops with none only at the end of the log.
\<close>

definition reads :: "log_env \<Rightarrow> string \<Rightarrow> int \<Rightarrow> AuditPosition \<Rightarrow> SecurityEvent list \<Rightarrow> SecurityEvent list \<times> AuditPosition \<Rightarrow> bool" where
  "reads env c limit p events r \<longleftrightarrow> (\<exists>new p'. r = (events @ new, p') \<and> len (events @ new) \<le> limit \<and> at_line env c p' \<and>
     ids_before env c p' = ids_before env c p @ map se_EventID new \<and> (events @ new = [] \<longrightarrow> ids_before env c p' = log_ids env c) \<and>
     ap_Device p' = ap_Device p \<and> ap_Inode p' = ap_Inode p)"

lemma reads_step:
  assumes "reads env c limit p1 (events @ new) r" "ids_before env c p1 = ids_before env c p @ map se_EventID new"
    and "ap_Device p1 = ap_Device p" "ap_Inode p1 = ap_Inode p"
  shows "reads env c limit p events r"
proof -
  obtain new' p' where "r = ((events @ new) @ new', p')" "len ((events @ new) @ new') \<le> limit" "at_line env c p'"
      "ids_before env c p' = ids_before env c p1 @ map se_EventID new'" "(events @ new) @ new' = [] \<longrightarrow> ids_before env c p' = log_ids env c"
      "ap_Device p' = ap_Device p1" "ap_Inode p' = ap_Inode p1"
    using assms(1) unfolding reads_def by blast
  then show ?thesis using assms(2-4) unfolding reads_def by (intro exI [of _ "new @ new'"] exI [of _ p']) simp
qed

lemma reads_stop:
  "len events \<le> limit \<Longrightarrow> at_line env c p \<Longrightarrow> events = [] \<longrightarrow> ids_before env c p = log_ids env c \<Longrightarrow> reads env c limit p events (events, p)"
  unfolding reads_def by (intro exI [of _ "[]"] exI [of _ p]) simp

lemma reads_cut:
  assumes s: "splits_at c a b p" "next_line b = Some (line, rest)" and "0 \<le> ap_MessageOffset p" "0 < limit"
    and "limit < len (drop (nat (ap_MessageOffset p)) (parseAuditLine env now line))"
  shows "reads env c limit p [] (take (nat limit) (drop (nat (ap_MessageOffset p)) (parseAuditLine env now line)), p\<lparr>ap_MessageOffset := ap_MessageOffset p + limit\<rparr>)"
proof -
  let ?m = "ap_MessageOffset p" and ?p = "p\<lparr>ap_MessageOffset := ap_MessageOffset p + limit\<rparr>" and ?ids = "audit_line_ids env line"
  let ?new = "take (nat limit) (drop (nat ?m) (parseAuditLine env now line))"
  have sp: "splits_at c a b ?p" using s(1) by (simp add: splits_at_def)
  note head = splits_next(3) [OF s, of env]
  have "take (nat (?m + limit)) ?ids = take (nat ?m) ?ids @ take (nat limit) (drop (nat ?m) ?ids)"
    using assms(3,4) by (simp add: nat_add_distrib take_add)
  then have "ids_before env c ?p = ids_before env c p @ map se_EventID ?new"
    using splits_at_ids(1) [OF sp] splits_at_ids(1) [OF s(1)] parse_ids [of env now line] by (simp add: head take_map [symmetric] drop_map [symmetric])
  moreover have "at_line env c ?p" using splits_at_ids(2) [OF sp] assms(3-5) by (simp add: head length_parse)
  moreover have "?new \<noteq> []" "len ?new \<le> limit" using assms(3-5) by auto
  ultimately show ?thesis unfolding reads_def by (intro exI [of _ ?new] exI [of _ ?p]) simp
qed

lemma read_loop_reads:
  assumes "splits_at c a b p" "at_line env c p" "len events < limit"
  shows "reads env c limit p events (read_loop (parseAuditLine env now) limit b events p)"
  using assms
proof (induction "parseAuditLine env now" limit b events p arbitrary: a rule: read_loop.induct)
  case (1 limit b events p)
  let ?m = "ap_MessageOffset p"
  show ?case
  proof (cases "next_line b")
    case None
    then have "ids_before env c p = log_ids env c"
      using splits_at_ids [OF "1.prems"(1)] by (simp add: head_ids_def log_ids.simps [of env b])
    then show ?thesis using None "1.prems"(2,3) by (simp add: read_loop.simps [of _ limit b] reads_stop)
  next
    case (Some x)
    obtain line rest where x: "x = (line, rest)" by fastforce
    note step_to = splits_next [OF "1.prems"(1) Some [unfolded x]]
    let ?parsed = "parseAuditLine env now line" and ?p = "advance_to (ap_Offset p + len line + 1) p"
    let ?new = "drop (nat ?m) ?parsed"
    have m: "0 \<le> ?m" "?m \<le> len ?parsed" using splits_at_ids(2) [OF "1.prems"(1), of env] "1.prems"(2) by (simp_all add: step_to(3) length_parse)
    have at: "at_line env c ?p" using splits_at_ids(2) [OF step_to(1)] by (simp add: advance_to_def)
    have step: "ids_before env c ?p = ids_before env c p @ map se_EventID ?new"
      using step_to(2,3) splits_at_ids(1) [OF "1.prems"(1)] parse_ids [of env now line] by (simp add: drop_map [symmetric])
    have fields: "ap_Device ?p = ap_Device p" "ap_Inode ?p = ap_Inode p" by (simp_all add: advance_to_def)
    show ?thesis
    proof (cases "?m > 0 \<and> ?m \<ge> len ?parsed")
      case True
      then have nil: "?new = []" by (simp add: nat_le_iff le_nat_iff)
      have "reads env c limit ?p (events @ ?new) (read_loop (parseAuditLine env now) limit rest events ?p)"
        unfolding nil using "1.hyps"(1) [OF Some x [symmetric] refl refl True step_to(1) at "1.prems"(3)] by simp
      then show ?thesis using reads_step [OF _ step fields] True Some x by (simp add: read_loop.simps [of _ limit b] Let_def)
    next
      case False
      have more: "reads env c limit ?p (events @ ?new) (read_loop (parseAuditLine env now) limit rest (events @ ?new) ?p)"
        if "\<not> len ?new > limit - len events" "\<not> len (events @ ?new) \<ge> limit"
        using "1.hyps"(2) [OF Some x [symmetric] refl refl False refl refl that step_to(1) at] that by simp
      have last: "reads env c limit ?p (events @ ?new) (events @ ?new, ?p)" if "len (events @ ?new) = limit"
        by (rule reads_stop) (use that at "1.prems"(3) in auto)
      show ?thesis
        using False Some x reads_step [OF more step fields] reads_step [OF last step fields] "1.prems"(2,3)
          reads_stop [OF _ "1.prems"(2), of events limit] reads_cut [OF "1.prems"(1) Some [unfolded x] m(1), of limit env now]
        by (auto simp: read_loop.simps [of _ limit b] Let_def)
    qed
  qed
qed

section \<open>Delivery\<close>

definition batch_ids :: "EventBatch \<Rightarrow> string set" where
  "batch_ids b = set (map se_EventID (eb_Events b))"

definition sent_ids :: "'r agent_state \<Rightarrow> string set" where
  "sent_ids st = \<Union> (batch_ids ` set (st_sent st))"

definition position_ok :: "log_env \<Rightarrow> nat \<Rightarrow> nat \<Rightarrow> string \<Rightarrow> AuditPosition \<Rightarrow> bool" where
  "position_ok L d n c p \<longleftrightarrow> at_line L c p \<and> (ap_Device p = d \<and> ap_Inode p = n \<or> ap_Device p = 0 \<and> ap_Inode p = 0)"

definition covers :: "log_env \<Rightarrow> nat \<Rightarrow> nat \<Rightarrow> string \<Rightarrow> AuditPosition \<Rightarrow> string set \<Rightarrow> bool" where
  "covers L d n c p S \<longleftrightarrow> position_ok L d n c p \<and> set (ids_before L c p) \<subseteq> S"

definition spooled_ok :: "'r agent_codec \<Rightarrow> log_env \<Rightarrow> nat \<Rightarrow> nat \<Rightarrow> string \<Rightarrow> string set \<Rightarrow> string \<times> 'r \<Rightarrow> bool" where
  "spooled_ok codec L d n c S entry \<longleftrightarrow> (\<forall>item. decode_item codec (fst entry) (snd entry) = Inr item \<longrightarrow>
     covers L d n c (sp_NextPosition item) (S \<union> batch_ids (sp_Batch item)))"

text \<open>
  The events before the checkpoint were accepted by the Manager, and accepting a spooled batch is all that
  is missing for the position stored with it.
\<close>

definition agent_inv :: "'r agent_codec \<Rightarrow> log_env \<Rightarrow> nat \<Rightarrow> nat \<Rightarrow> string \<Rightarrow> 'r agent_state \<Rightarrow> bool" where
  "agent_inv codec L d n c st \<longleftrightarrow> covers L d n c (checkpoint codec st) (sent_ids st) \<and>
     (\<forall>entry \<in> set (st_spool st). spooled_ok codec L d n c (sent_ids st) entry)"

lemma covers_mono: "covers L d n c p S \<Longrightarrow> S \<subseteq> T \<Longrightarrow> covers L d n c p T"
  by (auto simp: covers_def)

lemma spooled_ok_mono: "spooled_ok codec L d n c S entry \<Longrightarrow> S \<subseteq> T \<Longrightarrow> spooled_ok codec L d n c T entry"
  unfolding spooled_ok_def using covers_mono by (metis Un_mono order_refl)

lemma agent_inv_frame:
  assumes "agent_inv codec L d n c st" "checkpoint codec st' = checkpoint codec st" "sent_ids st \<subseteq> sent_ids st'"
    and "\<And>entry. entry \<in> set (st_spool st') \<Longrightarrow> entry \<in> set (st_spool st) \<or> spooled_ok codec L d n c (sent_ids st') entry"
  shows "agent_inv codec L d n c st'"
  using assms covers_mono [OF _ assms(3)] spooled_ok_mono [OF _ assms(3)] unfolding agent_inv_def by metis

lemma head_ids_append: "head_ids L (b @ b') = head_ids L b \<or> head_ids L b = []"
proof (cases "next_line b")
  case (Some x)
  then obtain line rest where b: "next_line b = Some (line, rest)" by (cases x) simp
  then have "next_line (b @ b') = Some (line, rest @ b')" by (simp add: next_line_Some)
  then show ?thesis using b by (simp add: head_ids_def)
qed (simp add: head_ids_def)

lemma covers_grows: "prefix c c' \<Longrightarrow> covers L d n c p S \<Longrightarrow> covers L d n c' p S"
proof -
  assume "prefix c c'" and cov: "covers L d n c p S"
  then obtain b' where c': "c' = c @ b'" by (auto simp: prefix_def)
  have at: "at_line L c p" using cov by (simp add: covers_def position_ok_def)
  then have "take (nat (ap_Offset p)) c' = take (nat (ap_Offset p)) c" "drop (nat (ap_Offset p)) c' = drop (nat (ap_Offset p)) c @ b'"
    by (simp_all add: c' at_line_def nat_le_iff)
  then show ?thesis
    using cov head_ids_append [of L "drop (nat (ap_Offset p)) c" b']
    by (auto simp: covers_def position_ok_def at_line_def ids_before_def c')
qed

lemma agent_inv_grows: "prefix c c' \<Longrightarrow> agent_inv codec L d n c st \<Longrightarrow> agent_inv codec L d n c' st"
  unfolding agent_inv_def spooled_ok_def using covers_grows by metis

lemma SendEvents_inv:
  assumes "SendEvents b st os = (e, st', os')" "agent_inv codec L d n c st"
  shows "agent_inv codec L d n c st'" "sent_ids st \<subseteq> sent_ids st'" "e = None \<Longrightarrow> batch_ids b \<subseteq> sent_ids st' \<and> length (st_sent st') = Suc (length (st_sent st))"
proof -
  have s: "st' = st \<or> st' = st\<lparr>st_sent := st_sent st @ [b]\<rparr>"
    using assms(1) by (auto simp: SendEvents_def split: prod.splits call_outcome.splits)
  then show sub: "sent_ids st \<subseteq> sent_ids st'" by (auto simp: sent_ids_def)
  have "checkpoint codec st' = checkpoint codec st" "st_spool st' = st_spool st" using s by (auto simp: checkpoint_def)
  then show "agent_inv codec L d n c st'" by (intro agent_inv_frame [OF assms(2) _ sub]) simp_all
  assume "e = None"
  then have "st' = st\<lparr>st_sent := st_sent st @ [b]\<rparr>"
    using assms(1) by (auto simp: SendEvents_def split: prod.splits call_outcome.splits)
  then show "batch_ids b \<subseteq> sent_ids st' \<and> length (st_sent st') = Suc (length (st_sent st))" by (simp add: sent_ids_def)
qed

lemma Commit_inv:
  assumes "Commit codec p st os = (e, st', os')" "agent_codec_ok codec" "agent_inv codec L d n c st" "covers L d n c p (sent_ids st)"
  shows "agent_inv codec L d n c st' \<and> st_sent st' = st_sent st"
proof (cases "st' = st")
  case False
  then have st': "st' = st\<lparr>st_checkpoint := Some (ac_put_position codec p)\<rparr>"
    using assms(1) by (auto simp: Commit_def split: prod.splits call_outcome.splits)
  moreover have "checkpoint codec st' = p"
    using assms(2,4) by (simp add: st' checkpoint_def agent_codec_ok_def covers_def position_ok_def at_line_def)
  ultimately show ?thesis using assms(3,4) by (simp add: agent_inv_def sent_ids_def)
qed (use assms(3) in simp)

lemma Remove_inv:
  assumes "Remove name st os = (e, st', os')" "agent_inv codec L d n c st"
  shows "agent_inv codec L d n c st' \<and> st_sent st' = st_sent st"
proof -
  have "st' = st \<or> st' = st\<lparr>st_spool := AList.delete name (st_spool st)\<rparr>"
    using assms(1) by (auto simp: Remove_def split: if_splits prod.splits call_outcome.splits)
  then have "checkpoint codec st' = checkpoint codec st" "st_sent st' = st_sent st" "set (st_spool st') \<subseteq> set (st_spool st)"
    by (auto simp: AList.delete_eq checkpoint_def)
  then show ?thesis by (intro conjI agent_inv_frame [OF assms(2)]) (auto simp: sent_ids_def)
qed

lemma set_alist_update: "set (AList.update k v al) \<subseteq> insert (k, v) (set al)"
  by (induction al) auto

lemma Put_inv:
  assumes "Put env b p st os = (e, st', os')" "agent_codec_ok (fe_codec env)" "agent_inv (fe_codec env) L d n c st" "covers L d n c p (sent_ids st \<union> batch_ids b)"
  shows "agent_inv (fe_codec env) L d n c st' \<and> st_sent st' = st_sent st"
proof (cases "st' = st")
  case False
  let ?item = "\<lparr>sp_Batch = b, sp_NextPosition = p, sp_NextOffset = 0\<rparr>" and ?name = "eb_BatchID b @ ''.json''"
  let ?raw = "ac_put_item (fe_codec env) ?item"
  have st': "st' = st\<lparr>st_spool := AList.update ?name ?raw (st_spool st)\<rparr>"
    using assms(1) False by (auto simp: Put_def Let_def split: if_splits prod.splits call_outcome.splits)
  have "item = ?item" if "decode_item (fe_codec env) ?name ?raw = Inr item" for item
    using that assms(2) by (simp add: decode_item_def agent_codec_ok_def Let_def split: if_splits)
  then have new: "spooled_ok (fe_codec env) L d n c (sent_ids st) (?name, ?raw)" unfolding spooled_ok_def using assms(4) by fastforce
  have eq: "checkpoint (fe_codec env) st' = checkpoint (fe_codec env) st" "st_sent st' = st_sent st" by (simp_all add: st' checkpoint_def)
  have "set (st_spool st') \<subseteq> insert (?name, ?raw) (set (st_spool st))" using set_alist_update by (simp add: st')
  then show ?thesis using eq new by (intro conjI agent_inv_frame [OF assms(3)]) (auto simp: sent_ids_def)
qed (use assms(3) in simp)

lemma deliver_inv:
  assumes "deliver env name b p st os = (e, st', os')" "agent_codec_ok (fe_codec env)" "agent_inv (fe_codec env) L d n c st"
    and "covers L d n c p (sent_ids st \<union> batch_ids b)"
  shows "agent_inv (fe_codec env) L d n c st'" "sent_ids st \<subseteq> sent_ids st'" "e = None \<Longrightarrow> length (st_sent st') = Suc (length (st_sent st))"
proof -
  obtain e1 st1 os1 where s: "SendEvents b st os = (e1, st1, os1)" by (metis prod_cases3)
  obtain e2 st2 os2 where t: "Commit (fe_codec env) p st1 os1 = (e2, st2, os2)" by (metis prod_cases3)
  note send = SendEvents_inv [OF s assms(3)]
  have com: "agent_inv (fe_codec env) L d n c st2 \<and> st_sent st2 = st_sent st1" if "e1 = None"
    by (rule Commit_inv [OF t assms(2) send(1) covers_mono [OF assms(4)]]) (use send(2) send(3) [OF that] in blast)
  have r: "agent_inv (fe_codec env) L d n c st' \<and> st_sent st' = st_sent st1 \<and> (e = None \<longrightarrow> e1 = None)"
    using assms(1) s t send(1) com Remove_inv [of name st2 os2 e st' os' "fe_codec env" L d n c]
    by (cases e1; cases e2) (auto simp: deliver_def and_then_def)
  then show "agent_inv (fe_codec env) L d n c st'" "sent_ids st \<subseteq> sent_ids st'" using send(2) by (simp_all add: sent_ids_def)
  show "e = None \<Longrightarrow> length (st_sent st') = Suc (length (st_sent st))" using r send(3) by simp
qed

definition item_ok :: "log_env \<Rightarrow> nat \<Rightarrow> nat \<Rightarrow> string \<Rightarrow> string set \<Rightarrow> string \<times> SpoolItem \<Rightarrow> bool" where
  "item_ok L d n c S x \<longleftrightarrow> covers L d n c (sp_NextPosition (snd x)) (S \<union> batch_ids (sp_Batch (snd x)))"

lemma item_ok_mono: "item_ok L d n c S x \<Longrightarrow> S \<subseteq> T \<Longrightarrow> item_ok L d n c T x"
  unfolding item_ok_def by (rule covers_mono) auto

lemma Pending_items:
  assumes "Pending codec files = Inr items" "\<forall>entry \<in> set files. spooled_ok codec L d n c S entry"
  shows "\<forall>x \<in> set items. item_ok L d n c S x"
proof -
  have "fold_result (pending_step codec) acc fs = Inr items \<Longrightarrow> \<forall>x \<in> set acc. item_ok L d n c S x \<Longrightarrow>
      \<forall>entry \<in> set fs. spooled_ok codec L d n c S entry \<Longrightarrow> \<forall>x \<in> set items. item_ok L d n c S x" for acc fs
  proof (induction fs arbitrary: acc)
    case (Cons f fs)
    obtain acc' where acc': "pending_step codec acc f = Inr acc'" using Cons.prems(1) by (cases "pending_step codec acc f") auto
    then have "\<forall>x \<in> set acc'. item_ok L d n c S x"
      using Cons.prems(2,3) by (auto simp: pending_step_def item_ok_def spooled_ok_def split: if_splits prod.splits sum.splits)
    then show ?case using Cons acc' by auto
  qed simp
  then show ?thesis using assms unfolding Pending_def by fastforce
qed

lemma flush_pending_inv:
  assumes "agent_codec_ok (fe_codec env)" "agent_inv (fe_codec env) L d n c st" "\<forall>x \<in> set items. item_ok L d n c (sent_ids st) x"
  shows "case flush_pending env items k st os of
      Inl (e, st', os') \<Rightarrow> agent_inv (fe_codec env) L d n c st' \<and>
        (e = None \<longrightarrow> fe_EventBatchesPerFlush env + length (st_sent st) \<le> k + length (st_sent st'))
    | Inr (k', st', os') \<Rightarrow> agent_inv (fe_codec env) L d n c st' \<and> k' + length (st_sent st) = k + length (st_sent st')"
  using assms
proof (induction items arbitrary: k st os)
  case (Cons x items)
  obtain name item where x: "x = (name, item)" by fastforce
  show ?case
  proof (cases "k \<ge> fe_EventBatchesPerFlush env")
    case False
    obtain e st1 os1 where d: "deliver env name (sp_Batch item) (sp_NextPosition item) st os = (e, st1, os1)" by (metis prod_cases3)
    note inv = deliver_inv [OF d Cons.prems(1,2)]
    have ok: "agent_inv (fe_codec env) L d n c st1" "sent_ids st \<subseteq> sent_ids st1" "e = None \<Longrightarrow> length (st_sent st1) = Suc (length (st_sent st))"
      using inv Cons.prems(3) x by (auto simp: item_ok_def)
    then have "\<forall>x \<in> set items. item_ok L d n c (sent_ids st1) x" using Cons.prems(3) item_ok_mono by fastforce
    then show ?thesis using Cons.IH [OF Cons.prems(1) ok(1)] ok(1,3) False x d by (cases e) (fastforce split: sum.splits)+
  qed (use Cons.prems(2) x in simp)
qed simp

text \<open>The log as successive reads see it: one file that only grows, or no file.\<close>

definition log_history :: "'r flush_env \<Rightarrow> nat \<Rightarrow> nat \<Rightarrow> (nat \<Rightarrow> string) \<Rightarrow> bool" where
  "log_history env d n C \<longleftrightarrow> (\<forall>k. prefix (C k) (C (Suc k))) \<and>
     (\<forall>k. fe_file env k = None \<or> fe_file env k = Some \<lparr>af_device = d, af_inode = n, af_content = C k\<rparr>)"

lemma start_position_ok:
  assumes "position_ok L d n c p"
  shows "start_position \<lparr>af_device = d, af_inode = n, af_content = c\<rparr> p = p\<lparr>ap_Device := d, ap_Inode := n\<rparr>"
  using assms by (auto simp: start_position_def position_ok_def at_line_def Let_def)

lemma ReadBatch_reads:
  assumes "position_ok L d n c p" "0 < limit"
  shows "reads L c limit (p\<lparr>ap_Device := d, ap_Inode := n\<rparr>) [] (ReadBatch L now limit (Some \<lparr>af_device = d, af_inode = n, af_content = c\<rparr>) p)"
    and "ids_before L c (p\<lparr>ap_Device := d, ap_Inode := n\<rparr>) = ids_before L c p"
proof -
  let ?p = "p\<lparr>ap_Device := d, ap_Inode := n\<rparr>"
  have at: "at_line L c ?p" using assms(1) by (simp add: position_ok_def at_line_def)
  show "reads L c limit ?p [] (ReadBatch L now limit (Some \<lparr>af_device = d, af_inode = n, af_content = c\<rparr>) p)"
    using read_loop_reads [OF splits_at_exists [OF at] at, of "[]" limit now] assms(2) by (simp add: ReadBatch_def start_position_ok [OF assms(1)])
  show "ids_before L c ?p = ids_before L c p" by (simp add: ids_before_def)
qed

lemma ReadBatch_covers:
  assumes "ReadBatch L now limit (Some \<lparr>af_device = d, af_inode = n, af_content = c\<rparr>) p = (events, p')" "covers L d n c p S" "0 < limit"
  shows "covers L d n c p' (S \<union> set (map se_EventID events))" "events = [] \<longrightarrow> set (log_ids L c) \<subseteq> S"
proof -
  have pos: "position_ok L d n c p" and S: "set (ids_before L c p) \<subseteq> S" using assms(2) by (simp_all add: covers_def)
  show "covers L d n c p' (S \<union> set (map se_EventID events))" "events = [] \<longrightarrow> set (log_ids L c) \<subseteq> S"
    using ReadBatch_reads(1) [OF pos assms(3), of now] ReadBatch_reads(2) [OF pos assms(3)] S unfolding reads_def assms(1) by (auto simp: covers_def position_ok_def)
qed

text \<open>
  a batch is the next part of the log. From a position on a line of the log \<^verbatim>\<open>ReadBatch\<close> returns the
  events between that position and the one it reports, in the order of the log and none twice, at most as many as
  asked for, and none only when the log has no more complete line with events.
\<close>

theorem ReadBatch_next_events:
  assumes "ReadBatch L now limit (Some \<lparr>af_device = d, af_inode = n, af_content = c\<rparr>) p = (events, p')" "position_ok L d n c p" "0 < limit"
  shows "ids_before L c p' = ids_before L c p @ map se_EventID events \<and> len events \<le> limit \<and> position_ok L d n c p' \<and>
    (events = [] \<longrightarrow> ids_before L c p' = log_ids L c)"
  using ReadBatch_reads(1) [OF assms(2,3), of now] ReadBatch_reads(2) [OF assms(2,3)] unfolding assms(1) by (auto simp: reads_def position_ok_def)

lemma stamped_ids: "batch_ids \<lparr>eb_BatchID = i, eb_Events = map (stamp_revision v) events\<rparr> = set (map se_EventID events)"
  by (auto simp: batch_ids_def stamp_revision_def image_image intro!: image_cong)

lemma flush_batch_inv:
  assumes "flush_batch env k events p st os = (e, st', os')" "agent_codec_ok (fe_codec env)" "agent_inv (fe_codec env) L d n c st"
    and "covers L d n c p (sent_ids st \<union> set (map se_EventID events))"
  shows "agent_inv (fe_codec env) L d n c st'" "e = None \<Longrightarrow> length (st_sent st') = Suc (length (st_sent st))"
proof -
  let ?b = "\<lparr>eb_BatchID = fe_randomID env (st_ids st), eb_Events = map (stamp_revision (fe_revision env k)) events\<rparr>"
  let ?st = "st\<lparr>st_ids := Suc (st_ids st)\<rparr>"
  obtain e1 st1 os1 where t: "Put env ?b p ?st os = (e1, st1, os1)" by (metis prod_cases3)
  have sent: "sent_ids ?st = sent_ids st" by (simp add: sent_ids_def)
  have "agent_inv (fe_codec env) L d n c ?st" using assms(3) by (simp add: agent_inv_def checkpoint_def sent)
  then have t1: "agent_inv (fe_codec env) L d n c st1" "st_sent st1 = st_sent st"
    using Put_inv [OF t assms(2)] assms(4) by (simp_all add: stamped_ids sent)
  then have cov: "covers L d n c p (sent_ids st1 \<union> batch_ids ?b)" using assms(4) by (simp add: stamped_ids sent_ids_def)
  have e: "(e, st', os') = (case e1 of Some x \<Rightarrow> (Some x, st1, os1) | None \<Rightarrow> deliver env (eb_BatchID ?b @ ''.json'') ?b p st1 os1)"
    using assms(1) t by (cases e1) (auto simp: flush_batch_def Let_def and_then_def)
  show "agent_inv (fe_codec env) L d n c st'"
    using e t1(1) deliver_inv(1) [OF sym assms(2) t1(1) cov] by (cases e1) auto
  show "e = None \<Longrightarrow> length (st_sent st') = Suc (length (st_sent st))"
    using e t1(2) deliver_inv(3) [OF sym assms(2) t1(1) cov] by (cases e1) auto
qed

lemma flush_log_inv:
  assumes "flush_log env k st os = (e, st', os')" "agent_codec_ok (fe_codec env)" "log_history env d n C" "0 < fe_EventBatchSize env"
    and "agent_inv (fe_codec env) (fe_log env) d n (C k) st"
  shows "\<exists>j. k \<le> j \<and> j \<le> max k (fe_EventBatchesPerFlush env) \<and> agent_inv (fe_codec env) (fe_log env) d n (C j) st' \<and>
    (e = None \<longrightarrow> fe_EventBatchesPerFlush env + length (st_sent st) \<le> k + length (st_sent st') \<or> fe_file env j = None \<or>
       set (log_ids (fe_log env) (C j)) \<subseteq> sent_ids st')"
  using assms
proof (induction env k st os rule: flush_log.induct)
  case (1 env k st os)
  let ?L = "fe_log env" and ?p = "checkpoint (fe_codec env) st"
  have cov: "covers ?L d n (C k) ?p (sent_ids st)" using "1.prems"(5) by (simp add: agent_inv_def)
  obtain out os1 where out: "take_outcome os = (out, os1)" by fastforce
  obtain events p where r: "ReadBatch ?L (fe_now env k) (fe_EventBatchSize env) (fe_file env k) ?p = (events, p)" by fastforce
  have "fe_file env k = None \<or> fe_file env k = Some \<lparr>af_device = d, af_inode = n, af_content = C k\<rparr>"
    using "1.prems"(3) by (simp add: log_history_def)
  then consider (budget) "k \<ge> fe_EventBatchesPerFlush env" | (failed) "k < fe_EventBatchesPerFlush env" "out \<noteq> Done"
    | (absent) "k < fe_EventBatchesPerFlush env" "out = Done" "fe_file env k = None"
    | (read) "k < fe_EventBatchesPerFlush env" "out = Done" "fe_file env k = Some \<lparr>af_device = d, af_inode = n, af_content = C k\<rparr>"
    by (metis not_le)
  then show ?case
  proof cases
    case budget
    then show ?thesis using "1.prems" by (intro exI [of _ k]) (simp add: flush_log.simps [of env k])
  next
    case failed
    then show ?thesis using "1.prems" out by (intro exI [of _ k]) (auto simp: flush_log.simps [of env k] split: call_outcome.splits)
  next
    case absent
    then have "e = None" "st' = st"
      using "1.prems"(1) out by (auto simp: flush_log.simps [of env k] ReadBatch_def Empty_def no_position_def)
    then show ?thesis using absent "1.prems"(5) by (intro exI [of _ k]) simp
  next
    case read
    note got = ReadBatch_covers [OF r [unfolded read(3)] cov "1.prems"(4)]
    show ?thesis
    proof (cases "events = []")
      case True
      then have "agent_inv (fe_codec env) ?L d n (C k) st' \<and> sent_ids st' = sent_ids st"
        using "1.prems"(1,2,5) out r read(1,2) got(1) Commit_inv [of "fe_codec env" p st os1 e st' os' ?L d n "C k"]
        by (auto simp: flush_log.simps [of env k] sent_ids_def split: if_splits)
      then show ?thesis using True got(2) read(1) by (intro exI [of _ k]) simp
    next
      case False
      obtain e1 st1 os2 where b: "flush_batch env k events p st os1 = (e1, st1, os2)" by (metis prod_cases3)
      note inv = flush_batch_inv [OF b "1.prems"(2,5) got(1)]
      show ?thesis
      proof (cases e1)
        case None
        then have l: "flush_log env (Suc k) st1 os2 = (e, st', os')" using "1.prems"(1) out r b read(1,2) False by (simp add: flush_log.simps [of env k])
        have "agent_inv (fe_codec env) ?L d n (C (Suc k)) st1" by (rule agent_inv_grows [OF _ inv(1)]) (use "1.prems"(3) in \<open>simp add: log_history_def\<close>)
        from "1.IH" [OF _ out [symmetric] read(2) refl r [symmetric] False b [symmetric] None refl l "1.prems"(2-4) this] read(1)
        obtain j where "Suc k \<le> j" "j \<le> max (Suc k) (fe_EventBatchesPerFlush env)" "agent_inv (fe_codec env) ?L d n (C j) st'"
          "e = None \<longrightarrow> fe_EventBatchesPerFlush env + length (st_sent st1) \<le> Suc k + length (st_sent st') \<or> fe_file env j = None \<or>
             set (log_ids ?L (C j)) \<subseteq> sent_ids st'" by auto
        then show ?thesis using inv(2) [OF None] read(1) by (intro exI [of _ j]) auto
      next
        case (Some x)
        then show ?thesis using "1.prems"(1) inv(1) out r b read(1,2) False by (intro exI [of _ k]) (auto simp: flush_log.simps [of env k])
      qed
    qed
  qed
qed

lemma flushAudit_inv:
  assumes "flushAudit env st os = (e, st', os')" "agent_codec_ok (fe_codec env)" "log_history env d n C" "0 < fe_EventBatchSize env"
    and "agent_inv (fe_codec env) (fe_log env) d n (C 0) st"
  shows "\<exists>j. agent_inv (fe_codec env) (fe_log env) d n (C j) st' \<and>
    (e = None \<longrightarrow> fe_EventBatchesPerFlush env + length (st_sent st) \<le> length (st_sent st') \<or> fe_file env j = None \<or>
       set (log_ids (fe_log env) (C j)) \<subseteq> sent_ids st')"
proof (cases "Pending (fe_codec env) (st_spool st)")
  case (Inr items)
  have items: "\<forall>x \<in> set items. item_ok (fe_log env) d n (C 0) (sent_ids st) x"
    by (rule Pending_items [OF Inr]) (use assms(5) in \<open>simp add: agent_inv_def\<close>)
  note p = flush_pending_inv [OF assms(2,5) items, of 0 os]
  show ?thesis
  proof (cases "flush_pending env items 0 st os")
    case (Inl r)
    then show ?thesis using p assms(1) Inr by (intro exI [of _ 0]) (auto simp: flushAudit_def)
  next
    case (Inr r)
    obtain k st1 os1 where r: "r = (k, st1, os1)" by (metis prod_cases3)
    have k: "agent_inv (fe_codec env) (fe_log env) d n (C 0) st1" "k + length (st_sent st) = length (st_sent st1)" using p Inr r by simp_all
    have "prefix (C 0) (C k)" using assms(3) by (induction k) (auto simp: log_history_def intro: prefix_order.trans)
    then have "agent_inv (fe_codec env) (fe_log env) d n (C k) st1" using k(1) by (rule agent_inv_grows)
    moreover have "flush_log env k st1 os1 = (e, st', os')"
      using assms(1) \<open>Pending (fe_codec env) (st_spool st) = Inr items\<close> Inr r by (simp add: flushAudit_def)
    ultimately show ?thesis using flush_log_inv [of env k st1 os1 e st' os' d n C] assms(2-4) k(2) by fastforce
  qed
qed (use assms(1,5) in \<open>auto simp: flushAudit_def\<close>)

text \<open>
  The states of an agent that was installed without files and has flushed a growing log any number of times, with
  any outcomes.
\<close>

inductive agent_run :: "'r agent_codec \<Rightarrow> log_env \<Rightarrow> nat \<Rightarrow> nat \<Rightarrow> string \<Rightarrow> 'r agent_state \<Rightarrow> bool" for codec L d n where
  start: "st_checkpoint st = None \<Longrightarrow> st_spool st = [] \<Longrightarrow> agent_run codec L d n c st"
| grow: "agent_run codec L d n c st \<Longrightarrow> prefix c c' \<Longrightarrow> agent_run codec L d n c' st"
| flush: "agent_run codec L d n (C 0) st \<Longrightarrow> log_history env d n C \<Longrightarrow> fe_codec env = codec \<Longrightarrow> fe_log env = L \<Longrightarrow>
    0 < fe_EventBatchSize env \<Longrightarrow> flushAudit env st os = (e, st', os') \<Longrightarrow> \<forall>j. prefix (C j) c \<Longrightarrow> agent_run codec L d n c st'"

lemma agent_run_inv: "agent_run codec L d n c st \<Longrightarrow> agent_codec_ok codec \<Longrightarrow> agent_inv codec L d n c st"
proof (induction rule: agent_run.induct)
  case (start st c)
  then show ?case
    by (simp add: agent_inv_def checkpoint_def covers_def position_ok_def at_line_def closed_text_def no_position_def ids_before_def log_ids.simps [of L "[]"] next_line_def)
next
  case (flush C st env os e st' os' c)
  then obtain j where "agent_inv codec L d n (C j) st'" using flushAudit_inv [of env st os e st' os' d n C] by auto
  then show ?case using flush.hyps(7) agent_inv_grows by blast
qed (rule agent_inv_grows)

text \<open>C13:
  no event of a log that only grows is skipped. As long as the log is one file that is appended to, neither rotated nor truncated: whatever
  fails while batches are spooled, sent, committed and removed, and wherever the agent is interrupted, every event of the log before the
  stored position has been accepted by the Manager.
\<close>

theorem accepted_before_checkpoint:
  assumes "agent_codec_ok codec" "agent_run codec L d n c st"
  shows "set (ids_before L c (checkpoint codec st)) \<subseteq> sent_ids st"
  using agent_run_inv [OF assms(2,1)] by (simp add: agent_inv_def covers_def)

text \<open>C24:
  a flush makes progress. The log is one file that was neither rotated nor truncated before and does not change during the flush: a flush that
  reports success has then sent its full number of batches, or every event of the log has been accepted by the Manager, from an
  earlier interrupted flush or from this one.
\<close>

theorem flush_delivers:
  assumes "agent_codec_ok (fe_codec env)" "agent_run (fe_codec env) (fe_log env) d n c st" "0 < fe_EventBatchSize env"
    and "fe_file env = (\<lambda>_. Some \<lparr>af_device = d, af_inode = n, af_content = c\<rparr>)" "flushAudit env st os = (None, st', os')"
  shows "fe_EventBatchesPerFlush env + length (st_sent st) \<le> length (st_sent st') \<or> set (log_ids (fe_log env) c) \<subseteq> sent_ids st'"
  using flushAudit_inv [OF assms(5,1), of d n "\<lambda>_. c"] assms(3,4) agent_run_inv [OF assms(2,1)] by (simp add: log_history_def)

text \<open>A sample log of two lines, with one event and with two, and an unfinished third line.\<close>

definition demo_message :: audit_message where
  "demo_message = \<lparr>am_Message = ''m'', am_RuleID = ''1'', am_Severity = [], am_Match = [], am_Tags = []\<rparr>"

definition demo_log_env :: log_env where
  "demo_log_env = \<lparr>le_unmarshal = (\<lambda>line. Some \<lparr>ae_UniqueID = [], ae_ClientIP = [], ae_Time = [], ae_Method = [], ae_URI = [],
     ae_RequestClientIP = [], ae_HTTPCode = 403, ae_Messages = replicate (length line) demo_message\<rparr>), le_parse_time = (\<lambda>_. None), le_sha256_hex = id\<rparr>"

definition demo_codec :: "(SpoolItem + AuditPosition) agent_codec" where
  "demo_codec = \<lparr>ac_put_item = Inl, ac_get_item = (\<lambda>r. case r of Inl i \<Rightarrow> Some i | Inr _ \<Rightarrow> None), ac_size = (\<lambda>_. 1),
     ac_put_position = Inr, ac_get_position = (\<lambda>r. case r of Inl _ \<Rightarrow> None | Inr p \<Rightarrow> Some p), ac_legacy_offset = (\<lambda>_. None)\<rparr>"

definition demo_log :: string where
  "demo_log = ''a'' @ [newline] @ ''bc'' @ [newline] @ ''d''"

definition demo_flush :: "(SpoolItem + AuditPosition) flush_env" where
  "demo_flush = \<lparr>fe_codec = demo_codec, fe_log = demo_log_env, fe_file = (\<lambda>_. Some \<lparr>af_device = 1, af_inode = 2, af_content = demo_log\<rparr>),
     fe_now = (\<lambda>_. 1000 * second), fe_revision = (\<lambda>_. ''r1''), fe_randomID = (\<lambda>k. replicate (Suc k) CHR ''i''), fe_EventBatchSize = 2,
     fe_EventBatchesPerFlush = 5, fe_SpoolMaxBytes = 0\<rparr>"

definition demo_fresh :: "(SpoolItem + AuditPosition) agent_state" where
  "demo_fresh = \<lparr>st_checkpoint = None, st_spool = [], st_sent = [], st_ids = 0\<rparr>"

text \<open>After a flush whose second batch was sent while the answer was lost.\<close>

definition demo_interrupted :: "(SpoolItem + AuditPosition) agent_state" where
  "demo_interrupted = fst (snd (flushAudit demo_flush demo_fresh [Done, Done, Done, Done, Done, Done, Done, Lost]))"

lemma sample_codec_sound: "agent_codec_ok demo_codec"
  by (simp add: agent_codec_ok_def demo_codec_def)

lemma demo_flush_simps:
  "fe_codec demo_flush = demo_codec" "fe_log demo_flush = demo_log_env" "0 < fe_EventBatchSize demo_flush"
  "fe_file demo_flush = (\<lambda>_. Some \<lparr>af_device = 1, af_inode = 2, af_content = demo_log\<rparr>)"
  by (simp_all add: demo_flush_def)

lemma demo_run: "agent_run demo_codec demo_log_env 1 2 demo_log demo_interrupted"
proof -
  have "agent_run demo_codec demo_log_env 1 2 demo_log demo_fresh" by (rule agent_run.start) (simp_all add: demo_fresh_def)
  moreover have "log_history demo_flush 1 2 (\<lambda>_. demo_log)" by (simp add: log_history_def demo_flush_simps)
  moreover obtain e os' where "flushAudit demo_flush demo_fresh [Done, Done, Done, Done, Done, Done, Done, Lost] = (e, demo_interrupted, os')"
    unfolding demo_interrupted_def by (metis prod.collapse)
  ultimately show ?thesis
    by (intro agent_run.flush [where C = "\<lambda>_. demo_log" and env = demo_flush and st' = demo_interrupted]) (simp_all only: demo_flush_simps prefix_order.refl simp_thms)
qed

lemma accepted_before_checkpoint_witness:
  "set (ids_before demo_log_env demo_log (checkpoint demo_codec demo_interrupted)) \<subseteq> sent_ids demo_interrupted \<and>
   ids_before demo_log_env demo_log (checkpoint demo_codec demo_interrupted) = [''a-0'']"
proof
  show "set (ids_before demo_log_env demo_log (checkpoint demo_codec demo_interrupted)) \<subseteq> sent_ids demo_interrupted"
    by (rule accepted_before_checkpoint [OF sample_codec_sound demo_run])
  show "ids_before demo_log_env demo_log (checkpoint demo_codec demo_interrupted) = [''a-0'']" by code_simp
qed

lemma flush_delivers_witness:
  "set (log_ids demo_log_env demo_log) \<subseteq> sent_ids (fst (snd (flushAudit demo_flush demo_interrupted [])))"
proof -
  let ?r = "flushAudit demo_flush demo_interrupted []"
  have n: "fst ?r = None" "\<not> 5 + length (st_sent demo_interrupted) \<le> length (st_sent (fst (snd ?r)))" by code_simp+
  then have "?r = (None, fst (snd ?r), snd (snd ?r))" by (metis prod.collapse)
  from flush_delivers [OF _ _ demo_flush_simps(3,4) this] sample_codec_sound demo_run n(2) show ?thesis
    by (simp add: demo_flush_simps) (simp add: demo_flush_def)
qed

lemma ReadBatch_next_events_witness:
  "\<exists>p'. ids_before demo_log_env demo_log p' = ids_before demo_log_env demo_log no_position @ [''a-0''] \<and> len [''a-0''] \<le> (2 :: int)"
proof -
  let ?r = "ReadBatch demo_log_env 0 2 (Some \<lparr>af_device = 1, af_inode = 2, af_content = demo_log\<rparr>) no_position"
  have ids: "map se_EventID (fst ?r) = [''a-0'']" by code_simp
  have "position_ok demo_log_env 1 2 demo_log no_position" by code_simp
  from ReadBatch_next_events [OF _ this, of 0 2 "fst ?r" "snd ?r"] have "ids_before demo_log_env demo_log (snd ?r) =
      ids_before demo_log_env demo_log no_position @ map se_EventID (fst ?r) \<and> len (fst ?r) \<le> 2" by simp
  moreover have "length (fst ?r) = length (map se_EventID (fst ?r))" by simp
  ultimately show ?thesis unfolding ids by (intro exI [of _ "snd ?r"]) simp
qed

end
