(* ===== verification/Package_Model.thy ===== *)
theory Package_Model
  imports Prelude
begin

text \<open>
  The records that Manager and Agent exchange about packages (\<^verbatim>\<open>src/internal/model/model.go\<close>) and the column
  \<^verbatim>\<open>detail\<close> of a package deployment, which holds the plan of the deployment and later the Agent's report
  (\<^verbatim>\<open>src/internal/manager/store_operations.go\<close>). The JSON encoding of a plan is an argument.
\<close>

section \<open>Vocabulary\<close>

definition IntegrationModeDistro :: string where "IntegrationModeDistro = ''distro''"
definition IntegrationModeExternal :: string where "IntegrationModeExternal = ''external''"
definition InstallationModePackage :: string where "InstallationModePackage = ''package''"
definition InstallationModeCustomZIP :: string where "InstallationModeCustomZIP = ''custom_zip''"
definition WebServerControlStandard :: string where "WebServerControlStandard = ''standard''"
definition WebServerControlHooks :: string where "WebServerControlHooks = ''hooks''"
definition PackageFormatDEB :: string where "PackageFormatDEB = ''deb''"
definition PackageFormatZIP :: string where "PackageFormatZIP = ''zip''"
definition PackageScopeAgent :: string where "PackageScopeAgent = ''agent''"
definition PackageScopeAgentModule :: string where "PackageScopeAgentModule = ''agent_module''"

lemmas package_words = IntegrationModeDistro_def IntegrationModeExternal_def InstallationModePackage_def InstallationModeCustomZIP_def
  WebServerControlStandard_def WebServerControlHooks_def PackageFormatDEB_def PackageFormatZIP_def PackageScopeAgent_def
  PackageScopeAgentModule_def

definition NormalizeIntegrationMode :: "string \<Rightarrow> string" where
  "NormalizeIntegrationMode mode = (if mode = [] then IntegrationModeDistro else mode)"

definition NormalizePackageFormat :: "string \<Rightarrow> string" where
  "NormalizePackageFormat format = (if format = [] then PackageFormatDEB else format)"

definition NormalizeWebServerControl :: "string \<Rightarrow> string" where
  "NormalizeWebServerControl mode = (if mode = [] then WebServerControlStandard else mode)"

definition NormalizePackageScope :: "string \<Rightarrow> string" where
  "NormalizePackageScope scope = (if scope = [] then PackageScopeAgentModule else scope)"

lemmas normalize_defs = NormalizeIntegrationMode_def NormalizePackageFormat_def NormalizeWebServerControl_def NormalizePackageScope_def

section \<open>Records\<close>

record PackageArtifact =
  pa_ID :: string
  pa_Kind :: string
  pa_Name :: string
  pa_Version :: string
  pa_OSID :: string
  pa_OSVersion :: string
  pa_Architecture :: string
  pa_WebServer :: string
  pa_WebServerVersion :: string
  pa_WebServerBuild :: string
  pa_CRSVersion :: string
  pa_IntegrationMode :: string
  pa_RuntimeABI :: string
  pa_PolicyDelivery :: string
  pa_Path :: string
  pa_Size :: int
  pa_SHA256 :: string
  pa_RollbackID :: string
  pa_PackageFormat :: string
  pa_InstallRoot :: string

record PackageDownload =
  pd_ID :: string
  pd_Name :: string
  pd_Version :: string
  pd_URL :: string
  pd_Size :: int
  pd_SHA256 :: string
  pd_RollbackID :: string
  pd_Format :: string
  pd_InstallRoot :: string
  pd_WebServer :: string
  pd_WebServerBuild :: string
  pd_IntegrationMode :: string
  pd_RuntimeABI :: string

definition no_download :: PackageDownload where
  "no_download = \<lparr>pd_ID = [], pd_Name = [], pd_Version = [], pd_URL = [], pd_Size = 0, pd_SHA256 = [], pd_RollbackID = [], pd_Format = [],
     pd_InstallRoot = [], pd_WebServer = [], pd_WebServerBuild = [], pd_IntegrationMode = [], pd_RuntimeABI = []\<rparr>"

record PackageDeployment =
  pk_ID :: string
  pk_Scope :: string
  pk_WebServerControl :: string
  pk_Agent :: PackageDownload
  pk_Module :: PackageDownload
  pk_RollbackAgent :: PackageDownload

record WebServerCandidate =
  wc_Kind :: string
  wc_BuildHash :: string
  wc_Binary :: string
  wc_PackageManaged :: bool

record Inventory =
  iv_OSID :: string
  iv_OSVersion :: string
  iv_Architecture :: string
  iv_WebServer :: string
  iv_WebServerVersion :: string
  iv_WebServerBuild :: string
  iv_IntegrationMode :: string
  iv_InstallationMode :: string
  iv_AgentVersion :: string
  iv_ModuleVersion :: string
  iv_ConfigTestOK :: bool
  iv_IntegrationReady :: bool
  iv_WebServerControl :: string
  iv_WebServerCandidates :: "WebServerCandidate list"

section \<open>The plan of a deployment\<close>

record packageDeploymentPlan =
  pl_WebServerControl :: string
  pl_Scope :: string
  pl_Detail :: string

record plan_env =
  ple_marshal :: "packageDeploymentPlan \<Rightarrow> string option"
  ple_unmarshal :: "string \<Rightarrow> packageDeploymentPlan option"

definition packageDeploymentPlanPrefix :: string where "packageDeploymentPlanPrefix = ''mwaf-plan-v1:''"

datatype plan_error = UnsupportedScope | UnsupportedControl | PlanEncoding

definition encode_plan :: "plan_env \<Rightarrow> packageDeploymentPlan \<Rightarrow> plan_error + string" where
  "encode_plan env p =
     (case ple_marshal env p of None \<Rightarrow> Inl PlanEncoding | Some raw \<Rightarrow> Inr (packageDeploymentPlanPrefix @ raw))"

definition encodePackageDeploymentPlanWithScope :: "plan_env \<Rightarrow> string \<Rightarrow> string \<Rightarrow> plan_error + string" where
  "encodePackageDeploymentPlanWithScope env mode0 scope0 =
     (let mode = NormalizeWebServerControl mode0; scope = NormalizePackageScope scope0
      in if scope \<noteq> PackageScopeAgent \<and> scope \<noteq> PackageScopeAgentModule then Inl UnsupportedScope
         else if mode = WebServerControlStandard \<and> scope = PackageScopeAgentModule then Inr []
         else if mode \<noteq> WebServerControlHooks \<and> mode \<noteq> WebServerControlStandard then Inl UnsupportedControl
         else encode_plan env \<lparr>pl_WebServerControl = mode, pl_Scope = scope, pl_Detail = []\<rparr>)"

definition encodePackageDeploymentPlan :: "plan_env \<Rightarrow> string \<Rightarrow> plan_error + string" where
  "encodePackageDeploymentPlan env mode = encodePackageDeploymentPlanWithScope env mode PackageScopeAgentModule"

definition default_plan :: packageDeploymentPlan where
  "default_plan = \<lparr>pl_WebServerControl = WebServerControlStandard, pl_Scope = PackageScopeAgentModule, pl_Detail = []\<rparr>"

definition decodePackageDeploymentPlan :: "plan_env \<Rightarrow> string \<Rightarrow> packageDeploymentPlan" where
  "decodePackageDeploymentPlan env detail =
     (if \<not> has_prefix detail packageDeploymentPlanPrefix then default_plan
      else case ple_unmarshal env (trim_prefix detail packageDeploymentPlanPrefix) of
             None \<Rightarrow> default_plan
           | Some p \<Rightarrow> p\<lparr>pl_WebServerControl := NormalizeWebServerControl (pl_WebServerControl p),
                         pl_Scope := NormalizePackageScope (pl_Scope p)\<rparr>)"

definition encodePackageDeploymentResult :: "plan_env \<Rightarrow> packageDeploymentPlan \<Rightarrow> string \<Rightarrow> plan_error + string" where
  "encodePackageDeploymentResult env p detail =
     (let scope = NormalizePackageScope (pl_Scope p); mode = NormalizeWebServerControl (pl_WebServerControl p)
      in if mode \<noteq> WebServerControlHooks \<and> scope \<noteq> PackageScopeAgent then Inr detail
         else encode_plan env \<lparr>pl_WebServerControl = mode, pl_Scope = scope, pl_Detail = detail\<rparr>)"

definition packageDeploymentDisplayDetail :: "plan_env \<Rightarrow> string \<Rightarrow> string" where
  "packageDeploymentDisplayDetail env detail =
     (if \<not> has_prefix detail packageDeploymentPlanPrefix then detail else pl_Detail (decodePackageDeploymentPlan env detail))"

definition isAppliedAgentOnlyDeployment :: "plan_env \<Rightarrow> string \<Rightarrow> string \<Rightarrow> bool" where
  "isAppliedAgentOnlyDeployment env status detail \<longleftrightarrow>
     status = ''APPLIED'' \<and> NormalizePackageScope (pl_Scope (decodePackageDeploymentPlan env detail)) = PackageScopeAgent"

text \<open>A plan that JSON wrote is read back; the field \<open>scope\<close> is left out when it is empty, which reads the same.\<close>

definition plan_env_ok :: "plan_env \<Rightarrow> bool" where
  "plan_env_ok env \<longleftrightarrow> (\<forall>p raw. ple_marshal env p = Some raw \<longrightarrow> ple_unmarshal env raw = Some p)"

lemma plan_env_okD: "plan_env_ok env \<Longrightarrow> ple_marshal env p = Some raw \<Longrightarrow> ple_unmarshal env raw = Some p"
  by (simp add: plan_env_ok_def)

lemma decode_encoded:
  assumes "plan_env_ok env" "encode_plan env p = Inr detail" "pl_WebServerControl p \<noteq> []" "pl_Scope p \<noteq> []"
  shows "decodePackageDeploymentPlan env detail = p" "has_prefix detail packageDeploymentPlanPrefix"
  using assms plan_env_okD[OF assms(1)]
  by (auto simp: encode_plan_def decodePackageDeploymentPlan_def trim_prefix_def normalize_defs split: option.splits)

lemma normalize_not_Nil [simp]: "NormalizeWebServerControl m \<noteq> []" "NormalizePackageScope s \<noteq> []"
  by (auto simp: normalize_defs package_words)

lemma normalize_idem [simp]:
  "NormalizeWebServerControl (NormalizeWebServerControl m) = NormalizeWebServerControl m"
  "NormalizePackageScope (NormalizePackageScope s) = NormalizePackageScope s"
  by (auto simp: normalize_defs package_words)

text \<open>The plan survives the report of a result, and a reader of the column gets the report.\<close>

lemma decode_plan:
  assumes "plan_env_ok env" "encodePackageDeploymentPlanWithScope env mode scope = Inr column"
  shows "decodePackageDeploymentPlan env column =
    \<lparr>pl_WebServerControl = NormalizeWebServerControl mode, pl_Scope = NormalizePackageScope scope, pl_Detail = []\<rparr>"
proof (cases "column = []")
  case True
  then have "NormalizeWebServerControl mode = WebServerControlStandard" "NormalizePackageScope scope = PackageScopeAgentModule"
    using assms(2) by (auto simp: encodePackageDeploymentPlanWithScope_def encode_plan_def packageDeploymentPlanPrefix_def Let_def
        split: if_splits option.splits)
  then show ?thesis using True
    by (simp add: decodePackageDeploymentPlan_def packageDeploymentPlanPrefix_def has_prefix_def default_plan_def)
next
  case False
  then show ?thesis
    using assms decode_encoded(1)[OF assms(1)]
    by (auto simp: encodePackageDeploymentPlanWithScope_def Let_def split: if_splits)
qed

text \<open>The column after the Agent's report, as \<^verbatim>\<open>UpdatePackageDeploymentResult\<close> writes it.\<close>

definition stored_result :: "plan_env \<Rightarrow> string \<Rightarrow> string \<Rightarrow> plan_error + string" where
  "stored_result env column detail = encodePackageDeploymentResult env (decodePackageDeploymentPlan env column) detail"

lemma stored_result_plan:
  assumes ok: "plan_env_ok env" and r: "stored_result env column detail = Inr column'"
    and d: "\<not> has_prefix detail packageDeploymentPlanPrefix"
    and p: "decodePackageDeploymentPlan env column = p" "pl_WebServerControl p \<in> {WebServerControlStandard, WebServerControlHooks}"
      "pl_Scope p \<in> {PackageScopeAgent, PackageScopeAgentModule}"
  shows "pl_WebServerControl (decodePackageDeploymentPlan env column') = pl_WebServerControl p \<and>
    pl_Scope (decodePackageDeploymentPlan env column') = pl_Scope p \<and> packageDeploymentDisplayDetail env column' = detail"
proof -
  have n: "NormalizeWebServerControl (pl_WebServerControl p) = pl_WebServerControl p" "NormalizePackageScope (pl_Scope p) = pl_Scope p"
    using p(2,3) by (auto simp: normalize_defs package_words)
  show ?thesis
  proof (cases "pl_WebServerControl p \<noteq> WebServerControlHooks \<and> pl_Scope p \<noteq> PackageScopeAgent")
    case True
    then have "column' = detail"
      using r n unfolding stored_result_def encodePackageDeploymentResult_def Let_def p(1) by simp
    then show ?thesis using d True p(2,3)
      by (auto simp: decodePackageDeploymentPlan_def packageDeploymentDisplayDetail_def default_plan_def)
  next
    case False
    then have e: "encode_plan env (p\<lparr>pl_Detail := detail\<rparr>) = Inr column'"
      using r n unfolding stored_result_def encodePackageDeploymentResult_def Let_def p(1)
      by (cases p) auto
    have "pl_WebServerControl (p\<lparr>pl_Detail := detail\<rparr>) \<noteq> []" "pl_Scope (p\<lparr>pl_Detail := detail\<rparr>) \<noteq> []"
      using p(2,3) by (auto simp: package_words)
    note k = decode_encoded[OF ok e this]
    show ?thesis using k by (simp add: packageDeploymentDisplayDetail_def)
  qed
qed

text \<open>
  The plan of a package deployment survives every report: whatever results the Agent reports, the control mode and the
  scope read from the column are those of the assignment, and the console shows the last report. Reports that begin with
  the marker of a plan are excepted.
\<close>

theorem plan_roundtrip:
  assumes "plan_env_ok env" and "encodePackageDeploymentPlanWithScope env mode scope = Inr column"
    and "fold_result (stored_result env) column reports = Inr column'"
    and "\<forall>d \<in> set reports. \<not> has_prefix d packageDeploymentPlanPrefix"
  shows "pl_WebServerControl (decodePackageDeploymentPlan env column') = NormalizeWebServerControl mode \<and>
    pl_Scope (decodePackageDeploymentPlan env column') = NormalizePackageScope scope \<and>
    (reports = [] \<or> packageDeploymentDisplayDetail env column' = last reports)"
proof -
  have m: "NormalizeWebServerControl mode \<in> {WebServerControlStandard, WebServerControlHooks}"
    "NormalizePackageScope scope \<in> {PackageScopeAgent, PackageScopeAgentModule}"
    using assms(2) by (auto simp: encodePackageDeploymentPlanWithScope_def Let_def split: if_splits)
  have "pl_WebServerControl (decodePackageDeploymentPlan env column) = NormalizeWebServerControl mode"
    "pl_Scope (decodePackageDeploymentPlan env column) = NormalizePackageScope scope"
    using decode_plan[OF assms(1,2)] by simp_all
  then show ?thesis
    using assms(3,4)
  proof (induction reports arbitrary: column)
    case (Cons d reports)
    obtain column1 where s: "stored_result env column d = Inr column1"
      and f: "fold_result (stored_result env) column1 reports = Inr column'"
      using Cons.prems(3) by (auto split: sum.splits)
    have k: "pl_WebServerControl (decodePackageDeploymentPlan env column1) = NormalizeWebServerControl mode"
      "pl_Scope (decodePackageDeploymentPlan env column1) = NormalizePackageScope scope"
      "packageDeploymentDisplayDetail env column1 = d"
      using stored_result_plan[OF assms(1) s _ refl] Cons.prems(1,2,4) m by auto
    from Cons.IH[OF k(1,2) f] k(3) f Cons.prems(4) show ?case by (cases reports) auto
  qed simp
qed

definition sample_plan_env :: plan_env where
  "sample_plan_env = \<lparr>ple_marshal = \<lambda>p. if pl_Scope p = PackageScopeAgent \<and> pl_WebServerControl p = WebServerControlStandard
       then Some (pl_Detail p) else None,
     ple_unmarshal = \<lambda>raw. Some \<lparr>pl_WebServerControl = WebServerControlStandard, pl_Scope = PackageScopeAgent, pl_Detail = raw\<rparr>\<rparr>"

lemma sample_plan_env_ok: "plan_env_ok sample_plan_env"
  by (auto simp: plan_env_ok_def sample_plan_env_def)

lemma sample_stored:
  "stored_result sample_plan_env (packageDeploymentPlanPrefix @ d) e = Inr (packageDeploymentPlanPrefix @ e)"
  by (simp add: stored_result_def decodePackageDeploymentPlan_def encodePackageDeploymentResult_def encode_plan_def trim_prefix_def
      sample_plan_env_def normalize_defs package_words Let_def)

theorem plan_roundtrip_witness:
  "\<exists>column. fold_result (stored_result sample_plan_env) packageDeploymentPlanPrefix [''installing'', ''done''] = Inr column \<and>
     pl_Scope (decodePackageDeploymentPlan sample_plan_env column) = PackageScopeAgent \<and>
     packageDeploymentDisplayDetail sample_plan_env column = ''done''"
proof -
  have e: "encodePackageDeploymentPlanWithScope sample_plan_env [] ''agent'' = Inr packageDeploymentPlanPrefix"
    by (simp add: encodePackageDeploymentPlanWithScope_def encode_plan_def sample_plan_env_def normalize_defs package_words)
  have f: "fold_result (stored_result sample_plan_env) packageDeploymentPlanPrefix [''installing'', ''done''] =
      Inr (packageDeploymentPlanPrefix @ ''done'')"
    using sample_stored[of "[]"] by (simp add: sample_stored)
  show ?thesis using plan_roundtrip[OF sample_plan_env_ok e f] f
    by (simp add: has_prefix_def packageDeploymentPlanPrefix_def normalize_defs package_words)
qed

end
