(* ===== verification/Agent_Policy.thy ===== *)
theory Agent_Policy
  imports Policy_Delivery Package_Model
begin

text \<open>
  Application of policies by the agent, \<^verbatim>\<open>src/internal/agent/policy.go\<close>: a signed artifact is verified,
  unpacked into a directory of its revision, activated by exchanging a symbolic link and taken back when the
  web server rejects it. The legacy single-file format is written over the active file.

  The file system is the record \<open>policy_fs\<close>: the entry at the active path, the directories of revisions by
  their path, and two files of the state directory. Every call of the operating system that may fail takes the next
  element of a list of outcomes; a test and reload of the web server is one such call, and \<open>fs_loaded\<close> is what the
  server runs afterwards. Staging directories are not part of the record because they are removed on every path.
  The signature check with the installed key is the function \<open>pe_verify\<close>.
\<close>

section \<open>Names of revisions\<close>

text \<open>The pattern \<^verbatim>\<open>^[a-zA-Z0-9][a-zA-Z0-9._-]{0,127}$\<close>.\<close>

definition alnum :: "char \<Rightarrow> bool" where
  "alnum c \<longleftrightarrow> is_digit c \<or> is_lower c \<or> is_upper c"

definition policyRevisionName :: "string \<Rightarrow> bool" where
  "policyRevisionName s \<longleftrightarrow> s \<noteq> [] \<and> length s \<le> 128 \<and> alnum (hd s) \<and>
     list_all (\<lambda>c. alnum c \<or> c = CHR ''.'' \<or> c = CHR ''_'' \<or> c = CHR ''-'') s"

section \<open>State\<close>

record PolicyArtifactReference =
  ar_ID :: string
  ar_URL :: string
  ar_Format :: string
  ar_SHA256 :: string
  ar_Signature :: string

record PolicyOverrideReference =
  or_RevisionID :: string
  or_URL :: string
  or_Format :: string
  or_SHA256 :: string
  or_Signature :: string
  or_OverrideConfigSHA256 :: string
  or_EffectiveConfigSHA256 :: string
  or_ValidationDigest :: string

record DesiredState =
  dst_RevisionID :: string
  dst_ArtifactURL :: string
  dst_ArtifactFormat :: string
  dst_SHA256 :: string
  dst_Signature :: string
  dst_Mode :: string
  dst_AgentPackageID :: string
  dst_ModulePackageID :: string
  dst_PackageDeployment :: "PackageDeployment option"
  dst_BasePolicy :: "PolicyArtifactReference option"
  dst_OverridePolicy :: "PolicyOverrideReference option"

type_synonym directory = "(string \<times> string) list"

datatype active_entry = Link string | Dir directory | Missing | OtherFile

record policy_fs =
  fs_active :: active_entry
  fs_dirs :: "(string \<times> directory) list"
  fs_loaded :: "directory option"
  fs_previous_conf :: "string option"
  fs_previous_revision :: "string option"

record policy_env =
  pe_PolicyPath :: string
  pe_webServer :: string
  pe_hooks :: bool
  pe_sha256_hex :: "string \<Rightarrow> string"
  pe_verify :: "string \<Rightarrow> string \<Rightarrow> bool"
  pe_decode :: "string \<Rightarrow> Manifest option"
  pe_unpack :: "string \<Rightarrow> (tar_entry list \<times> bool) option"
  pe_marshal :: "Manifest \<Rightarrow> string option"
  pe_unix_now :: int

datatype policy_error =
    UnsupportedMode
  | ArtifactSizeInvalid
  | ChecksumMismatch
  | SignatureInvalid
  | UnsupportedFormat
  | SplitReferencesInvalid
  | SplitFormatsDiffer
  | OverrideDiffers
  | ParseFailed bundle_error
  | CompositionInvalid
  | DuplicateSplitFile string
  | ManifestNotEncodable
  | UnsafeRevisionID
  | ActiveDirectoryUnsafe
  | UnsafeMetadataName
  | FileOperationFailed
  | RevisionExists
  | ActiveNotInspected
  | ActiveNotDirectory
  | ActivationFailed
  | RestoreFailed
  | PolicyRejected
  | RollbackSwitchFailed
  | RollbackReloadFailed
  | CurrentPolicyUnreadable
  | UnsupportedWebServer
  | RollbackWriteFailed

type_synonym file_call = "policy_error option \<times> policy_fs \<times> bool list"

definition next_result :: "bool list \<Rightarrow> bool \<times> bool list" where
  "next_result os = (case os of [] \<Rightarrow> (True, []) | x # xs \<Rightarrow> (x, xs))"

definition attempt :: "policy_error \<Rightarrow> (policy_fs \<Rightarrow> policy_fs) \<Rightarrow> policy_fs \<Rightarrow> bool list \<Rightarrow> file_call" where
  "attempt e f fs os = (case next_result os of (ok, os') \<Rightarrow> if ok then (None, f fs, os') else (Some e, fs, os'))"

text \<open>A call whose error the code ignores.\<close>

definition best_effort :: "(policy_fs \<Rightarrow> policy_fs) \<Rightarrow> policy_fs \<Rightarrow> bool list \<Rightarrow> policy_fs \<times> bool list" where
  "best_effort f fs os = (case next_result os of (ok, os') \<Rightarrow> (if ok then f fs else fs, os'))"

definition activePath :: "policy_env \<Rightarrow> string" where
  "activePath env = path_clean (path_dir (pe_PolicyPath env))"

definition revisionsPath :: "policy_env \<Rightarrow> string" where
  "revisionsPath env = path_join (path_dir (activePath env)) ''revisions''"

text \<open>The target of the active link as an absolute path.\<close>

definition link_target :: "policy_env \<Rightarrow> string \<Rightarrow> string" where
  "link_target env t = path_clean (if is_abs t then t else path_join (path_dir (activePath env)) t)"

definition active_files :: "policy_env \<Rightarrow> policy_fs \<Rightarrow> directory option" where
  "active_files env fs =
     (case fs_active fs of Link t \<Rightarrow> map_of (fs_dirs fs) (link_target env t) | Dir d \<Rightarrow> Some d | _ \<Rightarrow> None)"

text \<open>The configuration test and the reload, as commands of the web server or as hooks; hooks are validated first.\<close>

definition test_and_reload :: "policy_env \<Rightarrow> policy_fs \<Rightarrow> bool list \<Rightarrow> file_call" where
  "test_and_reload env fs os =
     (case attempt PolicyRejected id fs os of
        (Some e, fs1, os1) \<Rightarrow> (Some e, fs1, os1)
      | (None, fs1, os1) \<Rightarrow> attempt PolicyRejected (\<lambda>fs. fs\<lparr>fs_loaded := active_files env fs\<rparr>) fs1 os1)"

definition testAndReload :: "policy_env \<Rightarrow> policy_fs \<Rightarrow> bool list \<Rightarrow> file_call" where
  "testAndReload env fs os =
     (if pe_hooks env then
        (case attempt PolicyRejected id fs os of
           (Some e, fs1, os1) \<Rightarrow> (Some e, fs1, os1)
         | (None, fs1, os1) \<Rightarrow> test_and_reload env fs1 os1)
      else if pe_webServer env = ''apache'' \<or> pe_webServer env = ''nginx'' then test_and_reload env fs os
      else (Some UnsupportedWebServer, fs, os))"

section \<open>Activation of a revision\<close>

definition replaceSymlink :: "string \<Rightarrow> policy_fs \<Rightarrow> bool list \<Rightarrow> file_call" where
  "replaceSymlink target fs os =
     (if target = [] \<or> \<not> is_abs target then (Some ActivationFailed, fs, os)
      else case attempt ActivationFailed id fs os of
          (Some e, fs', os') \<Rightarrow> (Some e, fs', os')
        | (None, fs', os') \<Rightarrow> attempt ActivationFailed (\<lambda>fs. fs\<lparr>fs_active := Link target\<rparr>) fs' os')"

definition legacy_target :: "policy_env \<Rightarrow> string" where
  "legacy_target env = path_join (revisionsPath env) (''legacy-'' @ itoa (pe_unix_now env))"

definition prepareActiveLink :: "policy_env \<Rightarrow> policy_fs \<Rightarrow> bool list \<Rightarrow> (policy_error + string) \<times> policy_fs \<times> bool list" where
  "prepareActiveLink env fs os =
     (case fs_active fs of
        Missing \<Rightarrow> (Inl ActiveNotInspected, fs, os)
      | OtherFile \<Rightarrow> (Inl ActiveNotDirectory, fs, os)
      | Link t \<Rightarrow>
          (case attempt ActiveNotInspected id fs os of
             (Some e, fs', os') \<Rightarrow> (Inl e, fs', os')
           | (None, fs', os') \<Rightarrow> (Inr (link_target env t), fs', os'))
      | Dir d \<Rightarrow>
          if map_of (fs_dirs fs) (legacy_target env) \<noteq> None \<and> map_of (fs_dirs fs) (legacy_target env) \<noteq> Some [] then (Inl FileOperationFailed, fs, os)
          else (case attempt FileOperationFailed (\<lambda>fs. fs\<lparr>fs_active := Missing, fs_dirs := AList.update (legacy_target env) d (fs_dirs fs)\<rparr>) fs os of
                  (Some e, fs', os') \<Rightarrow> (Inl e, fs', os')
                | (None, fs', os') \<Rightarrow> (Inr (legacy_target env), fs', os')))"

text \<open>Writing the files of a staging directory; metadata files are written under checked names.\<close>

definition metadata_name_ok :: "string \<Rightarrow> bool" where
  "metadata_name_ok name \<longleftrightarrow> path_base name = name \<and> has_suffix name ''.json''"

fun stage_files :: "(string \<Rightarrow> bool) \<Rightarrow> directory \<Rightarrow> directory \<Rightarrow> bool list \<Rightarrow> (policy_error + directory) \<times> bool list" where
  "stage_files safe [] dir os = (Inr dir, os)"
| "stage_files safe ((name, content) # items) dir os =
     (if \<not> safe name then (Inl UnsafeMetadataName, os)
      else case next_result os of
        (False, os') \<Rightarrow> (Inl FileOperationFailed, os')
      | (True, os') \<Rightarrow> stage_files safe items (AList.update name content dir) os')"

definition compatibility_entry :: "string \<times> string" where
  "compatibility_entry = (''main.conf'', ''# Compatibility entry for rollback packages. Managed by mwaf-agent.'' @ [newline])"

definition staged_files :: "directory \<Rightarrow> directory \<Rightarrow> directory" where
  "staged_files files metadataFiles = fold (\<lambda>(n, c). AList.update n c) (files @ metadataFiles @ [compatibility_entry]) []"

definition stage_revision :: "directory \<Rightarrow> directory \<Rightarrow> bool list \<Rightarrow> (policy_error + directory) \<times> bool list" where
  "stage_revision files metadataFiles os =
     (case stage_files (\<lambda>_. True) files [] os of
        (Inl e, os1) \<Rightarrow> (Inl e, os1)
      | (Inr dir1, os1) \<Rightarrow>
          (case stage_files metadata_name_ok metadataFiles dir1 os1 of
             (Inl e, os2) \<Rightarrow> (Inl e, os2)
           | (Inr dir2, os2) \<Rightarrow> stage_files (\<lambda>_. True) [compatibility_entry] dir2 os2))"

definition remove_dir :: "string \<Rightarrow> policy_fs \<Rightarrow> policy_fs" where
  "remove_dir path fs = fs\<lparr>fs_dirs := AList.delete path (fs_dirs fs)\<rparr>"

text \<open>The test of the activated revision, and the way back when the web server rejects it.\<close>

definition test_activated :: "policy_env \<Rightarrow> string \<Rightarrow> string \<Rightarrow> policy_fs \<Rightarrow> bool list \<Rightarrow> file_call" where
  "test_activated env revisionPath previousTarget fs os =
     (case testAndReload env fs os of
        (None, fs1, os1) \<Rightarrow>
          (case best_effort (\<lambda>fs. fs\<lparr>fs_previous_revision := Some (previousTarget @ [newline])\<rparr>) fs1 os1 of (fs2, os2) \<Rightarrow> (None, fs2, os2))
      | (Some _, fs1, os1) \<Rightarrow>
          (case replaceSymlink previousTarget fs1 os1 of
             (Some _, fs2, os2) \<Rightarrow> (Some RollbackSwitchFailed, fs2, os2)
           | (None, fs2, os2) \<Rightarrow>
               (case testAndReload env fs2 os2 of
                  (Some _, fs3, os3) \<Rightarrow> (Some RollbackReloadFailed, fs3, os3)
                | (None, fs3, os3) \<Rightarrow>
                    (case best_effort (remove_dir revisionPath) fs3 os3 of (fs4, os4) \<Rightarrow> (Some PolicyRejected, fs4, os4)))))"

definition activate :: "policy_env \<Rightarrow> string \<Rightarrow> policy_fs \<Rightarrow> bool list \<Rightarrow> file_call" where
  "activate env revisionPath fs os =
     (case prepareActiveLink env fs os of
        (Inl e, fs1, os1) \<Rightarrow> (case best_effort (remove_dir revisionPath) fs1 os1 of (fs2, os2) \<Rightarrow> (Some e, fs2, os2))
      | (Inr previousTarget, fs1, os1) \<Rightarrow>
          (case replaceSymlink revisionPath fs1 os1 of
             (None, fs2, os2) \<Rightarrow> test_activated env revisionPath previousTarget fs2 os2
           | (Some _, fs2, os2) \<Rightarrow>
               (case best_effort (remove_dir revisionPath) fs2 os2 of
                  (fs3, os3) \<Rightarrow>
                    (case replaceSymlink previousTarget fs3 os3 of
                       (Some _, fs4, os4) \<Rightarrow> (Some RestoreFailed, fs4, os4)
                     | (None, fs4, os4) \<Rightarrow> (Some ActivationFailed, fs4, os4)))))"

definition revision_path :: "policy_env \<Rightarrow> DesiredState \<Rightarrow> string" where
  "revision_path env state = path_join (revisionsPath env) (dst_RevisionID state)"

definition publish_revision :: "policy_env \<Rightarrow> string \<Rightarrow> directory \<Rightarrow> policy_fs \<Rightarrow> bool list \<Rightarrow> file_call" where
  "publish_revision env revisionPath staged fs os =
     (if map_of (fs_dirs fs) revisionPath \<noteq> None then (Some RevisionExists, fs, os)
      else case attempt FileOperationFailed (\<lambda>fs. fs\<lparr>fs_dirs := AList.update revisionPath staged (fs_dirs fs)\<rparr>) fs os of
          (Some e, fs1, os1) \<Rightarrow> (Some e, fs1, os1)
        | (None, fs1, os1) \<Rightarrow> activate env revisionPath fs1 os1)"

definition applyBundleFiles :: "policy_env \<Rightarrow> DesiredState \<Rightarrow> directory \<Rightarrow> directory \<Rightarrow> policy_fs \<Rightarrow> bool list \<Rightarrow> file_call" where
  "applyBundleFiles env state files metadataFiles fs os =
     (if \<not> policyRevisionName (dst_RevisionID state) then (Some UnsafeRevisionID, fs, os)
      else if activePath env = ''.'' \<or> activePath env = ''/'' then (Some ActiveDirectoryUnsafe, fs, os)
      else case attempt FileOperationFailed id fs os of
          (Some e, fs1, os1) \<Rightarrow> (Some e, fs1, os1)
        | (None, fs1, os1) \<Rightarrow>
            (case attempt FileOperationFailed id fs1 os1 of
               (Some e, fs2, os2) \<Rightarrow> (Some e, fs2, os2)
             | (None, fs2, os2) \<Rightarrow>
                 (case stage_revision files metadataFiles os2 of
                    (Inl e, os3) \<Rightarrow> (Some e, fs2, os3)
                  | (Inr staged, os3) \<Rightarrow> publish_revision env (revision_path env state) staged fs2 os3)))"

section \<open>Verification\<close>

definition verifyArtifact :: "policy_env \<Rightarrow> string \<Rightarrow> string \<Rightarrow> string \<Rightarrow> policy_error option" where
  "verifyArtifact env artifact expectedSHA256 signature =
     (if \<not> equal_fold (pe_sha256_hex env artifact) expectedSHA256 then Some ChecksumMismatch
      else if \<not> pe_verify env artifact signature then Some SignatureInvalid else None)"

definition applyBundle :: "policy_env \<Rightarrow> DesiredState \<Rightarrow> string \<Rightarrow> policy_fs \<Rightarrow> bool list \<Rightarrow> file_call" where
  "applyBundle env state artifact fs os =
     (case Parse (pe_sha256_hex env) (pe_decode env) (pe_unpack env) artifact of
        Inl e \<Rightarrow> (Some (ParseFailed e), fs, os)
      | Inr (manifest, files) \<Rightarrow>
          (case pe_marshal env manifest of
             None \<Rightarrow> (Some ManifestNotEncodable, fs, os)
           | Some raw \<Rightarrow> applyBundleFiles env state files [(''manifest.json'', raw @ [newline])] fs os))"

definition write_active :: "policy_env \<Rightarrow> string \<Rightarrow> policy_fs \<Rightarrow> policy_fs" where
  "write_active env content fs =
     (let name = path_base (pe_PolicyPath env)
      in case fs_active fs of
           Link t \<Rightarrow> fs\<lparr>fs_dirs := AList.update (link_target env t)
             (AList.update name content (case map_of (fs_dirs fs) (link_target env t) of None \<Rightarrow> [] | Some d \<Rightarrow> d)) (fs_dirs fs)\<rparr>
         | Dir d \<Rightarrow> fs\<lparr>fs_active := Dir (AList.update name content d)\<rparr>
         | _ \<Rightarrow> fs)"

definition current_policy :: "policy_env \<Rightarrow> policy_fs \<Rightarrow> string option" where
  "current_policy env fs = (case active_files env fs of None \<Rightarrow> None | Some d \<Rightarrow> map_of d (path_base (pe_PolicyPath env)))"

definition apply_conf :: "policy_env \<Rightarrow> string \<Rightarrow> string \<Rightarrow> policy_fs \<Rightarrow> bool list \<Rightarrow> file_call" where
  "apply_conf env previous artifact fs os =
     (case attempt FileOperationFailed (\<lambda>fs. fs\<lparr>fs_previous_conf := Some previous\<rparr>) fs os of
        (Some e, fs1, os1) \<Rightarrow> (Some e, fs1, os1)
      | (None, fs1, os1) \<Rightarrow>
          (case attempt FileOperationFailed (write_active env artifact) fs1 os1 of
             (Some e, fs2, os2) \<Rightarrow> (Some e, fs2, os2)
           | (None, fs2, os2) \<Rightarrow>
               (case testAndReload env fs2 os2 of
                  (None, fs3, os3) \<Rightarrow> (None, fs3, os3)
                | (Some _, fs3, os3) \<Rightarrow>
                    (case attempt RollbackWriteFailed (write_active env previous) fs3 os3 of
                       (Some e, fs4, os4) \<Rightarrow> (Some e, fs4, os4)
                     | (None, fs4, os4) \<Rightarrow>
                         (case testAndReload env fs4 os4 of
                            (Some _, fs5, os5) \<Rightarrow> (Some RollbackReloadFailed, fs5, os5)
                          | (None, fs5, os5) \<Rightarrow> (Some PolicyRejected, fs5, os5))))))"

definition artifact_limit :: "string \<Rightarrow> int" where
  "artifact_limit format = (if format = Format then 4194304 else if format = FormatV3 then 67108864 else 1048576)"

definition Apply :: "policy_env \<Rightarrow> DesiredState \<Rightarrow> string \<Rightarrow> policy_fs \<Rightarrow> bool list \<Rightarrow> file_call" where
  "Apply env state artifact fs os =
     (let format = dst_ArtifactFormat state
      in if \<not> mode_ok (dst_Mode state) then (Some UnsupportedMode, fs, os)
         else if artifact = [] \<or> len artifact > artifact_limit format then (Some ArtifactSizeInvalid, fs, os)
         else case verifyArtifact env artifact (dst_SHA256 state) (dst_Signature state) of
             Some e \<Rightarrow> (Some e, fs, os)
           | None \<Rightarrow>
               if format = Format \<or> format = FormatV3 then applyBundle env state artifact fs os
               else if format \<noteq> [] \<and> format \<noteq> ''conf-v1'' then (Some UnsupportedFormat, fs, os)
               else (case current_policy env fs of
                       None \<Rightarrow> (Some CurrentPolicyUnreadable, fs, os)
                     | Some previous \<Rightarrow> if previous = artifact then (None, fs, os) else apply_conf env previous artifact fs os))"

definition composition_ok :: "PolicyArtifactReference \<Rightarrow> PolicyOverrideReference \<Rightarrow> Manifest \<Rightarrow> Manifest \<Rightarrow> bool" where
  "composition_ok b r bm om \<longleftrightarrow>
     m_ArtifactFormat bm = FormatBase \<and> m_ArtifactFormat om = FormatOverride \<and> m_BasePolicyID bm = ar_ID b \<and> m_BasePolicyID om = ar_ID b \<and>
     equal_fold (m_BaseArtifactSHA256 om) (ar_SHA256 b) \<and> equal_fold (m_OverrideConfigSHA256 om) (or_OverrideConfigSHA256 r) \<and>
     equal_fold (m_EffectiveConfigSHA256 om) (or_EffectiveConfigSHA256 r) \<and> equal_fold (m_ValidationDigest om) (or_ValidationDigest r) \<and>
     src_ID (m_PolicySource bm) = src_ID (m_PolicySource om) \<and>
     equal_fold (src_IndexSHA256 (m_PolicySource bm)) (src_IndexSHA256 (m_PolicySource om))"

definition apply_split_files ::
  "policy_env \<Rightarrow> DesiredState \<Rightarrow> Manifest \<times> directory \<Rightarrow> Manifest \<times> directory \<Rightarrow> policy_fs \<Rightarrow> bool list \<Rightarrow> file_call" where
  "apply_split_files env state b r fs os =
     (case find (\<lambda>item. fst item \<in> fst ` set (snd b)) (snd r) of
        Some item \<Rightarrow> (Some (DuplicateSplitFile (fst item)), fs, os)
      | None \<Rightarrow>
          (case (pe_marshal env (fst b), pe_marshal env (fst r)) of
             (Some baseRaw, Some overrideRaw) \<Rightarrow>
               applyBundleFiles env state (snd b @ snd r)
                 [(''manifest.json'', baseRaw @ [newline]), (''override-manifest.json'', overrideRaw @ [newline])] fs os
           | _ \<Rightarrow> (Some ManifestNotEncodable, fs, os)))"

definition split_references_ok :: "DesiredState \<Rightarrow> (PolicyArtifactReference \<times> PolicyOverrideReference) option" where
  "split_references_ok state =
     (case (dst_BasePolicy state, dst_OverridePolicy state) of
        (Some b, Some r) \<Rightarrow> if dst_ArtifactFormat state = FormatOverride then Some (b, r) else None
      | _ \<Rightarrow> None)"

definition ApplySplit :: "policy_env \<Rightarrow> DesiredState \<Rightarrow> string \<Rightarrow> string \<Rightarrow> policy_fs \<Rightarrow> bool list \<Rightarrow> file_call" where
  "ApplySplit env state baseArtifact overrideArtifact fs os =
     (if \<not> mode_ok (dst_Mode state) then (Some UnsupportedMode, fs, os)
      else case split_references_ok state of None \<Rightarrow> (Some SplitReferencesInvalid, fs, os) | Some (b, r) \<Rightarrow>
        if ar_Format b \<noteq> FormatBase \<or> or_Format r \<noteq> FormatOverride \<or> or_RevisionID r \<noteq> dst_RevisionID state
          then (Some SplitFormatsDiffer, fs, os)
        else if baseArtifact = [] \<or> len baseArtifact > 67108864 \<or> overrideArtifact = [] \<or> len overrideArtifact > 4194304
          then (Some ArtifactSizeInvalid, fs, os)
        else case verifyArtifact env baseArtifact (ar_SHA256 b) (ar_Signature b) of Some e \<Rightarrow> (Some e, fs, os) | None \<Rightarrow>
          (case verifyArtifact env overrideArtifact (or_SHA256 r) (or_Signature r) of Some e \<Rightarrow> (Some e, fs, os) | None \<Rightarrow>
            if \<not> equal_fold (or_SHA256 r) (dst_SHA256 state) \<or> or_Signature r \<noteq> dst_Signature state then (Some OverrideDiffers, fs, os)
            else case Parse (pe_sha256_hex env) (pe_decode env) (pe_unpack env) baseArtifact of
                Inl e \<Rightarrow> (Some (ParseFailed e), fs, os)
              | Inr parsedBase \<Rightarrow>
                  (case Parse (pe_sha256_hex env) (pe_decode env) (pe_unpack env) overrideArtifact of
                     Inl e \<Rightarrow> (Some (ParseFailed e), fs, os)
                   | Inr parsedOverride \<Rightarrow>
                       if \<not> composition_ok b r (fst parsedBase) (fst parsedOverride) then (Some CompositionInvalid, fs, os)
                       else apply_split_files env state parsedBase parsedOverride fs os)))"

section \<open>Links\<close>

lemma link_target_clean:
  assumes "is_abs (path_clean p)"
  shows "link_target env (path_clean p) = path_clean p"
proof -
  have "path_clean (path_clean p) = path_clean p" using path_clean_rooted path_clean_abs assms by blast
  with assms show ?thesis unfolding link_target_def by (subst if_P)
qed

lemma link_target_again: "is_abs (link_target env t) \<Longrightarrow> link_target env (link_target env t) = link_target env t"
  unfolding link_target_def [of env t] by (rule link_target_clean)

lemma link_target_join: "is_abs (path_join a b) \<Longrightarrow> link_target env (path_join a b) = path_join a b"
  unfolding path_join_def by (rule link_target_clean)

section \<open>Activation and its way back\<close>

text \<open>
  The outcomes of the single calls. A failed call leaves the file system as it was, and only a successful test and
  reload changes what the web server runs.
\<close>

lemma attempt_cases:
  assumes "attempt e f fs os = (r, fs', os')"
  obtains "r = None" "fs' = f fs" | "r = Some e" "fs' = fs"
  using assms by (auto simp: attempt_def split: prod.splits if_splits)

lemma best_effort_cases:
  assumes "best_effort f fs os = (fs', os')"
  obtains "fs' = f fs" | "fs' = fs"
  using assms by (auto simp: best_effort_def split: prod.splits if_splits)

lemma test_and_reload_outcome:
  "test_and_reload env fs os = (r, fs', os') \<Longrightarrow>
   r = None \<and> fs' = fs\<lparr>fs_loaded := active_files env fs\<rparr> \<or> r \<noteq> None \<and> fs' = fs"
  by (auto simp: test_and_reload_def attempt_def split: prod.splits if_splits)

lemma testAndReload_cases:
  assumes "testAndReload env fs os = (r, fs', os')"
  obtains "r = None" "fs' = fs\<lparr>fs_loaded := active_files env fs\<rparr>" | e where "r = Some e" "fs' = fs"
  using assms test_and_reload_outcome
  by (fastforce simp: testAndReload_def attempt_def split: prod.splits if_splits)

lemma replaceSymlink_cases:
  assumes "replaceSymlink target fs os = (r, fs', os')"
  obtains "r = None" "is_abs target" "fs' = fs\<lparr>fs_active := Link target\<rparr>" | e where "r = Some e" "fs' = fs"
  using assms by (auto simp: replaceSymlink_def attempt_def split: prod.splits if_splits)

lemma prepareActiveLink_cases:
  assumes "prepareActiveLink env fs os = (r, fs', os')"
  obtains e where "r = Inl e" "fs' = fs"
  | t where "fs_active fs = Link t" "r = Inr (link_target env t)" "fs' = fs"
  | d where "fs_active fs = Dir d" "r = Inr (legacy_target env)" "map_of (fs_dirs fs) (legacy_target env) \<in> {None, Some []}"
      "fs' = fs\<lparr>fs_active := Missing, fs_dirs := AList.update (legacy_target env) d (fs_dirs fs)\<rparr>"
  using assms by (auto simp: prepareActiveLink_def attempt_def split: prod.splits if_splits active_entry.splits)

lemma active_files_link: "link_target env t = p \<Longrightarrow> active_files env (fs\<lparr>fs_active := Link t\<rparr>) = map_of (fs_dirs fs) p"
  by (simp add: active_files_def)

lemma active_files_loaded [simp]: "active_files env (fs\<lparr>fs_loaded := l\<rparr>) = active_files env fs"
  by (simp add: active_files_def split: active_entry.split)

lemma active_files_previous [simp]: "active_files env (fs\<lparr>fs_previous_revision := l\<rparr>) = active_files env fs"
  by (simp add: active_files_def split: active_entry.split)

lemma map_of_delete_other: "p \<noteq> q \<Longrightarrow> map_of (AList.delete q xs) p = map_of xs p"
  by (simp add: delete_conv')

text \<open>What the way back may rely on: \<open>t\<close> holds the files that were active, and it is not the new revision.\<close>

definition kept_at :: "policy_env \<Rightarrow> string \<Rightarrow> directory \<Rightarrow> string \<Rightarrow> policy_fs \<Rightarrow> bool" where
  "kept_at env rp d t fs \<longleftrightarrow> map_of (fs_dirs fs) t = Some d \<and> t \<noteq> rp \<and> (is_abs t \<longrightarrow> link_target env t = t)"

lemma kept_at_frame [simp]:
  "kept_at env rp d t (fs\<lparr>fs_active := a\<rparr>) = kept_at env rp d t fs"
  "kept_at env rp d t (fs\<lparr>fs_loaded := l\<rparr>) = kept_at env rp d t fs"
  "kept_at env rp d t (remove_dir rp fs) = kept_at env rp d t fs"
  by (auto simp: kept_at_def remove_dir_def map_of_delete_other)

lemma kept_at_active: "kept_at env rp d t fs \<Longrightarrow> is_abs t \<Longrightarrow> active_files env (fs\<lparr>fs_active := Link t\<rparr>) = Some d"
  by (simp add: kept_at_def active_files_def)

lemma prepared_kept:
  assumes prep: "prepareActiveLink env fs os = (Inr t, fs', os')" and active: "active_files env fs = Some d"
    and fresh: "map_of (fs_dirs fs) rp = Some staged" "staged \<noteq> []" "\<And>l. fs_active fs = Link l \<Longrightarrow> link_target env l \<noteq> rp"
  shows "kept_at env rp d t fs' \<and> fs_loaded fs' = fs_loaded fs \<and> map_of (fs_dirs fs') rp = Some staged"
  using prep
proof (cases rule: prepareActiveLink_cases)
  case (2 l)
  then show ?thesis using active fresh link_target_again by (auto simp: kept_at_def active_files_def)
next
  case (3 d')
  then have "legacy_target env \<noteq> rp" using fresh by auto
  with 3 active fresh show ?thesis
    by (auto simp: kept_at_def active_files_def update_conv' legacy_target_def link_target_join)
qed simp

text \<open>The errors after which the previous policy is not active: the link itself could not be put back.\<close>

definition not_restored :: "policy_error \<Rightarrow> bool" where
  "not_restored e \<longleftrightarrow> e = RestoreFailed \<or> e = RollbackSwitchFailed"

text \<open>An outcome is either the new revision, tested and loaded, or the previous files.\<close>

definition applied_or_kept :: "policy_env \<Rightarrow> directory \<Rightarrow> directory \<Rightarrow> policy_fs \<Rightarrow> policy_error option \<Rightarrow> policy_fs \<Rightarrow> bool" where
  "applied_or_kept env staged d fs r fs' \<longleftrightarrow>
     (case r of
        None \<Rightarrow> active_files env fs' = Some staged \<and> fs_loaded fs' = Some staged
      | Some e \<Rightarrow> not_restored e \<or> active_files env fs' = Some d \<and> (fs_loaded fs' = fs_loaded fs \<or> fs_loaded fs' = Some d))"

lemma applied_or_kept_loaded:
  "applied_or_kept env staged d fs1 r fs' \<Longrightarrow> fs_loaded fs1 = fs_loaded fs \<Longrightarrow> applied_or_kept env staged d fs r fs'"
  by (cases r) (simp_all add: applied_or_kept_def)

lemma test_activated_outcome:
  assumes run: "test_activated env rp t fs os = (r, fs', os')" and kept: "kept_at env rp d t fs"
    and active: "active_files env fs = Some staged"
  shows "applied_or_kept env staged d fs r fs'"
proof -
  obtain r1 fs1 os1 where t1: "testAndReload env fs os = (r1, fs1, os1)" by (cases "testAndReload env fs os")
  show ?thesis using t1
  proof (cases rule: testAndReload_cases)
    case 1
    with run t1 active show ?thesis
      by (auto simp: test_activated_def applied_or_kept_def best_effort_def split: prod.splits if_splits)
  next
    case (2 e)
    note rejected = this
    obtain r2 fs2 os2 where t2: "replaceSymlink t fs1 os1 = (r2, fs2, os2)" by (cases "replaceSymlink t fs1 os1")
    show ?thesis using t2
    proof (cases rule: replaceSymlink_cases)
      case 1
      note restored = this
      have files: "active_files env fs2 = Some d" using kept_at_active [OF kept] restored rejected by simp
      obtain r3 fs3 os3 where t3: "testAndReload env fs2 os2 = (r3, fs3, os3)" by (cases "testAndReload env fs2 os2")
      have gone: "active_files env (remove_dir rp (fs2\<lparr>fs_loaded := l\<rparr>)) = Some d" for l
        using kept restored rejected by (simp add: active_files_def kept_at_def remove_dir_def map_of_delete_other)
      show ?thesis using t3
      proof (cases rule: testAndReload_cases)
        case 1
        with run t1 t2 t3 rejected restored files gone show ?thesis
          by (auto simp: test_activated_def applied_or_kept_def best_effort_def remove_dir_def split: prod.splits if_splits)
      next
        case (2 e)
        with run t1 t2 t3 rejected restored files show ?thesis
          by (auto simp: test_activated_def applied_or_kept_def)
      qed
    next
      case (2 e)
      with run t1 t2 rejected show ?thesis by (auto simp: test_activated_def applied_or_kept_def not_restored_def)
    qed
  qed
qed

lemma activate_outcome:
  assumes run: "activate env rp fs os = (r, fs', os')" and active: "active_files env fs = Some d"
    and fresh: "map_of (fs_dirs fs) rp = Some staged" "staged \<noteq> []" "\<And>l. fs_active fs = Link l \<Longrightarrow> link_target env l \<noteq> rp"
    and clean: "is_abs rp \<Longrightarrow> link_target env rp = rp"
  shows "applied_or_kept env staged d fs r fs'"
proof -
  obtain r1 fs1 os1 where t1: "prepareActiveLink env fs os = (r1, fs1, os1)" by (cases "prepareActiveLink env fs os")
  show ?thesis
  proof (cases r1)
    case (Inl e)
    with t1 have "fs1 = fs" by (auto elim: prepareActiveLink_cases)
    moreover have "active_files env (remove_dir rp fs) = Some d"
      using active fresh(3) by (auto simp: active_files_def remove_dir_def map_of_delete_other split: active_entry.splits)
    ultimately show ?thesis
      using run t1 Inl active by (auto simp: activate_def applied_or_kept_def best_effort_def remove_dir_def split: prod.splits if_splits)
  next
    case (Inr t)
    note kept = prepared_kept [OF t1 [unfolded Inr] active fresh]
    obtain r2 fs2 os2 where t2: "replaceSymlink rp fs1 os1 = (r2, fs2, os2)" by (cases "replaceSymlink rp fs1 os1")
    show ?thesis using t2
    proof (cases rule: replaceSymlink_cases)
      case 1
      then have "active_files env fs2 = Some staged" using kept clean by (simp add: active_files_def)
      moreover have "test_activated env rp t fs2 os2 = (r, fs', os')" using run t1 t2 Inr 1 by (simp add: activate_def)
      moreover have "kept_at env rp d t fs2" using kept 1 by simp
      ultimately have "applied_or_kept env staged d fs2 r fs'" by (blast intro: test_activated_outcome)
      then show ?thesis by (rule applied_or_kept_loaded) (use kept 1 in simp)
    next
      case (2 e)
      note failed = this
      obtain fs3 os3 where t3: "best_effort (remove_dir rp) fs2 os2 = (fs3, os3)" by (cases "best_effort (remove_dir rp) fs2 os2")
      have k3: "kept_at env rp d t fs3 \<and> fs_loaded fs3 = fs_loaded fs"
        using kept 2 t3 by (auto simp: best_effort_def remove_dir_def kept_at_frame(3) [unfolded remove_dir_def] split: prod.splits if_splits)
      obtain r4 fs4 os4 where t4: "replaceSymlink t fs3 os3 = (r4, fs4, os4)" by (cases "replaceSymlink t fs3 os3")
      show ?thesis using t4
      proof (cases rule: replaceSymlink_cases)
        case 1
        with run t1 t2 t3 t4 2 Inr k3 kept_at_active show ?thesis by (auto simp: activate_def applied_or_kept_def)
      next
        case (2 e')
        with run t1 t2 t3 t4 failed Inr show ?thesis by (auto simp: activate_def applied_or_kept_def not_restored_def)
      qed
    qed
  qed
qed

lemma stage_files_result:
  "stage_files safe items dir os = (Inr dir', os') \<Longrightarrow> dir' = fold (\<lambda>(n, c). AList.update n c) items dir"
  by (induction safe items dir os rule: stage_files.induct) (auto split: prod.splits bool.splits if_splits)

lemma stage_revision_result:
  "stage_revision files metadataFiles os = (Inr dir, os') \<Longrightarrow> dir = staged_files files metadataFiles"
  by (auto simp: stage_revision_def staged_files_def compatibility_entry_def dest!: stage_files_result split: prod.splits sum.splits bool.splits)

lemma staged_files_not_Nil: "staged_files files metadataFiles \<noteq> []"
proof -
  have "AList.update n c xs \<noteq> []" for n c :: string and xs by (cases xs) auto
  then show ?thesis by (simp add: staged_files_def compatibility_entry_def)
qed

text \<open>Either the call ends before the new revision is published, and nothing has changed, or it activates the revision.\<close>

lemma applyBundleFiles_cases:
  assumes "applyBundleFiles env state files metadataFiles fs os = (r, fs', os')"
  obtains e where "r = Some e" "fs' = fs" "\<not> not_restored e"
  | os1 where "map_of (fs_dirs fs) (revision_path env state) = None"
      "activate env (revision_path env state)
         (fs\<lparr>fs_dirs := AList.update (revision_path env state) (staged_files files metadataFiles) (fs_dirs fs)\<rparr>) os1 = (r, fs', os')"
proof -
  have stage: "stage_revision files metadataFiles os0 = (Inl e, os') \<Longrightarrow> \<not> not_restored e" for e os0 os'
  proof -
    have "stage_files safe items dir os0 = (Inl e, os') \<Longrightarrow> \<not> not_restored e" for safe items dir os0 os'
      by (induction safe items dir os0 rule: stage_files.induct) (auto simp: not_restored_def split: prod.splits bool.splits if_splits)
    then show "stage_revision files metadataFiles os0 = (Inl e, os') \<Longrightarrow> \<not> not_restored e"
      by (auto simp: stage_revision_def split: prod.splits sum.splits)
  qed
  show thesis
    using assms that stage stage_revision_result
    by (auto simp: applyBundleFiles_def publish_revision_def attempt_def not_restored_def split: prod.splits sum.splits if_splits)
qed

lemma applyBundleFiles_outcome:
  assumes run: "applyBundleFiles env state files metadataFiles fs os = (r, fs', os')" and active: "active_files env fs = Some d"
  shows "applied_or_kept env (staged_files files metadataFiles) d fs r fs'"
  using run
proof (cases rule: applyBundleFiles_cases)
  case (1 e)
  with active show ?thesis by (simp add: applied_or_kept_def)
next
  case (2 os1)
  let ?rp = "revision_path env state" and ?fs = "fs\<lparr>fs_dirs := AList.update (revision_path env state) (staged_files files metadataFiles) (fs_dirs fs)\<rparr>"
  have link: "fs_active fs = Link l \<Longrightarrow> link_target env l \<noteq> ?rp" for l using active 2 by (auto simp: active_files_def)
  have "applied_or_kept env (staged_files files metadataFiles) d ?fs r fs'"
  proof (rule activate_outcome [OF 2(2)])
    show "active_files env ?fs = Some d" using active link by (auto simp: active_files_def update_conv' split: active_entry.splits)
    show "map_of (fs_dirs ?fs) ?rp = Some (staged_files files metadataFiles)" by (simp add: update_conv')
    show "is_abs ?rp \<Longrightarrow> link_target env ?rp = ?rp" unfolding revision_path_def by (rule link_target_join)
  qed (use link staged_files_not_Nil in auto)
  then show ?thesis by (rule applied_or_kept_loaded) simp
qed

text \<open>C8:
  Applying a policy bundle is atomic for the web server. When the call succeeds, exactly the staged files (bundle,
  metadata and the compatibility entry) are active and the server has loaded them. When it fails, whatever call failed,
  the files that were active before are active again and the server runs them or what it ran before; the only
  exceptions are the two errors that report that the symbolic link could not be put back.
\<close>

theorem apply_atomic:
  assumes "applyBundleFiles env state files metadataFiles fs os = (r, fs', os')"
    and "active_files env fs = Some d"
  shows "(r = None \<longrightarrow> active_files env fs' = Some (staged_files files metadataFiles) \<and> fs_loaded fs' = active_files env fs') \<and>
     (\<forall>e. r = Some e \<and> e \<noteq> RestoreFailed \<and> e \<noteq> RollbackSwitchFailed \<longrightarrow>
        active_files env fs' = Some d \<and> (fs_loaded fs' = fs_loaded fs \<or> fs_loaded fs' = Some d))"
  using applyBundleFiles_outcome [OF assms] by (auto simp: applied_or_kept_def not_restored_def)

section \<open>Revision directories\<close>

lemma map_of_update_kept: "map_of xs p \<noteq> None \<Longrightarrow> map_of (AList.update q v xs) p \<noteq> None"
  by (simp add: update_conv')

text \<open>Activating a revision removes no directory but its own, and keeps that one on success.\<close>

lemma test_activated_dirs:
  assumes "test_activated env rp t fs os = (r, fs', os')"
  shows "(fs_dirs fs' = fs_dirs fs \<or> fs_dirs fs' = AList.delete rp (fs_dirs fs)) \<and> (r = None \<longrightarrow> fs_dirs fs' = fs_dirs fs)"
  using assms
  by (auto simp: test_activated_def best_effort_def remove_dir_def elim!: testAndReload_cases replaceSymlink_cases split: prod.splits option.splits if_splits)

lemma activate_dirs:
  assumes run: "activate env rp fs os = (r, fs', os')"
  shows "(p \<noteq> rp \<longrightarrow> map_of (fs_dirs fs) p \<noteq> None \<longrightarrow> map_of (fs_dirs fs') p \<noteq> None) \<and>
    (r = None \<longrightarrow> map_of (fs_dirs fs) rp \<noteq> None \<longrightarrow> map_of (fs_dirs fs') rp \<noteq> None)"
proof -
  obtain r1 fs1 os1 where t1: "prepareActiveLink env fs os = (r1, fs1, os1)" by (cases "prepareActiveLink env fs os")
  have d1: "map_of (fs_dirs fs) q \<noteq> None \<Longrightarrow> map_of (fs_dirs fs1) q \<noteq> None" for q
    using t1 by (cases rule: prepareActiveLink_cases) (auto simp: update_conv')
  show ?thesis
  proof (cases "fst (replaceSymlink rp fs1 os1) = None \<and> isl r1 = False")
    case True
    then obtain t fs2 os2 where t2: "r1 = Inr t" "replaceSymlink rp fs1 os1 = (None, fs2, os2)"
      by (cases r1; cases "replaceSymlink rp fs1 os1") auto
    then have "fs_dirs fs2 = fs_dirs fs1" by (auto elim: replaceSymlink_cases)
    moreover have "test_activated env rp t fs2 os2 = (r, fs', os')" using run t1 t2 by (simp add: activate_def)
    ultimately show ?thesis using test_activated_dirs [of env rp t fs2 os2 r fs' os'] d1 by (auto simp: map_of_delete_other)
  next
    case False
    then have "r \<noteq> None \<and> (fs_dirs fs' = fs_dirs fs1 \<or> fs_dirs fs' = AList.delete rp (fs_dirs fs1))"
      using run t1
      by (auto simp: activate_def best_effort_def remove_dir_def elim!: replaceSymlink_cases split: prod.splits option.splits sum.splits if_splits)
    then show ?thesis using d1 by (auto simp: map_of_delete_other)
  qed
qed

lemma applyBundleFiles_dirs:
  assumes "applyBundleFiles env state files metadataFiles fs os = (r, fs', os')"
  shows "(map_of (fs_dirs fs) p \<noteq> None \<longrightarrow> map_of (fs_dirs fs') p \<noteq> None) \<and>
    (r = None \<longrightarrow> map_of (fs_dirs fs') (revision_path env state) \<noteq> None \<and> map_of (fs_dirs fs) (revision_path env state) = None)"
  using assms
proof (cases rule: applyBundleFiles_cases)
  case (2 os1)
  then show ?thesis using activate_dirs [OF 2(2), of p] by (cases "p = revision_path env state") (auto simp: update_conv')
qed auto

text \<open>What a call of \<open>Apply\<close> or \<open>ApplySplit\<close> that changes anything or succeeds has gone through.\<close>

lemma ApplySplit_parts:
  assumes "ApplySplit env state baseArtifact overrideArtifact fs os = (r, fs', os')" "r = None \<or> fs' \<noteq> fs"
  obtains b v bm bf om ovf baseRaw overrideRaw where
    "dst_BasePolicy state = Some b" "dst_OverridePolicy state = Some v" "or_RevisionID v = dst_RevisionID state"
    "verifyArtifact env baseArtifact (ar_SHA256 b) (ar_Signature b) = None"
    "verifyArtifact env overrideArtifact (or_SHA256 v) (or_Signature v) = None"
    "equal_fold (or_SHA256 v) (dst_SHA256 state)" "or_Signature v = dst_Signature state"
    "Parse (pe_sha256_hex env) (pe_decode env) (pe_unpack env) baseArtifact = Inr (bm, bf)"
    "Parse (pe_sha256_hex env) (pe_decode env) (pe_unpack env) overrideArtifact = Inr (om, ovf)"
    "composition_ok b v bm om" "fst ` set bf \<inter> fst ` set ovf = {}"
    "pe_marshal env bm = Some baseRaw" "pe_marshal env om = Some overrideRaw"
    "applyBundleFiles env state (bf @ ovf)
       [(''manifest.json'', baseRaw @ [newline]), (''override-manifest.json'', overrideRaw @ [newline])] fs os = (r, fs', os')"
proof -
  obtain b v where refs: "split_references_ok state = Some (b, v)"
    using assms by (cases "split_references_ok state") (auto simp: ApplySplit_def split: if_splits)
  obtain bm bf where pb: "Parse (pe_sha256_hex env) (pe_decode env) (pe_unpack env) baseArtifact = Inr (bm, bf)"
    using assms refs by (cases "Parse (pe_sha256_hex env) (pe_decode env) (pe_unpack env) baseArtifact") (auto simp: ApplySplit_def split: if_splits option.splits)
  obtain om ovf where po: "Parse (pe_sha256_hex env) (pe_decode env) (pe_unpack env) overrideArtifact = Inr (om, ovf)"
    using assms refs by (cases "Parse (pe_sha256_hex env) (pe_decode env) (pe_unpack env) overrideArtifact")
      (auto simp: ApplySplit_def split: if_splits option.splits sum.splits)
  have run: "apply_split_files env state (bm, bf) (om, ovf) fs os = (r, fs', os')" and ok:
    "or_RevisionID v = dst_RevisionID state" "verifyArtifact env baseArtifact (ar_SHA256 b) (ar_Signature b) = None"
    "verifyArtifact env overrideArtifact (or_SHA256 v) (or_Signature v) = None" "equal_fold (or_SHA256 v) (dst_SHA256 state)"
    "or_Signature v = dst_Signature state" "composition_ok b v bm om"
    using assms refs pb po by (auto simp: ApplySplit_def split: if_splits option.splits)
  have r2: "dst_BasePolicy state = Some b" "dst_OverridePolicy state = Some v"
    using refs by (auto simp: split_references_ok_def split: option.splits if_splits)
  obtain baseRaw overrideRaw where m: "pe_marshal env bm = Some baseRaw" "pe_marshal env om = Some overrideRaw"
    using run assms(2) by (auto simp: apply_split_files_def split: option.splits)
  have disj: "fst ` set bf \<inter> fst ` set ovf = {}"
  proof (cases "find (\<lambda>item. fst item \<in> fst ` set bf) ovf")
    case None
    then show ?thesis by (force simp: find_None_iff)
  next
    case (Some item)
    then show ?thesis using run assms(2) by (auto simp: apply_split_files_def)
  qed
  then have "find (\<lambda>item. fst item \<in> fst ` set bf) ovf = None" by (force simp: find_None_iff)
  then have files: "applyBundleFiles env state (bf @ ovf)
       [(''manifest.json'', baseRaw @ [newline]), (''override-manifest.json'', overrideRaw @ [newline])] fs os = (r, fs', os')"
    using run m by (simp add: apply_split_files_def)
  show ?thesis by (rule that [OF r2 ok(1-5) pb po ok(6) disj m files])
qed

lemma verifyArtifact_ok:
  "verifyArtifact env artifact h s = None \<longleftrightarrow> equal_fold (pe_sha256_hex env artifact) h \<and> pe_verify env artifact s"
  by (simp add: verifyArtifact_def)

lemma equal_fold_trans: "equal_fold a b \<Longrightarrow> equal_fold b c \<Longrightarrow> equal_fold a c"
  and equal_fold_sym: "equal_fold a b \<Longrightarrow> equal_fold b a"
  by (simp_all add: equal_fold_def)

text \<open>C23:
  The agent never lets anything unverified reach the web server. When a split policy is applied, or only changes the
  file system, both artifacts carried a valid signature and the digests of the desired state, both parsed, the
  override named this base artifact by its digest, and the two share no file; on success exactly their files and manifests are active.
\<close>

theorem split_policy_verified:
  assumes "ApplySplit env state baseArtifact overrideArtifact fs os = (r, fs', os')" and "r = None \<or> fs' \<noteq> fs"
    and "active_files env fs = Some d"
  shows "\<exists>b bm bf om ovf baseRaw overrideRaw. dst_BasePolicy state = Some b \<and>
    pe_verify env baseArtifact (ar_Signature b) \<and> equal_fold (pe_sha256_hex env baseArtifact) (ar_SHA256 b) \<and>
    pe_verify env overrideArtifact (dst_Signature state) \<and> equal_fold (pe_sha256_hex env overrideArtifact) (dst_SHA256 state) \<and>
    Parse (pe_sha256_hex env) (pe_decode env) (pe_unpack env) baseArtifact = Inr (bm, bf) \<and>
    Parse (pe_sha256_hex env) (pe_decode env) (pe_unpack env) overrideArtifact = Inr (om, ovf) \<and>
    m_BasePolicyID om = m_BasePolicyID bm \<and> equal_fold (m_BaseArtifactSHA256 om) (pe_sha256_hex env baseArtifact) \<and>
    fst ` set bf \<inter> fst ` set ovf = {} \<and> pe_marshal env bm = Some baseRaw \<and> pe_marshal env om = Some overrideRaw \<and>
    (r = None \<longrightarrow> active_files env fs' = Some (staged_files (bf @ ovf)
       [(''manifest.json'', baseRaw @ [newline]), (''override-manifest.json'', overrideRaw @ [newline])]))"
  using assms(1,2)
proof (rule ApplySplit_parts)
  fix b v bm bf om ovf baseRaw overrideRaw
  assume a: "dst_BasePolicy state = Some b" "verifyArtifact env baseArtifact (ar_SHA256 b) (ar_Signature b) = None"
    "verifyArtifact env overrideArtifact (or_SHA256 v) (or_Signature v) = None" "equal_fold (or_SHA256 v) (dst_SHA256 state)"
    "or_Signature v = dst_Signature state" "composition_ok b v bm om"
    "Parse (pe_sha256_hex env) (pe_decode env) (pe_unpack env) baseArtifact = Inr (bm, bf)"
    "Parse (pe_sha256_hex env) (pe_decode env) (pe_unpack env) overrideArtifact = Inr (om, ovf)"
    "fst ` set bf \<inter> fst ` set ovf = {}" "pe_marshal env bm = Some baseRaw" "pe_marshal env om = Some overrideRaw"
    and run: "applyBundleFiles env state (bf @ ovf)
       [(''manifest.json'', baseRaw @ [newline]), (''override-manifest.json'', overrideRaw @ [newline])] fs os = (r, fs', os')"
  note out = applyBundleFiles_outcome [OF run assms(3)]
  have "equal_fold (m_BaseArtifactSHA256 om) (pe_sha256_hex env baseArtifact)"
    using a(2,6) equal_fold_trans equal_fold_sym unfolding verifyArtifact_ok composition_ok_def by blast
  moreover have "equal_fold (pe_sha256_hex env overrideArtifact) (dst_SHA256 state)"
    using a(3,4) equal_fold_trans unfolding verifyArtifact_ok by blast
  moreover have "m_BasePolicyID om = m_BasePolicyID bm" using a(6) unfolding composition_ok_def by metis
  moreover have "r = None \<longrightarrow> active_files env fs' = Some (staged_files (bf @ ovf)
       [(''manifest.json'', baseRaw @ [newline]), (''override-manifest.json'', overrideRaw @ [newline])])"
    using out unfolding applied_or_kept_def by (cases r) simp_all
  moreover have "pe_verify env overrideArtifact (dst_Signature state)" using a(3,5) unfolding verifyArtifact_ok by metis
  ultimately show ?thesis using a(1,2,7-) unfolding verifyArtifact_ok by blast
qed

lemma write_active_dirs: "map_of (fs_dirs fs) p \<noteq> None \<Longrightarrow> map_of (fs_dirs (write_active env content fs)) p \<noteq> None"
  by (simp add: write_active_def update_conv' Let_def split: active_entry.split)

lemma apply_conf_dirs:
  assumes "apply_conf env previous artifact fs os = (r, fs', os')" "map_of (fs_dirs fs) p \<noteq> None"
  shows "map_of (fs_dirs fs') p \<noteq> None"
proof -
  have w: "map_of (fs_dirs (write_active env c (fs\<lparr>fs_previous_conf := x\<rparr>))) p \<noteq> None" for c x
    by (rule write_active_dirs) (simp add: assms(2))
  then have "map_of (fs_dirs (write_active env c' (write_active env c (fs\<lparr>fs_previous_conf := x\<rparr>)))) p \<noteq> None" for c' c x
    by (rule write_active_dirs)
  with w assms show ?thesis
    by (auto simp: apply_conf_def elim!: attempt_cases testAndReload_cases split: prod.splits option.splits)
qed

lemma Apply_cases:
  assumes "Apply env state artifact fs os = (r, fs', os')"
  obtains "fs' = fs" "r = None \<longrightarrow> dst_ArtifactFormat state \<notin> {Format, FormatV3}"
  | previous where "apply_conf env previous artifact fs os = (r, fs', os')" "dst_ArtifactFormat state \<notin> {Format, FormatV3}"
  | m files raw where "Parse (pe_sha256_hex env) (pe_decode env) (pe_unpack env) artifact = Inr (m, files)"
      "pe_marshal env m = Some raw" "applyBundleFiles env state files [(''manifest.json'', raw @ [newline])] fs os = (r, fs', os')"
proof (cases "verifyArtifact env artifact (dst_SHA256 state) (dst_Signature state)")
  case None
  then show thesis using assms that by (auto simp: Apply_def applyBundle_def Let_def split: if_splits option.splits sum.splits)
next
  case (Some e)
  then have "fs' = fs \<and> r \<noteq> None" using assms by (cases r) (auto simp: Apply_def Let_def split: if_splits)
  then show thesis using that(1) by auto
qed

lemma Apply_dirs:
  assumes "Apply env state artifact fs os = (r, fs', os')" "map_of (fs_dirs fs) p \<noteq> None"
  shows "map_of (fs_dirs fs') p \<noteq> None"
  using assms(1)
proof (cases rule: Apply_cases)
  case (3 m files raw)
  show ?thesis using applyBundleFiles_dirs [OF 3(3), of p] assms(2) by blast
qed (use assms(2) apply_conf_dirs in auto)

lemma ApplySplit_dirs:
  assumes "ApplySplit env state baseArtifact overrideArtifact fs os = (r, fs', os')"
  shows "(map_of (fs_dirs fs) p \<noteq> None \<longrightarrow> map_of (fs_dirs fs') p \<noteq> None) \<and>
    (r = None \<longrightarrow> map_of (fs_dirs fs') (revision_path env state) \<noteq> None \<and> map_of (fs_dirs fs) (revision_path env state) = None)"
proof (cases "r = None \<or> fs' \<noteq> fs")
  case True
  from assms this show ?thesis by (rule ApplySplit_parts) (rule applyBundleFiles_dirs)
qed auto

text \<open>Any number of policies applied after one another, at any time and with any outcome.\<close>

inductive policy_run :: "policy_env \<Rightarrow> policy_fs \<Rightarrow> policy_fs \<Rightarrow> bool" for env where
  run_refl: "policy_run env fs fs"
| run_apply: "policy_run env fs fs1 \<Longrightarrow> Apply (env\<lparr>pe_unix_now := t\<rparr>) state artifact fs1 os = (r, fs2, os') \<Longrightarrow> policy_run env fs fs2"
| run_split: "policy_run env fs fs1 \<Longrightarrow> ApplySplit (env\<lparr>pe_unix_now := t\<rparr>) state b v fs1 os = (r, fs2, os') \<Longrightarrow> policy_run env fs fs2"

lemma policy_run_dirs: "policy_run env fs fs' \<Longrightarrow> map_of (fs_dirs fs) p \<noteq> None \<Longrightarrow> map_of (fs_dirs fs') p \<noteq> None"
proof (induction rule: policy_run.induct)
  case (run_apply fs fs1 t state artifact os r fs2 os')
  then show ?case using Apply_dirs by blast
next
  case (run_split fs fs1 t state b v os r fs2 os')
  then show ?case using ApplySplit_dirs by blast
qed simp

lemma revision_path_now [simp]: "revision_path (env\<lparr>pe_unix_now := t\<rparr>) state = revision_path env state"
  by (simp add: revision_path_def revisionsPath_def activePath_def)

lemma Apply_bundle_dirs:
  assumes "Apply env state artifact fs os = (None, fs', os')" "dst_ArtifactFormat state \<in> {Format, FormatV3}"
  shows "map_of (fs_dirs fs') (revision_path env state) \<noteq> None"
  using assms(1)
proof (cases rule: Apply_cases)
  case (3 m files raw)
  show ?thesis using applyBundleFiles_dirs [OF 3(3)] by blast
qed (use assms(2) in auto)

text \<open>C35:
  A revision in one of the bundle formats can be applied only once. Directories of revisions are never removed after a success, and an
  existing directory ends every later attempt: after such a revision has been applied, as a split policy or as a bundle, and whatever
  policies were applied in between, applying the same revision again as a split policy or as a bundle, as a rollback to it does, never
  succeeds. (The single file of \<^verbatim>\<open>conf-v1\<close> has no directory and can be applied again.)
\<close>

theorem revision_applied_once:
  assumes "ApplySplit env state b v fs os = (None, fs1, os1) \<or>
      Apply env state a fs os = (None, fs1, os1) \<and> dst_ArtifactFormat state \<in> {Format, FormatV3}"
    and "policy_run env fs1 fs2"
    and "dst_RevisionID state' = dst_RevisionID state"
  shows "fst (ApplySplit (env\<lparr>pe_unix_now := t\<rparr>) state' b' v' fs2 os') \<noteq> None \<and>
    (dst_ArtifactFormat state' \<in> {Format, FormatV3} \<longrightarrow> fst (Apply (env\<lparr>pe_unix_now := t\<rparr>) state' a' fs2 os') \<noteq> None)"
proof -
  let ?env = "env\<lparr>pe_unix_now := t\<rparr>"
  have path: "revision_path ?env state' = revision_path env state"
    using assms(3) by (simp add: revision_path_def [of _ state'] revision_path_def [of _ state] revisionsPath_def activePath_def)
  have there: "map_of (fs_dirs fs2) (revision_path ?env state') \<noteq> None"
    unfolding path using policy_run_dirs [OF assms(2)] assms(1) ApplySplit_dirs [of env state b v fs os None fs1 os1]
      Apply_bundle_dirs [of env state a fs os fs1 os1] by blast
  have "fst (ApplySplit ?env state' b' v' fs2 os') \<noteq> None"
  proof -
    obtain r fs3 os3 where run: "ApplySplit ?env state' b' v' fs2 os' = (r, fs3, os3)" by (cases "ApplySplit ?env state' b' v' fs2 os'")
    then show ?thesis using ApplySplit_dirs [OF run, of "[]"] there by auto
  qed
  moreover have "fst (Apply ?env state' a' fs2 os') \<noteq> None" if "dst_ArtifactFormat state' \<in> {Format, FormatV3}"
  proof -
    obtain r fs3 os3 where run: "Apply ?env state' a' fs2 os' = (r, fs3, os3)" by (cases "Apply ?env state' a' fs2 os'")
    from this have "r \<noteq> None"
    proof (cases rule: Apply_cases)
      case (3 m files raw)
      then show ?thesis using applyBundleFiles_dirs [OF 3(3)] there by auto
    qed (use that in auto)
    with run show ?thesis by simp
  qed
  ultimately show ?thesis by blast
qed

section \<open>An example\<close>

definition agent_items :: "string list \<Rightarrow> directory" where
  "agent_items names = map (\<lambda>n. (n, [])) names"

definition agent_base_names :: "string list" where
  "agent_base_names = baseOrderedFiles @ [''crs/crs-setup.conf'']"

definition agent_digest :: string where
  "agent_digest = ''aaaaaaaaaaaaaaaaaaaaaaaaaaaaaaaaaaaaaaaaaaaaaaaaaaaaaaaaaaaaaaaa''"

definition agent_manifest :: "string \<Rightarrow> string list \<Rightarrow> Manifest" where
  "agent_manifest format names = (blank_manifest sample_source)\<lparr>m_SchemaVersion := 1, m_ArtifactFormat := format,
     m_BasePolicyID := ''base-1'', m_BaseArtifactSHA256 := agent_digest, m_OverrideConfigSHA256 := agent_digest,
     m_EffectiveConfigSHA256 := agent_digest, m_ValidationDigest := agent_digest,
     m_Files := map (file_manifest (\<lambda>_. agent_digest)) (agent_items names)\<rparr>"

definition agent_sample_env :: policy_env where
  "agent_sample_env =
     \<lparr>pe_PolicyPath = ''/etc/mwaf/active/policy.conf'', pe_webServer = ''nginx'', pe_hooks = False,
      pe_sha256_hex = (\<lambda>_. agent_digest), pe_verify = (\<lambda>_ signature. signature = ''signed''),
      pe_decode = (\<lambda>raw. Some (if raw = ''base'' then agent_manifest FormatBase agent_base_names
                               else agent_manifest FormatOverride overrideOrderedFiles)),
      pe_unpack = (\<lambda>raw. Some (map regular_entry ((''manifest.json'', raw) #
                       agent_items (if raw = ''base'' then agent_base_names else overrideOrderedFiles)), False)),
      pe_marshal = (\<lambda>_. Some []), pe_unix_now = 0\<rparr>"

definition agent_sample_state :: "string \<Rightarrow> DesiredState" where
  "agent_sample_state revision =
     \<lparr>dst_RevisionID = revision, dst_ArtifactURL = [], dst_ArtifactFormat = FormatOverride, dst_SHA256 = agent_digest,
      dst_Signature = ''signed'', dst_Mode = ''On'', dst_AgentPackageID = [], dst_ModulePackageID = [], dst_PackageDeployment = None,
      dst_BasePolicy = Some \<lparr>ar_ID = ''base-1'', ar_URL = [], ar_Format = FormatBase, ar_SHA256 = agent_digest, ar_Signature = ''signed''\<rparr>,
      dst_OverridePolicy = Some \<lparr>or_RevisionID = revision, or_URL = [], or_Format = FormatOverride, or_SHA256 = agent_digest, or_Signature = ''signed'',
        or_OverrideConfigSHA256 = agent_digest, or_EffectiveConfigSHA256 = agent_digest, or_ValidationDigest = agent_digest\<rparr>\<rparr>"

definition agent_sample_fs :: policy_fs where
  "agent_sample_fs = \<lparr>fs_active = Dir [(''policy.conf'', ''old'')], fs_dirs = [], fs_loaded = Some [(''policy.conf'', ''old'')],
     fs_previous_conf = None, fs_previous_revision = None\<rparr>"

lemma agent_sample_applied:
  "fst (ApplySplit agent_sample_env (agent_sample_state ''r1'') ''base'' ''override'' agent_sample_fs []) = None"
  "active_files agent_sample_env agent_sample_fs = Some [(''policy.conf'', ''old'')]"
  "fst (applyBundleFiles agent_sample_env (agent_sample_state ''r1'') [] [] agent_sample_fs (replicate 5 True @ [True, True, True, False])) = Some PolicyRejected"
  by code_simp+

lemma apply_atomic_witness:
  "\<exists>fs' os'. applyBundleFiles agent_sample_env (agent_sample_state ''r1'') [] [] agent_sample_fs (replicate 5 True @ [True, True, True, False]) =
       (Some PolicyRejected, fs', os') \<and> active_files agent_sample_env fs' = Some [(''policy.conf'', ''old'')]"
proof -
  let ?run = "applyBundleFiles agent_sample_env (agent_sample_state ''r1'') [] [] agent_sample_fs (replicate 5 True @ [True, True, True, False])"
  obtain fs' os' where run: "?run = (Some PolicyRejected, fs', os')" using agent_sample_applied(3) by (cases ?run) auto
  from apply_atomic [OF run agent_sample_applied(2)] run show ?thesis by auto
qed

lemma split_policy_verified_witness:
  "\<exists>fs' os' m files. ApplySplit agent_sample_env (agent_sample_state ''r1'') ''base'' ''override'' agent_sample_fs [] = (None, fs', os') \<and>
     Parse (\<lambda>_. agent_digest) (pe_decode agent_sample_env) (pe_unpack agent_sample_env) ''override'' = Inr (m, files) \<and>
     equal_fold (m_BaseArtifactSHA256 m) agent_digest"
proof -
  let ?run = "ApplySplit agent_sample_env (agent_sample_state ''r1'') ''base'' ''override'' agent_sample_fs []"
  obtain fs' os' where run: "?run = (None, fs', os')" using agent_sample_applied(1) by (cases ?run) auto
  have sha: "pe_sha256_hex agent_sample_env = (\<lambda>_. agent_digest)" by (simp add: agent_sample_env_def)
  from split_policy_verified [OF run disjI1 [OF refl] agent_sample_applied(2)] run show ?thesis unfolding sha by blast
qed

lemma revision_applied_once_witness:
  "\<exists>fs1 os1. ApplySplit agent_sample_env (agent_sample_state ''r1'') ''base'' ''override'' agent_sample_fs [] = (None, fs1, os1) \<and>
     fst (ApplySplit (agent_sample_env\<lparr>pe_unix_now := 9\<rparr>) (agent_sample_state ''r1'') ''base'' ''override'' fs1 []) \<noteq> None"
proof -
  let ?run = "ApplySplit agent_sample_env (agent_sample_state ''r1'') ''base'' ''override'' agent_sample_fs []"
  obtain fs1 os1 where run: "?run = (None, fs1, os1)" using agent_sample_applied(1) by (cases ?run) auto
  from revision_applied_once [OF disjI1 [OF run] run_refl refl] run show ?thesis by blast
qed

end
