(* ===== verification/Package_Catalog.thy ===== *)
theory Package_Catalog
  imports Package_Model Policy_Bundle
begin

text \<open>
  The signed package bundle of the Manager, \<^verbatim>\<open>src/internal/packages/catalog.go\<close>: loading with all checks, the resolution
  of agent, module and CRS packages for a server, rollback targets, and the signed hot rules. The files of the bundle,
  SHA-256, the JSON decoders and the key functions are arguments, the record \<open>catalog_env\<close>; the bundle directory does
  not change while the Manager runs.
\<close>

section \<open>Data\<close>

record HotRuleSetArtifact =
  hr_SchemaVersion :: int
  hr_Version :: string
  hr_RuleIDMin :: int
  hr_RuleIDMax :: int
  hr_SHA256 :: string
  hr_Rules :: string

record PolicySourceArtifact =
  ps_ID :: string
  ps_Provider :: string
  ps_Repository :: string
  ps_Channel :: string
  ps_Version :: string
  ps_Tag :: string
  ps_Commit :: string
  ps_TagObjectSHA :: string
  ps_TagSignatureVerified :: bool
  ps_ArchivePath :: string
  ps_ArchiveSize :: int
  ps_ArchiveSHA256 :: string
  ps_IndexPath :: string
  ps_IndexSize :: int
  ps_IndexSHA256 :: string
  ps_ArtifactFormat :: string
  ps_CompatiblePackageIDs :: "string list"

record BundleManifest =
  bm_SchemaVersion :: int
  bm_BundleVersion :: string
  bm_SourceCommit :: string
  bm_Artifacts :: "PackageArtifact list"
  bm_PolicySources :: "PolicySourceArtifact list"
  bm_HotRuleSet :: "HotRuleSetArtifact option"

text \<open>The parts of a CRS index that the catalog compares; the rules stay opaque.\<close>

record 'rule source_index =
  ix_SchemaVersion :: int
  ix_Provider :: string
  ix_Repository :: string
  ix_Channel :: string
  ix_Version :: string
  ix_Tag :: string
  ix_Commit :: string
  ix_ArchiveSHA256 :: string
  ix_RuleCount :: int
  ix_Rules :: "'rule list"

datatype public_key = NoPEM | NotPKIX | NotEd25519 | Ed25519 string

text \<open>A path of the file system: whether it is a regular file, and its content.\<close>

record 'rule catalog_env =
  ce_file :: "string \<Rightarrow> (bool \<times> string) option"
  ce_sha256_hex :: "string \<Rightarrow> string"
  ce_key :: "string \<Rightarrow> public_key"
  ce_unbase64 :: "string \<Rightarrow> string option"
  ce_verify :: "string \<Rightarrow> string \<Rightarrow> string \<Rightarrow> bool"
  ce_manifest :: "string \<Rightarrow> BundleManifest option"
  ce_index :: "string \<Rightarrow> 'rule source_index option"

record 'rule PackageCatalog =
  pc_root :: string
  pc_raw :: string
  pc_manifest :: BundleManifest
  pc_byID :: "string \<rightharpoonup> PackageArtifact"
  pc_sources :: "string \<rightharpoonup> PolicySourceArtifact"
  pc_indexes :: "string \<rightharpoonup> 'rule source_index"

datatype package_error =
  ManifestUnreadable | Unsigned | BadPublicKey public_key | BadSignatureText | BadSignature | BadManifest
| UnsupportedSchema int | SourcesRequired | VersionRequired | WrongCommit string
| HotMetadata | HotDigest | HotText | HotLine int | HotRuleID int
| MissingFields string | BadKind string | BadFormat string | AgentFormat string | ZipFields string | BadIntegration string
| BadDelivery string | AbiRequired string | UnsafePath string | NoFile string | SizeMismatch string | ChecksumMismatch string
| DuplicatePackage string | SourceIncomplete string | IndexMismatch string | IndexUndecodable string | MetadataMismatch string
| UnverifiedTag string | ArchiveMissing string | ArchiveMismatch string | MissingPackage string | DuplicateSource string

section \<open>Hot rules\<close>

text \<open>The pattern \<^verbatim>\<open>(?:^|[, \t"])(?:id):([0-9]+)(?:[,"]|$)\<close> and the list of its matches in a line.\<close>

definition hot_id_body :: "string \<Rightarrow> (string \<times> string) option" where
  "hot_id_body s =
     (if \<not> has_prefix s ''id:'' then None
      else let ds = takeWhile is_digit (drop 3 s)
           in if ds = [] then None
              else case dropWhile is_digit (drop 3 s) of
                     [] \<Rightarrow> Some (ds, [])
                   | c # cs \<Rightarrow> if c = CHR '','' \<or> c = dquote then Some (ds, cs) else None)"

definition hot_id_at :: "bool \<Rightarrow> string \<Rightarrow> (string \<times> string) option" where
  "hot_id_at start s =
     (case if start then hot_id_body s else None of
        Some m \<Rightarrow> Some m
      | None \<Rightarrow> (case s of
            [] \<Rightarrow> None
          | c # cs \<Rightarrow> if c \<in> {CHR '','', CHR '' '', tab, dquote} then hot_id_body cs else None))"

lemma hot_id_body_shorter: "hot_id_body s = Some (ds, rest) \<Longrightarrow> length rest < length s"
proof -
  assume "hot_id_body s = Some (ds, rest)"
  then have d: "takeWhile is_digit (drop 3 s) \<noteq> []" and r: "length rest \<le> length (dropWhile is_digit (drop 3 s))"
    by (auto simp: hot_id_body_def Let_def split: if_splits list.splits)
  have "length (takeWhile is_digit (drop 3 s)) + length (dropWhile is_digit (drop 3 s)) = length (drop 3 s)"
    by (metis length_append takeWhile_dropWhile_id)
  then show ?thesis using d r by (cases "takeWhile is_digit (drop 3 s)") auto
qed

lemma hot_id_at_shorter: "hot_id_at start s = Some (ds, rest) \<Longrightarrow> length rest < length s"
  by (auto simp: hot_id_at_def split: if_splits option.splits list.splits dest!: hot_id_body_shorter)

function hot_ids :: "bool \<Rightarrow> string \<Rightarrow> string list" where
  "hot_ids start s =
     (case hot_id_at start s of
        Some (ds, rest) \<Rightarrow> ds # hot_ids False rest
      | None \<Rightarrow> (case s of [] \<Rightarrow> [] | c # cs \<Rightarrow> hot_ids False cs))"
  by pat_completeness auto
termination by (relation "measure (length o snd)") (auto dest: hot_id_at_shorter)

declare hot_ids.simps [simp del]

definition hot_line :: "HotRuleSetArtifact \<Rightarrow> int set \<times> int \<Rightarrow> string \<Rightarrow> package_error + int set \<times> int" where
  "hot_line item st rawLine =
     (case st of (seen, n) \<Rightarrow>
        let line = trim_space rawLine
        in if line = [] \<or> has_prefix line ''#'' then Inr (seen, n + 1)
           else if len line > 16384 \<or> \<not> has_prefix line ''SecRule '' \<and> \<not> has_prefix line ''SecAction '' then Inl (HotLine (n + 1))
           else (case hot_ids True line of
                   [ds] \<Rightarrow> (case atoi ds of (rid, err) \<Rightarrow>
                       if err \<noteq> None \<or> rid < hr_RuleIDMin item \<or> rid > hr_RuleIDMax item \<or> rid \<in> seen then Inl (HotRuleID (n + 1))
                       else Inr (insert rid seen, n + 1))
                 | _ \<Rightarrow> Inl (HotRuleID (n + 1))))"

definition ValidateHotRuleSet :: "(string \<Rightarrow> string) \<Rightarrow> HotRuleSetArtifact option \<Rightarrow> package_error option" where
  "ValidateHotRuleSet sha hot =
     (case hot of None \<Rightarrow> None | Some item \<Rightarrow>
        if hr_SchemaVersion item \<noteq> 1 \<or> hr_Version item = [] \<or> hr_RuleIDMin item \<noteq> 10000 \<or> hr_RuleIDMax item \<noteq> 39999 \<or>
           len (hr_SHA256 item) \<noteq> 64 then Some HotMetadata
        else if \<not> equal_fold (sha (hr_Rules item)) (hr_SHA256 item) then Some HotDigest
        else if contains_any (hr_Rules item) [CHR 0x00, carriage_return] then Some HotText
        else case fold_result (hot_line item) ({}, 0) (split newline (hr_Rules item)) of Inl e \<Rightarrow> Some e | Inr _ \<Rightarrow> None)"

section \<open>Loading\<close>

definition verifyManifest :: "'rule catalog_env \<Rightarrow> string \<Rightarrow> string \<Rightarrow> string \<Rightarrow> bool \<Rightarrow> package_error option" where
  "verifyManifest env raw signaturePath publicKeyPath allowUnsigned =
     (case (ce_file env signaturePath, ce_file env publicKeyPath) of
        (Some (_, sigText), Some (_, keyText)) \<Rightarrow>
          (case ce_key env keyText of
             Ed25519 key \<Rightarrow>
               (case ce_unbase64 env (trim_space sigText) of
                  None \<Rightarrow> Some BadSignatureText
                | Some signature \<Rightarrow> if \<not> ce_verify env key raw signature then Some BadSignature else None)
           | bad \<Rightarrow> Some (BadPublicKey bad))
      | _ \<Rightarrow> if allowUnsigned then None else Some Unsigned)"

definition validateArtifact :: "'rule catalog_env \<Rightarrow> string \<Rightarrow> PackageArtifact \<Rightarrow> package_error option" where
  "validateArtifact env root a =
     (let format = NormalizePackageFormat (pa_PackageFormat a); mode = NormalizeIntegrationMode (pa_IntegrationMode a);
          clean = path_clean (pa_Path a); e = pa_ID a
      in if pa_ID a = [] \<or> pa_Name a = [] \<or> pa_Version a = [] \<or> pa_SHA256 a = [] \<or> pa_Path a = [] then Some (MissingFields e)
         else if pa_Kind a \<noteq> ''agent'' \<and> pa_Kind a \<noteq> ''module'' then Some (BadKind e)
         else if format \<noteq> PackageFormatDEB \<and> format \<noteq> PackageFormatZIP then Some (BadFormat e)
         else if pa_Kind a = ''agent'' \<and> format \<noteq> PackageFormatDEB then Some (AgentFormat e)
         else if format = PackageFormatZIP \<and>
                (pa_Kind a \<noteq> ''module'' \<or> pa_IntegrationMode a \<noteq> IntegrationModeExternal \<or> pa_WebServer a = [] \<or>
                 pa_WebServerVersion a = [] \<or> pa_WebServerBuild a = [] \<or> pa_RuntimeABI a = [] \<or> pa_InstallRoot a \<noteq> ''/opt/m-waf'')
              then Some (ZipFields e)
         else if pa_Kind a = ''module'' \<and> mode \<noteq> IntegrationModeDistro \<and> mode \<noteq> IntegrationModeExternal then Some (BadIntegration e)
         else if pa_Kind a = ''module'' \<and> pa_PolicyDelivery a \<noteq> [] \<and> pa_PolicyDelivery a \<noteq> ''embedded'' \<and>
                 pa_PolicyDelivery a \<noteq> ''bundle'' then Some (BadDelivery e)
         else if pa_Kind a = ''module'' \<and> pa_PolicyDelivery a = ''bundle'' \<and> pa_RuntimeABI a = [] then Some (AbiRequired e)
         else if unsafe_path clean then Some (UnsafePath e)
         else case ce_file env (path_join root clean) of
                None \<Rightarrow> Some (NoFile e)
              | Some (regular, content) \<Rightarrow>
                  if \<not> regular \<or> len content \<noteq> pa_Size a then Some (SizeMismatch e)
                  else if \<not> equal_fold (ce_sha256_hex env content) (pa_SHA256 a) then Some (ChecksumMismatch e)
                  else None)"

text \<open>Reading at most \<open>size + 1\<close> bytes and comparing length and digest.\<close>

definition read_checked :: "'rule catalog_env \<Rightarrow> string \<Rightarrow> int \<Rightarrow> string \<Rightarrow> (unit + string) option" where
  "read_checked env p bytes digest =
     (case ce_file env p of None \<Rightarrow> None | Some (_, content) \<Rightarrow>
        let raw = take (nat (bytes + 1)) content
        in if len raw \<noteq> bytes \<or> \<not> equal_fold (ce_sha256_hex env raw) digest then Some (Inl ()) else Some (Inr raw))"

definition validatePolicySource ::
  "'rule catalog_env \<Rightarrow> string \<Rightarrow> (string \<rightharpoonup> PackageArtifact) \<Rightarrow> PolicySourceArtifact \<Rightarrow> package_error + 'rule source_index" where
  "validatePolicySource env root byID s =
     (let e = ps_ID s; clean = path_clean (ps_IndexPath s); archive = path_clean (ps_ArchivePath s)
      in if ps_ID s = [] \<or> ps_Provider s \<noteq> ''github'' \<or> ps_Repository s \<noteq> ''https://github.com/coreruleset/coreruleset'' \<or>
            (ps_Channel s \<noteq> ''stable'' \<and> ps_Channel s \<noteq> ''lts'') \<or> \<not> has_prefix (ps_Tag s) ''v4.'' \<or> ps_Version s = [] \<or>
            ps_Commit s = [] \<or> len (ps_ArchiveSHA256 s) \<noteq> 64 \<or> len (ps_IndexSHA256 s) \<noteq> 64 \<or> ps_IndexSize s \<le> 0
         then Inl (SourceIncomplete e)
         else if unsafe_path clean then Inl (UnsafePath e)
         else case read_checked env (path_join root clean) (ps_IndexSize s) (ps_IndexSHA256 s) of
           None \<Rightarrow> Inl (NoFile e)
         | Some (Inl _) \<Rightarrow> Inl (IndexMismatch e)
         | Some (Inr raw) \<Rightarrow>
           (case ce_index env raw of
              None \<Rightarrow> Inl (IndexUndecodable e)
            | Some ix \<Rightarrow>
              if ix_SchemaVersion ix \<noteq> 1 \<or> ix_Provider ix \<noteq> ps_Provider s \<or> ix_Repository ix \<noteq> ps_Repository s \<or>
                 ix_Channel ix \<noteq> ps_Channel s \<or> trim_prefix (ix_Version ix) ''v'' \<noteq> trim_prefix (ps_Version s) ''v'' \<or>
                 ix_Tag ix \<noteq> ps_Tag s \<or> ix_Commit ix \<noteq> ps_Commit s \<or> \<not> equal_fold (ix_ArchiveSHA256 ix) (ps_ArchiveSHA256 s) \<or>
                 ix_RuleCount ix \<noteq> len (ix_Rules ix)
              then Inl (MetadataMismatch e)
              else
                let archive_error =
                  (if ps_ArtifactFormat s \<noteq> ''policy-bundle-v3'' then None
                   else if ps_TagObjectSHA s = [] \<or> \<not> ps_TagSignatureVerified s then Some (UnverifiedTag e)
                   else if ps_ArchivePath s = [] \<or> ps_ArchiveSize s \<le> 0 then Some (ArchiveMissing e)
                   else if unsafe_path archive then Some (UnsafePath e)
                   else case read_checked env (path_join root archive) (ps_ArchiveSize s) (ps_ArchiveSHA256 s) of
                          None \<Rightarrow> Some (NoFile e) | Some (Inl _) \<Rightarrow> Some (ArchiveMismatch e) | Some (Inr _) \<Rightarrow> None)
                in case archive_error of Some err \<Rightarrow> Inl err | None \<Rightarrow>
                     if list_ex (\<lambda>p. byID p = None) (ps_CompatiblePackageIDs s) then Inl (MissingPackage e) else Inr ix))"

definition add_artifact :: "'rule catalog_env \<Rightarrow> string \<Rightarrow> (string \<rightharpoonup> PackageArtifact) \<Rightarrow> PackageArtifact \<Rightarrow>
    package_error + (string \<rightharpoonup> PackageArtifact)" where
  "add_artifact env root byID a =
     (case validateArtifact env root a of
        Some e \<Rightarrow> Inl e
      | None \<Rightarrow> if byID (pa_ID a) \<noteq> None then Inl (DuplicatePackage (pa_ID a)) else Inr (byID(pa_ID a \<mapsto> a)))"

definition add_source :: "'rule catalog_env \<Rightarrow> string \<Rightarrow> (string \<rightharpoonup> PackageArtifact) \<Rightarrow>
    (string \<rightharpoonup> PolicySourceArtifact) \<times> (string \<rightharpoonup> 'rule source_index) \<Rightarrow> PolicySourceArtifact \<Rightarrow>
    package_error + (string \<rightharpoonup> PolicySourceArtifact) \<times> (string \<rightharpoonup> 'rule source_index)" where
  "add_source env root byID st s =
     (case validatePolicySource env root byID s of
        Inl e \<Rightarrow> Inl e
      | Inr ix \<Rightarrow> if fst st (ps_ID s) \<noteq> None then Inl (DuplicateSource (ps_ID s))
                 else Inr ((fst st)(ps_ID s \<mapsto> s), (snd st)(ps_ID s \<mapsto> ix)))"

definition Load_packages :: "'rule catalog_env \<Rightarrow> string \<Rightarrow> string \<Rightarrow> string \<Rightarrow> bool \<Rightarrow> package_error + 'rule PackageCatalog" where
  "Load_packages env root publicKeyPath expectedCommit allowUnsigned =
     (case ce_file env (path_join root ''bundle-manifest.json'') of
        None \<Rightarrow> Inl ManifestUnreadable
      | Some (_, raw) \<Rightarrow>
        (case verifyManifest env raw (path_join root ''bundle-manifest.sig'') publicKeyPath allowUnsigned of
           Some e \<Rightarrow> Inl e
         | None \<Rightarrow> (case ce_manifest env raw of
             None \<Rightarrow> Inl BadManifest
           | Some m \<Rightarrow>
             if bm_SchemaVersion m \<noteq> 1 \<and> bm_SchemaVersion m \<noteq> 2 then Inl (UnsupportedSchema (bm_SchemaVersion m))
             else if bm_SchemaVersion m = 2 \<and> bm_PolicySources m = [] then Inl SourcesRequired
             else if bm_BundleVersion m = [] \<or> bm_SourceCommit m = [] then Inl VersionRequired
             else case ValidateHotRuleSet (ce_sha256_hex env) (bm_HotRuleSet m) of
               Some e \<Rightarrow> Inl e
             | None \<Rightarrow>
               if expectedCommit \<noteq> [] \<and> expectedCommit \<noteq> ''unknown'' \<and> bm_SourceCommit m \<noteq> expectedCommit
               then Inl (WrongCommit (bm_SourceCommit m))
               else (case fold_result (add_artifact env root) (\<lambda>_. None) (bm_Artifacts m) of
                 Inl e \<Rightarrow> Inl e
               | Inr byID \<Rightarrow> (case fold_result (add_source env root byID) (\<lambda>_. None, \<lambda>_. None) (bm_PolicySources m) of
                   Inl e \<Rightarrow> Inl e
                 | Inr (sources, indexes) \<Rightarrow>
                     Inr \<lparr>pc_root = root, pc_raw = raw, pc_manifest = m, pc_byID = byID, pc_sources = sources, pc_indexes = indexes\<rparr>)))))"

section \<open>Queries\<close>

definition Artifact :: "'rule PackageCatalog \<Rightarrow> string \<Rightarrow> PackageArtifact option" where
  "Artifact c i = pc_byID c i"

definition PolicySource :: "'rule PackageCatalog \<Rightarrow> string \<Rightarrow> (PolicySourceArtifact \<times> 'rule source_index option) option" where
  "PolicySource c i = (case pc_sources c i of None \<Rightarrow> None | Some s \<Rightarrow> Some (s, pc_indexes c i))"

definition PolicySourceFiles :: "'rule catalog_env \<Rightarrow> (string \<Rightarrow> 'files option) \<Rightarrow> 'rule PackageCatalog \<Rightarrow> string \<Rightarrow> 'files option" where
  "PolicySourceFiles env PolicyFilesFromArchive c i =
     (case pc_sources c i of None \<Rightarrow> None | Some s \<Rightarrow>
        if ps_ArchivePath s = [] \<or> ps_ArchiveSize s \<le> 0 then None
        else if unsafe_path (path_clean (ps_ArchivePath s)) then None
        else case read_checked env (path_join (pc_root c) (path_clean (ps_ArchivePath s))) (ps_ArchiveSize s) (ps_ArchiveSHA256 s) of
               Some (Inr raw) \<Rightarrow> PolicyFilesFromArchive raw | _ \<Rightarrow> None)"

definition Open_package :: "'rule catalog_env \<Rightarrow> 'rule PackageCatalog \<Rightarrow> string \<Rightarrow> (PackageArtifact \<times> string) option" where
  "Open_package env c i =
     (case pc_byID c i of None \<Rightarrow> None | Some a \<Rightarrow>
        (case ce_file env (path_join (pc_root c) (pa_Path a)) of None \<Rightarrow> None | Some (_, content) \<Rightarrow> Some (a, content)))"

definition matchesBase :: "PackageArtifact \<Rightarrow> Inventory \<Rightarrow> bool" where
  "matchesBase a iv \<longleftrightarrow> pa_OSID a = iv_OSID iv \<and> pa_OSVersion a = iv_OSVersion iv \<and> pa_Architecture a = iv_Architecture iv"

definition rollback_target :: "PackageArtifact list \<Rightarrow> PackageArtifact \<Rightarrow> bool" where
  "rollback_target artifacts a \<longleftrightarrow> list_ex (\<lambda>b. pa_RollbackID b \<noteq> [] \<and> pa_RollbackID b = pa_ID a) artifacts"

definition desired_module_format :: "Inventory \<Rightarrow> string" where
  "desired_module_format iv = (if iv_InstallationMode iv = InstallationModeCustomZIP then PackageFormatZIP else PackageFormatDEB)"

definition module_candidate :: "Inventory \<Rightarrow> PackageArtifact \<Rightarrow> bool" where
  "module_candidate iv a \<longleftrightarrow>
     matchesBase a iv \<and> pa_Kind a = ''module'' \<and> NormalizePackageFormat (pa_PackageFormat a) = desired_module_format iv \<and>
     pa_WebServer a = iv_WebServer iv \<and>
     NormalizeIntegrationMode (pa_IntegrationMode a) = NormalizeIntegrationMode (iv_IntegrationMode iv) \<and>
     (if desired_module_format iv = PackageFormatZIP
      then \<not> (iv_WebServerVersion iv = [] \<or> pa_WebServerVersion a = [] \<or> pa_WebServerVersion a \<noteq> iv_WebServerVersion iv \<or>
              iv_WebServerBuild iv = [] \<or> pa_WebServerBuild a = [] \<or> pa_WebServerBuild a \<noteq> iv_WebServerBuild iv \<or>
              pa_InstallRoot a \<noteq> ''/opt/m-waf'')
      else \<not> (pa_WebServerVersion a \<noteq> [] \<and> pa_WebServerVersion a \<noteq> iv_WebServerVersion iv) \<and>
           \<not> (pa_WebServerBuild a \<noteq> [] \<and> pa_WebServerBuild a \<noteq> iv_WebServerBuild iv))"

text \<open>The loop of \<^verbatim>\<open>ResolveModule\<close> stops at a second match.\<close>

fun resolve_loop :: "(PackageArtifact \<Rightarrow> bool) \<Rightarrow> PackageArtifact option \<Rightarrow> PackageArtifact list \<Rightarrow> PackageArtifact option option" where
  "resolve_loop p found [] = Some found"
| "resolve_loop p found (a # as) =
     (if \<not> p a then resolve_loop p found as else if found \<noteq> None then None else resolve_loop p (Some a) as)"

definition ResolveModule :: "PackageArtifact list \<Rightarrow> Inventory \<Rightarrow> PackageArtifact option" where
  "ResolveModule artifacts iv =
     (case resolve_loop (\<lambda>a. \<not> rollback_target artifacts a \<and> module_candidate iv a) None artifacts of
        None \<Rightarrow> None | Some found \<Rightarrow> found)"

definition ResolveAgent :: "PackageArtifact list \<Rightarrow> Inventory \<Rightarrow> PackageArtifact option" where
  "ResolveAgent artifacts iv =
     (case filter (\<lambda>a. pa_Kind a = ''agent'' \<and> \<not> rollback_target artifacts a \<and> matchesBase a iv) artifacts of
        [a] \<Rightarrow> Some a | _ \<Rightarrow> None)"

definition Resolve :: "PackageArtifact list \<Rightarrow> Inventory \<Rightarrow> (PackageArtifact \<times> PackageArtifact) option" where
  "Resolve artifacts iv =
     (case ResolveAgent artifacts iv of None \<Rightarrow> None | Some agent \<Rightarrow>
        (case ResolveModule artifacts iv of None \<Rightarrow> None | Some mo \<Rightarrow> Some (agent, mo)))"

definition crs_module :: "Inventory \<Rightarrow> string \<Rightarrow> PackageArtifact \<Rightarrow> bool" where
  "crs_module iv crsVersion a \<longleftrightarrow>
     \<not> (pa_Kind a \<noteq> ''module'' \<or> \<not> matchesBase a iv \<or> pa_WebServer a \<noteq> iv_WebServer iv) \<and>
     NormalizePackageFormat (pa_PackageFormat a) = desired_module_format iv \<and>
     NormalizeIntegrationMode (pa_IntegrationMode a) = NormalizeIntegrationMode (iv_IntegrationMode iv) \<and>
     \<not> (pa_PolicyDelivery a \<noteq> ''bundle'' \<and> trim_prefix (pa_CRSVersion a) ''v'' \<noteq> trim_prefix crsVersion ''v'') \<and>
     \<not> (pa_WebServerVersion a \<noteq> [] \<and> pa_WebServerVersion a \<noteq> iv_WebServerVersion iv) \<and>
     \<not> (pa_WebServerBuild a \<noteq> [] \<and> pa_WebServerBuild a \<noteq> iv_WebServerBuild iv)"

definition ResolveCRS :: "PackageArtifact list \<Rightarrow> Inventory \<Rightarrow> string \<Rightarrow> (PackageArtifact \<times> PackageArtifact) option" where
  "ResolveCRS artifacts iv crsVersion =
     (let current = filter (\<lambda>a. crs_module iv crsVersion a \<and> \<not> rollback_target artifacts a) artifacts;
          previous = filter (\<lambda>a. crs_module iv crsVersion a \<and> rollback_target artifacts a) artifacts
      in case if current = [] then previous else current of
           [mo] \<Rightarrow> (case ResolveAgent artifacts iv of None \<Rightarrow> None | Some agent \<Rightarrow> Some (agent, mo))
         | _ \<Rightarrow> None)"

definition rollback_of :: "'rule PackageCatalog \<Rightarrow> string \<Rightarrow> string \<Rightarrow> PackageArtifact option" where
  "rollback_of c kind i =
     (case pc_byID c i of None \<Rightarrow> None | Some a \<Rightarrow>
        if pa_Kind a \<noteq> kind \<or> pa_RollbackID a = [] then None
        else case pc_byID c (pa_RollbackID a) of None \<Rightarrow> None | Some b \<Rightarrow> if pa_Kind b \<noteq> kind then None else Some b)"

definition RollbackAgent :: "'rule PackageCatalog \<Rightarrow> string \<Rightarrow> PackageArtifact option" where
  "RollbackAgent c i = rollback_of c ''agent'' i"

definition Rollback_packages :: "'rule PackageCatalog \<Rightarrow> string \<Rightarrow> string \<Rightarrow> (PackageArtifact \<times> PackageArtifact) option" where
  "Rollback_packages c agentID moduleID =
     (case rollback_of c ''agent'' agentID of None \<Rightarrow> None | Some a \<Rightarrow>
        (case rollback_of c ''module'' moduleID of None \<Rightarrow> None | Some mo \<Rightarrow> Some (a, mo)))"

section \<open>What is opened was checked\<close>

lemma add_artifact_iff:
  "add_artifact env root m b = Inr m1 \<longleftrightarrow> validateArtifact env root b = None \<and> m (pa_ID b) = None \<and> m1 = m(pa_ID b \<mapsto> b)"
  by (auto simp: add_artifact_def split: option.splits)

lemma fold_result_Cons_Inr: "fold_result f s (x # xs) = Inr t \<longleftrightarrow> (\<exists>s1. f s x = Inr s1 \<and> fold_result f s1 xs = Inr t)"
  by (auto split: sum.splits)

lemma add_artifacts:
  assumes "fold_result (add_artifact env root) m as = Inr m'"
  shows "(\<forall>a \<in> set as. validateArtifact env root a = None) \<and> distinct (map pa_ID as) \<and> (\<forall>a \<in> set as. m (pa_ID a) = None) \<and>
    (\<forall>i a. m' i = Some a \<longleftrightarrow> m i = Some a \<or> a \<in> set as \<and> pa_ID a = i)"
  using assms
proof (induction as arbitrary: m)
  case (Cons b as)
  have v: "validateArtifact env root b = None" "m (pa_ID b) = None"
    and f: "fold_result (add_artifact env root) (m(pa_ID b \<mapsto> b)) as = Inr m'"
    using Cons.prems by (auto simp only: fold_result_Cons_Inr add_artifact_iff)
  note IH = Cons.IH[OF f]
  have d: "pa_ID b \<notin> pa_ID ` set as" "\<forall>a \<in> set as. m (pa_ID a) = None"
    using IH by (auto split: if_splits)
  show ?case using IH v d by (auto split: if_splits)
qed simp

lemma LoadE:
  assumes "Load_packages env root publicKeyPath commit allowUnsigned = Inr c"
  obtains "pc_root c = root" "verifyManifest env (pc_raw c) (path_join root ''bundle-manifest.sig'') publicKeyPath allowUnsigned = None"
    "ce_manifest env (pc_raw c) = Some (pc_manifest c)"
    "ValidateHotRuleSet (ce_sha256_hex env) (bm_HotRuleSet (pc_manifest c)) = None"
    "fold_result (add_artifact env root) (\<lambda>_. None) (bm_Artifacts (pc_manifest c)) = Inr (pc_byID c)"
    "fold_result (add_source env root (pc_byID c)) (\<lambda>_. None, \<lambda>_. None) (bm_PolicySources (pc_manifest c)) =
       Inr (pc_sources c, pc_indexes c)"
  using assms by (auto simp: Load_packages_def split: option.splits if_splits sum.splits prod.splits)

lemma validateArtifactD:
  assumes "validateArtifact env root a = None"
  shows "\<exists>content. ce_file env (path_join root (path_clean (pa_Path a))) = Some (True, content) \<and> len content = pa_Size a \<and>
      equal_fold (ce_sha256_hex env content) (pa_SHA256 a)"
    "\<not> unsafe_path (path_clean (pa_Path a))" "pa_Kind a = ''agent'' \<or> pa_Kind a = ''module''"
  using assms by (auto simp: validateArtifact_def Let_def split: if_splits option.splits)

lemma verified_manifest:
  assumes "verifyManifest env raw sigPath keyPath False = None"
  shows "\<exists>keyText key sigText signature. ce_key env keyText = Ed25519 key \<and> ce_unbase64 env (trim_space sigText) = Some signature \<and>
    (\<exists>b. ce_file env keyPath = Some (b, keyText)) \<and> ce_verify env key raw signature"
  using assms by (auto simp: verifyManifest_def split: option.splits public_key.splits if_splits) blast

text \<open>C28:
  A package that the Manager hands out is one of the signed manifest: the bytes served have the size and the digest
  stated there, the manifest carries a valid signature, and the file lies below the bundle directory, whatever path the
  manifest states.
\<close>

theorem opened_package_verified:
  assumes "Load_packages env (CHR ''/'' # join ''/'' rs) keyPath commit False = Inr c" and "list_all plain_part rs"
    and "Open_package env c i = Some (a, content)"
  shows "a \<in> set (bm_Artifacts (pc_manifest c)) \<and> pa_ID a = i \<and> ce_manifest env (pc_raw c) = Some (pc_manifest c) \<and>
    len content = pa_Size a \<and> equal_fold (ce_sha256_hex env content) (pa_SHA256 a) \<and>
    (\<exists>keyText key signature. ce_key env keyText = Ed25519 key \<and> ce_verify env key (pc_raw c) signature) \<and>
    (\<exists>ws. ws \<noteq> [] \<and> list_all plain_part ws \<and> path_join (pc_root c) (pa_Path a) = CHR ''/'' # join ''/'' (rs @ ws))"
proof (rule LoadE[OF assms(1)])
  let ?root = "CHR ''/'' # join ''/'' rs"
  assume root: "pc_root c = ?root" and m: "ce_manifest env (pc_raw c) = Some (pc_manifest c)"
    and sig: "verifyManifest env (pc_raw c) (path_join ?root ''bundle-manifest.sig'') keyPath False = None"
    and load: "fold_result (add_artifact env ?root) (\<lambda>_. None) (bm_Artifacts (pc_manifest c)) = Inr (pc_byID c)"
  have open_it: "pc_byID c i = Some a" "\<exists>b. ce_file env (path_join ?root (pa_Path a)) = Some (b, content)"
    using assms(3) root by (auto simp: Open_package_def split: option.splits)
  have a: "a \<in> set (bm_Artifacts (pc_manifest c))" "pa_ID a = i" "validateArtifact env ?root a = None"
    using add_artifacts[OF load] open_it(1) by auto
  obtain ws where ws: "ws \<noteq> []" "list_all plain_part ws" "path_join ?root (pa_Path a) = CHR ''/'' # join ''/'' (rs @ ws)"
    "path_join ?root (path_clean (pa_Path a)) = CHR ''/'' # join ''/'' (rs @ ws)"
    by (rule safe_path_below[OF assms(2) validateArtifactD(2)[OF a(3)]])
  have "len content = pa_Size a \<and> equal_fold (ce_sha256_hex env content) (pa_SHA256 a)"
    using validateArtifactD(1)[OF a(3)] open_it(2) ws(3,4) by auto
  moreover have "\<exists>keyText key signature. ce_key env keyText = Ed25519 key \<and> ce_verify env key (pc_raw c) signature"
    using verified_manifest[OF sig] by (elim exE conjE) (intro exI conjI)
  moreover have "\<exists>ws. ws \<noteq> [] \<and> list_all plain_part ws \<and> path_join (pc_root c) (pa_Path a) = CHR ''/'' # join ''/'' (rs @ ws)"
    using ws(1-3) root by (intro exI conjI) auto
  ultimately show ?thesis using a(1,2) m by (simp only: simp_thms)
qed

section \<open>Packages for a server\<close>

lemma resolve_loop_Some: "resolve_loop p (Some a) as = Some found \<longleftrightarrow> filter p as = [] \<and> found = Some a"
  by (induction as) auto

lemma resolve_loop_unique: "(\<exists>found. resolve_loop p None as = Some found \<and> found = Some a) \<longleftrightarrow> filter p as = [a]"
  by (induction as) (auto simp: resolve_loop_Some)

lemma ResolveModule_unique:
  "ResolveModule artifacts iv = Some mo \<longleftrightarrow>
     filter (\<lambda>a. \<not> rollback_target artifacts a \<and> module_candidate iv a) artifacts = [mo]"
  using resolve_loop_unique[of "\<lambda>a. \<not> rollback_target artifacts a \<and> module_candidate iv a" artifacts mo]
  by (auto simp: ResolveModule_def split: option.splits)

lemma ResolveAgent_unique:
  "ResolveAgent artifacts iv = Some a \<longleftrightarrow>
     filter (\<lambda>a. pa_Kind a = ''agent'' \<and> \<not> rollback_target artifacts a \<and> matchesBase a iv) artifacts = [a]"
  by (auto simp: ResolveAgent_def split: list.splits)

lemma rollback_is_target:
  assumes "rollback_of c kind i = Some b" "\<And>j a. pc_byID c j = Some a \<Longrightarrow> a \<in> set artifacts \<and> pa_ID a = j"
  shows "rollback_target artifacts b"
  using assms(1) assms(2) by (auto simp: rollback_of_def rollback_target_def list_ex_iff split: option.splits if_splits)

text \<open>
  The packages chosen for a server are the only ones of the bundle that fit it: never two candidates and never a package
  kept for rollback only. They are found again under their identifiers, fit the system of the server, and the package an
  agent falls back to is never the one that is offered as an update to any server.
\<close>

theorem resolution_unique:
  assumes "Load_packages env root keyPath commit allowUnsigned = Inr c"
    and "Resolve (bm_Artifacts (pc_manifest c)) iv = Some (agent, mo)"
  shows "filter (\<lambda>a. pa_Kind a = ''agent'' \<and> \<not> rollback_target (bm_Artifacts (pc_manifest c)) a \<and> matchesBase a iv)
      (bm_Artifacts (pc_manifest c)) = [agent] \<and>
    filter (\<lambda>a. \<not> rollback_target (bm_Artifacts (pc_manifest c)) a \<and> module_candidate iv a) (bm_Artifacts (pc_manifest c)) = [mo] \<and>
    Artifact c (pa_ID agent) = Some agent \<and> Artifact c (pa_ID mo) = Some mo \<and> matchesBase mo iv \<and>
    pa_WebServer mo = iv_WebServer iv \<and>
    (\<forall>b iv'. RollbackAgent c (pa_ID agent) = Some b \<longrightarrow> ResolveAgent (bm_Artifacts (pc_manifest c)) iv' \<noteq> Some b)"
proof (rule LoadE[OF assms(1)])
  let ?as = "bm_Artifacts (pc_manifest c)"
  assume load: "fold_result (add_artifact env root) (\<lambda>_. None) ?as = Inr (pc_byID c)"
  have byID: "pc_byID c i = Some a \<longleftrightarrow> a \<in> set ?as \<and> pa_ID a = i" for i a
    using add_artifacts[OF load] by auto
  have agent: "filter (\<lambda>a. pa_Kind a = ''agent'' \<and> \<not> rollback_target ?as a \<and> matchesBase a iv) ?as = [agent]"
    and mo: "filter (\<lambda>a. \<not> rollback_target ?as a \<and> module_candidate iv a) ?as = [mo]"
    using assms(2) by (auto simp: Resolve_def ResolveAgent_unique ResolveModule_unique split: option.splits)
  have "agent \<in> set (filter (\<lambda>a. pa_Kind a = ''agent'' \<and> \<not> rollback_target ?as a \<and> matchesBase a iv) ?as)"
    "mo \<in> set (filter (\<lambda>a. \<not> rollback_target ?as a \<and> module_candidate iv a) ?as)"
    unfolding agent mo by simp_all
  then have "agent \<in> set ?as" "mo \<in> set ?as" "module_candidate iv mo" by auto
  moreover have "ResolveAgent ?as iv' \<noteq> Some b" if "RollbackAgent c (pa_ID agent) = Some b" for b iv'
  proof -
    have "rollback_target ?as b" using rollback_is_target that byID unfolding RollbackAgent_def by blast
    moreover have "\<not> rollback_target ?as b" if "ResolveAgent ?as iv' = Some b"
    proof -
      have "b \<in> set (filter (\<lambda>a. pa_Kind a = ''agent'' \<and> \<not> rollback_target ?as a \<and> matchesBase a iv') ?as)"
        using that unfolding ResolveAgent_unique by (simp only: list.set_intros)
      then show ?thesis by simp
    qed
    ultimately show ?thesis by blast
  qed
  ultimately show ?thesis using agent mo byID by (auto simp: Artifact_def module_candidate_def)
qed

section \<open>Identifiers of hot rules\<close>

definition hot_rule_lines :: "string \<Rightarrow> string list" where
  "hot_rule_lines rules = filter (\<lambda>l. l \<noteq> [] \<and> \<not> has_prefix l ''#'') (map trim_space (split newline rules))"

lemma hot_line_skips:
  "trim_space l = [] \<or> has_prefix (trim_space l) ''#'' \<Longrightarrow> hot_line item (seen, n) l = Inr (seen, n + 1)"
  by (auto simp: hot_line_def Let_def)

lemma hot_lineE:
  assumes "hot_line item (seen, n) l = Inr st" "\<not> (trim_space l = [] \<or> has_prefix (trim_space l) ''#'')"
  obtains ds i where "hot_ids True (trim_space l) = [ds]" "atoi ds = (i, None)" "hr_RuleIDMin item \<le> i" "i \<le> hr_RuleIDMax item"
    "i \<notin> seen" "st = (insert i seen, n + 1)"
  using assms by (auto simp: hot_line_def Let_def split: if_splits list.splits prod.splits)

lemma hot_lines:
  assumes "fold_result (hot_line item) (seen, n) ls = Inr st"
  shows "\<exists>ids. distinct ids \<and> set ids \<inter> seen = {} \<and> set ids \<subseteq> {hr_RuleIDMin item..hr_RuleIDMax item} \<and>
    list_all2 (\<lambda>l i. \<exists>ds. hot_ids True l = [ds] \<and> atoi ds = (i, None))
      (filter (\<lambda>l. l \<noteq> [] \<and> \<not> has_prefix l ''#'') (map trim_space ls)) ids"
  using assms
proof (induction ls arbitrary: seen n)
  case (Cons l ls)
  obtain st1 where h: "hot_line item (seen, n) l = Inr st1" and f: "fold_result (hot_line item) st1 ls = Inr st"
    using Cons.prems by (auto simp only: fold_result_Cons_Inr)
  show ?case
  proof (cases "trim_space l = [] \<or> has_prefix (trim_space l) ''#''")
    case True
    from Cons.IH[of seen "n + 1"] h f hot_line_skips[OF True] show ?thesis using True by auto
  next
    case False
    obtain ds i where d: "hot_ids True (trim_space l) = [ds]" "atoi ds = (i, None)" "hr_RuleIDMin item \<le> i"
      "i \<le> hr_RuleIDMax item" "i \<notin> seen" "st1 = (insert i seen, n + 1)"
      by (rule hot_lineE[OF h False])
    obtain ids where ids: "distinct ids" "set ids \<inter> insert i seen = {}" "set ids \<subseteq> {hr_RuleIDMin item..hr_RuleIDMax item}"
      "list_all2 (\<lambda>l i. \<exists>ds. hot_ids True l = [ds] \<and> atoi ds = (i, None))
        (filter (\<lambda>l. l \<noteq> [] \<and> \<not> has_prefix l ''#'') (map trim_space ls)) ids"
      using Cons.IH f d(6) by blast
    show ?thesis
      by (rule exI[of _ "i # ids"]) (use ids d False in auto)
  qed
qed simp

text \<open>
  In a bundle that loads every line of the hot rule set that is no comment carries one identifier that the scanner finds, and
  these identifiers are pairwise different and in the range of the system.
\<close>

theorem hot_rule_ids:
  assumes "Load_packages env root keyPath commit allowUnsigned = Inr c" and "bm_HotRuleSet (pc_manifest c) = Some item"
  shows "\<exists>ids. distinct ids \<and> set ids \<subseteq> {systemRuleIDMin..systemRuleIDMax} \<and>
    list_all2 (\<lambda>line i. \<exists>ds. hot_ids True line = [ds] \<and> atoi ds = (i, None)) (hot_rule_lines (hr_Rules item)) ids"
proof (rule LoadE[OF assms(1)])
  assume v: "ValidateHotRuleSet (ce_sha256_hex env) (bm_HotRuleSet (pc_manifest c)) = None"
  then obtain st where f: "fold_result (hot_line item) ({}, 0) (split newline (hr_Rules item)) = Inr st"
    and r: "hr_RuleIDMin item = 10000" "hr_RuleIDMax item = 39999"
    using assms(2) by (auto simp: ValidateHotRuleSet_def split: if_splits sum.splits)
  show ?thesis using hot_lines[OF f] r unfolding hot_rule_lines_def rule_id_bounds by auto
qed

section \<open>A bundle\<close>

text \<open>
  A bundle with an agent, the agent it falls back to, and a module; every file has its own text as digest. It loads, and
  the theorems apply to it.
\<close>

definition sample_package :: "string \<Rightarrow> string \<Rightarrow> string \<Rightarrow> string \<Rightarrow> PackageArtifact" where
  "sample_package i kind server rollback =
     \<lparr>pa_ID = i, pa_Kind = kind, pa_Name = i, pa_Version = ''1.0'', pa_OSID = ''ubuntu'', pa_OSVersion = ''24.04'', pa_Architecture = ''amd64'',
      pa_WebServer = server, pa_WebServerVersion = [], pa_WebServerBuild = [], pa_CRSVersion = [], pa_IntegrationMode = [],
      pa_RuntimeABI = [], pa_PolicyDelivery = [], pa_Path = ''packages/'' @ i, pa_Size = 3, pa_SHA256 = ''abc'', pa_RollbackID = rollback,
      pa_PackageFormat = [], pa_InstallRoot = []\<rparr>"

definition sample_hot :: HotRuleSetArtifact where
  "sample_hot = \<lparr>hr_SchemaVersion = 1, hr_Version = ''1'', hr_RuleIDMin = 10000, hr_RuleIDMax = 39999, hr_SHA256 = replicate 64 CHR ''a'',
     hr_Rules = ''SecAction '' @ [dquote] @ ''id:10001,pass'' @ [dquote]\<rparr>"

definition sample_bundle :: BundleManifest where
  "sample_bundle = \<lparr>bm_SchemaVersion = 1, bm_BundleVersion = ''1'', bm_SourceCommit = ''c0ffee'',
     bm_Artifacts = [sample_package ''agent-2'' ''agent'' [] ''agent-1'', sample_package ''agent-1'' ''agent'' [] [],
       sample_package ''module-1'' ''module'' ''nginx'' []],
     bm_PolicySources = [], bm_HotRuleSet = Some sample_hot\<rparr>"

definition sample_catalog_env :: "nat catalog_env" where
  "sample_catalog_env = \<lparr>ce_file = \<lambda>p. Some (True, if p = ''/srv/bundle-manifest.json'' then ''manifest'' else ''ABC''),
     ce_sha256_hex = \<lambda>s. if s = ''ABC'' then ''abc'' else replicate 64 CHR ''a'', ce_key = \<lambda>_. Ed25519 ''key'',
     ce_unbase64 = Some, ce_verify = \<lambda>k raw signature. True, ce_manifest = \<lambda>_. Some sample_bundle, ce_index = \<lambda>_. None\<rparr>"

definition sample_catalog :: "nat PackageCatalog" where
  "sample_catalog = \<lparr>pc_root = ''/srv'', pc_raw = ''manifest'', pc_manifest = sample_bundle,
     pc_byID = (\<lambda>_. None)(''agent-2'' \<mapsto> sample_package ''agent-2'' ''agent'' [] ''agent-1'',
       ''agent-1'' \<mapsto> sample_package ''agent-1'' ''agent'' [] [], ''module-1'' \<mapsto> sample_package ''module-1'' ''module'' ''nginx'' []),
     pc_sources = \<lambda>_. None, pc_indexes = \<lambda>_. None\<rparr>"

lemma sample_package_valid:
  assumes "(i, kind, server, rollback) \<in> {(''agent-2'', ''agent'', [], ''agent-1''), (''agent-1'', ''agent'', [], []), (''module-1'', ''module'', ''nginx'', [])}"
  shows "validateArtifact sample_catalog_env ''/srv'' (sample_package i kind server rollback) = None"
  using assms by (elim insertE; simp; code_simp)

lemma sample_hot_valid: "ValidateHotRuleSet (ce_sha256_hex sample_catalog_env) (Some sample_hot) = None"
  by code_simp

lemma sample_loads: "Load_packages sample_catalog_env (CHR ''/'' # join ''/'' [''srv'']) ''/key'' [] False = Inr sample_catalog"
proof -
  have p: "path_join ''/srv'' ''bundle-manifest.json'' = ''/srv/bundle-manifest.json''"
    "path_join ''/srv'' ''bundle-manifest.sig'' = ''/srv/bundle-manifest.sig''" by code_simp+
  have m: "ce_file sample_catalog_env ''/srv/bundle-manifest.json'' = Some (True, ''manifest'')"
    "verifyManifest sample_catalog_env ''manifest'' ''/srv/bundle-manifest.sig'' ''/key'' False = None"
    "ce_manifest sample_catalog_env ''manifest'' = Some sample_bundle"
    by (simp_all add: sample_catalog_env_def verifyManifest_def)
  have a: "fold_result (add_artifact sample_catalog_env ''/srv'') (\<lambda>_. None) (bm_Artifacts sample_bundle) = Inr (pc_byID sample_catalog)"
    by (simp add: sample_bundle_def sample_catalog_def add_artifact_def sample_package_valid) (simp add: sample_package_def)
  show ?thesis
    using p m a sample_hot_valid
    by (simp add: Load_packages_def) (simp add: sample_bundle_def sample_catalog_def)
qed

theorem opened_package_verified_witness:
  "Open_package sample_catalog_env sample_catalog ''agent-1'' = Some (sample_package ''agent-1'' ''agent'' [] [], ''ABC'') \<and>
   equal_fold (ce_sha256_hex sample_catalog_env ''ABC'') ''abc'' \<and>
   (\<exists>ws. ws \<noteq> [] \<and> path_join ''/srv'' ''packages/agent-1'' = CHR ''/'' # join ''/'' ([''srv''] @ ws))"
proof -
  have o: "Open_package sample_catalog_env sample_catalog ''agent-1'' = Some (sample_package ''agent-1'' ''agent'' [] [], ''ABC'')"
    by code_simp
  have r: "list_all plain_part [''srv'']" by code_simp
  show ?thesis using opened_package_verified[OF sample_loads r o] o
    by (auto simp: sample_package_def sample_catalog_def)
qed

definition sample_inventory :: Inventory where
  "sample_inventory = \<lparr>iv_OSID = ''ubuntu'', iv_OSVersion = ''24.04'', iv_Architecture = ''amd64'', iv_WebServer = ''nginx'',
     iv_WebServerVersion = ''1.24'', iv_WebServerBuild = [], iv_IntegrationMode = [], iv_InstallationMode = [], iv_AgentVersion = ''1.0'',
     iv_ModuleVersion = [], iv_ConfigTestOK = True, iv_IntegrationReady = True, iv_WebServerControl = [], iv_WebServerCandidates = []\<rparr>"

theorem resolution_unique_witness:
  "Resolve (bm_Artifacts (pc_manifest sample_catalog)) sample_inventory =
     Some (sample_package ''agent-2'' ''agent'' [] ''agent-1'', sample_package ''module-1'' ''module'' ''nginx'' []) \<and>
   RollbackAgent sample_catalog ''agent-2'' = Some (sample_package ''agent-1'' ''agent'' [] []) \<and>
   ResolveAgent (bm_Artifacts (pc_manifest sample_catalog)) sample_inventory \<noteq> Some (sample_package ''agent-1'' ''agent'' [] [])"
proof -
  have r: "Resolve (bm_Artifacts (pc_manifest sample_catalog)) sample_inventory =
      Some (sample_package ''agent-2'' ''agent'' [] ''agent-1'', sample_package ''module-1'' ''module'' ''nginx'' [])"
    by code_simp
  have b: "RollbackAgent sample_catalog ''agent-2'' = Some (sample_package ''agent-1'' ''agent'' [] [])" by code_simp
  show ?thesis using resolution_unique[OF sample_loads r] r b by (simp add: sample_package_def)
qed

theorem hot_rule_ids_witness:
  "\<exists>ids. distinct ids \<and> set ids \<subseteq> {systemRuleIDMin..systemRuleIDMax} \<and> length ids = 1 \<and>
     length (hot_rule_lines (hr_Rules sample_hot)) = 1"
proof -
  have h: "bm_HotRuleSet (pc_manifest sample_catalog) = Some sample_hot" by (simp add: sample_catalog_def sample_bundle_def)
  obtain ids where ids: "distinct ids" "set ids \<subseteq> {systemRuleIDMin..systemRuleIDMax}"
    "length (hot_rule_lines (hr_Rules sample_hot)) = length ids"
    using hot_rule_ids[OF sample_loads h] list_all2_lengthD by blast
  have "length (hot_rule_lines (hr_Rules sample_hot)) = 1" by code_simp
  then show ?thesis using ids by auto
qed

text \<open>The separator of a match is consumed: a second identifier right behind the first is not found.\<close>

lemma hot_second_id_missed: "hot_ids True (''SecAction '' @ [dquote] @ ''id:10001,id:10002,pass'' @ [dquote]) = [''10001'']"
  by code_simp

end
