(* ===== verification/Agent_Delivery.thy ===== *)
theory Agent_Delivery
  imports Agent_Policy Policy_Revision Package_Catalog
begin

text \<open>
  From the Manager to the Agent: the desired state a server is sent (\<^verbatim>\<open>DesiredState\<close> in
  \<^verbatim>\<open>src/internal/manager/store.go\<close>), built from the row of its revision, and what the Agent makes of it. The theorem joins
  the preparation of a split delivery on the Manager with the verification on the Agent: what is
  prepared and signed there is accepted here. The archive codec and the signature are those of
  \<^verbatim>\<open>Policy_Bundle\<close> and \<^verbatim>\<open>Agent_Policy\<close>.
\<close>

section \<open>The desired state\<close>

text \<open>
  The columns of the revision, the selected packages, and identifier and detail of the package deployment; a missing row or
  a value that is NULL is empty.
\<close>

record revision_columns =
  rc_ID :: string
  rc_ArtifactPath :: string
  rc_SHA256 :: string
  rc_Signature :: string
  rc_Mode :: string
  rc_Settings :: "PolicySettings option"
  rc_AgentPackage :: string
  rc_ModulePackage :: string
  rc_PackageDeployment :: "(string \<times> string) option"

definition delivery_of :: "revision_columns \<Rightarrow> PolicyDeliveryMetadata option" where
  "delivery_of c = (case rc_Settings c of None \<Rightarrow> None | Some s \<Rightarrow> s_Delivery s)"

definition artifact_format_of :: "revision_columns \<Rightarrow> string" where
  "artifact_format_of c = (case rc_Settings c of None \<Rightarrow> [] | Some s \<Rightarrow> s_ArtifactFormat s)"

definition split_references_of ::
  "revision_columns \<Rightarrow> (PolicyArtifactReference \<times> PolicyOverrideReference) option" where
  "split_references_of c =
     (case delivery_of c of
        None \<Rightarrow> None
      | Some md \<Rightarrow>
          if dm_Format md \<noteq> policyDeliveryFormatSplit then None
          else Some
            (\<lparr>ar_ID = dm_BasePolicyID md, ar_URL = [], ar_Format = FormatBase, ar_SHA256 = dm_BaseArtifactSHA256 md,
              ar_Signature = dm_BaseArtifactSignature md\<rparr>,
             \<lparr>or_RevisionID = rc_ID c, or_URL = [], or_Format = artifact_format_of c, or_SHA256 = rc_SHA256 c, or_Signature = rc_Signature c,
              or_OverrideConfigSHA256 = dm_OverrideConfigSHA256 md, or_EffectiveConfigSHA256 = dm_EffectiveConfigSHA256 md,
              or_ValidationDigest = dm_ValidationDigest md\<rparr>))"

definition package_deployment_of :: "plan_env \<Rightarrow> revision_columns \<Rightarrow> PackageDeployment option" where
  "package_deployment_of env c =
     (case rc_PackageDeployment c of
        None \<Rightarrow> None
      | Some (i, detail) \<Rightarrow>
          let p = decodePackageDeploymentPlan env detail
          in Some \<lparr>pk_ID = i, pk_Scope = pl_Scope p, pk_WebServerControl = pl_WebServerControl p, pk_Agent = no_download,
                   pk_Module = no_download, pk_RollbackAgent = no_download\<rparr>)"

definition Store_DesiredState :: "plan_env \<Rightarrow> revision_columns \<Rightarrow> DesiredState" where
  "Store_DesiredState env c =
     \<lparr>dst_RevisionID = rc_ID c,
      dst_ArtifactURL = rc_ArtifactPath c,
      dst_ArtifactFormat =
        (if artifact_format_of c \<noteq> [] then artifact_format_of c
         else if has_suffix (rc_ArtifactPath c) ''.tar.gz'' then ''policy-bundle-v2''
         else if rc_ArtifactPath c \<noteq> [] then ''conf-v1'' else []),
      dst_SHA256 = rc_SHA256 c, dst_Signature = rc_Signature c,
      dst_Mode = (if rc_Mode c = [] then ''DetectionOnly'' else rc_Mode c),
      dst_AgentPackageID = rc_AgentPackage c, dst_ModulePackageID = rc_ModulePackage c,
      dst_PackageDeployment = package_deployment_of env c,
      dst_BasePolicy = map_option fst (split_references_of c),
      dst_OverridePolicy = map_option snd (split_references_of c)\<rparr>"

text \<open>The handler of the agent's request: addresses of the artifacts, and the packages of the deployment from the catalog.\<close>

definition packageDownloadMetadata :: "PackageArtifact \<Rightarrow> string \<Rightarrow> PackageDownload" where
  "packageDownloadMetadata a url =
     \<lparr>pd_ID = pa_ID a, pd_Name = pa_Name a, pd_Version = pa_Version a, pd_URL = url, pd_Size = pa_Size a, pd_SHA256 = pa_SHA256 a,
      pd_RollbackID = pa_RollbackID a, pd_Format = NormalizePackageFormat (pa_PackageFormat a), pd_InstallRoot = pa_InstallRoot a,
      pd_WebServer = pa_WebServer a, pd_WebServerBuild = pa_WebServerBuild a, pd_IntegrationMode = pa_IntegrationMode a,
      pd_RuntimeABI = pa_RuntimeABI a\<rparr>"

definition agentPackageDownload :: "PackageArtifact \<Rightarrow> PackageDownload" where
  "agentPackageDownload a = packageDownloadMetadata a (''/agent/v1/packages/'' @ trim_space (pa_ID a))"

definition with_addresses :: "DesiredState \<Rightarrow> DesiredState" where
  "with_addresses s =
     (if dst_RevisionID s = [] then s
      else let url = ''/agent/v1/artifacts/'' @ trim_space (dst_RevisionID s)
           in s\<lparr>dst_ArtifactURL := url,
                dst_OverridePolicy := map_option (or_URL_update (\<lambda>_. url)) (dst_OverridePolicy s),
                dst_BasePolicy := map_option (ar_URL_update (\<lambda>_. ''/agent/v1/base-artifacts/'' @ trim_space (dst_RevisionID s)))
                  (dst_BasePolicy s)\<rparr>)"

definition complete_deployment :: "'rule PackageCatalog \<Rightarrow> DesiredState \<Rightarrow> PackageDeployment \<Rightarrow> PackageDeployment option" where
  "complete_deployment c s d =
     (case Artifact c (dst_AgentPackageID s) of
        None \<Rightarrow> None
      | Some agent \<Rightarrow>
          let d1 = d\<lparr>pk_Agent := agentPackageDownload agent\<rparr>
          in if NormalizePackageScope (pk_Scope d) = PackageScopeAgent
             then Some (case RollbackAgent c (pa_ID agent) of None \<Rightarrow> d1 | Some b \<Rightarrow> d1\<lparr>pk_RollbackAgent := agentPackageDownload b\<rparr>)
             else (case Artifact c (dst_ModulePackageID s) of
                     None \<Rightarrow> None
                   | Some mo \<Rightarrow> Some (d1\<lparr>pk_Module := agentPackageDownload mo\<rparr>)))"

definition Server_desiredState :: "'rule PackageCatalog option \<Rightarrow> DesiredState \<Rightarrow> DesiredState option" where
  "Server_desiredState catalog state =
     (let s = with_addresses state
      in case dst_PackageDeployment s of
           None \<Rightarrow> Some s
         | Some d \<Rightarrow> (case catalog of None \<Rightarrow> None | Some c \<Rightarrow>
             (case complete_deployment c s d of None \<Rightarrow> None | Some d1 \<Rightarrow> Some (s\<lparr>dst_PackageDeployment := Some d1\<rparr>))))"

section \<open>What is built is what is parsed\<close>

text \<open>An archive that was built and that parses yields the manifest and the file names it was built from.\<close>

lemma entries_are_items:
  assumes "fold_result entry_step (files, tot) (map regular_entry items) = Inr st"
  shows "fst st = files @ items"
  using assms
proof (induction items arbitrary: files tot)
  case (Cons item items)
  then obtain st1 where "entry_step (files, tot) (regular_entry item) = Inr st1" "fold_result entry_step st1 (map regular_entry items) = Inr st"
    by (auto split: sum.splits)
  moreover from this(1) have "fst st1 = files @ [item]" by (auto simp: entry_step_iff regular_entry_def)
  ultimately show ?case using Cons.IH [of "fst st1" "snd st1"] by (cases st1) simp
qed auto

lemma built_parsed:
  assumes built: "buildArchive sha encode pack source format version files names seed = Inr (raw, m)" and seed: "m_Files seed = []"
    and codec: "codec_ok encode decode pack unpack" and parsed: "Parse sha decode unpack raw = Inr (m', files')"
  shows "(\<exists>fl. m' = seed\<lparr>m_SchemaVersion := version, m_ArtifactFormat := format, m_PolicySource := source, m_Files := fl\<rparr>) \<and>
    fst ` set files' \<subseteq> set names \<and> 0 < len raw"
proof (rule buildArchive_parts [OF built seed])
  fix items mraw
  assume items: "map fst items = names"
    and m: "m = seed\<lparr>m_SchemaVersion := version, m_ArtifactFormat := format, m_PolicySource := source, m_Files := map (file_manifest sha) items\<rparr>"
    and enc: "encode m = Some mraw" and raw: "raw = pack ((''manifest.json'', mraw @ [newline]) # items)"
  let ?all = "(''manifest.json'', mraw @ [newline]) # items"
  have unpack: "unpack raw = Some (map regular_entry ?all, False)" and dec: "decode (mraw @ [newline]) = Some m" and ne: "raw \<noteq> []"
    using codec enc unfolding codec_ok_def raw by blast+
  obtain st where loop: "fold_result entry_step ([], 0) (map regular_entry ?all) = Inr st"
    using parsed unpack unfolding Parse_def by (auto split: if_splits sum.splits)
  have all: "fst st = ?all" using entries_are_items [OF loop] by simp
  have "check_manifest sha m ?all = Inr (m', files')"
    using parsed unpack loop all dec unfolding Parse_def by (cases st) (simp split: if_splits)
  then have "m' = m" "files' = filter (\<lambda>item. fst item \<noteq> ''manifest.json'') ?all"
    by (auto simp: check_manifest_def split: if_splits sum.splits)
  moreover have "fst ` set items = set names" using items by (metis list.set_map)
  ultimately show ?thesis using m ne by auto
qed

lemma render_split_built:
  assumes "render_split env t crsSource b c source files ss so = Inr (overrideRaw, baseRaw, md)"
  obtains bm om input sig where
    "BuildBaseWithCRS (de_sha256_hex env) (de_encode env) (de_pack env) (Reference t) crsSource
       (policyBundleInputFromConfiguration b) files = Inr (baseRaw, bm)"
    "BuildOverride (de_sha256_hex env) (de_encode env) (de_pack env) crsSource input
       \<lparr>om_BasePolicyID = Reference t, om_BaseArtifactSHA256 = dm_BaseArtifactSHA256 md,
        om_OverrideConfigSHA256 = dm_OverrideConfigSHA256 md, om_EffectiveConfigSHA256 = dm_EffectiveConfigSHA256 md,
        om_ValidationDigest = dm_ValidationDigest md\<rparr> = Inr (overrideRaw, om)"
    "de_Sign env baseRaw = (dm_BaseArtifactSHA256 md, dm_BaseArtifactSignature md)"
    "dm_BasePolicyID md = Reference t" "dm_Format md = policyDeliveryFormatSplit"
  using assms that
  by (auto simp: render_split_def Let_def split: sum.splits option.splits if_splits prod.splits)

lemma base_built_parsed:
  assumes built: "BuildBaseWithCRS sha encode pack basePolicyID source input crsFiles = Inr (raw, m)"
    and codec: "codec_ok encode decode pack unpack" and parsed: "Parse sha decode unpack raw = Inr (m', files')"
  shows "m_ArtifactFormat m' = FormatBase \<and> m_BasePolicyID m' = basePolicyID \<and> m_PolicySource m' = source \<and>
    fst ` set files' \<subseteq> set baseOrderedFiles \<union> {n. has_prefix n ''crs/''} \<and> 0 < len raw \<and> len raw \<le> total_limit"
proof -
  have arch: "buildArchive sha encode pack source FormatBase 1 (base_core input @ crsFiles)
      (baseOrderedFiles @ sort_by (<) (map fst crsFiles)) ((blank_manifest source)\<lparr>m_BasePolicyID := basePolicyID\<rparr>) = Inr (raw, m)"
    and crs: "\<forall>item \<in> set crsFiles. crs_file_ok item"
    using built by (auto simp: BuildBaseWithCRS_def map_of_eq_None_iff first_error_if_None split: if_splits option.splits)
  have "len raw \<le> total_limit" by (rule buildArchive_parts [OF arch]) (simp_all add: blank_manifest_def)
  moreover have "fst ` set crsFiles \<subseteq> {n. has_prefix n ''crs/''}" using crs by (auto simp: crs_file_ok_def)
  moreover note built_parsed [OF arch _ codec parsed]
  moreover from this have "fst ` set files' \<subseteq> set baseOrderedFiles \<union> fst ` set crsFiles" by (simp add: blank_manifest_def)
  ultimately have "fst ` set files' \<subseteq> set baseOrderedFiles \<union> {n. has_prefix n ''crs/''}" by blast
  with \<open>len raw \<le> total_limit\<close> built_parsed [OF arch _ codec parsed] show ?thesis by (auto simp: blank_manifest_def)
qed

lemma override_built_parsed:
  assumes built: "BuildOverride sha encode pack source input md = Inr (raw, m)"
    and codec: "codec_ok encode decode pack unpack" and parsed: "Parse sha decode unpack raw = Inr (m', files')"
  shows "m_ArtifactFormat m' = FormatOverride \<and> m_BasePolicyID m' = om_BasePolicyID md \<and> m_BaseArtifactSHA256 m' = om_BaseArtifactSHA256 md \<and>
    m_OverrideConfigSHA256 m' = om_OverrideConfigSHA256 md \<and> m_EffectiveConfigSHA256 m' = om_EffectiveConfigSHA256 md \<and>
    m_ValidationDigest m' = om_ValidationDigest md \<and> m_PolicySource m' = source \<and>
    fst ` set files' \<subseteq> set overrideOrderedFiles \<and> 0 < len raw \<and> len raw \<le> small_limit"
proof -
  obtain names seed files where arch: "buildArchive sha encode pack source FormatOverride 1 files overrideOrderedFiles
      ((blank_manifest source)\<lparr>m_BasePolicyID := om_BasePolicyID md, m_BaseArtifactSHA256 := om_BaseArtifactSHA256 md,
       m_OverrideConfigSHA256 := om_OverrideConfigSHA256 md, m_EffectiveConfigSHA256 := om_EffectiveConfigSHA256 md,
       m_ValidationDigest := om_ValidationDigest md\<rparr>) = Inr (raw, m)"
    using built by (auto simp: BuildOverride_def split: if_splits)
  have "len raw \<le> small_limit"
    using arch by (auto simp: buildArchive_def is_self_contained_def Let_def split: sum.splits if_splits option.splits)
  with built_parsed [OF arch _ codec parsed] show ?thesis by (auto simp: blank_manifest_def)
qed

section \<open>The Agent accepts what the Manager prepared\<close>

text \<open>The Agent uses the same codec as the Manager and has the public key of its signer.\<close>

definition agent_of :: "delivery_env \<Rightarrow> policy_env \<Rightarrow> bool" where
  "agent_of env pe \<longleftrightarrow>
     codec_ok (de_encode env) (de_decode env) (de_pack env) (de_unpack env) \<and>
     pe_sha256_hex pe = de_sha256_hex env \<and> pe_decode pe = de_decode env \<and> pe_unpack pe = de_unpack env \<and>
     (\<forall>m. pe_marshal pe m \<noteq> None) \<and>
     (\<forall>raw hash signature. de_Sign env raw = (hash, signature) \<longrightarrow> hash = de_sha256_hex env raw \<and> pe_verify pe raw signature)"

lemma files_disjoint:
  assumes "fst ` set bf \<subseteq> set baseOrderedFiles \<union> {n. has_prefix n ''crs/''}" "fst ` set ovf \<subseteq> set overrideOrderedFiles"
  shows "find (\<lambda>item. fst item \<in> fst ` set bf) ovf = None"
proof -
  have "\<forall>n \<in> set overrideOrderedFiles. n \<notin> set baseOrderedFiles \<and> \<not> has_prefix n ''crs/''" by code_simp
  with assms show ?thesis unfolding find_None_iff by blast
qed

text \<open>The handler keeps everything but the addresses and the package of a deployment.\<close>

lemma with_addresses_fields:
  "\<exists>f. dst_BasePolicy (with_addresses s) = map_option (ar_URL_update f) (dst_BasePolicy s)"
  "\<exists>f. dst_OverridePolicy (with_addresses s) = map_option (or_URL_update f) (dst_OverridePolicy s)"
proof -
  have id: "ar_URL_update (\<lambda>u. u) = (\<lambda>r. r)" "or_URL_update (\<lambda>u. u) = (\<lambda>r. r)" by (rule ext; simp)+
  have same: "dst_BasePolicy s = map_option (ar_URL_update (\<lambda>u. u)) (dst_BasePolicy s)"
    "dst_OverridePolicy s = map_option (or_URL_update (\<lambda>u. u)) (dst_OverridePolicy s)"
    by (simp_all add: id option.map_ident)
  show "\<exists>f. dst_BasePolicy (with_addresses s) = map_option (ar_URL_update f) (dst_BasePolicy s)"
  proof (cases "dst_RevisionID s = []")
    case True
    then show ?thesis using same(1) unfolding with_addresses_def if_P[OF True] by blast
  qed (auto simp: with_addresses_def Let_def)
  show "\<exists>f. dst_OverridePolicy (with_addresses s) = map_option (or_URL_update f) (dst_OverridePolicy s)"
  proof (cases "dst_RevisionID s = []")
    case True
    then show ?thesis using same(2) unfolding with_addresses_def if_P[OF True] by blast
  qed (auto simp: with_addresses_def Let_def)
qed

lemma desiredStateE:
  assumes "Server_desiredState catalog s = Some d"
  obtains f g where "dst_RevisionID d = dst_RevisionID s" "dst_ArtifactFormat d = dst_ArtifactFormat s" "dst_SHA256 d = dst_SHA256 s"
    "dst_Signature d = dst_Signature s" "dst_Mode d = dst_Mode s"
    "dst_BasePolicy d = map_option (ar_URL_update f) (dst_BasePolicy s)"
    "dst_OverridePolicy d = map_option (or_URL_update g) (dst_OverridePolicy s)"
proof -
  obtain f g where u: "dst_BasePolicy (with_addresses s) = map_option (ar_URL_update f) (dst_BasePolicy s)"
    "dst_OverridePolicy (with_addresses s) = map_option (or_URL_update g) (dst_OverridePolicy s)"
    using with_addresses_fields by blast
  have e: "d = (with_addresses s)\<lparr>dst_PackageDeployment := dst_PackageDeployment d\<rparr>"
    using assms by (auto simp: Server_desiredState_def Let_def split: option.splits)
  have "dst_RevisionID d = dst_RevisionID s \<and> dst_ArtifactFormat d = dst_ArtifactFormat s \<and> dst_SHA256 d = dst_SHA256 s \<and>
    dst_Signature d = dst_Signature s \<and> dst_Mode d = dst_Mode s \<and>
    dst_BasePolicy d = dst_BasePolicy (with_addresses s) \<and> dst_OverridePolicy d = dst_OverridePolicy (with_addresses s)"
    by (subst (1 2 3 4 5 6 7) e) (simp add: with_addresses_def Let_def)
  then show ?thesis using that u by auto
qed

text \<open>C11:
  The Agent accepts what the Manager prepared. When a split delivery has been prepared, written and signed, the
  desired state that the handler answers for the revision passes every check of the Agent on the two artifacts: formats,
  sizes, digests, signatures, parsing, composition and disjoint file names. What remains is the activation, whatever
  the state of the server.
\<close>

theorem prepared_delivery_accepted:
  assumes "prepareSplitPolicyArtifacts env t c ss so = Inr (overrideRaw, baseRaw, md)" and "agent_of env pe"
    and "de_Sign env overrideRaw = (rc_SHA256 cols, rc_Signature cols)" and "mode_ok (rc_Mode cols)"
    and "rc_Settings cols = Some settings" "s_Delivery settings = Some md" "s_ArtifactFormat settings = FormatOverride"
    and "Server_desiredState catalog (Store_DesiredState plans cols) = Some desired"
  shows "dst_ArtifactFormat desired = FormatOverride \<and> (\<exists>files metadata. \<forall>fs os.
    ApplySplit pe desired baseRaw overrideRaw fs os = applyBundleFiles pe desired files metadata fs os)"
proof -
  obtain crsSource b source cf where r: "render_split env t crsSource b c source cf ss so = Inr (overrideRaw, baseRaw, md)"
    by (rule prepareSplit_parts [OF assms(1)])
  have codec: "codec_ok (de_encode env) (de_decode env) (de_pack env) (de_unpack env)" using assms(2) by (simp add: agent_of_def)
  obtain bm bf om ovf where parsed: "Parse (de_sha256_hex env) (de_decode env) (de_unpack env) baseRaw = Inr (bm, bf)"
    "Parse (de_sha256_hex env) (de_decode env) (de_unpack env) overrideRaw = Inr (om, ovf)"
    using render_split_parts(1) [OF r] by blast
  have pe: "pe_sha256_hex pe = de_sha256_hex env" "pe_decode pe = de_decode env" "pe_unpack pe = de_unpack env"
    using assms(2) by (simp_all add: agent_of_def)
  obtain braw oraw where raws: "pe_marshal pe bm = Some braw" "pe_marshal pe om = Some oraw"
    using assms(2) unfolding agent_of_def by blast
  show ?thesis
    using r
  proof (rule render_split_built)
    fix m1 m2 input sig
    assume b: "BuildBaseWithCRS (de_sha256_hex env) (de_encode env) (de_pack env) (Reference t) crsSource
        (policyBundleInputFromConfiguration b) cf = Inr (baseRaw, m1)"
      and o: "BuildOverride (de_sha256_hex env) (de_encode env) (de_pack env) crsSource input
        \<lparr>om_BasePolicyID = Reference t, om_BaseArtifactSHA256 = dm_BaseArtifactSHA256 md,
         om_OverrideConfigSHA256 = dm_OverrideConfigSHA256 md, om_EffectiveConfigSHA256 = dm_EffectiveConfigSHA256 md,
         om_ValidationDigest = dm_ValidationDigest md\<rparr> = Inr (overrideRaw, m2)"
      and s: "de_Sign env baseRaw = (dm_BaseArtifactSHA256 md, dm_BaseArtifactSignature md)"
      and id: "dm_BasePolicyID md = Reference t" "dm_Format md = policyDeliveryFormatSplit"
    note base = base_built_parsed [OF b codec parsed(1)] and override = override_built_parsed [OF o codec parsed(2)]
    obtain f g where d: "dst_RevisionID desired = rc_ID cols" "dst_ArtifactFormat desired = FormatOverride"
      "dst_SHA256 desired = rc_SHA256 cols" "dst_Signature desired = rc_Signature cols"
      "dst_Mode desired = (if rc_Mode cols = [] then ''DetectionOnly'' else rc_Mode cols)"
      "dst_BasePolicy desired = map_option (ar_URL_update f) (map_option fst (split_references_of cols))"
      "dst_OverridePolicy desired = map_option (or_URL_update g) (map_option snd (split_references_of cols))"
      by (rule desiredStateE[OF assms(8)])
        (use assms(5,7) in \<open>simp_all add: Store_DesiredState_def artifact_format_of_def bundle_formats\<close>)
    let ?st = "desired"
    let ?b = "\<lparr>ar_ID = dm_BasePolicyID md, ar_URL = f [], ar_Format = FormatBase, ar_SHA256 = dm_BaseArtifactSHA256 md, ar_Signature = dm_BaseArtifactSignature md\<rparr>"
    let ?v = "\<lparr>or_RevisionID = rc_ID cols, or_URL = g [], or_Format = FormatOverride, or_SHA256 = rc_SHA256 cols, or_Signature = rc_Signature cols,
      or_OverrideConfigSHA256 = dm_OverrideConfigSHA256 md, or_EffectiveConfigSHA256 = dm_EffectiveConfigSHA256 md,
      or_ValidationDigest = dm_ValidationDigest md\<rparr>"
    have st: "split_references_ok ?st = Some (?b, ?v)" "dst_RevisionID ?st = rc_ID cols" "mode_ok (dst_Mode ?st)"
      "dst_SHA256 ?st = rc_SHA256 cols" "dst_Signature ?st = rc_Signature cols"
      using assms(4-7) id d by (auto simp: split_references_ok_def split_references_of_def delivery_of_def
        artifact_format_of_def mode_ok_def bundle_formats)
    have checked: "verifyArtifact pe baseRaw (ar_SHA256 ?b) (ar_Signature ?b) = None" "verifyArtifact pe overrideRaw (or_SHA256 ?v) (or_Signature ?v) = None"
      using assms(2,3) s by (auto simp: agent_of_def verifyArtifact_ok)
    have comp: "composition_ok ?b ?v bm om" using base override id by (simp add: composition_ok_def)
    have sizes: "0 < len baseRaw" "len baseRaw \<le> 67108864" "0 < len overrideRaw" "len overrideRaw \<le> 4194304"
      using base override by (simp_all add: total_limit_def small_limit_def)
    then have ne: "baseRaw \<noteq> []" "overrideRaw \<noteq> []" by auto
    have disj: "find (\<lambda>item. fst item \<in> fst ` set bf) ovf = None" using base override by (blast intro: files_disjoint)
    have "ApplySplit pe ?st baseRaw overrideRaw fs os = applyBundleFiles pe ?st (bf @ ovf)
        [(''manifest.json'', braw @ [newline]), (''override-manifest.json'', oraw @ [newline])] fs os" for fs os
      unfolding ApplySplit_def st option.case prod.case pe parsed sum.case using ne sizes checked comp disj raws
      by (simp add: st apply_split_files_def)
    then show ?thesis using d(2) by blast
  qed
qed

definition delivery_sample_env :: policy_env where
  "delivery_sample_env = agent_sample_env\<lparr>pe_sha256_hex := sample_sha, pe_decode := split_decode, pe_unpack := sample_unpack,
     pe_verify := (\<lambda>_ _. True)\<rparr>"

definition delivery_sample_columns :: "PolicyDeliveryMetadata \<Rightarrow> revision_columns" where
  "delivery_sample_columns md =
     \<lparr>rc_ID = ''r1'', rc_ArtifactPath = ''policies/r1.override.tar.gz'', rc_SHA256 = split_digest, rc_Signature = [], rc_Mode = ''On'',
      rc_Settings = Some ((transition_settings baseline_template [])\<lparr>s_Delivery := Some md, s_ArtifactFormat := FormatOverride\<rparr>),
      rc_AgentPackage = ''agent-2'', rc_ModulePackage = ''module-1'', rc_PackageDeployment = None\<rparr>"

lemma delivery_sample_agent: "agent_of split_env delivery_sample_env"
  using split_codec by (simp add: agent_of_def split_env_def delivery_sample_env_def agent_sample_env_def split_digest_def sample_sha_def)

lemma delivered_settings:
  "s_Delivery (s\<lparr>s_Delivery := Some md, s_ArtifactFormat := x\<rparr>) = Some md" "s_ArtifactFormat (s\<lparr>s_Delivery := Some md, s_ArtifactFormat := x\<rparr>) = x"
  by (cases s; simp)+

definition delivery_sample_desired :: "PolicyDeliveryMetadata \<Rightarrow> DesiredState" where
  "delivery_sample_desired md = with_addresses (Store_DesiredState sample_plan_env (delivery_sample_columns md))"

lemma delivery_sample_answer:
  "Server_desiredState (Some sample_catalog) (Store_DesiredState sample_plan_env (delivery_sample_columns md)) =
     Some (delivery_sample_desired md)"
  by (simp add: Server_desiredState_def delivery_sample_desired_def with_addresses_def Store_DesiredState_def
      delivery_sample_columns_def package_deployment_of_def Let_def)

theorem prepared_delivery_accepted_witness:
  "\<exists>overrideRaw baseRaw md files metadata. \<forall>fs os.
     ApplySplit delivery_sample_env (delivery_sample_desired md) baseRaw overrideRaw fs os =
     applyBundleFiles delivery_sample_env (delivery_sample_desired md) files metadata fs os"
proof -
  obtain overrideRaw baseRaw md where
    r: "prepareSplitPolicyArtifacts split_env split_template split_configuration PolicyScalarSourceInherit None = Inr (overrideRaw, baseRaw, md)"
    by (rule split_prepared)
  have "dst_ArtifactFormat (delivery_sample_desired md) = FormatOverride \<and> (\<exists>files metadata. \<forall>fs os.
     ApplySplit delivery_sample_env (delivery_sample_desired md) baseRaw overrideRaw fs os =
     applyBundleFiles delivery_sample_env (delivery_sample_desired md) files metadata fs os)"
    by (rule prepared_delivery_accepted [OF r delivery_sample_agent _ _ _ delivered_settings delivery_sample_answer])
      (simp_all add: delivery_sample_columns_def split_env_def mode_ok_def)
  then show ?thesis by blast
qed

end
