(* ===== verification/Agent_Control.thy ===== *)
theory Agent_Control
  imports Agent_Policy
begin

text \<open>
  The control loop of the agent (\<^verbatim>\<open>runControlCycle\<close> in \<^verbatim>\<open>src/internal/agent/agent.go\<close>) with the package
  deployments and the commands of \<^verbatim>\<open>src/internal/agent/operations.go\<close>. One cycle sends a heartbeat, fetches the desired
  state, applies a new policy, installs a new package deployment or executes one command.

  The state \<open>control\<close> holds the files of the state directory, the policy files of \<^verbatim>\<open>Agent_Policy\<close>, the memory of the
  process, a log of what was sent to the Manager and done to the host, and a list of outcomes: every call that can fail takes
  the next one. Something sent is logged when it is sent, because the Manager may have received it although the call failed.
  What the host and the Manager answer in a cycle is the record \<open>cycle_input\<close>. A step is a function from a state to an
  error or a result and the next state; \<open>bnd\<close> and \<open>andThen\<close> sequence steps and stop at the first error, as the early
  returns do. The texts of reports and errors are left out. A \<^verbatim>\<open>desired-state.json\<close> that was written can be read: the code
  treats a file that it cannot read or decode like one that is missing.
\<close>

section \<open>State and steps\<close>

datatype control_event =
  HeartbeatSent string string string
| PolicyResultSent string string
| PackageResultSent string string
| PackagesInstalled "string list"
| ModuleInstalled string
| CommandResultSent string string
| CommandExecuted string string
| AgentRestarted
| UpdaterStarted string
| PackageAttempt string

datatype control_error = CallFailed string | Invalid string | PolicyFailed policy_error

datatype pending_update = NoPending | BadPending | Pending string string

record control =
  c_outcomes :: "bool list"
  c_log :: "control_event list"
  c_serverID :: string
  c_desired :: "DesiredState option"
  c_heartbeat_policy :: string
  c_last_command :: string
  c_installed :: string
  c_failed :: string
  c_failed_detail :: string
  c_reported :: string
  c_pending :: pending_update
  c_confirmed :: "(string \<times> string) list"
  c_selection :: "(string \<times> string) option"
  c_hooks :: bool
  c_restart_requested :: string
  c_fs :: policy_fs

record cycle_input =
  ci_inventory :: "Inventory option"
  ci_newServerID :: string
  ci_needsRenewal :: bool
  ci_desired :: DesiredState
  ci_base :: string
  ci_override :: string
  ci_artifact :: string
  ci_policy :: policy_env
  ci_candidates :: "WebServerCandidate list"
  ci_version :: string
  ci_command :: "string \<times> string"
  ci_fixed :: "string \<Rightarrow> bool"

type_synonym 'a step = "control \<Rightarrow> (control_error + 'a) \<times> control"

definition ret :: "'a \<Rightarrow> 'a step" where "ret x s = (Inr x, s)"

definition fail :: "control_error \<Rightarrow> 'a step" where "fail e s = (Inl e, s)"

definition bnd :: "'a step \<Rightarrow> ('a \<Rightarrow> 'b step) \<Rightarrow> 'b step" where
  "bnd m f s = (case m s of (Inl e, s1) \<Rightarrow> (Inl e, s1) | (Inr x, s1) \<Rightarrow> f x s1)"

definition andThen :: "unit step \<Rightarrow> 'b step \<Rightarrow> 'b step" where "andThen m n = bnd m (\<lambda>_. n)"

text \<open>A call that may fail and otherwise changes the state; reading the state; sending; a call whose error is ignored.\<close>

definition call :: "string \<Rightarrow> (control \<Rightarrow> control) \<Rightarrow> unit step" where
  "call what f s =
     (case next_result (c_outcomes s) of
        (ok, os) \<Rightarrow> if ok then (Inr (), f (s\<lparr>c_outcomes := os\<rparr>)) else (Inl (CallFailed what), s\<lparr>c_outcomes := os\<rparr>))"

definition get :: "(control \<Rightarrow> 'a) \<Rightarrow> 'a step" where "get f s = (Inr (f s), s)"

definition put_log :: "control_event \<Rightarrow> control \<Rightarrow> control" where "put_log e s = s\<lparr>c_log := c_log s @ [e]\<rparr>"

definition modify :: "(control \<Rightarrow> control) \<Rightarrow> unit step" where "modify f s = (Inr (), f s)"

definition note_event :: "control_event \<Rightarrow> unit step" where "note_event e = modify (put_log e)"

definition send :: "control_event \<Rightarrow> unit step" where
  "send e = andThen (note_event e) (call ''send'' id)"

text \<open>A step whose error and result are both handled.\<close>

definition trying :: "'a step \<Rightarrow> (control_error \<Rightarrow> 'b step) \<Rightarrow> ('a \<Rightarrow> 'b step) \<Rightarrow> 'b step" where
  "trying m f h s = (case m s of (Inl e, s1) \<Rightarrow> f e s1 | (Inr x, s1) \<Rightarrow> h x s1)"

definition ignoring :: "unit step \<Rightarrow> unit step" where
  "ignoring m s = (Inr (), snd (m s))"

definition read_value :: "(control \<Rightarrow> string) \<Rightarrow> string step" where
  "read_value f = andThen (call ''read'' id) (get f)"

definition steps :: "bool \<Rightarrow> unit step \<Rightarrow> unit step" where
  "steps b m = (if b then m else ret ())"

section \<open>Packages\<close>

definition valid_state_char :: "char \<Rightarrow> bool" where
  "valid_state_char c \<longleftrightarrow> c = CHR ''-'' \<or> c = CHR ''_'' \<or> is_digit c \<or> is_upper c \<or> is_lower c"

definition safeStateID :: "string \<Rightarrow> bool" where
  "safeStateID v \<longleftrightarrow> \<not> (v = [] \<or> length v > 128) \<and> list_all valid_state_char v"

definition candidate_matches :: "PackageDownload \<Rightarrow> WebServerCandidate \<Rightarrow> bool" where
  "candidate_matches item c \<longleftrightarrow>
     wc_Kind c = pd_WebServer item \<and>
     \<not> (pd_WebServerBuild item \<noteq> [] \<and> \<not> equal_fold (wc_BuildHash c) (pd_WebServerBuild item)) \<and>
     \<not> (pd_Format item = PackageFormatDEB \<and> pd_IntegrationMode item = IntegrationModeDistro \<and> \<not> wc_PackageManaged c)"

definition selectInstallationCandidate :: "WebServerCandidate list \<Rightarrow> PackageDownload \<Rightarrow> WebServerCandidate option" where
  "selectInstallationCandidate candidates item = find (candidate_matches item) candidates"

definition validateControlHooks :: "string \<Rightarrow> unit step" where
  "validateControlHooks webServer =
     (if webServer \<noteq> ''apache'' \<and> webServer \<noteq> ''nginx'' then fail (Invalid ''hooks'') else call ''hooks'' id)"

definition installDEBPackages :: "string list \<Rightarrow> unit step" where
  "installDEBPackages ids = andThen (note_event (PackagesInstalled ids)) (call ''apt-get'' id)"

definition applyAgentPackageDeployment :: "cycle_input \<Rightarrow> PackageDeployment \<Rightarrow> bool step" where
  "applyAgentPackageDeployment inp d =
     (if pd_Version (pk_Agent d) = [] \<or> pd_Format (pk_Agent d) \<noteq> [] \<and> pd_Format (pk_Agent d) \<noteq> PackageFormatDEB
        then fail (Invalid ''agent format'')
      else if pd_Version (pk_Agent d) = ci_version inp then ret False
      else if \<not> safeStateID (pk_ID d) then fail (Invalid ''deployment id'')
      else andThen (call ''clear cache'' id) (andThen (call ''make cache'' id) (andThen (call ''download agent'' id)
        (andThen (if pd_ID (pk_RollbackAgent d) \<noteq> [] then
                    (if pd_Format (pk_RollbackAgent d) \<noteq> [] \<and> pd_Format (pk_RollbackAgent d) \<noteq> PackageFormatDEB
                     then fail (Invalid ''rollback format'') else call ''download rollback'' id)
                  else ret ())
          (andThen (call ''save pending'' (\<lambda>s. s\<lparr>c_pending := Pending (pk_ID d) (pd_Version (pk_Agent d))\<rparr>))
            (andThen (installDEBPackages [pd_ID (pk_Agent d)]) (ret True)))))))"

definition module_format :: "PackageDeployment \<Rightarrow> string" where
  "module_format d = NormalizePackageFormat (pd_Format (pk_Module d))"

definition agent_changes :: "cycle_input \<Rightarrow> PackageDeployment \<Rightarrow> bool" where
  "agent_changes inp d \<longleftrightarrow> pd_Version (pk_Agent d) \<noteq> [] \<and> pd_Version (pk_Agent d) \<noteq> ci_version inp"

definition installModule :: "cycle_input \<Rightarrow> PackageDeployment \<Rightarrow> unit step" where
  "installModule inp d =
     (if module_format d = PackageFormatZIP then
        (if pd_InstallRoot (pk_Module d) \<noteq> ''/opt/m-waf'' \<or> pd_IntegrationMode (pk_Module d) \<noteq> IntegrationModeExternal
         then fail (Invalid ''zip integration'')
         else andThen (note_event (ModuleInstalled (pd_ID (pk_Module d))))
           (andThen (call ''install zip'' id) (andThen (call ''policy placeholder'' id) (andThen (call ''save module version'' id)
             (steps (agent_changes inp d) (installDEBPackages [pd_ID (pk_Agent d)]))))))
      else andThen (installDEBPackages (pd_ID (pk_Module d) # (if agent_changes inp d then [pd_ID (pk_Agent d)] else [])))
             (steps (pd_WebServer (pk_Module d) = ''nginx'') (call ''integration files'' id)))"

definition applyPackageDeployment :: "cycle_input \<Rightarrow> PackageDeployment \<Rightarrow> bool step" where
  "applyPackageDeployment inp d =
     (let scope = NormalizePackageScope (pk_Scope d); mode = NormalizeWebServerControl (pk_WebServerControl d)
      in if pk_ID d = [] \<or> pd_ID (pk_Agent d) = [] then fail (Invalid ''incomplete'')
         else if scope = PackageScopeAgent then applyAgentPackageDeployment inp d
         else if scope \<noteq> PackageScopeAgentModule \<or> pd_ID (pk_Module d) = [] then fail (Invalid ''scope'')
         else if module_format d \<noteq> PackageFormatDEB \<and> module_format d \<noteq> PackageFormatZIP then fail (Invalid ''format'')
         else if module_format d = PackageFormatZIP \<and> (pd_WebServerBuild (pk_Module d) = [] \<or> pd_RuntimeABI (pk_Module d) = [])
           then fail (Invalid ''zip metadata'')
         else case selectInstallationCandidate (ci_candidates inp) (pk_Module d) of
           None \<Rightarrow> fail (Invalid ''build no longer present'')
         | Some selected \<Rightarrow>
             if mode \<noteq> WebServerControlStandard \<and> mode \<noteq> WebServerControlHooks then fail (Invalid ''control'')
             else andThen (steps (mode = WebServerControlHooks) (validateControlHooks (wc_Kind selected)))
               (andThen (call ''temporary directory'' id)
                 (andThen (steps (agent_changes inp d) (call ''download agent'' id))
                   (andThen (call ''download module'' id)
                     (andThen (installModule inp d)
                       (andThen (call ''save selection'' (\<lambda>s. s\<lparr>c_selection := Some (pd_WebServer (pk_Module d), mode)\<rparr>))
                         (ret (agent_changes inp d))))))))"

definition packageDeploymentMatchesInventory :: "PackageDeployment \<Rightarrow> Inventory \<Rightarrow> bool" where
  "packageDeploymentMatchesInventory d iv \<longleftrightarrow>
     iv_AgentVersion iv = pd_Version (pk_Agent d) \<and>
     (NormalizePackageScope (pk_Scope d) = PackageScopeAgent \<or> iv_ModuleVersion iv = pd_Version (pk_Module d))"

definition confirmPendingAgentUpdate :: "string \<Rightarrow> unit step" where
  "confirmPendingAgentUpdate version =
     bnd (andThen (call ''read pending'' id) (get c_pending)) (\<lambda>p. case p of
       NoPending \<Rightarrow> ret ()
     | BadPending \<Rightarrow> fail (Invalid ''pending update'')
     | Pending i v \<Rightarrow>
         if \<not> safeStateID i \<or> v = [] then fail (Invalid ''pending update'')
         else if v \<noteq> version then ret ()
         else call ''confirm update'' (\<lambda>s. s\<lparr>c_confirmed := (i, version) # c_confirmed s\<rparr>))"

definition mark_reported :: "string \<Rightarrow> unit step" where
  "mark_reported i = call ''save reported'' (\<lambda>s. s\<lparr>c_reported := i\<rparr>)"

definition mark_package_failed :: "string \<Rightarrow> unit step" where
  "mark_package_failed i = andThen (call ''save failed'' (\<lambda>s. s\<lparr>c_failed := i\<rparr>))
     (andThen (call ''save failed detail'' (\<lambda>s. s\<lparr>c_failed_detail := ''failed''\<rparr>)) (mark_reported i))"

text \<open>A deployment that failed before: only its report may be missing.\<close>

definition report_failed_deployment :: "PackageDeployment \<Rightarrow> string \<Rightarrow> unit step" where
  "report_failed_deployment d reported =
     steps (reported \<noteq> pk_ID d)
       (bnd (read_value c_failed_detail) (\<lambda>_. andThen (send (PackageResultSent (pk_ID d) ''FAILED'')) (mark_reported (pk_ID d))))"

text \<open>A deployment that was installed: the report waits for the restarted agent to see the new versions.\<close>

definition report_installed_deployment :: "Inventory \<Rightarrow> PackageDeployment \<Rightarrow> string \<Rightarrow> string \<Rightarrow> string \<Rightarrow> unit step" where
  "report_installed_deployment iv d reported failed requested =
     (if reported \<noteq> pk_ID d \<and> requested \<noteq> pk_ID d \<and> packageDeploymentMatchesInventory d iv then
        andThen (send (PackageResultSent (pk_ID d) ''APPLIED'')) (mark_reported (pk_ID d))
      else if reported \<noteq> pk_ID d \<and> failed \<noteq> pk_ID d \<and> requested = [] then
        andThen (send (PackageResultSent (pk_ID d) ''FAILED'')) (mark_package_failed (pk_ID d))
      else ret ())"

text \<open>Restarting the agent, or handing the update over to the supervisor.\<close>

definition restart_agent :: "PackageDeployment \<Rightarrow> unit step" where
  "restart_agent d =
     andThen (modify (\<lambda>s. s\<lparr>c_restart_requested := pk_ID d\<rparr>))
       (trying
         (if NormalizePackageScope (pk_Scope d) = PackageScopeAgent
          then andThen (call ''updater'' id) (andThen (call ''updater log'' id)
            (andThen (call ''start updater'' id) (note_event (UpdaterStarted (pk_ID d)))))
          else andThen (call ''restart'' id) (note_event AgentRestarted))
         (\<lambda>e. andThen (ignoring (send (PackageResultSent (pk_ID d) ''FAILED''))) (fail e))
         ret)"

definition new_deployment :: "cycle_input \<Rightarrow> PackageDeployment \<Rightarrow> unit step" where
  "new_deployment inp d =
     andThen (note_event (PackageAttempt (pk_ID d)))
       (trying (applyPackageDeployment inp d)
         (\<lambda>e. andThen (send (PackageResultSent (pk_ID d) ''FAILED'')) (andThen (mark_package_failed (pk_ID d)) (fail e)))
         (\<lambda>agentUpdated. andThen (call ''save installed'' (\<lambda>s. s\<lparr>c_installed := pk_ID d\<rparr>)) (steps agentUpdated (restart_agent d))))"

text \<open>The result tells whether the cycle goes on to the next command.\<close>

definition package_step :: "cycle_input \<Rightarrow> Inventory \<Rightarrow> PackageDeployment option \<Rightarrow> bool step" where
  "package_step inp iv deployment =
     (case deployment of
        None \<Rightarrow> ret True
      | Some d \<Rightarrow>
          bnd (read_value c_installed) (\<lambda>installed. bnd (read_value c_failed) (\<lambda>failed. bnd (read_value c_reported) (\<lambda>reported.
            if failed = pk_ID d then andThen (report_failed_deployment d reported) (ret False)
            else if installed = pk_ID d then
              bnd (get c_restart_requested) (\<lambda>requested.
                andThen (report_installed_deployment iv d reported failed requested) (ret True))
            else andThen (new_deployment inp d) (ret False)))))"

section \<open>Commands\<close>

definition change_control :: "string \<Rightarrow> unit step" where
  "change_control mode =
     bnd (get c_selection) (\<lambda>selection. case selection of
       None \<Rightarrow> fail (Invalid ''no installation selection'')
     | Some (webServer, _) \<Rightarrow>
         andThen (steps (mode = WebServerControlHooks) (validateControlHooks webServer))
           (call ''save selection'' (\<lambda>s. s\<lparr>c_selection := Some (webServer, mode)\<rparr>)))"

definition applyWebServerControlCommand :: "string \<Rightarrow> (unit step) option" where
  "applyWebServerControlCommand command =
     (if command = ''web_control_standard'' then Some (change_control WebServerControlStandard)
      else if command = ''web_control_hooks'' then Some (change_control WebServerControlHooks)
      else None)"

definition save_command :: "string \<Rightarrow> unit step" where
  "save_command i = call ''save command'' (\<lambda>s. s\<lparr>c_last_command := i\<rparr>)"

definition execute_fixed :: "string \<Rightarrow> string \<Rightarrow> unit step" where
  "execute_fixed i command =
     andThen (note_event (CommandExecuted i command))
       (trying (call ''execute'' id)
         (\<lambda>e. andThen (ignoring (send (CommandResultSent i ''FAILED''))) (fail e))
         (\<lambda>_. save_command i))"

definition control_command :: "string \<Rightarrow> unit step \<Rightarrow> unit step" where
  "control_command i change =
     trying change
       (\<lambda>e. andThen (ignoring (send (CommandResultSent i ''FAILED''))) (fail e))
       (\<lambda>_. andThen (send (CommandResultSent i ''ACCEPTED'')) (save_command i))"

definition executeNextCommand :: "cycle_input \<Rightarrow> unit step" where
  "executeNextCommand inp =
     andThen (call ''next command'' id)
       (case ci_command inp of (i, command) \<Rightarrow>
          if i = [] then ret ()
          else bnd (read_value c_last_command) (\<lambda>lastID.
            if lastID = i then send (CommandResultSent i ''ACCEPTED'')
            else case applyWebServerControlCommand command of
                   Some change \<Rightarrow> control_command i change
                 | None \<Rightarrow>
                     if \<not> ci_fixed inp command
                     then andThen (ignoring (send (CommandResultSent i ''FAILED''))) (fail (Invalid ''unsupported command''))
                     else andThen (send (CommandResultSent i ''ACCEPTED'')) (execute_fixed i command)))"

section \<open>A cycle\<close>

definition blank_desired :: DesiredState where
  "blank_desired = \<lparr>dst_RevisionID = [], dst_ArtifactURL = [], dst_ArtifactFormat = [], dst_SHA256 = [], dst_Signature = [],
     dst_Mode = ''DetectionOnly'', dst_AgentPackageID = [], dst_ModulePackageID = [], dst_PackageDeployment = None,
     dst_BasePolicy = None, dst_OverridePolicy = None\<rparr>"

definition currentDesiredState :: "control \<Rightarrow> DesiredState" where
  "currentDesiredState s = (case c_desired s of None \<Rightarrow> blank_desired | Some d \<Rightarrow> d)"

definition saveDesiredState :: "DesiredState \<Rightarrow> unit step" where
  "saveDesiredState d = call ''save desired state'' (\<lambda>s. s\<lparr>c_desired := Some d\<rparr>)"

definition ConfigureWebServer :: "Inventory \<Rightarrow> control \<Rightarrow> control" where
  "ConfigureWebServer iv s =
     (if list_ex (\<lambda>c. wc_Kind c = iv_WebServer iv \<and> wc_BuildHash c = iv_WebServerBuild iv) (iv_WebServerCandidates iv)
      then s\<lparr>c_hooks := (NormalizeWebServerControl (iv_WebServerControl iv) = WebServerControlHooks)\<rparr> else s)"

definition policy_file_call :: "(policy_fs \<Rightarrow> bool list \<Rightarrow> file_call) \<Rightarrow> unit step" where
  "policy_file_call f s =
     (case f (c_fs s) (c_outcomes s) of
        (None, fs, os) \<Rightarrow> (Inr (), s\<lparr>c_fs := fs, c_outcomes := os\<rparr>)
      | (Some e, fs, os) \<Rightarrow> (Inl (PolicyFailed e), s\<lparr>c_fs := fs, c_outcomes := os\<rparr>))"

definition policy_env_of :: "cycle_input \<Rightarrow> Inventory \<Rightarrow> control \<Rightarrow> policy_env" where
  "policy_env_of inp iv s = (ci_policy inp)\<lparr>pe_webServer := iv_WebServer iv, pe_hooks := c_hooks s\<rparr>"

definition apply_desired :: "cycle_input \<Rightarrow> Inventory \<Rightarrow> unit step" where
  "apply_desired inp iv =
     (let d = ci_desired inp
      in andThen (call ''policy key'' id)
        (if dst_ArtifactFormat d = FormatOverride then
           (if dst_BasePolicy d = None \<or> dst_OverridePolicy d = None then fail (Invalid ''split references'')
            else andThen (call ''download base'' id) (andThen (call ''download override'' id)
              (bnd (get (policy_env_of inp iv)) (\<lambda>env. policy_file_call (ApplySplit env d (ci_base inp) (ci_override inp))))))
         else andThen (call ''download policy'' id)
           (bnd (get (policy_env_of inp iv)) (\<lambda>env. policy_file_call (Apply env d (ci_artifact inp))))))"

definition apply_and_report :: "cycle_input \<Rightarrow> Inventory \<Rightarrow> unit step" where
  "apply_and_report inp iv =
     trying (apply_desired inp iv)
       (\<lambda>e. andThen (ignoring (send (PolicyResultSent (dst_RevisionID (ci_desired inp)) ''FAILED''))) (fail e))
       (\<lambda>_. send (PolicyResultSent (dst_RevisionID (ci_desired inp)) ''APPLIED''))"

definition keeping_policy :: "DesiredState \<Rightarrow> DesiredState \<Rightarrow> DesiredState" where
  "keeping_policy desired state =
     desired\<lparr>dst_RevisionID := dst_RevisionID state, dst_ArtifactURL := dst_ArtifactURL state,
       dst_ArtifactFormat := dst_ArtifactFormat state, dst_SHA256 := dst_SHA256 state, dst_Signature := dst_Signature state,
       dst_Mode := dst_Mode state, dst_BasePolicy := dst_BasePolicy state, dst_OverridePolicy := dst_OverridePolicy state\<rparr>"

text \<open>The desired state to be saved, after the policy was applied when it is new and the web server is ready.\<close>

definition policy_step :: "cycle_input \<Rightarrow> Inventory \<Rightarrow> DesiredState \<Rightarrow> DesiredState step" where
  "policy_step inp iv state =
     (let d = ci_desired inp
      in if dst_RevisionID d \<noteq> [] \<and> (dst_RevisionID d \<noteq> dst_RevisionID state \<or> dst_SHA256 d \<noteq> dst_SHA256 state) then
           (if \<not> iv_IntegrationReady iv \<or> \<not> iv_ConfigTestOK iv then ret (keeping_policy d state)
            else andThen (apply_and_report inp iv) (ret d))
         else ret d)"

text \<open>Enrolment and the renewal of the certificate, whose failure is only logged.\<close>

definition identity_step :: "cycle_input \<Rightarrow> unit step" where
  "identity_step inp =
     bnd (get c_serverID) (\<lambda>serverID.
       andThen (steps (serverID = []) (call ''enroll'' (\<lambda>s. s\<lparr>c_serverID := ci_newServerID inp\<rparr>)))
         (andThen (call ''inspect certificate'' id)
           (steps (ci_needsRenewal inp) (ignoring (call ''renew certificate'' id)))))"

definition heartbeat_step :: "Inventory \<Rightarrow> DesiredState \<Rightarrow> unit step" where
  "heartbeat_step iv state =
     andThen (call ''spool'' id)
       (bnd (read_value c_last_command) (\<lambda>lastID.
         andThen (send (HeartbeatSent (dst_RevisionID state) (dst_SHA256 state) lastID))
           (andThen (confirmPendingAgentUpdate (iv_AgentVersion iv))
             (steps (dst_RevisionID state \<noteq> [])
               (call ''save heartbeat policy'' (\<lambda>s. s\<lparr>c_heartbeat_policy := dst_RevisionID state\<rparr>))))))"

definition sync_policy :: "cycle_input \<Rightarrow> Inventory \<Rightarrow> unit step" where
  "sync_policy inp iv =
     bnd (get currentDesiredState) (\<lambda>state.
       andThen (heartbeat_step iv state)
         (andThen (call ''desired state'' id) (bnd (policy_step inp iv state) saveDesiredState)))"

definition host_step :: "cycle_input \<Rightarrow> Inventory \<Rightarrow> unit step" where
  "host_step inp iv =
     bnd (package_step inp iv (dst_PackageDeployment (ci_desired inp))) (\<lambda>go_on. steps go_on (executeNextCommand inp))"

definition runControlCycle :: "cycle_input \<Rightarrow> unit step" where
  "runControlCycle inp =
     (case ci_inventory inp of
        None \<Rightarrow> fail (CallFailed ''inventory'')
      | Some iv \<Rightarrow>
          andThen (modify (ConfigureWebServer iv))
            (andThen (identity_step inp) (andThen (sync_policy inp iv) (host_step inp iv))))"

text \<open>The life of an agent: cycles with any outcomes of their calls, and restarts of the process.\<close>

datatype agent_event = Cycle cycle_input "bool list" | Restart

fun agent_step :: "agent_event \<Rightarrow> unit step" where
  "agent_step (Cycle inp os) s = runControlCycle inp (s\<lparr>c_outcomes := os\<rparr>)"
| "agent_step Restart s = (Inr (), s\<lparr>c_restart_requested := []\<rparr>)"

definition control_run :: "agent_event list \<Rightarrow> control \<Rightarrow> control" where
  "control_run evs s = foldl (\<lambda>s ev. snd (agent_step ev s)) s evs"

section \<open>What a step leaves alone\<close>

named_theorems frames \<open>rules for \<open>keeps\<close> and \<open>logs\<close>\<close>

text \<open>A step keeps a part of the state; a step only logs events of a kind.\<close>

definition keeps :: "(control \<Rightarrow> 'a) \<Rightarrow> 'b step \<Rightarrow> bool" where
  "keeps g m \<longleftrightarrow> (\<forall>s. g (snd (m s)) = g s)"

definition logs :: "(control_event \<Rightarrow> bool) \<Rightarrow> 'b step \<Rightarrow> bool" where
  "logs P m \<longleftrightarrow> (\<forall>s. \<exists>es. c_log (snd (m s)) = c_log s @ es \<and> list_all P es)"

lemma keepsD: "keeps g m \<Longrightarrow> m s = (r, s') \<Longrightarrow> g s' = g s"
  unfolding keeps_def by (metis snd_conv)

lemma logsD: "logs P m \<Longrightarrow> m s = (r, s') \<Longrightarrow> \<exists>es. c_log s' = c_log s @ es \<and> list_all P es"
  unfolding logs_def by (metis snd_conv)

lemma keeps_bnd [frames]:
  assumes "keeps g m" "\<And>x. keeps g (f x)"
  shows "keeps g (bnd m f)"
  using assms unfolding keeps_def bnd_def by (auto split: prod.splits sum.splits) (metis snd_conv)+

lemma logs_bnd [frames]:
  assumes "logs P m" "\<And>x. logs P (f x)"
  shows "logs P (bnd m f)"
  unfolding logs_def
proof
  fix s
  obtain r s1 where m: "m s = (r, s1)" by (cases "m s")
  obtain es where es: "c_log s1 = c_log s @ es" "list_all P es" using logsD[OF assms(1) m] by blast
  show "\<exists>es. c_log (snd (bnd m f s)) = c_log s @ es \<and> list_all P es"
  proof (cases r)
    case (Inr x)
    obtain es' where "c_log (snd (f x s1)) = c_log s1 @ es'" "list_all P es'" using assms(2) unfolding logs_def by blast
    then show ?thesis using es m Inr by (intro exI[of _ "es @ es'"]) (simp add: bnd_def)
  qed (use es m in \<open>auto simp: bnd_def\<close>)
qed

lemma keeps_andThen [frames]: "keeps g m \<Longrightarrow> keeps g n \<Longrightarrow> keeps g (andThen m n)"
  unfolding andThen_def by (rule keeps_bnd)

lemma logs_andThen [frames]: "logs P m \<Longrightarrow> logs P n \<Longrightarrow> logs P (andThen m n)"
  unfolding andThen_def by (rule logs_bnd)

lemma keeps_simple [frames]: "keeps g (ret x)" "keeps g (fail e)" "keeps g (get h)"
  by (simp_all add: keeps_def ret_def fail_def get_def)

lemma logs_simple [frames]: "logs P (ret x)" "logs P (fail e)" "logs P (get h)"
  by (simp_all add: logs_def ret_def fail_def get_def)

lemma keeps_call [frames]:
  "(\<And>s. g (f s) = g s) \<Longrightarrow> (\<And>s os. g (s\<lparr>c_outcomes := os\<rparr>) = g s) \<Longrightarrow> keeps g (call w f)"
  by (simp add: keeps_def call_def split: prod.split)

lemma logs_call [frames]: "(\<And>s. c_log (f s) = c_log s) \<Longrightarrow> logs P (call w f)"
  by (simp add: logs_def call_def split: prod.split)

lemma keeps_modify [frames]: "(\<And>s. g (f s) = g s) \<Longrightarrow> keeps g (modify f)"
  by (simp add: keeps_def modify_def)

lemma logs_modify [frames]: "(\<And>s. c_log (f s) = c_log s) \<Longrightarrow> logs P (modify f)"
  by (simp add: logs_def modify_def)

lemma keeps_note [frames]: "(\<And>s l. g (s\<lparr>c_log := l\<rparr>) = g s) \<Longrightarrow> keeps g (note_event e)"
  by (simp add: keeps_def note_event_def modify_def put_log_def)

lemma logs_note [frames]: "P e \<Longrightarrow> logs P (note_event e)"
  by (simp add: logs_def note_event_def modify_def put_log_def)

lemma keeps_send [frames]:
  "(\<And>s os. g (s\<lparr>c_outcomes := os\<rparr>) = g s) \<Longrightarrow> (\<And>s l. g (s\<lparr>c_log := l\<rparr>) = g s) \<Longrightarrow> keeps g (send e)"
  unfolding send_def by (intro frames) simp_all

lemma logs_send [frames]: "P e \<Longrightarrow> logs P (send e)"
  unfolding send_def by (intro frames) simp_all

lemma keeps_ignoring [frames]: "keeps g m \<Longrightarrow> keeps g (ignoring m)"
  by (simp add: keeps_def ignoring_def)

lemma logs_ignoring [frames]: "logs P m \<Longrightarrow> logs P (ignoring m)"
  by (simp add: logs_def ignoring_def)

lemma keeps_steps [frames]: "(b \<Longrightarrow> keeps g m) \<Longrightarrow> keeps g (steps b m)"
  by (simp add: steps_def keeps_simple)

lemma logs_steps [frames]: "(b \<Longrightarrow> logs P m) \<Longrightarrow> logs P (steps b m)"
  by (simp add: steps_def logs_simple)

lemma keeps_read [frames]: "(\<And>s os. g (s\<lparr>c_outcomes := os\<rparr>) = g s) \<Longrightarrow> keeps g (read_value f)"
  unfolding read_value_def by (intro frames) simp_all

lemma logs_read [frames]: "logs P (read_value f)"
  unfolding read_value_def by (intro frames) simp_all

lemma keeps_if [frames]: "(b \<Longrightarrow> keeps g m) \<Longrightarrow> (\<not> b \<Longrightarrow> keeps g n) \<Longrightarrow> keeps g (if b then m else n)"
  by simp

lemma logs_if [frames]: "(b \<Longrightarrow> logs P m) \<Longrightarrow> (\<not> b \<Longrightarrow> logs P n) \<Longrightarrow> logs P (if b then m else n)"
  by simp

text \<open>A step whose error is turned into a report: both branches are steps.\<close>

lemma keeps_trying [frames]:
  assumes "keeps g m" "\<And>e. keeps g (f e)" "\<And>x. keeps g (h x)"
  shows "keeps g (trying m f h)"
  using assms unfolding keeps_def trying_def by (auto split: prod.splits sum.splits) (metis snd_conv)+

lemma logs_trying [frames]:
  assumes "logs P m" "\<And>e. logs P (f e)" "\<And>x. logs P (h x)"
  shows "logs P (trying m f h)"
  unfolding logs_def
proof
  fix s
  obtain r s1 where m: "m s = (r, s1)" by (cases "m s")
  obtain es where es: "c_log s1 = c_log s @ es" "list_all P es" using logsD[OF assms(1) m] by blast
  have "logs P (case r of Inl e \<Rightarrow> f e | Inr x \<Rightarrow> h x)" using assms(2,3) by (cases r) simp_all
  then obtain es' where "c_log (snd ((case r of Inl e \<Rightarrow> f e | Inr x \<Rightarrow> h x) s1)) = c_log s1 @ es'" "list_all P es'"
    unfolding logs_def by blast
  then show "\<exists>es. c_log (snd (trying m f h s)) = c_log s @ es \<and> list_all P es"
    using es m by (intro exI[of _ "es @ es'"]) (cases r; simp add: trying_def)
qed

lemma keeps_option [frames]: "(\<And>x. v = Some x \<Longrightarrow> keeps g (f x)) \<Longrightarrow> (v = None \<Longrightarrow> keeps g m) \<Longrightarrow> keeps g (case v of None \<Rightarrow> m | Some x \<Rightarrow> f x)"
  by (cases v) simp_all

lemma logs_option [frames]: "(\<And>x. v = Some x \<Longrightarrow> logs P (f x)) \<Longrightarrow> (v = None \<Longrightarrow> logs P m) \<Longrightarrow> logs P (case v of None \<Rightarrow> m | Some x \<Rightarrow> f x)"
  by (cases v) simp_all

lemma keeps_pair [frames]: "(\<And>x y. keeps g (f x y)) \<Longrightarrow> keeps g (case v of (x, y) \<Rightarrow> f x y)"
  by (cases v) simp

lemma logs_pair [frames]: "(\<And>x y. logs P (f x y)) \<Longrightarrow> logs P (case v of (x, y) \<Rightarrow> f x y)"
  by (cases v) simp

lemma keeps_pending [frames]:
  "keeps g m \<Longrightarrow> keeps g n \<Longrightarrow> (\<And>i v. keeps g (f i v)) \<Longrightarrow> keeps g (case p of NoPending \<Rightarrow> m | BadPending \<Rightarrow> n | Pending i v \<Rightarrow> f i v)"
  by (cases p) simp_all

lemma logs_pending [frames]:
  "logs P m \<Longrightarrow> logs P n \<Longrightarrow> (\<And>i v. logs P (f i v)) \<Longrightarrow> logs P (case p of NoPending \<Rightarrow> m | BadPending \<Rightarrow> n | Pending i v \<Rightarrow> f i v)"
  by (cases p) simp_all

section \<open>Reports of policies\<close>

text \<open>Which parts of a cycle can say that a policy was applied, change the policy files, or save a desired state.\<close>

definition no_policy :: "control_event \<Rightarrow> bool" where
  "no_policy e \<longleftrightarrow> (\<forall>rid st. e \<noteq> PolicyResultSent rid st)"

abbreviation policy_state :: "control \<Rightarrow> policy_fs \<times> DesiredState option" where
  "policy_state s \<equiv> (c_fs s, c_desired s)"

lemma policy_neutral_identity: "keeps policy_state (identity_step inp)" "logs no_policy (identity_step inp)"
  unfolding identity_step_def by (intro frames; simp)+

lemmas package_steps = applyPackageDeployment_def applyAgentPackageDeployment_def installModule_def installDEBPackages_def
  validateControlHooks_def mark_package_failed_def mark_reported_def restart_agent_def new_deployment_def report_failed_deployment_def
  report_installed_deployment_def package_step_def Let_def

lemmas command_steps = executeNextCommand_def applyWebServerControlCommand_def change_control_def control_command_def
  execute_fixed_def save_command_def validateControlHooks_def

lemmas heartbeat_steps = heartbeat_step_def confirmPendingAgentUpdate_def

lemma policy_neutral_heartbeat: "keeps policy_state (heartbeat_step iv state)" "logs no_policy (heartbeat_step iv state)"
  unfolding heartbeat_steps by (intro frames; simp add: no_policy_def)+

lemma policy_neutral_package: "keeps policy_state (package_step inp iv deployment)" "logs no_policy (package_step inp iv deployment)"
  unfolding package_steps by (intro frames; simp add: no_policy_def)+

lemma policy_neutral_command: "keeps policy_state (executeNextCommand inp)" "logs no_policy (executeNextCommand inp)"
  unfolding command_steps by (intro frames; (simp add: no_policy_def)?; (auto intro!: frames split: if_splits)?)+

text \<open>A sequence of two steps ends in the first with its error, or in the second.\<close>

lemma bndE:
  assumes "bnd m f s = (r, s')"
  obtains (stopped) e where "m s = (Inl e, s')" "r = Inl e"
    | (went_on) x s1 where "m s = (Inr x, s1)" "f x s1 = (r, s')"
  using assms unfolding bnd_def by (auto split: prod.splits sum.splits)

lemma andThenE:
  assumes "andThen m n s = (r, s')"
  obtains (stopped) e where "m s = (Inl e, s')" "r = Inl e"
    | (went_on) s1 where "m s = (Inr (), s1)" "n s1 = (r, s')"
  using assms unfolding andThen_def by (rule bndE) (auto split: unit.splits)

lemma tryingE:
  assumes "trying m f h s = (r, s')"
  obtains (failed) e s1 where "m s = (Inl e, s1)" "f e s1 = (r, s')"
    | (done_it) x s1 where "m s = (Inr x, s1)" "h x s1 = (r, s')"
  using assms unfolding trying_def by (auto split: prod.splits sum.splits)

text \<open>The policy that the cycle applies, as a call on the policy files.\<close>

definition apply_policy :: "policy_env \<Rightarrow> cycle_input \<Rightarrow> policy_fs \<Rightarrow> bool list \<Rightarrow> file_call" where
  "apply_policy env inp =
     (if dst_ArtifactFormat (ci_desired inp) = FormatOverride then ApplySplit env (ci_desired inp) (ci_base inp) (ci_override inp)
      else Apply env (ci_desired inp) (ci_artifact inp))"

text \<open>Calls that change nothing in front of a step.\<close>

definition only_outcomes :: "control \<Rightarrow> control \<Rightarrow> bool" where
  "only_outcomes s s' \<longleftrightarrow> (\<exists>os. s' = s\<lparr>c_outcomes := os\<rparr>)"

lemma only_outcomes_refl: "only_outcomes s s"
  unfolding only_outcomes_def by (rule exI[of _ "c_outcomes s"]) simp

lemma only_outcomes_trans: "only_outcomes s s1 \<Longrightarrow> only_outcomes s1 s2 \<Longrightarrow> only_outcomes s s2"
  unfolding only_outcomes_def by auto

lemma call_id: "call w id s = (r, s') \<Longrightarrow> only_outcomes s s'"
  unfolding only_outcomes_def by (auto simp: call_def split: prod.splits if_splits)

lemma quiet_callE:
  assumes "andThen (call w id) n s = (r, s')"
  obtains (stopped) e where "r = Inl e" "only_outcomes s s'" | (went_on) s1 where "only_outcomes s s1" "n s1 = (r, s')"
  using assms by (cases rule: andThenE) (auto dest: call_id)

lemma file_step_result:
  assumes "bnd (get (policy_env_of inp iv)) (\<lambda>env. policy_file_call (f env)) s = (r, s')"
  shows "c_log s' = c_log s \<and> c_desired s' = c_desired s \<and>
    (\<exists>os pr os'. f (policy_env_of inp iv s) (c_fs s) os = (pr, c_fs s', os') \<and> (r = Inr () \<longleftrightarrow> pr = None))"
proof -
  have "policy_file_call (f (policy_env_of inp iv s)) s = (r, s')" using assms by (simp add: bnd_def get_def)
  moreover obtain pr fs2 os2 where f: "f (policy_env_of inp iv s) (c_fs s) (c_outcomes s) = (pr, fs2, os2)" by (rule prod_cases3)
  ultimately have "c_log s' = c_log s" "c_desired s' = c_desired s" "c_fs s' = fs2" "r = Inr () \<longleftrightarrow> pr = None"
    unfolding policy_file_call_def by (auto split: option.splits)
  then show ?thesis using f by blast
qed

lemma apply_desired_result:
  assumes "apply_desired inp iv s = (r, s')"
  shows "c_log s' = c_log s \<and> c_desired s' = c_desired s \<and>
    (c_fs s' = c_fs s \<and> r \<noteq> Inr () \<or>
     (\<exists>os pr os'. apply_policy (policy_env_of inp iv s) inp (c_fs s) os = (pr, c_fs s', os') \<and> (r = Inr () \<longleftrightarrow> pr = None)))"
    (is "?P s'")
proof -
  have stop: "only_outcomes s s' \<Longrightarrow> r \<noteq> Inr () \<Longrightarrow> ?P s'" by (auto simp: only_outcomes_def)
  have filed: "?P s'" if q: "only_outcomes s s1" and b: "bnd (get (policy_env_of inp iv)) (\<lambda>env. policy_file_call (f env)) s1 = (r, s')"
      and f: "f (policy_env_of inp iv s) = apply_policy (policy_env_of inp iv s) inp" for s1 f
  proof -
    have "policy_env_of inp iv s1 = policy_env_of inp iv s" "c_log s1 = c_log s" "c_desired s1 = c_desired s" "c_fs s1 = c_fs s"
      using q by (auto simp: only_outcomes_def policy_env_of_def)
    then show ?thesis using file_step_result[OF b] f by auto
  qed
  from assms[unfolded apply_desired_def Let_def] show ?thesis
  proof (cases rule: quiet_callE)
    case (went_on s1)
    show ?thesis
    proof (cases "dst_ArtifactFormat (ci_desired inp) = FormatOverride")
      case split: True
      show ?thesis
      proof (cases "dst_BasePolicy (ci_desired inp) = None \<or> dst_OverridePolicy (ci_desired inp) = None")
        case True
        then show ?thesis using went_on split by (intro stop) (auto simp: fail_def)
      next
        case False
        from went_on(2)[unfolded if_P[OF split] if_not_P[OF False]] show ?thesis
        proof (cases rule: quiet_callE)
          case (went_on s2)
          note s2 = this
          from s2(2) show ?thesis
          proof (cases rule: quiet_callE)
            case (went_on s3)
            show ?thesis
              by (rule filed[OF _ went_on(2)]) (use \<open>only_outcomes s s1\<close> s2(1) went_on(1) split in
                \<open>auto intro: only_outcomes_trans simp: apply_policy_def\<close>)
          qed (rule stop; use \<open>only_outcomes s s1\<close> s2(1) in \<open>auto simp: only_outcomes_def\<close>)
        qed (rule stop; use \<open>only_outcomes s s1\<close> in \<open>auto simp: only_outcomes_def\<close>)
      qed
    next
      case single: False
      from went_on(2)[unfolded if_not_P[OF single]] show ?thesis
      proof (cases rule: quiet_callE)
        case (went_on s2)
        show ?thesis
          by (rule filed[OF _ went_on(2)]) (use \<open>only_outcomes s s1\<close> went_on(1) single in
            \<open>auto intro: only_outcomes_trans simp: apply_policy_def\<close>)
      qed (rule stop; use \<open>only_outcomes s s1\<close> in \<open>auto simp: only_outcomes_def\<close>)
    qed
  qed (rule stop; auto simp: only_outcomes_def)
qed

text \<open>A policy step applies and reports the new policy, or changes nothing.\<close>

definition reported_only :: "control \<Rightarrow> control \<Rightarrow> control_event list \<Rightarrow> bool" where
  "reported_only s s' es \<longleftrightarrow> c_log s' = c_log s @ es \<and> c_fs s' = c_fs s \<and> c_desired s' = c_desired s"

lemma send_result: "send e s = (r, s') \<Longrightarrow> reported_only s s' [e]"
  by (auto simp: send_def reported_only_def andThen_def bnd_def note_event_def modify_def put_log_def call_def split: prod.splits if_splits)

lemma policy_step_result:
  assumes "policy_step inp iv state s = (rp, s')"
  obtains (kept) "s' = s" "rp = Inr (ci_desired inp)"
      "dst_RevisionID (ci_desired inp) = [] \<or> dst_RevisionID (ci_desired inp) = dst_RevisionID state"
    | (waits) "s' = s" "rp = Inr (keeping_policy (ci_desired inp) state)"
    | (failed) e s1 where "apply_desired inp iv s = (Inl e, s1)" "rp = Inl e" "iv_IntegrationReady iv" "iv_ConfigTestOK iv"
        "reported_only s1 s' [PolicyResultSent (dst_RevisionID (ci_desired inp)) ''FAILED'']"
    | (applied) s1 where "apply_desired inp iv s = (Inr (), s1)" "iv_IntegrationReady iv" "iv_ConfigTestOK iv"
        "reported_only s1 s' [PolicyResultSent (dst_RevisionID (ci_desired inp)) ''APPLIED'']"
        "rp = Inr (ci_desired inp) \<or> (\<exists>e. rp = Inl e)"
proof -
  let ?d = "ci_desired inp"
  consider (same) "\<not> (dst_RevisionID ?d \<noteq> [] \<and> (dst_RevisionID ?d \<noteq> dst_RevisionID state \<or> dst_SHA256 ?d \<noteq> dst_SHA256 state))"
    | (unready) "dst_RevisionID ?d \<noteq> [] \<and> (dst_RevisionID ?d \<noteq> dst_RevisionID state \<or> dst_SHA256 ?d \<noteq> dst_SHA256 state)"
        "\<not> iv_IntegrationReady iv \<or> \<not> iv_ConfigTestOK iv"
    | (ready) "dst_RevisionID ?d \<noteq> [] \<and> (dst_RevisionID ?d \<noteq> dst_RevisionID state \<or> dst_SHA256 ?d \<noteq> dst_SHA256 state)"
        "iv_IntegrationReady iv" "iv_ConfigTestOK iv"
    by blast
  then show ?thesis
  proof cases
    case same
    then show ?thesis using assms kept by (auto simp: policy_step_def ret_def)
  next
    case unready
    then show ?thesis using assms waits by (simp add: policy_step_def ret_def)
  next
    case ready
    have "andThen (apply_and_report inp iv) (ret ?d) s = (rp, s')" using assms ready by (simp add: policy_step_def)
    then obtain r1 s2 where a: "apply_and_report inp iv s = (r1, s2)" and r: "s' = s2" "rp = (case r1 of Inl e \<Rightarrow> Inl e | Inr _ \<Rightarrow> Inr ?d)"
      by (cases rule: andThenE) (auto simp: ret_def)
    from a[unfolded apply_and_report_def] show ?thesis
    proof (cases rule: tryingE)
      case (failed e s1)
      have "r1 = Inl e \<and> reported_only s1 s2 [PolicyResultSent (dst_RevisionID ?d) ''FAILED'']"
      proof -
        have "andThen (ignoring (send (PolicyResultSent (dst_RevisionID ?d) ''FAILED''))) (fail e) s1 =
            (Inl e, snd (send (PolicyResultSent (dst_RevisionID ?d) ''FAILED'') s1))"
          by (simp add: andThen_def bnd_def ignoring_def fail_def)
        then show ?thesis using failed(2) send_result[of "PolicyResultSent (dst_RevisionID ?d) ''FAILED''" s1]
          by (metis Pair_inject prod.collapse)
      qed
      then show ?thesis using failed(1) r ready(2,3) that(3) by auto
    next
      case (done_it x s1)
      then show ?thesis using send_result[OF done_it(2)] r ready(2,3) that(4) by (cases r1) auto
    qed
  qed
qed

text \<open>One cycle, seen from the policy: a policy step in the middle, steps that leave policies alone around it.\<close>

lemma sync_policyE:
  assumes "sync_policy inp iv s = (r, s')"
  obtains (early) es where "reported_only s s' es" "list_all no_policy es"
    | (stepped) s1 s2 rp es where "reported_only s s1 es" "list_all no_policy es" "c_hooks s1 = c_hooks s"
        "policy_step inp iv (currentDesiredState s) s1 = (rp, s2)"
        "c_log s' = c_log s2" "c_fs s' = c_fs s2"
        "c_desired s' = c_desired s2 \<or> rp = Inr (the (c_desired s')) \<and> c_desired s' \<noteq> None"
proof -
  let ?state = "currentDesiredState s"
  have b: "andThen (heartbeat_step iv ?state) (andThen (call ''desired state'' id) (bnd (policy_step inp iv ?state) saveDesiredState)) s = (r, s')"
    using assms by (simp add: sync_policy_def bnd_def get_def)
  have hooks: "keeps c_hooks (heartbeat_step iv ?state)"
    unfolding heartbeat_steps by (intro frames; simp)
  have neutral: "\<exists>es. reported_only s s2 es \<and> list_all no_policy es" if "heartbeat_step iv ?state s = (r2, s2)" for r2 s2
    using logsD[OF policy_neutral_heartbeat(2) that] keepsD[OF policy_neutral_heartbeat(1) that] by (auto simp: reported_only_def)
  from b show ?thesis
  proof (cases rule: andThenE)
    case (stopped e)
    then show ?thesis using neutral early by blast
  next
    case (went_on s1)
    note h = neutral[OF went_on(1)] keepsD[OF hooks went_on(1)]
    from went_on(2) show ?thesis
    proof (cases rule: quiet_callE)
      case (stopped e)
      then show ?thesis using h(1) early by (auto simp: only_outcomes_def reported_only_def)
    next
      case (went_on s2)
      obtain es where es: "reported_only s s2 es" "list_all no_policy es" "c_hooks s2 = c_hooks s"
        using h went_on(1) by (auto simp: only_outcomes_def reported_only_def)
      from went_on(2) show ?thesis
      proof (cases rule: bndE)
        case (stopped e)
        show ?thesis by (rule stepped[OF es stopped(1)]) simp_all
      next
        case (went_on p s3)
        have c: "c_log s' = c_log s3" "c_fs s' = c_fs s3" "c_desired s' = c_desired s3 \<or> c_desired s' = Some p"
          using went_on(2) by (auto simp: saveDesiredState_def call_def split: prod.splits if_splits)
        show ?thesis by (rule stepped[OF es went_on(1) c(1,2)]) (use c(3) in auto)
      qed
    qed
  qed
qed

lemma policy_neutral_host: "keeps policy_state (host_step inp iv)" "logs no_policy (host_step inp iv)"
  unfolding host_step_def by (intro frames policy_neutral_package policy_neutral_command)+

lemma reported_onlyI:
  "keeps policy_state m \<Longrightarrow> logs no_policy m \<Longrightarrow> m s = (r, s') \<Longrightarrow> \<exists>es. reported_only s s' es \<and> list_all no_policy es"
  using logsD[of no_policy m s r s'] keepsD[of policy_state m s r s'] by (auto simp: reported_only_def)

lemma reported_only_trans: "reported_only s s1 es \<Longrightarrow> reported_only s1 s2 fs \<Longrightarrow> reported_only s s2 (es @ fs)"
  by (simp add: reported_only_def)

lemma cycle_policyE:
  assumes "runControlCycle inp s = (r, s')"
  obtains (early) es where "reported_only s s' es" "list_all no_policy es"
    | (stepped) iv s1 s2 rp es fs where "ci_inventory inp = Some iv" "reported_only s s1 es" "list_all no_policy es"
        "policy_step inp iv (currentDesiredState s) s1 = (rp, s2)"
        "c_log s' = c_log s2 @ fs" "list_all no_policy fs" "c_fs s' = c_fs s2"
        "c_desired s' = c_desired s2 \<or> rp = Inr (the (c_desired s')) \<and> c_desired s' \<noteq> None"
proof (cases "ci_inventory inp")
  case None
  then have "s' = s" using assms by (simp add: runControlCycle_def fail_def)
  then show ?thesis using early[of "[]"] by (simp add: reported_only_def)
next
  case (Some iv)
  let ?s0 = "ConfigureWebServer iv s"
  have s0: "reported_only s ?s0 []" by (simp add: ConfigureWebServer_def reported_only_def)
  have cur: "reported_only s s1 es \<Longrightarrow> currentDesiredState s1 = currentDesiredState s" for s1 es
    by (simp add: reported_only_def currentDesiredState_def)
  have "andThen (identity_step inp) (andThen (sync_policy inp iv) (host_step inp iv)) ?s0 = (r, s')"
    using assms Some by (simp add: runControlCycle_def andThen_def bnd_def modify_def)
  then show ?thesis
  proof (cases rule: andThenE)
    case (stopped e)
    then show ?thesis
      using reported_onlyI[OF policy_neutral_identity stopped(1)] reported_only_trans[OF s0] early by fastforce
  next
    case (went_on s1)
    obtain es where es: "reported_only s s1 es" "list_all no_policy es"
      using reported_onlyI[OF policy_neutral_identity went_on(1)] reported_only_trans[OF s0] by fastforce
    have split_sync: ?thesis if sy: "sync_policy inp iv s1 = (r2, s2)" and h: "reported_only s2 s' hs" "list_all no_policy hs" for r2 s2 hs
    proof (cases rule: sync_policyE[OF sy])
      case (1 gs)
      then show ?thesis using early[of "es @ gs @ hs"] es h by (auto simp: reported_only_def)
    next
      case (2 s3 s4 rp gs)
      show ?thesis
      proof (rule stepped[OF Some])
        show "reported_only s s3 (es @ gs)" using es(1) 2(1) by (rule reported_only_trans)
        show "list_all no_policy (es @ gs)" using es(2) 2(2) by simp
        show "policy_step inp iv (currentDesiredState s) s3 = (rp, s4)" using 2(4) cur[OF es(1)] by simp
        show "c_log s' = c_log s4 @ hs" "c_fs s' = c_fs s4" using h(1) 2(5,6) by (simp_all add: reported_only_def)
        show "list_all no_policy hs" by (rule h(2))
        show "c_desired s' = c_desired s4 \<or> rp = Inr (the (c_desired s')) \<and> c_desired s' \<noteq> None"
          using h(1) 2(7) by (simp add: reported_only_def)
      qed
    qed
    from went_on(2) show ?thesis
    proof (cases rule: andThenE)
      case (stopped e)
      show ?thesis by (rule split_sync[OF stopped(1), of "[]"]) (simp_all add: reported_only_def)
    next
      case (went_on s2)
      then show ?thesis using split_sync[OF went_on(1)] reported_onlyI[OF policy_neutral_host went_on(2)] by blast
    qed
  qed
qed

definition new_events :: "control \<Rightarrow> control \<Rightarrow> control_event list" where
  "new_events s s' = drop (length (c_log s)) (c_log s')"

lemma no_policy_list: "list_all no_policy es \<Longrightarrow> PolicyResultSent rid st \<notin> set es"
  by (auto simp: list_all_iff no_policy_def)

text \<open>A policy event of a cycle comes from its policy step.\<close>

lemma cycle_reportE:
  assumes "runControlCycle inp s = (r, s')" "PolicyResultSent rid st \<in> set (new_events s s')"
  obtains iv s1 s2 rp es fs where "ci_inventory inp = Some iv" "reported_only s s1 es" "list_all no_policy es"
    "policy_step inp iv (currentDesiredState s) s1 = (rp, s2)" "c_log s' = c_log s2 @ fs" "list_all no_policy fs" "c_fs s' = c_fs s2"
    "PolicyResultSent rid st \<in> set (drop (length (c_log s1)) (c_log s2))"
proof (cases rule: cycle_policyE[OF assms(1)])
  case (1 es)
  then have "list_all no_policy (new_events s s')" by (simp add: new_events_def reported_only_def)
  then show ?thesis using assms(2) by (auto simp: list_all_iff no_policy_def)
next
  case (2 iv s1 s2 rp es fs)
  have "\<exists>gs. c_log s2 = c_log s1 @ gs"
    using 2(4) by (cases rule: policy_step_result) (auto simp: reported_only_def dest: apply_desired_result)
  then have "PolicyResultSent rid st \<in> set (drop (length (c_log s1)) (c_log s2))"
    using assms(2) 2(2,5) no_policy_list[OF 2(3)] no_policy_list[OF 2(6)] by (auto simp: new_events_def reported_only_def)
  then show ?thesis using that[OF 2(1-7)] by blast
qed

lemma cycle_applied:
  assumes "runControlCycle inp s = (r, s')" "PolicyResultSent rid ''APPLIED'' \<in> set (new_events s s')"
  shows "rid = dst_RevisionID (ci_desired inp) \<and> (\<exists>iv env os os'. ci_inventory inp = Some iv \<and> iv_IntegrationReady iv \<and> iv_ConfigTestOK iv \<and>
    (\<exists>b. env = (ci_policy inp)\<lparr>pe_webServer := iv_WebServer iv, pe_hooks := b\<rparr>) \<and>
    apply_policy env inp (c_fs s) os = (None, c_fs s', os'))"
proof (rule cycle_reportE[OF assms])
  fix iv s1 s2 rp es fs
  assume iv: "ci_inventory inp = Some iv" and s1: "reported_only s s1 es" and st: "policy_step inp iv (currentDesiredState s) s1 = (rp, s2)"
    and fs: "c_fs s' = c_fs s2" and e: "PolicyResultSent rid ''APPLIED'' \<in> set (drop (length (c_log s1)) (c_log s2))"
  from st show ?thesis
  proof (cases rule: policy_step_result)
    case (failed x s3)
    then show ?thesis using e apply_desired_result[OF failed(1)] by (auto simp: reported_only_def)
  next
    case (applied s3)
    obtain os os' where a: "apply_policy (policy_env_of inp iv s1) inp (c_fs s1) os = (None, c_fs s3, os')"
      using apply_desired_result[OF applied(1)] by auto
    have "rid = dst_RevisionID (ci_desired inp)" using e applied(4) apply_desired_result[OF applied(1)] by (auto simp: reported_only_def)
    moreover have "c_fs s3 = c_fs s'" "c_fs s1 = c_fs s" using applied(4) fs s1 by (simp_all add: reported_only_def)
    ultimately show ?thesis using iv applied(2,3) a unfolding policy_env_of_def by auto
  qed (use e in auto)
qed

end
