(* ===== verification/Agent_Reports.thy ===== *)
theory Agent_Reports
  imports Agent_Control
begin

text \<open>
  What the Manager may believe of an agent, and how often an agent does what it is told. A report of an applied policy is
  sent only when applying it succeeded, and in the bundle formats when exactly its files are loaded; a heartbeat names only revisions reported as applied before; a revision is reported
  as applied at most once; a package deployment and a command are carried out at most once more than there are cycles that
  fail to keep or report them. The last three share a counting argument, the locale \<open>marked_once\<close>: an event that
  happens only without a mark and leaves the mark behind, unless the cycle ends with one of certain errors.
\<close>

section \<open>Applied means active\<close>

lemma apply_policy_loaded:
  assumes "apply_policy env inp fs os = (None, fs', os')" "active_files env fs = Some d"
    and "dst_ArtifactFormat (ci_desired inp) \<in> {FormatOverride, Format, FormatV3}"
  shows "\<exists>files. active_files env fs' = Some files \<and> fs_loaded fs' = Some files"
proof (cases "dst_ArtifactFormat (ci_desired inp) = FormatOverride")
  case True
  then have run: "ApplySplit env (ci_desired inp) (ci_base inp) (ci_override inp) fs os = (None, fs', os')"
    using assms(1) by (simp add: apply_policy_def)
  show ?thesis
    by (rule ApplySplit_parts[OF run disjI1[OF refl]]) (use applyBundleFiles_outcome[OF _ assms(2)] in
      \<open>fastforce simp: applied_or_kept_def\<close>)
next
  case False
  then have "Apply env (ci_desired inp) (ci_artifact inp) fs os = (None, fs', os')" using assms(1) by (simp add: apply_policy_def)
  then show ?thesis
  proof (cases rule: Apply_cases)
    case (3 m files raw)
    then show ?thesis using applyBundleFiles_outcome[OF 3(3) assms(2)] by (simp add: applied_or_kept_def)
  qed (use assms(3) False in auto)
qed

text \<open>C9:
  The agent reports a revision as applied only after applying it: in that cycle the web server was integrated and its configuration passed,
  the report names the revision of the desired state, and applying it succeeded. For the bundle formats, over a policy path whose active
  files exist, the web server has then loaded exactly the files that are active. (A \<^verbatim>\<open>conf-v1\<close> artifact that is the same as the
  active file is applied without a reload.)
\<close>

theorem applied_report_truthful:
  assumes "runControlCycle inp s = (r, s')" and "PolicyResultSent rid ''APPLIED'' \<in> set (new_events s s')"
  shows "rid = dst_RevisionID (ci_desired inp) \<and>
    (\<exists>iv. ci_inventory inp = Some iv \<and> iv_IntegrationReady iv \<and> iv_ConfigTestOK iv) \<and>
    (\<exists>env os os'. apply_policy env inp (c_fs s) os = (None, c_fs s', os') \<and> pe_verify env = pe_verify (ci_policy inp)) \<and>
    (active_files (ci_policy inp) (c_fs s) \<noteq> None \<longrightarrow> dst_ArtifactFormat (ci_desired inp) \<in> {FormatOverride, Format, FormatV3} \<longrightarrow>
       (\<exists>files. active_files (ci_policy inp) (c_fs s') = Some files \<and> fs_loaded (c_fs s') = Some files))"
proof -
  obtain iv env b os os' where a: "rid = dst_RevisionID (ci_desired inp)" "ci_inventory inp = Some iv" "iv_IntegrationReady iv"
    "iv_ConfigTestOK iv" "env = (ci_policy inp)\<lparr>pe_webServer := iv_WebServer iv, pe_hooks := b\<rparr>"
    "apply_policy env inp (c_fs s) os = (None, c_fs s', os')"
    using cycle_applied[OF assms(1,2)] by blast
  have act: "active_files env fs = active_files (ci_policy inp) fs" for fs
    unfolding a(5) by (simp add: active_files_def link_target_def activePath_def split: active_entry.split)
  have "\<exists>files. active_files env (c_fs s') = Some files \<and> fs_loaded (c_fs s') = Some files"
    if "active_files (ci_policy inp) (c_fs s) \<noteq> None" "dst_ArtifactFormat (ci_desired inp) \<in> {FormatOverride, Format, FormatV3}"
    using apply_policy_loaded[OF a(6) _ that(2)] that(1) act by auto
  moreover have "pe_verify env = pe_verify (ci_policy inp)" using a(5) by simp
  ultimately show ?thesis using a(1-4,6) act by auto
qed

section \<open>Heartbeats name applied revisions\<close>

definition beats :: "string \<Rightarrow> control_event \<Rightarrow> bool" where
  "beats rid e \<longleftrightarrow> (\<forall>x sha cmd. e = HeartbeatSent x sha cmd \<longrightarrow> x = rid)"

lemma logs_file [frames]: "logs P (policy_file_call f)"
  by (auto simp: logs_def policy_file_call_def split: prod.split option.split)

lemma logs_let [frames]: "logs P (f v) \<Longrightarrow> logs P (let x = v in f x)"
  by simp

lemmas policy_steps = sync_policy_def policy_step_def apply_and_report_def apply_desired_def saveDesiredState_def

lemma beats_host: "logs (beats rid) (host_step inp iv)"
  unfolding host_step_def package_steps command_steps
  by (intro frames; (simp add: beats_def)?; (auto intro!: frames split: if_splits)?)

lemma beats_identity: "logs (beats rid) (identity_step inp)"
  unfolding identity_step_def by (intro frames; simp)

lemma beats_sync: "logs (beats (dst_RevisionID state)) (andThen (heartbeat_step iv state)
    (andThen (call ''desired state'' id) (bnd (policy_step inp iv state) saveDesiredState)))"
  unfolding heartbeat_steps policy_steps Let_def by (intro frames; simp add: beats_def)

lemma cycle_beats:
  assumes "runControlCycle inp s = (r, s')"
  shows "\<exists>es. c_log s' = c_log s @ es \<and> list_all (beats (dst_RevisionID (currentDesiredState s))) es"
proof (cases "ci_inventory inp")
  case None
  then show ?thesis using assms by (simp add: runControlCycle_def fail_def)
next
  case (Some iv)
  let ?B = "beats (dst_RevisionID (currentDesiredState s))"
  let ?s0 = "ConfigureWebServer iv s"
  have s0: "c_log ?s0 = c_log s" "c_desired ?s0 = c_desired s" by (simp_all add: ConfigureWebServer_def)
  have "andThen (identity_step inp) (andThen (sync_policy inp iv) (host_step inp iv)) ?s0 = (r, s')"
    using assms Some by (simp add: runControlCycle_def andThen_def bnd_def modify_def)
  then show ?thesis
  proof (cases rule: andThenE)
    case (stopped e)
    then show ?thesis using logsD[OF beats_identity stopped(1)] s0(1) by simp
  next
    case (went_on s1)
    obtain es where es: "c_log s1 = c_log s @ es" "list_all ?B es" using logsD[OF beats_identity went_on(1)] s0(1) by auto
    have "c_desired s1 = c_desired s" using keepsD[OF policy_neutral_identity(1) went_on(1)] s0(2) by simp
    then have cur: "currentDesiredState s1 = currentDesiredState s" by (simp add: currentDesiredState_def)
    have sync: "\<exists>fs. c_log s2 = c_log s1 @ fs \<and> list_all ?B fs" if "sync_policy inp iv s1 = (r2, s2)" for r2 s2
    proof -
      have "andThen (heartbeat_step iv (currentDesiredState s)) (andThen (call ''desired state'' id)
          (bnd (policy_step inp iv (currentDesiredState s)) saveDesiredState)) s1 = (r2, s2)"
        using that cur by (simp add: sync_policy_def bnd_def get_def)
      then show ?thesis by (rule logsD[OF beats_sync])
    qed
    from went_on(2) show ?thesis
    proof (cases rule: andThenE)
      case (stopped e)
      then show ?thesis using sync[OF stopped(1)] es by auto
    next
      case (went_on s2)
      then show ?thesis using sync[OF went_on(1)] logsD[OF beats_host went_on(2)] es by fastforce
    qed
  qed
qed

text \<open>The saved desired state names a revision only after that was reported as applied.\<close>

definition saved_reported :: "control \<Rightarrow> bool" where
  "saved_reported s \<longleftrightarrow>
     dst_RevisionID (currentDesiredState s) = [] \<or> PolicyResultSent (dst_RevisionID (currentDesiredState s)) ''APPLIED'' \<in> set (c_log s)"

lemma cycle_saved:
  assumes "runControlCycle inp s = (r, s')" "saved_reported s"
  shows "saved_reported s'"
proof (cases rule: cycle_policyE[OF assms(1)])
  case (1 es)
  then show ?thesis using assms(2) by (auto simp: saved_reported_def reported_only_def currentDesiredState_def)
next
  case (2 iv s1 s2 rp es fs)
  have log: "set (c_log s2) \<subseteq> set (c_log s')" using 2(5) by simp
  have s1: "set (c_log s) \<subseteq> set (c_log s1)" "c_desired s1 = c_desired s" using 2(2) by (auto simp: reported_only_def)
  have desired: "c_desired s' = c_desired s2 \<or> (\<exists>p. rp = Inr p \<and> c_desired s' = Some p)" using 2(8) by auto
  have keep: "saved_reported s'" if "c_desired s' = c_desired s" "set (c_log s) \<subseteq> set (c_log s')"
    using assms(2) that by (auto simp: saved_reported_def currentDesiredState_def)
  have step: "c_desired s2 = c_desired s \<and> set (c_log s) \<subseteq> set (c_log s2)"
    using 2(4) s1 by (cases rule: policy_step_result) (auto simp: reported_only_def dest!: apply_desired_result)
  from 2(4) show ?thesis
  proof (cases rule: policy_step_result)
    case kept
    show ?thesis
    proof (cases "c_desired s' = c_desired s2")
      case False
      then have c: "c_desired s' = Some (ci_desired inp)" using desired kept(2) by auto
      show ?thesis using assms(2) kept(3) step log c by (auto simp: saved_reported_def currentDesiredState_def)
    qed (use keep step log in auto)
  next
    case waits
    show ?thesis
    proof (cases "c_desired s' = c_desired s2")
      case False
      then have "currentDesiredState s' = keeping_policy (ci_desired inp) (currentDesiredState s)"
        using desired waits(2) by (auto simp: currentDesiredState_def)
      then have "dst_RevisionID (currentDesiredState s') = dst_RevisionID (currentDesiredState s)" by (simp add: keeping_policy_def)
      then show ?thesis using assms(2) step log by (auto simp: saved_reported_def)
    qed (use keep step log in auto)
  next
    case (failed e s3)
    then have "c_desired s' = c_desired s2" using desired by auto
    then show ?thesis using keep step log by auto
  next
    case (applied s3)
    show ?thesis
    proof (cases "c_desired s' = c_desired s2")
      case False
      then have "c_desired s' = Some (ci_desired inp)" using desired applied(5) by auto
      then show ?thesis using applied(4) log by (auto simp: saved_reported_def currentDesiredState_def reported_only_def)
    qed (use keep step log in auto)
  qed
qed

text \<open>Every heartbeat of a log comes after the report of the revision it names.\<close>

definition beats_reported :: "control_event list \<Rightarrow> bool" where
  "beats_reported l \<longleftrightarrow> (\<forall>xs rid sha cmd ys. l = xs @ HeartbeatSent rid sha cmd # ys \<longrightarrow>
     rid = [] \<or> PolicyResultSent rid ''APPLIED'' \<in> set xs)"

lemma beats_reported_append:
  assumes "beats_reported l" "list_all (beats rid) es" "rid = [] \<or> PolicyResultSent rid ''APPLIED'' \<in> set l"
  shows "beats_reported (l @ es)"
  unfolding beats_reported_def
proof (intro allI impI)
  fix xs x sha cmd ys
  assume e: "l @ es = xs @ HeartbeatSent x sha cmd # ys"
  show "x = [] \<or> PolicyResultSent x ''APPLIED'' \<in> set xs"
  proof (cases "length xs < length l")
    case True
    then obtain zs where "l = xs @ HeartbeatSent x sha cmd # zs" using e by (auto simp: append_eq_append_conv2 append_eq_Cons_conv)
    then show ?thesis using assms(1) unfolding beats_reported_def by blast
  next
    case False
    then obtain us where "xs = l @ us" "es = us @ HeartbeatSent x sha cmd # ys" using e by (auto simp: append_eq_append_conv2)
    then show ?thesis using assms(2,3) by (auto simp: beats_def)
  qed
qed

text \<open>C10:
  A heartbeat never names a revision the agent did not have: whatever calls fail and however often the process
  restarts, an agent that starts without a saved desired state sends a heartbeat with a revision only after it has reported that revision as
  applied. The Manager marks deployments as applied from heartbeats.
\<close>

theorem heartbeat_truthful:
  assumes "c_desired s = None" and "c_log s = []" and "c_log (control_run evs s) = xs @ HeartbeatSent rid sha cmd # ys"
  shows "rid = [] \<or> PolicyResultSent rid ''APPLIED'' \<in> set xs"
proof -
  have "saved_reported (control_run evs s) \<and> beats_reported (c_log (control_run evs s))"
  proof (induction evs rule: rev_induct)
    case Nil
    then show ?case using assms(1,2)
      by (simp add: control_run_def saved_reported_def currentDesiredState_def blank_desired_def beats_reported_def)
  next
    case (snoc ev evs)
    let ?t = "control_run evs s"
    have run: "control_run (evs @ [ev]) s = snd (agent_step ev ?t)" by (simp add: control_run_def)
    show ?case
    proof (cases ev)
      case (Cycle inp os)
      obtain r t' where c: "runControlCycle inp (?t\<lparr>c_outcomes := os\<rparr>) = (r, t')" by (cases "runControlCycle inp (?t\<lparr>c_outcomes := os\<rparr>)")
      have t: "saved_reported (?t\<lparr>c_outcomes := os\<rparr>)" "c_log (?t\<lparr>c_outcomes := os\<rparr>) = c_log ?t"
        "currentDesiredState (?t\<lparr>c_outcomes := os\<rparr>) = currentDesiredState ?t"
        using snoc by (simp_all add: saved_reported_def currentDesiredState_def)
      obtain es where "c_log t' = c_log ?t @ es" "list_all (beats (dst_RevisionID (currentDesiredState ?t))) es"
        using cycle_beats[OF c] t(2,3) by auto
      then have "beats_reported (c_log t')" using beats_reported_append snoc by (auto simp: saved_reported_def)
      then show ?thesis using cycle_saved[OF c t(1)] run Cycle c by simp
    next
      case Restart
      then show ?thesis using snoc run by (simp add: saved_reported_def currentDesiredState_def)
    qed
  qed
  then show ?thesis using assms(3) unfolding beats_reported_def by blast
qed

section \<open>Counting\<close>

fun run_hits :: "('e \<Rightarrow> 's \<Rightarrow> 'r \<times> 's) \<Rightarrow> ('s \<Rightarrow> 's \<Rightarrow> nat) \<Rightarrow> 'e list \<Rightarrow> 's \<Rightarrow> nat" where
  "run_hits step hits [] s = 0"
| "run_hits step hits (e # es) s = hits s (snd (step e s)) + run_hits step hits es (snd (step e s))"

fun run_bad :: "('e \<Rightarrow> 's \<Rightarrow> 'r \<times> 's) \<Rightarrow> ('r \<Rightarrow> bool) \<Rightarrow> 'e list \<Rightarrow> 's \<Rightarrow> nat" where
  "run_bad step bad [] s = 0"
| "run_bad step bad (e # es) s = (if bad (fst (step e s)) then 1 else 0) + run_bad step bad es (snd (step e s))"

locale marked_once =
  fixes step :: "'e \<Rightarrow> 's \<Rightarrow> 'r \<times> 's" and hits :: "'s \<Rightarrow> 's \<Rightarrow> nat" and marked :: "'s \<Rightarrow> bool"
    and bad :: "'r \<Rightarrow> bool" and fits :: "'e \<Rightarrow> bool"
  assumes hit_unmarked: "fits e \<Longrightarrow> step e s = (r, s') \<Longrightarrow> hits s s' \<le> (if marked s then 0 else 1)"
    and mark_stays: "fits e \<Longrightarrow> step e s = (r, s') \<Longrightarrow> marked s \<Longrightarrow> marked s'"
    and hit_marks: "fits e \<Longrightarrow> step e s = (r, s') \<Longrightarrow> hits s s' \<noteq> 0 \<Longrightarrow> marked s' \<or> bad r"
begin

lemma hits_bounded:
  "\<forall>e \<in> set es. fits e \<Longrightarrow> run_hits step hits es s \<le> (if marked s then 0 else 1) + run_bad step bad es s"
proof (induction es arbitrary: s)
  case (Cons e es)
  obtain r s' where st: "step e s = (r, s')" by (cases "step e s")
  have e: "fits e" using Cons.prems by simp
  have IH: "run_hits step hits es s' \<le> (if marked s' then 0 else 1) + run_bad step bad es s'"
    using Cons.IH Cons.prems by simp
  show ?case
    using IH hit_unmarked[OF e st] mark_stays[OF e st] hit_marks[OF e st] st by (cases "hits s s' = 0") (auto split: if_splits)
qed simp

lemma marked_stays_run: "\<forall>e \<in> set es. fits e \<Longrightarrow> marked s \<Longrightarrow> marked (foldl (\<lambda>s e. snd (step e s)) s es)"
proof (induction es arbitrary: s)
  case (Cons e es)
  then show ?case using mark_stays[of e s "fst (step e s)" "snd (step e s)"] by simp
qed simp

lemma hits_mark_run:
  "\<forall>e \<in> set es. fits e \<Longrightarrow> run_hits step hits es s \<noteq> 0 \<Longrightarrow> run_bad step bad es s = 0 \<Longrightarrow>
   marked (foldl (\<lambda>s e. snd (step e s)) s es)"
proof (induction es arbitrary: s)
  case (Cons e es)
  obtain r s' where st: "step e s = (r, s')" by (cases "step e s")
  have e: "fits e" using Cons.prems by simp
  have nb: "\<not> bad r" "run_bad step bad es s' = 0" using Cons.prems(3) st by (auto split: if_splits)
  show ?case
  proof (cases "hits s s' = 0")
    case True
    then show ?thesis using Cons.IH[of s'] Cons.prems(1,2) nb st by simp
  next
    case False
    then have "marked s'" using hit_marks[OF e st] nb by blast
    then show ?thesis using marked_stays_run[of es s'] Cons.prems(1) st by simp
  qed
qed simp

end

definition count_new :: "(control_event \<Rightarrow> bool) \<Rightarrow> control \<Rightarrow> control \<Rightarrow> nat" where
  "count_new P s s' = length (filter P (new_events s s'))"

lemma agent_step_log: "\<exists>es. c_log (snd (agent_step ev s)) = c_log s @ es"
proof (cases ev)
  case (Cycle inp os)
  obtain r s' where "runControlCycle inp (s\<lparr>c_outcomes := os\<rparr>) = (r, s')" by (cases "runControlCycle inp (s\<lparr>c_outcomes := os\<rparr>)")
  then show ?thesis using cycle_beats Cycle by fastforce
qed simp

lemma count_run:
  "length (filter P (c_log (control_run evs s))) = length (filter P (c_log s)) + run_hits agent_step (count_new P) evs s"
proof (induction evs arbitrary: s)
  case (Cons ev evs)
  obtain es where "c_log (snd (agent_step ev s)) = c_log s @ es" using agent_step_log by blast
  then show ?case using Cons.IH[of "snd (agent_step ev s)"] by (simp add: control_run_def count_new_def new_events_def)
qed (simp add: control_run_def)

section \<open>A revision is reported as applied once\<close>

definition bundled :: "string \<Rightarrow> string \<Rightarrow> agent_event \<Rightarrow> bool" where
  "bundled path rid ev \<longleftrightarrow> (\<forall>inp os. ev = Cycle inp os \<longrightarrow> pe_PolicyPath (ci_policy inp) = path \<and>
     (dst_RevisionID (ci_desired inp) = rid \<longrightarrow> dst_ArtifactFormat (ci_desired inp) \<in> {FormatOverride, Format, FormatV3}))"

definition revision_dir :: "string \<Rightarrow> string \<Rightarrow> control \<Rightarrow> directory option" where
  "revision_dir path rid s = map_of (fs_dirs (c_fs s)) (path_join (path_join (path_dir (path_clean (path_dir path))) ''revisions'') rid)"

lemma apply_policy_dirs:
  assumes "apply_policy env inp fs os = (pr, fs', os')"
  shows "map_of (fs_dirs fs) p \<noteq> None \<longrightarrow> map_of (fs_dirs fs') p \<noteq> None"
    "pr = None \<longrightarrow> dst_ArtifactFormat (ci_desired inp) \<in> {FormatOverride, Format, FormatV3} \<longrightarrow>
      map_of (fs_dirs fs') (revision_path env (ci_desired inp)) \<noteq> None \<and> map_of (fs_dirs fs) (revision_path env (ci_desired inp)) = None"
proof -
  consider (split) "ApplySplit env (ci_desired inp) (ci_base inp) (ci_override inp) fs os = (pr, fs', os')"
    | (single) "Apply env (ci_desired inp) (ci_artifact inp) fs os = (pr, fs', os')" "dst_ArtifactFormat (ci_desired inp) \<noteq> FormatOverride"
    using assms by (auto simp: apply_policy_def split: if_splits)
  then have "(map_of (fs_dirs fs) p \<noteq> None \<longrightarrow> map_of (fs_dirs fs') p \<noteq> None) \<and>
    (pr = None \<longrightarrow> dst_ArtifactFormat (ci_desired inp) \<in> {FormatOverride, Format, FormatV3} \<longrightarrow>
      map_of (fs_dirs fs') (revision_path env (ci_desired inp)) \<noteq> None \<and> map_of (fs_dirs fs) (revision_path env (ci_desired inp)) = None)"
  proof cases
    case split
    then show ?thesis using ApplySplit_dirs[OF split, of p] by simp
  next
    case single
    from single(1) have "pr = None \<longrightarrow> dst_ArtifactFormat (ci_desired inp) \<in> {Format, FormatV3} \<longrightarrow>
      map_of (fs_dirs fs') (revision_path env (ci_desired inp)) \<noteq> None \<and> map_of (fs_dirs fs) (revision_path env (ci_desired inp)) = None"
    proof (cases rule: Apply_cases)
      case (3 m files raw)
      then show ?thesis using applyBundleFiles_dirs[OF 3(3)] by blast
    qed auto
    then show ?thesis using Apply_dirs[OF single(1)] single(2) by auto
  qed
  then show "map_of (fs_dirs fs) p \<noteq> None \<longrightarrow> map_of (fs_dirs fs') p \<noteq> None"
    "pr = None \<longrightarrow> dst_ArtifactFormat (ci_desired inp) \<in> {FormatOverride, Format, FormatV3} \<longrightarrow>
      map_of (fs_dirs fs') (revision_path env (ci_desired inp)) \<noteq> None \<and> map_of (fs_dirs fs) (revision_path env (ci_desired inp)) = None"
    by blast+
qed

lemma cycle_fs:
  assumes "runControlCycle inp s = (r, s')"
  shows "c_fs s' = c_fs s \<or> (\<exists>env os pr os'. apply_policy env inp (c_fs s) os = (pr, c_fs s', os'))"
proof (cases rule: cycle_policyE[OF assms])
  case (1 es)
  then show ?thesis by (simp add: reported_only_def)
next
  case (2 iv s1 s2 rp es fs)
  have "c_fs s1 = c_fs s" using 2(2) by (simp add: reported_only_def)
  from 2(4) show ?thesis
  proof (cases rule: policy_step_result)
    case (failed e s3)
    then show ?thesis using apply_desired_result[OF failed(1)] 2(7) \<open>c_fs s1 = c_fs s\<close> by (auto simp: reported_only_def)
  next
    case (applied s3)
    then show ?thesis using apply_desired_result[OF applied(1)] 2(7) \<open>c_fs s1 = c_fs s\<close> by (auto simp: reported_only_def)
  qed (use 2(7) \<open>c_fs s1 = c_fs s\<close> in auto)
qed

lemma cycle_reports:
  assumes "runControlCycle inp s = (r, s')"
  shows "count_new (\<lambda>e. e = PolicyResultSent rid st) s s' \<le> 1" "count_new (\<lambda>e. e = PolicyResultSent rid st) s s' \<noteq> 0 \<Longrightarrow> st \<in> {''APPLIED'', ''FAILED''}"
proof -
  have "count_new (\<lambda>e. e = PolicyResultSent rid st) s s' \<le> 1 \<and>
    (count_new (\<lambda>e. e = PolicyResultSent rid st) s s' \<noteq> 0 \<longrightarrow> st \<in> {''APPLIED'', ''FAILED''})"
  proof (cases rule: cycle_policyE[OF assms])
    case (1 es)
    then have "new_events s s' = es" by (simp add: new_events_def reported_only_def)
    moreover have "filter (\<lambda>e. e = PolicyResultSent rid st) es = []" using no_policy_list[OF 1(2)] by (auto simp: filter_empty_conv)
    ultimately show ?thesis by (simp add: count_new_def)
  next
    case (2 iv s1 s2 rp es fs)
    have "\<exists>gs. c_log s2 = c_log s1 @ gs \<and> (gs = [] \<or> (\<exists>x y. gs = [PolicyResultSent x y] \<and> y \<in> {''APPLIED'', ''FAILED''}))"
      using 2(4) by (cases rule: policy_step_result) (auto simp: reported_only_def dest: apply_desired_result)
    then obtain gs where gs: "c_log s2 = c_log s1 @ gs" "gs = [] \<or> (\<exists>x y. gs = [PolicyResultSent x y] \<and> y \<in> {''APPLIED'', ''FAILED''})"
      by blast
    have "new_events s s' = es @ gs @ fs" using 2(2,5) gs(1) by (simp add: new_events_def reported_only_def)
    moreover have "filter (\<lambda>e. e = PolicyResultSent rid st) es = []" "filter (\<lambda>e. e = PolicyResultSent rid st) fs = []"
      using no_policy_list[OF 2(3)] no_policy_list[OF 2(6)] by (auto simp: filter_empty_conv)
    ultimately show ?thesis using gs(2) by (auto simp: count_new_def split: if_splits)
  qed
  then show "count_new (\<lambda>e. e = PolicyResultSent rid st) s s' \<le> 1"
    "count_new (\<lambda>e. e = PolicyResultSent rid st) s s' \<noteq> 0 \<Longrightarrow> st \<in> {''APPLIED'', ''FAILED''}" by blast+
qed

lemma count_new_event: "count_new (\<lambda>e. e = x) s s' \<noteq> 0 \<longleftrightarrow> x \<in> set (new_events s s')"
  by (auto simp: count_new_def filter_empty_conv)

lemma bundled_cycle:
  assumes "bundled path rid ev" "agent_step ev s = (r, s')"
  shows "count_new (\<lambda>e. e = PolicyResultSent rid ''APPLIED'') s s' \<noteq> 0 \<Longrightarrow> revision_dir path rid s = None \<and> revision_dir path rid s' \<noteq> None"
    "revision_dir path rid s \<noteq> None \<Longrightarrow> revision_dir path rid s' \<noteq> None"
    "count_new (\<lambda>e. e = PolicyResultSent rid st) s s' \<le> 1"
    "count_new (\<lambda>e. e = PolicyResultSent rid st) s s' \<noteq> 0 \<Longrightarrow> st \<in> {''APPLIED'', ''FAILED''}"
proof -
  have "(count_new (\<lambda>e. e = PolicyResultSent rid ''APPLIED'') s s' \<noteq> 0 \<longrightarrow> revision_dir path rid s = None \<and> revision_dir path rid s' \<noteq> None) \<and>
    (revision_dir path rid s \<noteq> None \<longrightarrow> revision_dir path rid s' \<noteq> None) \<and> count_new (\<lambda>e. e = PolicyResultSent rid st) s s' \<le> 1 \<and>
    (count_new (\<lambda>e. e = PolicyResultSent rid st) s s' \<noteq> 0 \<longrightarrow> st \<in> {''APPLIED'', ''FAILED''})"
  proof (cases ev)
    case (Cycle inp os)
    let ?s = "s\<lparr>c_outcomes := os\<rparr>"
    have c: "runControlCycle inp ?s = (r, s')" using assms(2) Cycle by simp
    have same: "count_new P ?s s' = count_new P s s'" "new_events ?s s' = new_events s s'" for P by (simp_all add: count_new_def new_events_def)
    have b: "pe_PolicyPath (ci_policy inp) = path"
      "dst_RevisionID (ci_desired inp) = rid \<Longrightarrow> dst_ArtifactFormat (ci_desired inp) \<in> {FormatOverride, Format, FormatV3}"
      using assms(1) Cycle by (auto simp: bundled_def)
    have "revision_dir path rid s \<noteq> None \<longrightarrow> revision_dir path rid s' \<noteq> None"
      using cycle_fs[OF c] apply_policy_dirs(1) unfolding revision_dir_def by fastforce
    moreover have "revision_dir path rid s = None \<and> revision_dir path rid s' \<noteq> None"
      if e: "PolicyResultSent rid ''APPLIED'' \<in> set (new_events ?s s')"
    proof -
      obtain iv env b2 os2 os' where o: "rid = dst_RevisionID (ci_desired inp)" "ci_inventory inp = Some iv" "iv_IntegrationReady iv"
        "iv_ConfigTestOK iv" "env = (ci_policy inp)\<lparr>pe_webServer := iv_WebServer iv, pe_hooks := b2\<rparr>"
        "apply_policy env inp (c_fs ?s) os2 = (None, c_fs s', os')"
        using cycle_applied[OF c e] by blast
      have a: "rid = dst_RevisionID (ci_desired inp)" "env = (ci_policy inp)\<lparr>pe_webServer := iv_WebServer iv, pe_hooks := b2\<rparr>"
        "apply_policy env inp (c_fs s) os2 = (None, c_fs s', os')"
        using o(1,5,6) by simp_all
      have "revision_path env (ci_desired inp) = path_join (path_join (path_dir (path_clean (path_dir path))) ''revisions'') rid"
        using a(1,2) b(1) by (simp add: revision_path_def revisionsPath_def activePath_def)
      then show ?thesis using apply_policy_dirs(2)[OF a(3)] b(2) a(1) by (auto simp: revision_dir_def)
    qed
    ultimately show ?thesis using cycle_reports[OF c] same count_new_event by metis
  next
    case Restart
    then show ?thesis using assms(2) by (auto simp: count_new_def new_events_def revision_dir_def)
  qed
  then show "count_new (\<lambda>e. e = PolicyResultSent rid ''APPLIED'') s s' \<noteq> 0 \<Longrightarrow> revision_dir path rid s = None \<and> revision_dir path rid s' \<noteq> None"
    "revision_dir path rid s \<noteq> None \<Longrightarrow> revision_dir path rid s' \<noteq> None"
    "count_new (\<lambda>e. e = PolicyResultSent rid st) s s' \<le> 1"
    "count_new (\<lambda>e. e = PolicyResultSent rid st) s s' \<noteq> 0 \<Longrightarrow> st \<in> {''APPLIED'', ''FAILED''}" by blast+
qed

interpretation applied: marked_once agent_step "count_new (\<lambda>e. e = PolicyResultSent rid ''APPLIED'')"
  "\<lambda>s. revision_dir path rid s \<noteq> None" "\<lambda>_. False" "bundled path rid" for path rid
proof
  show "count_new (\<lambda>e. e = PolicyResultSent rid ''APPLIED'') s s' \<le> (if revision_dir path rid s \<noteq> None then 0 else 1)"
    if "bundled path rid e" "agent_step e s = (r, s')" for e s r s'
    using bundled_cycle(1,3)[OF that] by force
qed (use bundled_cycle(1,2) in blast)+

lemma run_bad_none: "run_bad step (\<lambda>_. False) es s = 0"
  by (induction es arbitrary: s) simp_all

text \<open>C36:
  The report that a revision in one of the bundle formats was applied is final, and cannot be repeated: in any run of an agent over
  one policy path, whatever calls fail, once the report has been sent, lost or not, every later report on the revision says that it
  failed, as long as the revision keeps being offered in those formats. An agent
  whose report got lost, or that could not save the desired state, applies the revision again in the next cycle and reports a failure, although the
  revision is active.
\<close>

theorem applied_report_final:
  assumes "\<forall>ev \<in> set (evs @ [ev]). bundled path rid ev" and "c_log s = []"
    and "PolicyResultSent rid ''APPLIED'' \<in> set (c_log (control_run evs s))"
    and "agent_step ev (control_run evs s) = (r, s')" and "PolicyResultSent rid st \<in> set (new_events (control_run evs s) s')"
  shows "st = ''FAILED''"
proof -
  have "length (filter (\<lambda>e. e = PolicyResultSent rid ''APPLIED'') (c_log (control_run evs s))) \<noteq> 0"
    using assms(3) by (auto simp: filter_empty_conv)
  then have "run_hits agent_step (count_new (\<lambda>e. e = PolicyResultSent rid ''APPLIED'')) evs s \<noteq> 0"
    using assms(2) count_run[of "\<lambda>e. e = PolicyResultSent rid ''APPLIED''" evs s] by simp
  then have there: "revision_dir path rid (control_run evs s) \<noteq> None"
    unfolding control_run_def using assms(1) by (intro applied.hits_mark_run[OF _ _ run_bad_none]) simp_all
  have b: "bundled path rid ev" using assms(1) by simp
  have "count_new (\<lambda>e. e = PolicyResultSent rid st) (control_run evs s) s' \<noteq> 0" using assms(5) count_new_event by metis
  then show ?thesis using bundled_cycle(1,4)[OF b assms(4)] there by blast
qed

section \<open>A package deployment is installed once\<close>

abbreviation package_marks :: "control \<Rightarrow> string \<times> string" where
  "package_marks s \<equiv> (c_installed s, c_failed s)"

definition no_attempt :: "control_event \<Rightarrow> bool" where
  "no_attempt e \<longleftrightarrow> (\<forall>i. e \<noteq> PackageAttempt i)"

lemma keeps_file [frames]:
  "(\<And>s fs os. g (s\<lparr>c_fs := fs, c_outcomes := os\<rparr>) = g s) \<Longrightarrow> keeps g (policy_file_call f)"
  by (simp add: keeps_def policy_file_call_def split: prod.split option.split)

lemma before_packages: 
  "keeps package_marks (identity_step inp)" "logs no_attempt (identity_step inp)"
  "keeps package_marks (sync_policy inp iv)" "logs no_attempt (sync_policy inp iv)"
  unfolding identity_step_def policy_steps heartbeat_steps Let_def by (intro frames; simp add: no_attempt_def)+

lemma after_packages: "keeps package_marks (executeNextCommand inp)" "logs no_attempt (executeNextCommand inp)"
  unfolding command_steps by (intro frames; (simp add: no_attempt_def)?; (auto intro!: frames split: if_splits)?)+

lemma installing: "keeps package_marks (applyPackageDeployment inp d)" "logs no_attempt (applyPackageDeployment inp d)"
  unfolding package_steps by (intro frames; simp add: no_attempt_def)+

lemma restarting: "keeps package_marks (restart_agent d)" "logs no_attempt (restart_agent d)"
  unfolding package_steps by (intro frames; simp add: no_attempt_def)+

lemma marking: "keeps c_installed (mark_package_failed i)" "logs no_attempt (mark_package_failed i)"
  "keeps package_marks (mark_reported i)" "logs no_attempt (mark_reported i)"
  "keeps package_marks (send e)" "no_attempt e \<Longrightarrow> logs no_attempt (send e)"
  unfolding package_steps by (intro frames; simp add: no_attempt_def)+

definition unkept :: "control_error + unit \<Rightarrow> bool" where
  "unkept r \<longleftrightarrow> (\<exists>w \<in> {''send'', ''save installed'', ''save failed''}. r = Inl (CallFailed w))"

lemma callE:
  assumes "call w f s = (r, s')"
  obtains os where "r = Inr ()" "s' = f (s\<lparr>c_outcomes := os\<rparr>)" | "r = Inl (CallFailed w)"
  using assms by (auto simp: call_def split: prod.splits if_splits)

lemma mark_failed_result:
  assumes "andThen (mark_package_failed i) (fail e) s = (r, s')"
  shows "c_failed s' = i \<or> r = Inl (CallFailed ''save failed'')"
proof -
  have rest: "keeps c_failed (andThen (call ''save failed detail'' (\<lambda>s. s\<lparr>c_failed_detail := ''failed''\<rparr>)) (mark_reported i))"
    unfolding mark_reported_def by (intro frames) simp_all
  have mf: "c_failed s2 = i \<or> r2 = Inl (CallFailed ''save failed'')" if "mark_package_failed i s = (r2, s2)" for r2 s2
    using that unfolding mark_package_failed_def
  proof (cases rule: andThenE)
    case (stopped x)
    then show ?thesis by (auto elim!: callE)
  next
    case (went_on s1)
    then show ?thesis using keepsD[OF rest went_on(2)] by (auto elim!: callE)
  qed
  from assms show ?thesis
  proof (cases rule: andThenE)
    case (stopped x)
    then show ?thesis using mf by auto
  next
    case (went_on s1)
    then show ?thesis using mf[OF went_on(1)] by (auto simp: fail_def)
  qed
qed

lemma send_error: "send e s = (Inl x, s') \<Longrightarrow> x = CallFailed ''send''"
  by (auto simp: send_def andThen_def bnd_def note_event_def modify_def call_def split: prod.splits if_splits)

lemma new_deployment_result:
  assumes "new_deployment inp d s = (r, s')"
  shows "(c_installed s' = pk_ID d \<or> c_failed s' = pk_ID d \<or> unkept r) \<and>
    (\<exists>es. c_log s' = c_log s @ PackageAttempt (pk_ID d) # es \<and> list_all no_attempt es)"
proof -
  let ?s = "put_log (PackageAttempt (pk_ID d)) s"
  let ?body = "trying (applyPackageDeployment inp d)
         (\<lambda>e. andThen (send (PackageResultSent (pk_ID d) ''FAILED'')) (andThen (mark_package_failed (pk_ID d)) (fail e)))
         (\<lambda>agentUpdated. andThen (call ''save installed'' (\<lambda>s. s\<lparr>c_installed := pk_ID d\<rparr>)) (steps agentUpdated (restart_agent d)))"
  have run: "?body ?s = (r, s')"
    using assms by (simp add: new_deployment_def andThen_def bnd_def note_event_def modify_def)
  have "logs no_attempt ?body"
    by (intro frames installing restarting marking) (simp_all add: no_attempt_def)
  from logsD[OF this run] have "\<exists>es. c_log s' = c_log s @ PackageAttempt (pk_ID d) # es \<and> list_all no_attempt es"
    by (auto simp: put_log_def)
  moreover have "c_installed s' = pk_ID d \<or> c_failed s' = pk_ID d \<or> unkept r"
    using run
  proof (cases rule: tryingE)
    case (failed e s1)
    from failed(2) show ?thesis
    proof (cases rule: andThenE)
      case (stopped x)
      then show ?thesis using send_error by (auto simp: unkept_def)
    next
      case (went_on s2)
      then show ?thesis using mark_failed_result[OF went_on(2)] by (auto simp: unkept_def)
    qed
  next
    case (done_it x s1)
    from done_it(2) show ?thesis
    proof (cases rule: andThenE)
      case (stopped e)
      then show ?thesis by (auto simp: unkept_def elim!: callE)
    next
      case (went_on s2)
      have "keeps package_marks (steps x (restart_agent d))" by (intro frames restarting)
      from keepsD[OF this went_on(2)] have "c_installed s' = c_installed s2" by simp
      then show ?thesis using went_on(1) by (auto elim!: callE)
    qed
  qed
  ultimately show ?thesis by blast
qed

lemma read_valueE:
  assumes "bnd (read_value f) g s = (r, s')" "\<And>s os. f (s\<lparr>c_outcomes := os\<rparr>) = f s"
  obtains (stopped) e where "r = Inl e" "only_outcomes s s'" | (went_on) s1 where "only_outcomes s s1" "g (f s) s1 = (r, s')"
proof -
  from assms(1) show ?thesis
  proof (cases rule: bndE)
    case (stopped e)
    from stopped(1)[unfolded read_value_def] have "only_outcomes s s'"
      by (cases rule: quiet_callE) (auto simp: get_def only_outcomes_def)
    then show ?thesis using stopped(2) that(1) by blast
  next
    case (went_on x s1)
    from went_on(1)[unfolded read_value_def] have "only_outcomes s s1 \<and> x = f s"
    proof (cases rule: quiet_callE)
      case (went_on s2)
      then show ?thesis using assms(2) by (auto simp: get_def only_outcomes_def)
    qed simp
    then show ?thesis using went_on(2) that(2) by blast
  qed
qed

lemma reporting: "keeps c_installed (report_installed_deployment iv d a b c)" "logs no_attempt (report_installed_deployment iv d a b c)"
  "keeps package_marks (report_failed_deployment d a)" "logs no_attempt (report_failed_deployment d a)"
  unfolding report_installed_deployment_def report_failed_deployment_def mark_package_failed_def mark_reported_def
  by (intro frames; simp add: no_attempt_def)+

text \<open>The package step on a deployment \<open>i\<close>: nothing is attempted under a mark, and an attempt leaves a mark or an error.\<close>

lemma package_step_result:
  assumes "package_step inp iv dep s = (r, s')" "\<And>d. dep = Some d \<Longrightarrow> pk_ID d = i"
  shows "\<exists>es. c_log s' = c_log s @ es \<and>
    (list_all no_attempt es \<and> (c_installed s = i \<or> c_failed s = i \<longrightarrow> c_installed s' = i \<or> c_failed s' = i) \<or>
     c_installed s \<noteq> i \<and> c_failed s \<noteq> i \<and> (\<exists>fs. es = PackageAttempt i # fs \<and> list_all no_attempt fs) \<and>
       (c_installed s' = i \<or> c_failed s' = i \<or> (\<exists>e. r = Inl e \<and> unkept (Inl e))) \<and> r \<noteq> Inr True)"
proof (cases dep)
  case None
  then show ?thesis using assms(1) by (simp add: package_step_def ret_def)
next
  case (Some d)
  have i: "pk_ID d = i" by (rule assms(2)[OF Some])
  have quiet: ?thesis if "only_outcomes s s'" using that by (auto simp: only_outcomes_def)
  have step: ?thesis if q: "only_outcomes s s0" and k: "keeps package_marks m" "logs no_attempt m" "m s0 = (r0, s')" for m :: "'a step" and s0 r0
    using logsD[OF k(2,3)] keepsD[OF k(1,3)] q by (auto simp: only_outcomes_def)
  note run = assms(1)[unfolded package_step_def Some option.case]
  have upd: "c_installed (x\<lparr>c_outcomes := os\<rparr>) = c_installed x" "c_failed (x\<lparr>c_outcomes := os\<rparr>) = c_failed x"
    "c_reported (x\<lparr>c_outcomes := os\<rparr>) = c_reported x" for x os by simp_all
  from run upd(1) show ?thesis
  proof (cases rule: read_valueE)
    case (went_on s1)
    note s1 = this
    from s1(2) upd(2) show ?thesis
    proof (cases rule: read_valueE)
      case (went_on s2)
      note s2 = this
      from s2(2) upd(3) show ?thesis
      proof (cases rule: read_valueE)
        case (went_on s3)
        have q: "only_outcomes s s3" using s1(1) s2(1) went_on(1) by (blast intro: only_outcomes_trans)
        have vals: "c_failed s1 = c_failed s" "c_log s3 = c_log s" "c_installed s3 = c_installed s" "c_failed s3 = c_failed s"
          using s1(1) q by (auto simp: only_outcomes_def)
        note body = went_on(2)[unfolded vals i]
        show ?thesis
        proof (cases "c_failed s = i")
          case True
          let ?m = "andThen (report_failed_deployment d (c_reported s2)) (ret False)"
          have k: "keeps package_marks ?m" "logs no_attempt ?m" by (intro frames reporting)+
          have m: "?m s3 = (r, s')" using body True by simp
          have "c_failed s' = i" using keepsD[OF k(1) m] vals True by simp
          then show ?thesis using logsD[OF k(2) m] vals by auto
        next
          case nf: False
          show ?thesis
          proof (cases "c_installed s = i")
            case True
            let ?m = "bnd (get c_restart_requested) (\<lambda>requested.
                andThen (report_installed_deployment iv d (c_reported s2) (c_failed s) requested) (ret True))"
            have k: "keeps c_installed ?m" "logs no_attempt ?m" by (intro frames reporting)+
            have m: "?m s3 = (r, s')" using body True nf by simp
            have "c_installed s' = i" using keepsD[OF k(1) m] vals True by simp
            then show ?thesis using logsD[OF k(2) m] vals by auto
          next
            case ni: False
            have "andThen (new_deployment inp d) (ret False) s3 = (r, s')" using body ni nf by simp
            then obtain r1 where nd: "new_deployment inp d s3 = (r1, s')" and r: "r = (case r1 of Inl e \<Rightarrow> Inl e | Inr _ \<Rightarrow> Inr False)"
              by (cases rule: andThenE) (auto simp: ret_def)
            show ?thesis
            proof -
              obtain es where es: "c_log s' = c_log s @ PackageAttempt i # es" "list_all no_attempt es"
                and m: "c_installed s' = i \<or> c_failed s' = i \<or> unkept r1"
                using new_deployment_result[OF nd] vals i by auto
              have "c_installed s' = i \<or> c_failed s' = i \<or> (\<exists>e. r = Inl e \<and> unkept (Inl e))" "r \<noteq> Inr True"
                using m r by (cases r1; auto simp: unkept_def)+
              then show ?thesis using es ni nf by blast
            qed
          qed
        qed
      qed (rule quiet; use s1(1) s2(1) in \<open>auto simp: only_outcomes_def\<close>)
    qed (rule quiet; use s1(1) in \<open>auto simp: only_outcomes_def\<close>)
  qed (rule quiet)
qed

lemma andThen_assoc: "andThen (andThen a b) c = andThen a (andThen b c)"
  by (rule ext) (auto simp: andThen_def bnd_def split: prod.split sum.split)

text \<open>A cycle up to its work on the host.\<close>

lemma cycle_hostE:
  assumes run: "runControlCycle inp s = (r, s')"
    and k: "keeps g (identity_step inp)" "logs P (identity_step inp)" "\<And>iv. keeps g (sync_policy inp iv)" "\<And>iv. logs P (sync_policy inp iv)"
    and c: "\<And>iv. g (ConfigureWebServer iv s) = g s"
  obtains (early) es where "g s' = g s" "c_log s' = c_log s @ es" "list_all P es"
    | (host) iv s1 es where "g s1 = g s" "c_log s1 = c_log s @ es" "list_all P es" "host_step inp iv s1 = (r, s')"
proof (cases "ci_inventory inp")
  case None
  then have "s' = s" using run by (simp add: runControlCycle_def fail_def)
  then show ?thesis using early[of "[]"] by simp
next
  case (Some iv)
  let ?m = "andThen (identity_step inp) (sync_policy inp iv)"
  have m: "keeps g ?m" "logs P ?m" using k by (intro frames; simp)+
  have log: "c_log (ConfigureWebServer iv s) = c_log s" by (simp add: ConfigureWebServer_def)
  have "andThen ?m (host_step inp iv) (ConfigureWebServer iv s) = (r, s')"
    using run Some unfolding andThen_assoc by (simp add: runControlCycle_def andThen_def [of "modify _"] bnd_def modify_def)
  then show ?thesis
  proof (cases rule: andThenE)
    case (stopped e)
    then show ?thesis using keepsD[OF m(1) stopped(1)] logsD[OF m(2) stopped(1)] log c early by auto
  next
    case (went_on s1)
    then show ?thesis using keepsD[OF m(1) went_on(1)] logsD[OF m(2) went_on(1)] log c host by auto
  qed
qed

definition package_event :: "string \<Rightarrow> agent_event \<Rightarrow> bool" where
  "package_event i ev \<longleftrightarrow> (\<forall>inp os d. ev = Cycle inp os \<longrightarrow> dst_PackageDeployment (ci_desired inp) = Some d \<longrightarrow> pk_ID d = i)"

definition package_marked :: "string \<Rightarrow> control \<Rightarrow> bool" where
  "package_marked i s \<longleftrightarrow> c_installed s = i \<or> c_failed s = i"

lemma attempts_none: "list_all no_attempt es \<Longrightarrow> filter (\<lambda>e. e = PackageAttempt i) es = []"
  by (auto simp: filter_empty_conv list_all_iff no_attempt_def)

lemma package_cycle:
  assumes "package_event i ev" "agent_step ev s = (r, s')"
  shows "count_new (\<lambda>e. e = PackageAttempt i) s s' = 0 \<and> (package_marked i s \<longrightarrow> package_marked i s') \<or>
    count_new (\<lambda>e. e = PackageAttempt i) s s' = 1 \<and> \<not> package_marked i s \<and> (package_marked i s' \<or> unkept r)"
proof (cases ev)
  case (Cycle inp os)
  have dep: "dst_PackageDeployment (ci_desired inp) = Some d \<Longrightarrow> pk_ID d = i" for d using assms(1) Cycle by (auto simp: package_event_def)
  have run: "runControlCycle inp (s\<lparr>c_outcomes := os\<rparr>) = (r, s')" using assms(2) Cycle by simp
  show ?thesis
  proof (cases rule: cycle_hostE[OF run before_packages])
    case 1
    then show ?case by (simp add: ConfigureWebServer_def)
  next
    case (2 es)
    then show ?thesis using attempts_none[OF 2(3)] by (auto simp: count_new_def new_events_def package_marked_def)
  next
    case (3 iv s1 es)
    have marks: "package_marked i s1 = package_marked i s" using 3(1) by (simp add: package_marked_def)
    have log: "c_log s1 = c_log s @ es" using 3(2) by simp
    obtain r1 s2 where st: "package_step inp iv (dst_PackageDeployment (ci_desired inp)) s1 = (r1, s2)"
      by (cases "package_step inp iv (dst_PackageDeployment (ci_desired inp)) s1")
    note res = package_step_result[OF st dep]
    have rest: "\<exists>fs. c_log s' = c_log s2 @ fs \<and> list_all no_attempt fs \<and> package_marked i s' = package_marked i s2 \<and>
        (\<forall>e. r1 = Inl e \<longrightarrow> r = Inl e)"
      using 3(4)[unfolded host_step_def]
    proof (cases rule: bndE)
      case (stopped e)
      then show ?thesis using st by (intro exI[of _ "[]"]) auto
    next
      case (went_on x s3)
      have k: "keeps package_marks (steps x (executeNextCommand inp))" "logs no_attempt (steps x (executeNextCommand inp))"
        by (intro frames after_packages)+
      show ?thesis using went_on(1) st keepsD[OF k(1) went_on(2)] logsD[OF k(2) went_on(2)] by (auto simp: package_marked_def)
    qed
    obtain fs where fs: "c_log s' = c_log s2 @ fs" "list_all no_attempt fs" "package_marked i s' = package_marked i s2"
      "\<And>e. r1 = Inl e \<Longrightarrow> r = Inl e" using rest by blast
    from res obtain gs where gs: "c_log s2 = c_log s1 @ gs"
      "list_all no_attempt gs \<and> (package_marked i s1 \<longrightarrow> package_marked i s2) \<or>
       \<not> package_marked i s1 \<and> (\<exists>hs. gs = PackageAttempt i # hs \<and> list_all no_attempt hs) \<and>
         (package_marked i s2 \<or> (\<exists>e. r1 = Inl e \<and> unkept (Inl e)))"
      unfolding package_marked_def by blast
    have new: "new_events s s' = es @ gs @ fs" using log gs(1) fs(1) by (simp add: new_events_def)
    show ?thesis
      using gs(2) new marks fs(3,4) attempts_none[OF 3(3)] attempts_none[OF fs(2)]
      by (auto simp: count_new_def dest: attempts_none)
  qed
next
  case Restart
  then show ?thesis using assms(2) by (auto simp: count_new_def new_events_def package_marked_def)
qed

interpretation packages: marked_once agent_step "count_new (\<lambda>e. e = PackageAttempt i)" "package_marked i" unkept "package_event i" for i
proof
  fix e s r s' assume "package_event i e" "agent_step e s = (r, s')"
  note c = package_cycle[OF this]
  show "count_new (\<lambda>e. e = PackageAttempt i) s s' \<le> (if package_marked i s then 0 else 1)" using c by auto
  show "package_marked i s \<Longrightarrow> package_marked i s'" using c by auto
  show "count_new (\<lambda>e. e = PackageAttempt i) s s' \<noteq> 0 \<Longrightarrow> package_marked i s' \<or> unkept r" using c by auto
qed

text \<open>C25:
  A package deployment is installed once. As long as no other deployment is offered, however often the agent is told about this one, and
  however often it restarts, it attempts the installation at most once more than there were cycles that ended because a call to
  the Manager failed (any call, the heartbeat included) or because the result could not be saved; a failed installation is not tried again
  by itself.
\<close>

theorem package_installed_once:
  assumes "\<forall>ev \<in> set evs. package_event i ev" and "c_log s = []"
  shows "length (filter (\<lambda>e. e = PackageAttempt i) (c_log (control_run evs s))) \<le> 1 + run_bad agent_step unkept evs s"
  using packages.hits_bounded[OF assms(1), of s] count_run[of "\<lambda>e. e = PackageAttempt i" evs s] assms(2)
  by (simp split: if_splits)

section \<open>A command is executed once\<close>

definition no_exec :: "control_event \<Rightarrow> bool" where
  "no_exec e \<longleftrightarrow> (\<forall>i command. e \<noteq> CommandExecuted i command)"

definition executes :: "string \<Rightarrow> control_event \<Rightarrow> bool" where
  "executes i e \<longleftrightarrow> (\<exists>command. e = CommandExecuted i command)"

lemma before_commands:
  "keeps c_last_command (identity_step inp)" "logs no_exec (identity_step inp)"
  "keeps c_last_command (sync_policy inp iv)" "logs no_exec (sync_policy inp iv)"
  "keeps c_last_command (package_step inp iv d)" "logs no_exec (package_step inp iv d)"
  unfolding identity_step_def policy_steps heartbeat_steps package_steps by (intro frames; simp add: no_exec_def)+

definition unsaved :: "control_error + unit \<Rightarrow> bool" where
  "unsaved r \<longleftrightarrow> (\<exists>w \<in> {''execute'', ''save command''}. r = Inl (CallFailed w))"

lemma save_command_result: "save_command i s = (r, s') \<Longrightarrow> c_log s' = c_log s \<and> (c_last_command s' = i \<or> unsaved r)"
  by (auto simp: save_command_def call_def unsaved_def split: prod.splits if_splits)

lemma report_failed: "keeps c_last_command (andThen (ignoring (send (CommandResultSent i st))) (fail e))"
    "logs no_exec (andThen (ignoring (send (CommandResultSent i st))) (fail e))"
  by (intro frames; simp add: no_exec_def)+

lemma reports_error: "andThen (ignoring m) (fail e) s = (r, s') \<Longrightarrow> r = Inl e"
  by (auto simp: andThen_def bnd_def ignoring_def fail_def split: prod.splits sum.splits)

lemma andThen_note: "andThen (note_event e) m s = m (put_log e s)"
  by (simp add: andThen_def bnd_def note_event_def modify_def)

lemma execute_fixed_result:
  assumes "execute_fixed i command s = (r, s')"
  shows "\<exists>es. c_log s' = c_log s @ CommandExecuted i command # es \<and> list_all no_exec es \<and> (c_last_command s' = i \<or> unsaved r)"
proof -
  let ?s = "put_log (CommandExecuted i command) s"
  have "trying (call ''execute'' id) (\<lambda>e. andThen (ignoring (send (CommandResultSent i ''FAILED''))) (fail e)) (\<lambda>_. save_command i) ?s = (r, s')"
    using assms by (simp add: execute_fixed_def andThen_note)
  then show ?thesis
  proof (cases rule: tryingE)
    case (failed e s1)
    have "c_log s1 = c_log ?s" "e = CallFailed ''execute''" using failed(1) by (auto simp: call_def split: prod.splits if_splits)
    then show ?thesis using logsD[OF report_failed(2) failed(2)] reports_error[OF failed(2)]
      by (auto simp: unsaved_def put_log_def)
  next
    case (done_it x s1)
    have "c_log s1 = c_log ?s" using done_it(1) by (auto simp: call_def split: prod.splits if_splits)
    then show ?thesis using save_command_result[OF done_it(2)] by (auto simp: put_log_def)
  qed
qed

lemma changing_control:
  assumes "applyWebServerControlCommand command = Some change"
  shows "keeps c_last_command change" "logs no_exec change"
  using assms unfolding applyWebServerControlCommand_def change_control_def validateControlHooks_def
  by (auto intro!: frames split: if_splits)

lemma controlling:
  assumes "applyWebServerControlCommand command = Some change"
  shows "logs no_exec (control_command i change)"
  unfolding control_command_def save_command_def by (intro frames changing_control[OF assms]; simp add: no_exec_def)

lemma control_command_last:
  assumes "applyWebServerControlCommand command = Some change" "control_command i change s = (r, s')"
  shows "c_last_command s' = c_last_command s \<or> c_last_command s' = i"
proof -
  from assms(2)[unfolded control_command_def] show ?thesis
  proof (cases rule: tryingE)
    case (failed e s1)
    then show ?thesis using keepsD[OF changing_control(1)[OF assms(1)]] keepsD[OF report_failed(1)] by metis
  next
    case (done_it x s1)
    have s1: "c_last_command s1 = c_last_command s" using keepsD[OF changing_control(1)[OF assms(1)] done_it(1)] .
    have send: "keeps c_last_command (send e)" for e by (intro frames) simp_all
    from done_it(2) show ?thesis
    proof (cases rule: andThenE)
      case (stopped e)
      then show ?thesis using keepsD[OF send] s1 by metis
    next
      case (went_on s2)
      have "c_last_command s2 = c_last_command s" using keepsD[OF send went_on(1)] s1 by simp
      then show ?thesis using went_on(2) by (auto simp: save_command_def call_def split: prod.splits if_splits)
    qed
  qed
qed

lemma executeNextCommand_result:
  assumes "executeNextCommand inp s = (r, s')" "fst (ci_command inp) = [] \<or> fst (ci_command inp) = i" "i \<noteq> []"
  shows "\<exists>es. c_log s' = c_log s @ es \<and>
    (list_all no_exec es \<and> (c_last_command s = i \<longrightarrow> c_last_command s' = i) \<or>
     c_last_command s \<noteq> i \<and> (\<exists>us command vs. es = us @ CommandExecuted i command # vs \<and> list_all no_exec (us @ vs)) \<and>
       (c_last_command s' = i \<or> unsaved r))"
proof -
  obtain j command where j: "ci_command inp = (j, command)" by (cases "ci_command inp")
  have quiet: ?thesis if "only_outcomes s s'" using that by (auto simp: only_outcomes_def)
  have kept: ?thesis if "only_outcomes s s0" "keeps c_last_command m" "logs no_exec m" "m s0 = (r0, s')" for m :: "'x step" and s0 r0
    using logsD[OF that(3,4)] keepsD[OF that(2,4)] that(1) by (auto simp: only_outcomes_def)
  note run = assms(1)[unfolded executeNextCommand_def j prod.case]
  from run show ?thesis
  proof (cases rule: quiet_callE)
    case (went_on s1)
    note s1 = this
    show ?thesis
    proof (cases "j = []")
      case True
      then show ?thesis using s1 quiet by (auto simp: ret_def)
    next
      case False
      then have ji: "j = i" using assms(2) j by simp
      have upd: "c_last_command (x\<lparr>c_outcomes := os\<rparr>) = c_last_command x" for x os by simp
      have next_cmd: "bnd (read_value c_last_command) (\<lambda>lastID.
          if lastID = i then send (CommandResultSent i ''ACCEPTED'')
          else case applyWebServerControlCommand command of
                 Some change \<Rightarrow> control_command i change
               | None \<Rightarrow>
                   if \<not> ci_fixed inp command
                   then andThen (ignoring (send (CommandResultSent i ''FAILED''))) (fail (Invalid ''unsupported command''))
                   else andThen (send (CommandResultSent i ''ACCEPTED'')) (execute_fixed i command)) s1 = (r, s')"
        using s1(2) by (simp only: ji if_not_P[OF assms(3)])
      from next_cmd upd show ?thesis
      proof (cases rule: read_valueE)
        case (went_on s2)
        have q: "only_outcomes s s2" "c_last_command s1 = c_last_command s" "c_log s2 = c_log s" "c_last_command s2 = c_last_command s"
          using s1(1) went_on(1) by (auto simp: only_outcomes_def)
        note body = went_on(2)[unfolded q(2)]
        show ?thesis
        proof (cases "c_last_command s = i")
          case True
          have "keeps c_last_command (send (CommandResultSent i ''ACCEPTED''))" "logs no_exec (send (CommandResultSent i ''ACCEPTED''))"
            by (intro frames; simp add: no_exec_def)+
          moreover have "send (CommandResultSent i ''ACCEPTED'') s2 = (r, s')" using body True by simp
          ultimately show ?thesis by (rule kept[OF q(1)])
        next
          case fresh: False
          show ?thesis
          proof (cases "applyWebServerControlCommand command")
            case (Some change)
            have c: "control_command i change s2 = (r, s')" using body fresh Some by simp
            show ?thesis using logsD[OF controlling[OF Some] c] q(3) fresh by auto
          next
            case None
            show ?thesis
            proof (cases "ci_fixed inp command")
              case False
              have c: "andThen (ignoring (send (CommandResultSent i ''FAILED''))) (fail (Invalid ''unsupported command'')) s2 = (r, s')"
                using body fresh None False by simp
              show ?thesis using logsD[OF report_failed(2) c] q(3) fresh by auto
            next
              case True
              have "andThen (send (CommandResultSent i ''ACCEPTED'')) (execute_fixed i command) s2 = (r, s')"
                using body fresh None True by simp
              then show ?thesis
              proof (cases rule: andThenE)
                case (stopped e)
                have "logs no_exec (send (CommandResultSent i ''ACCEPTED''))" by (intro frames) (simp add: no_exec_def)
                from logsD[OF this stopped(1)] show ?thesis using q(3) fresh by auto
              next
                case (went_on s3)
                have "c_log s3 = c_log s2 @ [CommandResultSent i ''ACCEPTED'']" using send_result[OF went_on(1)] by (simp add: reported_only_def)
                moreover obtain es where "c_log s' = c_log s3 @ CommandExecuted i command # es" "list_all no_exec es"
                  "c_last_command s' = i \<or> unsaved r" using execute_fixed_result[OF went_on(2)] by blast
                moreover have "\<exists>us command' vs. [CommandResultSent i ''ACCEPTED''] @ CommandExecuted i command # es =
                    us @ CommandExecuted i command' # vs \<and> list_all no_exec (us @ vs)" if "list_all no_exec es"
                  using that by (intro exI[of _ "[CommandResultSent i ''ACCEPTED'']"] exI[of _ command] exI[of _ es]) (simp add: no_exec_def)
                ultimately show ?thesis using q(3) fresh
                  by (intro exI[of _ "[CommandResultSent i ''ACCEPTED''] @ CommandExecuted i command # es"]) simp
              qed
            qed
          qed
        qed
      qed (rule quiet; use s1(1) in \<open>auto simp: only_outcomes_def\<close>)
    qed
  qed (rule quiet)
qed

definition command_event :: "string \<Rightarrow> agent_event \<Rightarrow> bool" where
  "command_event i ev \<longleftrightarrow> (\<forall>inp os. ev = Cycle inp os \<longrightarrow> fst (ci_command inp) = [] \<or> fst (ci_command inp) = i)"

lemma executions_none: "list_all no_exec es \<Longrightarrow> filter (executes i) es = []"
  by (auto simp: filter_empty_conv list_all_iff no_exec_def executes_def)

lemma command_cycle:
  assumes "i \<noteq> []" "command_event i ev" "agent_step ev s = (r, s')"
  shows "count_new (executes i) s s' = 0 \<and> (c_last_command s = i \<longrightarrow> c_last_command s' = i) \<or>
    count_new (executes i) s s' = 1 \<and> c_last_command s \<noteq> i \<and> (c_last_command s' = i \<or> unsaved r)"
proof (cases ev)
  case (Cycle inp os)
  have cmd: "fst (ci_command inp) = [] \<or> fst (ci_command inp) = i" using assms(2) Cycle by (auto simp: command_event_def)
  have run: "runControlCycle inp (s\<lparr>c_outcomes := os\<rparr>) = (r, s')" using assms(3) Cycle by simp
  show ?thesis
  proof (cases rule: cycle_hostE[OF run before_commands(1-4)])
    case 1
    then show ?case by (simp add: ConfigureWebServer_def)
  next
    case (2 es)
    then show ?thesis using executions_none[OF 2(3)] by (auto simp: count_new_def new_events_def)
  next
    case (3 iv s1 es)
    have s1: "c_last_command s1 = c_last_command s" "c_log s1 = c_log s @ es" using 3(1,2) by simp_all
    from 3(4)[unfolded host_step_def] show ?thesis
    proof (cases rule: bndE)
      case (stopped e)
      obtain fs where "c_log s' = c_log s1 @ fs" "list_all no_exec fs" using logsD[OF before_commands(6) stopped(1)] by blast
      moreover have "c_last_command s' = c_last_command s1" using keepsD[OF before_commands(5) stopped(1)] .
      ultimately show ?thesis using s1 executions_none[OF 3(3)] executions_none[of fs]
        by (auto simp: count_new_def new_events_def)
    next
      case (went_on x s2)
      obtain fs where fs: "c_log s2 = c_log s1 @ fs" "list_all no_exec fs" using logsD[OF before_commands(6) went_on(1)] by blast
      have last: "c_last_command s2 = c_last_command s" using keepsD[OF before_commands(5) went_on(1)] s1(1) by simp
      have "\<exists>gs. c_log s' = c_log s2 @ gs \<and>
        (filter (executes i) gs = [] \<and> (c_last_command s2 = i \<longrightarrow> c_last_command s' = i) \<or>
         length (filter (executes i) gs) = 1 \<and> c_last_command s2 \<noteq> i \<and> (c_last_command s' = i \<or> unsaved r))"
      proof (cases x)
        case True
        then have "executeNextCommand inp s2 = (r, s')" using went_on(2) by (simp add: steps_def)
        from executeNextCommand_result[OF this cmd assms(1)] show ?thesis
          using executions_none[of _ i] by (fastforce simp: executes_def)
      qed (use went_on(2) in \<open>auto simp: steps_def ret_def\<close>)
      then show ?thesis using s1 fs last executions_none[OF 3(3)] executions_none[OF fs(2)]
        by (auto simp: count_new_def new_events_def)
    qed
  qed
next
  case Restart
  then show ?thesis using assms(3) by (auto simp: count_new_def new_events_def)
qed

definition named_command :: "string \<Rightarrow> agent_event \<Rightarrow> bool" where
  "named_command i ev \<longleftrightarrow> i \<noteq> [] \<and> command_event i ev"

interpretation commands: marked_once agent_step "count_new (executes i)" "\<lambda>s. c_last_command s = i" unsaved "named_command i" for i
proof
  fix e s r s' assume "named_command i e" "agent_step e s = (r, s')"
  then have c: "count_new (executes i) s s' = 0 \<and> (c_last_command s = i \<longrightarrow> c_last_command s' = i) \<or>
    count_new (executes i) s s' = 1 \<and> c_last_command s \<noteq> i \<and> (c_last_command s' = i \<or> unsaved r)"
    by (intro command_cycle[of i e]) (simp_all add: named_command_def)
  show "count_new (executes i) s s' \<le> (if c_last_command s = i then 0 else 1)" using c by auto
  show "c_last_command s = i \<Longrightarrow> c_last_command s' = i" using c by auto
  show "count_new (executes i) s s' \<noteq> 0 \<Longrightarrow> c_last_command s' = i \<or> unsaved r" using c by auto
qed

text \<open>C26:
  A command is executed once. In a run in which the Manager offers no other command, the agent executes the command at most once more
  than there were cycles in which the execution failed or the command's id could not be saved, however often it is offered and however
  often the agent restarts; the Manager offers it again until its result is known.
\<close>

theorem command_executed_once:
  assumes "\<forall>ev \<in> set evs. named_command i ev" and "c_log s = []"
  shows "length (filter (executes i) (c_log (control_run evs s))) \<le> 1 + run_bad agent_step unsaved evs s"
  using commands.hits_bounded[OF assms(1), of s] count_run[of "executes i" evs s] assms(2)
  by (simp split: if_splits)

section \<open>An example\<close>

definition cycle_inventory :: Inventory where
  "cycle_inventory =
     \<lparr>iv_OSID = ''debian'', iv_OSVersion = ''12'', iv_Architecture = ''amd64'', iv_WebServer = ''nginx'', iv_WebServerVersion = ''1.22'',
      iv_WebServerBuild = ''b1'', iv_IntegrationMode = ''distro'', iv_InstallationMode = [], iv_AgentVersion = ''1.0'',
      iv_ModuleVersion = [], iv_ConfigTestOK = True, iv_IntegrationReady = True, iv_WebServerControl = WebServerControlStandard,
      iv_WebServerCandidates = []\<rparr>"

definition sample_download :: "string \<Rightarrow> string \<Rightarrow> PackageDownload" where
  "sample_download i v = no_download\<lparr>pd_ID := i, pd_Version := v, pd_Format := PackageFormatDEB\<rparr>"

definition sample_deployment :: PackageDeployment where
  "sample_deployment = \<lparr>pk_ID = ''p1'', pk_Scope = PackageScopeAgent, pk_WebServerControl = [], pk_Agent = sample_download ''a2'' ''2.0'',
     pk_Module = sample_download [] [], pk_RollbackAgent = sample_download [] []\<rparr>"

definition cycle_example :: "PackageDeployment option \<Rightarrow> string \<times> string \<Rightarrow> cycle_input" where
  "cycle_example d cmd =
     \<lparr>ci_inventory = Some cycle_inventory, ci_newServerID = ''s1'', ci_needsRenewal = False,
      ci_desired = (agent_sample_state ''r1'')\<lparr>dst_PackageDeployment := d\<rparr>, ci_base = ''base'', ci_override = ''override'',
      ci_artifact = [], ci_policy = agent_sample_env, ci_candidates = [], ci_version = ''1.0'', ci_command = cmd,
      ci_fixed = (\<lambda>c. c = ''status'')\<rparr>"

definition sample_control :: control where
  "sample_control =
     \<lparr>c_outcomes = [], c_log = [], c_serverID = ''s1'', c_desired = None, c_heartbeat_policy = [], c_last_command = [],
      c_installed = [], c_failed = [], c_failed_detail = [], c_reported = [], c_pending = NoPending, c_confirmed = [],
      c_selection = None, c_hooks = False, c_restart_requested = [], c_fs = agent_sample_fs\<rparr>"

abbreviation sample_cycle :: "bool list \<Rightarrow> agent_event" where
  "sample_cycle os \<equiv> Cycle (cycle_example None ([], [])) os"

abbreviation sample_lost :: control where
  "sample_lost \<equiv> control_run [sample_cycle (replicate 33 True @ [False])] sample_control"

lemma applied_report_truthful_witness:
  "\<exists>files. active_files agent_sample_env (c_fs (snd (runControlCycle (cycle_example None ([], [])) sample_control))) = Some files \<and>
     fs_loaded (c_fs (snd (runControlCycle (cycle_example None ([], [])) sample_control))) = Some files"
proof -
  let ?inp = "cycle_example None ([], [])"
  obtain r s' where run: "runControlCycle ?inp sample_control = (r, s')" by (cases "runControlCycle ?inp sample_control")
  have "PolicyResultSent ''r1'' ''APPLIED'' \<in> set (new_events sample_control (snd (runControlCycle ?inp sample_control)))" by code_simp
  moreover have "active_files (ci_policy ?inp) (c_fs sample_control) = Some [(''policy.conf'', ''old'')]" by code_simp
  moreover have "dst_ArtifactFormat (ci_desired ?inp) \<in> {FormatOverride, Format, FormatV3}" by code_simp
  moreover have "ci_policy ?inp = agent_sample_env" by (simp add: cycle_example_def)
  ultimately show ?thesis using applied_report_truthful[OF run, of "''r1''"] run by auto
qed

lemma heartbeat_truthful_witness:
  "PolicyResultSent ''r1'' ''APPLIED'' \<in>
     set (takeWhile (\<lambda>e. e \<noteq> HeartbeatSent ''r1'' agent_digest []) (c_log (control_run [sample_cycle [], sample_cycle []] sample_control)))"
proof -
  let ?l = "c_log (control_run [sample_cycle [], sample_cycle []] sample_control)"
  have l: "?l = takeWhile (\<lambda>e. e \<noteq> HeartbeatSent ''r1'' agent_digest []) ?l @ HeartbeatSent ''r1'' agent_digest [] # []" by code_simp
  have "c_desired sample_control = None" "c_log sample_control = []" by (simp_all add: sample_control_def)
  from heartbeat_truthful[OF this l] show ?thesis by simp
qed

lemma sample_bundled: "bundled ''/etc/mwaf/active/policy.conf'' ''r1'' (sample_cycle os)"
  by (simp add: bundled_def cycle_example_def agent_sample_env_def agent_sample_state_def)

definition reports_on :: "string \<Rightarrow> control_event \<Rightarrow> bool" where
  "reports_on rid e = (case e of PolicyResultSent i st \<Rightarrow> i = rid | _ \<Rightarrow> False)"

lemma reports_onD: "reports_on rid e \<Longrightarrow> \<exists>st. e = PolicyResultSent rid st"
  by (cases e) (simp_all add: reports_on_def)

lemma applied_report_final_witness:
  "\<exists>st. PolicyResultSent ''r1'' st \<in> set (new_events sample_lost (snd (agent_step (sample_cycle []) sample_lost))) \<and> st = ''FAILED''"
proof -
  obtain r s' where run: "agent_step (sample_cycle []) sample_lost = (r, s')" by (cases "agent_step (sample_cycle []) sample_lost")
  have "list_ex (reports_on ''r1'') (new_events sample_lost (snd (agent_step (sample_cycle []) sample_lost)))" by code_simp
  then obtain st where st: "PolicyResultSent ''r1'' st \<in> set (new_events sample_lost s')"
    using run reports_onD unfolding list_ex_iff by fastforce
  have "PolicyResultSent ''r1'' ''APPLIED'' \<in> set (c_log sample_lost)" by code_simp
  moreover have "c_log sample_control = []" by (simp add: sample_control_def)
  ultimately have "st = ''FAILED''"
    using applied_report_final[of "[sample_cycle (replicate 33 True @ [False])]" "sample_cycle []" "''/etc/mwaf/active/policy.conf''" "''r1''"]
      sample_bundled run st by auto
  then show ?thesis using run st by auto
qed

lemma package_installed_once_witness:
  "length (filter (\<lambda>e. e = PackageAttempt ''p1'') (c_log (control_run (replicate 3 (Cycle (cycle_example (Some sample_deployment) ([], [])) [])) sample_control)))
     \<le> 1 + run_bad agent_step unkept (replicate 3 (Cycle (cycle_example (Some sample_deployment) ([], [])) [])) sample_control"
  by (rule package_installed_once) (simp_all add: package_event_def cycle_example_def sample_deployment_def sample_control_def)

lemma command_executed_once_witness:
  "length (filter (executes ''c1'') (c_log (control_run (replicate 3 (Cycle (cycle_example None (''c1'', ''status'')) [])) sample_control)))
     \<le> 1 + run_bad agent_step unsaved (replicate 3 (Cycle (cycle_example None (''c1'', ''status'')) [])) sample_control"
  by (rule command_executed_once) (simp_all add: named_command_def command_event_def cycle_example_def sample_control_def)

end
