(* ===== verification/Access.thy ===== *)
theory Access
  imports Prelude "HOL-Library.AList"
begin

text \<open>
  Who may use the console: roles and passwords (\<^verbatim>\<open>src/internal/manager/identity.go\<close>), sessions and limiters
  (\<^verbatim>\<open>session.go\<close>), the login handler and the middleware that admits a request (\<^verbatim>\<open>server.go\<close>).
  A session is a token that the browser keeps: payload and signature, each in base64. The keyed hash, SHA-256, the key
  derivation, base64 and the JSON encoding of a session are arguments, the record \<open>access_env\<close>;
  \<open>access_env_ok\<close> states what their documentation promises. Times are nanoseconds, \<open>unix\<close> the seconds
  of the clock. Maps under a mutex are association lists: every method holds the lock from start to end.
\<close>

section \<open>Roles and passwords\<close>

type_synonym Role = string

definition RoleEnterpriseUser :: Role where "RoleEnterpriseUser = ''enterprise_user''"
definition RoleEnterpriseAdmin :: Role where "RoleEnterpriseAdmin = ''enterprise_admin''"
definition RoleSystemAdmin :: Role where "RoleSystemAdmin = ''system_admin''"

lemmas role_names = RoleEnterpriseUser_def RoleEnterpriseAdmin_def RoleSystemAdmin_def

definition role_level :: "Role \<Rightarrow> nat" where
  "role_level r = (if r = RoleEnterpriseUser then 1 else if r = RoleEnterpriseAdmin then 2 else if r = RoleSystemAdmin then 3 else 0)"

definition roleAtLeast :: "Role \<Rightarrow> Role \<Rightarrow> bool" where
  "roleAtLeast actual required \<longleftrightarrow> role_level required \<le> role_level actual"

definition validEnterpriseRole :: "Role \<Rightarrow> bool" where
  "validEnterpriseRole role \<longleftrightarrow> role = RoleEnterpriseUser \<or> role = RoleEnterpriseAdmin"

definition validUsername :: "string \<Rightarrow> bool" where
  "validUsername username \<longleftrightarrow> 3 \<le> length username \<and> length username \<le> 128 \<and>
     list_all (\<lambda>c. is_lower c \<or> is_upper c \<or> is_digit c \<or> c = CHR ''.'' \<or> c = CHR ''_'' \<or> c = CHR ''-'') username"

record UserRecord =
  ur_ID :: string
  ur_EnterpriseID :: string
  ur_EnterpriseName :: string
  ur_Username :: string
  ur_DisplayName :: string
  ur_PasswordHash :: string
  ur_Role :: Role
  ur_Active :: bool

datatype ConsoleArea = NoConsole | ConsoleAreaEnterprise | ConsoleAreaSystem

record sessionData =
  sd_UserID :: string
  sd_Username :: string
  sd_DisplayName :: string
  sd_Role :: Role
  sd_EnterpriseID :: string
  sd_EnterpriseName :: string
  sd_CredentialTag :: string
  sd_ExpiresAt :: int
  sd_CSRF :: string
  sd_ActualRole :: Role
  sd_ConsoleArea :: ConsoleArea

record access_env =
  ac_hmac :: "string \<Rightarrow> string"
  ac_sha256 :: "string \<Rightarrow> string"
  ac_pbkdf2 :: "string \<Rightarrow> string \<Rightarrow> int \<Rightarrow> string"
  ac_std64 :: "string \<Rightarrow> string"
  ac_unstd64 :: "string \<Rightarrow> string option"
  ac_url64 :: "string \<Rightarrow> string"
  ac_unurl64 :: "string \<Rightarrow> string option"
  ac_marshal :: "sessionData \<Rightarrow> string option"
  ac_unmarshal :: "string \<Rightarrow> sessionData option"

text \<open>
  Decoding undoes encoding; base64 text has neither a dot nor a dollar sign and is empty only for no bytes; a keyed
  hash has 32 bytes, and so has a derived key.
\<close>

definition access_env_ok :: "access_env \<Rightarrow> bool" where
  "access_env_ok env \<longleftrightarrow>
     (\<forall>s. ac_unstd64 env (ac_std64 env s) = Some s \<and> CHR ''$'' \<notin> set (ac_std64 env s)) \<and>
     (\<forall>s. ac_unurl64 env (ac_url64 env s) = Some s \<and> CHR ''.'' \<notin> set (ac_url64 env s) \<and> (ac_url64 env s = [] \<longrightarrow> s = [])) \<and>
     (\<forall>s. length (ac_hmac env s) = 32) \<and>
     (\<forall>p salt n. length (ac_pbkdf2 env p salt n) = 32)"

definition passwordIterations :: int where "passwordIterations = 600000"

definition hashPassword :: "access_env \<Rightarrow> string \<Rightarrow> string \<Rightarrow> string" where
  "hashPassword env salt password =
     ''pbkdf2-sha256$'' @ itoa passwordIterations @ ''$'' @ ac_std64 env salt @ ''$'' @
       ac_std64 env (ac_pbkdf2 env password salt passwordIterations)"

definition verifyPassword :: "access_env \<Rightarrow> string \<Rightarrow> string \<Rightarrow> bool" where
  "verifyPassword env password encoded =
     (case split (CHR ''$'') encoded of
        [scheme, count, saltText, derivedText] \<Rightarrow>
          (case atoi count of (iterations, err) \<Rightarrow>
             if scheme \<noteq> ''pbkdf2-sha256'' then False
             else if err \<noteq> None \<or> iterations < 100000 \<or> iterations > 2000000 then False
             else (case ac_unstd64 env saltText of None \<Rightarrow> False | Some salt \<Rightarrow>
               if length salt < 16 then False
               else (case ac_unstd64 env derivedText of None \<Rightarrow> False | Some expected \<Rightarrow>
                 if length expected \<noteq> 32 then False else ac_pbkdf2 env password salt iterations = expected)))
      | _ \<Rightarrow> False)"

section \<open>Scope of a session\<close>

record TenantScope =
  ts_HomeEnterpriseID :: string
  ts_GlobalAccess :: bool

definition IsSystemAdmin :: "sessionData \<Rightarrow> bool" where
  "IsSystemAdmin s \<longleftrightarrow> sd_Role s = RoleSystemAdmin"

definition tenant_scope :: "sessionData \<Rightarrow> TenantScope" where
  "tenant_scope s = \<lparr>ts_HomeEnterpriseID = sd_EnterpriseID s, ts_GlobalAccess = IsSystemAdmin s\<rparr>"

definition ReadEnterpriseID :: "TenantScope \<Rightarrow> string \<Rightarrow> string" where
  "ReadEnterpriseID s requested = (if \<not> ts_GlobalAccess s then ts_HomeEnterpriseID s else trim_space requested)"

definition MutationEnterpriseID :: "TenantScope \<Rightarrow> string \<Rightarrow> string" where
  "MutationEnterpriseID s requested =
     (if \<not> ts_GlobalAccess s \<or> trim_space requested = [] then ts_HomeEnterpriseID s else trim_space requested)"

definition ScopeEnterpriseID :: "sessionData \<Rightarrow> string" where
  "ScopeEnterpriseID s = (if ts_GlobalAccess (tenant_scope s) then [] else ts_HomeEnterpriseID (tenant_scope s))"

definition actualRole :: "sessionData \<Rightarrow> Role" where
  "actualRole s = (if sd_ActualRole s \<noteq> [] then sd_ActualRole s else sd_Role s)"

definition asEnterpriseConsole :: "sessionData \<Rightarrow> sessionData" where
  "asEnterpriseConsole s =
     s\<lparr>sd_ActualRole := actualRole s, sd_ConsoleArea := ConsoleAreaEnterprise,
       sd_Role := (if actualRole s = RoleSystemAdmin then RoleEnterpriseAdmin else sd_Role s)\<rparr>"

definition asSystemConsole :: "sessionData \<Rightarrow> sessionData" where
  "asSystemConsole s = s\<lparr>sd_ActualRole := actualRole s, sd_ConsoleArea := ConsoleAreaSystem, sd_Role := actualRole s\<rparr>"

definition CanAccessSystemManagement :: "sessionData \<Rightarrow> bool" where
  "CanAccessSystemManagement s \<longleftrightarrow> actualRole s = RoleSystemAdmin"

definition CanOperate :: "sessionData \<Rightarrow> bool" where
  "CanOperate s \<longleftrightarrow> roleAtLeast (sd_Role s) RoleEnterpriseUser"

definition CanManageUsers :: "sessionData \<Rightarrow> bool" where
  "CanManageUsers s \<longleftrightarrow> roleAtLeast (sd_Role s) RoleEnterpriseAdmin"

section \<open>Session tokens\<close>

definition unix :: "time \<Rightarrow> int" where
  "unix t = t div second"

definition credentialTag :: "access_env \<Rightarrow> string \<Rightarrow> string" where
  "credentialTag env passwordHash = ac_url64 env (ac_hmac env (''credential:'' @ passwordHash))"

definition secureEqual :: "access_env \<Rightarrow> string \<Rightarrow> string \<Rightarrow> bool" where
  "secureEqual env a b \<longleftrightarrow> ac_sha256 env a = ac_sha256 env b"

definition create_session :: "access_env \<Rightarrow> UserRecord \<Rightarrow> string \<Rightarrow> time \<Rightarrow> (string \<times> sessionData) option" where
  "create_session env user random now =
     (let data = \<lparr>sd_UserID = ur_ID user, sd_Username = ur_Username user, sd_DisplayName = ur_DisplayName user, sd_Role = ur_Role user,
            sd_EnterpriseID = ur_EnterpriseID user, sd_EnterpriseName = ur_EnterpriseName user,
            sd_CredentialTag = credentialTag env (ur_PasswordHash user), sd_ExpiresAt = unix (now + 8 * hour),
            sd_CSRF = ac_url64 env random, sd_ActualRole = [], sd_ConsoleArea = NoConsole\<rparr>
      in case ac_marshal env data of
           None \<Rightarrow> None
         | Some raw \<Rightarrow> let payload = ac_url64 env raw in Some (payload @ ''.'' @ ac_url64 env (ac_hmac env payload), data))"

definition parse_session :: "access_env \<Rightarrow> string \<Rightarrow> time \<Rightarrow> sessionData option" where
  "parse_session env token now =
     (case split (CHR ''.'') token of
        [payload, signature] \<Rightarrow>
          (case ac_unurl64 env signature of None \<Rightarrow> None | Some actual \<Rightarrow>
             if actual \<noteq> ac_hmac env payload then None
             else case ac_unurl64 env payload of None \<Rightarrow> None | Some raw \<Rightarrow>
               (case ac_unmarshal env raw of None \<Rightarrow> None | Some data \<Rightarrow>
                  if sd_UserID data = [] \<or> sd_Username data = [] \<or> sd_CSRF data = [] \<or> sd_CredentialTag data = [] \<or>
                     \<not> roleAtLeast (sd_Role data) RoleEnterpriseUser \<or> sd_ExpiresAt data \<le> unix now
                  then None else Some data))
      | _ \<Rightarrow> None)"

definition setup_csrf :: "access_env \<Rightarrow> string \<Rightarrow> string" where
  "setup_csrf env random =
     ac_url64 env random @ ''.'' @ ac_url64 env (ac_hmac env (''setup:'' @ ac_url64 env random))"

definition validSetupCSRF :: "access_env \<Rightarrow> string \<Rightarrow> bool" where
  "validSetupCSRF env token =
     (case split (CHR ''.'') token of
        [payload, signature] \<Rightarrow>
          (case ac_unurl64 env signature of None \<Rightarrow> False | Some actual \<Rightarrow> actual = ac_hmac env (''setup:'' @ payload))
      | _ \<Rightarrow> False)"

definition setupCSRFForRequest :: "access_env \<Rightarrow> string option \<Rightarrow> string \<Rightarrow> string" where
  "setupCSRFForRequest env cookie random =
     (case cookie of Some v \<Rightarrow> if validSetupCSRF env v then v else setup_csrf env random | None \<Rightarrow> setup_csrf env random)"

definition validSetupCSRFRequest :: "access_env \<Rightarrow> string option \<Rightarrow> string \<Rightarrow> bool" where
  "validSetupCSRFRequest env cookie form =
     (case cookie of None \<Rightarrow> False | Some v \<Rightarrow> if \<not> validSetupCSRF env v then False else secureEqual env v form)"

text \<open>The middleware: the session is the token's, its authority is that of the user's current row.\<close>

definition requireAdmin :: "access_env \<Rightarrow> (string \<Rightarrow> UserRecord option) \<Rightarrow> string option \<Rightarrow> time \<Rightarrow> sessionData option" where
  "requireAdmin env UserByID cookie now =
     (case cookie of None \<Rightarrow> None | Some token \<Rightarrow>
       (case parse_session env token now of None \<Rightarrow> None | Some data \<Rightarrow>
         (case UserByID (sd_UserID data) of None \<Rightarrow> None | Some user \<Rightarrow>
            if \<not> ur_Active user then None
            else if \<not> secureEqual env (sd_CredentialTag data) (credentialTag env (ur_PasswordHash user)) then None
            else Some (data\<lparr>sd_Username := ur_Username user, sd_DisplayName := ur_DisplayName user, sd_Role := ur_Role user,
                   sd_ActualRole := ur_Role user, sd_ConsoleArea := NoConsole, sd_EnterpriseID := ur_EnterpriseID user,
                   sd_EnterpriseName := ur_EnterpriseName user\<rparr>))))"

definition requireEnterpriseConsole :: "sessionData \<Rightarrow> sessionData option" where
  "requireEnterpriseConsole s =
     (let data = asEnterpriseConsole s in if trim_space (sd_EnterpriseID data) = [] then None else Some data)"

definition requireSystemConsole :: "sessionData \<Rightarrow> sessionData option" where
  "requireSystemConsole s = (if \<not> CanAccessSystemManagement s then None else Some (asSystemConsole s))"

definition requireAccountConsole :: "string \<Rightarrow> sessionData \<Rightarrow> sessionData option" where
  "requireAccountConsole area s = (if area = ''system'' then requireSystemConsole s else requireEnterpriseConsole s)"

definition requireRole :: "Role \<Rightarrow> sessionData \<Rightarrow> sessionData option" where
  "requireRole required s = (if roleAtLeast (sd_Role s) required then Some s else None)"

definition validCSRF :: "access_env \<Rightarrow> sessionData \<Rightarrow> string \<Rightarrow> string \<Rightarrow> bool" where
  "validCSRF env s form header = secureEqual env (if form = [] then header else form) (sd_CSRF s)"

section \<open>Limiters\<close>

text \<open>Requests per key in a fixed window; the map is cleared of expired windows when it is large.\<close>

type_synonym windows = "(string \<times> time \<times> int) list"

definition window_over :: "duration \<Rightarrow> time \<Rightarrow> time \<times> int \<Rightarrow> bool" where
  "window_over window now entry \<longleftrightarrow> window \<le> now - fst entry"

definition evict :: "duration \<Rightarrow> time \<Rightarrow> windows \<Rightarrow> windows" where
  "evict window now ws = (if length ws > 1024 then filter (\<lambda>e. \<not> window_over window now (snd e)) ws else ws)"

definition allow_request :: "int \<Rightarrow> duration \<Rightarrow> time \<Rightarrow> string \<Rightarrow> windows \<Rightarrow> bool \<times> windows" where
  "allow_request limit window now key ws0 =
     (let ws = evict window now ws0
      in case map_of ws key of
           None \<Rightarrow> (True, AList.update key (now, 1) ws)
         | Some (started, count) \<Rightarrow>
             if window_over window now (started, count) then (True, AList.update key (now, 1) ws)
             else if count \<ge> limit then (False, ws)
             else (True, AList.update key (started, count + 1) ws))"

text \<open>Failed logins per address in the last fifteen minutes.\<close>

type_synonym attempts = "(string \<times> time list) list"

definition attempts_of :: "attempts \<Rightarrow> string \<Rightarrow> time list" where
  "attempts_of st key = (case map_of st key of None \<Rightarrow> [] | Some ts \<Rightarrow> ts)"

definition recent :: "time \<Rightarrow> time list \<Rightarrow> time list" where
  "recent now ts = filter (\<lambda>t. now - 15 * minute < t) ts"

definition login_allow :: "time \<Rightarrow> string \<Rightarrow> attempts \<Rightarrow> bool \<times> attempts" where
  "login_allow now key st =
     (let current = recent now (attempts_of st key) in (length current < 5, AList.update key current st))"

definition login_fail :: "time \<Rightarrow> string \<Rightarrow> attempts \<Rightarrow> attempts" where
  "login_fail now key st = AList.update key (attempts_of st key @ [now]) st"

definition login_reset :: "string \<Rightarrow> attempts \<Rightarrow> attempts" where
  "login_reset key st = AList.delete key st"

section \<open>Login\<close>

datatype login_result = TooManyAttempts | BadForm | LoginFailed | Rejected | NoSession | LoggedIn string sessionData

text \<open>
  A request: the address, the form when it can be read, and the outcome of the query for the user, an error of
  the database apart from a missing row.
\<close>

definition login :: "access_env \<Rightarrow> (string \<Rightarrow> (unit + UserRecord option)) \<Rightarrow> time \<Rightarrow> string \<Rightarrow> string \<Rightarrow>
    (string \<times> string) option \<Rightarrow> attempts \<Rightarrow> login_result \<times> attempts" where
  "login env UserByUsername now random remote form st =
     (case login_allow now remote st of (ok, st1) \<Rightarrow>
        if \<not> ok then (TooManyAttempts, st1)
        else case form of None \<Rightarrow> (BadForm, st1) | Some (username, password) \<Rightarrow>
          (case UserByUsername (trim_space username) of
             Inl _ \<Rightarrow> (LoginFailed, st1)
           | Inr None \<Rightarrow> (Rejected, login_fail now remote st1)
           | Inr (Some user) \<Rightarrow>
               if \<not> ur_Active user \<or> \<not> verifyPassword env password (ur_PasswordHash user) then (Rejected, login_fail now remote st1)
               else (case create_session env user random now of
                       None \<Rightarrow> (NoSession, login_reset remote st1)
                     | Some (token, data) \<Rightarrow> (LoggedIn token data, login_reset remote st1))))"

section \<open>Tokens and passwords are read back\<close>

lemma access_env_okD:
  assumes "access_env_ok env"
  shows "ac_unstd64 env (ac_std64 env s) = Some s" "CHR ''$'' \<notin> set (ac_std64 env s)" "ac_unurl64 env (ac_url64 env s) = Some s"
    "CHR ''.'' \<notin> set (ac_url64 env s)" "ac_url64 env s = [] \<Longrightarrow> s = []" "length (ac_hmac env s) = 32"
    "length (ac_pbkdf2 env p salt n) = 32"
  using assms by (auto simp: access_env_ok_def)

lemma credentialTag_nonempty:
  assumes "access_env_ok env"
  shows "credentialTag env h \<noteq> []"
proof
  assume "credentialTag env h = []"
  then have "ac_hmac env (''credential:'' @ h) = []"
    unfolding credentialTag_def by (rule access_env_okD(5)[OF assms])
  then show False using access_env_okD(6)[OF assms, of "''credential:'' @ h"] by simp
qed

lemma split_two:
  assumes "sep \<notin> set x" "sep \<notin> set y"
  shows "split sep (x @ sep # y) = [x, y]"
  using assms by (simp add: split_append split_no_sep_id)

text \<open>The data of a new session; the token is read back until the session expires.\<close>

lemma create_sessionE:
  assumes "create_session env user random now = Some (token, data)"
  obtains raw where "ac_marshal env data = Some raw"
    "token = ac_url64 env raw @ ''.'' @ ac_url64 env (ac_hmac env (ac_url64 env raw))"
    "sd_UserID data = ur_ID user" "sd_Username data = ur_Username user" "sd_Role data = ur_Role user"
    "sd_CredentialTag data = credentialTag env (ur_PasswordHash user)" "sd_CSRF data = ac_url64 env random"
    "sd_ExpiresAt data = unix (now + 8 * hour)"
  using assms by (auto simp: create_session_def Let_def split: option.splits)

lemma parse_created:
  assumes ok: "access_env_ok env" and c: "create_session env user random now = Some (token, data)" and r: "random \<noteq> []"
    and json: "\<And>raw. ac_marshal env data = Some raw \<Longrightarrow> ac_unmarshal env raw = Some data"
    and user: "ur_ID user \<noteq> []" "ur_Username user \<noteq> []" "roleAtLeast (ur_Role user) RoleEnterpriseUser"
  shows "parse_session env token later = (if unix later < unix (now + 8 * hour) then Some data else None)"
proof -
  obtain raw where m: "ac_marshal env data = Some raw"
    and t: "token = ac_url64 env raw @ ''.'' @ ac_url64 env (ac_hmac env (ac_url64 env raw))"
    and f: "sd_UserID data = ur_ID user" "sd_Username data = ur_Username user" "sd_Role data = ur_Role user"
      "sd_CredentialTag data = credentialTag env (ur_PasswordHash user)" "sd_CSRF data = ac_url64 env random"
      "sd_ExpiresAt data = unix (now + 8 * hour)"
    by (rule create_sessionE[OF c])
  have s: "split (CHR ''.'') token = [ac_url64 env raw, ac_url64 env (ac_hmac env (ac_url64 env raw))]"
    unfolding t using split_two access_env_okD(4)[OF ok] by simp
  have n: "sd_UserID data \<noteq> []" "sd_Username data \<noteq> []" "sd_CSRF data \<noteq> []" "sd_CredentialTag data \<noteq> []"
    using f user access_env_okD(5)[OF ok] r credentialTag_nonempty[OF ok] by auto
  show ?thesis
    unfolding parse_session_def s
    using n f(3,6) user(3) access_env_okD(3)[OF ok] json[OF m] by auto
qed

lemma requireAdminE:
  assumes "requireAdmin env users cookie now = Some s"
  obtains token data v where "cookie = Some token" "parse_session env token now = Some data"
    "users (sd_UserID data) = Some v" "ur_Active v" "secureEqual env (sd_CredentialTag data) (credentialTag env (ur_PasswordHash v))"
    "sd_UserID s = sd_UserID data" "sd_Role s = ur_Role v" "sd_ActualRole s = ur_Role v" "sd_EnterpriseID s = ur_EnterpriseID v"
  using assms by (auto simp: requireAdmin_def split: option.splits if_splits)

lemma parse_sessionE:
  assumes "parse_session env token now = Some data"
  obtains payload signature raw where "split (CHR ''.'') token = [payload, signature]"
    "ac_unurl64 env signature = Some (ac_hmac env payload)" "ac_unurl64 env payload = Some raw"
    "ac_unmarshal env raw = Some data" "sd_UserID data \<noteq> []" "sd_CSRF data \<noteq> []" "unix now < sd_ExpiresAt data"
  using assms by (auto simp: parse_session_def split: option.splits list.splits if_splits)

text \<open>C12:
  The authority of a session is the account's, now. Every admitted request, whatever its cookie, carries a token
  whose second half is the keyed hash of the first under the Manager's key and which has not expired, for an active account
  whose password is that of the token; the session has the account's current role and enterprise. A token that login
  issued is admitted, before its eight hours are over, exactly while the account exists in an active enterprise, is active,
  and has the password of the login.
\<close>

theorem session_authority:
  assumes "access_env_ok env" and "create_session env user random now = Some (token, data)" and "random \<noteq> []"
    and "\<And>raw. ac_marshal env data = Some raw \<Longrightarrow> ac_unmarshal env raw = Some data"
    and "ur_ID user \<noteq> []" "ur_Username user \<noteq> []" "roleAtLeast (ur_Role user) RoleEnterpriseUser"
  shows "(\<forall>cookie s. requireAdmin env users cookie later = Some s \<longrightarrow>
        (\<exists>tok payload signature v. cookie = Some tok \<and> split (CHR ''.'') tok = [payload, signature] \<and>
           ac_unurl64 env signature = Some (ac_hmac env payload) \<and> unix later < sd_ExpiresAt s \<and>
           users (sd_UserID s) = Some v \<and> ur_Active v \<and>
           secureEqual env (sd_CredentialTag s) (credentialTag env (ur_PasswordHash v)) \<and>
           sd_Role s = ur_Role v \<and> actualRole s = ur_Role v \<and> sd_EnterpriseID s = ur_EnterpriseID v)) \<and>
     ((\<exists>s. requireAdmin env users (Some token) later = Some s) \<longleftrightarrow>
        unix later < unix (now + 8 * hour) \<and>
        (\<exists>v. users (ur_ID user) = Some v \<and> ur_Active v \<and>
           secureEqual env (credentialTag env (ur_PasswordHash user)) (credentialTag env (ur_PasswordHash v)))) \<and>
     (\<forall>s. requireAdmin env users (Some token) later = Some s \<longrightarrow>
        (\<exists>v. users (ur_ID user) = Some v \<and> sd_UserID s = ur_ID user \<and> sd_Role s = ur_Role v \<and> actualRole s = ur_Role v \<and>
           sd_EnterpriseID s = ur_EnterpriseID v \<and> sd_CSRF s = ac_url64 env random))" (is "?any \<and> ?admitted \<and> ?authority")
proof -
  note p = parse_created[OF assms]
  have f: "sd_UserID data = ur_ID user" "sd_CredentialTag data = credentialTag env (ur_PasswordHash user)"
    "sd_CSRF data = ac_url64 env random"
    by (rule create_sessionE[OF assms(2)]; simp)+
  have ?any
  proof (intro allI impI)
    fix cookie s assume "requireAdmin env users cookie later = Some s"
    then obtain tok data v where t: "cookie = Some tok" and d: "parse_session env tok later = Some data"
      and v: "users (sd_UserID s) = Some v" "ur_Active v" "secureEqual env (sd_CredentialTag s) (credentialTag env (ur_PasswordHash v))"
        "sd_Role s = ur_Role v" "sd_ActualRole s = ur_Role v" "sd_EnterpriseID s = ur_EnterpriseID v" "sd_ExpiresAt s = sd_ExpiresAt data"
      by (auto simp: requireAdmin_def split: option.splits if_splits)
    obtain payload signature where "split (CHR ''.'') tok = [payload, signature]" "ac_unurl64 env signature = Some (ac_hmac env payload)"
      "unix later < sd_ExpiresAt data"
      by (rule parse_sessionE[OF d])
    then show "\<exists>tok payload signature v. cookie = Some tok \<and> split (CHR ''.'') tok = [payload, signature] \<and>
           ac_unurl64 env signature = Some (ac_hmac env payload) \<and> unix later < sd_ExpiresAt s \<and>
           users (sd_UserID s) = Some v \<and> ur_Active v \<and>
           secureEqual env (sd_CredentialTag s) (credentialTag env (ur_PasswordHash v)) \<and>
           sd_Role s = ur_Role v \<and> actualRole s = ur_Role v \<and> sd_EnterpriseID s = ur_EnterpriseID v"
      using t v by (auto simp: actualRole_def)
  qed
  moreover have ?admitted
    using f by (auto simp: requireAdmin_def p split: option.splits)
  moreover have ?authority
    using f by (auto simp: requireAdmin_def p actualRole_def split: option.splits if_splits)
  ultimately show ?thesis by blast
qed

text \<open>An instance of the arguments: base64 is a two-letter code of each byte, the hashes keep the last bytes.\<close>

definition sample_code :: "string \<Rightarrow> string" where
  "sample_code s = concat (map (\<lambda>c. [char_of (97 + of_char c div 16 :: nat), char_of (97 + of_char c mod 16 :: nat)]) s)"

fun sample_uncode :: "string \<Rightarrow> string option" where
  "sample_uncode [] = Some []"
| "sample_uncode [c] = None"
| "sample_uncode (c # d # s) =
     map_option (Cons (char_of (16 * (of_char c - 97) + (of_char d - 97) :: nat))) (sample_uncode s)"

definition sample_hash :: "string \<Rightarrow> string" where
  "sample_hash s = take 32 (rev s @ replicate 32 CHR ''0'')"

definition sample_user :: UserRecord where
  "sample_user = \<lparr>ur_ID = ''u1'', ur_EnterpriseID = ''e1'', ur_EnterpriseName = ''First'', ur_Username = ''kim'', ur_DisplayName = ''Kim'',
     ur_PasswordHash = ''pbkdf2-sha256$600000$aa$bb'', ur_Role = RoleEnterpriseAdmin, ur_Active = True\<rparr>"

definition sample_session :: sessionData where
  "sample_session = \<lparr>sd_UserID = ''u1'', sd_Username = ''kim'', sd_DisplayName = ''Kim'', sd_Role = RoleEnterpriseAdmin,
     sd_EnterpriseID = ''e1'', sd_EnterpriseName = ''First'',
     sd_CredentialTag = sample_code (sample_hash ''credential:pbkdf2-sha256$600000$aa$bb''), sd_ExpiresAt = 28800,
     sd_CSRF = sample_code ''random'', sd_ActualRole = [], sd_ConsoleArea = NoConsole\<rparr>"

definition sample_access :: access_env where
  "sample_access = \<lparr>ac_hmac = sample_hash, ac_sha256 = \<lambda>s. s, ac_pbkdf2 = \<lambda>p salt n. sample_hash (p @ salt),
     ac_std64 = sample_code, ac_unstd64 = sample_uncode, ac_url64 = sample_code, ac_unurl64 = sample_uncode,
     ac_marshal = \<lambda>d. if d = sample_session then Some ''{}'' else None,
     ac_unmarshal = \<lambda>raw. if raw = ''{}'' then Some sample_session else None\<rparr>"

lemma nibbles: "of_char c div 16 < (16 :: nat)" "of_char c mod 16 < (16 :: nat)"
  by (rule less_mult_imp_div_less) simp_all

lemma sample_nibble:
  assumes "n < 16"
  shows "of_char (char_of (97 + n :: nat) :: char) = 97 + n"
  using assms by (simp add: of_char_of)

lemma sample_uncode_code: "sample_uncode (sample_code s) = Some s"
proof (induction s)
  case Nil
  show ?case by (simp add: sample_code_def)
next
  case (Cons c s)
  have "of_char c div 16 < (16 :: nat)" "of_char c mod 16 < (16 :: nat)" by (rule nibbles)+
  then show ?case using Cons
    by (simp add: sample_code_def sample_nibble)
qed

lemma sample_code_letters: "c \<in> set (sample_code s) \<Longrightarrow> 97 \<le> (of_char c :: nat)"
proof -
  assume c: "c \<in> set (sample_code s)"
  have "97 \<le> (of_char (char_of (97 + of_char d div 16 :: nat) :: char) :: nat)"
    "97 \<le> (of_char (char_of (97 + of_char d mod 16 :: nat) :: char) :: nat)" for d :: char
    using nibbles by (simp_all only: sample_nibble le_add1)
  then show ?thesis using c by (auto simp: sample_code_def)
qed

lemma sample_access_ok: "access_env_ok sample_access"
proof -
  have "CHR ''$'' \<notin> set (sample_code s)" "CHR ''.'' \<notin> set (sample_code s)" for s
    using sample_code_letters[of "CHR ''$''" s] sample_code_letters[of "CHR ''.''" s] by auto
  moreover have "sample_code s = [] \<Longrightarrow> s = []" for s by (cases s) (auto simp: sample_code_def)
  moreover have "length (sample_hash s) = 32" for s by (simp add: sample_hash_def)
  ultimately show ?thesis by (simp add: access_env_ok_def sample_access_def sample_uncode_code)
qed

lemma sample_created: "\<exists>token. create_session sample_access sample_user ''random'' 0 = Some (token, sample_session)"
  by (simp add: create_session_def sample_access_def sample_user_def credentialTag_def Let_def unix_def flip: sample_session_def)

text \<open>The account of the session has become an ordinary user of its enterprise.\<close>

theorem session_authority_witness:
  "\<exists>token s. create_session sample_access sample_user ''random'' 0 = Some (token, sample_session) \<and>
     requireAdmin sample_access ((\<lambda>_. None)(''u1'' := Some (sample_user\<lparr>ur_Role := RoleEnterpriseUser\<rparr>))) (Some token) hour = Some s \<and>
     sd_Role s = RoleEnterpriseUser"
proof -
  obtain token where c: "create_session sample_access sample_user ''random'' 0 = Some (token, sample_session)"
    using sample_created by blast
  have json: "\<And>raw. ac_marshal sample_access sample_session = Some raw \<Longrightarrow>
      ac_unmarshal sample_access raw = Some sample_session"
    by (simp add: sample_access_def)
  have u: "ur_ID sample_user \<noteq> []" "ur_Username sample_user \<noteq> []" "roleAtLeast (ur_Role sample_user) RoleEnterpriseUser"
    by (simp_all add: sample_user_def roleAtLeast_def role_level_def role_names)
  note t = session_authority[OF sample_access_ok c _ json u,
      of "(\<lambda>_. None)(''u1'' := Some (sample_user\<lparr>ur_Role := RoleEnterpriseUser\<rparr>))" hour]
  have "\<exists>s. requireAdmin sample_access ((\<lambda>_. None)(''u1'' := Some (sample_user\<lparr>ur_Role := RoleEnterpriseUser\<rparr>)))
      (Some token) hour = Some s"
    using t by (simp add: unix_def secureEqual_def sample_user_def)
  then show ?thesis using t c by (auto simp: sample_user_def)
qed

section \<open>The scope of the enterprise console\<close>

lemma scope_enterprise:
  assumes "requireEnterpriseConsole s = Some e" "sd_ActualRole s = sd_Role s"
  shows "\<not> IsSystemAdmin e" "sd_EnterpriseID e = sd_EnterpriseID s" "sd_EnterpriseID s \<noteq> []"
proof -
  have "RoleEnterpriseAdmin \<noteq> RoleSystemAdmin" by (simp add: role_names)
  moreover have "trim_space [] = []" by (simp add: trim_space_def trim_by_def)
  ultimately show "\<not> IsSystemAdmin e" "sd_EnterpriseID e = sd_EnterpriseID s" "sd_EnterpriseID s \<noteq> []"
    using assms
    by (auto simp: requireEnterpriseConsole_def asEnterpriseConsole_def actualRole_def IsSystemAdmin_def Let_def
        split: if_splits)
qed

text \<open>The enterprise that a session of the enterprise console names to the store, whatever the request asks for.\<close>

lemma console_scope:
  assumes "requireEnterpriseConsole s = Some e" "sd_ActualRole s = sd_Role s"
  shows "ScopeEnterpriseID e = sd_EnterpriseID s" "ReadEnterpriseID (tenant_scope e) requested = sd_EnterpriseID s"
    "MutationEnterpriseID (tenant_scope e) requested = sd_EnterpriseID s"
  using scope_enterprise[OF assms] by (simp_all add: ScopeEnterpriseID_def ReadEnterpriseID_def MutationEnterpriseID_def tenant_scope_def)

text \<open>
  A password is accepted against its own hash; against the hash of another password it is accepted exactly when the key
  derivation gives both the same key under the stored salt.
\<close>

theorem password_checked:
  assumes "access_env_ok env" and "16 \<le> length salt"
  shows "verifyPassword env password (hashPassword env salt chosen) \<longleftrightarrow>
      ac_pbkdf2 env password salt 600000 = ac_pbkdf2 env chosen salt 600000"
proof -
  have i: "itoa passwordIterations = ''600000''" by (simp add: passwordIterations_def itoa_def itoa_digits.simps digit_char_def)
  have "split (CHR ''$'') (hashPassword env salt chosen) =
      [''pbkdf2-sha256'', ''600000'', ac_std64 env salt, ac_std64 env (ac_pbkdf2 env chosen salt passwordIterations)]"
    using split_append[of "CHR ''$''" "''pbkdf2-sha256''"] split_append[of "CHR ''$''" "''600000''"]
      split_two[OF access_env_okD(2)[OF assms(1), of salt] access_env_okD(2)[OF assms(1)]]
    unfolding hashPassword_def i by (simp add: split_no_sep_id)
  moreover have "atoi ''600000'' = (600000, None)"
    by (simp add: atoi_def decimal_def digit_value_def is_digit_def int64_max_def int64_min_def)
  ultimately show ?thesis
    using assms access_env_okD[OF assms(1)]
    by (auto simp: verifyPassword_def passwordIterations_def)
qed

section \<open>The request limiter\<close>

text \<open>A sequence of requests, each with its time and key, and their answers; the same without the clearing of the map.\<close>

fun answers :: "int \<Rightarrow> duration \<Rightarrow> windows \<Rightarrow> (time \<times> string) list \<Rightarrow> bool list" where
  "answers limit window ws [] = []"
| "answers limit window ws ((now, key) # reqs) =
     (case allow_request limit window now key ws of (ok, ws') \<Rightarrow> ok # answers limit window ws' reqs)"

definition window_allow :: "int \<Rightarrow> duration \<Rightarrow> time \<Rightarrow> (time \<times> int) option \<Rightarrow> bool \<times> (time \<times> int) option" where
  "window_allow limit window now entry =
     (case entry of
        None \<Rightarrow> (True, Some (now, 1))
      | Some (started, count) \<Rightarrow>
          if window \<le> now - started then (True, Some (now, 1))
          else if limit \<le> count then (False, entry) else (True, Some (started, count + 1)))"

fun plain_answers :: "int \<Rightarrow> duration \<Rightarrow> (string \<Rightarrow> (time \<times> int) option) \<Rightarrow> (time \<times> string) list \<Rightarrow> bool list" where
  "plain_answers limit window m [] = []"
| "plain_answers limit window m ((now, key) # reqs) =
     (case window_allow limit window now (m key) of (ok, entry) \<Rightarrow> ok # plain_answers limit window (m(key := entry)) reqs)"

definition in_time :: "(time \<times> 'a) list \<Rightarrow> bool" where
  "in_time reqs \<longleftrightarrow> sorted (map fst reqs)"

lemma in_time_Cons: "in_time (r # reqs) \<longleftrightarrow> (\<forall>q \<in> set reqs. fst r \<le> fst q) \<and> in_time reqs"
  by (auto simp: in_time_def)

text \<open>A cleared entry is one whose window is over: the simulation relation at the time \<open>now\<close>.\<close>

definition same_windows :: "duration \<Rightarrow> time \<Rightarrow> windows \<Rightarrow> (string \<Rightarrow> (time \<times> int) option) \<Rightarrow> bool" where
  "same_windows window now ws m \<longleftrightarrow>
     distinct (map fst ws) \<and>
     (\<forall>k. map_of ws k = m k \<or> map_of ws k = None \<and> (\<exists>e. m k = Some e \<and> window_over window now e))"

lemma map_of_evict:
  assumes "distinct (map fst ws)"
  shows "map_of (evict window now ws) k = map_of ws k \<or>
    map_of (evict window now ws) k = None \<and> (\<exists>e. map_of ws k = Some e \<and> window_over window now e)"
proof -
  have "map_of (filter (\<lambda>e. \<not> window_over window now (snd e)) ws) k =
      (case map_of ws k of None \<Rightarrow> None | Some e \<Rightarrow> if window_over window now e then None else Some e)"
    using assms
  proof (induction ws)
    case (Cons a ws)
    then show ?case by (cases a) (auto split: option.splits simp: map_of_eq_None_iff image_iff dest: map_of_SomeD)
  qed simp
  then show ?thesis by (auto simp: evict_def split: option.splits)
qed

lemma distinct_evict: "distinct (map fst ws) \<Longrightarrow> distinct (map fst (evict window now ws))"
  by (simp add: evict_def distinct_map_filter)

lemma expired_later: "window_over window now e \<Longrightarrow> now \<le> later \<Longrightarrow> window_over window later e"
  by (simp add: window_over_def)

lemma same_windows_later: "same_windows window now ws m \<Longrightarrow> now \<le> later \<Longrightarrow> same_windows window later ws m"
  unfolding same_windows_def using expired_later by blast

lemma same_windows_evict:
  assumes "same_windows window now ws m"
  shows "same_windows window now (evict window now ws) m"
proof -
  have d: "distinct (map fst ws)" using assms by (simp add: same_windows_def)
  show ?thesis
    unfolding same_windows_def
  proof (intro conjI allI)
    show "distinct (map fst (evict window now ws))" using distinct_evict[OF d] .
    show "map_of (evict window now ws) k = m k \<or>
        map_of (evict window now ws) k = None \<and> (\<exists>e. m k = Some e \<and> window_over window now e)" for k
      using assms map_of_evict[OF d, of window now k] unfolding same_windows_def by metis
  qed
qed

lemma same_windows_update:
  "same_windows window now ws m \<Longrightarrow> same_windows window now (AList.update key e ws) (m(key \<mapsto> e))"
  by (auto simp: same_windows_def update_conv' distinct_update)

lemma allow_request_simulates:
  assumes "same_windows window now ws m"
  shows "fst (allow_request limit window now key ws) = fst (window_allow limit window now (m key)) \<and>
    same_windows window now (snd (allow_request limit window now key ws))
      (m(key := snd (window_allow limit window now (m key))))"
proof -
  have v: "same_windows window now (evict window now ws) m" by (rule same_windows_evict[OF assms])
  consider (same) "map_of (evict window now ws) key = m key"
    | (cleared) s c where "map_of (evict window now ws) key = None" "m key = Some (s, c)" "window \<le> now - s"
    using v unfolding same_windows_def window_over_def by fastforce
  then show ?thesis
  proof cases
    case same
    show ?thesis
    proof (cases "m key")
      case None
      then show ?thesis using same same_windows_update[OF v] by (simp add: allow_request_def window_allow_def)
    next
      case (Some e)
      obtain started count where e: "e = (started, count)" by (cases e)
      have "m(key \<mapsto> (started, count)) = m" using Some e by auto
      then show ?thesis using same Some e same_windows_update[OF v] v
        by (cases "window \<le> now - started"; cases "limit \<le> count")
          (simp_all add: allow_request_def window_allow_def window_over_def)
    qed
  next
    case cleared
    then show ?thesis using same_windows_update[OF v] by (simp add: allow_request_def window_allow_def)
  qed
qed

lemma answers_plain:
  assumes "in_time reqs"
  shows "answers limit window [] reqs = plain_answers limit window (\<lambda>_. None) reqs"
proof -
  have "same_windows window t ws m \<Longrightarrow> \<forall>q \<in> set reqs. t \<le> fst q \<Longrightarrow>
      answers limit window ws reqs = plain_answers limit window m reqs" for t ws m
    using assms
  proof (induction reqs arbitrary: t ws m)
    case (Cons q reqs)
    obtain now key where q: "q = (now, key)" by (cases q)
    have "same_windows window now ws m" using same_windows_later Cons.prems q by auto
    note s = allow_request_simulates[OF this, of limit key]
    have i: "in_time reqs" "\<forall>q \<in> set reqs. now \<le> fst q" using Cons.prems(3) q by (auto simp: in_time_Cons)
    show ?case
      using conjunct1[OF s] Cons.IH[OF conjunct2[OF s] i(2) i(1)]
      unfolding q answers.simps plain_answers.simps case_prod_beta by (simp only:)
  qed simp
  from this[of "if reqs = [] then 0 else fst (hd reqs)" "[]" "\<lambda>_. None"] show ?thesis
    using assms by (cases reqs) (auto simp: same_windows_def in_time_Cons)
qed

text \<open>C32:
  Clearing the map when it has more than 1024 entries is invisible: every sequence of requests in order of time gets the
  answers of the limiter that keeps every window.
\<close>

theorem limiter_refines:
  assumes "in_time reqs"
  shows "answers limit window [] reqs = plain_answers limit window (\<lambda>_. None) reqs"
  by (rule answers_plain[OF assms])

theorem limiter_refines_witness:
  "answers 2 60 [] [(0, ''a''), (10, ''a''), (20, ''a''), (70, ''a'')] =
     plain_answers 2 60 (\<lambda>_. None) [(0, ''a''), (10, ''a''), (20, ''a''), (70, ''a'')] \<and>
   plain_answers 2 60 (\<lambda>_. None) [(0, ''a''), (10, ''a''), (20, ''a''), (70, ''a'')] = [True, True, False, True]"
  using limiter_refines[of "[(0, ''a''), (10, ''a''), (20, ''a''), (70, ''a'')]" 2 60]
  by (simp add: in_time_def window_allow_def)

text \<open>How many requests of a key are granted in an interval of the length of a window.\<close>

definition grants :: "string \<Rightarrow> time \<Rightarrow> duration \<Rightarrow> (time \<times> string) list \<Rightarrow> bool list \<Rightarrow> nat" where
  "grants key start window reqs oks =
     length (filter (\<lambda>((t, k), ok). ok \<and> k = key \<and> start \<le> t \<and> t < start + window) (zip reqs oks))"

lemma grants_simps:
  "grants key start window [] oks = 0"
  "grants key start window ((t, k) # reqs) (ok # oks) =
     (if ok \<and> k = key \<and> start \<le> t \<and> t < start + window then 1 else 0) + grants key start window reqs oks"
  by (simp_all add: grants_def)

lemma grants_none: "\<forall>q \<in> set reqs. start + window \<le> fst q \<Longrightarrow> grants key start window reqs oks = 0"
  unfolding grants_def by (force simp: filter_empty_conv dest: set_zip_leftD)

text \<open>The number of grants that an entry still allows in the interval.\<close>

definition allowance :: "int \<Rightarrow> time \<Rightarrow> duration \<Rightarrow> (time \<times> int) option \<Rightarrow> int" where
  "allowance cap start window entry =
     (case entry of
        None \<Rightarrow> 2 * cap
      | Some (s, c) \<Rightarrow> if start \<le> s then cap - c else if s + window \<le> start then 2 * cap else 2 * cap - c)"

lemma grants_le_allowance:
  assumes "in_time reqs" "0 < window" "1 \<le> cap" "limit \<le> cap"
    and "\<forall>s c. m key = Some (s, c) \<longrightarrow> 1 \<le> c \<and> c \<le> cap"
  shows "int (grants key start window reqs (plain_answers limit window m reqs)) \<le> allowance cap start window (m key)"
  using assms
proof (induction reqs arbitrary: m)
  case Nil
  then show ?case by (cases "m key") (auto simp: grants_simps allowance_def)
next
  case (Cons q reqs)
  obtain now k where q: "q = (now, k)" by (cases q)
  have i: "in_time reqs" "\<forall>q \<in> set reqs. now \<le> fst q" using Cons.prems(1) q by (auto simp: in_time_Cons)
  obtain ok entry where w: "window_allow limit window now (m k) = (ok, entry)" by fastforce
  let ?m = "m(k := entry)"
  have inv: "\<forall>s c. ?m key = Some (s, c) \<longrightarrow> 1 \<le> c \<and> c \<le> cap"
    using w Cons.prems(3-5) by (auto simp: window_allow_def split: option.splits if_splits)
  have rest: "int (grants key start window reqs (plain_answers limit window ?m reqs)) \<le> allowance cap start window (?m key)"
    using Cons.IH[of ?m, OF i(1) Cons.prems(2-4) inv] .
  have late: "start + window \<le> now \<Longrightarrow> grants key start window reqs oks = 0" for oks
    by (rule grants_none) (use i(2) in force)
  show ?case
  proof (cases "k = key")
    case False
    then show ?thesis using rest w unfolding q by (simp add: grants_simps)
  next
    case True
    have "int (if ok \<and> start \<le> now \<and> now < start + window then 1 else 0) +
        int (grants key start window reqs (plain_answers limit window ?m reqs)) \<le> allowance cap start window (m key)"
      using w rest late[of "plain_answers limit window ?m reqs"] Cons.prems(2-5) True
      by (auto simp: window_allow_def allowance_def split: option.splits if_splits)
    then show ?thesis using w True unfolding q by (simp add: grants_simps)
  qed
qed

text \<open>
  In any interval as long as the window a key is granted at most twice the limit, counting a limit below one as one.
\<close>

theorem limiter_bound:
  assumes "in_time reqs" and "0 < window"
  shows "int (grants key start window reqs (answers limit window [] reqs)) \<le> 2 * max 1 limit"
proof -
  have e: "answers limit window [] reqs = plain_answers limit window (\<lambda>_. None) reqs"
    by (rule answers_plain[OF assms(1)])
  show ?thesis
    using grants_le_allowance[OF assms, of "max 1 limit" limit "\<lambda>_. None" key start] unfolding e
    by (simp add: allowance_def)
qed

theorem limiter_bound_witness:
  "int (grants ''a'' 5 10 [(4, ''a''), (8, ''a''), (14, ''a''), (14, ''a'')] [True, True, True, True]) \<le> 2 * max 1 2 \<and>
   grants ''a'' 5 10 [(4, ''a''), (8, ''a''), (14, ''a''), (14, ''a'')] [True, True, True, True] = 3"
  using limiter_bound[of "[(4, ''a''), (8, ''a''), (14, ''a''), (14, ''a'')]" 10 "''a''" 5 2]
  by (simp add: in_time_def allow_request_def evict_def window_over_def grants_def)

section \<open>Logins are throttled\<close>

text \<open>A login request with what it finds: the draw for the session, the form, the answer of the database.\<close>

record login_request =
  lr_now :: time
  lr_remote :: string
  lr_random :: string
  lr_form :: "(string \<times> string) option"
  lr_users :: "string \<Rightarrow> unit + UserRecord option"

definition handle_login :: "access_env \<Rightarrow> attempts \<Rightarrow> login_request \<Rightarrow> login_result \<times> attempts" where
  "handle_login env st r = login env (lr_users r) (lr_now r) (lr_random r) (lr_remote r) (lr_form r) st"

fun logins :: "access_env \<Rightarrow> attempts \<Rightarrow> login_request list \<Rightarrow> login_result list \<times> attempts" where
  "logins env st [] = ([], st)"
| "logins env st (r # rs) =
     (case handle_login env st r of (res, st1) \<Rightarrow> case logins env st1 rs of (ress, st2) \<Rightarrow> (res # ress, st2))"

text \<open>What an address has done wrong, read off the answers: the times of its rejections since it last logged in.\<close>

fun authenticated :: "login_result \<Rightarrow> bool" where
  "authenticated (LoggedIn _ _) = True" | "authenticated NoSession = True" | "authenticated _ = False"

definition note_result :: "string \<Rightarrow> time list \<Rightarrow> login_request \<times> login_result \<Rightarrow> time list" where
  "note_result remote ts rr =
     (case rr of (r, res) \<Rightarrow>
        if lr_remote r \<noteq> remote then ts
        else if authenticated res then [] else if res = Rejected then ts @ [lr_now r] else ts)"

definition rejections :: "string \<Rightarrow> (login_request \<times> login_result) list \<Rightarrow> time list" where
  "rejections remote rrs = foldl (note_result remote) [] rrs"

lemma attempts_of_simps [simp]:
  "attempts_of (AList.update k ts st) remote = (if remote = k then ts else attempts_of st remote)"
  "attempts_of (AList.delete k st) remote = (if remote = k then [] else attempts_of st remote)"
  by (auto simp: attempts_of_def update_conv' delete_conv')

lemma recent_append: "recent now (xs @ ys) = recent now xs @ recent now ys"
  by (simp add: recent_def)

lemma recent_recent: "now \<le> later \<Longrightarrow> recent later (recent now ts) = recent later ts"
  unfolding recent_def by (induction ts) auto

text \<open>One request: the recorded attempts and the rejections agree on everything recent.\<close>

lemma login_state:
  assumes "login_allow now remote st = (ok, st1)"
  shows "snd (login env users now random remote form st) =
    (let res = fst (login env users now random remote form st) in
     if authenticated res then login_reset remote st1 else if res = Rejected then login_fail now remote st1 else st1)"
  unfolding login_def assms prod.case
  by (auto simp: Let_def split: option.split prod.split sum.split)

lemma handle_login_state:
  assumes "handle_login env st r = (res, st')"
  shows "st' = (let st1 = AList.update (lr_remote r) (recent (lr_now r) (attempts_of st (lr_remote r))) st in
     if authenticated res then login_reset (lr_remote r) st1
     else if res = Rejected then login_fail (lr_now r) (lr_remote r) st1 else st1)"
proof -
  have "st' = snd (handle_login env st r)" "res = fst (handle_login env st r)" using assms by simp_all
  then show ?thesis
    unfolding handle_login_def by (simp only: login_state[OF login_allow_def[unfolded Let_def]] Let_def)
qed

lemma handle_login_attempts:
  assumes "handle_login env st r = (res, st')" "lr_now r \<le> later"
  shows "recent later (attempts_of st' remote) =
    recent later (note_result remote (attempts_of st remote) (r, res))"
proof -
  let ?now = "lr_now r" and ?ts = "attempts_of st remote"
  have r: "recent later (recent ?now ?ts) = recent later ?ts" by (rule recent_recent[OF assms(2)])
  show ?thesis
  proof (cases "lr_remote r = remote")
    case True
    then show ?thesis using handle_login_state[OF assms(1)] r
      by (auto simp: Let_def login_reset_def login_fail_def note_result_def recent_append)
  next
    case False
    then show ?thesis using handle_login_state[OF assms(1)]
      by (auto simp: Let_def login_reset_def login_fail_def note_result_def)
  qed
qed

lemma recent_note_result:
  assumes "recent later ts = recent later us"
  shows "recent later (note_result remote ts rr) = recent later (note_result remote us rr)"
  using assms by (cases rr) (simp add: note_result_def recent_append)

lemma logins_attempts:
  assumes "sorted (map lr_now rs)" "\<forall>r \<in> set rs. lr_now r \<le> later" "logins env st rs = (ress, st')"
  shows "recent later (attempts_of st' remote) =
    recent later (foldl (note_result remote) (attempts_of st remote) (zip rs ress))"
proof -
  have *: "recent later (foldl (note_result remote) ts rrs) = recent later (foldl (note_result remote) us rrs)"
    if "recent later ts = recent later us" for ts us rrs
    using that
  proof (induction rrs arbitrary: ts us)
    case (Cons rr rrs)
    show ?case using Cons.IH[OF recent_note_result[OF Cons.prems]] by simp
  qed simp
  show ?thesis using assms
  proof (induction rs arbitrary: st ress)
    case (Cons r rs)
    obtain res st1 ress' where h: "handle_login env st r = (res, st1)" and l: "logins env st1 rs = (ress', st')" "ress = res # ress'"
      using Cons.prems(3) by (auto split: prod.splits)
    have "recent later (attempts_of st' remote) =
        recent later (foldl (note_result remote) (attempts_of st1 remote) (zip rs ress'))"
      using Cons.IH[OF _ _ l(1)] Cons.prems by simp
    also have "\<dots> = recent later (foldl (note_result remote) (note_result remote (attempts_of st remote) (r, res)) (zip rs ress'))"
      by (rule *) (use handle_login_attempts[OF h] Cons.prems(2) in auto)
    finally show ?case using l by simp
  qed simp
qed

text \<open>
  Whatever was tried before, in order of time, a login is turned away as one too many exactly when its address has been
  rejected at least five times within the last fifteen minutes and since it last logged in. The password is not looked at.
\<close>

theorem login_throttled:
  assumes "sorted (map lr_now (past @ [r]))" and "logins env [] past = (results, st)"
  shows "fst (handle_login env st r) = TooManyAttempts \<longleftrightarrow>
    5 \<le> length (filter (\<lambda>t. lr_now r - 15 * minute < t) (rejections (lr_remote r) (zip past results)))"
proof -
  have "recent (lr_now r) (attempts_of st (lr_remote r)) = recent (lr_now r) (rejections (lr_remote r) (zip past results))"
    using logins_attempts[OF _ _ assms(2), of "lr_now r" "lr_remote r"] assms(1)
    by (auto simp: sorted_append rejections_def attempts_of_def)
  moreover have "fst (handle_login env st r) = TooManyAttempts \<longleftrightarrow> \<not> length (recent (lr_now r) (attempts_of st (lr_remote r))) < 5"
    by (auto simp: handle_login_def login_def login_allow_def Let_def split: option.splits prod.splits sum.splits)
  ultimately show ?thesis by (simp add: recent_def not_less)
qed

text \<open>Five rejections in five minutes; the sixth request is turned away.\<close>

definition sample_request :: "int \<Rightarrow> login_request" where
  "sample_request n = \<lparr>lr_now = n * minute, lr_remote = ''10.0.0.1'', lr_random = ''random'', lr_form = Some (''kim'', ''wrong''),
     lr_users = \<lambda>_. Inr None\<rparr>"

theorem login_throttled_witness:
  "\<exists>st. logins sample_access [] (map sample_request [0, 1, 2, 3, 4]) = (replicate 5 Rejected, st) \<and>
     fst (handle_login sample_access st (sample_request 5)) = TooManyAttempts"
proof -
  have "\<exists>st. logins sample_access [] (map sample_request [0, 1, 2, 3, 4]) = (replicate 5 Rejected, st)"
    by (simp add: handle_login_def sample_request_def login_def login_allow_def login_fail_def Let_def attempts_of_def recent_def
        eval_nat_numeral)
  then obtain st where l: "logins sample_access [] (map sample_request [0, 1, 2, 3, 4]) = (replicate 5 Rejected, st)" ..
  have "length (filter (\<lambda>t. lr_now (sample_request 5) - 15 * minute < t)
      (rejections (lr_remote (sample_request 5)) (zip (map sample_request [0, 1, 2, 3, 4]) (replicate 5 Rejected)))) = 5"
    by (simp add: rejections_def note_result_def sample_request_def eval_nat_numeral)
  then have "fst (handle_login sample_access st (sample_request 5)) = TooManyAttempts"
    using login_throttled[OF _ l, of "sample_request 5"] by (simp add: sample_request_def)
  then show ?thesis using l by blast
qed

theorem password_checked_witness:
  "verifyPassword sample_access ''secret'' (hashPassword sample_access (replicate 16 CHR ''s'') ''secret'')"
  using password_checked[OF sample_access_ok, of "replicate 16 CHR ''s''" "''secret''" "''secret''"] by simp

end
