(* ===== verification/Tenancy.thy ===== *)
theory Tenancy
  imports Rollout_Store Access
begin

text \<open>
  Enterprises, their administrators and the tokens with which servers are enrolled: \<^verbatim>\<open>store_identity.go\<close>,
  \<^verbatim>\<open>store_enterprise_lifecycle.go\<close>, \<^verbatim>\<open>store_install_tokens.go\<close> and the enrollment tokens of
  \<^verbatim>\<open>store.go\<close> in \<^verbatim>\<open>src/internal/manager/\<close>. The state \<open>fleet\<close> holds these tables beside the database of the
  rollouts (\<open>Rollout_Store\<close>), whose list of active enterprises is kept by \<open>put_enterprises\<close>. Random identifiers and tokens, the
  hash of tokens and the texts of the user interface are arguments, the record \<open>tenancy_env\<close>; identifiers and tokens are numbered by the
  counter of the database. A transaction returns an error or the new state. Comparisons of the database are equality;
  the clocks of Manager and database agree. Columns that are only displayed are left out.
\<close>

section \<open>Tables\<close>

record enterprise_row =
  en_ID :: string
  en_Name :: string
  en_Active :: bool

record admin_user =
  au_ID :: string
  au_EnterpriseID :: string
  au_Username :: string
  au_DisplayName :: string
  au_PasswordHash :: string
  au_Role :: Role
  au_Active :: bool
  au_Deleted :: bool

record install_token =
  it_ID :: string
  it_EnterpriseID :: string
  it_TokenHash :: string
  it_ExpiresAt :: time
  it_Revoked :: bool
  it_MaxEnrollments :: "nat option"
  it_EnrollmentCount :: nat

record enrollment_token =
  et_ID :: string
  et_EnterpriseID :: string
  et_InstallTokenID :: string
  et_TokenHash :: string
  et_ExpiresAt :: time
  et_Used :: bool
  et_AllowedPackages :: "string list option"

datatype command_status = C_PENDING | C_ACCEPTED | C_COMPLETED | C_FAILED

record command_row =
  cm_ID :: string
  cm_ServerID :: string
  cm_Command :: string
  cm_Status :: command_status

text \<open>The columns \<^verbatim>\<open>certificate_serial\<close> of servers and \<^verbatim>\<open>detail\<close> of package deployments are kept by identifier.\<close>

record fleet =
  fl_db :: database
  fl_enterprises :: "enterprise_row list"
  fl_users :: "admin_user list"
  fl_installs :: "install_token list"
  fl_enrollments :: "enrollment_token list"
  fl_commands :: "command_row list"
  fl_serials :: "(string \<times> string) list"
  fl_details :: "(string \<times> string) list"

record tenancy_env =
  te_randomID :: "nat \<Rightarrow> string"
  te_randomToken :: "nat \<Rightarrow> string"
  te_tokenHash :: "string \<Rightarrow> string"
  te_systemEnterprise :: string
  te_cancelled :: string
  te_superseded :: string

datatype tenancy_error =
  NoSuchRow | NotActiveEnterprise | SetupComplete | BadArguments | LastEnterpriseAdmin | NoActiveSystemAdmin | WrongConfirmation
| SystemEnterpriseProtected | InvalidInstallToken | InvalidEnrollmentToken | InvalidEventToken | KeyExists
| CommandPending | BadPlan | PackageRequired

definition next_id :: "tenancy_env \<Rightarrow> fleet \<Rightarrow> string" where
  "next_id env fl = te_randomID env (db_ids (fl_db fl))"

definition next_token :: "tenancy_env \<Rightarrow> fleet \<Rightarrow> string" where
  "next_token env fl = te_randomToken env (db_ids (fl_db fl))"

definition drawn :: "nat \<Rightarrow> fleet \<Rightarrow> fleet" where
  "drawn n fl = fl\<lparr>fl_db := (fl_db fl)\<lparr>db_ids := n + db_ids (fl_db fl)\<rparr>\<rparr>"

definition put_enterprises :: "enterprise_row list \<Rightarrow> fleet \<Rightarrow> fleet" where
  "put_enterprises rows fl =
     fl\<lparr>fl_enterprises := rows, fl_db := (fl_db fl)\<lparr>db_active_enterprises := map en_ID (filter en_Active rows)\<rparr>\<rparr>"

abbreviation enterprise_active :: "fleet \<Rightarrow> string \<Rightarrow> bool" where
  "enterprise_active fl \<equiv> lockActiveEnterprise (fl_db fl)"

section \<open>Administrators\<close>

definition enterprise_name :: "fleet \<Rightarrow> string \<Rightarrow> string" where
  "enterprise_name fl i = (case find (\<lambda>e. en_ID e = i) (fl_enterprises fl) of None \<Rightarrow> [] | Some e \<Rightarrow> en_Name e)"

definition user_record :: "fleet \<Rightarrow> admin_user \<Rightarrow> UserRecord" where
  "user_record fl u =
     \<lparr>ur_ID = au_ID u, ur_EnterpriseID = au_EnterpriseID u, ur_EnterpriseName = enterprise_name fl (au_EnterpriseID u),
      ur_Username = au_Username u, ur_DisplayName = au_DisplayName u, ur_PasswordHash = au_PasswordHash u, ur_Role = au_Role u,
      ur_Active = au_Active u\<rparr>"

definition UserByUsername :: "fleet \<Rightarrow> string \<Rightarrow> UserRecord option" where
  "UserByUsername fl username =
     map_option (user_record fl)
       (find (\<lambda>u. au_Username u = username \<and> \<not> au_Deleted u \<and> enterprise_active fl (au_EnterpriseID u)) (fl_users fl))"

definition UserByID :: "fleet \<Rightarrow> string \<Rightarrow> UserRecord option" where
  "UserByID fl i =
     map_option (user_record fl)
       (find (\<lambda>u. au_ID u = i \<and> \<not> au_Deleted u \<and> enterprise_active fl (au_EnterpriseID u)) (fl_users fl))"

definition insert_user :: "admin_user \<Rightarrow> fleet \<Rightarrow> tenancy_error + fleet" where
  "insert_user u fl =
     (if list_ex (\<lambda>x. au_ID x = au_ID u \<or> au_Username x = au_Username u) (fl_users fl) then Inl KeyExists
      else Inr (fl\<lparr>fl_users := fl_users fl @ [u]\<rparr>))"

definition insert_enterprise :: "string \<Rightarrow> string \<Rightarrow> fleet \<Rightarrow> tenancy_error + fleet" where
  "insert_enterprise i name fl =
     (if list_ex (\<lambda>e. en_ID e = i \<or> en_Name e = name) (fl_enterprises fl) then Inl KeyExists
      else Inr (put_enterprises (fl_enterprises fl @ [\<lparr>en_ID = i, en_Name = name, en_Active = True\<rparr>]) fl))"

definition CreateInitialSystemAdmin :: "tenancy_env \<Rightarrow> string \<Rightarrow> string \<Rightarrow> string \<Rightarrow> fleet \<Rightarrow> tenancy_error + fleet" where
  "CreateInitialSystemAdmin env username displayName passwordHash fl =
     (let userID = te_randomID env (db_ids (fl_db fl)); enterpriseID = te_randomID env (Suc (db_ids (fl_db fl)))
      in case insert_enterprise enterpriseID (te_systemEnterprise env) (drawn 2 fl) of
           Inl e \<Rightarrow> Inl e
         | Inr fl1 \<Rightarrow>
             if fl_users fl1 \<noteq> [] then Inl SetupComplete
             else insert_user \<lparr>au_ID = userID, au_EnterpriseID = enterpriseID, au_Username = username, au_DisplayName = displayName,
                    au_PasswordHash = passwordHash, au_Role = RoleSystemAdmin, au_Active = True, au_Deleted = False\<rparr> fl1)"

definition UpdateOwnPassword :: "string \<Rightarrow> string \<Rightarrow> fleet \<Rightarrow> tenancy_error + fleet" where
  "UpdateOwnPassword userID passwordHash fl =
     (let P = (\<lambda>u. au_ID u = userID \<and> au_Active u \<and> \<not> au_Deleted u); f = (\<lambda>u. u\<lparr>au_PasswordHash := passwordHash\<rparr>)
      in if changed_rows P f (fl_users fl) \<noteq> 1 then Inl NoSuchRow else Inr (fl\<lparr>fl_users := update_where P f (fl_users fl)\<rparr>))"

definition active_system_admin :: "admin_user \<Rightarrow> bool" where
  "active_system_admin u \<longleftrightarrow> au_Role u = RoleSystemAdmin \<and> au_Active u \<and> \<not> au_Deleted u"

definition ResetSystemAdminPassword :: "string \<Rightarrow> string \<Rightarrow> fleet \<Rightarrow> tenancy_error + fleet" where
  "ResetSystemAdminPassword username passwordHash fl =
     (case find (\<lambda>u. au_Username u = username \<and> active_system_admin u) (fl_users fl) of
        None \<Rightarrow> Inl NoActiveSystemAdmin
      | Some found \<Rightarrow>
          let P = (\<lambda>u. au_ID u = au_ID found \<and> active_system_admin u); f = (\<lambda>u. u\<lparr>au_PasswordHash := passwordHash\<rparr>)
          in if changed_rows P f (fl_users fl) \<noteq> 1 then Inl NoActiveSystemAdmin
             else Inr (fl\<lparr>fl_users := update_where P f (fl_users fl)\<rparr>))"

definition CreateEnterprise :: "tenancy_env \<Rightarrow> string \<Rightarrow> fleet \<Rightarrow> tenancy_error + fleet" where
  "CreateEnterprise env name fl = insert_enterprise (next_id env fl) name (drawn 1 fl)"

definition CreateEnterpriseUser ::
  "tenancy_env \<Rightarrow> string \<Rightarrow> string \<Rightarrow> string \<Rightarrow> string \<Rightarrow> Role \<Rightarrow> fleet \<Rightarrow> tenancy_error + fleet" where
  "CreateEnterpriseUser env enterpriseID username displayName passwordHash role fl =
     (if enterpriseID = [] \<or> \<not> validEnterpriseRole role then Inl BadArguments
      else if \<not> enterprise_active fl enterpriseID then Inl NotActiveEnterprise
      else insert_user \<lparr>au_ID = next_id env fl, au_EnterpriseID = enterpriseID, au_Username = username, au_DisplayName = displayName,
             au_PasswordHash = passwordHash, au_Role = role, au_Active = True, au_Deleted = False\<rparr> (drawn 1 fl))"

definition active_enterprise_admin :: "string \<Rightarrow> admin_user \<Rightarrow> bool" where
  "active_enterprise_admin enterpriseID u \<longleftrightarrow>
     au_EnterpriseID u = enterpriseID \<and> au_Role u = RoleEnterpriseAdmin \<and> au_Active u \<and> \<not> au_Deleted u"

definition lockOtherActiveEnterpriseAdmin :: "fleet \<Rightarrow> string \<Rightarrow> string \<Rightarrow> bool" where
  "lockOtherActiveEnterpriseAdmin fl enterpriseID excludedUserID =
     list_ex (\<lambda>u. active_enterprise_admin enterpriseID u \<and> au_ID u \<noteq> excludedUserID) (fl_users fl)"

definition enterprise_user :: "string \<Rightarrow> string \<Rightarrow> admin_user \<Rightarrow> bool" where
  "enterprise_user enterpriseID userID u \<longleftrightarrow>
     au_ID u = userID \<and> au_EnterpriseID u = enterpriseID \<and> au_Role u \<noteq> RoleSystemAdmin \<and> \<not> au_Deleted u"

definition UpdateEnterpriseUser :: "string \<Rightarrow> string \<Rightarrow> string \<Rightarrow> string \<Rightarrow> Role \<Rightarrow> bool \<Rightarrow> fleet \<Rightarrow> tenancy_error + fleet" where
  "UpdateEnterpriseUser enterpriseID userID displayName passwordHash role active fl =
     (if enterpriseID = [] \<or> \<not> validEnterpriseRole role then Inl BadArguments
      else case find (enterprise_user enterpriseID userID) (fl_users fl) of
          None \<Rightarrow> Inl NoSuchRow
        | Some current \<Rightarrow>
            if au_Role current = RoleEnterpriseAdmin \<and> au_Active current \<and> (role \<noteq> RoleEnterpriseAdmin \<or> \<not> active) \<and>
               \<not> lockOtherActiveEnterpriseAdmin fl enterpriseID userID then Inl LastEnterpriseAdmin
            else Inr (fl\<lparr>fl_users := update_where (enterprise_user enterpriseID userID)
                   (\<lambda>u. u\<lparr>au_DisplayName := displayName, au_Role := role, au_Active := active,
                          au_PasswordHash := (if passwordHash \<noteq> [] then passwordHash else au_PasswordHash u)\<rparr>) (fl_users fl)\<rparr>))"

definition DeleteEnterpriseUser :: "string \<Rightarrow> string \<Rightarrow> fleet \<Rightarrow> tenancy_error + fleet" where
  "DeleteEnterpriseUser enterpriseID userID fl =
     (if enterpriseID = [] then Inl BadArguments
      else case find (enterprise_user enterpriseID userID) (fl_users fl) of
          None \<Rightarrow> Inl NoSuchRow
        | Some current \<Rightarrow>
            if au_Role current = RoleEnterpriseAdmin \<and> au_Active current \<and>
               \<not> lockOtherActiveEnterpriseAdmin fl enterpriseID userID then Inl LastEnterpriseAdmin
            else let P = enterprise_user enterpriseID userID; f = (\<lambda>u. u\<lparr>au_Active := False, au_Deleted := True\<rparr>)
                 in if changed_rows P f (fl_users fl) \<noteq> 1 then Inl NoSuchRow
                    else Inr (fl\<lparr>fl_users := update_where P f (fl_users fl)\<rparr>))"

section \<open>Install tokens and enrollment tokens\<close>

text \<open>31 December 2037, 23:59:59 UTC.\<close>

definition persistentInstallTokenExpiry :: time where "persistentInstallTokenExpiry = 2145916799 * second"

definition installTokenUsable :: "time \<Rightarrow> install_token \<Rightarrow> bool" where
  "installTokenUsable now t \<longleftrightarrow>
     \<not> (it_Revoked t \<or> it_ExpiresAt t \<noteq> persistentInstallTokenExpiry \<and> \<not> now < it_ExpiresAt t) \<and>
     (case it_MaxEnrollments t of None \<Rightarrow> True | Some m \<Rightarrow> it_EnrollmentCount t < m)"

definition insert_install :: "install_token \<Rightarrow> fleet \<Rightarrow> tenancy_error + fleet" where
  "insert_install t fl =
     (if list_ex (\<lambda>x. it_ID x = it_ID t \<or> it_TokenHash x = it_TokenHash t) (fl_installs fl) then Inl KeyExists
      else Inr (fl\<lparr>fl_installs := fl_installs fl @ [t]\<rparr>))"

definition CreateEnterpriseInstallToken ::
  "tenancy_env \<Rightarrow> time \<Rightarrow> string \<Rightarrow> string \<Rightarrow> time \<Rightarrow> int \<Rightarrow> fleet \<Rightarrow> tenancy_error + fleet" where
  "CreateEnterpriseInstallToken env now enterpriseID name expiresAt maxEnrollments fl =
     (if enterpriseID = [] \<or> name = [] \<or> \<not> now < expiresAt then Inl BadArguments
      else if \<not> enterprise_active fl enterpriseID then Inl NotActiveEnterprise
      else insert_install \<lparr>it_ID = next_id env fl, it_EnterpriseID = enterpriseID, it_TokenHash = te_tokenHash env (next_token env fl),
             it_ExpiresAt = expiresAt, it_Revoked = False, it_MaxEnrollments = (if maxEnrollments > 0 then Some (nat maxEnrollments) else None),
             it_EnrollmentCount = 0\<rparr> (drawn 1 fl))"

definition ensure_existing :: "time \<Rightarrow> string \<Rightarrow> install_token \<Rightarrow> bool" where
  "ensure_existing now enterpriseID t \<longleftrightarrow>
     it_EnterpriseID t = enterpriseID \<and> \<not> it_Revoked t \<and> now < it_ExpiresAt t \<and>
     (case it_MaxEnrollments t of None \<Rightarrow> True | Some m \<Rightarrow> it_EnrollmentCount t < m)"

definition EnsurePersistentEnterpriseInstallToken :: "tenancy_env \<Rightarrow> time \<Rightarrow> string \<Rightarrow> string \<Rightarrow> fleet \<Rightarrow> tenancy_error + fleet" where
  "EnsurePersistentEnterpriseInstallToken env now enterpriseID name fl =
     (if enterpriseID = [] \<or> name = [] then Inl BadArguments
      else if \<not> enterprise_active fl enterpriseID then Inl NotActiveEnterprise
      else if list_ex (ensure_existing now enterpriseID) (fl_installs fl) then Inr fl
      else insert_install \<lparr>it_ID = next_id env fl, it_EnterpriseID = enterpriseID, it_TokenHash = te_tokenHash env (next_token env fl),
             it_ExpiresAt = persistentInstallTokenExpiry, it_Revoked = False, it_MaxEnrollments = None, it_EnrollmentCount = 0\<rparr> (drawn 1 fl))"

definition RevokeEnterpriseInstallToken :: "string \<Rightarrow> string \<Rightarrow> fleet \<Rightarrow> tenancy_error + fleet" where
  "RevokeEnterpriseInstallToken i enterpriseScope fl =
     (let P = (\<lambda>t. it_ID t = i \<and> \<not> it_Revoked t \<and> (enterpriseScope = [] \<or> it_EnterpriseID t = enterpriseScope));
          f = (\<lambda>t. t\<lparr>it_Revoked := True\<rparr>)
      in if changed_rows P f (fl_installs fl) \<noteq> 1 then Inl NoSuchRow
         else Inr (fl\<lparr>fl_installs := update_where P f (fl_installs fl)\<rparr>))"

definition insert_enrollment :: "enrollment_token \<Rightarrow> fleet \<Rightarrow> tenancy_error + fleet" where
  "insert_enrollment t fl =
     (if list_ex (\<lambda>x. et_ID x = et_ID t \<or> et_TokenHash x = et_TokenHash t) (fl_enrollments fl) then Inl KeyExists
      else Inr (fl\<lparr>fl_enrollments := fl_enrollments fl @ [t]\<rparr>))"

definition new_enrollment :: "tenancy_env \<Rightarrow> fleet \<Rightarrow> string \<Rightarrow> string \<Rightarrow> time \<Rightarrow> enrollment_token" where
  "new_enrollment env fl enterpriseID installID expiresAt =
     \<lparr>et_ID = next_id env fl, et_EnterpriseID = enterpriseID, et_InstallTokenID = installID,
      et_TokenHash = te_tokenHash env (next_token env fl), et_ExpiresAt = expiresAt, et_Used = False, et_AllowedPackages = None\<rparr>"

text \<open>Both return the new token and its expiry.\<close>

definition ExchangeEnterpriseInstallToken ::
  "tenancy_env \<Rightarrow> time \<Rightarrow> duration \<Rightarrow> string \<Rightarrow> fleet \<Rightarrow> tenancy_error + ((string \<times> time) \<times> fleet)" where
  "ExchangeEnterpriseInstallToken env now ttl installToken fl =
     (case find (\<lambda>t. it_TokenHash t = te_tokenHash env installToken \<and> enterprise_active fl (it_EnterpriseID t)) (fl_installs fl) of
        None \<Rightarrow> Inl InvalidInstallToken
      | Some t \<Rightarrow>
          if \<not> installTokenUsable now t then Inl InvalidInstallToken
          else let expires = (if it_ExpiresAt t \<noteq> persistentInstallTokenExpiry \<and> it_ExpiresAt t < now + ttl then it_ExpiresAt t else now + ttl)
               in case insert_enrollment (new_enrollment env fl (it_EnterpriseID t) (it_ID t) expires) (drawn 1 fl) of
                    Inl e \<Rightarrow> Inl e | Inr fl' \<Rightarrow> Inr ((next_token env fl, expires), fl'))"

definition CreateEnrollmentToken ::
  "tenancy_env \<Rightarrow> time \<Rightarrow> duration \<Rightarrow> string \<Rightarrow> fleet \<Rightarrow> tenancy_error + ((string \<times> time) \<times> fleet)" where
  "CreateEnrollmentToken env now ttl enterpriseID fl =
     (if enterpriseID = [] then Inl BadArguments
      else if \<not> enterprise_active fl enterpriseID then Inl NotActiveEnterprise
      else case insert_enrollment (new_enrollment env fl enterpriseID [] (now + ttl)) (drawn 1 fl) of
             Inl e \<Rightarrow> Inl e | Inr fl' \<Rightarrow> Inr ((next_token env fl, now + ttl), fl'))"

text \<open>The install token a session came from, as the queries of a session test it.\<close>

definition parent_valid :: "time \<Rightarrow> fleet \<Rightarrow> enrollment_token \<Rightarrow> bool" where
  "parent_valid now fl t \<longleftrightarrow>
     et_InstallTokenID t = [] \<or>
     list_ex (\<lambda>it. it_ID it = et_InstallTokenID t \<and> \<not> it_Revoked it \<and>
       (it_ExpiresAt it = persistentInstallTokenExpiry \<or> now < it_ExpiresAt it)) (fl_installs fl)"

definition ValidateEnrollmentToken :: "tenancy_env \<Rightarrow> time \<Rightarrow> string \<Rightarrow> fleet \<Rightarrow> tenancy_error option" where
  "ValidateEnrollmentToken env now token fl =
     (case find (\<lambda>t. et_TokenHash t = te_tokenHash env token \<and> enterprise_active fl (et_EnterpriseID t)) (fl_enrollments fl) of
        None \<Rightarrow> Some InvalidEnrollmentToken
      | Some t \<Rightarrow>
          if et_EnterpriseID t = [] \<or> et_Used t \<or> \<not> now < et_ExpiresAt t \<or> \<not> parent_valid now fl t
          then Some InvalidEnrollmentToken else None)"

definition session_open :: "tenancy_env \<Rightarrow> time \<Rightarrow> string \<Rightarrow> fleet \<Rightarrow> enrollment_token \<Rightarrow> bool" where
  "session_open env now token fl t \<longleftrightarrow>
     et_TokenHash t = te_tokenHash env token \<and> \<not> et_Used t \<and> now < et_ExpiresAt t \<and> parent_valid now fl t \<and>
     enterprise_active fl (et_EnterpriseID t)"

text \<open>A list of packages that is allowed already counts as no change.\<close>

definition AllowEnrollmentPackages :: "tenancy_env \<Rightarrow> time \<Rightarrow> string \<Rightarrow> string list \<Rightarrow> fleet \<Rightarrow> tenancy_error + fleet" where
  "AllowEnrollmentPackages env now token packageIDs fl =
     (let P = session_open env now token fl; f = (\<lambda>t. t\<lparr>et_AllowedPackages := Some packageIDs\<rparr>)
      in if changed_rows P f (fl_enrollments fl) \<noteq> 1 then Inl InvalidEnrollmentToken
         else Inr (fl\<lparr>fl_enrollments := update_where P f (fl_enrollments fl)\<rparr>))"

definition EnrollmentPackageAllowed :: "tenancy_env \<Rightarrow> time \<Rightarrow> string \<Rightarrow> string \<Rightarrow> fleet \<Rightarrow> tenancy_error + bool" where
  "EnrollmentPackageAllowed env now token packageID fl =
     (case find (session_open env now token fl) (fl_enrollments fl) of
        None \<Rightarrow> Inl InvalidEnrollmentToken
      | Some t \<Rightarrow> Inr (case et_AllowedPackages t of None \<Rightarrow> False | Some ids \<Rightarrow> List.member ids packageID))"

definition AuthorizeEventIngestToken :: "tenancy_env \<Rightarrow> string \<Rightarrow> string \<Rightarrow> fleet \<Rightarrow> tenancy_error option" where
  "AuthorizeEventIngestToken env serverID token fl =
     (if serverID = [] \<or> trim_space token = [] then Some InvalidEventToken
      else let h = te_tokenHash env (trim_space token)
           in if list_ex (\<lambda>s. srv_ID s = serverID \<and> srv_EnterpriseID s \<noteq> [] \<and>
                    (list_ex (\<lambda>t. it_EnterpriseID t = srv_EnterpriseID s \<and> it_TokenHash t = h) (fl_installs fl) \<or>
                     list_ex (\<lambda>t. et_EnterpriseID t = srv_EnterpriseID s \<and> et_TokenHash t = h \<and> et_Used t) (fl_enrollments fl)))
                  (db_servers (fl_db fl))
              then None else Some InvalidEventToken)"

end
