(* ===== verification/Fleet.thy ===== *)
theory Fleet
  imports Tenancy Package_Model
begin

text \<open>
  Servers and what the Manager tells them: enrollment, certificates, revocation, commands, results of deployments and
  heartbeats (\<^verbatim>\<open>store.go\<close>, \<^verbatim>\<open>store_operations.go\<close>, \<^verbatim>\<open>ca.go\<close> and the handlers of \<^verbatim>\<open>server.go\<close> in
  \<^verbatim>\<open>src/internal/manager/\<close>), and the end of an enterprise (\<^verbatim>\<open>DeleteOrTerminateEnterprise\<close>). A server that has sent no
  heartbeat has the time 0. Signing a certificate is reduced to its fields.
\<close>

section \<open>Certificates\<close>

record certificate =
  ct_CommonName :: string
  ct_Serial :: string
  ct_NotBefore :: time
  ct_NotAfter :: time

text \<open>The request is readable and its own signature valid, or not; the serial is random.\<close>

definition SignAgentCSR :: "bool \<Rightarrow> string \<Rightarrow> string \<Rightarrow> time \<Rightarrow> certificate option" where
  "SignAgentCSR csrOK serial serverID now =
     (if \<not> csrOK then None
      else let t = now div second * second
           in Some \<lparr>ct_CommonName = serverID, ct_Serial = serial, ct_NotBefore = t - 5 * minute, ct_NotAfter = t + 90 * 24 * hour\<rparr>)"

definition set_serial :: "string \<Rightarrow> string \<Rightarrow> fleet \<Rightarrow> fleet" where
  "set_serial serverID serial fl = fl\<lparr>fl_serials := AList.update serverID serial (fl_serials fl)\<rparr>"

definition AuthorizeAgent :: "time \<Rightarrow> string \<Rightarrow> certificate \<Rightarrow> fleet \<Rightarrow> tenancy_error + fleet" where
  "AuthorizeAgent now serverID cert fl =
     (if serverID = [] then Inl NoSuchRow
      else case find (\<lambda>s. srv_ID s = serverID \<and> \<not> srv_Revoked s \<and>
                    (srv_EnterpriseID s = [] \<or> enterprise_active fl (srv_EnterpriseID s))) (db_servers (fl_db fl)) of
          None \<Rightarrow> Inl NoSuchRow
        | Some s \<Rightarrow>
            (case map_of (fl_serials fl) serverID of
               None \<Rightarrow> Inl NoSuchRow
             | Some current \<Rightarrow>
                 if current = ct_Serial cert then Inr fl
                 else if now < ct_NotAfter cert \<and> now - 20 * minute < ct_NotBefore cert then
                   (if ct_Serial cert \<in> snd ` set (fl_serials fl) then Inl KeyExists else Inr (set_serial serverID (ct_Serial cert) fl))
                 else Inl NoSuchRow))"

text \<open>The middleware: the first certificate of the verified chain names the server.\<close>

definition requireAgent :: "time \<Rightarrow> certificate option \<Rightarrow> fleet \<Rightarrow> (string \<times> fleet) option" where
  "requireAgent now chain fl =
     (case chain of
        None \<Rightarrow> None
      | Some cert \<Rightarrow>
          if ct_CommonName cert = [] then None
          else (case AuthorizeAgent now (ct_CommonName cert) cert fl of Inl _ \<Rightarrow> None | Inr fl' \<Rightarrow> Some (ct_CommonName cert, fl')))"

definition requireEventVerification :: "tenancy_env \<Rightarrow> string \<Rightarrow> string \<Rightarrow> fleet \<Rightarrow> bool" where
  "requireEventVerification env serverID header fl \<longleftrightarrow>
     trim_space header \<noteq> [] \<and> AuthorizeEventIngestToken env serverID (trim_space header) fl = None"

section \<open>Enrollment\<close>

definition desired_packages :: "string list option \<Rightarrow> string \<times> string" where
  "desired_packages allowed = (case allowed of Some [a] \<Rightarrow> (a, []) | Some [a, m] \<Rightarrow> (a, m) | _ \<Rightarrow> ([], []))"

definition new_server :: "string \<Rightarrow> string \<Rightarrow> string \<Rightarrow> server_inventory \<Rightarrow> server_row" where
  "new_server serverID enterpriseID name inventory =
     \<lparr>srv_ID = serverID, srv_EnterpriseID = enterpriseID, srv_Name = name, srv_Revoked = False, srv_LastHeartbeatAt = 0,
      srv_Inventory = inventory, srv_PolicyRevision = []\<rparr>"

definition insert_server :: "string \<Rightarrow> string \<Rightarrow> string \<Rightarrow> string \<Rightarrow> server_inventory \<Rightarrow> string \<times> string \<Rightarrow> fleet \<Rightarrow> tenancy_error + fleet" where
  "insert_server serverID enterpriseID name serial inventory packages fl =
     (let db = fl_db fl
      in if list_ex (\<lambda>s. srv_ID s = serverID) (db_servers db) \<or> serial \<in> snd ` set (fl_serials fl) \<or>
            list_ex (\<lambda>d. ds_ServerID d = serverID) (db_desired db) then Inl KeyExists
         else Inr (set_serial serverID serial
           (fl\<lparr>fl_db := db\<lparr>db_servers := db_servers db @ [new_server serverID enterpriseID name inventory],
                db_desired := db_desired db @ [\<lparr>ds_ServerID = serverID, ds_PolicyRevisionID = [], ds_AgentPackageID = fst packages,
                  ds_ModulePackageID = snd packages, ds_PackageDeploymentID = []\<rparr>]\<rparr>\<rparr>)))"

text \<open>The parent of a session, when it has one: the error when it is missing or used up.\<close>

definition parent_usable :: "time \<Rightarrow> fleet \<Rightarrow> enrollment_token \<Rightarrow> bool" where
  "parent_usable now fl t \<longleftrightarrow>
     et_InstallTokenID t = [] \<or>
     (case find (\<lambda>it. it_ID it = et_InstallTokenID t) (fl_installs fl) of None \<Rightarrow> False | Some it \<Rightarrow> installTokenUsable now it)"

definition mark_used :: "enrollment_token \<Rightarrow> fleet \<Rightarrow> fleet" where
  "mark_used t fl =
     fl\<lparr>fl_enrollments := update_where (\<lambda>x. et_TokenHash x = et_TokenHash t) (\<lambda>x. x\<lparr>et_Used := True\<rparr>) (fl_enrollments fl),
        fl_installs := (if et_InstallTokenID t = [] then fl_installs fl
          else update_where (\<lambda>it. it_ID it = et_InstallTokenID t) (\<lambda>it. it\<lparr>it_EnrollmentCount := Suc (it_EnrollmentCount it)\<rparr>) (fl_installs fl))\<rparr>"

definition ConsumeEnrollment ::
  "tenancy_env \<Rightarrow> time \<Rightarrow> string \<Rightarrow> string \<Rightarrow> string \<Rightarrow> string \<Rightarrow> server_inventory \<Rightarrow> fleet \<Rightarrow> tenancy_error + fleet" where
  "ConsumeEnrollment env now token serverID serverName certSerial inventory fl =
     (case find (\<lambda>t. et_TokenHash t = te_tokenHash env token) (fl_enrollments fl) of
        None \<Rightarrow> Inl InvalidEnrollmentToken
      | Some t \<Rightarrow>
          if et_EnterpriseID t = [] \<or> et_Used t \<or> \<not> now < et_ExpiresAt t then Inl InvalidEnrollmentToken
          else if \<not> enterprise_active fl (et_EnterpriseID t) then Inl InvalidEnrollmentToken
          else if \<not> parent_usable now fl t then Inl InvalidEnrollmentToken
          else (case insert_server serverID (et_EnterpriseID t) serverName certSerial inventory (desired_packages (et_AllowedPackages t)) fl of
                  Inl e \<Rightarrow> Inl e | Inr fl' \<Rightarrow> Inr (mark_used t fl')))"

text \<open>The handler: the certificate is signed before the token is consumed, and sent only afterwards.\<close>

definition enroll :: "tenancy_env \<Rightarrow> time \<Rightarrow> string \<Rightarrow> string \<Rightarrow> bool \<Rightarrow> string \<Rightarrow> server_inventory \<Rightarrow> fleet \<Rightarrow> (certificate \<times> fleet) option" where
  "enroll env now token name csrOK serial inventory fl =
     (if ValidateEnrollmentToken env now token fl \<noteq> None then None
      else let serverID = next_id env fl
           in case SignAgentCSR csrOK serial serverID now of
                None \<Rightarrow> None
              | Some cert \<Rightarrow> (case ConsumeEnrollment env now token serverID name serial inventory (drawn 1 fl) of
                    Inl _ \<Rightarrow> None | Inr fl' \<Rightarrow> Some (cert, fl')))"

section \<open>Revocation\<close>

definition in_scope :: "string \<Rightarrow> server_row \<Rightarrow> bool" where
  "in_scope enterpriseID s \<longleftrightarrow> enterpriseID = [] \<or> srv_EnterpriseID s = enterpriseID"

definition on_db :: "(database \<Rightarrow> database) \<Rightarrow> fleet \<Rightarrow> fleet" where
  "on_db f fl = fl\<lparr>fl_db := f (fl_db fl)\<rparr>"

definition revoke_where :: "(server_row \<Rightarrow> bool) \<Rightarrow> string \<Rightarrow> fleet \<Rightarrow> tenancy_error + fleet" where
  "revoke_where P serverID fl =
     (let f = (\<lambda>s. s\<lparr>srv_Revoked := True\<rparr>)
      in if changed_rows P f (db_servers (fl_db fl)) \<noteq> 1 then Inl NoSuchRow
         else Inr (on_db (\<lambda>db. db\<lparr>db_servers := update_where P f (db_servers db),
                                 db_policy_servers := filter (\<lambda>m. fst m \<noteq> serverID) (db_policy_servers db)\<rparr>) fl))"

definition RevokeServer :: "string \<Rightarrow> string \<Rightarrow> fleet \<Rightarrow> tenancy_error + fleet" where
  "RevokeServer enterpriseID serverID = revoke_where (\<lambda>s. srv_ID s = serverID \<and> \<not> srv_Revoked s \<and> in_scope enterpriseID s) serverID"

definition UnregisterAgent :: "string \<Rightarrow> fleet \<Rightarrow> tenancy_error + fleet" where
  "UnregisterAgent serverID = revoke_where (\<lambda>s. srv_ID s = serverID \<and> \<not> srv_Revoked s) serverID"

definition DeleteRevokedServer :: "string \<Rightarrow> string \<Rightarrow> fleet \<Rightarrow> tenancy_error + fleet" where
  "DeleteRevokedServer enterpriseID serverID fl =
     (if \<not> list_ex (\<lambda>s. srv_ID s = serverID \<and> srv_Revoked s \<and> in_scope enterpriseID s) (db_servers (fl_db fl)) then Inl NoSuchRow
      else Inr (on_db (delete_server_rows serverID)
           (fl\<lparr>fl_commands := filter (\<lambda>c. cm_ServerID c \<noteq> serverID) (fl_commands fl),
               fl_serials := AList.delete serverID (fl_serials fl)\<rparr>)))"

section \<open>Commands\<close>

definition unfinished :: "command_row \<Rightarrow> bool" where
  "unfinished c \<longleftrightarrow> cm_Status c = C_PENDING \<or> cm_Status c = C_ACCEPTED"

definition QueueCommand :: "tenancy_env \<Rightarrow> string \<Rightarrow> string \<Rightarrow> string \<Rightarrow> fleet \<Rightarrow> tenancy_error + (string \<times> fleet)" where
  "QueueCommand env enterpriseID serverID command fl =
     (if \<not> list_ex (\<lambda>s. srv_ID s = serverID \<and> \<not> srv_Revoked s \<and> in_scope enterpriseID s) (db_servers (fl_db fl)) \<or> serverID = []
      then Inl NoSuchRow
      else if list_ex (\<lambda>c. cm_ServerID c = serverID \<and> unfinished c) (fl_commands fl) then Inl CommandPending
      else let i = next_id env fl
           in if list_ex (\<lambda>c. cm_ID c = i) (fl_commands fl) then Inl KeyExists
              else Inr (i, (drawn 1 fl)\<lparr>fl_commands := fl_commands fl @
                     [\<lparr>cm_ID = i, cm_ServerID = serverID, cm_Command = command, cm_Status = C_PENDING\<rparr>]\<rparr>))"

text \<open>The rows stand in the order of their creation.\<close>

definition NextCommand :: "string \<Rightarrow> fleet \<Rightarrow> string \<times> string" where
  "NextCommand serverID fl =
     (case find (\<lambda>c. cm_ServerID c = serverID \<and> unfinished c) (fl_commands fl) of
        None \<Rightarrow> ([], []) | Some c \<Rightarrow> (cm_ID c, cm_Command c))"

definition set_command :: "(command_row \<Rightarrow> bool) \<Rightarrow> command_status \<Rightarrow> fleet \<Rightarrow> fleet" where
  "set_command P status fl = fl\<lparr>fl_commands := update_where P (\<lambda>c. c\<lparr>cm_Status := status\<rparr>) (fl_commands fl)\<rparr>"

definition UpdateCommandResult :: "string \<Rightarrow> string \<Rightarrow> string \<Rightarrow> fleet \<Rightarrow> tenancy_error + fleet" where
  "UpdateCommandResult serverID commandID status fl =
     (let P = (\<lambda>c. cm_ID c = commandID \<and> cm_ServerID c = serverID)
      in if \<not> list_ex P (fl_commands fl) then Inl NoSuchRow
         else Inr (if status = ''ACCEPTED'' then set_command (\<lambda>c. P c \<and> cm_Status c = C_PENDING) C_ACCEPTED fl
                   else set_command (\<lambda>c. P c \<and> unfinished c) C_FAILED fl))"

section \<open>Deployments\<close>

definition UpdatePolicyDeploymentResult :: "string \<Rightarrow> string \<Rightarrow> deployment_status \<Rightarrow> fleet \<Rightarrow> tenancy_error + fleet" where
  "UpdatePolicyDeploymentResult serverID revisionID status fl =
     (let P = (\<lambda>d. pd_ServerID d = serverID \<and> pd_PolicyRevisionID d = revisionID)
      in if \<not> list_ex P (db_policy_deployments (fl_db fl)) then Inl NoSuchRow
         else Inr (on_db (\<lambda>db. db\<lparr>db_policy_deployments :=
                update_where (\<lambda>d. P d \<and> pd_Status d \<noteq> SUPERSEDED) (\<lambda>d. d\<lparr>pd_Status := status\<rparr>) (db_policy_deployments db)\<rparr>) fl))"

definition detail_of :: "fleet \<Rightarrow> string \<Rightarrow> string" where
  "detail_of fl deploymentID = (case map_of (fl_details fl) deploymentID of None \<Rightarrow> [] | Some d \<Rightarrow> d)"

definition UpdatePackageDeploymentResult ::
  "plan_env \<Rightarrow> string \<Rightarrow> string \<Rightarrow> deployment_status \<Rightarrow> string \<Rightarrow> fleet \<Rightarrow> tenancy_error + fleet" where
  "UpdatePackageDeploymentResult env serverID deploymentID status detail fl =
     (case find (\<lambda>d. kd_ID d = deploymentID \<and> kd_ServerID d = serverID) (db_package_deployments (fl_db fl)) of
        None \<Rightarrow> Inl NoSuchRow
      | Some row \<Rightarrow>
          (case stored_result env (detail_of fl deploymentID) detail of
             Inl _ \<Rightarrow> Inl BadPlan
           | Inr column \<Rightarrow>
               if kd_Status row = SUPERSEDED then Inr fl
               else Inr (on_db (\<lambda>db. db\<lparr>db_package_deployments :=
                        update_where (\<lambda>d. kd_ID d = deploymentID \<and> kd_ServerID d = serverID \<and> kd_Status d \<noteq> SUPERSEDED)
                          (\<lambda>d. d\<lparr>kd_Status := status\<rparr>) (db_package_deployments db)\<rparr>)
                      (fl\<lparr>fl_details := AList.update deploymentID column (fl_details fl)\<rparr>))))"

definition overwrite_details :: "string \<Rightarrow> string list \<Rightarrow> fleet \<Rightarrow> fleet" where
  "overwrite_details txt ids fl = fl\<lparr>fl_details := fold (\<lambda>i. AList.update i txt) ids (fl_details fl)\<rparr>"

definition pending_packages :: "string \<Rightarrow> database \<Rightarrow> string list" where
  "pending_packages serverID db = map kd_ID (filter (\<lambda>d. kd_ServerID d = serverID \<and> kd_Status d = D_PENDING) (db_package_deployments db))"

text \<open>The common part of the assignments: earlier waiting deployments are superseded, the new one is desired.\<close>

definition assign_deployment ::
  "tenancy_env \<Rightarrow> string \<Rightarrow> string \<Rightarrow> string \<Rightarrow> string \<Rightarrow> (desired_state \<Rightarrow> desired_state) \<Rightarrow> fleet \<Rightarrow> tenancy_error + (string \<times> fleet)" where
  "assign_deployment env serverID agentID moduleID plan desire fl =
     (let i = next_id env fl;
          fl1 = on_db (supersede_packages serverID) (overwrite_details (te_superseded env) (pending_packages serverID (fl_db fl)) (drawn 1 fl))
      in if list_ex (\<lambda>d. kd_ID d = i) (db_package_deployments (fl_db fl1)) then Inl KeyExists
         else if \<not> list_ex (\<lambda>d. ds_ServerID d = serverID) (db_desired (fl_db fl1)) then Inl NoSuchRow
         else Inr (i, on_db (\<lambda>db. db\<lparr>db_package_deployments := db_package_deployments db @
                       [\<lparr>kd_ID = i, kd_ServerID = serverID, kd_AgentPackageID = agentID, kd_ModulePackageID = moduleID,
                         kd_Status = D_PENDING, kd_RolloutID = []\<rparr>],
                       db_desired := update_where (\<lambda>d. ds_ServerID d = serverID) (\<lambda>d. (desire d)\<lparr>ds_PackageDeploymentID := i\<rparr>) (db_desired db)\<rparr>)
                   (fl1\<lparr>fl_details := AList.update i plan (fl_details fl1)\<rparr>)))"

definition AssignPackagesWithControl ::
  "tenancy_env \<Rightarrow> plan_env \<Rightarrow> string \<Rightarrow> string \<Rightarrow> string \<Rightarrow> string \<Rightarrow> string \<Rightarrow> fleet \<Rightarrow> tenancy_error + (string \<times> fleet)" where
  "AssignPackagesWithControl env penv enterpriseID serverID agentID moduleID controlMode fl =
     (case encodePackageDeploymentPlan penv controlMode of
        Inl _ \<Rightarrow> Inl BadPlan
      | Inr plan \<Rightarrow>
          if length (filter (\<lambda>s. srv_ID s = serverID \<and> \<not> srv_Revoked s \<and> in_scope enterpriseID s) (db_servers (fl_db fl))) \<noteq> 1
          then Inl NoSuchRow
          else assign_deployment env serverID agentID moduleID plan
                 (\<lambda>d. d\<lparr>ds_AgentPackageID := agentID, ds_ModulePackageID := moduleID\<rparr>) fl)"

definition AssignAgentPackage :: "tenancy_env \<Rightarrow> plan_env \<Rightarrow> string \<Rightarrow> string \<Rightarrow> string \<Rightarrow> fleet \<Rightarrow> tenancy_error + (string \<times> fleet)" where
  "AssignAgentPackage env penv enterpriseID serverID agentID fl =
     (if agentID = [] then Inl PackageRequired
      else case encodePackageDeploymentPlanWithScope penv WebServerControlStandard PackageScopeAgent of
          Inl _ \<Rightarrow> Inl BadPlan
        | Inr plan \<Rightarrow>
            (case desired_of (fl_db fl) serverID of
               None \<Rightarrow> Inl NoSuchRow
             | Some d \<Rightarrow>
                 if \<not> list_ex (\<lambda>s. srv_ID s = serverID \<and> \<not> srv_Revoked s \<and> in_scope enterpriseID s) (db_servers (fl_db fl)) then Inl NoSuchRow
                 else assign_deployment env serverID agentID (ds_ModulePackageID d) plan (\<lambda>d. d\<lparr>ds_AgentPackageID := agentID\<rparr>) fl))"

definition PackageAllowedForServer :: "string \<Rightarrow> string \<Rightarrow> fleet \<Rightarrow> bool" where
  "PackageAllowedForServer serverID packageID fl \<longleftrightarrow>
     length (filter (\<lambda>d. ds_ServerID d = serverID \<and> (ds_AgentPackageID d = packageID \<or> ds_ModulePackageID d = packageID)) (db_desired (fl_db fl))) = 1"

definition CurrentPackageIDs :: "string \<Rightarrow> fleet \<Rightarrow> (string \<times> string) option" where
  "CurrentPackageIDs serverID fl = map_option (\<lambda>d. (ds_AgentPackageID d, ds_ModulePackageID d)) (desired_of (fl_db fl) serverID)"

definition AppliedAgentUpgradeConfirmed :: "plan_env \<Rightarrow> string \<Rightarrow> string \<Rightarrow> fleet \<Rightarrow> bool" where
  "AppliedAgentUpgradeConfirmed env serverID agentID fl \<longleftrightarrow>
     serverID \<noteq> [] \<and> agentID \<noteq> [] \<and>
     (case desired_of (fl_db fl) serverID of
        None \<Rightarrow> False
      | Some d \<Rightarrow> ds_AgentPackageID d = agentID \<and>
          (case find (\<lambda>k. kd_ID k = ds_PackageDeploymentID d \<and> kd_AgentPackageID k = agentID) (db_package_deployments (fl_db fl)) of
             None \<Rightarrow> False
           | Some k \<Rightarrow> isAppliedAgentOnlyDeployment env (if kd_Status k = D_APPLIED then ''APPLIED'' else []) (detail_of fl (kd_ID k))))"

text \<open>
  The handlers of an agent's results (\<^verbatim>\<open>agent_operations.go\<close>): only final results are accepted. The text of a
  decoded request is valid UTF-8; a byte from 0x80 to 0xBF continues a character.
\<close>

definition continues :: "char \<Rightarrow> bool" where
  "continues c \<longleftrightarrow> 128 \<le> (of_char c :: nat) \<and> (of_char c :: nat) < 192"

fun take_runes :: "nat \<Rightarrow> string \<Rightarrow> string" where
  "take_runes n [] = []"
| "take_runes n (c # cs) =
     (if continues c then c # take_runes n cs else case n of 0 \<Rightarrow> [] | Suc m \<Rightarrow> c # take_runes m cs)"

definition truncate_text :: "string \<Rightarrow> nat \<Rightarrow> string" where
  "truncate_text v m = (if length (filter (\<lambda>c. \<not> continues c) v) \<le> m then v else take_runes m v)"

definition result_status :: "string \<Rightarrow> deployment_status option" where
  "result_status s = (if s = ''APPLIED'' then Some D_APPLIED else if s = ''FAILED'' then Some D_FAILED else None)"

definition policyResult :: "string \<Rightarrow> string \<Rightarrow> string \<Rightarrow> fleet \<Rightarrow> tenancy_error + fleet" where
  "policyResult serverID revisionID status fl =
     (case result_status status of None \<Rightarrow> Inl BadArguments | Some st \<Rightarrow> UpdatePolicyDeploymentResult serverID revisionID st fl)"

definition packageDeploymentResult :: "plan_env \<Rightarrow> string \<Rightarrow> string \<Rightarrow> string \<Rightarrow> string \<Rightarrow> fleet \<Rightarrow> tenancy_error + fleet" where
  "packageDeploymentResult env serverID deploymentID status detail fl =
     (case result_status status of
        None \<Rightarrow> Inl BadArguments
      | Some st \<Rightarrow> UpdatePackageDeploymentResult env serverID deploymentID st (truncate_text (trim_space detail) 4096) fl)"

definition agentCommandResult :: "string \<Rightarrow> string \<Rightarrow> string \<Rightarrow> fleet \<Rightarrow> tenancy_error + fleet" where
  "agentCommandResult serverID commandID status fl =
     (if status \<noteq> ''ACCEPTED'' \<and> status \<noteq> ''FAILED'' then Inl BadArguments else UpdateCommandResult serverID commandID status fl)"

section \<open>Heartbeats\<close>

record heartbeat_request =
  hb_Inventory :: server_inventory
  hb_PolicyRevision :: string
  hb_LastCommandID :: string

text \<open>The time of the heartbeat changes the row of the server in any case; the two updates that follow may fail unnoticed.\<close>

definition heartbeat_policy :: "string \<Rightarrow> heartbeat_request \<Rightarrow> fleet \<Rightarrow> fleet" where
  "heartbeat_policy serverID hb =
     on_db (\<lambda>db. db\<lparr>db_policy_deployments := update_where (\<lambda>d. pd_ServerID d = serverID \<and> pd_PolicyRevisionID d = hb_PolicyRevision hb)
       (\<lambda>d. d\<lparr>pd_Status := D_APPLIED\<rparr>) (db_policy_deployments db)\<rparr>)"

definition heartbeat_command :: "string \<Rightarrow> heartbeat_request \<Rightarrow> fleet \<Rightarrow> fleet" where
  "heartbeat_command serverID hb =
     set_command (\<lambda>c. cm_ID c = hb_LastCommandID hb \<and> cm_ServerID c = serverID \<and> cm_Status c = C_ACCEPTED) C_COMPLETED"

definition UpdateHeartbeat :: "time \<Rightarrow> bool \<times> bool \<Rightarrow> string \<Rightarrow> heartbeat_request \<Rightarrow> fleet \<Rightarrow> tenancy_error + fleet" where
  "UpdateHeartbeat now oks serverID hb fl =
     (if \<not> list_ex (\<lambda>s. srv_ID s = serverID) (db_servers (fl_db fl)) then Inl NoSuchRow
      else let fl1 = on_db (\<lambda>db. db\<lparr>db_servers := update_where (\<lambda>s. srv_ID s = serverID)
                    (\<lambda>s. s\<lparr>srv_Inventory := hb_Inventory hb, srv_PolicyRevision := hb_PolicyRevision hb, srv_LastHeartbeatAt := now\<rparr>) (db_servers db)\<rparr>) fl;
               fl2 = (if hb_PolicyRevision hb \<noteq> [] \<and> fst oks then heartbeat_policy serverID hb fl1 else fl1)
           in Inr (if hb_LastCommandID hb \<noteq> [] \<and> snd oks then heartbeat_command serverID hb fl2 else fl2))"

section \<open>The end of an enterprise\<close>

datatype lifecycle_result = EnterpriseDeleted | EnterpriseTerminated

text \<open>What depends on an enterprise, apart from its server groups, whose number is an argument.\<close>

definition enterprise_dependencies :: "fleet \<Rightarrow> string \<Rightarrow> nat" where
  "enterprise_dependencies fl e =
     length (filter (\<lambda>u. au_EnterpriseID u = e) (fl_users fl)) + length (filter (\<lambda>t. et_EnterpriseID t = e) (fl_enrollments fl)) +
     length (filter (\<lambda>s. srv_EnterpriseID s = e) (db_servers (fl_db fl))) +
     length (filter (\<lambda>r. (case policy_row_of (fl_db fl) (rv_EnterprisePolicyID r) of None \<Rightarrow> False | Some p \<Rightarrow> ep_EnterpriseID p = e)) (db_revisions (fl_db fl))) +
     length (filter (\<lambda>p. ep_EnterpriseID p = e) (db_policies (fl_db fl))) + length (filter (\<lambda>t. it_EnterpriseID t = e) (fl_installs fl))"

definition terminate_fleet :: "tenancy_env \<Rightarrow> string \<Rightarrow> fleet \<Rightarrow> fleet" where
  "terminate_fleet env e fl =
     on_db (terminate_db e)
       (overwrite_details (te_cancelled env)
          (map kd_ID (filter (\<lambda>d. server_of e (fl_db fl) (kd_ServerID d) \<and> kd_Status d = D_PENDING) (db_package_deployments (fl_db fl))))
          (put_enterprises (update_where (\<lambda>x. en_ID x = e) (\<lambda>x. x\<lparr>en_Active := False\<rparr>) (fl_enterprises fl))
             (fl\<lparr>fl_users := update_where (\<lambda>u. au_EnterpriseID u = e \<and> au_Role u \<noteq> RoleSystemAdmin) (\<lambda>u. u\<lparr>au_Active := False\<rparr>) (fl_users fl),
                 fl_installs := update_where (\<lambda>t. it_EnterpriseID t = e) (\<lambda>t. t\<lparr>it_Revoked := True\<rparr>) (fl_installs fl),
                 fl_enrollments := update_where (\<lambda>t. et_EnterpriseID t = e) (\<lambda>t. t\<lparr>et_Used := True\<rparr>) (fl_enrollments fl),
                 fl_commands := update_where (\<lambda>c. server_of e (fl_db fl) (cm_ServerID c) \<and> unfinished c)
                   (\<lambda>c. c\<lparr>cm_Status := C_FAILED\<rparr>) (fl_commands fl)\<rparr>)))"

definition DeleteOrTerminateEnterprise ::
  "tenancy_env \<Rightarrow> string \<Rightarrow> string \<Rightarrow> nat \<Rightarrow> fleet \<Rightarrow> tenancy_error + (lifecycle_result \<times> fleet)" where
  "DeleteOrTerminateEnterprise env enterpriseID expectedName groups fl =
     (case find (\<lambda>e. en_ID e = enterpriseID) (fl_enterprises fl) of
        None \<Rightarrow> Inl NoSuchRow
      | Some e \<Rightarrow>
          if \<not> en_Active e then Inl NotActiveEnterprise
          else if expectedName = [] \<or> expectedName \<noteq> en_Name e then Inl WrongConfirmation
          else if list_ex (\<lambda>u. au_EnterpriseID u = enterpriseID \<and> au_Role u = RoleSystemAdmin \<and> \<not> au_Deleted u) (fl_users fl)
            then Inl SystemEnterpriseProtected
          else if enterprise_dependencies fl enterpriseID + groups = 0
            then Inr (EnterpriseDeleted, put_enterprises (filter (\<lambda>x. en_ID x \<noteq> enterpriseID) (fl_enterprises fl)) fl)
          else Inr (EnterpriseTerminated, terminate_fleet env enterpriseID fl))"

end
