(* ===== verification/Fleet_Steps.thy ===== *)
theory Fleet_Steps
  imports Fleet Rollout_Invariants
begin

text \<open>
  The fleet as a state machine: one step per operation of \<open>Tenancy\<close> and \<open>Fleet\<close> and per transaction of the rollouts
  (\<open>Rollout_Store\<close>), in any order, with the time never running backwards. What the operations leave unchanged, and
  the invariant \<open>inert\<close>: only rows of active enterprises are in use.
\<close>

section \<open>Steps\<close>

text \<open>
  A pass over a rollout is a sequence of transactions, and other requests may come between two of them; the steps are the single
  transactions. A transaction of a pass may also be one that the pass would not run then.
\<close>

inductive store_transaction :: "(nat \<Rightarrow> string) \<Rightarrow> database \<Rightarrow> database \<Rightarrow> bool" for randomID where
  create_rollout: "CreatePolicyRollout randomID pid eid expected typ status v target targetSystem sids db = Inr db' \<Longrightarrow> store_transaction randomID db db'"
| create_policy: "CreateEnterprisePolicyWithRollout randomID eid pid strategy r typ status sids db = Inr db' \<Longrightarrow> store_transaction randomID db db'"
| create_membership: "CreatePolicyMembershipRollout randomID pid eid sids db = Inr db' \<Longrightarrow> store_transaction randomID db db'"
| convert: "ConvertLegacyEnterprisePolicy randomID pid eid expected r sids db = Inr db' \<Longrightarrow> store_transaction randomID db db'"
| approve: "ApprovePolicyRollout scope pid rid expected db = Inr db' \<Longrightarrow> store_transaction randomID db db'"
| retry: "RetryPolicyRollout scope pid rid expected db = Inr db' \<Longrightarrow> store_transaction randomID db db'"
| strategy: "UpdateEnterprisePolicyStrategy scope pid expected strategy db = Inr db' \<Longrightarrow> store_transaction randomID db db'"
| revision: "InsertPolicyRevision eid r db = Inr db' \<Longrightarrow> store_transaction randomID db db'"
| rollout_status: "store_transaction randomID db (UpdatePolicyRolloutStatus rid status d db)"
| target_status: "UpdatePolicyRolloutTarget now rid sid tstatus d db = Inr db' \<Longrightarrow> store_transaction randomID db db'"
| defer_target: "store_transaction randomID db (DeferPolicyRolloutTarget rid sid tstatus db)"
| resume_target: "store_transaction randomID db (ResumePolicyRolloutTarget rid sid tstatus db)"
| swap: "SwapPolicyRolloutCanary rid sid canary n db = Inr db' \<Longrightarrow> store_transaction randomID db db'"
| assign_policy: "AssignPolicyForRollout rid eid sid vid tstatus db = Inr db' \<Longrightarrow> store_transaction randomID db db'"
| assign_packages: "AssignPackagesForRollout randomID rid eid sid aid mid tstatus db = Inr db' \<Longrightarrow> store_transaction randomID db db'"
| complete: "CompletePolicyRollout r db = Inr db' \<Longrightarrow> store_transaction randomID db db'"
| restore_unassigned: "RestoreUnassignedPolicyAfterFailedMove rid eid sid db = Inr db' \<Longrightarrow> store_transaction randomID db db'"
| restore_revision: "RestorePolicyRevisionAfterFailedMove randomID rid eid sid vid db = Inr db' \<Longrightarrow> store_transaction randomID db db'"

text \<open>None of them changes servers or enterprises.\<close>

definition hosts_kept :: "database \<Rightarrow> database \<Rightarrow> bool" where
  "hosts_kept db db' \<longleftrightarrow> db_servers db' = db_servers db \<and> db_active_enterprises db' = db_active_enterprises db \<and> db_ids db \<le> db_ids db'"

lemma hosts_kept_trans: "hosts_kept db db1 \<Longrightarrow> hosts_kept db1 db2 \<Longrightarrow> hosts_kept db db2"
  by (auto simp: hosts_kept_def)

lemma insert_targets_hosts: "fold_result (insert_target_step rid v) db xs = Inr db' \<Longrightarrow> hosts_kept db db'"
  by (induction xs arbitrary: db) (fastforce simp: insert_target_step_def hosts_kept_def split: option.splits sum.splits)+

lemma insert_with_targets_hosts: "insert_with_targets r sids db = Inr db' \<Longrightarrow> hosts_kept db db'"
  by (auto simp: insert_with_targets_def insert_rollout_def insertRolloutTargetsTx_def hosts_kept_def split: sum.splits if_splits
      dest!: insert_targets_hosts)

lemma insert_revision_hosts: "insertPolicyRevisionTx r db = Inr db' \<Longrightarrow> hosts_kept db db'"
  by (auto simp: insertPolicyRevisionTx_def hosts_kept_def split: if_splits)

lemma optional_revision_hosts: "optional_revision v db = Inr db' \<Longrightarrow> hosts_kept db db'"
  by (auto simp: optional_revision_def hosts_kept_def split: option.splits dest!: insert_revision_hosts)

lemma creation_hosts:
  "CreatePolicyRollout randomID pid eid expected typ status v target targetSystem sids db = Inr db' \<Longrightarrow> hosts_kept db db'"
  "CreatePolicyMembershipRollout randomID pid eid sids db = Inr db' \<Longrightarrow> hosts_kept db db'"
  by (auto simp: CreatePolicyRollout_def CreatePolicyMembershipRollout_def Let_def split: if_splits option.splits sum.splits
      dest!: insert_with_targets_hosts optional_revision_hosts intro: hosts_kept_trans) (simp add: hosts_kept_def)

lemma CreateEnterprisePolicyWithRollout_hosts:
  "CreateEnterprisePolicyWithRollout randomID eid pid strategy r typ status sids db = Inr db' \<Longrightarrow> hosts_kept db db'"
  by (auto simp: CreateEnterprisePolicyWithRollout_def Let_def hosts_kept_def split: if_splits option.splits sum.splits
      dest!: insert_with_targets_hosts insert_revision_hosts)

lemma ConvertLegacyEnterprisePolicy_hosts:
  "ConvertLegacyEnterprisePolicy randomID pid eid expected r sids db = Inr db' \<Longrightarrow> hosts_kept db db'"
  by (auto simp: ConvertLegacyEnterprisePolicy_def Let_def hosts_kept_def split: if_splits option.splits sum.splits
      dest!: insert_with_targets_hosts insert_revision_hosts)

lemma store_transaction_hosts: "store_transaction randomID db db' \<Longrightarrow> hosts_kept db db'"
proof (induction rule: store_transaction.induct)
  case (swap rid sid canary n db db')
  then show ?case by (auto simp: SwapPolicyRolloutCanary_def update_targets_def Let_def hosts_kept_def split: if_splits)
next
  case (restore_revision rid eid sid vid db db')
  then show ?case by (auto simp: RestorePolicyRevisionAfterFailedMove_def target_ops Let_def hosts_kept_def split: if_splits option.splits)
next
  case (retry scope pid rid expected db db')
  then show ?case by (auto simp: RetryPolicyRollout_def Let_def hosts_kept_def split: if_splits option.splits)
next
  case (create_policy eid pid strat r ty st sids db db')
  then show ?case by (rule CreateEnterprisePolicyWithRollout_hosts)
next
  case (convert pid eid expected r sids db db')
  then show ?case by (rule ConvertLegacyEnterprisePolicy_hosts)
qed (use creation_hosts insert_revision_hosts in \<open>auto simp: ApprovePolicyRollout_def
      UpdateEnterprisePolicyStrategy_def InsertPolicyRevision_def UpdatePolicyRolloutStatus_def UpdatePolicyRolloutTarget_def
      DeferPolicyRolloutTarget_def ResumePolicyRolloutTarget_def AssignPolicyForRollout_def AssignPackagesForRollout_def
      CompletePolicyRollout_def RestoreUnassignedPolicyAfterFailedMove_def target_ops update_targets_def Let_def hosts_kept_def
      split: if_splits option.splits\<close>)

text \<open>One step at a time. The authority never issues two certificates with the same serial: \<open>issued\<close> gives the certificate of a serial.\<close>

inductive fleet_step :: "tenancy_env \<Rightarrow> plan_env \<Rightarrow> (string \<Rightarrow> certificate) \<Rightarrow> time \<Rightarrow> fleet \<Rightarrow> fleet \<Rightarrow> bool" for env penv issued now where
  initial_admin: "CreateInitialSystemAdmin env username displayName hash fl = Inr fl' \<Longrightarrow> fleet_step env penv issued now fl fl'"
| own_password: "UpdateOwnPassword userID hash fl = Inr fl' \<Longrightarrow> fleet_step env penv issued now fl fl'"
| reset_password: "ResetSystemAdminPassword username hash fl = Inr fl' \<Longrightarrow> fleet_step env penv issued now fl fl'"
| create_enterprise: "CreateEnterprise env name fl = Inr fl' \<Longrightarrow> fleet_step env penv issued now fl fl'"
| create_user: "CreateEnterpriseUser env eid username displayName hash role fl = Inr fl' \<Longrightarrow> fleet_step env penv issued now fl fl'"
| update_user: "UpdateEnterpriseUser eid userID displayName hash role active fl = Inr fl' \<Longrightarrow> fleet_step env penv issued now fl fl'"
| delete_user: "DeleteEnterpriseUser eid userID fl = Inr fl' \<Longrightarrow> fleet_step env penv issued now fl fl'"
| create_install: "CreateEnterpriseInstallToken env now eid name expires m fl = Inr fl' \<Longrightarrow> fleet_step env penv issued now fl fl'"
| ensure_install: "EnsurePersistentEnterpriseInstallToken env now eid name fl = Inr fl' \<Longrightarrow> fleet_step env penv issued now fl fl'"
| revoke_install: "RevokeEnterpriseInstallToken i scope fl = Inr fl' \<Longrightarrow> fleet_step env penv issued now fl fl'"
| exchange: "ExchangeEnterpriseInstallToken env now ttl token fl = Inr (r, fl') \<Longrightarrow> fleet_step env penv issued now fl fl'"
| create_session: "CreateEnrollmentToken env now ttl eid fl = Inr (r, fl') \<Longrightarrow> fleet_step env penv issued now fl fl'"
| allow: "AllowEnrollmentPackages env now token ids fl = Inr fl' \<Longrightarrow> fleet_step env penv issued now fl fl'"
| enroll: "enroll env now token name csr serial invt fl = Some (cert, fl') \<Longrightarrow> fleet_step env penv issued now fl fl'"
| authorize: "AuthorizeAgent now sid (issued serial) fl = Inr fl' \<Longrightarrow> fleet_step env penv issued now fl fl'"
| revoke_server: "RevokeServer eid sid fl = Inr fl' \<Longrightarrow> fleet_step env penv issued now fl fl'"
| unregister: "UnregisterAgent sid fl = Inr fl' \<Longrightarrow> fleet_step env penv issued now fl fl'"
| delete_server: "DeleteRevokedServer eid sid fl = Inr fl' \<Longrightarrow> fleet_step env penv issued now fl fl'"
| queue: "QueueCommand env eid sid command fl = Inr (i, fl') \<Longrightarrow> fleet_step env penv issued now fl fl'"
| command_result: "agentCommandResult sid i status fl = Inr fl' \<Longrightarrow> fleet_step env penv issued now fl fl'"
| policy_result: "policyResult sid rid status fl = Inr fl' \<Longrightarrow> fleet_step env penv issued now fl fl'"
| package_result: "packageDeploymentResult penv sid i status detail fl = Inr fl' \<Longrightarrow> fleet_step env penv issued now fl fl'"
| assign_packages: "AssignPackagesWithControl env penv eid sid aid mid mode fl = Inr (i, fl') \<Longrightarrow> fleet_step env penv issued now fl fl'"
| assign_agent: "AssignAgentPackage env penv eid sid aid fl = Inr (i, fl') \<Longrightarrow> fleet_step env penv issued now fl fl'"
| heartbeat: "UpdateHeartbeat now oks sid hb fl = Inr fl' \<Longrightarrow> fleet_step env penv issued now fl fl'"
| lifecycle: "DeleteOrTerminateEnterprise env eid name groups fl = Inr (res, fl') \<Longrightarrow> fleet_step env penv issued now fl fl'"
| engine: "store_transaction (te_randomID env) (fl_db fl) db' \<Longrightarrow> fleet_step env penv issued now fl (fl\<lparr>fl_db := db', fl_details := ds\<rparr>)"

text \<open>States that follow a state from a time on; time does not run backwards.\<close>

inductive later :: "tenancy_env \<Rightarrow> plan_env \<Rightarrow> (string \<Rightarrow> certificate) \<Rightarrow> time \<Rightarrow> fleet \<Rightarrow> time \<Rightarrow> fleet \<Rightarrow> bool" for env penv issued t0 fl0 where
  here: "later env penv issued t0 fl0 t0 fl0"
| further: "later env penv issued t0 fl0 t fl \<Longrightarrow> t \<le> now \<Longrightarrow> fleet_step env penv issued now fl fl' \<Longrightarrow> later env penv issued t0 fl0 now fl'"

definition empty_fleet :: fleet where
  "empty_fleet =
     \<lparr>fl_db = \<lparr>db_active_enterprises = [], db_policies = [], db_revisions = [], db_rollouts = [], db_targets = [], db_servers = [],
        db_desired = [], db_policy_deployments = [], db_package_deployments = [], db_policy_servers = [], db_incidents = [], db_ids = 0\<rparr>,
      fl_enterprises = [], fl_users = [], fl_installs = [], fl_enrollments = [], fl_commands = [], fl_serials = [], fl_details = []\<rparr>"

definition fleet_reachable :: "tenancy_env \<Rightarrow> plan_env \<Rightarrow> (string \<Rightarrow> certificate) \<Rightarrow> fleet \<Rightarrow> bool" where
  "fleet_reachable env penv issued fl \<longleftrightarrow> (\<exists>t0 t. later env penv issued t0 empty_fleet t fl)"

lemma later_invariant:
  assumes "later env penv issued t0 fl0 t fl" "I fl0" "\<And>now fl fl'. t0 \<le> now \<Longrightarrow> fleet_step env penv issued now fl fl' \<Longrightarrow> I fl \<Longrightarrow> I fl'"
  shows "I fl \<and> t0 \<le> t"
  using assms(1)
proof (induction rule: later.induct)
  case (further t fl now fl')
  then show ?case using assms(3)[of now fl fl'] by auto
qed (use assms(2) in simp)

section \<open>What an operation changes\<close>

lemmas fleet_defs = on_db_def drawn_def put_enterprises_def insert_user_def insert_enterprise_def insert_install_def insert_enrollment_def
  set_serial_def set_command_def overwrite_details_def Let_def

named_theorems changes \<open>the tables an operation leaves as they are\<close>

text \<open>The operations on users touch only users, apart from the counter.\<close>

definition same_but_users :: "fleet \<Rightarrow> fleet \<Rightarrow> bool" where
  "same_but_users fl fl' \<longleftrightarrow> (\<exists>us n. fl' = fl\<lparr>fl_users := us, fl_db := (fl_db fl)\<lparr>db_ids := n + db_ids (fl_db fl)\<rparr>\<rparr>)"

lemma same_but_usersI: "same_but_users fl (fl\<lparr>fl_users := us\<rparr>)" "same_but_users fl ((drawn n fl)\<lparr>fl_users := us\<rparr>)"
  unfolding same_but_users_def by (rule exI[of _ us], rule exI[of _ 0], simp) (rule exI[of _ us], rule exI[of _ n], simp add: drawn_def)

lemma user_operations:
  "UpdateOwnPassword userID hash fl = Inr fl' \<Longrightarrow> same_but_users fl fl'"
  "ResetSystemAdminPassword username hash fl = Inr fl' \<Longrightarrow> same_but_users fl fl'"
  "CreateEnterpriseUser env eid username displayName hash role fl = Inr fl' \<Longrightarrow> same_but_users fl fl'"
  "UpdateEnterpriseUser eid userID displayName hash role active fl = Inr fl' \<Longrightarrow> same_but_users fl fl'"
  "DeleteEnterpriseUser eid userID fl = Inr fl' \<Longrightarrow> same_but_users fl fl'"
  by (auto simp: UpdateOwnPassword_def ResetSystemAdminPassword_def CreateEnterpriseUser_def UpdateEnterpriseUser_def DeleteEnterpriseUser_def
      insert_user_def Let_def same_but_usersI split: if_splits option.splits)

section \<open>The end of an enterprise is final\<close>

definition enterprises_ok :: "fleet \<Rightarrow> bool" where
  "enterprises_ok fl \<longleftrightarrow> distinct (map en_ID (fl_enterprises fl)) \<and>
     db_active_enterprises (fl_db fl) = map en_ID (filter en_Active (fl_enterprises fl))"

definition served :: "fleet \<Rightarrow> server_row \<Rightarrow> bool" where
  "served fl s \<longleftrightarrow> srv_EnterpriseID s = [] \<or> enterprise_active fl (srv_EnterpriseID s)"

definition inert :: "fleet \<Rightarrow> bool" where
  "inert fl \<longleftrightarrow> enterprises_ok fl \<and>
     (\<forall>s \<in> set (db_servers (fl_db fl)). srv_Revoked s \<or> served fl s) \<and>
     (\<forall>t \<in> set (fl_installs fl). it_Revoked t \<or> enterprise_active fl (it_EnterpriseID t)) \<and>
     (\<forall>t \<in> set (fl_enrollments fl). et_Used t \<or> enterprise_active fl (et_EnterpriseID t)) \<and>
     (\<forall>c \<in> set (fl_commands fl). unfinished c \<longrightarrow> (\<exists>s \<in> set (db_servers (fl_db fl)). srv_ID s = cm_ServerID c \<and> served fl s))"

lemma lockActive_iff: "lockActiveEnterprise db e \<longleftrightarrow> e \<in> set (db_active_enterprises db)"
  by (simp add: lockActiveEnterprise_def)

text \<open>An operation on rows of an active enterprise, or on no enterprise, keeps all this.\<close>

lemma inert_users: "same_but_users fl fl' \<Longrightarrow> inert fl \<Longrightarrow> inert fl'"
  by (auto simp: same_but_users_def inert_def enterprises_ok_def served_def lockActive_iff)

lemma inert_drawn [simp]: "inert (drawn n fl) = inert fl"
  by (simp add: drawn_def inert_def enterprises_ok_def served_def lockActive_iff)

lemma active_drawn [simp]: "enterprise_active (drawn n fl) = enterprise_active fl"
  by (rule ext) (simp add: drawn_def lockActive_iff)

lemma drawn_simps [simp]:
  "fl_enterprises (drawn n fl) = fl_enterprises fl" "fl_users (drawn n fl) = fl_users fl" "fl_installs (drawn n fl) = fl_installs fl"
  "fl_enrollments (drawn n fl) = fl_enrollments fl" "fl_commands (drawn n fl) = fl_commands fl" "fl_serials (drawn n fl) = fl_serials fl"
  "fl_details (drawn n fl) = fl_details fl" "db_servers (fl_db (drawn n fl)) = db_servers (fl_db fl)"
  "db_active_enterprises (fl_db (drawn n fl)) = db_active_enterprises (fl_db fl)" "db_ids (fl_db (drawn n fl)) = n + db_ids (fl_db fl)"
  "db_package_deployments (fl_db (drawn n fl)) = db_package_deployments (fl_db fl)"
  by (simp_all add: drawn_def)

lemma insert_enterprise_inert: "insert_enterprise i name fl = Inr fl' \<Longrightarrow> inert fl \<Longrightarrow> inert fl'"
  by (fastforce simp: insert_enterprise_def put_enterprises_def inert_def enterprises_ok_def served_def lockActive_iff list_ex_iff
      split: if_splits)

lemma insert_install_inert:
  "insert_install t fl = Inr fl' \<Longrightarrow> enterprise_active fl (it_EnterpriseID t) \<and> inert fl \<longrightarrow> inert fl'"
  by (auto simp: insert_install_def inert_def enterprises_ok_def served_def split: if_splits)

lemma insert_enrollment_inert:
  "insert_enrollment t fl = Inr fl' \<Longrightarrow> enterprise_active fl (et_EnterpriseID t) \<and> inert fl \<longrightarrow> inert fl'"
  by (auto simp: insert_enrollment_def inert_def enterprises_ok_def served_def split: if_splits)

lemma inert_tokens:
  assumes "inert fl" "\<And>t'. t' \<in> set ins \<Longrightarrow> \<exists>t \<in> set (fl_installs fl). it_EnterpriseID t' = it_EnterpriseID t \<and> (it_Revoked t \<longrightarrow> it_Revoked t')"
    "\<And>t'. t' \<in> set ens \<Longrightarrow> \<exists>t \<in> set (fl_enrollments fl). et_EnterpriseID t' = et_EnterpriseID t \<and> (et_Used t \<longrightarrow> et_Used t')"
  shows "inert (fl\<lparr>fl_installs := ins, fl_enrollments := ens\<rparr>)"
proof -
  have "\<forall>t \<in> set ins. it_Revoked t \<or> enterprise_active fl (it_EnterpriseID t)"
    using assms(1,2) unfolding inert_def by metis
  moreover have "\<forall>t \<in> set ens. et_Used t \<or> enterprise_active fl (et_EnterpriseID t)"
    using assms(1,3) unfolding inert_def by metis
  ultimately show ?thesis using assms(1) by (simp add: inert_def enterprises_ok_def served_def)
qed

lemma token_operations_inert:
  "CreateEnterpriseInstallToken env now eid name expires m fl = Inr fl' \<Longrightarrow> inert fl \<Longrightarrow> inert fl'"
  "EnsurePersistentEnterpriseInstallToken env now eid name fl = Inr fl' \<Longrightarrow> inert fl \<Longrightarrow> inert fl'"
  "ExchangeEnterpriseInstallToken env now ttl token fl = Inr (r, fl') \<Longrightarrow> inert fl \<Longrightarrow> inert fl'"
  "CreateEnrollmentToken env now ttl eid fl = Inr (r, fl') \<Longrightarrow> inert fl \<Longrightarrow> inert fl'"
  by (auto simp: CreateEnterpriseInstallToken_def EnsurePersistentEnterpriseInstallToken_def ExchangeEnterpriseInstallToken_def
      CreateEnrollmentToken_def new_enrollment_def Let_def dest!: find_Some insert_install_inert insert_enrollment_inert split: if_splits option.splits sum.splits)

lemma revoke_install_inert: "RevokeEnterpriseInstallToken i scope fl = Inr fl' \<Longrightarrow> inert fl \<Longrightarrow> inert fl'"
proof -
  assume a: "RevokeEnterpriseInstallToken i scope fl = Inr fl'" "inert fl"
  let ?P = "\<lambda>t. it_ID t = i \<and> \<not> it_Revoked t \<and> (scope = [] \<or> it_EnterpriseID t = scope)"
  have "fl' = fl\<lparr>fl_installs := update_where ?P (it_Revoked_update (\<lambda>_. True)) (fl_installs fl), fl_enrollments := fl_enrollments fl\<rparr>"
    using a(1) by (auto simp: RevokeEnterpriseInstallToken_def Let_def split: if_splits)
  also have "inert \<dots>" by (rule inert_tokens[OF a(2)]) (auto simp: update_where_def)
  finally show ?thesis .
qed

lemma allow_inert: "AllowEnrollmentPackages env now token ids fl = Inr fl' \<Longrightarrow> inert fl \<Longrightarrow> inert fl'"
proof -
  assume a: "AllowEnrollmentPackages env now token ids fl = Inr fl'" "inert fl"
  have "fl' = fl\<lparr>fl_installs := fl_installs fl, fl_enrollments := update_where (session_open env now token fl)
      (et_AllowedPackages_update (\<lambda>_. Some ids)) (fl_enrollments fl)\<rparr>"
    using a(1) by (auto simp: AllowEnrollmentPackages_def Let_def split: if_splits)
  also have "inert \<dots>" by (rule inert_tokens[OF a(2)]) (auto simp: update_where_def)
  finally show ?thesis .
qed

lemma inert_hosts:
  assumes "inert fl" and same: "fl_enterprises fl' = fl_enterprises fl" "db_active_enterprises (fl_db fl') = db_active_enterprises (fl_db fl)"
      "fl_installs fl' = fl_installs fl" "fl_enrollments fl' = fl_enrollments fl"
    and servers: "\<And>s'. s' \<in> set (db_servers (fl_db fl')) \<Longrightarrow>
      \<exists>s \<in> set (db_servers (fl_db fl)). srv_EnterpriseID s' = srv_EnterpriseID s \<and> (srv_Revoked s \<longrightarrow> srv_Revoked s')"
    and commands: "\<And>c'. c' \<in> set (fl_commands fl') \<Longrightarrow> unfinished c' \<Longrightarrow>
      (\<exists>c \<in> set (fl_commands fl). unfinished c \<and> cm_ServerID c = cm_ServerID c') \<or>
      (\<exists>s \<in> set (db_servers (fl_db fl)). srv_ID s = cm_ServerID c' \<and> \<not> srv_Revoked s)"
    and kept: "\<And>s c'. s \<in> set (db_servers (fl_db fl)) \<Longrightarrow> c' \<in> set (fl_commands fl') \<Longrightarrow> cm_ServerID c' = srv_ID s \<Longrightarrow>
      \<exists>s' \<in> set (db_servers (fl_db fl')). srv_ID s' = srv_ID s \<and> srv_EnterpriseID s' = srv_EnterpriseID s"
  shows "inert fl'"
proof -
  have act: "enterprise_active fl' = enterprise_active fl" by (rule ext) (simp add: lockActive_iff same)
  then have served: "srv_EnterpriseID s' = srv_EnterpriseID s \<Longrightarrow> served fl' s' = served fl s" for s s' by (simp add: served_def)
  have "srv_Revoked s' \<or> served fl' s'" if "s' \<in> set (db_servers (fl_db fl'))" for s'
    using servers[OF that] served assms(1) unfolding inert_def by blast
  moreover have "\<exists>s' \<in> set (db_servers (fl_db fl')). srv_ID s' = cm_ServerID c' \<and> served fl' s'"
    if "c' \<in> set (fl_commands fl')" "unfinished c'" for c'
  proof -
    from commands[OF that] have "\<exists>s \<in> set (db_servers (fl_db fl)). srv_ID s = cm_ServerID c' \<and> served fl s"
      using assms(1) unfolding inert_def by (elim disjE) (metis, blast)
    then obtain s where s: "s \<in> set (db_servers (fl_db fl))" "srv_ID s = cm_ServerID c'" "served fl s" by blast
    from kept[OF s(1) that(1) s(2)[symmetric]] s served show ?thesis by (metis (no_types, lifting))
  qed
  ultimately show ?thesis using assms(1) act unfolding inert_def enterprises_ok_def same by simp
qed

lemma server_update_kept:
  assumes "\<And>s. srv_ID (f s) = srv_ID s" "\<And>s. srv_EnterpriseID (f s) = srv_EnterpriseID s"
  shows "s \<in> set xs \<Longrightarrow> \<exists>s' \<in> set (update_where P f xs). srv_ID s' = srv_ID s \<and> srv_EnterpriseID s' = srv_EnterpriseID s"
  by (rule bexI[of _ "if P s then f s else s"]) (auto simp: update_where_def assms)

lemma inert_server_update:
  assumes "inert fl" "\<And>s. srv_ID (f s) = srv_ID s" "\<And>s. srv_EnterpriseID (f s) = srv_EnterpriseID s"
    "\<And>s. srv_Revoked s \<Longrightarrow> srv_Revoked (f s)"
  shows "inert (on_db (\<lambda>db. db\<lparr>db_servers := update_where P f (db_servers db), db_policy_servers := ms\<rparr>) fl)"
proof (rule inert_hosts[OF assms(1)])
  fix s c'
  assume "s \<in> set (db_servers (fl_db fl))"
  from server_update_kept[OF assms(2,3) this]
  show "\<exists>s' \<in> set (db_servers (fl_db (on_db (\<lambda>db. db\<lparr>db_servers := update_where P f (db_servers db), db_policy_servers := ms\<rparr>) fl))).
      srv_ID s' = srv_ID s \<and> srv_EnterpriseID s' = srv_EnterpriseID s" by (simp add: on_db_def)
qed (use assms in \<open>auto simp: on_db_def update_where_def\<close>)

lemma revoke_where_inert: "revoke_where P sid fl = Inr fl' \<Longrightarrow> inert fl \<Longrightarrow> inert fl'"
  using inert_server_update[of fl "\<lambda>s. s\<lparr>srv_Revoked := True\<rparr>", where P = P] by (auto simp: revoke_where_def on_db_def Let_def split: if_splits)

lemmas RevokeServer_inert = revoke_where_inert[of "\<lambda>s. srv_ID s = sid \<and> \<not> srv_Revoked s \<and> in_scope eid s" sid, folded RevokeServer_def] for eid sid

lemmas UnregisterAgent_inert = revoke_where_inert[of "\<lambda>s. srv_ID s = sid \<and> \<not> srv_Revoked s" sid, folded UnregisterAgent_def] for sid

lemma heartbeat_parts_inert: "inert fl \<Longrightarrow> inert (heartbeat_policy sid hb fl)" "inert fl \<Longrightarrow> inert (heartbeat_command sid hb fl)"
  by (auto simp: heartbeat_policy_def heartbeat_command_def inert_def enterprises_ok_def served_def fleet_defs update_where_def lockActive_iff
      unfinished_def split: if_splits)

lemma UpdateHeartbeat_inert: "UpdateHeartbeat now oks sid hb fl = Inr fl' \<Longrightarrow> inert fl \<Longrightarrow> inert fl'"
proof -
  assume step: "UpdateHeartbeat now oks sid hb fl = Inr fl'" and ok: "inert fl"
  let ?f = "\<lambda>s. s\<lparr>srv_Inventory := hb_Inventory hb, srv_PolicyRevision := hb_PolicyRevision hb, srv_LastHeartbeatAt := now\<rparr>"
  have "inert (on_db (\<lambda>db. db\<lparr>db_servers := update_where (\<lambda>s. srv_ID s = sid) ?f (db_servers db)\<rparr>) fl)"
    using inert_server_update[OF ok, where f = ?f and P = "\<lambda>s. srv_ID s = sid" and ms = "db_policy_servers (fl_db fl)"] by (simp add: on_db_def)
  then show ?thesis using step
    by (auto simp: UpdateHeartbeat_def Let_def heartbeat_parts_inert split: if_splits)
qed

lemma DeleteRevokedServer_inert: "DeleteRevokedServer eid sid fl = Inr fl' \<Longrightarrow> inert fl \<Longrightarrow> inert fl'"
proof -
  assume step: "DeleteRevokedServer eid sid fl = Inr fl'" and ok: "inert fl"
  show "inert fl'"
    by (rule inert_hosts[OF ok]; use step in \<open>fastforce simp: DeleteRevokedServer_def delete_server_rows_def fleet_defs update_where_def unfinished_def list_ex_iff
      split: if_splits option.splits sum.splits\<close>)
qed

lemma AuthorizeAgent_inert: "AuthorizeAgent now sid cert fl = Inr fl' \<Longrightarrow> inert fl \<Longrightarrow> inert fl'"
proof -
  assume step: "AuthorizeAgent now sid cert fl = Inr fl'" and ok: "inert fl"
  show "inert fl'"
    by (rule inert_hosts[OF ok]; use step in \<open>fastforce simp: AuthorizeAgent_def fleet_defs update_where_def unfinished_def list_ex_iff
      split: if_splits option.splits sum.splits\<close>)
qed

lemma QueueCommand_inert: "QueueCommand env eid sid command fl = Inr (i, fl') \<Longrightarrow> inert fl \<Longrightarrow> inert fl'"
proof -
  assume step: "QueueCommand env eid sid command fl = Inr (i, fl')" and ok: "inert fl"
  show "inert fl'"
    by (rule inert_hosts[OF ok]; use step in \<open>fastforce simp: QueueCommand_def fleet_defs update_where_def unfinished_def list_ex_iff
      split: if_splits option.splits sum.splits\<close>)
qed

lemma agentCommandResult_inert: "agentCommandResult sid i status fl = Inr fl' \<Longrightarrow> inert fl \<Longrightarrow> inert fl'"
proof -
  assume step: "agentCommandResult sid i status fl = Inr fl'" and ok: "inert fl"
  show "inert fl'"
    by (rule inert_hosts[OF ok]; use step in \<open>fastforce simp: agentCommandResult_def UpdateCommandResult_def fleet_defs update_where_def unfinished_def list_ex_iff
      split: if_splits option.splits sum.splits\<close>)
qed

lemma policyResult_inert: "policyResult sid rid status fl = Inr fl' \<Longrightarrow> inert fl \<Longrightarrow> inert fl'"
proof -
  assume step: "policyResult sid rid status fl = Inr fl'" and ok: "inert fl"
  show "inert fl'"
    by (rule inert_hosts[OF ok]; use step in \<open>fastforce simp: policyResult_def UpdatePolicyDeploymentResult_def fleet_defs update_where_def unfinished_def list_ex_iff
      split: if_splits option.splits sum.splits\<close>)
qed

lemma packageDeploymentResult_inert: "packageDeploymentResult penv sid i status detail fl = Inr fl' \<Longrightarrow> inert fl \<Longrightarrow> inert fl'"
proof -
  assume step: "packageDeploymentResult penv sid i status detail fl = Inr fl'" and ok: "inert fl"
  show "inert fl'"
    by (rule inert_hosts[OF ok]; use step in \<open>fastforce simp: packageDeploymentResult_def UpdatePackageDeploymentResult_def fleet_defs update_where_def unfinished_def list_ex_iff
      split: if_splits option.splits sum.splits\<close>)
qed

lemma assign_deployment_inert: "assign_deployment env sid aid mid plan desire fl = Inr (i, fl') \<Longrightarrow> inert fl \<Longrightarrow> inert fl'"
proof -
  assume step: "assign_deployment env sid aid mid plan desire fl = Inr (i, fl')" and ok: "inert fl"
  show "inert fl'"
    by (rule inert_hosts[OF ok]; use step in \<open>fastforce simp: assign_deployment_def supersede_packages_def fleet_defs update_where_def unfinished_def list_ex_iff
      split: if_splits option.splits sum.splits\<close>)
qed

lemma assign_operations_inert:
  "AssignPackagesWithControl env penv eid sid aid mid mode fl = Inr (i, fl') \<Longrightarrow> inert fl \<Longrightarrow> inert fl'"
  "AssignAgentPackage env penv eid sid aid fl = Inr (i, fl') \<Longrightarrow> inert fl \<Longrightarrow> inert fl'"
  by (auto simp: AssignPackagesWithControl_def AssignAgentPackage_def split: if_splits option.splits sum.splits intro: assign_deployment_inert)

lemma insert_user_same: "insert_user u fl = Inr fl' \<Longrightarrow> same_but_users fl fl'"
  by (auto simp: insert_user_def same_but_usersI split: if_splits)

lemma insert_user_inert: "insert_user u fl = Inr fl' \<Longrightarrow> inert fl \<Longrightarrow> inert fl'"
  by (blast intro: inert_users insert_user_same)

lemma enterprise_creation_inert:
  "CreateEnterprise env name fl = Inr fl' \<Longrightarrow> inert fl \<Longrightarrow> inert fl'"
  "CreateInitialSystemAdmin env username displayName hash fl = Inr fl' \<Longrightarrow> inert fl \<Longrightarrow> inert fl'"
  by (auto simp: CreateEnterprise_def CreateInitialSystemAdmin_def Let_def split: sum.splits if_splits
      dest!: insert_enterprise_inert insert_user_inert)

lemma insert_server_inert:
  "insert_server sid eid name serial invt packages fl = Inr fl' \<Longrightarrow> enterprise_active fl eid \<Longrightarrow> inert fl \<Longrightarrow> inert fl'"
  by (fastforce simp: insert_server_def new_server_def set_serial_def Let_def inert_def enterprises_ok_def served_def lockActive_iff split: if_splits)

lemma mark_used_inert: "inert fl \<Longrightarrow> inert (mark_used t fl)"
proof -
  assume ok: "inert fl"
  let ?ins = "if et_InstallTokenID t = [] then fl_installs fl
      else update_where (\<lambda>it. it_ID it = et_InstallTokenID t) (\<lambda>it. it\<lparr>it_EnrollmentCount := Suc (it_EnrollmentCount it)\<rparr>) (fl_installs fl)"
  let ?ens = "update_where (\<lambda>x. et_TokenHash x = et_TokenHash t) (\<lambda>x. x\<lparr>et_Used := True\<rparr>) (fl_enrollments fl)"
  have "mark_used t fl = fl\<lparr>fl_installs := ?ins, fl_enrollments := ?ens\<rparr>" by (simp add: mark_used_def)
  also have "inert \<dots>" by (rule inert_tokens[OF ok]) (auto simp: update_where_def split: if_splits)
  finally show ?thesis .
qed

lemma ConsumeEnrollment_inert: "ConsumeEnrollment env now token sid name serial invt fl = Inr fl' \<Longrightarrow> inert fl \<Longrightarrow> inert fl'"
  by (auto simp: ConsumeEnrollment_def split: option.splits if_splits sum.splits intro!: mark_used_inert intro: insert_server_inert)

lemma enroll_inert: "enroll env now token name csr serial invt fl = Some (cert, fl') \<Longrightarrow> inert fl \<Longrightarrow> inert fl'"
  by (auto simp: enroll_def Let_def split: option.splits if_splits sum.splits intro: ConsumeEnrollment_inert)

lemma put_enterprises_simps [simp]:
  "fl_enterprises (put_enterprises rows fl) = rows" "fl_users (put_enterprises rows fl) = fl_users fl"
  "fl_installs (put_enterprises rows fl) = fl_installs fl" "fl_enrollments (put_enterprises rows fl) = fl_enrollments fl"
  "fl_commands (put_enterprises rows fl) = fl_commands fl" "db_servers (fl_db (put_enterprises rows fl)) = db_servers (fl_db fl)"
  "db_active_enterprises (fl_db (put_enterprises rows fl)) = map en_ID (filter en_Active rows)"
  by (simp_all add: put_enterprises_def)

lemma no_dependencies:
  assumes "enterprise_dependencies fl e = 0"
  shows "\<And>s. s \<in> set (db_servers (fl_db fl)) \<Longrightarrow> srv_EnterpriseID s \<noteq> e" "\<And>t. t \<in> set (fl_installs fl) \<Longrightarrow> it_EnterpriseID t \<noteq> e"
    "\<And>t. t \<in> set (fl_enrollments fl) \<Longrightarrow> et_EnterpriseID t \<noteq> e" "\<And>u. u \<in> set (fl_users fl) \<Longrightarrow> au_EnterpriseID u \<noteq> e"
  using assms unfolding enterprise_dependencies_def by (auto simp: filter_empty_conv)

lemma active_iff: "enterprises_ok fl \<Longrightarrow> enterprise_active fl e \<longleftrightarrow> (\<exists>x \<in> set (fl_enterprises fl). en_ID x = e \<and> en_Active x)"
  by (auto simp: enterprises_ok_def lockActive_iff)

lemma delete_inert:
  assumes "inert fl" "enterprise_dependencies fl e = 0"
  shows "inert (put_enterprises (filter (\<lambda>x. en_ID x \<noteq> e) (fl_enterprises fl)) fl)"
proof -
  let ?fl = "put_enterprises (filter (\<lambda>x. en_ID x \<noteq> e) (fl_enterprises fl)) fl"
  have act: "enterprise_active ?fl x \<longleftrightarrow> enterprise_active fl x \<and> x \<noteq> e" for x
    using assms(1) by (auto simp: lockActive_iff inert_def enterprises_ok_def)
  then show ?thesis using assms(1) no_dependencies[OF assms(2)]
    unfolding inert_def served_def by (auto simp: enterprises_ok_def distinct_map inj_on_def)
qed

lemma terminate_servers:
  "db_servers (fl_db (terminate_fleet env e fl)) = update_where (\<lambda>s. srv_EnterpriseID s = e) (\<lambda>s. s\<lparr>srv_Revoked := True\<rparr>) (db_servers (fl_db fl))"
  by (simp add: terminate_fleet_def terminate_db_def overwrite_details_def on_db_def)

lemma terminate_tables:
  "fl_enterprises (terminate_fleet env e fl) = update_where (\<lambda>x. en_ID x = e) (\<lambda>x. x\<lparr>en_Active := False\<rparr>) (fl_enterprises fl)"
  "db_active_enterprises (fl_db (terminate_fleet env e fl)) =
    map en_ID (filter en_Active (update_where (\<lambda>x. en_ID x = e) (\<lambda>x. x\<lparr>en_Active := False\<rparr>) (fl_enterprises fl)))"
  "fl_installs (terminate_fleet env e fl) = update_where (\<lambda>t. it_EnterpriseID t = e) (\<lambda>t. t\<lparr>it_Revoked := True\<rparr>) (fl_installs fl)"
  "fl_enrollments (terminate_fleet env e fl) = update_where (\<lambda>t. et_EnterpriseID t = e) (\<lambda>t. t\<lparr>et_Used := True\<rparr>) (fl_enrollments fl)"
  "fl_users (terminate_fleet env e fl) =
    update_where (\<lambda>u. au_EnterpriseID u = e \<and> au_Role u \<noteq> RoleSystemAdmin) (\<lambda>u. u\<lparr>au_Active := False\<rparr>) (fl_users fl)"
  "fl_commands (terminate_fleet env e fl) =
    update_where (\<lambda>c. server_of e (fl_db fl) (cm_ServerID c) \<and> unfinished c) (\<lambda>c. c\<lparr>cm_Status := C_FAILED\<rparr>) (fl_commands fl)"
  "fl_serials (terminate_fleet env e fl) = fl_serials fl"
  by (simp_all add: terminate_fleet_def terminate_db_def overwrite_details_def on_db_def put_enterprises_def)

lemma terminate_inert:
  assumes "inert fl"
  shows "inert (terminate_fleet env e fl)"
proof -
  let ?fl = "terminate_fleet env e fl"
  have act: "enterprise_active ?fl x \<longleftrightarrow> enterprise_active fl x \<and> x \<noteq> e" for x
    using assms by (force simp: lockActive_iff inert_def enterprises_ok_def terminate_tables update_where_def)
  have ids: "map en_ID (fl_enterprises ?fl) = map en_ID (fl_enterprises fl)"
    by (simp add: terminate_tables update_where_def comp_def if_distrib cong: if_cong)
  have "\<exists>s \<in> set (db_servers (fl_db ?fl)). srv_ID s = cm_ServerID c \<and> served ?fl s"
    if c: "c \<in> set (fl_commands ?fl)" "unfinished c" for c
  proof -
    from c have "c \<in> set (fl_commands fl)" "\<not> server_of e (fl_db fl) (cm_ServerID c)"
      by (auto simp: terminate_tables update_where_def unfinished_def split: if_splits)
    with c(2) assms obtain s where s: "s \<in> set (db_servers (fl_db fl))" "srv_ID s = cm_ServerID c" "served fl s" "srv_EnterpriseID s \<noteq> e"
      unfolding inert_def server_of_def list_ex_iff by blast
    then show ?thesis using act
      by (intro bexI[of _ s]) (auto simp: served_def terminate_servers update_where_def image_iff)
  qed
  moreover have "enterprises_ok ?fl"
    unfolding enterprises_ok_def ids using assms by (simp add: terminate_tables inert_def enterprises_ok_def)
  moreover have "\<forall>s \<in> set (db_servers (fl_db ?fl)). srv_Revoked s \<or> served ?fl s"
    using assms by (auto simp: inert_def served_def act terminate_servers update_where_def)
  moreover have "\<forall>t \<in> set (fl_installs ?fl). it_Revoked t \<or> enterprise_active ?fl (it_EnterpriseID t)"
    using assms by (auto simp: inert_def act terminate_tables(3) update_where_def)
  moreover have "\<forall>t \<in> set (fl_enrollments ?fl). et_Used t \<or> enterprise_active ?fl (et_EnterpriseID t)"
    using assms by (auto simp: inert_def act terminate_tables(4) update_where_def)
  ultimately show ?thesis unfolding inert_def by blast
qed

lemma lifecycle_inert: "DeleteOrTerminateEnterprise env eid name groups fl = Inr (res, fl') \<Longrightarrow> inert fl \<Longrightarrow> inert fl'"
  by (auto simp: DeleteOrTerminateEnterprise_def split: option.splits if_splits intro: delete_inert terminate_inert)

lemma engine_inert: "store_transaction randomID (fl_db fl) db' \<Longrightarrow> inert fl \<Longrightarrow> inert (fl\<lparr>fl_db := db', fl_details := ds\<rparr>)"
  by (drule store_transaction_hosts) (auto simp: hosts_kept_def inert_def enterprises_ok_def served_def lockActive_iff)

lemma fleet_step_inert: "fleet_step env penv issued now fl fl' \<Longrightarrow> inert fl \<Longrightarrow> inert fl'"
  by (cases rule: fleet_step.cases) (blast intro: enterprise_creation_inert user_operations inert_users token_operations_inert revoke_install_inert
      allow_inert enroll_inert AuthorizeAgent_inert RevokeServer_inert UnregisterAgent_inert DeleteRevokedServer_inert QueueCommand_inert
      agentCommandResult_inert policyResult_inert packageDeploymentResult_inert assign_operations_inert UpdateHeartbeat_inert lifecycle_inert
      engine_inert)+

lemma empty_inert: "inert empty_fleet"
  by (simp add: inert_def enterprises_ok_def empty_fleet_def)

lemma reachable_inert: "fleet_reachable env penv issued fl \<Longrightarrow> inert fl"
  using later_invariant[where I = inert] fleet_step_inert empty_inert unfolding fleet_reachable_def by blast

text \<open>The operations on servers, commands and deployments leave the accounts as they are.\<close>

definition same_accounts :: "fleet \<Rightarrow> fleet \<Rightarrow> bool" where
  "same_accounts fl fl' \<longleftrightarrow> fl_enterprises fl' = fl_enterprises fl \<and> fl_users fl' = fl_users fl \<and> fl_installs fl' = fl_installs fl \<and>
     fl_enrollments fl' = fl_enrollments fl \<and> db_ids (fl_db fl) \<le> db_ids (fl_db fl')"

lemma host_accounts:
  "AuthorizeAgent now sid cert fl = Inr fl' \<Longrightarrow> same_accounts fl fl'"
  "RevokeServer eid sid fl = Inr fl' \<Longrightarrow> same_accounts fl fl'"
  "UnregisterAgent sid fl = Inr fl' \<Longrightarrow> same_accounts fl fl'"
  "DeleteRevokedServer eid sid fl = Inr fl' \<Longrightarrow> same_accounts fl fl'"
  "UpdateHeartbeat now oks sid hb fl = Inr fl' \<Longrightarrow> same_accounts fl fl'"
  by (auto simp: AuthorizeAgent_def RevokeServer_def UnregisterAgent_def revoke_where_def DeleteRevokedServer_def delete_server_rows_def UpdateHeartbeat_def
      heartbeat_policy_def heartbeat_command_def fleet_defs same_accounts_def split: if_splits option.splits)

lemma work_accounts:
  "QueueCommand env eid sid command fl = Inr (i, fl') \<Longrightarrow> same_accounts fl fl'"
  "agentCommandResult sid i status fl = Inr fl' \<Longrightarrow> same_accounts fl fl'"
  "policyResult sid rid status fl = Inr fl' \<Longrightarrow> same_accounts fl fl'"
  "packageDeploymentResult penv sid i status detail fl = Inr fl' \<Longrightarrow> same_accounts fl fl'"
  "AssignPackagesWithControl env penv eid sid aid mid mode fl = Inr (i, fl') \<Longrightarrow> same_accounts fl fl'"
  "AssignAgentPackage env penv eid sid aid fl = Inr (i, fl') \<Longrightarrow> same_accounts fl fl'"
  by (auto simp: QueueCommand_def agentCommandResult_def UpdateCommandResult_def policyResult_def UpdatePolicyDeploymentResult_def
      packageDeploymentResult_def UpdatePackageDeploymentResult_def AssignPackagesWithControl_def AssignAgentPackage_def
      assign_deployment_def supersede_packages_def fleet_defs same_accounts_def split: if_splits option.splits sum.splits)

lemma engine_accounts: "store_transaction randomID (fl_db fl) db' \<Longrightarrow> same_accounts fl (fl\<lparr>fl_db := db', fl_details := ds\<rparr>)"
  by (drule store_transaction_hosts) (simp add: hosts_kept_def same_accounts_def)

definition token_change :: "fleet \<Rightarrow> fleet \<Rightarrow> bool" where
  "token_change fl fl' \<longleftrightarrow> fl_enterprises fl' = fl_enterprises fl \<and> fl_users fl' = fl_users fl \<and> db_ids (fl_db fl) \<le> db_ids (fl_db fl')"

lemma token_operations_change:
  "CreateEnterpriseInstallToken env now eid name expires m fl = Inr fl' \<Longrightarrow> token_change fl fl'"
  "EnsurePersistentEnterpriseInstallToken env now eid name fl = Inr fl' \<Longrightarrow> token_change fl fl'"
  "RevokeEnterpriseInstallToken i scope fl = Inr fl' \<Longrightarrow> token_change fl fl'"
  "ExchangeEnterpriseInstallToken env now ttl token fl = Inr (r, fl') \<Longrightarrow> token_change fl fl'"
  "CreateEnrollmentToken env now ttl eid fl = Inr (r, fl') \<Longrightarrow> token_change fl fl'"
  "AllowEnrollmentPackages env now token ids fl = Inr fl' \<Longrightarrow> token_change fl fl'"
  "enroll env now token name csr serial invt fl = Some (cert, fl') \<Longrightarrow> token_change fl fl'"
  by (auto simp: CreateEnterpriseInstallToken_def EnsurePersistentEnterpriseInstallToken_def RevokeEnterpriseInstallToken_def
      ExchangeEnterpriseInstallToken_def CreateEnrollmentToken_def AllowEnrollmentPackages_def enroll_def ConsumeEnrollment_def
      insert_install_def insert_enrollment_def insert_server_def set_serial_def mark_used_def Let_def token_change_def
      split: if_splits option.splits sum.splits)

lemma same_accounts_change: "same_accounts fl fl' \<Longrightarrow> token_change fl fl'"
  by (simp add: same_accounts_def token_change_def)

lemma insert_enterprise_result:
  "insert_enterprise i name fl = Inr fl' \<Longrightarrow>
    i \<notin> en_ID ` set (fl_enterprises fl) \<and> fl' = put_enterprises (fl_enterprises fl @ [\<lparr>en_ID = i, en_Name = name, en_Active = True\<rparr>]) fl"
  by (auto simp: insert_enterprise_def list_ex_iff split: if_splits)

text \<open>Where users or enterprises change.\<close>

lemma fleet_step_split:
  assumes "fleet_step env penv issued now fl fl'"
  obtains (accounts) "token_change fl fl'"
    | (users) "same_but_users fl fl'"
    | (initial) username displayName hash where "CreateInitialSystemAdmin env username displayName hash fl = Inr fl'"
    | (creation) name where "CreateEnterprise env name fl = Inr fl'"
    | (lifecycle) eid name groups res where "DeleteOrTerminateEnterprise env eid name groups fl = Inr (res, fl')"
  using assms
  by (cases rule: fleet_step.cases) (blast intro: user_operations token_operations_change same_accounts_change host_accounts work_accounts
      engine_accounts)+

end
