(* ===== verification/Fleet_Safety.thy ===== *)
theory Fleet_Safety
  imports Fleet_Steps
begin

text \<open>
  What holds of the fleet in every reachable state (\<open>Fleet_Steps\<close>): the end of an enterprise is final, tokens enroll no
  more servers than they may, a server has one open command, an enterprise keeps an administrator; and two cases in which
  the Manager refuses what it should accept. Each operation keeps each invariant by a lemma of its own; the reachable states
  follow by rule induction. The examples are states of a small fleet.
\<close>

section \<open>A terminated enterprise\<close>

definition ended :: "string \<Rightarrow> fleet \<Rightarrow> bool" where
  "ended e fl \<longleftrightarrow> (\<exists>x \<in> set (fl_enterprises fl). en_ID x = e \<and> \<not> en_Active x)"

lemma ended_not_active: "inert fl \<Longrightarrow> ended e fl \<Longrightarrow> \<not> enterprise_active fl e"
  unfolding inert_def ended_def by (metis active_iff enterprises_ok_def distinct_map inj_onD)

lemma fleet_step_ended:
  assumes "fleet_step env penv issued now fl fl'" "inert fl" "ended e fl"
  shows "ended e fl'"
  using assms(1)
proof (cases rule: fleet_step_split)
  case (initial username displayName hash)
  with assms(3) show ?thesis
    by (auto simp: CreateInitialSystemAdmin_def Let_def ended_def insert_user_def split: sum.splits if_splits dest!: insert_enterprise_result)
next
  case (creation name)
  with assms(3) show ?thesis by (auto simp: CreateEnterprise_def ended_def dest!: insert_enterprise_result)
next
  case (lifecycle eid name groups res)
  then obtain x where x: "x \<in> set (fl_enterprises fl)" "en_ID x = eid" "en_Active x"
    by (auto simp: DeleteOrTerminateEnterprise_def split: option.splits if_splits dest: find_Some)
  then have "eid \<noteq> e" using ended_not_active[OF assms(2,3)] assms(2) active_iff unfolding inert_def by blast
  with lifecycle assms(3) show ?thesis
    by (fastforce simp: DeleteOrTerminateEnterprise_def ended_def terminate_tables update_where_def split: option.splits if_splits)
qed (use assms(3) in \<open>auto simp: token_change_def same_but_users_def ended_def\<close>)

lemma later_ended:
  assumes "later env penv issued t0 fl t fl'" "inert fl" "ended e fl"
  shows "inert fl'" "ended e fl'"
  using later_invariant[where I = "\<lambda>fl. inert fl \<and> ended e fl"] assms fleet_step_inert fleet_step_ended by blast+

lemma terminate_ends:
  assumes "DeleteOrTerminateEnterprise env e name groups fl = Inr (EnterpriseTerminated, fl')"
  shows "ended e fl'"
proof -
  from assms obtain x where "x \<in> set (fl_enterprises fl)" "en_ID x = e" "fl' = terminate_fleet env e fl"
    by (auto simp: DeleteOrTerminateEnterprise_def split: option.splits if_splits dest: find_Some)
  then show ?thesis by (auto simp: ended_def terminate_tables update_where_def intro!: bexI[of _ "x\<lparr>en_Active := False\<rparr>"])
qed

lemma user_found:
  "UserByUsername fl username = Some u \<Longrightarrow> enterprise_active fl (ur_EnterpriseID u)"
  "UserByID fl i = Some u \<Longrightarrow> enterprise_active fl (ur_EnterpriseID u)"
  by (auto simp: UserByUsername_def UserByID_def user_record_def dest!: find_Some)

lemma authorized_server:
  "AuthorizeAgent now sid cert fl = Inr fl' \<Longrightarrow> \<exists>s \<in> set (db_servers (fl_db fl)). srv_ID s = sid \<and> \<not> srv_Revoked s \<and> served fl s"
  by (auto simp: AuthorizeAgent_def served_def split: if_splits option.splits dest!: find_Some)

lemma ended_inert:
  assumes ok: "inert fl" and ended: "ended e fl" and named: "e \<noteq> []"
  shows "UserByUsername fl username = Some u \<Longrightarrow> ur_EnterpriseID u \<noteq> e" "UserByID fl i = Some u \<Longrightarrow> ur_EnterpriseID u \<noteq> e"
    "AuthorizeAgent now sid cert fl = Inr fl' \<Longrightarrow> \<exists>s \<in> set (db_servers (fl_db fl)). srv_ID s = sid \<and> \<not> srv_Revoked s \<and> srv_EnterpriseID s \<noteq> e"
    "s \<in> set (db_servers (fl_db fl)) \<Longrightarrow> srv_EnterpriseID s = e \<Longrightarrow> srv_Revoked s"
    "it \<in> set (fl_installs fl) \<Longrightarrow> it_EnterpriseID it = e \<Longrightarrow> it_Revoked it"
    "et \<in> set (fl_enrollments fl) \<Longrightarrow> et_EnterpriseID et = e \<Longrightarrow> et_Used et"
    "c \<in> set (fl_commands fl) \<Longrightarrow> unfinished c \<Longrightarrow> \<exists>s \<in> set (db_servers (fl_db fl)). srv_ID s = cm_ServerID c \<and> srv_EnterpriseID s \<noteq> e"
proof -
  have no: "\<not> enterprise_active fl e" by (rule ended_not_active[OF ok ended])
  then have other: "served fl s \<Longrightarrow> srv_EnterpriseID s \<noteq> e" for s using named by (auto simp: served_def)
  show "UserByUsername fl username = Some u \<Longrightarrow> ur_EnterpriseID u \<noteq> e" "UserByID fl i = Some u \<Longrightarrow> ur_EnterpriseID u \<noteq> e"
    using user_found no by blast+
  show "AuthorizeAgent now sid cert fl = Inr fl' \<Longrightarrow> \<exists>s \<in> set (db_servers (fl_db fl)). srv_ID s = sid \<and> \<not> srv_Revoked s \<and> srv_EnterpriseID s \<noteq> e"
    using authorized_server other by blast
  show "s \<in> set (db_servers (fl_db fl)) \<Longrightarrow> srv_EnterpriseID s = e \<Longrightarrow> srv_Revoked s"
    "it \<in> set (fl_installs fl) \<Longrightarrow> it_EnterpriseID it = e \<Longrightarrow> it_Revoked it"
    "et \<in> set (fl_enrollments fl) \<Longrightarrow> et_EnterpriseID et = e \<Longrightarrow> et_Used et"
    "c \<in> set (fl_commands fl) \<Longrightarrow> unfinished c \<Longrightarrow> \<exists>s \<in> set (db_servers (fl_db fl)). srv_ID s = cm_ServerID c \<and> srv_EnterpriseID s \<noteq> e"
    using ok no other unfolding inert_def by blast+
qed

text \<open>C16:
  once an enterprise is terminated, in every later state none of its users is found for a login or a session, no certificate
  admits one of its servers, all its servers are revoked, its install tokens revoked and its sessions used, and no command
  waits for a server that is only its own.\<close>

theorem terminated_enterprise_inert:
  assumes "fleet_reachable env penv issued fl"
    and "DeleteOrTerminateEnterprise env e name groups fl = Inr (EnterpriseTerminated, fl')" "e \<noteq> []"
    and "later env penv issued t0 fl' t fl''"
  shows "(\<forall>username u. UserByUsername fl'' username = Some u \<longrightarrow> ur_EnterpriseID u \<noteq> e) \<and>
    (\<forall>i u. UserByID fl'' i = Some u \<longrightarrow> ur_EnterpriseID u \<noteq> e) \<and>
    (\<forall>now sid cert after. AuthorizeAgent now sid cert fl'' = Inr after \<longrightarrow>
      (\<exists>s \<in> set (db_servers (fl_db fl'')). srv_ID s = sid \<and> \<not> srv_Revoked s \<and> srv_EnterpriseID s \<noteq> e)) \<and>
    (\<forall>s \<in> set (db_servers (fl_db fl'')). srv_EnterpriseID s = e \<longrightarrow> srv_Revoked s) \<and>
    (\<forall>it \<in> set (fl_installs fl''). it_EnterpriseID it = e \<longrightarrow> it_Revoked it) \<and>
    (\<forall>et \<in> set (fl_enrollments fl''). et_EnterpriseID et = e \<longrightarrow> et_Used et) \<and>
    (\<forall>c \<in> set (fl_commands fl''). unfinished c \<longrightarrow> (\<exists>s \<in> set (db_servers (fl_db fl'')). srv_ID s = cm_ServerID c \<and> srv_EnterpriseID s \<noteq> e))"
proof -
  have "inert fl'" using assms(2) reachable_inert[OF assms(1)] by (rule lifecycle_inert)
  note now = later_ended[OF assms(4) this terminate_ends[OF assms(2)]]
  show ?thesis using ended_inert[OF now assms(3)] by (intro conjI allI ballI impI)
qed

text \<open>A small fleet for the examples: random values are numbered by their length, and a token is its own hash.\<close>

definition example_env :: tenancy_env where
  "example_env = \<lparr>te_randomID = (\<lambda>n. replicate (Suc n) CHR ''i''), te_randomToken = (\<lambda>n. replicate (Suc n) CHR ''t''),
     te_tokenHash = (\<lambda>t. t), te_systemEnterprise = ''system'', te_cancelled = ''cancelled'', te_superseded = ''superseded''\<rparr>"

definition result_or :: "fleet \<Rightarrow> tenancy_error + fleet \<Rightarrow> fleet" where
  "result_or d r = (case r of Inl _ \<Rightarrow> d | Inr fl \<Rightarrow> fl)"

definition example_founded :: fleet where
  "example_founded = result_or empty_fleet (CreateEnterprise example_env ''acme'' empty_fleet)"

definition example_staffed :: fleet where
  "example_staffed = result_or empty_fleet (CreateEnterpriseUser example_env ''i'' ''ann'' ''Ann'' ''h'' RoleEnterpriseAdmin example_founded)"

definition example_opened :: fleet where
  "example_opened = result_or empty_fleet (CreateEnterpriseInstallToken example_env 0 ''i'' ''installer'' 100 1 example_staffed)"

lemmas example_defs = example_opened_def example_staffed_def example_founded_def example_env_def result_or_def empty_fleet_def
  CreateEnterprise_def CreateEnterpriseUser_def CreateEnterpriseInstallToken_def insert_enterprise_def insert_user_def insert_install_def
  next_id_def next_token_def drawn_def validEnterpriseRole_def put_enterprises_def lockActiveEnterprise_def Let_def

lemma example_steps:
  "CreateEnterprise example_env ''acme'' empty_fleet = Inr example_founded"
  "CreateEnterpriseUser example_env ''i'' ''ann'' ''Ann'' ''h'' RoleEnterpriseAdmin example_founded = Inr example_staffed"
  "CreateEnterpriseInstallToken example_env 0 ''i'' ''installer'' 100 1 example_staffed = Inr example_opened"
  by (simp_all add: example_defs)

lemma example_reachable: "later example_env penv issued 0 empty_fleet 0 example_opened"
  by (rule later.further[where t = 0], rule later.further[where t = 0], rule later.further[where t = 0], rule later.here)
    (auto intro: fleet_step.intros example_steps)

lemma example_terminated:
  "DeleteOrTerminateEnterprise example_env ''i'' ''acme'' 0 example_opened =
    Inr (EnterpriseTerminated, terminate_fleet example_env ''i'' example_opened)"
  by (simp add: DeleteOrTerminateEnterprise_def enterprise_dependencies_def RoleEnterpriseAdmin_def RoleSystemAdmin_def example_defs)

theorem terminated_enterprise_inert_witness:
  "\<exists>fl'. DeleteOrTerminateEnterprise example_env ''i'' ''acme'' 0 example_opened = Inr (EnterpriseTerminated, fl') \<and>
     \<not> (\<exists>u. UserByUsername fl' ''ann'' = Some u \<and> ur_EnterpriseID u = ''i'') \<and>
     (\<exists>it. it \<in> set (fl_installs fl') \<and> it_EnterpriseID it = ''i'' \<and> it_Revoked it)"
proof -
  let ?fl' = "terminate_fleet example_env ''i'' example_opened"
  have reach: "fleet_reachable example_env undefined undefined example_opened"
    using example_reachable unfolding fleet_reachable_def by blast
  have "''i'' \<noteq> []" by simp
  note now = terminated_enterprise_inert[OF reach example_terminated this later.here]
  have "\<not> (\<exists>u. UserByUsername ?fl' ''ann'' = Some u \<and> ur_EnterpriseID u = ''i'')" using now by metis
  moreover have "\<exists>it. it \<in> set (fl_installs ?fl') \<and> it_EnterpriseID it = ''i''"
    by (simp add: terminate_tables update_where_def example_defs)
  then have "\<exists>it. it \<in> set (fl_installs ?fl') \<and> it_EnterpriseID it = ''i'' \<and> it_Revoked it" using now by metis
  ultimately show ?thesis using example_terminated by (intro exI[of _ ?fl'] conjI)
qed

section \<open>Tokens\<close>

definition within_limit :: "install_token \<Rightarrow> bool" where
  "within_limit it \<longleftrightarrow> (case it_MaxEnrollments it of None \<Rightarrow> True | Some m \<Rightarrow> it_EnrollmentCount it \<le> m)"

definition used_sessions :: "string \<Rightarrow> enrollment_token list \<Rightarrow> nat" where
  "used_sessions i ens = length (filter (\<lambda>t. et_InstallTokenID t = i \<and> et_Used t) ens)"

text \<open>The count of an install token that is not revoked is the number of its used sessions, and within its limit.\<close>

definition tokens_ok :: "install_token list \<Rightarrow> enrollment_token list \<Rightarrow> bool" where
  "tokens_ok ins ens \<longleftrightarrow> distinct (map et_TokenHash ens) \<and> distinct (map it_ID ins) \<and>
     (\<forall>t \<in> set ens. et_InstallTokenID t = [] \<or> (\<exists>it \<in> set ins. it_ID it = et_InstallTokenID t \<and> it_EnterpriseID it = et_EnterpriseID t)) \<and>
     (\<forall>it \<in> set ins. it_ID it \<noteq> [] \<and> within_limit it \<and> (\<not> it_Revoked it \<longrightarrow> it_EnrollmentCount it = used_sessions (it_ID it) ens))"

lemma used_sessions_snoc: "used_sessions i (ens @ [t]) = used_sessions i ens + (if et_InstallTokenID t = i \<and> et_Used t then 1 else 0)"
  by (simp add: used_sessions_def)

lemma used_sessions_map:
  "(\<And>t. t \<in> set ens \<Longrightarrow> et_InstallTokenID (f t) = i \<and> et_Used (f t) \<longleftrightarrow> et_InstallTokenID t = i \<and> et_Used t) \<Longrightarrow>
    used_sessions i (map f ens) = used_sessions i ens"
  by (induction ens) (auto simp: used_sessions_def)

lemma used_sessions_use:
  "distinct (map et_TokenHash ens) \<Longrightarrow> t \<in> set ens \<Longrightarrow> \<not> et_Used t \<Longrightarrow>
    used_sessions i (update_where (\<lambda>x. et_TokenHash x = et_TokenHash t) (\<lambda>x. x\<lparr>et_Used := True\<rparr>) ens) =
    used_sessions i ens + (if et_InstallTokenID t = i then 1 else 0)"
proof (induction ens)
  case (Cons x ens)
  show ?case
  proof (cases "x = t")
    case True
    then have "update_where (\<lambda>x. et_TokenHash x = et_TokenHash t) (\<lambda>x. x\<lparr>et_Used := True\<rparr>) ens = ens"
      using Cons.prems(1) by (auto simp: update_where_def rev_image_eqI intro!: map_idI)
    then show ?thesis using True Cons.prems(3) by (simp add: used_sessions_def update_where_def)
  next
    case False
    then have "t \<in> set ens" "et_TokenHash x \<noteq> et_TokenHash t" using Cons.prems by auto
    then show ?thesis using Cons by (auto simp: used_sessions_def update_where_def)
  qed
qed simp

lemma tokens_insert_install:
  assumes "tokens_ok ins ens" "it_ID it \<notin> it_ID ` set ins" "it_ID it \<noteq> []" "it_EnrollmentCount it = 0"
  shows "tokens_ok (ins @ [it]) ens"
proof -
  have "used_sessions (it_ID it) ens = 0"
    using assms(1-3) unfolding tokens_ok_def used_sessions_def by (simp add: filter_empty_conv) (metis imageI)
  then show ?thesis using assms unfolding tokens_ok_def within_limit_def by (auto split: option.splits)
qed

lemma tokens_insert_enrollment:
  assumes "tokens_ok ins ens" "et_TokenHash t \<notin> et_TokenHash ` set ens" "\<not> et_Used t"
    "et_InstallTokenID t = [] \<or> (\<exists>it \<in> set ins. it_ID it = et_InstallTokenID t \<and> it_EnterpriseID it = et_EnterpriseID t)"
  shows "tokens_ok ins (ens @ [t])"
  using assms unfolding tokens_ok_def by (auto simp: used_sessions_snoc)

text \<open>Changes of rows that revoke tokens, and use up only sessions of revoked tokens.\<close>

lemma tokens_map:
  assumes ok: "tokens_ok ins ens"
    and g: "\<And>it. it_ID (g it) = it_ID it" "\<And>it. it_EnterpriseID (g it) = it_EnterpriseID it" "\<And>it. it_MaxEnrollments (g it) = it_MaxEnrollments it"
      "\<And>it. it_EnrollmentCount (g it) = it_EnrollmentCount it" "\<And>it. it_Revoked it \<Longrightarrow> it_Revoked (g it)"
    and h: "\<And>t. et_TokenHash (h t) = et_TokenHash t" "\<And>t. et_InstallTokenID (h t) = et_InstallTokenID t" "\<And>t. et_EnterpriseID (h t) = et_EnterpriseID t"
    and used: "\<And>it t. it \<in> set ins \<Longrightarrow> \<not> it_Revoked (g it) \<Longrightarrow> t \<in> set ens \<Longrightarrow> et_InstallTokenID t = it_ID it \<Longrightarrow> et_EnterpriseID t = it_EnterpriseID it \<Longrightarrow>
      et_Used (h t) = et_Used t"
  shows "tokens_ok (map g ins) (map h ens)"
proof -
  have parent: "et_EnterpriseID t = it_EnterpriseID it"
    if p: "it \<in> set ins" "t \<in> set ens" "et_InstallTokenID t = it_ID it" for it t
  proof -
    have "et_InstallTokenID t \<noteq> []" using ok p(1,3) by (auto simp: tokens_ok_def)
    then obtain it' where "it' \<in> set ins" "it_ID it' = it_ID it" "it_EnterpriseID it' = et_EnterpriseID t"
      using ok p(2,3) unfolding tokens_ok_def by metis
    moreover have "inj_on it_ID (set ins)" using ok by (simp add: tokens_ok_def distinct_map)
    ultimately show ?thesis using p(1) by (metis inj_onD)
  qed
  have counts: "it_EnrollmentCount (g it) = used_sessions (it_ID it) (map h ens)" if it: "it \<in> set ins" "\<not> it_Revoked (g it)" for it
  proof -
    have "used_sessions (it_ID it) (map h ens) = used_sessions (it_ID it) ens"
      by (rule used_sessions_map) (use used[OF it] parent[OF it(1)] h in auto)
    then show ?thesis using ok it g(4,5) unfolding tokens_ok_def by auto
  qed
  have limits: "within_limit (g it) = within_limit it" for it
    by (simp add: within_limit_def g split: option.splits)
  have "distinct (map et_TokenHash (map h ens))" "distinct (map it_ID (map g ins))"
    using ok by (simp_all add: tokens_ok_def comp_def g h)
  with ok counts limits show ?thesis unfolding tokens_ok_def by (auto simp: g h)
qed

lemma tokens_revoke: "tokens_ok ins ens \<Longrightarrow> tokens_ok (update_where P (\<lambda>t. t\<lparr>it_Revoked := True\<rparr>) ins) ens"
  using tokens_map[of ins ens "\<lambda>t. if P t then t\<lparr>it_Revoked := True\<rparr> else t" "\<lambda>t. t"] by (simp add: update_where_def)

lemma tokens_terminate:
  "tokens_ok ins ens \<Longrightarrow> tokens_ok (update_where (\<lambda>t. it_EnterpriseID t = e) (\<lambda>t. t\<lparr>it_Revoked := True\<rparr>) ins)
     (update_where (\<lambda>t. et_EnterpriseID t = e) (\<lambda>t. t\<lparr>et_Used := True\<rparr>) ens)"
  unfolding update_where_def by (rule tokens_map) (auto split: if_splits)

lemma tokens_allow: "tokens_ok ins ens \<Longrightarrow> tokens_ok ins (update_where P (\<lambda>t. t\<lparr>et_AllowedPackages := a\<rparr>) ens)"
  using tokens_map[of ins ens "\<lambda>t. t" "\<lambda>t. if P t then t\<lparr>et_AllowedPackages := a\<rparr> else t"] by (simp add: update_where_def)

text \<open>Using a session whose parent, if any, is usable.\<close>

lemma tokens_use:
  assumes ok: "tokens_ok (fl_installs fl) (fl_enrollments fl)"
    and t: "t \<in> set (fl_enrollments fl)" "\<not> et_Used t" "parent_usable now fl t"
  shows "tokens_ok (fl_installs (mark_used t fl)) (fl_enrollments (mark_used t fl))"
proof -
  let ?ins = "fl_installs fl" and ?ens = "fl_enrollments fl" and ?ens' = "fl_enrollments (mark_used t fl)"
  let ?g = "\<lambda>it. if et_InstallTokenID t \<noteq> [] \<and> it_ID it = et_InstallTokenID t then it\<lparr>it_EnrollmentCount := Suc (it_EnrollmentCount it)\<rparr> else it"
  have ins: "fl_installs (mark_used t fl) = map ?g ?ins"
    by (auto simp: mark_used_def update_where_def intro!: map_idI[symmetric])
  have used: "used_sessions i ?ens' = used_sessions i ?ens + (if et_InstallTokenID t = i then 1 else 0)" for i
    using used_sessions_use[of ?ens t i] ok t by (simp add: mark_used_def tokens_ok_def)
  have rows: "\<exists>x \<in> set ?ens. et_InstallTokenID y = et_InstallTokenID x \<and> et_EnterpriseID y = et_EnterpriseID x" if "y \<in> set ?ens'" for y
    using that by (auto simp: mark_used_def update_where_def)
  have usable: "installTokenUsable now it" if it: "it \<in> set ?ins" "it_ID it = et_InstallTokenID t" for it
  proof -
    have "et_InstallTokenID t \<noteq> []" using ok it by (auto simp: tokens_ok_def)
    then obtain it' where "find (\<lambda>it. it_ID it = et_InstallTokenID t) ?ins = Some it'" "installTokenUsable now it'"
      using t(3) by (auto simp: parent_usable_def split: option.splits)
    moreover from this(1) have "it' \<in> set ?ins" "it_ID it' = it_ID it" using it(2) by (auto dest: find_Some)
    moreover have "inj_on it_ID (set ?ins)" using ok by (simp add: tokens_ok_def distinct_map)
    ultimately show ?thesis using it(1) by (metis inj_onD)
  qed
  have room: "\<not> it_Revoked it \<and> within_limit (it\<lparr>it_EnrollmentCount := Suc (it_EnrollmentCount it)\<rparr>)"
    if it: "it \<in> set ?ins" "it_ID it = et_InstallTokenID t" for it
    using usable[OF it] by (auto simp: installTokenUsable_def within_limit_def split: option.splits)
  have room_counted: "within_limit (it\<lparr>it_EnrollmentCount := Suc (used_sessions (et_InstallTokenID t) ?ens)\<rparr>)"
    if it: "it \<in> set ?ins" "it_ID it = et_InstallTokenID t" for it
    using room[OF it] ok it unfolding tokens_ok_def by metis
  have "map et_TokenHash ?ens' = map et_TokenHash ?ens" "map it_ID (map ?g ?ins) = map it_ID ?ins"
    by (auto simp: mark_used_def update_where_def)
  then have "distinct (map et_TokenHash ?ens')" "distinct (map it_ID (map ?g ?ins))"
    using ok unfolding tokens_ok_def by metis+
  moreover have "\<forall>y \<in> set ?ens'. et_InstallTokenID y = [] \<or>
      (\<exists>it \<in> set (map ?g ?ins). it_ID it = et_InstallTokenID y \<and> it_EnterpriseID it = et_EnterpriseID y)"
  proof
    fix y assume "y \<in> set ?ens'"
    with rows obtain x where x: "x \<in> set ?ens" "et_InstallTokenID y = et_InstallTokenID x" "et_EnterpriseID y = et_EnterpriseID x" by blast
    with ok have "et_InstallTokenID y = [] \<or> (\<exists>it \<in> set ?ins. it_ID it = et_InstallTokenID y \<and> it_EnterpriseID it = et_EnterpriseID y)"
      by (auto simp: tokens_ok_def)
    then show "et_InstallTokenID y = [] \<or>
      (\<exists>it \<in> set (map ?g ?ins). it_ID it = et_InstallTokenID y \<and> it_EnterpriseID it = et_EnterpriseID y)"
      by (elim disjE bexE) (simp, rule disjI2, rule_tac x = "?g it" in bexI, auto)
  qed
  moreover have "\<forall>it \<in> set (map ?g ?ins). it_ID it \<noteq> [] \<and> within_limit it \<and>
      (\<not> it_Revoked it \<longrightarrow> it_EnrollmentCount it = used_sessions (it_ID it) ?ens')"
    using ok room room_counted by (auto simp: tokens_ok_def used)
  ultimately show ?thesis unfolding tokens_ok_def ins by blast
qed


abbreviation fleet_tokens :: "fleet \<Rightarrow> bool" where
  "fleet_tokens fl \<equiv> tokens_ok (fl_installs fl) (fl_enrollments fl)"

lemma insert_install_tokens:
  "insert_install it fl = Inr fl' \<Longrightarrow> it_ID it \<noteq> [] \<and> it_EnrollmentCount it = 0 \<and> fleet_tokens fl \<longrightarrow> fleet_tokens fl'"
  by (fastforce simp: insert_install_def list_ex_iff split: if_splits intro!: tokens_insert_install)

lemma insert_enrollment_tokens:
  "insert_enrollment t fl = Inr fl' \<Longrightarrow> \<not> et_Used t \<and> fleet_tokens fl \<and>
    (et_InstallTokenID t = [] \<or> (\<exists>it \<in> set (fl_installs fl). it_ID it = et_InstallTokenID t \<and> it_EnterpriseID it = et_EnterpriseID t)) \<longrightarrow>
    fleet_tokens fl'"
  by (fastforce simp: insert_enrollment_def list_ex_iff split: if_splits intro!: tokens_insert_enrollment)

lemma install_operations_tokens:
  assumes "\<forall>n. te_randomID env n \<noteq> []" "fleet_tokens fl"
  shows "CreateEnterpriseInstallToken env now eid name expires m fl = Inr fl' \<Longrightarrow> fleet_tokens fl'"
    "EnsurePersistentEnterpriseInstallToken env now eid name fl = Inr fl' \<Longrightarrow> fleet_tokens fl'"
  using assms by (auto simp: CreateEnterpriseInstallToken_def EnsurePersistentEnterpriseInstallToken_def next_id_def
      dest!: insert_install_tokens split: if_splits)

lemma session_operations_tokens:
  assumes "fleet_tokens fl"
  shows "ExchangeEnterpriseInstallToken env now ttl token fl = Inr (r, fl') \<Longrightarrow> fleet_tokens fl'"
    "CreateEnrollmentToken env now ttl eid fl = Inr (r, fl') \<Longrightarrow> fleet_tokens fl'"
    "AllowEnrollmentPackages env now token ids fl = Inr fl' \<Longrightarrow> fleet_tokens fl'"
    "RevokeEnterpriseInstallToken i scope fl = Inr fl' \<Longrightarrow> fleet_tokens fl'"
  using assms by (auto simp: ExchangeEnterpriseInstallToken_def CreateEnrollmentToken_def AllowEnrollmentPackages_def
      RevokeEnterpriseInstallToken_def new_enrollment_def Let_def tokens_allow tokens_revoke
      dest!: insert_enrollment_tokens find_Some split: if_splits option.splits sum.splits)

lemma insert_server_tables:
  "insert_server sid eid name serial invt packages fl = Inr fl' \<Longrightarrow> fl_installs fl' = fl_installs fl \<and> fl_enrollments fl' = fl_enrollments fl \<and>
    fl_enterprises fl' = fl_enterprises fl \<and> fl_users fl' = fl_users fl \<and> fl_commands fl' = fl_commands fl"
  by (auto simp: insert_server_def set_serial_def Let_def split: if_splits)

lemma ConsumeEnrollment_tokens:
  assumes "ConsumeEnrollment env now token sid name serial invt fl = Inr fl'" "fleet_tokens fl"
  shows "fleet_tokens fl'"
proof -
  from assms(1) obtain t fl1 where t: "t \<in> set (fl_enrollments fl)" "\<not> et_Used t" "parent_usable now fl t"
      "insert_server sid (et_EnterpriseID t) name serial invt (desired_packages (et_AllowedPackages t)) fl = Inr fl1" "fl' = mark_used t fl1"
    by (auto simp: ConsumeEnrollment_def split: option.splits if_splits sum.splits dest!: find_Some)
  with tokens_use[of fl1 t now] assms(2) insert_server_tables[OF t(4)] show ?thesis by (simp add: parent_usable_def)
qed

lemma enroll_tokens: "enroll env now token name csr serial invt fl = Some (cert, fl') \<Longrightarrow> fleet_tokens fl \<Longrightarrow> fleet_tokens fl'"
  by (auto simp: enroll_def Let_def split: option.splits if_splits sum.splits dest!: ConsumeEnrollment_tokens)

lemma founding_tables:
  "CreateEnterprise env name fl = Inr fl' \<Longrightarrow> fl_installs fl' = fl_installs fl \<and> fl_enrollments fl' = fl_enrollments fl"
  "CreateInitialSystemAdmin env username displayName hash fl = Inr fl' \<Longrightarrow> fl_installs fl' = fl_installs fl \<and> fl_enrollments fl' = fl_enrollments fl"
  by (auto simp: CreateEnterprise_def CreateInitialSystemAdmin_def insert_user_def Let_def dest!: insert_enterprise_result split: sum.splits if_splits)

lemma lifecycle_tokens: "DeleteOrTerminateEnterprise env eid name groups fl = Inr (res, fl') \<Longrightarrow> fleet_tokens fl \<Longrightarrow> fleet_tokens fl'"
  by (auto simp: DeleteOrTerminateEnterprise_def terminate_tables tokens_terminate split: option.splits if_splits)

lemma same_tokens:
  "same_accounts fl fl' \<Longrightarrow> fleet_tokens fl \<Longrightarrow> fleet_tokens fl'" "same_but_users fl fl' \<Longrightarrow> fleet_tokens fl \<Longrightarrow> fleet_tokens fl'"
  by (auto simp: same_accounts_def same_but_users_def)

lemma fleet_step_tokens:
  assumes "fleet_step env penv issued now fl fl'" "fleet_tokens fl" "\<forall>n. te_randomID env n \<noteq> []"
  shows "fleet_tokens fl'"
  using assms(1)
proof (cases rule: fleet_step.cases)
  case (create_enterprise name)
  with assms(2) founding_tables(1) show ?thesis by metis
next
  case (initial_admin username displayName hash)
  with assms(2) founding_tables(2) show ?thesis by metis
qed (use assms(2,3) in \<open>blast intro: user_operations same_tokens install_operations_tokens session_operations_tokens enroll_tokens
    lifecycle_tokens host_accounts work_accounts engine_accounts\<close>)+

lemma empty_tokens: "fleet_tokens empty_fleet"
  by (simp add: tokens_ok_def empty_fleet_def)

lemma reachable_tokens: "fleet_reachable env penv issued fl \<Longrightarrow> \<forall>n. te_randomID env n \<noteq> [] \<Longrightarrow> fleet_tokens fl"
  using later_invariant[where I = fleet_tokens] fleet_step_tokens empty_tokens unfolding fleet_reachable_def by blast

text \<open>Sessions stay, and stay used.\<close>

definition sessions_kept :: "fleet \<Rightarrow> fleet \<Rightarrow> bool" where
  "sessions_kept fl fl' \<longleftrightarrow> (\<forall>t \<in> set (fl_enrollments fl). et_Used t \<longrightarrow> (\<exists>t' \<in> set (fl_enrollments fl'). et_TokenHash t' = et_TokenHash t \<and> et_Used t'))"

lemma sessions_same: "fl_enrollments fl' = fl_enrollments fl \<Longrightarrow> sessions_kept fl fl'"
  by (auto simp: sessions_kept_def)

lemma sessions_update:
  "fl_enrollments fl' = update_where P f (fl_enrollments fl) \<Longrightarrow> (\<And>t. et_TokenHash (f t) = et_TokenHash t \<and> (et_Used t \<longrightarrow> et_Used (f t))) \<Longrightarrow>
    sessions_kept fl fl'"
  unfolding sessions_kept_def update_where_def by (clarsimp, rule_tac x = "if P t then f t else t" in bexI) auto

lemma session_operations_kept:
  "CreateEnterpriseInstallToken env now eid name expires m fl = Inr fl' \<Longrightarrow> sessions_kept fl fl'"
  "EnsurePersistentEnterpriseInstallToken env now eid name fl = Inr fl' \<Longrightarrow> sessions_kept fl fl'"
  "RevokeEnterpriseInstallToken i scope fl = Inr fl' \<Longrightarrow> sessions_kept fl fl'"
  "ExchangeEnterpriseInstallToken env now ttl token fl = Inr (r, fl') \<Longrightarrow> sessions_kept fl fl'"
  "CreateEnrollmentToken env now ttl eid fl = Inr (r, fl') \<Longrightarrow> sessions_kept fl fl'"
  by (auto simp: CreateEnterpriseInstallToken_def EnsurePersistentEnterpriseInstallToken_def RevokeEnterpriseInstallToken_def
      ExchangeEnterpriseInstallToken_def CreateEnrollmentToken_def insert_install_def insert_enrollment_def Let_def sessions_kept_def
      split: if_splits option.splits sum.splits)

lemma allow_kept: "AllowEnrollmentPackages env now token ids fl = Inr fl' \<Longrightarrow> sessions_kept fl fl'"
  by (rule sessions_update[where P = "session_open env now token fl" and f = "\<lambda>t. t\<lparr>et_AllowedPackages := Some ids\<rparr>"])
    (auto simp: AllowEnrollmentPackages_def Let_def split: if_splits)

lemma ConsumeEnrollment_result:
  assumes "ConsumeEnrollment env now token sid name serial invt fl = Inr fl'"
  shows "fl_enrollments fl' = update_where (\<lambda>x. et_TokenHash x = te_tokenHash env token) (\<lambda>x. x\<lparr>et_Used := True\<rparr>) (fl_enrollments fl)"
    "te_tokenHash env token \<in> et_TokenHash ` set (fl_enrollments fl)"
proof -
  from assms obtain t fl1 where t: "t \<in> set (fl_enrollments fl)" "et_TokenHash t = te_tokenHash env token"
      "insert_server sid (et_EnterpriseID t) name serial invt (desired_packages (et_AllowedPackages t)) fl = Inr fl1" "fl' = mark_used t fl1"
    by (auto simp: ConsumeEnrollment_def split: option.splits if_splits sum.splits dest!: find_Some)
  then show "fl_enrollments fl' = update_where (\<lambda>x. et_TokenHash x = te_tokenHash env token) (\<lambda>x. x\<lparr>et_Used := True\<rparr>) (fl_enrollments fl)"
    using insert_server_tables[OF t(3)] by (simp add: mark_used_def)
  show "te_tokenHash env token \<in> et_TokenHash ` set (fl_enrollments fl)" using t(1,2) by force
qed

lemma enroll_result:
  assumes "enroll env now token name csr serial invt fl = Some (cert, fl')"
  shows "ConsumeEnrollment env now token (next_id env fl) name serial invt (drawn 1 fl) = Inr fl'"
    "ValidateEnrollmentToken env now token fl = None" "SignAgentCSR csr serial (next_id env fl) now = Some cert"
  using assms by (auto simp: enroll_def Let_def split: option.splits if_splits sum.splits)

lemma enroll_kept: "enroll env now token name csr serial invt fl = Some (cert, fl') \<Longrightarrow> sessions_kept fl fl'"
  by (rule sessions_update[where P = "\<lambda>x. et_TokenHash x = te_tokenHash env token" and f = "\<lambda>x. x\<lparr>et_Used := True\<rparr>"])
    (auto dest!: enroll_result(1) ConsumeEnrollment_result(1))

lemma lifecycle_kept: "DeleteOrTerminateEnterprise env eid name groups fl = Inr (res, fl') \<Longrightarrow> sessions_kept fl fl'"
  by (auto simp: DeleteOrTerminateEnterprise_def split: option.splits if_splits
      intro: sessions_same sessions_update[where P = "\<lambda>t. et_EnterpriseID t = eid" and f = "\<lambda>t. t\<lparr>et_Used := True\<rparr>"] simp: terminate_tables)

lemma other_kept: "same_accounts fl fl' \<Longrightarrow> sessions_kept fl fl'" "same_but_users fl fl' \<Longrightarrow> sessions_kept fl fl'"
  by (auto simp: same_accounts_def same_but_users_def intro!: sessions_same)

lemma fleet_step_kept:
  assumes "fleet_step env penv issued now fl fl'"
  shows "sessions_kept fl fl'"
  using assms
proof (cases rule: fleet_step.cases)
  case (create_enterprise name)
  then show ?thesis using founding_tables(1) by (blast intro: sessions_same)
next
  case (initial_admin username displayName hash)
  then show ?thesis using founding_tables(2) by (blast intro: sessions_same)
qed (blast intro: session_operations_kept allow_kept enroll_kept lifecycle_kept other_kept user_operations host_accounts work_accounts
    engine_accounts)+

definition consumed :: "tenancy_env \<Rightarrow> string \<Rightarrow> fleet \<Rightarrow> bool" where
  "consumed env token fl \<longleftrightarrow> fleet_tokens fl \<and> (\<exists>t \<in> set (fl_enrollments fl). et_TokenHash t = te_tokenHash env token \<and> et_Used t)"

lemma consumed_refused:
  assumes "consumed env token fl"
  shows "ValidateEnrollmentToken env now token fl = Some InvalidEnrollmentToken"
    "AllowEnrollmentPackages env now token ids fl = Inl InvalidEnrollmentToken"
    "EnrollmentPackageAllowed env now token packageID fl = Inl InvalidEnrollmentToken"
    "enroll env now token name csr serial invt fl = None"
proof -
  have used: "et_Used t" if "t \<in> set (fl_enrollments fl)" "et_TokenHash t = te_tokenHash env token" for t
    using assms that unfolding consumed_def tokens_ok_def distinct_map by (metis inj_onD)
  show v: "ValidateEnrollmentToken env now token fl = Some InvalidEnrollmentToken"
    by (auto simp: ValidateEnrollmentToken_def used dest!: find_Some split: option.splits)
  have closed: "\<not> session_open env now token fl t" if "t \<in> set (fl_enrollments fl)" for t
    using used[OF that] by (auto simp: session_open_def)
  then show "AllowEnrollmentPackages env now token ids fl = Inl InvalidEnrollmentToken"
    by (simp add: AllowEnrollmentPackages_def changed_rows_def)
  show "EnrollmentPackageAllowed env now token packageID fl = Inl InvalidEnrollmentToken"
    using closed by (simp add: EnrollmentPackageAllowed_def find_None_iff[THEN iffD2])
  show "enroll env now token name csr serial invt fl = None" by (simp add: enroll_def v)
qed

lemma enroll_consumes:
  assumes "enroll env now token name csr serial invt fl = Some (cert, fl')" "fleet_tokens fl"
  shows "consumed env token fl'"
proof -
  note result = ConsumeEnrollment_result[OF enroll_result(1)[OF assms(1)]]
  from result(2) obtain t where "t \<in> set (fl_enrollments fl)" "et_TokenHash t = te_tokenHash env token" by auto
  then have "t\<lparr>et_Used := True\<rparr> \<in> set (fl_enrollments fl')" "et_TokenHash t = te_tokenHash env token"
    by (auto simp: result(1) update_where_def)
  then show ?thesis using enroll_tokens[OF assms] unfolding consumed_def by (auto intro!: bexI[of _ "t\<lparr>et_Used := True\<rparr>"])
qed

lemma fleet_step_consumed:
  assumes "fleet_step env penv issued now fl fl'" "consumed env token fl" "\<forall>n. te_randomID env n \<noteq> []"
  shows "consumed env token fl'"
proof -
  from assms(2) obtain t where t: "t \<in> set (fl_enrollments fl)" "et_TokenHash t = te_tokenHash env token" "et_Used t" "fleet_tokens fl"
    by (auto simp: consumed_def)
  then show ?thesis
    using fleet_step_kept[OF assms(1)] fleet_step_tokens[OF assms(1) t(4) assms(3)] unfolding consumed_def sessions_kept_def by metis
qed

lemma later_consumed:
  assumes "later env penv issued t0 fl t fl'" "consumed env token fl" "\<forall>n. te_randomID env n \<noteq> []"
  shows "consumed env token fl'"
  using later_invariant[where I = "consumed env token", OF assms(1,2)] fleet_step_consumed[OF _ _ assms(3)] by blast

text \<open>C18:
  No install token, revoked or not, counts more enrollments than it allows; and as long as it is not revoked its count is exact: it is
  the number of its sessions that are used. (Ending an enterprise revokes its tokens and marks its open sessions as used.)
\<close>

theorem enrollment_within_limit:
  assumes "fleet_reachable env penv issued fl" "\<forall>n. te_randomID env n \<noteq> []"
  shows "\<forall>it \<in> set (fl_installs fl). (\<forall>m. it_MaxEnrollments it = Some m \<longrightarrow> it_EnrollmentCount it \<le> m) \<and>
    (\<not> it_Revoked it \<longrightarrow> it_EnrollmentCount it = length (filter (\<lambda>t. et_InstallTokenID t = it_ID it \<and> et_Used t) (fl_enrollments fl)))"
  using reachable_tokens[OF assms] unfolding tokens_ok_def within_limit_def used_sessions_def by auto

definition example_issued :: "string \<Rightarrow> certificate" where
  "example_issued serial = \<lparr>ct_CommonName = [], ct_Serial = serial, ct_NotBefore = 0, ct_NotAfter = 0\<rparr>"

definition example_exchanged :: fleet where
  "example_exchanged = (case ExchangeEnterpriseInstallToken example_env 1 10 ''ttt'' example_opened of Inl _ \<Rightarrow> empty_fleet | Inr (_, fl) \<Rightarrow> fl)"

definition example_enrolled :: fleet where
  "example_enrolled = (case enroll example_env 2 ''tttt'' ''web'' True ''s1'' undefined example_exchanged of None \<Rightarrow> empty_fleet | Some (_, fl) \<Rightarrow> fl)"

lemmas session_defs = example_enrolled_def example_exchanged_def ExchangeEnterpriseInstallToken_def enroll_def ValidateEnrollmentToken_def
  ConsumeEnrollment_def insert_server_def mark_used_def insert_enrollment_def new_enrollment_def installTokenUsable_def parent_valid_def
  parent_usable_def persistentInstallTokenExpiry_def SignAgentCSR_def new_server_def set_serial_def desired_packages_def update_where_def

lemma example_sessions:
  "ExchangeEnterpriseInstallToken example_env 1 10 ''ttt'' example_opened = Inr ((''tttt'', 11), example_exchanged)"
  by (simp add: session_defs example_defs)

lemma example_enrollment:
  "\<exists>cert. enroll example_env 2 ''tttt'' ''web'' True ''s1'' undefined example_exchanged = Some (cert, example_enrolled)"
  by (simp add: session_defs example_defs)

lemma example_later: "later example_env penv issued 0 empty_fleet 1 example_exchanged"
  by (rule later.further[OF example_reachable]) (use example_sessions in \<open>auto intro: fleet_step.intros\<close>)

lemma example_ids: "\<forall>n. te_randomID example_env n \<noteq> []"
  by (simp add: example_env_def)

theorem enrollment_within_limit_witness:
  "\<exists>it. it \<in> set (fl_installs example_enrolled) \<and> it_MaxEnrollments it = Some 1 \<and> it_EnrollmentCount it = 1 \<and>
     length (filter (\<lambda>t. et_InstallTokenID t = it_ID it \<and> et_Used t) (fl_enrollments example_enrolled)) = 1"
proof -
  obtain cert where "enroll example_env 2 ''tttt'' ''web'' True ''s1'' undefined example_exchanged = Some (cert, example_enrolled)"
    using example_enrollment by blast
  then have "later example_env undefined undefined 0 empty_fleet 2 example_enrolled"
    by (intro later.further[OF example_later]) (auto intro: fleet_step.intros)
  then have "fleet_reachable example_env undefined undefined example_enrolled" unfolding fleet_reachable_def by blast
  note limit = enrollment_within_limit[OF this example_ids]
  obtain it where it: "it \<in> set (fl_installs example_enrolled)" "it_MaxEnrollments it = Some 1" "it_EnrollmentCount it = 1" "\<not> it_Revoked it"
    by (atomize_elim) (simp add: session_defs example_defs)
  with limit show ?thesis by fastforce
qed

text \<open>C17:
  A session that has enrolled a server is spent: in every later state its token is refused for another enrollment, for
  resolving packages and for downloading them.
\<close>

theorem session_enrolls_once:
  assumes "fleet_reachable env penv issued fl" "\<forall>n. te_randomID env n \<noteq> []"
    and "enroll env now token name csr serial invt fl = Some (cert, fl')" "later env penv issued now fl' t fl''"
  shows "enroll env t token name' csr' serial' invt' fl'' = None \<and>
    AllowEnrollmentPackages env t token ids fl'' = Inl InvalidEnrollmentToken \<and>
    EnrollmentPackageAllowed env t token packageID fl'' = Inl InvalidEnrollmentToken"
proof -
  have "consumed env token fl'" by (rule enroll_consumes[OF assms(3) reachable_tokens[OF assms(1,2)]])
  from later_consumed[OF assms(4) this assms(2)] show ?thesis by (intro conjI consumed_refused)
qed

theorem session_enrolls_once_witness:
  "\<exists>cert. enroll example_env 2 ''tttt'' ''web'' True ''s1'' undefined example_exchanged = Some (cert, example_enrolled) \<and>
     enroll example_env 2 ''tttt'' ''web'' True ''s2'' undefined example_enrolled = None"
proof -
  obtain cert where cert: "enroll example_env 2 ''tttt'' ''web'' True ''s1'' undefined example_exchanged = Some (cert, example_enrolled)"
    using example_enrollment by blast
  have "fleet_reachable example_env undefined undefined example_exchanged"
    using example_later unfolding fleet_reachable_def by blast
  from session_enrolls_once[OF this example_ids cert later.here] cert show ?thesis by blast
qed

section \<open>Commands\<close>

definition open_commands :: "string \<Rightarrow> fleet \<Rightarrow> nat" where
  "open_commands sid fl = length (filter (\<lambda>c. cm_ServerID c = sid \<and> unfinished c) (fl_commands fl))"

definition no_more_commands :: "fleet \<Rightarrow> fleet \<Rightarrow> bool" where
  "no_more_commands fl fl' \<longleftrightarrow> (\<forall>sid. open_commands sid fl' \<le> open_commands sid fl)"

lemma commands_same: "fl_commands fl' = fl_commands fl \<Longrightarrow> no_more_commands fl fl'"
  by (simp add: no_more_commands_def open_commands_def)

lemma length_filter_filter: "length (filter Q (filter P xs)) \<le> length (filter Q xs)"
  by (induction xs) auto

lemma commands_filter: "fl_commands fl' = filter P (fl_commands fl) \<Longrightarrow> no_more_commands fl fl'"
  by (simp add: no_more_commands_def open_commands_def length_filter_filter del: filter_filter)

lemma open_update:
  "(\<forall>c. P c \<longrightarrow> unfinished c) \<or> st \<noteq> C_PENDING \<and> st \<noteq> C_ACCEPTED \<Longrightarrow>
    length (filter (\<lambda>c. cm_ServerID c = sid \<and> unfinished c) (update_where P (\<lambda>c. c\<lparr>cm_Status := st\<rparr>) cs)) \<le>
    length (filter (\<lambda>c. cm_ServerID c = sid \<and> unfinished c) cs)"
  by (induction cs) (auto simp: update_where_def unfinished_def)

lemma commands_update:
  "fl_commands fl' = update_where P (\<lambda>c. c\<lparr>cm_Status := st\<rparr>) (fl_commands fl) \<Longrightarrow>
    (\<forall>c. P c \<longrightarrow> unfinished c) \<or> st \<noteq> C_PENDING \<and> st \<noteq> C_ACCEPTED \<Longrightarrow> no_more_commands fl fl'"
  unfolding no_more_commands_def open_commands_def by (auto intro!: open_update)

lemma set_command_fewer:
  "(\<forall>c. P c \<longrightarrow> unfinished c) \<or> st \<noteq> C_PENDING \<and> st \<noteq> C_ACCEPTED \<Longrightarrow> no_more_commands fl (set_command P st fl)"
  by (rule commands_update) (simp_all add: set_command_def)

lemma account_commands:
  "CreateInitialSystemAdmin env username displayName hash fl = Inr fl' \<Longrightarrow> no_more_commands fl fl'"
  "CreateEnterprise env name fl = Inr fl' \<Longrightarrow> no_more_commands fl fl'"
  "CreateEnterpriseInstallToken env now eid name expires m fl = Inr fl' \<Longrightarrow> no_more_commands fl fl'"
  "EnsurePersistentEnterpriseInstallToken env now eid name fl = Inr fl' \<Longrightarrow> no_more_commands fl fl'"
  "RevokeEnterpriseInstallToken i scope fl = Inr fl' \<Longrightarrow> no_more_commands fl fl'"
  "ExchangeEnterpriseInstallToken env now ttl token fl = Inr (r, fl') \<Longrightarrow> no_more_commands fl fl'"
  "CreateEnrollmentToken env now ttl eid fl = Inr (r, fl') \<Longrightarrow> no_more_commands fl fl'"
  "AllowEnrollmentPackages env now token ids fl = Inr fl' \<Longrightarrow> no_more_commands fl fl'"
  "enroll env now token name csr serial invt fl = Some (cert, fl') \<Longrightarrow> no_more_commands fl fl'"
  by (rule commands_same, auto simp: CreateInitialSystemAdmin_def CreateEnterprise_def CreateEnterpriseInstallToken_def
      EnsurePersistentEnterpriseInstallToken_def RevokeEnterpriseInstallToken_def ExchangeEnterpriseInstallToken_def
      CreateEnrollmentToken_def AllowEnrollmentPackages_def enroll_def ConsumeEnrollment_def insert_install_def insert_enrollment_def
      insert_user_def mark_used_def Let_def
      dest!: insert_enterprise_result insert_server_tables split: if_splits option.splits sum.splits)+

lemma deployment_commands:
  "AuthorizeAgent now sid cert fl = Inr fl' \<Longrightarrow> no_more_commands fl fl'"
  "RevokeServer eid sid fl = Inr fl' \<Longrightarrow> no_more_commands fl fl'"
  "UnregisterAgent sid fl = Inr fl' \<Longrightarrow> no_more_commands fl fl'"
  "policyResult sid rid status fl = Inr fl' \<Longrightarrow> no_more_commands fl fl'"
  "packageDeploymentResult penv sid i status detail fl = Inr fl' \<Longrightarrow> no_more_commands fl fl'"
  "AssignPackagesWithControl env penv eid sid aid mid mode fl = Inr (i, fl') \<Longrightarrow> no_more_commands fl fl'"
  "AssignAgentPackage env penv eid sid aid fl = Inr (i, fl') \<Longrightarrow> no_more_commands fl fl'"
  by (rule commands_same, auto simp: AuthorizeAgent_def RevokeServer_def UnregisterAgent_def revoke_where_def policyResult_def
      UpdatePolicyDeploymentResult_def packageDeploymentResult_def UpdatePackageDeploymentResult_def AssignPackagesWithControl_def
      AssignAgentPackage_def assign_deployment_def supersede_packages_def fleet_defs split: if_splits option.splits sum.splits)+

lemma DeleteRevokedServer_commands: "DeleteRevokedServer eid sid fl = Inr fl' \<Longrightarrow> no_more_commands fl fl'"
  by (rule commands_filter[where P = "\<lambda>c. cm_ServerID c \<noteq> sid"]) (auto simp: DeleteRevokedServer_def delete_server_rows_def on_db_def split: if_splits)

lemma agentCommandResult_commands: "agentCommandResult sid i status fl = Inr fl' \<Longrightarrow> no_more_commands fl fl'"
  by (auto simp: agentCommandResult_def UpdateCommandResult_def Let_def unfinished_def split: if_splits intro!: set_command_fewer)

lemma UpdateHeartbeat_commands: "UpdateHeartbeat now oks sid hb fl = Inr fl' \<Longrightarrow> no_more_commands fl fl'"
  by (auto simp: UpdateHeartbeat_def heartbeat_policy_def heartbeat_command_def on_db_def Let_def set_command_def no_more_commands_def
      open_commands_def split: if_splits intro!: open_update)

lemma lifecycle_commands: "DeleteOrTerminateEnterprise env eid name groups fl = Inr (res, fl') \<Longrightarrow> no_more_commands fl fl'"
  by (auto simp: DeleteOrTerminateEnterprise_def split: option.splits if_splits
      intro: commands_same commands_update[where P = "\<lambda>c. server_of eid (fl_db fl) (cm_ServerID c) \<and> unfinished c" and st = C_FAILED]
      simp: terminate_tables)

lemma other_commands:
  "same_but_users fl fl' \<Longrightarrow> no_more_commands fl fl'" "no_more_commands fl (fl\<lparr>fl_db := db', fl_details := ds\<rparr>)"
  by (auto simp: same_but_users_def intro!: commands_same)

lemma fleet_step_commands:
  assumes "fleet_step env penv issued now fl fl'"
  obtains (fewer) "no_more_commands fl fl'" | (queued) eid sid command i where "QueueCommand env eid sid command fl = Inr (i, fl')"
  using assms
  by (cases rule: fleet_step.cases) (blast intro: account_commands deployment_commands DeleteRevokedServer_commands agentCommandResult_commands
      UpdateHeartbeat_commands lifecycle_commands other_commands user_operations)+

definition one_open :: "fleet \<Rightarrow> bool" where
  "one_open fl \<longleftrightarrow> (\<forall>sid. open_commands sid fl \<le> 1)"

lemma fleet_step_one_open: "fleet_step env penv issued now fl fl' \<Longrightarrow> one_open fl \<Longrightarrow> one_open fl'"
proof (erule fleet_step_commands)
  assume "one_open fl" "no_more_commands fl fl'"
  then show "one_open fl'" unfolding one_open_def no_more_commands_def by (meson le_trans)
next
  fix eid sid command i
  assume "one_open fl" "QueueCommand env eid sid command fl = Inr (i, fl')"
  then show "one_open fl'"
    by (auto simp: QueueCommand_def Let_def one_open_def open_commands_def list_ex_iff filter_empty_conv split: if_splits)
qed

lemma empty_one_open: "one_open empty_fleet"
  by (simp add: one_open_def open_commands_def empty_fleet_def)

lemma reachable_one_open: "fleet_reachable env penv issued fl \<Longrightarrow> one_open fl"
  using later_invariant[where I = one_open] fleet_step_one_open empty_one_open unfolding fleet_reachable_def by blast

lemma at_most_one: "length xs \<le> 1 \<Longrightarrow> x \<in> set xs \<Longrightarrow> y \<in> set xs \<Longrightarrow> x = y"
  by (cases xs) auto

text \<open>C19:
  At most one command of a server is open in any reachable state, so that the command an agent is told is the one it must
  report on; the next command is empty exactly when none is open.
\<close>

theorem one_open_command:
  assumes "fleet_reachable env penv issued fl"
  shows "length (filter (\<lambda>c. cm_ServerID c = sid \<and> unfinished c) (fl_commands fl)) \<le> 1 \<and>
    (\<forall>c \<in> set (fl_commands fl). cm_ServerID c = sid \<and> unfinished c \<longrightarrow> NextCommand sid fl = (cm_ID c, cm_Command c))"
proof -
  let ?P = "\<lambda>c. cm_ServerID c = sid \<and> unfinished c"
  have one: "length (filter ?P (fl_commands fl)) \<le> 1"
    using reachable_one_open[OF assms] by (simp add: one_open_def open_commands_def)
  moreover have "NextCommand sid fl = (cm_ID c, cm_Command c)" if c: "c \<in> set (fl_commands fl)" "?P c" for c
  proof -
    obtain d where d: "find ?P (fl_commands fl) = Some d"
      using c by (cases "find ?P (fl_commands fl)") (auto simp: find_None_iff)
    then have "d \<in> set (filter ?P (fl_commands fl))" "c \<in> set (filter ?P (fl_commands fl))" using c by (auto dest: find_Some)
    then have "d = c" by (rule at_most_one[OF one])
    with d show ?thesis by (simp add: NextCommand_def)
  qed
  ultimately show ?thesis by blast
qed

definition example_commanded :: fleet where
  "example_commanded = (case QueueCommand example_env [] ''iiiii'' ''web-restart'' example_enrolled of Inl _ \<Rightarrow> empty_fleet | Inr (_, fl) \<Rightarrow> fl)"

lemma example_queue:
  "QueueCommand example_env [] ''iiiii'' ''web-restart'' example_enrolled = Inr (''iiiiii'', example_commanded)"
  by (simp add: example_commanded_def QueueCommand_def in_scope_def session_defs example_defs)

lemma example_enrolled_later: "later example_env penv issued 0 empty_fleet 2 example_enrolled"
proof -
  obtain cert where "enroll example_env 2 ''tttt'' ''web'' True ''s1'' undefined example_exchanged = Some (cert, example_enrolled)"
    using example_enrollment by blast
  then show ?thesis by (intro later.further[OF example_later]) (auto intro: fleet_step.intros)
qed

lemma example_commanded_later: "later example_env penv issued 0 empty_fleet 3 example_commanded"
  by (rule later.further[OF example_enrolled_later]) (use example_queue in \<open>auto intro: fleet_step.intros\<close>)

theorem one_open_command_witness:
  "NextCommand ''iiiii'' example_commanded = (''iiiiii'', ''web-restart'') \<and>
     length (filter (\<lambda>c. cm_ServerID c = ''iiiii'' \<and> unfinished c) (fl_commands example_commanded)) \<le> 1"
proof -
  have "fleet_reachable example_env undefined undefined example_commanded"
    using example_commanded_later unfolding fleet_reachable_def by blast
  note one = one_open_command[OF this, of "''iiiii''"]
  have "\<exists>c. c \<in> set (fl_commands example_commanded) \<and> cm_ServerID c = ''iiiii'' \<and> unfinished c \<and> cm_ID c = ''iiiiii'' \<and> cm_Command c = ''web-restart''"
    by (simp add: example_commanded_def QueueCommand_def in_scope_def unfinished_def session_defs example_defs)
  with one show ?thesis by metis
qed

section \<open>Administrators\<close>

definition users_ok :: "fleet \<Rightarrow> bool" where
  "users_ok fl \<longleftrightarrow> distinct (map au_ID (fl_users fl))"

definition administered :: "string \<Rightarrow> fleet \<Rightarrow> bool" where
  "administered e fl \<longleftrightarrow> (\<exists>u \<in> set (fl_users fl). active_enterprise_admin e u)"

definition admins_kept :: "string \<Rightarrow> fleet \<Rightarrow> fleet \<Rightarrow> bool" where
  "admins_kept e fl fl' \<longleftrightarrow> (users_ok fl \<longrightarrow> users_ok fl' \<and> (administered e fl \<longrightarrow> administered e fl' \<or> ended e fl'))"

lemma users_same: "fl_users fl' = fl_users fl \<Longrightarrow> admins_kept e fl fl'"
  by (simp add: admins_kept_def users_ok_def administered_def)

lemma insert_user_ok: "insert_user u fl = Inr fl' \<Longrightarrow> admins_kept e fl fl'"
  by (fastforce simp: insert_user_def admins_kept_def users_ok_def administered_def list_ex_iff split: if_splits)

lemma users_update_ok:
  assumes "fl_users fl' = update_where P f (fl_users fl)" "\<And>u. au_ID (f u) = au_ID u"
  shows "users_ok fl' = users_ok fl"
proof -
  have "map au_ID (fl_users fl') = map au_ID (fl_users fl)" using assms by (auto simp: update_where_def)
  then show ?thesis by (simp add: users_ok_def)
qed

text \<open>A change of the rows of one user: an administrator remains when that user was none, stays one, or is not the last.\<close>

lemma administered_update:
  assumes "fl_users fl' = update_where P f (fl_users fl)" "administered e fl"
    and "\<And>u. u \<in> set (fl_users fl) \<Longrightarrow> P u \<Longrightarrow> active_enterprise_admin e u \<Longrightarrow>
      active_enterprise_admin e (f u) \<or> (\<exists>v \<in> set (fl_users fl). active_enterprise_admin e v \<and> \<not> P v)"
  shows "administered e fl'"
proof -
  from assms(2) obtain u where u: "u \<in> set (fl_users fl)" "active_enterprise_admin e u" by (auto simp: administered_def)
  consider "\<not> P u" | "active_enterprise_admin e (f u)" "P u" | v where "v \<in> set (fl_users fl)" "active_enterprise_admin e v" "\<not> P v"
    using assms(3) u by blast
  then show ?thesis
    using u assms(1) by cases (auto simp: administered_def update_where_def)
qed

lemma password_kept:
  assumes "fl_users fl' = update_where P (\<lambda>u. u\<lparr>au_PasswordHash := h\<rparr>) (fl_users fl)"
  shows "admins_kept e fl fl'"
  using users_update_ok[OF assms] administered_update[OF assms] by (auto simp: admins_kept_def active_enterprise_admin_def)

lemma password_operations_kept:
  "UpdateOwnPassword userID hash fl = Inr fl' \<Longrightarrow> admins_kept e fl fl'"
  "ResetSystemAdminPassword username hash fl = Inr fl' \<Longrightarrow> admins_kept e fl fl'"
  by (auto simp: UpdateOwnPassword_def ResetSystemAdminPassword_def Let_def split: if_splits option.splits intro: password_kept)

lemma other_admin:
  "lockOtherActiveEnterpriseAdmin fl eid userID \<longleftrightarrow> (\<exists>v \<in> set (fl_users fl). active_enterprise_admin eid v \<and> au_ID v \<noteq> userID)"
  by (simp add: lockOtherActiveEnterpriseAdmin_def list_ex_iff)

lemma found_user:
  assumes "users_ok fl" "find (enterprise_user eid userID) (fl_users fl) = Some current" "u \<in> set (fl_users fl)" "enterprise_user eid userID u"
  shows "u = current"
proof -
  have "current \<in> set (fl_users fl)" "au_ID u = au_ID current"
    using assms(2,4) by (auto simp: enterprise_user_def dest: find_Some)
  then show ?thesis using assms(1,3) unfolding users_ok_def distinct_map by (metis inj_onD)
qed

lemma UpdateEnterpriseUser_kept:
  assumes "UpdateEnterpriseUser eid userID displayName hash role active fl = Inr fl'"
  shows "admins_kept e fl fl'"
proof -
  let ?f = "\<lambda>u. u\<lparr>au_DisplayName := displayName, au_Role := role, au_Active := active,
    au_PasswordHash := (if hash \<noteq> [] then hash else au_PasswordHash u)\<rparr>"
  from assms(1) obtain current where c: "find (enterprise_user eid userID) (fl_users fl) = Some current"
      "fl_users fl' = update_where (enterprise_user eid userID) ?f (fl_users fl)"
      "au_Role current = RoleEnterpriseAdmin \<and> au_Active current \<and> (role \<noteq> RoleEnterpriseAdmin \<or> \<not> active) \<longrightarrow>
        lockOtherActiveEnterpriseAdmin fl eid userID"
    by (auto simp: UpdateEnterpriseUser_def split: if_splits option.splits)
  have "administered e fl'" if a: "users_ok fl" "administered e fl"
  proof (rule administered_update[OF c(2) a(2)])
    fix u assume u: "u \<in> set (fl_users fl)" "enterprise_user eid userID u" "active_enterprise_admin e u"
    from found_user[OF a(1) c(1) u(1,2)] have "u = current" .
    with c(3) u(2,3) show "active_enterprise_admin e (?f u) \<or> (\<exists>v \<in> set (fl_users fl). active_enterprise_admin e v \<and> \<not> enterprise_user eid userID v)"
      by (auto simp: active_enterprise_admin_def enterprise_user_def other_admin)
  qed
  then show ?thesis using users_update_ok[OF c(2)] by (simp add: admins_kept_def)
qed

lemma DeleteEnterpriseUser_kept:
  assumes "DeleteEnterpriseUser eid userID fl = Inr fl'"
  shows "admins_kept e fl fl'"
proof -
  from assms(1) obtain current where c: "find (enterprise_user eid userID) (fl_users fl) = Some current"
      "fl_users fl' = update_where (enterprise_user eid userID) (\<lambda>u. u\<lparr>au_Active := False, au_Deleted := True\<rparr>) (fl_users fl)"
      "au_Role current = RoleEnterpriseAdmin \<and> au_Active current \<longrightarrow> lockOtherActiveEnterpriseAdmin fl eid userID"
    by (auto simp: DeleteEnterpriseUser_def Let_def split: if_splits option.splits)
  have "administered e fl'" if a: "users_ok fl" "administered e fl"
  proof (rule administered_update[OF c(2) a(2)])
    fix u assume u: "u \<in> set (fl_users fl)" "enterprise_user eid userID u" "active_enterprise_admin e u"
    from found_user[OF a(1) c(1) u(1,2)] have "u = current" .
    with c(3) u(2,3) show "active_enterprise_admin e (u\<lparr>au_Active := False, au_Deleted := True\<rparr>) \<or>
        (\<exists>v \<in> set (fl_users fl). active_enterprise_admin e v \<and> \<not> enterprise_user eid userID v)"
      by (auto simp: active_enterprise_admin_def enterprise_user_def other_admin)
  qed
  then show ?thesis using users_update_ok[OF c(2)] by (simp add: admins_kept_def)
qed


lemma founding_kept: "CreateEnterprise env name fl = Inr fl' \<Longrightarrow> admins_kept e fl fl'"
  by (rule users_same) (auto simp: CreateEnterprise_def dest!: insert_enterprise_result)

lemma insert_user_kept: "insert_user u fl1 = Inr fl' \<Longrightarrow> fl_users fl1 = fl_users fl \<Longrightarrow> admins_kept e fl fl'"
  using insert_user_ok[of u fl1 fl' e] by (simp add: admins_kept_def users_ok_def administered_def)

lemma CreateEnterpriseUser_kept: "CreateEnterpriseUser env eid username displayName hash role fl = Inr fl' \<Longrightarrow> admins_kept e fl fl'"
  by (auto simp: CreateEnterpriseUser_def split: if_splits elim!: insert_user_kept)

lemma initial_kept: "CreateInitialSystemAdmin env username displayName hash fl = Inr fl' \<Longrightarrow> admins_kept e fl fl'"
  by (auto simp: CreateInitialSystemAdmin_def Let_def dest!: insert_enterprise_result split: sum.splits if_splits elim!: insert_user_kept)

lemma lifecycle_admins: "DeleteOrTerminateEnterprise env eid name groups fl = Inr (res, fl') \<Longrightarrow> admins_kept e fl fl'"
proof -
  assume step: "DeleteOrTerminateEnterprise env eid name groups fl = Inr (res, fl')"
  show ?thesis
  proof (cases res)
    case EnterpriseDeleted
    with step show ?thesis by (auto simp: DeleteOrTerminateEnterprise_def split: option.splits if_splits intro!: users_same)
  next
    case EnterpriseTerminated
    with step have fl': "fl' = terminate_fleet env eid fl" by (auto simp: DeleteOrTerminateEnterprise_def split: option.splits if_splits)
    note users = terminate_tables(5)[of env eid fl, folded fl']
    have "ended e fl'" if "eid = e" using terminate_ends step EnterpriseTerminated that by blast
    moreover have "administered e fl'" if "administered e fl" "eid \<noteq> e"
      by (rule administered_update[OF users that(1)]) (use that(2) in \<open>auto simp: active_enterprise_admin_def\<close>)
    ultimately show ?thesis using users_update_ok[OF users] by (auto simp: admins_kept_def)
  qed
qed

lemma change_kept: "token_change fl fl' \<Longrightarrow> admins_kept e fl fl'"
  by (rule users_same) (simp add: token_change_def)

lemma fleet_step_admins: "fleet_step env penv issued now fl fl' \<Longrightarrow> admins_kept e fl fl'"
  by (cases rule: fleet_step.cases) (blast intro: password_operations_kept UpdateEnterpriseUser_kept DeleteEnterpriseUser_kept founding_kept CreateEnterpriseUser_kept
      initial_kept lifecycle_admins change_kept token_operations_change same_accounts_change host_accounts work_accounts engine_accounts)+

definition admins_safe :: "string \<Rightarrow> fleet \<Rightarrow> bool" where
  "admins_safe e fl \<longleftrightarrow> inert fl \<and> users_ok fl \<and> (administered e fl \<or> ended e fl)"

lemma fleet_step_admins_safe: "fleet_step env penv issued now fl fl' \<Longrightarrow> admins_safe e fl \<Longrightarrow> admins_safe e fl'"
  using fleet_step_admins[of env penv issued now fl fl' e] fleet_step_inert fleet_step_ended
  unfolding admins_safe_def admins_kept_def by blast

lemma empty_users_ok: "users_ok empty_fleet"
  by (simp add: users_ok_def empty_fleet_def)

lemma reachable_users_ok: "fleet_reachable env penv issued fl \<Longrightarrow> users_ok fl"
  using later_invariant[where I = users_ok] fleet_step_admins empty_users_ok unfolding fleet_reachable_def admins_kept_def by blast

text \<open>C22:
  An enterprise that has an active administrator keeps one until it is terminated, whatever is done to its users.\<close>

theorem enterprise_keeps_admin:
  assumes "fleet_reachable env penv issued fl" "u \<in> set (fl_users fl)" "active_enterprise_admin e u" "later env penv issued t0 fl t fl'"
  shows "(\<exists>u' \<in> set (fl_users fl'). active_enterprise_admin e u') \<or> \<not> enterprise_active fl' e"
proof -
  have "admins_safe e fl"
    using reachable_inert[OF assms(1)] reachable_users_ok[OF assms(1)] assms(2,3) by (auto simp: admins_safe_def administered_def)
  with later_invariant[where I = "admins_safe e", OF assms(4)] fleet_step_admins_safe have "admins_safe e fl'" by blast
  then show ?thesis using ended_not_active unfolding admins_safe_def administered_def by blast
qed

theorem enterprise_keeps_admin_witness:
  "UpdateEnterpriseUser ''i'' ''ii'' ''Ann'' [] RoleEnterpriseUser True example_opened = Inl LastEnterpriseAdmin \<and>
     enterprise_active example_enrolled ''i'' \<and> (\<exists>u. u \<in> set (fl_users example_enrolled) \<and> active_enterprise_admin ''i'' u)"
proof -
  have reach: "fleet_reachable example_env undefined undefined example_enrolled"
    using example_enrolled_later unfolding fleet_reachable_def by blast
  obtain u where u: "u \<in> set (fl_users example_enrolled)" "active_enterprise_admin ''i'' u"
    by (atomize_elim) (simp add: active_enterprise_admin_def session_defs example_defs)
  have "UpdateEnterpriseUser ''i'' ''ii'' ''Ann'' [] RoleEnterpriseUser True example_opened = Inl LastEnterpriseAdmin"
    by (simp add: UpdateEnterpriseUser_def enterprise_user_def lockOtherActiveEnterpriseAdmin_def active_enterprise_admin_def role_names example_defs)
  moreover have "enterprise_active example_enrolled ''i''" by (simp add: session_defs example_defs)
  ultimately show ?thesis using enterprise_keeps_admin[OF reach u later.here] by blast
qed

section \<open>Certificates and packages of a session\<close>

text \<open>C40:
  A renewed certificate that the Manager has not seen within fifteen minutes of its issue is refused from then on, and the
  agent has overwritten its earlier one: the agent is locked out until it is enrolled again.
\<close>

theorem stranded_certificate:
  assumes "SignAgentCSR csr serial sid issuedAt = Some cert" "map_of (fl_serials fl) sid \<noteq> Some serial" "issuedAt + 15 * minute \<le> now"
  shows "requireAgent now (Some cert) fl = None"
proof -
  have cert: "ct_CommonName cert = sid" "ct_Serial cert = serial" "ct_NotBefore cert \<le> now - 20 * minute"
    using assms(1,3) by (auto simp: SignAgentCSR_def Let_def split: if_splits)
  have "\<exists>e. AuthorizeAgent now sid cert fl = Inl e"
    using cert assms(2) by (auto simp: AuthorizeAgent_def split: option.splits)
  then show ?thesis using cert(1) by (auto simp: requireAgent_def)
qed

theorem stranded_certificate_witness:
  "\<exists>cert. SignAgentCSR True ''s2'' ''iiiii'' 0 = Some cert \<and> requireAgent (60 * minute) (Some cert) example_enrolled = None \<and>
     (\<exists>fl'. requireAgent (10 * minute) (Some cert) example_enrolled = Some (''iiiii'', fl'))"
proof -
  obtain cert where cert: "SignAgentCSR True ''s2'' ''iiiii'' 0 = Some cert" by (simp add: SignAgentCSR_def)
  have "map_of (fl_serials example_enrolled) ''iiiii'' \<noteq> Some ''s2''" by (simp add: session_defs example_defs)
  from stranded_certificate[OF cert this] have "requireAgent (60 * minute) (Some cert) example_enrolled = None" by simp
  moreover have "\<exists>fl'. requireAgent (10 * minute) (Some cert) example_enrolled = Some (''iiiii'', fl')"
    using cert by (auto simp: requireAgent_def AuthorizeAgent_def session_defs example_defs)
  ultimately show ?thesis using cert by blast
qed

text \<open>
  A session may resolve its packages once: the same resolution again changes no row, and the Manager answers that the
  token, which is still open, is invalid.
\<close>

theorem repeated_resolution_refused:
  assumes "AllowEnrollmentPackages env now token ids fl = Inr fl'"
  shows "AllowEnrollmentPackages env now token ids fl' = Inl InvalidEnrollmentToken \<and>
    (\<exists>t \<in> set (fl_enrollments fl'). session_open env now token fl' t \<and> et_AllowedPackages t = Some ids)"
proof -
  let ?f = "\<lambda>t. t\<lparr>et_AllowedPackages := Some ids\<rparr>"
  from assms have fl': "fl' = fl\<lparr>fl_enrollments := update_where (session_open env now token fl) ?f (fl_enrollments fl)\<rparr>"
    and changed: "changed_rows (session_open env now token fl) ?f (fl_enrollments fl) = 1"
    by (auto simp: AllowEnrollmentPackages_def Let_def split: if_splits)
  have same: "session_open env now token (fl\<lparr>fl_enrollments := ens\<rparr>) t = session_open env now token fl t" for ens t
    by (simp add: session_open_def parent_valid_def)
  have keep: "session_open env now token fl (?f t) = session_open env now token fl t" for t
    by (simp add: session_open_def parent_valid_def)
  have "changed_rows (session_open env now token fl') ?f (fl_enrollments fl') = 0"
    by (auto simp: changed_rows_def same filter_empty_conv fl' update_where_def keep)
  then have "AllowEnrollmentPackages env now token ids fl' = Inl InvalidEnrollmentToken" by (simp add: AllowEnrollmentPackages_def)
  moreover obtain t where "t \<in> set (fl_enrollments fl)" "session_open env now token fl t"
    using changed unfolding changed_rows_def by (metis (no_types, lifting) filter_False list.size(3) zero_neq_one)
  then have "?f t \<in> set (fl_enrollments fl')" "session_open env now token fl' (?f t)"
    by (auto simp: fl' update_where_def same keep)
  ultimately show ?thesis by (intro conjI bexI[of _ "?f t"]) simp_all
qed

definition example_allowed :: fleet where
  "example_allowed = result_or empty_fleet (AllowEnrollmentPackages example_env 2 ''tttt'' [''a'', ''m''] example_exchanged)"

theorem repeated_resolution_refused_witness:
  "AllowEnrollmentPackages example_env 2 ''tttt'' [''a'', ''m''] example_exchanged = Inr example_allowed \<and>
     AllowEnrollmentPackages example_env 2 ''tttt'' [''a'', ''m''] example_allowed = Inl InvalidEnrollmentToken"
proof -
  have "AllowEnrollmentPackages example_env 2 ''tttt'' [''a'', ''m''] example_exchanged = Inr example_allowed"
    by (simp add: example_allowed_def AllowEnrollmentPackages_def session_open_def changed_rows_def session_defs example_defs)
  with repeated_resolution_refused[OF this] show ?thesis by blast
qed

end
