(* ===== verification/Tenant_Isolation.thy ===== *)
theory Tenant_Isolation
  imports Fleet
begin

text \<open>
  What a session of the enterprise console can change: the handlers behind \<^verbatim>\<open>requireEnterpriseConsole\<close>
  (\<^verbatim>\<open>routes_admin.go\<close>, \<^verbatim>\<open>admin_server_handlers.go\<close>, \<^verbatim>\<open>admin_identity_handlers.go\<close>,
  \<^verbatim>\<open>admin_install_token_handlers.go\<close>, \<^verbatim>\<open>policy_domain_handlers.go\<close> and \<^verbatim>\<open>policy_mutation.go\<close> in
  \<^verbatim>\<open>src/internal/manager/\<close>) pass the scope of the session, or the enterprise that \<^verbatim>\<open>MutationEnterpriseID\<close>
  gives for a requested one, to the operations of the store. \<open>console_step\<close> has one rule per operation;
  \<open>foreign\<close> is what the fleet holds of other enterprises.
\<close>

section \<open>Requests of the enterprise console\<close>

definition userManagementEnterpriseID :: "string \<Rightarrow> sessionData \<Rightarrow> string" where
  "userManagementEnterpriseID pathValue s = (if trim_space pathValue \<noteq> [] then trim_space pathValue else sd_EnterpriseID s)"

definition sessionCanManageUser :: "sessionData \<Rightarrow> UserRecord \<Rightarrow> bool" where
  "sessionCanManageUser s user \<longleftrightarrow>
     (if \<not> CanManageUsers s \<or> ur_Role user = RoleSystemAdmin \<or> ur_EnterpriseID user = [] then False
      else if IsSystemAdmin s then True else sd_EnterpriseID s = ur_EnterpriseID user)"

text \<open>
  The user that \<^verbatim>\<open>updateUser\<close> and \<^verbatim>\<open>deleteUser\<close> may change. The routes of the enterprise console have no path value for the enterprise.
\<close>

definition managed_user :: "fleet \<Rightarrow> string \<Rightarrow> sessionData \<Rightarrow> UserRecord option" where
  "managed_user fl userID e =
     (case UserByID fl userID of
        None \<Rightarrow> None
      | Some user \<Rightarrow>
          if ur_EnterpriseID user \<noteq> userManagementEnterpriseID [] e \<or> \<not> sessionCanManageUser e user then None else Some user)"

inductive console_step :: "tenancy_env \<Rightarrow> plan_env \<Rightarrow> time \<Rightarrow> sessionData \<Rightarrow> fleet \<Rightarrow> fleet \<Rightarrow> bool" for env penv now e where
  revoke_server: "RevokeServer (ScopeEnterpriseID e) sid fl = Inr fl' \<Longrightarrow> console_step env penv now e fl fl'"
| delete_server: "DeleteRevokedServer (ScopeEnterpriseID e) sid fl = Inr fl' \<Longrightarrow> console_step env penv now e fl fl'"
| queue_command: "QueueCommand env (ScopeEnterpriseID e) sid command fl = Inr (i, fl') \<Longrightarrow> console_step env penv now e fl fl'"
| assign_packages: "AssignPackagesWithControl env penv (ScopeEnterpriseID e) sid aid mid mode fl = Inr (i, fl') \<Longrightarrow> console_step env penv now e fl fl'"
| assign_agent: "AssignAgentPackage env penv (ScopeEnterpriseID e) sid aid fl = Inr (i, fl') \<Longrightarrow> console_step env penv now e fl fl'"
| create_user: "CreateEnterpriseUser env (userManagementEnterpriseID [] e) username displayName hash role fl = Inr fl' \<Longrightarrow> console_step env penv now e fl fl'"
| update_user: "managed_user fl userID e = Some user \<Longrightarrow>
    UpdateEnterpriseUser (ur_EnterpriseID user) (ur_ID user) displayName hash role active fl = Inr fl' \<Longrightarrow> console_step env penv now e fl fl'"
| delete_user: "managed_user fl userID e = Some user \<Longrightarrow> ur_ID user \<noteq> sd_UserID e \<Longrightarrow>
    DeleteEnterpriseUser (ur_EnterpriseID user) (ur_ID user) fl = Inr fl' \<Longrightarrow> console_step env penv now e fl fl'"
| create_install: "CreateEnterpriseInstallToken env now (MutationEnterpriseID (tenant_scope e) requested) name expires m fl = Inr fl' \<Longrightarrow>
    console_step env penv now e fl fl'"
| ensure_install: "EnsurePersistentEnterpriseInstallToken env now (MutationEnterpriseID (tenant_scope e) requested) name fl = Inr fl' \<Longrightarrow>
    console_step env penv now e fl fl'"
| revoke_install: "RevokeEnterpriseInstallToken i (MutationEnterpriseID (tenant_scope e) requested) fl = Inr fl' \<Longrightarrow> console_step env penv now e fl fl'"
| create_session: "CreateEnrollmentToken env now ttl (MutationEnterpriseID (tenant_scope e) requested) fl = Inr (r, fl') \<Longrightarrow>
    console_step env penv now e fl fl'"
| new_policy: "CreateEnterprisePolicyWithRollout (te_randomID env) (MutationEnterpriseID (tenant_scope e) requested) pid strategy v typ status sids (fl_db fl) = Inr db' \<Longrightarrow>
    console_step env penv now e fl (fl\<lparr>fl_db := db'\<rparr>)"
| rollout: "EnterprisePolicyByID (fl_db fl) (ScopeEnterpriseID e) pid = Inr p \<Longrightarrow>
    CreatePolicyRollout (te_randomID env) (ep_ID p) (ep_EnterpriseID p) expected typ status v target targetSystem sids (fl_db fl) = Inr db' \<Longrightarrow>
    console_step env penv now e fl (fl\<lparr>fl_db := db'\<rparr>)"
| membership: "EnterprisePolicyByID (fl_db fl) (ScopeEnterpriseID e) pid = Inr p \<Longrightarrow>
    CreatePolicyMembershipRollout (te_randomID env) (ep_ID p) (ep_EnterpriseID p) sids (fl_db fl) = Inr db' \<Longrightarrow>
    console_step env penv now e fl (fl\<lparr>fl_db := db'\<rparr>)"
| convert: "EnterprisePolicyByID (fl_db fl) (ScopeEnterpriseID e) pid = Inr p \<Longrightarrow>
    ConvertLegacyEnterprisePolicy (te_randomID env) (ep_ID p) (ep_EnterpriseID p) expected v sids (fl_db fl) = Inr db' \<Longrightarrow>
    console_step env penv now e fl (fl\<lparr>fl_db := db'\<rparr>)"
| approve: "ApprovePolicyRollout (ScopeEnterpriseID e) pid rid expected (fl_db fl) = Inr db' \<Longrightarrow> console_step env penv now e fl (fl\<lparr>fl_db := db'\<rparr>)"
| retry: "RetryPolicyRollout (ScopeEnterpriseID e) pid rid expected (fl_db fl) = Inr db' \<Longrightarrow> console_step env penv now e fl (fl\<lparr>fl_db := db'\<rparr>)"
| strategy: "UpdateEnterprisePolicyStrategy (ScopeEnterpriseID e) pid expected strategy (fl_db fl) = Inr db' \<Longrightarrow>
    console_step env penv now e fl (fl\<lparr>fl_db := db'\<rparr>)"

section \<open>What belongs to other enterprises\<close>

text \<open>
  Keys are unique, and the enterprise that the queries give for a rollout is that of its policy.
\<close>

definition tenant_schema :: "database \<Rightarrow> bool" where
  "tenant_schema db \<longleftrightarrow> distinct (map srv_ID (db_servers db)) \<and> distinct (map ep_ID (db_policies db)) \<and>
     list_all (\<lambda>r. policy_of (ro_EnterpriseID r) db (ro_EnterprisePolicyID r)) (db_rollouts db)"

definition rollout_of :: "string \<Rightarrow> database \<Rightarrow> string \<Rightarrow> bool" where
  "rollout_of e db rolloutID \<longleftrightarrow> list_ex (\<lambda>r. ro_ID r = rolloutID \<and> ro_EnterpriseID r = e) (db_rollouts db)"

text \<open>
  The rows of \<open>db\<close> and \<open>fl\<close> that belong to other enterprises than \<open>e\<close>; the owner of a row that
  names a server or a rollout is looked up in \<open>db0\<close>, the database before the request. Policy revisions, the texts of
  deployments and the counter of random identifiers are not compared.
\<close>

definition foreign_db :: "string \<Rightarrow> database \<Rightarrow> database \<Rightarrow> database" where
  "foreign_db e db0 db =
     db\<lparr>db_policies := filter (\<lambda>p. ep_EnterpriseID p \<noteq> e) (db_policies db),
        db_revisions := [],
        db_rollouts := filter (\<lambda>r. ro_EnterpriseID r \<noteq> e) (db_rollouts db),
        db_targets := filter (\<lambda>t. \<not> server_of e db0 (pt_ServerID t) \<and> \<not> rollout_of e db0 (pt_RolloutID t)) (db_targets db),
        db_servers := filter (\<lambda>s. srv_EnterpriseID s \<noteq> e) (db_servers db),
        db_desired := filter (\<lambda>d. \<not> server_of e db0 (ds_ServerID d)) (db_desired db),
        db_policy_deployments := filter (\<lambda>d. \<not> server_of e db0 (pd_ServerID d)) (db_policy_deployments db),
        db_package_deployments := filter (\<lambda>d. \<not> server_of e db0 (kd_ServerID d)) (db_package_deployments db),
        db_policy_servers := filter (\<lambda>m. \<not> server_of e db0 (fst m)) (db_policy_servers db),
        db_incidents := filter (\<lambda>i. \<not> server_of e db0 (si_AgentID i)) (db_incidents db),
        db_ids := 0\<rparr>"

definition foreign :: "string \<Rightarrow> database \<Rightarrow> fleet \<Rightarrow> fleet" where
  "foreign e db0 fl =
     fl\<lparr>fl_db := foreign_db e db0 (fl_db fl),
        fl_users := filter (\<lambda>u. au_EnterpriseID u \<noteq> e) (fl_users fl),
        fl_installs := filter (\<lambda>t. it_EnterpriseID t \<noteq> e) (fl_installs fl),
        fl_enrollments := filter (\<lambda>t. et_EnterpriseID t \<noteq> e) (fl_enrollments fl),
        fl_commands := filter (\<lambda>c. \<not> server_of e db0 (cm_ServerID c)) (fl_commands fl),
        fl_serials := filter (\<lambda>s. \<not> server_of e db0 (fst s)) (fl_serials fl),
        fl_details := []\<rparr>"

lemma filter_update_where:
  assumes "\<And>x. x \<in> set xs \<Longrightarrow> P x \<Longrightarrow> \<not> Q x \<and> \<not> Q (f x)"
  shows "filter Q (update_where P f xs) = filter Q xs"
  using assms by (induction xs) (auto simp: update_where_def)

lemma update_where_origin: "r \<in> set (update_where P f xs) \<Longrightarrow> (\<And>x. g (f x) = g x) \<Longrightarrow> \<exists>x \<in> set xs. g x = g r"
  by (auto simp: update_where_def split: if_splits)

lemma filter_kept:
  assumes "\<And>x. x \<in> set xs \<Longrightarrow> \<not> P x \<Longrightarrow> \<not> Q x"
  shows "filter Q (filter P xs) = filter Q xs"
  using assms by (induction xs) auto

lemma filter_others:
  "server_of e db sid \<Longrightarrow> filter (\<lambda>x. \<not> server_of e db (g x)) (filter (\<lambda>x. g x \<noteq> sid) xs) = filter (\<lambda>x. \<not> server_of e db (g x)) xs"
  by (rule filter_kept) auto

text \<open>Each operation, on the tables it changes.\<close>

lemma in_scope_own: "list_ex (\<lambda>s. srv_ID s = sid \<and> P s \<and> in_scope e s) (db_servers db) \<Longrightarrow> e \<noteq> [] \<Longrightarrow> server_of e db sid"
  by (auto simp: list_ex_iff server_of_def in_scope_def)

lemma revoke_foreign:
  assumes "RevokeServer e sid fl = Inr fl'" "e \<noteq> []"
  shows "foreign e (fl_db fl) fl' = foreign e (fl_db fl) fl"
proof -
  let ?P = "\<lambda>s. srv_ID s = sid \<and> \<not> srv_Revoked s \<and> in_scope e s" and ?f = "\<lambda>s. s\<lparr>srv_Revoked := True\<rparr>"
  have c: "changed_rows ?P ?f (db_servers (fl_db fl)) = 1" and fl': "fl' = on_db (\<lambda>db. db\<lparr>db_servers := update_where ?P ?f (db_servers db),
      db_policy_servers := filter (\<lambda>m. fst m \<noteq> sid) (db_policy_servers db)\<rparr>) fl"
    using assms(1) by (auto simp: RevokeServer_def revoke_where_def Let_def split: if_splits)
  have "\<exists>s \<in> set (db_servers (fl_db fl)). ?P s"
  proof (rule ccontr)
    assume "\<not> ?thesis"
    then have "changed_rows ?P ?f (db_servers (fl_db fl)) = 0" by (auto simp: changed_rows_def filter_empty_conv)
    then show False using c by simp
  qed
  then have own: "server_of e (fl_db fl) sid" using assms(2) by (auto simp: server_of_def list_ex_iff in_scope_def)
  have "filter (\<lambda>s. srv_EnterpriseID s \<noteq> e) (update_where ?P ?f (db_servers (fl_db fl))) = filter (\<lambda>s. srv_EnterpriseID s \<noteq> e) (db_servers (fl_db fl))"
    by (rule filter_update_where) (use assms(2) in \<open>simp add: in_scope_def\<close>)
  moreover have "filter (\<lambda>m. \<not> server_of e (fl_db fl) (fst m)) (filter (\<lambda>m. fst m \<noteq> sid) (db_policy_servers (fl_db fl))) =
      filter (\<lambda>m. \<not> server_of e (fl_db fl) (fst m)) (db_policy_servers (fl_db fl))"
    by (rule filter_kept) (use own in auto)
  ultimately show ?thesis unfolding fl' by (simp add: foreign_def foreign_db_def on_db_def del: filter_filter)
qed

lemma delete_foreign:
  assumes "DeleteRevokedServer e sid fl = Inr fl'" "e \<noteq> []" "tenant_schema (fl_db fl)"
  shows "foreign e (fl_db fl) fl' = foreign e (fl_db fl) fl"
proof -
  have x: "list_ex (\<lambda>s. srv_ID s = sid \<and> srv_Revoked s \<and> in_scope e s) (db_servers (fl_db fl))"
    and fl': "fl' = on_db (delete_server_rows sid) (fl\<lparr>fl_commands := filter (\<lambda>c. cm_ServerID c \<noteq> sid) (fl_commands fl),
       fl_serials := AList.delete sid (fl_serials fl)\<rparr>)"
    using assms(1) by (auto simp: DeleteRevokedServer_def split: if_splits)
  have own: "server_of e (fl_db fl) sid" by (rule in_scope_own [OF x assms(2)])
  have eq: "srv_EnterpriseID s = e" if "s \<in> set (db_servers (fl_db fl))" "srv_ID s = sid" for s
  proof -
    obtain s' where "s' \<in> set (db_servers (fl_db fl))" "srv_ID s' = sid" "srv_EnterpriseID s' = e" using own by (auto simp: server_of_def list_ex_iff)
    moreover have "s' = s" using assms(3) that calculation by (auto simp: tenant_schema_def distinct_map inj_on_def)
    ultimately show ?thesis by simp
  qed
  note k = filter_others [OF own]
  have t: "filter (\<lambda>t. \<not> server_of e (fl_db fl) (pt_ServerID t) \<and> \<not> rollout_of e (fl_db fl) (pt_RolloutID t)) (filter (\<lambda>t. pt_ServerID t \<noteq> sid) (db_targets (fl_db fl))) =
      filter (\<lambda>t. \<not> server_of e (fl_db fl) (pt_ServerID t) \<and> \<not> rollout_of e (fl_db fl) (pt_RolloutID t)) (db_targets (fl_db fl))"
    by (rule filter_kept) (use own in auto)
  have s: "filter (\<lambda>s. srv_EnterpriseID s \<noteq> e) (filter (\<lambda>s. srv_ID s = sid \<longrightarrow> \<not> srv_Revoked s) (db_servers (fl_db fl))) =
      filter (\<lambda>s. srv_EnterpriseID s \<noteq> e) (db_servers (fl_db fl))"
    by (rule filter_kept) (use eq in auto)
  have d: "AList.delete sid xs = filter (\<lambda>x. fst x \<noteq> sid) xs" for xs :: "(string \<times> string) list"
    by (auto simp: AList.delete_eq case_prod_beta intro!: filter_cong)
  show ?thesis
    unfolding fl' foreign_def foreign_db_def on_db_def delete_server_rows_def d
    by (simp add: t s k del: filter_filter)
qed

lemma queue_foreign:
  assumes "QueueCommand env e sid command fl = Inr (i, fl')" "e \<noteq> []"
  shows "foreign e (fl_db fl) fl' = foreign e (fl_db fl) fl"
proof -
  have x: "list_ex (\<lambda>s. srv_ID s = sid \<and> \<not> srv_Revoked s \<and> in_scope e s) (db_servers (fl_db fl))"
    and fl': "fl' = (drawn 1 fl)\<lparr>fl_commands := fl_commands fl @ [\<lparr>cm_ID = i, cm_ServerID = sid, cm_Command = command, cm_Status = C_PENDING\<rparr>]\<rparr>"
    using assms(1) by (auto simp: QueueCommand_def Let_def split: if_splits)
  show ?thesis
    unfolding fl' using in_scope_own [OF x assms(2)] by (simp add: foreign_def foreign_db_def drawn_def)
qed

lemma assign_foreign:
  assumes "assign_deployment env sid aid mid plan desire fl = Inr (i, fl')" "server_of e (fl_db fl) sid"
    and "\<And>d. ds_ServerID (desire d) = ds_ServerID d"
  shows "foreign e (fl_db fl) fl' = foreign e (fl_db fl) fl"
proof -
  let ?P = "\<lambda>d. kd_ServerID d = sid \<and> kd_Status d = D_PENDING" and ?Q = "\<lambda>d. ds_ServerID d = sid"
  let ?rows = "update_where ?P (\<lambda>d. d\<lparr>kd_Status := SUPERSEDED\<rparr>) (db_package_deployments (fl_db fl))"
  have "filter (\<lambda>d. \<not> server_of e (fl_db fl) (kd_ServerID d)) ?rows = filter (\<lambda>d. \<not> server_of e (fl_db fl) (kd_ServerID d)) (db_package_deployments (fl_db fl))"
    by (rule filter_update_where) (use assms(2) in simp)
  moreover have "filter (\<lambda>d. \<not> server_of e (fl_db fl) (ds_ServerID d)) (update_where ?Q (\<lambda>d. (desire d)\<lparr>ds_PackageDeploymentID := i\<rparr>) (db_desired (fl_db fl))) =
      filter (\<lambda>d. \<not> server_of e (fl_db fl) (ds_ServerID d)) (db_desired (fl_db fl))"
    by (rule filter_update_where) (use assms(2,3) in simp)
  ultimately show ?thesis
    using assms(1,2)
    by (auto simp: assign_deployment_def Let_def foreign_def foreign_db_def on_db_def overwrite_details_def drawn_def supersede_packages_def
        split: if_splits)
qed

lemma assign_packages_foreign:
  assumes "AssignPackagesWithControl env penv e sid aid mid mode fl = Inr (i, fl')" "e \<noteq> []"
  shows "foreign e (fl_db fl) fl' = foreign e (fl_db fl) fl"
proof -
  obtain plan where one: "length (filter (\<lambda>s. srv_ID s = sid \<and> \<not> srv_Revoked s \<and> in_scope e s) (db_servers (fl_db fl))) = 1"
    and a: "assign_deployment env sid aid mid plan (\<lambda>d. d\<lparr>ds_AgentPackageID := aid, ds_ModulePackageID := mid\<rparr>) fl = Inr (i, fl')"
    using assms(1) by (auto simp: AssignPackagesWithControl_def split: sum.splits if_splits)
  have "list_ex (\<lambda>s. srv_ID s = sid \<and> \<not> srv_Revoked s \<and> in_scope e s) (db_servers (fl_db fl))"
  proof (rule ccontr)
    assume "\<not> ?thesis"
    then have "filter (\<lambda>s. srv_ID s = sid \<and> \<not> srv_Revoked s \<and> in_scope e s) (db_servers (fl_db fl)) = []"
      by (auto simp: list_ex_iff filter_empty_conv)
    then show False using one by simp
  qed
  from in_scope_own [OF this assms(2)] show ?thesis by (rule assign_foreign [OF a]) simp
qed

lemma assign_agent_foreign:
  assumes "AssignAgentPackage env penv e sid aid fl = Inr (i, fl')" "e \<noteq> []"
  shows "foreign e (fl_db fl) fl' = foreign e (fl_db fl) fl"
proof -
  obtain mid plan where x: "list_ex (\<lambda>s. srv_ID s = sid \<and> \<not> srv_Revoked s \<and> in_scope e s) (db_servers (fl_db fl))"
    and a: "assign_deployment env sid aid mid plan (\<lambda>d. d\<lparr>ds_AgentPackageID := aid\<rparr>) fl = Inr (i, fl')"
    using assms(1) by (auto simp: AssignAgentPackage_def split: sum.splits if_splits option.splits)
  from in_scope_own [OF x assms(2)] show ?thesis by (rule assign_foreign [OF a]) simp
qed

text \<open>Accounts and tokens.\<close>

lemma users_foreign:
  "CreateEnterpriseUser env e username displayName hash role fl = Inr fl' \<Longrightarrow> foreign e db0 fl' = foreign e db0 fl"
  "UpdateEnterpriseUser e userID displayName hash role active fl = Inr fl' \<Longrightarrow> foreign e db0 fl' = foreign e db0 fl"
  "DeleteEnterpriseUser e userID fl = Inr fl' \<Longrightarrow> foreign e db0 fl' = foreign e db0 fl"
proof -
  have u: "filter (\<lambda>u. au_EnterpriseID u \<noteq> e) (update_where (enterprise_user e userID) f (fl_users fl)) = filter (\<lambda>u. au_EnterpriseID u \<noteq> e) (fl_users fl)"
    if "\<And>u. au_EnterpriseID (f u) = au_EnterpriseID u" for f
    by (rule filter_update_where) (use that in \<open>simp add: enterprise_user_def\<close>)
  show "CreateEnterpriseUser env e username displayName hash role fl = Inr fl' \<Longrightarrow> foreign e db0 fl' = foreign e db0 fl"
    by (auto simp: CreateEnterpriseUser_def insert_user_def foreign_def foreign_db_def drawn_def split: if_splits)
  show "UpdateEnterpriseUser e userID displayName hash role active fl = Inr fl' \<Longrightarrow> foreign e db0 fl' = foreign e db0 fl"
    by (auto simp: UpdateEnterpriseUser_def foreign_def u split: if_splits option.splits)
  show "DeleteEnterpriseUser e userID fl = Inr fl' \<Longrightarrow> foreign e db0 fl' = foreign e db0 fl"
    by (auto simp: DeleteEnterpriseUser_def Let_def foreign_def u split: if_splits option.splits)
qed

lemma tokens_foreign:
  "CreateEnterpriseInstallToken env now e name expires m fl = Inr fl' \<Longrightarrow> foreign e db0 fl' = foreign e db0 fl"
  "EnsurePersistentEnterpriseInstallToken env now e name fl = Inr fl' \<Longrightarrow> foreign e db0 fl' = foreign e db0 fl"
  "RevokeEnterpriseInstallToken i e fl = Inr fl' \<Longrightarrow> e \<noteq> [] \<Longrightarrow> foreign e db0 fl' = foreign e db0 fl"
  "CreateEnrollmentToken env now ttl e fl = Inr (r, fl') \<Longrightarrow> foreign e db0 fl' = foreign e db0 fl"
proof -
  have t: "filter (\<lambda>t. it_EnterpriseID t \<noteq> e) (update_where (\<lambda>t. it_ID t = i \<and> \<not> it_Revoked t \<and> (e = [] \<or> it_EnterpriseID t = e))
      (\<lambda>t. t\<lparr>it_Revoked := True\<rparr>) (fl_installs fl)) = filter (\<lambda>t. it_EnterpriseID t \<noteq> e) (fl_installs fl)" if "e \<noteq> []"
    by (rule filter_update_where) (use that in simp)
  show "RevokeEnterpriseInstallToken i e fl = Inr fl' \<Longrightarrow> e \<noteq> [] \<Longrightarrow> foreign e db0 fl' = foreign e db0 fl"
    using t by (auto simp: RevokeEnterpriseInstallToken_def Let_def foreign_def split: if_splits)
qed (auto simp: CreateEnterpriseInstallToken_def EnsurePersistentEnterpriseInstallToken_def CreateEnrollmentToken_def insert_install_def
    insert_enrollment_def new_enrollment_def foreign_def foreign_db_def drawn_def split: if_splits sum.splits)

text \<open>Rollouts.\<close>

lemma foreign_database: "foreign_db e (fl_db fl) db' = foreign_db e (fl_db fl) (fl_db fl) \<Longrightarrow> foreign e (fl_db fl) (fl\<lparr>fl_db := db'\<rparr>) = foreign e (fl_db fl) fl"
  by (simp add: foreign_def)

lemma insert_targets_rows:
  "fold_result (insert_target_step rid fin) db (enumerate n sids) = Inr db' \<Longrightarrow>
     \<exists>ts. db' = db\<lparr>db_targets := db_targets db @ ts\<rparr> \<and> pt_ServerID ` set ts \<subseteq> set sids"
proof (induction sids arbitrary: n db)
  case (Cons s sids)
  from Cons.prems obtain d where d: "desired_of db s = Some d"
    and rest: "fold_result (insert_target_step rid fin) (db\<lparr>db_targets := db_targets db @ [new_target rid fin n d]\<rparr>) (enumerate (Suc n) sids) = Inr db'"
    by (cases "desired_of db s") (simp_all add: insert_target_step_def [of rid fin db "(n, s)"])
  obtain ts where "db' = db\<lparr>db_targets := (db_targets db @ [new_target rid fin n d]) @ ts\<rparr>" "pt_ServerID ` set ts \<subseteq> set sids"
    using Cons.IH [OF rest] by auto
  moreover have "ds_ServerID d = s"
  proof -
    have "P x" if "find P xs = Some x" for P x and xs :: "desired_state list" using that by (induction xs) (auto split: if_splits)
    then show ?thesis using d unfolding desired_of_def by blast
  qed
  ultimately show ?case
    by (intro exI [of _ "new_target rid fin n d # ts"]) (auto simp: new_target_def)
qed simp

lemma validated_own:
  assumes "validatePolicyRolloutServersTx db e sids = Inr ids"
  shows "\<forall>i \<in> set ids. server_of e db i"
proof -
  have f: "x \<in> set xs \<and> P x" if "find P xs = Some x" for P x and xs :: "server_row list" using that by (induction xs) (auto split: if_splits)
  have "server_of e db i" if "server_accessible db e i" for i
    using that f by (fastforce simp: server_accessible_def server_row_of_def server_of_def list_ex_iff split: option.splits)
  then have s: "validate_server_step db e acc x = Inr acc' \<Longrightarrow> \<forall>i \<in> set acc. server_of e db i \<Longrightarrow> \<forall>i \<in> set acc'. server_of e db i" for acc acc' x
    by (auto simp: validate_server_step_def split: if_splits)
  have "fold_result (validate_server_step db e) acc sids = Inr ids \<Longrightarrow> \<forall>i \<in> set acc. server_of e db i \<Longrightarrow> \<forall>i \<in> set ids. server_of e db i" for acc
    by (rule fold_result_inv [where I = "\<lambda>xs. \<forall>i \<in> set xs. server_of e db i"]) (use s in blast)+
  then show ?thesis using assms by (auto simp: validatePolicyRolloutServersTx_def split: sum.splits if_splits)
qed

lemma rollout_inserted_foreign:
  assumes "insert_with_targets r ids db = Inr db'" "ro_EnterpriseID r = e" "\<forall>i \<in> set ids. server_of e db0 i"
  shows "foreign_db e db0 db' = foreign_db e db0 db"
proof -
  let ?db = "db\<lparr>db_rollouts := db_rollouts db @ [r], db_ids := Suc (db_ids db)\<rparr>"
  have "insertRolloutTargetsTx (ro_ID r) (ro_TargetRevisionID r) ids ?db = Inr db'"
    using assms(1) by (auto simp: insert_with_targets_def insert_rollout_def split: if_splits)
  then obtain ts where "db' = ?db\<lparr>db_targets := db_targets ?db @ ts\<rparr>" "pt_ServerID ` set ts \<subseteq> set ids"
    using insert_targets_rows unfolding insertRolloutTargetsTx_def by blast
  moreover have "filter (\<lambda>t. \<not> server_of e db0 (pt_ServerID t) \<and> \<not> rollout_of e db0 (pt_RolloutID t)) ts = []"
    using calculation(2) assms(3) by (auto simp: filter_empty_conv)
  ultimately show ?thesis using assms(2) by (simp add: foreign_db_def)
qed

lemma revision_foreign: "insertPolicyRevisionTx v db = Inr db' \<Longrightarrow> foreign_db e db0 db' = foreign_db e db0 db"
  by (auto simp: insertPolicyRevisionTx_def foreign_db_def split: if_splits)

lemma optional_revision_foreign: "optional_revision v db = Inr db' \<Longrightarrow> foreign_db e db0 db' = foreign_db e db0 db"
  by (auto simp: optional_revision_def split: option.splits intro: revision_foreign)

lemma find_found: "find P xs = Some x \<Longrightarrow> x \<in> set xs \<and> P x"
  by (induction xs) (auto split: if_splits)

lemma new_rollout_enterprise [simp]: "ro_EnterpriseID (new_rollout randomID db p ty s from target v) = ep_EnterpriseID p"
  by (simp add: new_rollout_def)

lemma create_rollout_foreign:
  assumes "CreatePolicyRollout randomID pid e expected ty status v target targetSystem sids db = Inr db'"
  shows "foreign_db e db db' = foreign_db e db db"
proof -
  obtain policy ids db1 where policy: "find (\<lambda>p. ep_ID p = pid \<and> ep_EnterpriseID p = e) (db_policies db) = Some policy"
    and ids: "optional_servers db e sids = Inr ids" and rev: "optional_revision v db = Inr db1"
    and ins: "insert_with_targets (new_rollout randomID db1 policy ty status (ep_CurrentRevisionID policy)
      (case v of None \<Rightarrow> target | Some r \<Rightarrow> rv_ID r) targetSystem) ids db1 = Inr db'"
    using assms by (auto simp: CreatePolicyRollout_def split: if_splits option.splits sum.splits)
  have "\<forall>i \<in> set ids. server_of e db i" using ids validated_own by (auto simp: optional_servers_def split: if_splits sum.splits option.splits)
  then have "foreign_db e db db' = foreign_db e db db1"
    by (rule rollout_inserted_foreign [OF ins, rotated]) (use find_found [OF policy] in simp)
  then show ?thesis using optional_revision_foreign [OF rev] by simp
qed

lemma membership_foreign:
  assumes "CreatePolicyMembershipRollout randomID pid e sids db = Inr db'"
  shows "foreign_db e db db' = foreign_db e db db"
proof -
  obtain policy validated where policy: "find (\<lambda>p. ep_ID p = pid \<and> ep_EnterpriseID p = e \<and> ep_Status p = ''ACTIVE'') (db_policies db) = Some policy"
    and v: "validatePolicyRolloutServersTx db e sids = Inr validated"
    and r: "db' = db \<or>
      insert_with_targets (new_rollout randomID db policy SEED QUEUED (ep_CurrentRevisionID policy) (ep_CurrentRevisionID policy)
        (ep_CurrentSystemPolicyID policy)) (filter (\<lambda>i. map_of (db_policy_servers db) i \<noteq> Some pid) validated) db = Inr db'"
    using assms by (auto simp: CreatePolicyMembershipRollout_def Let_def split: if_splits option.splits sum.splits)
  have "\<forall>i \<in> set (filter (\<lambda>i. map_of (db_policy_servers db) i \<noteq> Some pid) validated). server_of e db i" using validated_own [OF v] by simp
  then show ?thesis using r rollout_inserted_foreign find_found [OF policy] by (metis new_rollout_enterprise)
qed

lemma convert_foreign:
  assumes "ConvertLegacyEnterprisePolicy randomID pid e expected v sids db = Inr db'"
  shows "foreign_db e db db' = foreign_db e db db"
proof -
  let ?P = "\<lambda>p. ep_ID p = pid \<and> ep_EnterpriseID p = e \<and> ep_Status p = ''LEGACY_LOCKED'' \<and> ep_CurrentRevisionID p = expected"
  let ?db = "db\<lparr>db_policies := update_where ?P unlock_policy (db_policies db)\<rparr>"
  obtain policy ids db1 where policy: "find ?P (db_policies db) = Some policy" and ids: "validatePolicyRolloutServersTx db e sids = Inr ids"
    and rev: "insertPolicyRevisionTx v ?db = Inr db1"
    and ins: "insert_with_targets (new_rollout randomID db1 policy UPDATE QUEUED expected (rv_ID v) (rv_SystemPolicyVersionID v)) ids db1 = Inr db'"
    using assms by (auto simp: ConvertLegacyEnterprisePolicy_def Let_def split: if_splits option.splits sum.splits)
  have "foreign_db e db db' = foreign_db e db db1"
    by (rule rollout_inserted_foreign [OF ins]) (use find_found [OF policy] validated_own [OF ids] in auto)
  moreover have "filter (\<lambda>p. ep_EnterpriseID p \<noteq> e) (update_where ?P unlock_policy (db_policies db)) = filter (\<lambda>p. ep_EnterpriseID p \<noteq> e) (db_policies db)"
    by (rule filter_update_where) (simp add: unlock_policy_def)
  then have "foreign_db e db ?db = foreign_db e db db" by (simp add: foreign_db_def)
  ultimately show ?thesis using revision_foreign [OF rev] by simp
qed

lemma new_policy_foreign:
  assumes "CreateEnterprisePolicyWithRollout randomID e pid strategy v ty status sids db = Inr db'"
  shows "foreign_db e db db' = foreign_db e db db"
proof -
  obtain ids db1 where ids: "validatePolicyRolloutServersTx db e sids = Inr ids"
    and rev: "insertPolicyRevisionTx v (db\<lparr>db_policies := db_policies db @ [new_policy pid e strategy]\<rparr>) = Inr db1"
    and ins: "insert_with_targets (new_rollout randomID db1 (new_policy pid e strategy) ty status [] (rv_ID v) (rv_SystemPolicyVersionID v)) ids db1 = Inr db'"
    using assms by (auto simp: CreateEnterprisePolicyWithRollout_def Let_def split: if_splits option.splits sum.splits)
  have "foreign_db e db db' = foreign_db e db db1"
    by (rule rollout_inserted_foreign [OF ins]) (use validated_own [OF ids] in \<open>auto simp: new_policy_def\<close>)
  moreover have "foreign_db e db (db\<lparr>db_policies := db_policies db @ [new_policy pid e strategy]\<rparr>) = foreign_db e db db"
    by (simp add: foreign_db_def new_policy_def)
  ultimately show ?thesis using revision_foreign [OF rev] by simp
qed

lemma approve_foreign:
  assumes "ApprovePolicyRollout e pid rid expected db = Inr db'" "e \<noteq> []"
  shows "foreign_db e db db' = foreign_db e db db"
proof -
  let ?P = "rollout_guard db e pid rid expected [AWAITING_APPROVAL]"
  have "filter (\<lambda>r. ro_EnterpriseID r \<noteq> e) (update_where ?P (set_rollout_status QUEUED None) (db_rollouts db)) = filter (\<lambda>r. ro_EnterpriseID r \<noteq> e) (db_rollouts db)"
    by (rule filter_update_where) (use assms(2) in \<open>simp add: rollout_guard_def set_rollout_status_def\<close>)
  then show ?thesis using assms(1) by (auto simp: ApprovePolicyRollout_def Let_def foreign_db_def split: if_splits)
qed

lemma retry_foreign:
  assumes "RetryPolicyRollout e pid rid expected db = Inr db'" "e \<noteq> []"
  shows "foreign_db e db db' = foreign_db e db db"
proof -
  let ?P = "rollout_guard db e pid rid expected [PAUSED, R_FAILED]" and ?f = "set_rollout_status QUEUED None"
  have c: "changed_rows ?P ?f (db_rollouts db) = 1"
    and db': "db' = db\<lparr>db_rollouts := update_where ?P ?f (db_rollouts db), db_targets := update_where (retryable rid) retry_target (db_targets db)\<rparr>"
    using assms(1) by (auto simp: RetryPolicyRollout_def Let_def split: if_splits option.splits)
  have "\<exists>r \<in> set (db_rollouts db). ?P r"
  proof (rule ccontr)
    assume "\<not> ?thesis"
    then have "changed_rows ?P ?f (db_rollouts db) = 0" by (auto simp: changed_rows_def filter_empty_conv)
    then show False using c by simp
  qed
  then have own: "rollout_of e db rid" using assms(2) by (auto simp: rollout_of_def rollout_guard_def list_ex_iff)
  have "filter (\<lambda>r. ro_EnterpriseID r \<noteq> e) (update_where ?P ?f (db_rollouts db)) = filter (\<lambda>r. ro_EnterpriseID r \<noteq> e) (db_rollouts db)"
    by (rule filter_update_where) (use assms(2) in \<open>simp add: rollout_guard_def set_rollout_status_def\<close>)
  moreover have "filter (\<lambda>t. \<not> server_of e db (pt_ServerID t) \<and> \<not> rollout_of e db (pt_RolloutID t)) (update_where (retryable rid) retry_target (db_targets db)) =
      filter (\<lambda>t. \<not> server_of e db (pt_ServerID t) \<and> \<not> rollout_of e db (pt_RolloutID t)) (db_targets db)"
    by (rule filter_update_where) (use own in \<open>simp add: retryable_def retry_target_def\<close>)
  ultimately show ?thesis unfolding db' by (simp add: foreign_db_def)
qed

lemma strategy_foreign:
  assumes "UpdateEnterprisePolicyStrategy e pid expected strategy db = Inr db'" "e \<noteq> []" "tenant_schema db"
  shows "foreign_db e db db' = foreign_db e db db"
proof -
  let ?w = "\<lambda>r. ro_EnterprisePolicyID r = pid \<and> ro_Status r = AWAITING_APPROVAL"
  let ?rs1 = "if strategy = ''PINNED'' then update_where ?w (set_rollout_status CANCELLED (Some PinnedByUser)) (db_rollouts db) else db_rollouts db"
  let ?rs2 = "if strategy = ''AUTOMATIC'' then update_where (\<lambda>r. ?w r \<and> ro_ExpectedRevisionID r = expected) (set_rollout_status QUEUED None) ?rs1 else ?rs1"
  let ?ps = "update_where (\<lambda>p. ep_ID p = pid) (\<lambda>p. p\<lparr>ep_UpdateStrategy := strategy\<rparr>) (db_policies db)"
  let ?G = "\<lambda>p. ep_ID p = pid \<and> ep_Status p = ''ACTIVE'' \<and> lockActiveEnterprise db (ep_EnterpriseID p) \<and>
    ep_CurrentRevisionID p = expected \<and> (e = [] \<or> ep_EnterpriseID p = e)"
  have m: "List.member [''MANUAL'', ''AUTOMATIC'', ''PINNED''] strategy"
    by (rule ccontr) (use assms(1) in \<open>simp add: UpdateEnterprisePolicyStrategy_def\<close>)
  have "find ?G (db_policies db) \<noteq> None"
  proof
    assume "find ?G (db_policies db) = None"
    then show False using assms(1) unfolding UpdateEnterprisePolicyStrategy_def by (simp only: m simp_thms if_False option.case sum.distinct)
  qed
  then obtain policy where f: "find ?G (db_policies db) = Some policy" by blast
  then have p: "policy \<in> set (db_policies db)" "ep_ID policy = pid" "ep_EnterpriseID policy = e"
    using find_found [OF f] assms(2) by auto
  have "Inr (db\<lparr>db_policies := ?ps, db_rollouts := ?rs2\<rparr>) = (Inr db' :: rollout_error + database)"
    using assms(1) unfolding UpdateEnterprisePolicyStrategy_def by (simp only: m f simp_thms if_False option.case Let_def)
  then have db': "db' = db\<lparr>db_policies := ?ps, db_rollouts := ?rs2\<rparr>" by blast
  have own: "ep_EnterpriseID q = e" if "q \<in> set (db_policies db)" "ep_ID q = pid" for q
  proof -
    have "q = policy" using assms(3) that p by (auto simp: tenant_schema_def distinct_map inj_on_def)
    then show ?thesis using p by simp
  qed
  have ro: "ro_EnterpriseID r = e" if "r \<in> set (db_rollouts db)" "ro_EnterprisePolicyID r = pid" for r
  proof -
    have "policy_of (ro_EnterpriseID r) db (ro_EnterprisePolicyID r)" using assms(3) \<open>r \<in> set (db_rollouts db)\<close> by (simp add: tenant_schema_def list_all_iff)
    then obtain q where "q \<in> set (db_policies db)" "ep_ID q = pid" "ep_EnterpriseID q = ro_EnterpriseID r"
      using \<open>ro_EnterprisePolicyID r = pid\<close> by (auto simp: policy_of_def list_ex_iff)
    then show ?thesis using own by metis
  qed
  have ro1: "ro_EnterpriseID r = e" if "r \<in> set ?rs1" "ro_EnterprisePolicyID r = pid" for r
  proof -
    let ?g = "\<lambda>r. (ro_EnterprisePolicyID r, ro_EnterpriseID r)"
    have "\<exists>q \<in> set (db_rollouts db). ?g q = ?g r"
      using that(1) update_where_origin [where g = ?g and f = "set_rollout_status CANCELLED (Some PinnedByUser)"]
      by (cases "strategy = ''PINNED''") (simp_all add: set_rollout_status_def, blast)
    then show ?thesis using ro that(2) by (metis prod.inject)
  qed
  have "filter (\<lambda>p. ep_EnterpriseID p \<noteq> e) ?ps = filter (\<lambda>p. ep_EnterpriseID p \<noteq> e) (db_policies db)"
    by (rule filter_update_where) (use own in simp)
  moreover have "filter (\<lambda>r. ro_EnterpriseID r \<noteq> e) (update_where ?w f (db_rollouts db)) = filter (\<lambda>r. ro_EnterpriseID r \<noteq> e) (db_rollouts db)"
    if "\<And>r. ro_EnterpriseID (f r) = ro_EnterpriseID r" for f
    by (rule filter_update_where) (use ro that in simp)
  then have "filter (\<lambda>r. ro_EnterpriseID r \<noteq> e) ?rs1 = filter (\<lambda>r. ro_EnterpriseID r \<noteq> e) (db_rollouts db)" by (simp add: set_rollout_status_def)
  moreover have "filter (\<lambda>r. ro_EnterpriseID r \<noteq> e) ?rs2 = filter (\<lambda>r. ro_EnterpriseID r \<noteq> e) ?rs1"
  proof (cases "strategy = ''AUTOMATIC''")
    case True
    have "filter (\<lambda>r. ro_EnterpriseID r \<noteq> e) (update_where (\<lambda>r. ?w r \<and> ro_ExpectedRevisionID r = expected) (set_rollout_status QUEUED None) ?rs1) =
        filter (\<lambda>r. ro_EnterpriseID r \<noteq> e) ?rs1"
      by (rule filter_update_where) (use ro1 in \<open>simp add: set_rollout_status_def\<close>)
    then show ?thesis using True by simp
  qed simp
  ultimately show ?thesis unfolding db' by (simp add: foreign_db_def)
qed

text \<open>
  Every operation of the enterprise console.
\<close>

lemmas database_foreign = create_rollout_foreign membership_foreign convert_foreign new_policy_foreign approve_foreign retry_foreign strategy_foreign

lemma policy_in_scope: "EnterprisePolicyByID db e pid = Inr p \<Longrightarrow> e \<noteq> [] \<Longrightarrow> ep_EnterpriseID p = e"
  by (auto simp: EnterprisePolicyByID_def split: option.splits dest: find_found)

lemma managed_user_own: "managed_user fl userID e = Some user \<Longrightarrow> ur_EnterpriseID user = sd_EnterpriseID e"
  by (auto simp: managed_user_def userManagementEnterpriseID_def trim_space_def trim_by_def split: option.splits if_splits)

lemma console_step_foreign:
  assumes "console_step env penv now e fl fl'" "E \<noteq> []" "tenant_schema (fl_db fl)"
    and E: "ScopeEnterpriseID e = E" "sd_EnterpriseID e = E" "\<And>requested. MutationEnterpriseID (tenant_scope e) requested = E"
  shows "foreign E (fl_db fl) fl' = foreign E (fl_db fl) fl"
proof -
  have u: "userManagementEnterpriseID [] e = E" using E(2) by (simp add: userManagementEnterpriseID_def trim_space_def trim_by_def)
  show ?thesis
    using assms(1)
  proof (cases rule: console_step.cases)
    case (revoke_server sid)
    then show ?thesis using revoke_foreign assms(2) E by metis
  next
    case (delete_server sid)
    then show ?thesis using delete_foreign assms(2,3) E by metis
  next
    case (queue_command sid command i)
    then show ?thesis using queue_foreign assms(2) E by metis
  next
    case (assign_packages sid aid mid mode i)
    then show ?thesis using assign_packages_foreign assms(2) E by metis
  next
    case (assign_agent sid aid i)
    then show ?thesis using assign_agent_foreign assms(2) E by metis
  next
    case (create_user username displayName hash role)
    then show ?thesis using users_foreign(1) u by metis
  next
    case (update_user userID user displayName hash role active)
    then show ?thesis using users_foreign(2) managed_user_own E(2) by metis
  next
    case (delete_user userID user)
    then show ?thesis using users_foreign(3) managed_user_own E(2) by metis
  next
    case (create_install requested name expires m)
    then show ?thesis using tokens_foreign(1) E(3) by metis
  next
    case (ensure_install requested name)
    then show ?thesis using tokens_foreign(2) E(3) by metis
  next
    case (revoke_install i requested)
    then show ?thesis using tokens_foreign(3) E(3) assms(2) by metis
  next
    case (create_session ttl requested r)
    then show ?thesis using tokens_foreign(4) E(3) by metis
  next
    case (new_policy requested pid strategy v ty status sids db')
    then show ?thesis using foreign_database new_policy_foreign E(3) by metis
  next
    case (rollout pid p expected ty status v target targetSystem sids db')
    then show ?thesis using foreign_database create_rollout_foreign policy_in_scope assms(2) E(1) by metis
  next
    case (membership pid p sids db')
    then show ?thesis using foreign_database membership_foreign policy_in_scope assms(2) E(1) by metis
  next
    case (convert pid p expected v sids db')
    then show ?thesis using foreign_database convert_foreign policy_in_scope assms(2) E(1) by metis
  next
    case (approve pid rid expected db')
    then show ?thesis using foreign_database approve_foreign assms(2) E(1) by metis
  next
    case (retry pid rid expected db')
    then show ?thesis using foreign_database retry_foreign assms(2) E(1) by metis
  next
    case (strategy pid expected strat db')
    then show ?thesis using foreign_database strategy_foreign assms(2,3) E(1) by metis
  qed
qed

section \<open>Tenants are kept apart\<close>

text \<open>C27:
  tenants are kept apart. A session of the enterprise console belongs to an account with an enterprise, and
  that enterprise, never another one and never all of them, is the scope of its queries and the target of its
  changes, whatever enterprise a request names; a system administrator's session is no exception. Every
  operation of the console leaves the servers, accounts, tokens, commands, policies, rollouts, targets, desired states,
  deployments and incidents of all other enterprises as they were, and reads no policy of another one. (\<open>tenant_schema\<close>
  says that keys are unique and that a rollout is read with the enterprise of its policy.)
\<close>

theorem tenant_isolation:
  assumes "requireAdmin aenv (UserByID fl) cookie at0 = Some s" "requireEnterpriseConsole s = Some e"
    and "console_step env penv now e fl fl'" "tenant_schema (fl_db fl)"
  shows "\<exists>v. UserByID fl (sd_UserID s) = Some v \<and> ur_EnterpriseID v \<noteq> [] \<and>
     ScopeEnterpriseID e = ur_EnterpriseID v \<and>
     (\<forall>requested. ReadEnterpriseID (tenant_scope e) requested = ur_EnterpriseID v \<and>
        MutationEnterpriseID (tenant_scope e) requested = ur_EnterpriseID v) \<and>
     foreign (ur_EnterpriseID v) (fl_db fl) fl' = foreign (ur_EnterpriseID v) (fl_db fl) fl \<and>
     (\<forall>pid p. EnterprisePolicyByID (fl_db fl) (ScopeEnterpriseID e) pid = Inr p \<longrightarrow> ep_EnterpriseID p = ur_EnterpriseID v)"
proof -
  obtain v where v: "UserByID fl (sd_UserID s) = Some v" "sd_Role s = ur_Role v" "sd_ActualRole s = ur_Role v" "sd_EnterpriseID s = ur_EnterpriseID v"
    using requireAdminE[OF assms(1)] by metis
  have r: "sd_ActualRole s = sd_Role s" using v by simp
  note scope = scope_enterprise[OF assms(2) r] console_scope[OF assms(2) r]
  have "foreign (ur_EnterpriseID v) (fl_db fl) fl' = foreign (ur_EnterpriseID v) (fl_db fl) fl"
    by (rule console_step_foreign[OF assms(3) _ assms(4)]) (use scope v(4) in simp_all)
  then show ?thesis using v scope policy_in_scope[of "fl_db fl" "sd_EnterpriseID s"] by (intro exI[of _ v]) auto
qed

text \<open>
  A system administrator whose home is \<open>e1\<close> revokes a server of \<open>e1\<close> in the enterprise console; a server of \<open>e2\<close> stands beside it.
\<close>

definition console_admin :: admin_user where
  "console_admin = \<lparr>au_ID = ''u1'', au_EnterpriseID = ''e1'', au_Username = ''kim'', au_DisplayName = ''Kim'',
     au_PasswordHash = ur_PasswordHash sample_user, au_Role = RoleSystemAdmin, au_Active = True, au_Deleted = False\<rparr>"

definition console_server :: "string \<Rightarrow> string \<Rightarrow> server_row" where
  "console_server sid e = new_server sid e ''web'' \<lparr>inv_CRSVersion = [], inv_PolicyFormats = [], inv_InstallationStage = [],
     inv_InstallationMode = [], inv_ConnectorLoaded = True, inv_ConfigTestOK = True\<rparr>"

definition console_fleet :: fleet where
  "console_fleet =
     \<lparr>fl_db = \<lparr>db_active_enterprises = [''e1'', ''e2''], db_policies = [], db_revisions = [], db_rollouts = [], db_targets = [],
        db_servers = [console_server ''s1'' ''e1'', console_server ''s2'' ''e2''],
        db_desired = [], db_policy_deployments = [], db_package_deployments = [], db_policy_servers = [], db_incidents = [], db_ids = 0\<rparr>,
      fl_enterprises = [], fl_users = [console_admin], fl_installs = [], fl_enrollments = [], fl_commands = [], fl_serials = [], fl_details = []\<rparr>"

definition console_revoked :: fleet where
  "console_revoked = (case RevokeServer ''e1'' ''s1'' console_fleet of Inl _ \<Rightarrow> console_fleet | Inr fl \<Rightarrow> fl)"

lemma console_admitted:
  "\<exists>token s. requireAdmin sample_access (UserByID console_fleet) (Some token) hour = Some s \<and> sd_UserID s = ''u1'' \<and>
     sd_EnterpriseID s = ''e1'' \<and> sd_Role s = RoleSystemAdmin \<and> sd_ActualRole s = RoleSystemAdmin"
proof -
  obtain token where c: "create_session sample_access sample_user ''random'' 0 = Some (token, sample_session)"
    using sample_created by blast
  have p: "parse_session sample_access token hour = Some sample_session"
    using parse_created[OF sample_access_ok c, of hour]
    by (simp add: sample_access_def sample_user_def roleAtLeast_def role_level_def role_names unix_def)
  have u: "UserByID console_fleet ''u1'' = Some (user_record console_fleet console_admin)"
    by (simp add: UserByID_def console_fleet_def console_admin_def lockActiveEnterprise_def)
  have "sd_CredentialTag sample_session = credentialTag sample_access (au_PasswordHash console_admin)" "sd_UserID sample_session = ''u1''"
    by (simp_all add: sample_session_def console_admin_def credentialTag_def sample_access_def sample_user_def)
  then have "\<exists>s. requireAdmin sample_access (UserByID console_fleet) (Some token) hour = Some s \<and> sd_UserID s = ''u1'' \<and>
     sd_EnterpriseID s = ''e1'' \<and> sd_Role s = RoleSystemAdmin \<and> sd_ActualRole s = RoleSystemAdmin"
    by (simp add: requireAdmin_def p[simplified] u user_record_def secureEqual_def) (simp add: console_admin_def)
  then show ?thesis by blast
qed

lemma tenant_isolation_witness:
  "\<exists>token s e. requireAdmin sample_access (UserByID console_fleet) (Some token) hour = Some s \<and>
     requireEnterpriseConsole s = Some e \<and> MutationEnterpriseID (tenant_scope e) ''e2'' = ''e1'' \<and>
     foreign ''e1'' (fl_db console_fleet) console_revoked = foreign ''e1'' (fl_db console_fleet) console_fleet"
proof -
  obtain token s where a: "requireAdmin sample_access (UserByID console_fleet) (Some token) hour = Some s"
    and s: "sd_UserID s = ''u1''" "sd_EnterpriseID s = ''e1''" "sd_Role s = RoleSystemAdmin" "sd_ActualRole s = RoleSystemAdmin"
    using console_admitted by blast
  have "requireEnterpriseConsole s \<noteq> None"
    using s by (simp add: requireEnterpriseConsole_def asEnterpriseConsole_def Let_def trim_space_def trim_by_def is_space_def
        special_chars)
  then obtain e where e: "requireEnterpriseConsole s = Some e" by blast
  have scope: "ScopeEnterpriseID e = ''e1''" using console_scope(1)[OF e] s by simp
  have "\<not> isl (RevokeServer ''e1'' ''s1'' console_fleet)" by code_simp
  then have rev: "RevokeServer (ScopeEnterpriseID e) ''s1'' console_fleet = Inr console_revoked" unfolding scope by (auto simp: console_revoked_def split: sum.splits)
  have step: "console_step env penv now e console_fleet console_revoked" for env penv now
    by (rule console_step.revoke_server [OF rev])
  have "tenant_schema (fl_db console_fleet)" by code_simp
  from tenant_isolation[OF a e step this] have "MutationEnterpriseID (tenant_scope e) ''e2'' = ''e1'' \<and>
      foreign ''e1'' (fl_db console_fleet) console_revoked = foreign ''e1'' (fl_db console_fleet) console_fleet"
    unfolding scope by metis
  then show ?thesis using a e by blast
qed

end
