(* ===== verification/Events.thy ===== *)
theory Events
  imports Fleet Agent_Audit Rollout_Invariants
begin

text \<open>
  Security events in the Manager: the handler of event batches (\<^verbatim>\<open>eventBatch\<close> in \<^verbatim>\<open>server.go\<close>), the incidents into which
  events are gathered (\<^verbatim>\<open>incidents.go\<close>, \<^verbatim>\<open>store_incidents.go\<close>), the transaction that stores them
  (\<^verbatim>\<open>InsertEventBatch\<close> in \<^verbatim>\<open>store.go\<close>) and the pruning of old rows. \<^verbatim>\<open>net.ParseIP\<close> (with the reserved networks of \<^verbatim>\<open>geoip.go\<close>),
  the lookup in the GeoIP database, the rule tags of a revision and random identifiers are arguments. Comparisons of the database are
  equality. The database is in its strict mode: a value outside its column fails the statement. Such a value can only be in a column that
  the handler does not cut (\<open>columns_fit\<close>), and the failure of a statement rolls the whole transaction back. A server without enterprise
  has the empty enterprise. The end-to-end theorem composes this with the agent's delivery (\<open>Agent_Audit\<close>).
\<close>

section \<open>Events and incidents\<close>

record received_event = SecurityEvent +
  rx_Service :: string
  rx_CountryCode :: string

record event_row =
  sv_ID :: nat
  sv_IncidentID :: nat
  sv_AgentID :: string
  sv_BatchID :: string
  sv_ClientIP :: "string option"
  sv_Event :: received_event
  sv_CreatedAt :: time

record incident_row =
  ic_ID :: nat
  ic_EnterpriseID :: string
  ic_AgentID :: string
  ic_Key :: string
  ic_OccurredAt :: time
  ic_Category :: string
  ic_ClientIP :: "string option"
  ic_CountryCode :: string
  ic_Method :: string
  ic_URI :: string
  ic_StatusCode :: int
  ic_Blocked :: bool
  ic_PrimaryEventID :: "nat option"
  ic_PolicyRevision :: string

record batch_row =
  bt_AgentID :: string
  bt_BatchID :: string
  bt_EventCount :: nat
  bt_CommittedAt :: time

record event_store =
  es_servers :: "server_row list"
  es_batches :: "batch_row list"
  es_events :: "event_row list"
  es_incidents :: "incident_row list"
  es_next_event :: nat
  es_next_incident :: nat
  es_ids :: nat

record event_env =
  ee_parse_ip :: "string \<Rightarrow> (string \<times> string) option"
  ee_reserved :: "string \<Rightarrow> bool"
  ee_country :: "string \<Rightarrow> (string \<times> string) option"
  ee_rule_tags :: "string \<Rightarrow> (int \<Rightarrow> string list) option"
  ee_randomID :: "nat \<Rightarrow> string"

datatype event_error = BadBatch | ServerNotFound | DuplicateEvent | ColumnTooLong | BadPruneLimit | NullEnterprise

definition AttackCategoryHTTPProtocol :: string where "AttackCategoryHTTPProtocol = ''HTTP_PROTOCOL''"
definition AttackCategoryInjection :: string where "AttackCategoryInjection = ''INJECTION''"
definition AttackCategoryXSS :: string where "AttackCategoryXSS = ''XSS''"
definition AttackCategoryFilePath :: string where "AttackCategoryFilePath = ''FILE_PATH''"
definition AttackCategoryScannerBot :: string where "AttackCategoryScannerBot = ''SCANNER_BOT''"
definition AttackCategoryOther :: string where "AttackCategoryOther = ''OTHER''"

lemmas category_names = AttackCategoryHTTPProtocol_def AttackCategoryInjection_def AttackCategoryXSS_def AttackCategoryFilePath_def
  AttackCategoryScannerBot_def AttackCategoryOther_def

definition validateIncidentCategory :: "string \<Rightarrow> bool" where
  "validateIncidentCategory v \<longleftrightarrow> List.member [[], AttackCategoryHTTPProtocol, AttackCategoryInjection, AttackCategoryXSS,
     AttackCategoryFilePath, AttackCategoryScannerBot, AttackCategoryOther] v"

definition incidentKey :: "'a received_event_scheme \<Rightarrow> string" where
  "incidentKey e =
     (let request = trim_space (se_RequestID e); transaction = trim_space (se_TransactionID e)
      in if request \<noteq> [] then truncate_text request 128
         else if transaction \<noteq> [] then truncate_text transaction 128 else truncate_text (se_EventID e) 128)"

definition isSummaryRule :: "string \<Rightarrow> bool" where
  "isSummaryRule ruleID \<longleftrightarrow>
     (let r = trim_space ruleID in has_prefix r ''949'' \<or> has_prefix r ''959'' \<or> has_prefix r ''980'')"

definition containsAny :: "string \<Rightarrow> string list \<Rightarrow> bool" where
  "containsAny v needles \<longleftrightarrow> list_ex (contains v) needles"

definition classifySecurityEvent :: "'a received_event_scheme \<Rightarrow> string" where
  "classifySecurityEvent e =
     (let joined = to_lower (join '' '' (se_RuleTags e) @ '' '' @ se_Message e)
      in if contains joined ''attack-xss'' \<or> contains joined ''cross-site scripting'' then AttackCategoryXSS
         else if containsAny joined [''attack-sqli'', ''attack-injection'', ''attack-rce'', ''command-injection'', ''sql injection'',
           ''remote code execution''] then AttackCategoryInjection
         else if containsAny joined [''attack-lfi'', ''attack-rfi'', ''path-traversal'', ''file-upload'', ''file inclusion'',
           ''directory traversal''] then AttackCategoryFilePath
         else if containsAny joined [''scanner'', ''automation'', ''bot'', ''reputation'', ''user-agent''] then AttackCategoryScannerBot
         else if containsAny joined [''protocol'', ''method-enforcement'', ''protocol-enforcement'', ''http-policy'', ''encoding'']
           then AttackCategoryHTTPProtocol
         else AttackCategoryOther)"

text \<open>Rules that only sum up come last, then events without a category of attack.\<close>

definition primary_less :: "received_event \<Rightarrow> received_event \<Rightarrow> bool" where
  "primary_less a b =
     (let left = isSummaryRule (se_RuleID a); right = isSummaryRule (se_RuleID b)
      in if left \<noteq> right then \<not> left
         else classifySecurityEvent a \<noteq> AttackCategoryOther \<and> classifySecurityEvent b = AttackCategoryOther)"

definition selectPrimaryEvent :: "received_event list \<Rightarrow> received_event option" where
  "selectPrimaryEvent events = (case sort_by primary_less events of [] \<Rightarrow> None | e # _ \<Rightarrow> Some e)"

definition canonicalEventIP :: "event_env \<Rightarrow> string \<Rightarrow> string \<times> string option" where
  "canonicalEventIP env v = (case ee_parse_ip env (trim_space v) of None \<Rightarrow> ([], None) | Some (t, b) \<Rightarrow> (t, Some b))"

definition upper_char :: "char \<Rightarrow> char" where
  "upper_char c = (if is_lower c then char_of (of_char c - (32::int)) else c)"

text \<open>The country of an address: its own or else the one it is registered in, as the database has them.\<close>

definition CountryCode :: "event_env \<Rightarrow> string \<Rightarrow> string" where
  "CountryCode env v =
     (case ee_parse_ip env (trim_space v) of
        None \<Rightarrow> ''ZZ''
      | Some (_, b) \<Rightarrow>
          if ee_reserved env b then ''--''
          else case ee_country env b of
              None \<Rightarrow> ''ZZ''
            | Some (country, registered) \<Rightarrow>
                let own = map upper_char (trim_space country);
                    code = (if own = [] then map upper_char (trim_space registered) else own)
                in if length code \<noteq> 2 then ''ZZ'' else code)"

definition normalizeEventRuleTags :: "string list \<Rightarrow> string list" where
  "normalizeEventRuleTags tags = take 32 (unique_loop (\<lambda>t. t = []) [] (map (\<lambda>t. truncate_text (trim_space t) 255) tags))"

text \<open>Events without tags take those of their rule in the rule set of their revision.\<close>

definition enrich_event :: "event_env \<Rightarrow> received_event \<Rightarrow> received_event" where
  "enrich_event env e =
     (if se_RuleTags e \<noteq> [] \<or> se_PolicyRevision e = [] \<or> isSummaryRule (se_RuleID e) then e
      else case atoi (trim_space (se_RuleID e)) of
          (_, Some _) \<Rightarrow> e
        | (n, None) \<Rightarrow>
            if n \<le> 0 then e
            else (case ee_rule_tags env (se_PolicyRevision e) of
                    None \<Rightarrow> e | Some tags \<Rightarrow> e\<lparr>se_RuleTags := normalizeEventRuleTags (tags n)\<rparr>))"

section \<open>The store\<close>

definition category_rank :: "string \<Rightarrow> nat" where
  "category_rank c =
     (case map_of (zip [''OTHER'', ''HTTP_PROTOCOL'', ''SCANNER_BOT'', ''FILE_PATH'', ''INJECTION'', ''XSS''] [1, 2, 3, 4, 5, 6]) c of
        None \<Rightarrow> 0 | Some n \<Rightarrow> n)"

definition event_country :: "received_event \<Rightarrow> string" where
  "event_country e = (let country = map upper_char (trim_space (rx_CountryCode e)) in if country = [] then ''ZZ'' else country)"

definition new_incident :: "event_env \<Rightarrow> nat \<Rightarrow> string \<Rightarrow> string \<Rightarrow> string \<Rightarrow> received_event \<Rightarrow> bool \<Rightarrow> incident_row" where
  "new_incident env i enterpriseID serverID key primary blocked =
     \<lparr>ic_ID = i, ic_EnterpriseID = enterpriseID, ic_AgentID = serverID, ic_Key = key, ic_OccurredAt = se_OccurredAt primary,
      ic_Category = classifySecurityEvent primary, ic_ClientIP = snd (canonicalEventIP env (se_ClientIP primary)),
      ic_CountryCode = event_country primary, ic_Method = se_Method primary, ic_URI = se_URI primary, ic_StatusCode = se_StatusCode primary,
      ic_Blocked = blocked, ic_PrimaryEventID = None, ic_PolicyRevision = se_PolicyRevision primary\<rparr>"

text \<open>\<^verbatim>\<open>ON DUPLICATE KEY UPDATE\<close>: the row that is there, merged with the values of the new one.\<close>

definition merge_incident :: "incident_row \<Rightarrow> incident_row \<Rightarrow> incident_row" where
  "merge_incident v r =
     r\<lparr>ic_OccurredAt := min (ic_OccurredAt r) (ic_OccurredAt v),
       ic_Category := (if category_rank (ic_Category v) > category_rank (ic_Category r) then ic_Category v else ic_Category r),
       ic_ClientIP := (case ic_ClientIP r of None \<Rightarrow> ic_ClientIP v | Some b \<Rightarrow> Some b),
       ic_CountryCode := (if ic_CountryCode r = ''ZZ'' then ic_CountryCode v else ic_CountryCode r),
       ic_Blocked := (ic_Blocked r \<or> ic_Blocked v),
       ic_PolicyRevision := (if ic_PolicyRevision r = [] then ic_PolicyRevision v else ic_PolicyRevision r)\<rparr>"

definition of_incident :: "string \<Rightarrow> string \<Rightarrow> incident_row \<Rightarrow> bool" where
  "of_incident serverID key r \<longleftrightarrow> ic_AgentID r = serverID \<and> ic_Key r = key"

definition insertIncidentTx :: "event_env \<Rightarrow> string \<Rightarrow> string \<Rightarrow> string \<Rightarrow> received_event list \<Rightarrow> event_store \<Rightarrow> nat \<times> event_store" where
  "insertIncidentTx env enterpriseID serverID key events st =
     (case selectPrimaryEvent events of
        None \<Rightarrow> (0, st)
      | Some primary \<Rightarrow>
          let v = new_incident env (es_next_incident st) enterpriseID serverID key primary (list_ex se_Blocked events)
          in case find (of_incident serverID key) (es_incidents st) of
               Some r \<Rightarrow> (ic_ID r, st\<lparr>es_incidents := update_where (of_incident serverID key) (merge_incident v) (es_incidents st)\<rparr>)
             | None \<Rightarrow> (ic_ID v, st\<lparr>es_incidents := es_incidents st @ [v], es_next_incident := Suc (es_next_incident st)\<rparr>))"

text \<open>The groups stand in the order of their first events.\<close>

definition groups_of :: "received_event list \<Rightarrow> string list" where
  "groups_of events = unique_loop (\<lambda>_. False) [] (map incidentKey events)"

definition group_step ::
  "event_env \<Rightarrow> string \<Rightarrow> string \<Rightarrow> received_event list \<Rightarrow> string \<Rightarrow> (string \<times> nat) list \<times> event_store \<Rightarrow> (string \<times> nat) list \<times> event_store" where
  "group_step env enterpriseID serverID events key acc =
     (case insertIncidentTx env enterpriseID serverID key (filter (\<lambda>e. incidentKey e = key) events) (snd acc) of
        (i, st) \<Rightarrow> ((key, i) # fst acc, st))"

definition insert_incidents :: "event_env \<Rightarrow> string \<Rightarrow> string \<Rightarrow> received_event list \<Rightarrow> event_store \<Rightarrow> (string \<times> nat) list \<times> event_store" where
  "insert_incidents env enterpriseID serverID events st =
     fold (group_step env enterpriseID serverID events) (groups_of events) ([], st)"

definition incident_of :: "(string \<times> nat) list \<Rightarrow> received_event \<Rightarrow> nat" where
  "incident_of ids e = (case map_of ids (incidentKey e) of None \<Rightarrow> 0 | Some i \<Rightarrow> i)"

text \<open>One statement inserts all rows, or none when an identifier of an event is taken.\<close>

fun insert_events :: "event_env \<Rightarrow> time \<Rightarrow> string \<Rightarrow> string \<Rightarrow> (string \<times> nat) list \<Rightarrow> received_event list \<Rightarrow> event_store \<Rightarrow> event_error + event_store" where
  "insert_events env now serverID batchID ids [] st = Inr st"
| "insert_events env now serverID batchID ids (e # es) st =
     (if list_ex (\<lambda>r. sv_AgentID r = serverID \<and> se_EventID (sv_Event r) = se_EventID e) (es_events st) then Inl DuplicateEvent
      else insert_events env now serverID batchID ids es
             (st\<lparr>es_events := es_events st @ [\<lparr>sv_ID = es_next_event st, sv_IncidentID = incident_of ids e, sv_AgentID = serverID,
                    sv_BatchID = batchID, sv_ClientIP = snd (canonicalEventIP env (se_ClientIP e)), sv_Event = e, sv_CreatedAt = now\<rparr>],
                 es_next_event := Suc (es_next_event st)\<rparr>))"

text \<open>The first event of an incident that is not a summary, or else its first event; the rows stand in the order of their numbers.\<close>

definition row_summary :: "event_row \<Rightarrow> bool" where
  "row_summary r \<longleftrightarrow> (let rule = se_RuleID (sv_Event r) in has_prefix rule ''949'' \<or> has_prefix rule ''959'' \<or> has_prefix rule ''980'')"

definition primary_row :: "event_store \<Rightarrow> nat \<Rightarrow> nat option" where
  "primary_row st i =
     (let rows = filter (\<lambda>r. sv_IncidentID r = i) (es_events st)
      in case find (\<lambda>r. \<not> row_summary r) rows of
           Some r \<Rightarrow> Some (sv_ID r)
         | None \<Rightarrow> (case rows of [] \<Rightarrow> None | r # _ \<Rightarrow> Some (sv_ID r)))"

definition set_primaries :: "('k \<times> nat) list \<Rightarrow> event_store \<Rightarrow> event_store" where
  "set_primaries ids st =
     st\<lparr>es_incidents := update_where (\<lambda>r. ic_ID r \<in> snd ` set ids) (\<lambda>r. r\<lparr>ic_PrimaryEventID := primary_row st (ic_ID r)\<rparr>) (es_incidents st)\<rparr>"

text \<open>
  The columns of \<^verbatim>\<open>security_events\<close> that the handler leaves as they are, with their widths and ranges (migration 001): \<^verbatim>\<open>event_id\<close>,
  \<^verbatim>\<open>severity\<close>, \<^verbatim>\<open>policy_revision\<close>, \<^verbatim>\<open>status_code\<close> and \<^verbatim>\<open>occurred_at\<close>. A \<^verbatim>\<open>TIMESTAMP\<close> of the database in use lies between 1970 and 2106.
\<close>

definition runes :: "string \<Rightarrow> nat" where
  "runes v = length (filter (\<lambda>c. \<not> continues c) v)"

definition timestamp_ok :: "time \<Rightarrow> bool" where
  "timestamp_ok t \<longleftrightarrow> second \<le> t \<and> t < 4294967296 * second"

definition columns_fit :: "received_event \<Rightarrow> bool" where
  "columns_fit e \<longleftrightarrow> runes (se_EventID e) \<le> 128 \<and> runes (se_Severity e) \<le> 32 \<and> runes (se_PolicyRevision e) \<le> 128 \<and>
     0 \<le> se_StatusCode e \<and> se_StatusCode e \<le> 65535 \<and> timestamp_ok (se_OccurredAt e)"

text \<open>
  The result tells whether the batch was known already. \<^verbatim>\<open>INSERT IGNORE\<close> changes no row for a known batch, and none for a
  server that is gone.
\<close>

definition known_batch :: "string \<Rightarrow> string \<Rightarrow> event_store \<Rightarrow> bool" where
  "known_batch serverID batchID st \<longleftrightarrow> list_ex (\<lambda>b. bt_AgentID b = serverID \<and> bt_BatchID b = batchID) (es_batches st)"

definition InsertEventBatch ::
  "event_env \<Rightarrow> time \<Rightarrow> string \<Rightarrow> string \<Rightarrow> received_event list \<Rightarrow> event_store \<Rightarrow> event_error + (bool \<times> event_store)" where
  "InsertEventBatch env now serverID batchID events st =
     (if known_batch serverID batchID st \<or> \<not> list_ex (\<lambda>s. srv_ID s = serverID) (es_servers st) then Inr (True, st)
      else case find (\<lambda>s. srv_ID s = serverID \<and> \<not> srv_Revoked s) (es_servers st) of
          None \<Rightarrow> Inl ServerNotFound
        | Some s \<Rightarrow>
            if srv_EnterpriseID s = [] then Inl ServerNotFound
            else if \<not> list_all columns_fit events then Inl ColumnTooLong
            else let st1 = st\<lparr>es_batches := es_batches st @ [\<lparr>bt_AgentID = serverID, bt_BatchID = batchID,
                       bt_EventCount = length events, bt_CommittedAt = now\<rparr>]\<rparr>
                 in case insert_incidents env (srv_EnterpriseID s) serverID events st1 of
                      (ids, st2) \<Rightarrow>
                        if events = [] then Inr (False, st2)
                        else (case insert_events env now serverID batchID ids events st2 of
                                Inl e \<Rightarrow> Inl e | Inr st3 \<Rightarrow> Inr (False, set_primaries ids st3)))"

section \<open>The handler\<close>

definition receive :: "SecurityEvent \<Rightarrow> received_event" where
  "receive e = SecurityEvent.extend e (received_event.fields [] [])"

text \<open>The zero \<^verbatim>\<open>time.Time\<close> is the first instant of the year 1.\<close>

definition zero_time :: time where
  "zero_time = - 62135596800 * second"

definition settle_time :: "time \<Rightarrow> time \<Rightarrow> time" where
  "settle_time now t = (if t = zero_time \<or> now + 5 * minute < t then now else t)"

definition settle_event :: "event_env \<Rightarrow> time \<Rightarrow> string \<Rightarrow> received_event \<Rightarrow> received_event" where
  "settle_event env now freshID e =
     (let ip = fst (canonicalEventIP env (se_ClientIP e))
      in e\<lparr>se_EventID := (if se_EventID e = [] then freshID else se_EventID e),
           se_OccurredAt := settle_time now (se_OccurredAt e),
           se_URI := truncate_text (se_URI e) 2048, se_RequestID := truncate_text (trim_space (se_RequestID e)) 128,
           se_TransactionID := truncate_text (trim_space (se_TransactionID e)) 255,
           rx_Service := truncate_text (trim_space (rx_Service e)) 255, se_Method := truncate_text (trim_space (se_Method e)) 16,
           se_ClientIP := ip, rx_CountryCode := CountryCode env ip, se_Message := truncate_text (se_Message e) 2048,
           se_MatchedVariable := truncate_text (trim_space (se_MatchedVariable e)) 512, se_RuleID := truncate_text (se_RuleID e) 64,
           se_RuleTags := normalizeEventRuleTags (se_RuleTags e)\<rparr>)"

definition settle_events :: "event_env \<Rightarrow> time \<Rightarrow> nat \<Rightarrow> received_event list \<Rightarrow> received_event list" where
  "settle_events env now n events =
     map (\<lambda>(i, e). enrich_event env (settle_event env now (ee_randomID env (n + i)) e)) (enumerate 0 events)"

text \<open>The answer of an accepted batch tells whether it was known.\<close>

definition eventBatch :: "event_env \<Rightarrow> time \<Rightarrow> string \<Rightarrow> EventBatch \<Rightarrow> event_store \<Rightarrow> event_error + (bool \<times> event_store)" where
  "eventBatch env now serverID batch st =
     (if eb_BatchID batch = [] \<or> eb_Events batch = [] \<or> length (eb_Events batch) > 500 then Inl BadBatch
      else InsertEventBatch env now serverID (truncate_text (eb_BatchID batch) 128)
             (settle_events env now (es_ids st) (map receive (eb_Events batch))) (st\<lparr>es_ids := es_ids st + length (eb_Events batch)\<rparr>))"

section \<open>Pruning\<close>

definition prune_where :: "('r \<Rightarrow> bool) \<Rightarrow> ('r \<Rightarrow> time) \<Rightarrow> nat \<Rightarrow> 'r list \<Rightarrow> 'r list" where
  "prune_where P moment n rows =
     (let gone = take n (sort_by (\<lambda>a b. moment a < moment b) (filter P rows)) in filter (\<lambda>r. r \<notin> set gone) rows)"

definition PruneEvents :: "time \<Rightarrow> int \<Rightarrow> event_store \<Rightarrow> event_error + event_store" where
  "PruneEvents before n st =
     (if n < 1 \<or> n > 10000 then Inl BadPruneLimit
      else Inr (st\<lparr>es_events := prune_where (\<lambda>r. se_OccurredAt (sv_Event r) < before) (\<lambda>r. se_OccurredAt (sv_Event r)) (nat n) (es_events st)\<rparr>))"

definition PruneEventBatches :: "time \<Rightarrow> int \<Rightarrow> event_store \<Rightarrow> event_error + event_store" where
  "PruneEventBatches before n st =
     (if n < 1 \<or> n > 10000 then Inl BadPruneLimit
      else Inr (st\<lparr>es_batches := prune_where (\<lambda>b. bt_CommittedAt b < before) bt_CommittedAt (nat n) (es_batches st)\<rparr>))"

definition PruneIncidents :: "time \<Rightarrow> int \<Rightarrow> event_store \<Rightarrow> event_error + event_store" where
  "PruneIncidents before n st =
     (if n < 1 \<or> n > 10000 then Inl BadPruneLimit
      else Inr (st\<lparr>es_incidents := prune_where
             (\<lambda>i. ic_OccurredAt i < before \<and> \<not> list_ex (\<lambda>r. sv_IncidentID r = ic_ID i) (es_events st)) ic_OccurredAt (nat n) (es_incidents st)\<rparr>))"

section \<open>Every event has its incident\<close>

definition incidents_ok :: "event_store \<Rightarrow> bool" where
  "incidents_ok st \<longleftrightarrow> distinct (map ic_ID (es_incidents st)) \<and> distinct (map (\<lambda>r. (ic_AgentID r, ic_Key r)) (es_incidents st)) \<and>
     (\<forall>r \<in> set (es_incidents st). ic_ID r < es_next_incident st)"

definition incidents_extend :: "event_store \<Rightarrow> event_store \<Rightarrow> bool" where
  "incidents_extend st st' \<longleftrightarrow> es_events st' = es_events st \<and> es_next_event st' = es_next_event st \<and> es_batches st' = es_batches st \<and>
     (\<forall>r \<in> set (es_incidents st). \<exists>r' \<in> set (es_incidents st'). ic_ID r' = ic_ID r \<and> ic_AgentID r' = ic_AgentID r \<and> ic_Key r' = ic_Key r \<and>
        (ic_Blocked r \<longrightarrow> ic_Blocked r'))"

text \<open>The incident of an event: of the same server, with its key, and blocked when the event was.\<close>

definition gathers :: "event_store \<Rightarrow> nat \<Rightarrow> string \<Rightarrow> string \<Rightarrow> bool \<Rightarrow> bool" where
  "gathers st i serverID key blocked \<longleftrightarrow>
     (\<exists>r \<in> set (es_incidents st). ic_ID r = i \<and> ic_AgentID r = serverID \<and> ic_Key r = key \<and> (blocked \<longrightarrow> ic_Blocked r))"

lemma incidents_extend_refl: "incidents_extend st st"
  by (auto simp: incidents_extend_def)

lemma incidents_extend_trans:
  assumes "incidents_extend st st1" "incidents_extend st1 st2"
  shows "incidents_extend st st2"
proof -
  have "\<exists>r2 \<in> set (es_incidents st2). ic_ID r2 = ic_ID r \<and> ic_AgentID r2 = ic_AgentID r \<and> ic_Key r2 = ic_Key r \<and> (ic_Blocked r \<longrightarrow> ic_Blocked r2)"
    if r: "r \<in> set (es_incidents st)" for r
  proof -
    obtain r1 where "r1 \<in> set (es_incidents st1)" "ic_ID r1 = ic_ID r" "ic_AgentID r1 = ic_AgentID r" "ic_Key r1 = ic_Key r" "ic_Blocked r \<longrightarrow> ic_Blocked r1"
      using assms(1) r unfolding incidents_extend_def by blast
    moreover from this(1) obtain r2 where "r2 \<in> set (es_incidents st2)" "ic_ID r2 = ic_ID r1" "ic_AgentID r2 = ic_AgentID r1" "ic_Key r2 = ic_Key r1"
        "ic_Blocked r1 \<longrightarrow> ic_Blocked r2"
      using assms(2) unfolding incidents_extend_def by blast
    ultimately show ?thesis by auto
  qed
  then show ?thesis using assms unfolding incidents_extend_def by auto
qed

lemma gathers_extend: "incidents_extend st st' \<Longrightarrow> gathers st i sid key b \<Longrightarrow> gathers st' i sid key b"
proof -
  assume ext: "incidents_extend st st'" and "gathers st i sid key b"
  then obtain r where r: "r \<in> set (es_incidents st)" "ic_ID r = i" "ic_AgentID r = sid" "ic_Key r = key" "b \<longrightarrow> ic_Blocked r"
    by (auto simp: gathers_def)
  with ext obtain r' where "r' \<in> set (es_incidents st')" "ic_ID r' = ic_ID r" "ic_AgentID r' = ic_AgentID r" "ic_Key r' = ic_Key r"
      "ic_Blocked r \<longrightarrow> ic_Blocked r'"
    unfolding incidents_extend_def by blast
  with r show ?thesis unfolding gathers_def by (intro bexI[of _ r']) auto
qed

lemma select_some: "events \<noteq> [] \<Longrightarrow> \<exists>e. selectPrimaryEvent events = Some e"
proof -
  assume "events \<noteq> []"
  then have "sort_by primary_less events \<noteq> []" by (metis length_0_conv length_sort_by)
  then show ?thesis by (cases "sort_by primary_less events") (auto simp: selectPrimaryEvent_def)
qed

lemma merge_simps [simp]:
  "ic_ID (merge_incident v r) = ic_ID r" "ic_AgentID (merge_incident v r) = ic_AgentID r" "ic_Key (merge_incident v r) = ic_Key r"
  "ic_Blocked (merge_incident v r) = (ic_Blocked r \<or> ic_Blocked v)"
  by (simp_all add: merge_incident_def)

lemma insertIncidentTx_ok:
  assumes "insertIncidentTx env eid sid key events st = (i, st')" "incidents_ok st" "events \<noteq> []"
  shows "incidents_ok st' \<and> incidents_extend st st' \<and> gathers st' i sid key (list_ex se_Blocked events)"
proof -
  obtain primary where p: "selectPrimaryEvent events = Some primary" using select_some[OF assms(3)] by blast
  let ?v = "new_incident env (es_next_incident st) eid sid key primary (list_ex se_Blocked events)"
  show ?thesis
  proof (cases "find (of_incident sid key) (es_incidents st)")
    case None
    then have none: "\<forall>r \<in> set (es_incidents st). \<not> of_incident sid key r" by (simp add: find_None_iff)
    have st': "i = es_next_incident st" "st' = st\<lparr>es_incidents := es_incidents st @ [?v], es_next_incident := Suc (es_next_incident st)\<rparr>"
      using assms(1) by (auto simp: insertIncidentTx_def p None Let_def new_incident_def)
    show ?thesis using assms(2) none
      by (auto simp: st' incidents_ok_def incidents_extend_def gathers_def new_incident_def of_incident_def less_Suc_eq)
  next
    case (Some r)
    let ?f = "\<lambda>x. if of_incident sid key x then merge_incident ?v x else x"
    have r: "r \<in> set (es_incidents st)" "of_incident sid key r" using Some by (auto dest: find_Some)
    have st': "i = ic_ID r" "st' = st\<lparr>es_incidents := map ?f (es_incidents st)\<rparr>"
      using assms(1) by (auto simp: insertIncidentTx_def p Some Let_def update_where_def)
    have keys: "ic_ID (?f x) = ic_ID x" "ic_AgentID (?f x) = ic_AgentID x" "ic_Key (?f x) = ic_Key x" for x by simp_all
    have blocked: "ic_Blocked x \<Longrightarrow> ic_Blocked (?f x)" for x by simp
    have "map ic_ID (map ?f (es_incidents st)) = map ic_ID (es_incidents st)"
      "map (\<lambda>r. (ic_AgentID r, ic_Key r)) (map ?f (es_incidents st)) = map (\<lambda>r. (ic_AgentID r, ic_Key r)) (es_incidents st)"
      by auto
    then have "incidents_ok st'" using assms(2) unfolding incidents_ok_def st' by (auto simp del: map_map)
    moreover have "\<exists>x' \<in> set (es_incidents st'). ic_ID x' = ic_ID x \<and> ic_AgentID x' = ic_AgentID x \<and> ic_Key x' = ic_Key x \<and>
        (ic_Blocked x \<longrightarrow> ic_Blocked x')" if "x \<in> set (es_incidents st)" for x
      using that keys[of x] blocked[of x] by (intro bexI[of _ "?f x"]) (simp_all add: st'(2))
    then have "incidents_extend st st'" unfolding incidents_extend_def st'(2) by simp
    moreover have "gathers st' i sid key (list_ex se_Blocked events)"
      unfolding gathers_def st' using r by (intro bexI[of _ "?f r"]) (auto simp: of_incident_def new_incident_def)
    ultimately show ?thesis by blast
  qed
qed

lemma group_fold:
  assumes "incidents_ok st" "\<And>key. key \<in> set keys \<Longrightarrow> filter (\<lambda>e. incidentKey e = key) events \<noteq> []" "distinct keys"
    and "\<forall>key i. map_of ids key = Some i \<longrightarrow> gathers st i sid key (list_ex se_Blocked (filter (\<lambda>e. incidentKey e = key) events))"
    and "fold (group_step env eid sid events) keys (ids, st) = (ids', st')"
  shows "incidents_ok st' \<and> incidents_extend st st' \<and>
    (\<forall>key i. map_of ids' key = Some i \<longrightarrow> gathers st' i sid key (list_ex se_Blocked (filter (\<lambda>e. incidentKey e = key) events))) \<and>
    dom (map_of ids') = dom (map_of ids) \<union> set keys"
  using assms
proof (induction keys arbitrary: ids st)
  case Nil
  then show ?case by (auto simp: incidents_extend_refl)
next
  case (Cons key keys)
  let ?E = "filter (\<lambda>e. incidentKey e = key) events"
  obtain i st1 where one: "insertIncidentTx env eid sid key ?E st = (i, st1)" by fastforce
  from insertIncidentTx_ok[OF this Cons.prems(1)] Cons.prems(2)[of key]
  have st1: "incidents_ok st1" "incidents_extend st st1" "gathers st1 i sid key (list_ex se_Blocked ?E)" by auto
  have "\<forall>k j. map_of ((key, i) # ids) k = Some j \<longrightarrow> gathers st1 j sid k (list_ex se_Blocked (filter (\<lambda>e. incidentKey e = k) events))"
    using Cons.prems(4) st1(3) gathers_extend[OF st1(2)] by auto
  from Cons.IH[OF st1(1) _ _ this] Cons.prems(2,3,5)
  have "incidents_ok st' \<and> incidents_extend st1 st' \<and>
    (\<forall>key i. map_of ids' key = Some i \<longrightarrow> gathers st' i sid key (list_ex se_Blocked (filter (\<lambda>e. incidentKey e = key) events))) \<and>
    dom (map_of ids') = dom (map_of ((key, i) # ids)) \<union> set keys"
    by (auto simp: group_step_def one)
  then show ?case using incidents_extend_trans[OF st1(2)] by auto
qed

lemma insert_incidents_ok:
  assumes "insert_incidents env eid sid events st = (ids, st')" "incidents_ok st"
  shows "incidents_ok st' \<and> incidents_extend st st' \<and> (\<forall>e \<in> set events. gathers st' (incident_of ids e) sid (incidentKey e) (se_Blocked e))"
proof -
  have keys: "set (groups_of events) = incidentKey ` set events" "distinct (groups_of events)"
    by (auto simp: groups_of_def set_unique_loop)
  have "key \<in> set (groups_of events) \<Longrightarrow> filter (\<lambda>e. incidentKey e = key) events \<noteq> []" for key
    by (auto simp: keys filter_empty_conv)
  from group_fold[OF assms(2) this keys(2) _ assms(1)[unfolded insert_incidents_def]]
  have all: "incidents_ok st'" "incidents_extend st st'"
      "\<forall>key i. map_of ids key = Some i \<longrightarrow> gathers st' i sid key (list_ex se_Blocked (filter (\<lambda>e. incidentKey e = key) events))"
      "dom (map_of ids) = incidentKey ` set events"
    by (simp_all add: keys)
  have "gathers st' (incident_of ids e) sid (incidentKey e) (se_Blocked e)" if e: "e \<in> set events" for e
  proof -
    obtain i where i: "map_of ids (incidentKey e) = Some i" using all(4) e by blast
    with all(3) have "gathers st' i sid (incidentKey e) (list_ex se_Blocked (filter (\<lambda>x. incidentKey x = incidentKey e) events))" by blast
    then show ?thesis using e i by (auto simp: gathers_def incident_of_def list_ex_iff)
  qed
  with all show ?thesis by blast
qed

text \<open>Removing a server removes its events, its incidents and its batches (\<^verbatim>\<open>DeleteRevokedServer\<close>).\<close>

definition forget_server :: "string \<Rightarrow> event_store \<Rightarrow> event_store" where
  "forget_server serverID st =
     st\<lparr>es_events := filter (\<lambda>r. sv_AgentID r \<noteq> serverID) (es_events st),
        es_incidents := filter (\<lambda>r. ic_AgentID r \<noteq> serverID) (es_incidents st),
        es_batches := filter (\<lambda>b. bt_AgentID b \<noteq> serverID) (es_batches st)\<rparr>"

definition event_key :: "event_row \<Rightarrow> string \<times> string" where
  "event_key r = (sv_AgentID r, se_EventID (sv_Event r))"

definition filed :: "event_store \<Rightarrow> event_row \<Rightarrow> bool" where
  "filed st r \<longleftrightarrow> gathers st (sv_IncidentID r) (sv_AgentID r) (incidentKey (sv_Event r)) (se_Blocked (sv_Event r))"

definition events_ok :: "event_store \<Rightarrow> bool" where
  "events_ok st \<longleftrightarrow> incidents_ok st \<and> distinct (map event_key (es_events st)) \<and> (\<forall>r \<in> set (es_events st). filed st r)"

lemma filed_extend: "incidents_extend st st' \<Longrightarrow> filed st r \<Longrightarrow> filed st' r"
  by (simp add: filed_def gathers_extend)

lemma gathers_incidents: "es_incidents st' = es_incidents st \<Longrightarrow> gathers st' = gathers st"
  by (intro ext) (simp add: gathers_def)

lemma insert_events_ok:
  assumes "insert_events env now sid bid ids es st = Inr st'"
  shows "es_incidents st' = es_incidents st \<and> es_next_incident st' = es_next_incident st \<and> es_batches st' = es_batches st \<and>
    es_servers st' = es_servers st \<and> map event_key (es_events st') = map event_key (es_events st) @ map (\<lambda>e. (sid, se_EventID e)) es \<and>
    (\<forall>r \<in> set (es_events st'). r \<in> set (es_events st) \<or> sv_AgentID r = sid \<and> sv_BatchID r = bid \<and> sv_Event r \<in> set es \<and> sv_IncidentID r = incident_of ids (sv_Event r))"
  using assms
proof (induction es arbitrary: st)
  case (Cons e es)
  let ?r = "\<lparr>sv_ID = es_next_event st, sv_IncidentID = incident_of ids e, sv_AgentID = sid, sv_BatchID = bid,
    sv_ClientIP = snd (canonicalEventIP env (se_ClientIP e)), sv_Event = e, sv_CreatedAt = now\<rparr>"
  let ?s = "st\<lparr>es_events := es_events st @ [?r], es_next_event := Suc (es_next_event st)\<rparr>"
  have rest: "insert_events env now sid bid ids es ?s = Inr st'" using Cons.prems by (simp split: if_splits)
  have "event_key ?r = (sid, se_EventID e)" by (simp add: event_key_def)
  then show ?case using Cons.IH[OF rest] by auto
qed simp

lemma insert_events_refused:
  "(\<exists>st'. insert_events env now sid bid ids es st = Inr st') \<longleftrightarrow>
     distinct (map se_EventID es) \<and> (\<forall>e \<in> set es. (sid, se_EventID e) \<notin> event_key ` set (es_events st))"
proof (induction es arbitrary: st)
  case (Cons e es)
  then show ?case by (auto simp: list_ex_iff event_key_def image_iff)
qed simp

lemma insert_events_distinct:
  assumes "insert_events env now sid bid ids es st = Inr st'" "distinct (map event_key (es_events st))"
  shows "distinct (map event_key (es_events st'))"
proof -
  have "distinct (map se_EventID es)" "\<forall>e \<in> set es. (sid, se_EventID e) \<notin> event_key ` set (es_events st)"
    using insert_events_refused[of env now sid bid ids es st] assms(1) by blast+
  then have "distinct (map event_key (es_events st) @ map (\<lambda>e. (sid, se_EventID e)) es)"
    using assms(2) by (auto simp: distinct_map inj_on_def)
  then show ?thesis using insert_events_ok[OF assms(1)] by metis
qed

lemma insert_events_error: "insert_events env now sid bid ids es st = Inl x \<Longrightarrow> x = DuplicateEvent"
  by (induction es arbitrary: st) (auto split: if_splits)

lemma set_primaries_ok:
  "incidents_extend st (set_primaries ids st)" "incidents_ok st \<Longrightarrow> incidents_ok (set_primaries ids st)"
  "es_events (set_primaries ids st) = es_events st" "es_batches (set_primaries ids st) = es_batches st" "es_servers (set_primaries ids st) = es_servers st"
proof -
  let ?f = "\<lambda>r. if ic_ID r \<in> snd ` set ids then r\<lparr>ic_PrimaryEventID := primary_row st (ic_ID r)\<rparr> else r"
  have s: "set_primaries ids st = st\<lparr>es_incidents := map ?f (es_incidents st)\<rparr>" by (simp add: set_primaries_def update_where_def)
  have f: "ic_ID (?f r) = ic_ID r" "ic_AgentID (?f r) = ic_AgentID r" "ic_Key (?f r) = ic_Key r" "ic_Blocked (?f r) = ic_Blocked r" for r by simp_all
  show "es_events (set_primaries ids st) = es_events st" "es_batches (set_primaries ids st) = es_batches st" "es_servers (set_primaries ids st) = es_servers st"
    by (simp_all add: s)
  have "\<exists>r' \<in> set (map ?f (es_incidents st)). ic_ID r' = ic_ID r \<and> ic_AgentID r' = ic_AgentID r \<and> ic_Key r' = ic_Key r \<and> (ic_Blocked r \<longrightarrow> ic_Blocked r')"
    if "r \<in> set (es_incidents st)" for r
    using that f[of r] by (intro bexI[of _ "?f r"]) simp_all
  then show "incidents_extend st (set_primaries ids st)" unfolding incidents_extend_def s by simp
  have "map ic_ID (map ?f (es_incidents st)) = map ic_ID (es_incidents st)"
    "map (\<lambda>r. (ic_AgentID r, ic_Key r)) (map ?f (es_incidents st)) = map (\<lambda>r. (ic_AgentID r, ic_Key r)) (es_incidents st)" by auto
  then show "incidents_ok (set_primaries ids st)" if "incidents_ok st"
    using that unfolding incidents_ok_def s by (auto simp del: map_map)
qed

lemma insertIncidentTx_frame: "insertIncidentTx env eid sid key es st = (i, st') \<Longrightarrow> es_servers st' = es_servers st \<and> es_events st' = es_events st"
  by (auto simp: insertIncidentTx_def Let_def split: option.splits)

lemma insert_incidents_frame:
  assumes "insert_incidents env eid sid events st = (ids, st')"
  shows "es_servers st' = es_servers st \<and> es_events st' = es_events st"
proof -
  have "fold (group_step env eid sid events) keys (j, s) = (j', s') \<Longrightarrow> es_servers s' = es_servers s \<and> es_events s' = es_events s" for keys j s j' s'
  proof (induction keys arbitrary: j s)
    case (Cons key keys)
    obtain i s1 where one: "insertIncidentTx env eid sid key (filter (\<lambda>e. incidentKey e = key) events) s = (i, s1)" by fastforce
    have "es_servers s' = es_servers s1 \<and> es_events s' = es_events s1" using Cons by (simp add: group_step_def one)
    with insertIncidentTx_frame[OF one] show ?case by simp
  qed simp
  with assms show ?thesis unfolding insert_incidents_def by blast
qed

definition stored_events :: "string \<Rightarrow> event_store \<Rightarrow> string set" where
  "stored_events serverID st = (\<lambda>r. se_EventID (sv_Event r)) ` set (filter (\<lambda>r. sv_AgentID r = serverID) (es_events st))"

lemma stored_events_key: "x \<in> stored_events sid st \<longleftrightarrow> (sid, x) \<in> event_key ` set (es_events st)"
  by (auto simp: stored_events_def event_key_def)

definition accepts :: "string \<Rightarrow> event_store \<Rightarrow> bool" where
  "accepts serverID st \<longleftrightarrow> (\<exists>s. find (\<lambda>s. srv_ID s = serverID \<and> \<not> srv_Revoked s) (es_servers st) = Some s \<and> srv_EnterpriseID s \<noteq> [])"

lemma InsertEventBatch_stored:
  assumes "InsertEventBatch env now sid bid events st = Inr (False, st')" "events \<noteq> []"
  obtains eid ids s2 s3 where
    "insert_incidents env eid sid events (st\<lparr>es_batches := es_batches st @ [\<lparr>bt_AgentID = sid, bt_BatchID = bid,
       bt_EventCount = length events, bt_CommittedAt = now\<rparr>]\<rparr>) = (ids, s2)"
    and "insert_events env now sid bid ids events s2 = Inr s3" and "st' = set_primaries ids s3" and "list_all columns_fit events"
proof -
  obtain s where s: "find (\<lambda>s. srv_ID s = sid \<and> \<not> srv_Revoked s) (es_servers st) = Some s" "srv_EnterpriseID s \<noteq> []"
    and run: "\<not> (known_batch sid bid st \<or> \<not> list_ex (\<lambda>s. srv_ID s = sid) (es_servers st))" "list_all columns_fit events"
    using assms(1) by (auto simp: InsertEventBatch_def split: if_splits option.splits)
  obtain ids s2 where ins: "insert_incidents env (srv_EnterpriseID s) sid events (st\<lparr>es_batches := es_batches st @ [\<lparr>bt_AgentID = sid,
      bt_BatchID = bid, bt_EventCount = length events, bt_CommittedAt = now\<rparr>]\<rparr>) = (ids, s2)" by fastforce
  obtain s3 where s3: "insert_events env now sid bid ids events s2 = Inr s3" "st' = set_primaries ids s3"
    using assms run s by (auto simp: InsertEventBatch_def ins Let_def split: sum.splits)
  show ?thesis by (rule that[OF ins s3 run(2)])
qed

lemma InsertEventBatch_new:
  assumes "InsertEventBatch env now sid bid events st = Inr (False, st')" "events \<noteq> []" "events_ok st"
  shows "events_ok st' \<and> es_servers st' = es_servers st \<and>
    es_batches st' = es_batches st @ [\<lparr>bt_AgentID = sid, bt_BatchID = bid, bt_EventCount = length events, bt_CommittedAt = now\<rparr>] \<and>
    map event_key (es_events st') = map event_key (es_events st) @ map (\<lambda>e. (sid, se_EventID e)) events"
proof -
  let ?b = "\<lparr>bt_AgentID = sid, bt_BatchID = bid, bt_EventCount = length events, bt_CommittedAt = now\<rparr>"
  let ?s1 = "st\<lparr>es_batches := es_batches st @ [?b]\<rparr>"
  obtain eid ids s2 s3 where ins: "insert_incidents env eid sid events ?s1 = (ids, s2)"
    and ev: "insert_events env now sid bid ids events s2 = Inr s3" and st': "st' = set_primaries ids s3"
    by (rule InsertEventBatch_stored[OF assms(1,2)])
  have ok1: "incidents_ok ?s1" using assms(3) by (simp add: events_ok_def incidents_ok_def)
  note i = insert_incidents_ok[OF ins ok1] insert_incidents_frame[OF ins]
  note e = insert_events_ok[OF ev]
  have same: "es_events s2 = es_events st" "es_batches s2 = es_batches st @ [?b]" using i by (simp_all add: incidents_extend_def)
  have old: "filed s2 r" if "r \<in> set (es_events st)" for r
  proof -
    have "filed ?s1 r" using that assms(3) by (simp add: events_ok_def filed_def gathers_def)
    then show ?thesis using i filed_extend by blast
  qed
  have "filed s2 r" if "r \<in> set (es_events s3)" for r
    using that old e i same by (auto simp: filed_def)
  moreover have "gathers s3 = gathers s2" using e by (intro gathers_incidents) simp
  ultimately have "filed s3 r" if "r \<in> set (es_events s3)" for r using that by (simp add: filed_def)
  moreover have "incidents_ok s3" using e i by (auto simp: incidents_ok_def)
  moreover have "distinct (map event_key (es_events s3))" using insert_events_distinct[OF ev] same assms(3) by (simp add: events_ok_def)
  ultimately have "events_ok st'" unfolding events_ok_def st'
    using set_primaries_ok filed_extend[OF set_primaries_ok(1)] by metis
  then show ?thesis using e i same by (simp add: st' set_primaries_ok)
qed

lemma InsertEventBatch_known: "InsertEventBatch env now sid bid events st = Inr (True, st') \<Longrightarrow> st' = st"
  by (auto simp: InsertEventBatch_def Let_def split: if_splits option.splits prod.splits sum.splits)

lemma settle_events_ids:
  "\<forall>e \<in> set (eb_Events b). se_EventID e \<noteq> [] \<Longrightarrow> map se_EventID (settle_events env now n (map receive (eb_Events b))) = map se_EventID (eb_Events b)"
proof (rule nth_equalityI)
  assume ids: "\<forall>e \<in> set (eb_Events b). se_EventID e \<noteq> []"
  have enrich: "se_EventID (enrich_event env e) = se_EventID e" for e by (simp add: enrich_event_def split: prod.splits option.splits)
  fix i assume i: "i < length (map se_EventID (settle_events env now n (map receive (eb_Events b))))"
  then have l: "i < length (eb_Events b)" by (simp add: settle_events_def length_enumerate)
  have "se_EventID (receive (eb_Events b ! i)) = se_EventID (eb_Events b ! i)" by (simp add: receive_def SecurityEvent.defs)
  then show "map se_EventID (settle_events env now n (map receive (eb_Events b))) ! i = map se_EventID (eb_Events b) ! i"
    using l ids by (simp add: settle_events_def nth_enumerate_eq enrich settle_event_def Let_def)
qed (simp add: settle_events_def length_enumerate)

lemma settle_events_Nil [simp]: "settle_events env now n es = [] \<longleftrightarrow> es = []"
  by (simp add: settle_events_def flip: length_0_conv)

lemma events_ok_ids: "events_ok (st\<lparr>es_ids := n\<rparr>) = events_ok st" "events_ok (st\<lparr>es_servers := s\<rparr>) = events_ok st"
  by (simp_all add: events_ok_def incidents_ok_def filed_def gathers_def)

lemma eventBatch_cases:
  assumes "eventBatch env now sid b st = Inr (dup, st')"
  obtains "dup" "st' = st\<lparr>es_ids := es_ids st + length (eb_Events b)\<rparr>"
  | "\<not> dup" "InsertEventBatch env now sid (truncate_text (eb_BatchID b) 128) (settle_events env now (es_ids st) (map receive (eb_Events b)))
      (st\<lparr>es_ids := es_ids st + length (eb_Events b)\<rparr>) = Inr (False, st')" "eb_Events b \<noteq> []"
proof (cases dup)
  case True
  then show ?thesis using assms that(1) InsertEventBatch_known by (auto simp: eventBatch_def split: if_splits)
next
  case False
  then show ?thesis using assms that(2) by (auto simp: eventBatch_def split: if_splits)
qed

lemma eventBatch_ok:
  assumes "eventBatch env now sid b st = Inr (dup, st')" "events_ok st"
  shows "events_ok st'"
  using assms(1)
proof (cases rule: eventBatch_cases)
  case 1
  then show ?thesis using assms(2) by (simp add: events_ok_ids)
next
  case 2
  with InsertEventBatch_new[OF 2(2)] assms(2) show ?thesis by (simp add: events_ok_ids)
qed

lemma distinct_map_filter_step: "distinct (map f xs) \<Longrightarrow> distinct (map f (filter P xs))"
  by (rule distinct_map_filter)

lemma events_ok_fewer:
  assumes "events_ok st" "incidents_ok st'" "set (es_events st') \<subseteq> set (es_events st)" "distinct (map event_key (es_events st'))"
    and "\<And>r i. r \<in> set (es_events st') \<Longrightarrow> i \<in> set (es_incidents st) \<Longrightarrow> ic_ID i = sv_IncidentID r \<Longrightarrow> ic_AgentID i = sv_AgentID r \<Longrightarrow> i \<in> set (es_incidents st')"
  shows "events_ok st'"
proof -
  have "filed st' r" if r: "r \<in> set (es_events st')" for r
  proof -
    have "filed st r" using assms(1,3) r by (auto simp: events_ok_def)
    then show ?thesis using assms(5)[OF r] by (auto simp: filed_def gathers_def)
  qed
  then show ?thesis using assms by (simp add: events_ok_def)
qed

lemma prune_where_sub: "\<exists>P'. prune_where P m n rows = filter P' rows \<and> (\<forall>r. \<not> P' r \<longrightarrow> P r)"
proof -
  let ?gone = "take n (sort_by (\<lambda>a b. m a < m b) (filter P rows))"
  have "set ?gone \<subseteq> {r. P r}" using set_take_subset[of n "sort_by (\<lambda>a b. m a < m b) (filter P rows)"] by auto
  then show ?thesis unfolding prune_where_def Let_def by (intro exI[of _ "\<lambda>r. r \<notin> set ?gone"]) auto
qed

lemma events_ok_filter:
  assumes "events_ok st"
    and "\<And>r i. r \<in> set (es_events st) \<Longrightarrow> E r \<Longrightarrow> i \<in> set (es_incidents st) \<Longrightarrow> ic_ID i = sv_IncidentID r \<Longrightarrow> ic_AgentID i = sv_AgentID r \<Longrightarrow> I i"
    and "es_events st' = filter E (es_events st)" "es_incidents st' = filter I (es_incidents st)" "es_next_incident st' = es_next_incident st"
  shows "events_ok st'"
proof (rule events_ok_fewer[OF assms(1)])
  show "incidents_ok st'" using assms(1,4,5) by (simp add: events_ok_def incidents_ok_def distinct_map_filter)
  show "distinct (map event_key (es_events st'))" using assms(1,3) by (simp add: events_ok_def distinct_map_filter)
qed (use assms in auto)

inductive event_step :: "event_store \<Rightarrow> event_store \<Rightarrow> bool" where
  received: "eventBatch env now serverID batch st = Inr (duplicate, st') \<Longrightarrow> event_step st st'"
| events_pruned: "PruneEvents before n st = Inr st' \<Longrightarrow> event_step st st'"
| batches_pruned: "PruneEventBatches before n st = Inr st' \<Longrightarrow> event_step st st'"
| incidents_pruned: "PruneIncidents before n st = Inr st' \<Longrightarrow> event_step st st'"
| server_deleted: "event_step st (forget_server serverID st)"
| servers_changed: "event_step st (st\<lparr>es_servers := servers\<rparr>)"

inductive event_reachable :: "event_store \<Rightarrow> bool" where
  empty: "es_events st = [] \<Longrightarrow> es_incidents st = [] \<Longrightarrow> es_batches st = [] \<Longrightarrow> event_reachable st"
| step: "event_reachable st \<Longrightarrow> event_step st st' \<Longrightarrow> event_reachable st'"

lemma event_step_ok: "event_step st st' \<Longrightarrow> events_ok st \<Longrightarrow> events_ok st'"
proof (induction rule: event_step.induct)
  case (received env now sid b st dup st')
  then show ?case by (metis eventBatch_ok)
next
  case (events_pruned before n st st')
  obtain P where P: "prune_where (\<lambda>r. se_OccurredAt (sv_Event r) < before) (\<lambda>r. se_OccurredAt (sv_Event r)) (nat n) (es_events st) = filter P (es_events st)"
    using prune_where_sub[of "\<lambda>r. se_OccurredAt (sv_Event r) < before"] by blast
  have "st' = st\<lparr>es_events := filter P (es_events st)\<rparr>" using events_pruned(1) by (auto simp: PruneEvents_def P split: if_splits)
  then show ?case by (intro events_ok_filter[OF events_pruned(2), of P "\<lambda>_. True"]) simp_all
next
  case (batches_pruned before n st st')
  then obtain bs where "st' = st\<lparr>es_batches := bs\<rparr>" by (auto simp: PruneEventBatches_def split: if_splits)
  with batches_pruned(2) show ?case by (simp add: events_ok_def incidents_ok_def filed_def gathers_def)
next
  case (incidents_pruned before n st st')
  let ?P = "\<lambda>i. ic_OccurredAt i < before \<and> \<not> list_ex (\<lambda>r. sv_IncidentID r = ic_ID i) (es_events st)"
  obtain P where eq: "prune_where ?P ic_OccurredAt (nat n) (es_incidents st) = filter P (es_incidents st)" and
      "\<forall>i. \<not> P i \<longrightarrow> ?P i"
    using prune_where_sub[of ?P] by blast
  then have P: "st' = st\<lparr>es_incidents := filter P (es_incidents st)\<rparr>" "\<And>i. \<not> P i \<Longrightarrow> \<not> list_ex (\<lambda>r. sv_IncidentID r = ic_ID i) (es_events st)"
    using incidents_pruned(1) by (auto simp: PruneIncidents_def eq split: if_splits)
  have "P i" if "r \<in> set (es_events st)" "ic_ID i = sv_IncidentID r" for r i using P(2)[of i] that by (auto simp: list_ex_iff)
  with P(1) show ?case by (intro events_ok_filter[OF incidents_pruned(2), of "\<lambda>_. True" P]) simp_all
next
  case (server_deleted st sid)
  then show ?case
    by (rule events_ok_filter[of st "\<lambda>r. sv_AgentID r \<noteq> sid" "\<lambda>i. ic_AgentID i \<noteq> sid"]) (simp_all add: forget_server_def)
qed (simp add: events_ok_ids)

lemma event_reachable_ok: "event_reachable st \<Longrightarrow> events_ok st"
proof (induction rule: event_reachable.induct)
  case (empty st)
  then show ?case by (simp add: events_ok_def incidents_ok_def)
qed (rule event_step_ok)

section \<open>Properties\<close>

lemma filter_key_single: "distinct (map f xs) \<Longrightarrow> x \<in> set xs \<Longrightarrow> filter (\<lambda>y. f y = f x) xs = [x]"
  by (induction xs) (auto simp: filter_empty_conv image_iff)

text \<open>C15:
  every stored event has its incident. In every state that batches, prunings and removed servers lead to, no event is stored twice for a
  server, and every event belongs to the only incident of its server with its key, which counts as blocked when the event was blocked.
\<close>

theorem events_have_incidents:
  assumes "event_reachable st"
  shows "distinct (map event_key (es_events st)) \<and>
    (\<forall>r \<in> set (es_events st). \<exists>i. filter (of_incident (sv_AgentID r) (incidentKey (sv_Event r))) (es_incidents st) = [i] \<and>
       ic_ID i = sv_IncidentID r \<and> (se_Blocked (sv_Event r) \<longrightarrow> ic_Blocked i))"
proof -
  have ok: "events_ok st" by (rule event_reachable_ok[OF assms])
  then have d: "distinct (map (\<lambda>r. (ic_AgentID r, ic_Key r)) (es_incidents st))" by (simp add: events_ok_def incidents_ok_def)
  have "\<exists>i. filter (of_incident (sv_AgentID r) (incidentKey (sv_Event r))) (es_incidents st) = [i] \<and>
       ic_ID i = sv_IncidentID r \<and> (se_Blocked (sv_Event r) \<longrightarrow> ic_Blocked i)" if r: "r \<in> set (es_events st)" for r
  proof -
    obtain i where i: "i \<in> set (es_incidents st)" "ic_ID i = sv_IncidentID r" "ic_AgentID i = sv_AgentID r" "ic_Key i = incidentKey (sv_Event r)"
        "se_Blocked (sv_Event r) \<longrightarrow> ic_Blocked i"
      using ok r by (auto simp: events_ok_def filed_def gathers_def)
    have "filter (\<lambda>x. (ic_AgentID x, ic_Key x) = (ic_AgentID i, ic_Key i)) (es_incidents st) = [i]" by (rule filter_key_single[OF d i(1)])
    then have "filter (of_incident (sv_AgentID r) (incidentKey (sv_Event r))) (es_incidents st) = [i]"
      using i by (simp add: of_incident_def[abs_def])
    with i show ?thesis by blast
  qed
  then show ?thesis using ok by (simp add: events_ok_def)
qed

lemma InsertEventBatch_wide:
  assumes "\<not> known_batch sid bid st" "accepts sid st" "\<not> list_all columns_fit events"
  shows "InsertEventBatch env now sid bid events st = Inl ColumnTooLong"
proof -
  obtain s where s: "find (\<lambda>s. srv_ID s = sid \<and> \<not> srv_Revoked s) (es_servers st) = Some s" "srv_EnterpriseID s \<noteq> []"
    using assms(2) by (auto simp: accepts_def)
  then have "list_ex (\<lambda>s. srv_ID s = sid) (es_servers st)" by (auto simp: list_ex_iff dest: find_Some)
  with assms s show ?thesis by (simp add: InsertEventBatch_def)
qed

lemma InsertEventBatch_outcome:
  assumes "\<not> known_batch sid bid st" "accepts sid st" "events \<noteq> []" "list_all columns_fit events"
  shows "(\<exists>st'. InsertEventBatch env now sid bid events st = Inr (False, st')) \<longleftrightarrow>
      distinct (map se_EventID events) \<and> stored_events sid st \<inter> set (map se_EventID events) = {}"
    and "(\<exists>st'. InsertEventBatch env now sid bid events st = Inr (False, st')) \<or> InsertEventBatch env now sid bid events st = Inl DuplicateEvent"
proof -
  let ?b = "\<lparr>bt_AgentID = sid, bt_BatchID = bid, bt_EventCount = length events, bt_CommittedAt = now\<rparr>"
  let ?s1 = "st\<lparr>es_batches := es_batches st @ [?b]\<rparr>"
  obtain s where s: "find (\<lambda>s. srv_ID s = sid \<and> \<not> srv_Revoked s) (es_servers st) = Some s" "srv_EnterpriseID s \<noteq> []"
    using assms(2) by (auto simp: accepts_def)
  then have ex: "list_ex (\<lambda>s. srv_ID s = sid) (es_servers st)" by (auto simp: list_ex_iff dest: find_Some)
  obtain ids s2 where ins: "insert_incidents env (srv_EnterpriseID s) sid events ?s1 = (ids, s2)" by fastforce
  have run: "InsertEventBatch env now sid bid events st =
      (case insert_events env now sid bid ids events s2 of Inl e \<Rightarrow> Inl e | Inr st3 \<Rightarrow> Inr (False, set_primaries ids st3))"
    using assms s ex by (simp add: InsertEventBatch_def ins Let_def)
  have same: "es_events s2 = es_events st" using insert_incidents_frame[OF ins] by simp
  have iff: "(\<exists>st'. insert_events env now sid bid ids events s2 = Inr st') \<longleftrightarrow>
      distinct (map se_EventID events) \<and> stored_events sid st \<inter> set (map se_EventID events) = {}"
    unfolding insert_events_refused same by (auto simp: stored_events_key disjoint_iff)
  show "(\<exists>st'. InsertEventBatch env now sid bid events st = Inr (False, st')) \<longleftrightarrow>
      distinct (map se_EventID events) \<and> stored_events sid st \<inter> set (map se_EventID events) = {}"
    unfolding iff[symmetric] run by (cases "insert_events env now sid bid ids events s2") auto
  show "(\<exists>st'. InsertEventBatch env now sid bid events st = Inr (False, st')) \<or> InsertEventBatch env now sid bid events st = Inl DuplicateEvent"
    unfolding run by (cases "insert_events env now sid bid ids events s2") (auto dest: insert_events_error)
qed

lemma settled_columns:
  assumes "\<forall>e \<in> set (eb_Events b). se_EventID e \<noteq> []"
  shows "list_all columns_fit (settle_events env now n (map receive (eb_Events b))) \<longleftrightarrow>
    (\<forall>e \<in> set (eb_Events b). columns_fit (receive e\<lparr>se_OccurredAt := settle_time now (se_OccurredAt e)\<rparr>))"
proof -
  have enrich: "columns_fit (enrich_event env e) = columns_fit e" for e
    by (auto simp: enrich_event_def columns_fit_def split: prod.splits option.splits)
  have settle: "columns_fit (settle_event env now f (receive e)) = columns_fit (receive e\<lparr>se_OccurredAt := settle_time now (se_OccurredAt e)\<rparr>)"
    if "se_EventID e \<noteq> []" for f e
    using that by (simp add: columns_fit_def settle_event_def Let_def receive_def SecurityEvent.defs)
  have "list_all columns_fit (settle_events env now n (map receive (eb_Events b))) \<longleftrightarrow>
      (\<forall>i < length (eb_Events b). columns_fit (receive (eb_Events b ! i)\<lparr>se_OccurredAt := settle_time now (se_OccurredAt (eb_Events b ! i))\<rparr>))"
    using assms by (auto simp: list_all_length settle_events_def length_enumerate nth_enumerate_eq enrich settle)
  then show ?thesis by (auto simp: all_set_conv_all_nth)
qed

text \<open>C39:
  a well formed batch with a new identifier and named events is stored by an active server of an enterprise exactly when every event fits
  the columns that the handler does not cut and none has the identifier of another one of the batch or of an event stored for the
  server. Otherwise the whole batch is refused, whichever of its events is at fault, and it is refused again as long as the taken identifier is
  stored or the event is too wide: an agent that lost its position and reads the log again cannot deliver any further event until then.
\<close>

theorem event_batch_refused:
  assumes "eb_BatchID b \<noteq> []" "eb_Events b \<noteq> []" "length (eb_Events b) \<le> 500" "\<forall>e \<in> set (eb_Events b). se_EventID e \<noteq> []"
    and "accepts sid st" "\<not> known_batch sid (truncate_text (eb_BatchID b) 128) st"
  shows "if \<exists>e \<in> set (eb_Events b). \<not> columns_fit (receive e\<lparr>se_OccurredAt := settle_time now (se_OccurredAt e)\<rparr>)
    then eventBatch env now sid b st = Inl ColumnTooLong
    else if distinct (map se_EventID (eb_Events b)) \<and> stored_events sid st \<inter> batch_ids b = {}
    then \<exists>st'. eventBatch env now sid b st = Inr (False, st') else eventBatch env now sid b st = Inl DuplicateEvent"
proof -
  let ?st = "st\<lparr>es_ids := es_ids st + length (eb_Events b)\<rparr>"
  let ?es = "settle_events env now (es_ids st) (map receive (eb_Events b))"
  have b: "eventBatch env now sid b st = InsertEventBatch env now sid (truncate_text (eb_BatchID b) 128) ?es ?st"
    using assms(1-3) by (simp add: eventBatch_def)
  have frame: "accepts sid ?st" "\<not> known_batch sid (truncate_text (eb_BatchID b) 128) ?st" "stored_events sid ?st = stored_events sid st"
    using assms(5,6) by (simp_all add: accepts_def known_batch_def stored_events_def)
  show ?thesis
  proof (cases "list_all columns_fit ?es")
    case True
    note out = InsertEventBatch_outcome[OF frame(2,1) _ True, of env now, folded b]
    from True have "\<not> (\<exists>e \<in> set (eb_Events b). \<not> columns_fit (receive e\<lparr>se_OccurredAt := settle_time now (se_OccurredAt e)\<rparr>))"
      by (simp add: settled_columns[OF assms(4)])
    then show ?thesis using out assms(2) frame(3) by (auto simp: settle_events_ids[OF assms(4)] batch_ids_def)
  next
    case False
    then have "\<exists>e \<in> set (eb_Events b). \<not> columns_fit (receive e\<lparr>se_OccurredAt := settle_time now (se_OccurredAt e)\<rparr>)"
      by (simp add: settled_columns[OF assms(4)])
    then show ?thesis using InsertEventBatch_wide[OF frame(2,1) False, of env now, folded b] by simp
  qed
qed

section \<open>From the log to the store\<close>

text \<open>
  What a Manager does while it accepts the batches of one server, before the retention time removes its events: batches of other servers,
  pruning of batches and incidents and changes of the servers come in between.
\<close>

inductive accepted_batches :: "string \<Rightarrow> event_store \<Rightarrow> EventBatch list \<Rightarrow> event_store \<Rightarrow> bool" for serverID st0 where
  none: "accepted_batches serverID st0 [] st0"
| accepted: "accepted_batches serverID st0 bs st \<Longrightarrow> eventBatch env now serverID b st = Inr (duplicate, st') \<Longrightarrow>
    accepted_batches serverID st0 (bs @ [b]) st'"
| other_server: "accepted_batches serverID st0 bs st \<Longrightarrow> eventBatch env now other b st = Inr (duplicate, st') \<Longrightarrow> other \<noteq> serverID \<Longrightarrow>
    accepted_batches serverID st0 bs st'"
| batches_pruned: "accepted_batches serverID st0 bs st \<Longrightarrow> PruneEventBatches before n st = Inr st' \<Longrightarrow> accepted_batches serverID st0 bs st'"
| incidents_pruned: "accepted_batches serverID st0 bs st \<Longrightarrow> PruneIncidents before n st = Inr st' \<Longrightarrow> accepted_batches serverID st0 bs st'"
| servers_changed: "accepted_batches serverID st0 bs st \<Longrightarrow> list_ex (\<lambda>s. srv_ID s = serverID) servers \<Longrightarrow>
    accepted_batches serverID st0 bs (st\<lparr>es_servers := servers\<rparr>)"

text \<open>Identifiers of batches are not shared, fit into their column, and events have identifiers.\<close>

definition batches_named :: "EventBatch list \<Rightarrow> bool" where
  "batches_named bs \<longleftrightarrow> (\<forall>b \<in> set bs. \<forall>b' \<in> set bs. eb_BatchID b = eb_BatchID b' \<longrightarrow> b = b') \<and>
     (\<forall>b \<in> set bs. truncate_text (eb_BatchID b) 128 = eb_BatchID b \<and> (\<forall>e \<in> set (eb_Events b). se_EventID e \<noteq> []))"

lemma batches_namedD:
  "batches_named bs \<Longrightarrow> b \<in> set bs \<Longrightarrow> b' \<in> set bs \<Longrightarrow> eb_BatchID b = eb_BatchID b' \<Longrightarrow> b = b'"
  "batches_named (bs @ bs') \<Longrightarrow> batches_named bs"
  unfolding batches_named_def set_append by blast+

definition delivered :: "string \<Rightarrow> EventBatch list \<Rightarrow> event_store \<Rightarrow> bool" where
  "delivered serverID bs st \<longleftrightarrow> events_ok st \<and> list_ex (\<lambda>s. srv_ID s = serverID) (es_servers st) \<and>
     (\<forall>b \<in> set bs. batch_ids b \<subseteq> stored_events serverID st) \<and>
     (\<forall>r \<in> set (es_batches st). bt_AgentID r = serverID \<longrightarrow> bt_BatchID r \<in> eb_BatchID ` set bs)"

lemma delivered_frame:
  assumes "delivered sid bs st" "events_ok st'" "es_events st' = es_events st" "set (es_batches st') \<subseteq> set (es_batches st)"
    and "list_ex (\<lambda>s. srv_ID s = sid) (es_servers st')"
  shows "delivered sid bs st'"
  using assms unfolding delivered_def stored_events_def by auto

lemma InsertEventBatch_dup: "InsertEventBatch env now sid bid es st = Inr (True, st') \<Longrightarrow> list_ex (\<lambda>s. srv_ID s = sid) (es_servers st) \<Longrightarrow> known_batch sid bid st"
  by (auto simp: InsertEventBatch_def Let_def split: if_splits option.splits prod.splits sum.splits)

lemma eventBatch_other:
  assumes "eventBatch env now other b st = Inr (dup, st')" "other \<noteq> sid" "delivered sid bs st"
  shows "delivered sid bs st'"
  using assms(1)
proof (cases rule: eventBatch_cases)
  case 1
  then show ?thesis using assms(3) eventBatch_ok[OF assms(1)] by (intro delivered_frame[OF assms(3)]) (auto simp: delivered_def)
next
  case 2
  have ok: "events_ok (st\<lparr>es_ids := es_ids st + length (eb_Events b)\<rparr>)" using assms(3) by (simp add: delivered_def events_ok_ids)
  note new = InsertEventBatch_new[OF 2(2) _ ok]
  have "set (map event_key (es_events st)) \<subseteq> set (map event_key (es_events st'))" using new 2(3) by simp
  then have "stored_events sid st \<subseteq> stored_events sid st'" unfolding subset_iff stored_events_key by simp
  then show ?thesis using new 2(3) assms(2,3) by (auto simp: delivered_def)
qed

lemma eventBatch_delivers:
  assumes "eventBatch env now sid b st = Inr (dup, st')" "delivered sid bs st" "batches_named (bs @ [b])"
  shows "delivered sid (bs @ [b]) st'"
proof -
  have id: "truncate_text (eb_BatchID b) 128 = eb_BatchID b" and ids: "\<forall>e \<in> set (eb_Events b). se_EventID e \<noteq> []"
    using assms(3) by (simp_all add: batches_named_def)
  let ?s = "st\<lparr>es_ids := es_ids st + length (eb_Events b)\<rparr>"
  show ?thesis
    using assms(1)
  proof (cases rule: eventBatch_cases)
    case 1
    have "known_batch sid (eb_BatchID b) ?s"
      using assms(1,2) 1(1) InsertEventBatch_dup[of env now sid "truncate_text (eb_BatchID b) 128" _ ?s st']
      by (auto simp: eventBatch_def id delivered_def split: if_splits)
    then obtain r where r: "r \<in> set (es_batches st)" "bt_AgentID r = sid" "bt_BatchID r = eb_BatchID b" by (auto simp: known_batch_def list_ex_iff)
    with assms(2) have "eb_BatchID b \<in> eb_BatchID ` set bs" unfolding delivered_def by metis
    then obtain b' where "b' \<in> set bs" "eb_BatchID b = eb_BatchID b'" by blast
    moreover from this have "b = b'" by (intro batches_namedD(1)[OF assms(3)]) simp_all
    ultimately have "b \<in> set bs" by simp
    then have d: "delivered sid (bs @ [b]) st" using assms(2) by (auto simp: delivered_def)
    show ?thesis using eventBatch_ok[OF assms(1)] assms(2) 1(2) by (intro delivered_frame[OF d]) (auto simp: delivered_def)
  next
    case 2
    have ok: "events_ok ?s" using assms(2) by (simp add: delivered_def events_ok_ids)
    note new = InsertEventBatch_new[OF 2(2) _ ok]
    have "map (\<lambda>e. (sid, se_EventID e)) es = map (Pair sid) (map se_EventID es)" for es :: "received_event list" by simp
    then have "map (\<lambda>e. (sid, se_EventID e)) (settle_events env now (es_ids st) (map receive (eb_Events b))) = map (Pair sid) (map se_EventID (eb_Events b))"
      by (simp only: settle_events_ids[OF ids])
    then have keys: "map event_key (es_events st') = map event_key (es_events st) @ map (Pair sid) (map se_EventID (eb_Events b))"
      using new 2(3) by (simp del: map_map)
    have "set (map event_key (es_events st')) = set (map event_key (es_events st)) \<union> Pair sid ` set (map se_EventID (eb_Events b))"
      unfolding keys by auto
    note keys = this
    have "batch_ids b \<subseteq> stored_events sid st'" "stored_events sid st \<subseteq> stored_events sid st'"
      using keys unfolding subset_iff stored_events_key batch_ids_def by auto
    then show ?thesis using new 2(3) assms(2) by (auto simp: delivered_def id)
  qed
qed
lemma accepted_batches_delivered:
  "accepted_batches sid st0 bs st \<Longrightarrow> delivered sid [] st0 \<Longrightarrow> batches_named bs \<Longrightarrow> delivered sid bs st"
proof (induction rule: accepted_batches.induct)
  case (accepted bs st env now b dup st')
  then have "batches_named bs" using batches_namedD(2) by blast
  with accepted show ?case using eventBatch_delivers by blast
next
  case (other_server bs st env now other b dup st')
  then show ?case using eventBatch_other by blast
next
  case (batches_pruned bs st before n st')
  obtain P where P: "prune_where (\<lambda>b. bt_CommittedAt b < before) bt_CommittedAt (nat n) (es_batches st) = filter P (es_batches st)"
    using prune_where_sub[of "\<lambda>b. bt_CommittedAt b < before"] by blast
  have st': "st' = st\<lparr>es_batches := filter P (es_batches st)\<rparr>" using batches_pruned(2) by (auto simp: PruneEventBatches_def P split: if_splits)
  have d: "delivered sid bs st" using batches_pruned by blast
  then have "events_ok st'" using event_step_ok[OF event_step.batches_pruned[OF batches_pruned(2)]] by (simp add: delivered_def)
  then show ?case using d by (intro delivered_frame[OF d]) (auto simp: st' delivered_def)
next
  case (incidents_pruned bs st before n st')
  obtain rows where st': "st' = st\<lparr>es_incidents := rows\<rparr>" using incidents_pruned(2) by (auto simp: PruneIncidents_def split: if_splits)
  have d: "delivered sid bs st" using incidents_pruned by blast
  then have "events_ok st'" using event_step_ok[OF event_step.incidents_pruned[OF incidents_pruned(2)]] by (simp add: delivered_def)
  then show ?case using d by (intro delivered_frame[OF d]) (auto simp: st' delivered_def)
next
  case (servers_changed bs st servers)
  then have d: "delivered sid bs st" by blast
  then show ?case using servers_changed(2) by (intro delivered_frame[OF d]) (auto simp: delivered_def events_ok_ids)
qed blast

text \<open>C14:
  the way of an event from the log into the database. The log is one file that only grows. When the Manager has accepted the batches an
  agent got acknowledged, in their order and with whatever in between except the removal of the server or of its events (the retention of
  events has not reached them), every event of the log before the position of the agent is stored for its server exactly once, however
  often its batch was sent.
\<close>

theorem events_reach_store:
  assumes "agent_codec_ok codec" "agent_run codec L d n c st" "batches_named (st_sent st)"
    and "event_reachable store" "accepted_batches sid store (st_sent st) store'"
    and "list_ex (\<lambda>s. srv_ID s = sid) (es_servers store)" "\<not> list_ex (\<lambda>b. bt_AgentID b = sid) (es_batches store)"
    and "x \<in> set (ids_before L c (checkpoint codec st))"
  shows "\<exists>r. filter (\<lambda>r. sv_AgentID r = sid \<and> se_EventID (sv_Event r) = x) (es_events store') = [r]"
proof -
  have "delivered sid [] store" using event_reachable_ok[OF assms(4)] assms(6,7) by (auto simp: delivered_def list_ex_iff)
  then have d: "delivered sid (st_sent st) store'" using accepted_batches_delivered assms(3,5) by blast
  have "x \<in> sent_ids st" using agent_run_inv[OF assms(2,1)] assms(8) by (auto simp: agent_inv_def covers_def)
  with d have "x \<in> stored_events sid store'" by (auto simp: sent_ids_def delivered_def)
  then obtain r where r: "r \<in> set (es_events store')" "event_key r = (sid, x)" by (auto simp: stored_events_key)
  have "distinct (map event_key (es_events store'))" using d by (simp add: delivered_def events_ok_def)
  from filter_key_single[OF this r(1)] have "filter (\<lambda>r. event_key r = (sid, x)) (es_events store') = [r]" by (simp add: r(2))
  then show ?thesis by (auto simp: event_key_def)
qed

text \<open>A Manager with one server takes the batches of the sample log, the second of them twice.\<close>

definition sample_server :: server_row where
  "sample_server = \<lparr>srv_ID = ''s'', srv_EnterpriseID = ''e'', srv_Name = ''s'', srv_Revoked = False, srv_LastHeartbeatAt = 0,
     srv_Inventory = \<lparr>inv_CRSVersion = [], inv_PolicyFormats = [], inv_InstallationStage = [], inv_InstallationMode = [],
       inv_ConnectorLoaded = True, inv_ConfigTestOK = True\<rparr>, srv_PolicyRevision = []\<rparr>"

definition sample_event_env :: event_env where
  "sample_event_env = \<lparr>ee_parse_ip = (\<lambda>_. None), ee_reserved = (\<lambda>_. False), ee_country = (\<lambda>_. None), ee_rule_tags = (\<lambda>_. None), ee_randomID = (\<lambda>n. replicate (Suc n) CHR ''e'')\<rparr>"

definition no_events :: event_store where
  "no_events = \<lparr>es_servers = [sample_server], es_batches = [], es_events = [], es_incidents = [], es_next_event = 1, es_next_incident = 1, es_ids = 0\<rparr>"

definition after_batch :: "EventBatch \<Rightarrow> event_store \<Rightarrow> event_store" where
  "after_batch b st = (case eventBatch sample_event_env (1000 * second) ''s'' b st of Inl _ \<Rightarrow> st | Inr (_, st') \<Rightarrow> st')"

definition some_events :: event_store where
  "some_events = fold after_batch (st_sent demo_interrupted) no_events"

fun all_accepted :: "EventBatch list \<Rightarrow> event_store \<Rightarrow> bool" where
  "all_accepted [] st = True"
| "all_accepted (b # bs) st \<longleftrightarrow> \<not> isl (eventBatch sample_event_env (1000 * second) ''s'' b st) \<and> all_accepted bs (after_batch b st)"

lemma after_batch_accepted: "\<not> isl (eventBatch sample_event_env (1000 * second) ''s'' b st) \<Longrightarrow> \<exists>dup. eventBatch sample_event_env (1000 * second) ''s'' b st = Inr (dup, after_batch b st)"
  by (cases "eventBatch sample_event_env (1000 * second) ''s'' b st") (auto simp: after_batch_def)

lemma fold_accepted:
  assumes "accepted_batches ''s'' st0 bs st" "event_reachable st" "all_accepted bs' st"
  shows "accepted_batches ''s'' st0 (bs @ bs') (fold after_batch bs' st) \<and> event_reachable (fold after_batch bs' st)"
  using assms
proof (induction bs' arbitrary: bs st)
  case (Cons b bs')
  then have "\<not> isl (eventBatch sample_event_env (1000 * second) ''s'' b st)" by simp
  from after_batch_accepted[OF this] obtain dup where one: "eventBatch sample_event_env (1000 * second) ''s'' b st = Inr (dup, after_batch b st)" by blast
  have "accepted_batches ''s'' st0 (bs @ [b]) (after_batch b st)" by (rule accepted_batches.accepted[OF Cons.prems(1) one])
  moreover have "event_reachable (after_batch b st)" by (rule event_reachable.step[OF Cons.prems(2) event_step.received[OF one]])
  ultimately show ?case using Cons.IH[of "bs @ [b]" "after_batch b st"] Cons.prems(3) by simp
qed simp

lemma some_events_run: "accepted_batches ''s'' no_events (st_sent demo_interrupted) some_events" "event_reachable some_events" "event_reachable no_events"
proof -
  show r: "event_reachable no_events" by (rule event_reachable.empty) (simp_all add: no_events_def)
  have "all_accepted (st_sent demo_interrupted) no_events" by code_simp
  from fold_accepted[OF accepted_batches.none r this] show "accepted_batches ''s'' no_events (st_sent demo_interrupted) some_events" "event_reachable some_events"
    by (simp_all add: some_events_def)
qed

lemma events_have_incidents_witness:
  "distinct (map event_key (es_events some_events)) \<and> length (es_events some_events) = 3 \<and>
   (\<exists>i. filter (of_incident ''s'' (incidentKey (sv_Event (hd (es_events some_events))))) (es_incidents some_events) = [i] \<and>
      ic_ID i = sv_IncidentID (hd (es_events some_events)))"
proof -
  have facts: "length (es_events some_events) = 3" "sv_AgentID (hd (es_events some_events)) = ''s''" by code_simp+
  then have "hd (es_events some_events) \<in> set (es_events some_events)" by (intro hd_in_set) auto
  with events_have_incidents[OF some_events_run(2)] facts show ?thesis by metis
qed

lemma event_batch_refused_witness:
  "eventBatch sample_event_env (1009 * second) ''s'' ((hd (st_sent demo_interrupted))\<lparr>eb_BatchID := ''new''\<rparr>) some_events = Inl DuplicateEvent"
proof -
  let ?b = "(hd (st_sent demo_interrupted))\<lparr>eb_BatchID := ''new''\<rparr>"
  have "eb_BatchID ?b \<noteq> []" "eb_Events ?b \<noteq> []" "length (eb_Events ?b) \<le> 500" "\<forall>e \<in> set (eb_Events ?b). se_EventID e \<noteq> []"
    "\<not> known_batch ''s'' (truncate_text (eb_BatchID ?b) 128) some_events" by code_simp+
  moreover have "accepts ''s'' some_events"
  proof -
    have "es_servers some_events = [sample_server]" by code_simp
    then show ?thesis by (simp add: accepts_def sample_server_def)
  qed
  ultimately have "if \<exists>e \<in> set (eb_Events ?b). \<not> columns_fit (receive e\<lparr>se_OccurredAt := settle_time (1009 * second) (se_OccurredAt e)\<rparr>)
    then eventBatch sample_event_env (1009 * second) ''s'' ?b some_events = Inl ColumnTooLong
    else if distinct (map se_EventID (eb_Events ?b)) \<and> stored_events ''s'' some_events \<inter> batch_ids ?b = {}
    then \<exists>st'. eventBatch sample_event_env (1009 * second) ''s'' ?b some_events = Inr (False, st')
    else eventBatch sample_event_env (1009 * second) ''s'' ?b some_events = Inl DuplicateEvent"
    by (intro event_batch_refused)
  moreover have "\<not> (\<exists>e \<in> set (eb_Events ?b). \<not> columns_fit (receive e\<lparr>se_OccurredAt := settle_time (1009 * second) (se_OccurredAt e)\<rparr>))" by code_simp
  moreover have "\<not> (distinct (map se_EventID (eb_Events ?b)) \<and> stored_events ''s'' some_events \<inter> batch_ids ?b = {})" by code_simp
  ultimately show ?thesis by (simp only: if_False)
qed

lemma events_reach_store_witness:
  "\<exists>r. filter (\<lambda>r. sv_AgentID r = ''s'' \<and> se_EventID (sv_Event r) = ''a-0'') (es_events some_events) = [r]"
proof (rule events_reach_store[OF sample_codec_sound demo_run _ some_events_run(3,1)])
  have "list_all (\<lambda>b. list_all (\<lambda>b'. eb_BatchID b = eb_BatchID b' \<longrightarrow> b = b') (st_sent demo_interrupted)) (st_sent demo_interrupted) \<and>
    list_all (\<lambda>b. truncate_text (eb_BatchID b) 128 = eb_BatchID b \<and> list_all (\<lambda>e. se_EventID e \<noteq> []) (eb_Events b)) (st_sent demo_interrupted)"
    by code_simp
  then show "batches_named (st_sent demo_interrupted)" by (simp add: batches_named_def list_all_iff)
  show "list_ex (\<lambda>s. srv_ID s = ''s'') (es_servers no_events)" "\<not> list_ex (\<lambda>b. bt_AgentID b = ''s'') (es_batches no_events)"
    by (simp_all add: no_events_def sample_server_def)
  show "''a-0'' \<in> set (ids_before demo_log_env demo_log (checkpoint demo_codec demo_interrupted))" by code_simp
qed

end
