(* ===== verification/Event_Rows.thy ===== *)
theory Event_Rows
  imports Events
begin

text \<open>
  The rows of \<open>Events\<close>: they fit their columns and constraints in every store that batches, pruning and changes of the servers lead to, and events stored before there were incidents
  get theirs from \<^verbatim>\<open>BackfillSecurityIncidents\<close> (\<^verbatim>\<open>store_incidents.go\<close>), a loop that takes up to a thousand events at a time until none
  is left. An event whose \<^verbatim>\<open>incident_id\<close> is NULL has the incident 0. The groups of a pass are taken in the order of their first events (the
  code takes them in the order of a map), which changes only the numbers of new incidents.
\<close>

section \<open>Columns\<close>

lemma runes_take: "runes (take_runes n v) \<le> n"
  by (induction n v rule: take_runes.induct) (auto simp: runes_def split: nat.splits)

lemma runes_truncate [simp]: "runes (truncate_text v n) \<le> n"
  using runes_take[of n v] by (simp add: truncate_text_def runes_def)

lemma runes_truncate_le: "n \<le> m \<Longrightarrow> runes (truncate_text v n) \<le> m"
  using runes_truncate[of v n] by linarith

definition tags_fit :: "string list \<Rightarrow> bool" where
  "tags_fit tags \<longleftrightarrow> length tags \<le> 32 \<and> distinct tags \<and> list_all (\<lambda>t. t \<noteq> [] \<and> runes t \<le> 255) tags"

text \<open>The columns that the handler cuts, and the country that it looks up for the incident.\<close>

definition cut_fits :: "received_event \<Rightarrow> bool" where
  "cut_fits e \<longleftrightarrow> runes (se_RequestID e) \<le> 128 \<and> runes (se_TransactionID e) \<le> 255 \<and> runes (rx_Service e) \<le> 255 \<and>
     runes (se_Method e) \<le> 16 \<and> runes (se_URI e) \<le> 2048 \<and> runes (se_RuleID e) \<le> 64 \<and> runes (se_Message e) \<le> 2048 \<and>
     runes (se_MatchedVariable e) \<le> 512 \<and> tags_fit (se_RuleTags e) \<and> length (rx_CountryCode e) \<le> 2"

definition event_fits :: "received_event \<Rightarrow> bool" where
  "event_fits e \<longleftrightarrow> columns_fit e \<and> cut_fits e"

definition incident_fits :: "incident_row \<Rightarrow> bool" where
  "incident_fits i \<longleftrightarrow> ic_Category i \<noteq> [] \<and> validateIncidentCategory (ic_Category i) \<and> 0 < category_rank (ic_Category i) \<and>
     runes (ic_Category i) \<le> 32 \<and> runes (ic_Key i) \<le> 128 \<and> runes (ic_Method i) \<le> 16 \<and> runes (ic_URI i) \<le> 2048 \<and>
     runes (ic_PolicyRevision i) \<le> 128 \<and> ic_CountryCode i \<noteq> [] \<and> runes (ic_CountryCode i) \<le> 2 \<and>
     0 \<le> ic_StatusCode i \<and> ic_StatusCode i \<le> 65535 \<and> timestamp_ok (ic_OccurredAt i)"

definition rows_fit :: "event_store \<Rightarrow> bool" where
  "rows_fit st \<longleftrightarrow> list_all (\<lambda>r. event_fits (sv_Event r)) (es_events st) \<and> list_all incident_fits (es_incidents st)"

lemma normalized_tags_fit: "tags_fit (normalizeEventRuleTags tags)"
proof -
  let ?u = "unique_loop (\<lambda>t. t = []) [] (map (\<lambda>t. truncate_text (trim_space t) 255) tags)"
  have "set (take 32 ?u) \<subseteq> set ?u" by (rule set_take_subset)
  moreover have "\<And>t. t \<in> set ?u \<Longrightarrow> t \<noteq> [] \<and> runes t \<le> 255" by (auto simp: set_unique_loop)
  moreover have "distinct (take 32 ?u)" by (simp add: distinct_take)
  ultimately show ?thesis by (auto simp: tags_fit_def normalizeEventRuleTags_def list_all_iff)
qed

lemma CountryCode_short: "length (CountryCode env ip) \<le> 2"
  by (simp add: CountryCode_def Let_def split: option.splits prod.splits)

lemma settled_events_cut:
  assumes "e \<in> set (settle_events env now n es)"
  shows "cut_fits e"
proof -
  have settled: "cut_fits (settle_event env now (ee_randomID env k) x)" for k x
    by (simp add: cut_fits_def settle_event_def Let_def normalized_tags_fit CountryCode_short)
  have "cut_fits (enrich_event env x)" if "cut_fits x" for x
    using that normalized_tags_fit by (auto simp: enrich_event_def cut_fits_def split: prod.splits option.splits)
  with settled assms show ?thesis by (auto simp: settle_events_def)
qed

lemma classified: "validateIncidentCategory (classifySecurityEvent e) \<and> classifySecurityEvent e \<noteq> [] \<and> 0 < category_rank (classifySecurityEvent e)"
  by (simp add: classifySecurityEvent_def validateIncidentCategory_def category_names category_rank_def Let_def)

lemma runes_length: "runes v \<le> length v"
  by (simp add: runes_def)

lemma event_country_fits: "length (rx_CountryCode e) \<le> 2 \<Longrightarrow> event_country e \<noteq> [] \<and> runes (event_country e) \<le> 2"
  using length_trim_space[of "rx_CountryCode e"] runes_length[of "event_country e"] by (auto simp: event_country_def Let_def)

lemma category_short: "validateIncidentCategory c \<Longrightarrow> runes c \<le> 32"
  by (auto simp: validateIncidentCategory_def category_names intro: order_trans[OF runes_length])

lemma new_incident_fits: "event_fits e \<Longrightarrow> runes key \<le> 128 \<Longrightarrow> incident_fits (new_incident env i eid sid key e b)"
  using classified[of e] category_short event_country_fits[of e]
  by (simp add: incident_fits_def new_incident_def event_fits_def columns_fit_def cut_fits_def)

lemma merge_incident_fits: "incident_fits v \<Longrightarrow> incident_fits r \<Longrightarrow> incident_fits (merge_incident v r)"
  by (simp add: incident_fits_def merge_incident_def min_def)

lemma insertIncidentTx_fits:
  assumes "insertIncidentTx env eid sid key events st = (i, st')" "list_all incident_fits (es_incidents st)"
    and "list_all event_fits events" "runes key \<le> 128"
  shows "list_all incident_fits (es_incidents st')"
proof (cases "selectPrimaryEvent events")
  case (Some p)
  then have "p \<in> set events" unfolding selectPrimaryEvent_def by (auto split: list.splits) (metis list.set_intros(1) set_sort_by)
  then have new: "incident_fits (new_incident env (es_next_incident st) eid sid key p (list_ex se_Blocked events))"
    using assms(3,4) by (intro new_incident_fits) (auto simp: list_all_iff)
  from assms(1) show ?thesis
    using assms(2) new merge_incident_fits[OF new]
    by (auto simp: insertIncidentTx_def Some Let_def list_all_iff update_where_def split: option.splits)
qed (use assms in \<open>simp add: insertIncidentTx_def\<close>)

lemma runes_key [simp]: "runes (incidentKey e) \<le> 128"
  by (simp add: incidentKey_def Let_def)

lemma insert_incidents_fits:
  assumes "insert_incidents env eid sid events st = (ids, st')" "list_all incident_fits (es_incidents st)" "list_all event_fits events"
  shows "list_all incident_fits (es_incidents st')"
proof -
  have "fold (group_step env eid sid events) keys (j, s) = (j', s') \<Longrightarrow> list_all incident_fits (es_incidents s) \<Longrightarrow>
      (\<And>key. key \<in> set keys \<Longrightarrow> runes key \<le> 128) \<Longrightarrow> list_all incident_fits (es_incidents s')" for keys j s j' s'
  proof (induction keys arbitrary: j s)
    case (Cons key keys)
    obtain i s1 where one: "insertIncidentTx env eid sid key (filter (\<lambda>e. incidentKey e = key) events) s = (i, s1)" by fastforce
    have "list_all incident_fits (es_incidents s1)"
      by (rule insertIncidentTx_fits[OF one Cons.prems(2)]) (use assms(3) Cons.prems(3) in \<open>auto simp: list_all_iff\<close>)
    with Cons show ?case by (simp add: group_step_def one)
  qed simp
  moreover have "runes key \<le> 128" if "key \<in> set (groups_of events)" for key
    using that by (auto simp: groups_of_def set_unique_loop)
  ultimately show ?thesis using assms unfolding insert_incidents_def by blast
qed

lemma eventBatch_fits:
  assumes "eventBatch env now sid b st = Inr (dup, st')" "rows_fit st"
  shows "rows_fit st'"
  using assms(1)
proof (cases rule: eventBatch_cases)
  case 1
  then show ?thesis using assms(2) by (simp add: rows_fit_def)
next
  case 2
  let ?es = "settle_events env now (es_ids st) (map receive (eb_Events b))"
  let ?bt = "\<lparr>bt_AgentID = sid, bt_BatchID = truncate_text (eb_BatchID b) 128, bt_EventCount = length ?es, bt_CommittedAt = now\<rparr>"
  let ?st = "st\<lparr>es_ids := es_ids st + length (eb_Events b)\<rparr>"
  have ne: "?es \<noteq> []" using 2(3) by simp
  obtain eid ids s2 s3 where ins: "insert_incidents env eid sid ?es (?st\<lparr>es_batches := es_batches ?st @ [?bt]\<rparr>) = (ids, s2)"
    and ev: "insert_events env now sid (truncate_text (eb_BatchID b) 128) ids ?es s2 = Inr s3" and st': "st' = set_primaries ids s3"
    and wide: "list_all columns_fit ?es"
    by (rule InsertEventBatch_stored[OF 2(2) ne])
  have es: "list_all event_fits ?es" using settled_events_cut wide by (auto simp: list_all_iff event_fits_def)
  have "list_all incident_fits (es_incidents s2)" by (rule insert_incidents_fits[OF ins _ es]) (use assms(2) in \<open>simp add: rows_fit_def\<close>)
  then have inc: "list_all incident_fits (es_incidents s3)" using insert_events_ok[OF ev] by simp
  have "list_all incident_fits (es_incidents st')" using inc
    by (auto simp: st' set_primaries_def update_where_def list_all_iff incident_fits_def)
  moreover have "list_all (\<lambda>r. event_fits (sv_Event r)) (es_events s3)"
    using insert_events_ok[OF ev] insert_incidents_frame[OF ins] assms(2) es by (auto simp: rows_fit_def list_all_iff)
  ultimately show ?thesis by (simp add: rows_fit_def st' set_primaries_ok)
qed

lemma rows_fit_fewer: "rows_fit st \<Longrightarrow> set (es_events st') \<subseteq> set (es_events st) \<Longrightarrow> set (es_incidents st') \<subseteq> set (es_incidents st) \<Longrightarrow> rows_fit st'"
  by (auto simp: rows_fit_def list_all_iff)

lemma prune_where_subset: "set (prune_where P m n rows) \<subseteq> set rows"
  by (auto simp: prune_where_def Let_def)

lemma event_step_fits: "event_step st st' \<Longrightarrow> rows_fit st \<Longrightarrow> rows_fit st'"
proof (induction rule: event_step.induct)
  case (received env now sid b st dup st')
  then show ?case using eventBatch_fits by blast
next
  case (events_pruned before n st st')
  then show ?case using prune_where_subset by (intro rows_fit_fewer[OF events_pruned(2)]) (fastforce simp: PruneEvents_def split: if_splits)+
next
  case (batches_pruned before n st st')
  then show ?case by (intro rows_fit_fewer[OF batches_pruned(2)]) (auto simp: PruneEventBatches_def split: if_splits)
next
  case (incidents_pruned before n st st')
  then show ?case using prune_where_subset by (intro rows_fit_fewer[OF incidents_pruned(2)]) (fastforce simp: PruneIncidents_def split: if_splits)+
next
  case (server_deleted st sid)
  then show ?case by (rule rows_fit_fewer) (auto simp: forget_server_def)
next
  case (servers_changed st servers)
  then show ?case by (simp add: rows_fit_def)
qed

text \<open>C21:
  rows fit their columns. Whatever an agent sends, the texts of a stored event have at most the width of their columns, its status and its
  time are in the range of theirs, and its tags are distinct, few and short; an incident has one of the categories that the constraint of the
  table lists, a country of at most two letters, and its key, texts, status and time fit as well. What the handler does not cut is refused.
\<close>

theorem stored_rows_fit:
  assumes "event_reachable st"
  shows "rows_fit st"
  using assms
proof (induction rule: event_reachable.induct)
  case (empty st)
  then show ?case by (simp add: rows_fit_def)
qed (rule event_step_fits)

lemma stored_rows_fit_witness:
  "rows_fit some_events \<and> length (es_incidents some_events) = 2"
proof
  show "rows_fit some_events" by (rule stored_rows_fit[OF some_events_run(2)])
  show "length (es_incidents some_events) = 2" by code_simp
qed

section \<open>Events without an incident\<close>

definition server_enterprise :: "event_store \<Rightarrow> string \<Rightarrow> string" where
  "server_enterprise st serverID = (case find (\<lambda>s. srv_ID s = serverID) (es_servers st) of None \<Rightarrow> [] | Some s \<Rightarrow> srv_EnterpriseID s)"

definition unfiled :: "event_store \<Rightarrow> event_row \<Rightarrow> bool" where
  "unfiled st r \<longleftrightarrow> sv_IncidentID r = 0 \<and> list_ex (\<lambda>s. srv_ID s = sv_AgentID r) (es_servers st)"

text \<open>The columns that a pass reads.\<close>

definition candidate :: "event_row \<Rightarrow> received_event" where
  "candidate r = (sv_Event r)\<lparr>se_ClientIP := [], rx_CountryCode := []\<rparr>"

definition row_group :: "event_row \<Rightarrow> string \<times> string" where
  "row_group r = (sv_AgentID r, incidentKey (sv_Event r))"

definition backfill_group ::
  "event_env \<Rightarrow> event_row list \<Rightarrow> string \<times> string \<Rightarrow> ((string \<times> string) \<times> nat) list \<times> event_store \<Rightarrow> ((string \<times> string) \<times> nat) list \<times> event_store" where
  "backfill_group env items g acc =
     (case insertIncidentTx env (server_enterprise (snd acc) (fst g)) (fst g) (snd g)
             (map candidate (filter (\<lambda>r. row_group r = g) items)) (snd acc) of
        (i, st) \<Rightarrow> ((g, i) # fst acc, st))"

definition file_row :: "(nat \<times> nat) list \<Rightarrow> event_row \<Rightarrow> event_row" where
  "file_row ids r = (case map_of ids (sv_ID r) of None \<Rightarrow> r | Some i \<Rightarrow> if sv_IncidentID r = 0 then r\<lparr>sv_IncidentID := i\<rparr> else r)"

definition backfillSecurityIncidentBatch :: "event_env \<Rightarrow> nat \<Rightarrow> event_store \<Rightarrow> event_error + (nat \<times> event_store)" where
  "backfillSecurityIncidentBatch env limit st =
     (let items = take limit (filter (unfiled st) (es_events st))
      in if items = [] then Inr (0, st)
         else if list_ex (\<lambda>r. server_enterprise st (sv_AgentID r) = []) items then Inl NullEnterprise
         else case fold (backfill_group env items) (unique_loop (\<lambda>_. False) [] (map row_group items)) ([], st) of
             (ids, st1) \<Rightarrow>
               let st2 = st1\<lparr>es_events := map (file_row (map (\<lambda>r. (sv_ID r, the (map_of ids (row_group r)))) items)) (es_events st1)\<rparr>
               in Inr (length items, set_primaries ids st2))"

text \<open>The lock of the database keeps a second Manager out. The loop ends with an error or when nothing is left.\<close>

partial_function (option) backfill_loop :: "event_env \<Rightarrow> nat \<Rightarrow> event_store \<Rightarrow> (event_error option \<times> event_store) option" where
  "backfill_loop env limit st =
     (case backfillSecurityIncidentBatch env limit st of
        Inl e \<Rightarrow> Some (Some e, st)
      | Inr (n, st') \<Rightarrow> if n = 0 then Some (None, st') else backfill_loop env limit st')"

definition BackfillSecurityIncidents :: "event_env \<Rightarrow> bool \<Rightarrow> event_store \<Rightarrow> (event_error option \<times> event_store) option" where
  "BackfillSecurityIncidents env locked st = (if locked then backfill_loop env 1000 st else Some (None, st))"

definition numbered :: "event_store \<Rightarrow> bool" where
  "numbered st \<longleftrightarrow> incidents_ok st \<and> 0 < es_next_incident st \<and> (\<forall>i \<in> set (es_incidents st). 0 < ic_ID i)"

lemma gathers_numbered: "numbered st \<Longrightarrow> gathers st i sid key b \<Longrightarrow> 0 < i"
  by (auto simp: numbered_def gathers_def)

lemma insertIncidentTx_numbered:
  assumes "insertIncidentTx env eid sid key events st = (i, st')" "numbered st" "events \<noteq> []"
  shows "numbered st' \<and> incidents_extend st st' \<and> gathers st' i sid key (list_ex se_Blocked events)"
proof -
  have ok: "incidents_ok st' \<and> incidents_extend st st' \<and> gathers st' i sid key (list_ex se_Blocked events)"
    using insertIncidentTx_ok[OF assms(1) _ assms(3)] assms(2) by (simp add: numbered_def)
  moreover have "0 < es_next_incident st' \<and> (\<forall>i \<in> set (es_incidents st'). 0 < ic_ID i)"
    using assms(1,2) select_some[OF assms(3)]
    by (auto simp: insertIncidentTx_def numbered_def Let_def new_incident_def update_where_def split: option.splits)
  ultimately show ?thesis by (simp add: numbered_def)
qed

lemma candidate_simps [simp]: "se_Blocked (candidate r) = se_Blocked (sv_Event r)"
  by (simp add: candidate_def)

lemma backfill_fold:
  assumes "numbered st" "set gs \<subseteq> row_group ` set items"
    and "\<forall>g i. map_of ids g = Some i \<longrightarrow> gathers st i (fst g) (snd g) (list_ex (\<lambda>r. se_Blocked (sv_Event r)) (filter (\<lambda>r. row_group r = g) items))"
    and "fold (backfill_group env items) gs (ids, st) = (ids', st')"
  shows "numbered st' \<and> incidents_extend st st' \<and> es_servers st' = es_servers st \<and> fst ` set ids' = fst ` set ids \<union> set gs \<and>
    (\<forall>g i. map_of ids' g = Some i \<longrightarrow> gathers st' i (fst g) (snd g) (list_ex (\<lambda>r. se_Blocked (sv_Event r)) (filter (\<lambda>r. row_group r = g) items)))"
  using assms
proof (induction gs arbitrary: ids st)
  case Nil
  then show ?case by (auto simp: incidents_extend_refl)
next
  case (Cons g gs)
  let ?B = "\<lambda>g. list_ex (\<lambda>r. se_Blocked (sv_Event r)) (filter (\<lambda>r. row_group r = g) items)"
  let ?E = "map candidate (filter (\<lambda>r. row_group r = g) items)"
  obtain i st1 where one: "insertIncidentTx env (server_enterprise st (fst g)) (fst g) (snd g) ?E st = (i, st1)" by fastforce
  have ne: "?E \<noteq> []" using Cons.prems(2) by (auto simp: filter_empty_conv)
  have b: "list_ex se_Blocked ?E = ?B g" by (simp add: list_ex_iff)
  note st1 = insertIncidentTx_numbered[OF one Cons.prems(1) ne, unfolded b]
  have "\<forall>h j. map_of ((g, i) # ids) h = Some j \<longrightarrow> gathers st1 j (fst h) (snd h) (?B h)"
    using Cons.prems(3) st1 gathers_extend by auto
  moreover have "fold (backfill_group env items) gs ((g, i) # ids, st1) = (ids', st')" using Cons.prems(4) by (simp add: backfill_group_def[of env items g "(ids, st)"] one)
  ultimately have "numbered st' \<and> incidents_extend st1 st' \<and> es_servers st' = es_servers st1 \<and> fst ` set ids' = insert g (fst ` set ids) \<union> set gs \<and>
    (\<forall>g i. map_of ids' g = Some i \<longrightarrow> gathers st' i (fst g) (snd g) (?B g))"
    using Cons.IH[of st1 "(g, i) # ids"] Cons.prems(2) st1 by simp
  then show ?case using incidents_extend_trans st1 insertIncidentTx_frame[OF one] by auto
qed

lemma length_filter_mono: "(\<And>x. x \<in> set xs \<Longrightarrow> P x \<Longrightarrow> Q x) \<Longrightarrow> length (filter P xs) \<le> length (filter Q xs)"
  by (induction xs) (auto intro: le_SucI)

lemma filter_map_less:
  "(\<And>x. x \<in> set xs \<Longrightarrow> P (f x) \<Longrightarrow> Q x) \<Longrightarrow> \<exists>x \<in> set xs. Q x \<and> \<not> P (f x) \<Longrightarrow> length (filter P (map f xs)) < length (filter Q xs)"
proof (induction xs)
  case (Cons x xs)
  have imp: "P (f y) \<Longrightarrow> Q y" if "y \<in> set (x # xs)" for y using Cons.prems(1) that by blast
  have le: "length (filter P (map f xs)) \<le> length (filter Q xs)"
    unfolding filter_map length_map by (rule length_filter_mono) (simp add: imp)
  show ?case
  proof (cases "\<exists>x \<in> set xs. Q x \<and> \<not> P (f x)")
    case True
    have "length (filter P (map f xs)) < length (filter Q xs)" by (rule Cons.IH[OF _ True]) (simp add: imp)
    then show ?thesis using imp[of x] by auto
  next
    case False
    then have "Q x \<and> \<not> P (f x)" using Cons.prems(2) by auto
    then show ?thesis using le by simp
  qed
qed simp

definition partly_filed :: "event_store \<Rightarrow> bool" where
  "partly_filed st \<longleftrightarrow> numbered st \<and> distinct (map event_key (es_events st)) \<and> (\<forall>r \<in> set (es_events st). sv_IncidentID r \<noteq> 0 \<longrightarrow> filed st r) \<and>
     distinct (map sv_ID (es_events st))"

lemma backfill_batch_step:
  assumes "backfillSecurityIncidentBatch env limit st = Inr (n, st')" "partly_filed st" "0 < limit"
  shows "partly_filed st' \<and> es_servers st' = es_servers st \<and> map event_key (es_events st') = map event_key (es_events st) \<and>
    (if n = 0 then st' = st \<and> filter (unfiled st) (es_events st) = []
     else length (filter (unfiled st') (es_events st')) < length (filter (unfiled st) (es_events st)))"
proof (cases "take limit (filter (unfiled st) (es_events st)) = []")
  case True
  then show ?thesis using assms by (auto simp: backfillSecurityIncidentBatch_def)
next
  case False
  define items where "items = take limit (filter (unfiled st) (es_events st))"
  define gs where "gs = unique_loop (\<lambda>_. False) [] (map row_group items)"
  obtain ids st1 where f: "fold (backfill_group env items) gs ([], st) = (ids, st1)" by fastforce
  let ?file = "file_row (map (\<lambda>r. (sv_ID r, the (map_of ids (row_group r)))) items)"
  let ?st2 = "st1\<lparr>es_events := map ?file (es_events st1)\<rparr>"
  have st': "n = length items" "st' = set_primaries ids ?st2"
    using assms(1) False f by (auto simp: backfillSecurityIncidentBatch_def Let_def items_def gs_def split: if_splits)
  have gs: "set gs = row_group ` set items" by (auto simp: gs_def set_unique_loop)
  have fit: "set items \<subseteq> set (es_events st)" "distinct (map sv_ID items)" "\<And>r. r \<in> set items \<Longrightarrow> unfiled st r"
  proof -
    have "set items \<subseteq> set (filter (unfiled st) (es_events st))" unfolding items_def by (rule set_take_subset)
    then show "set items \<subseteq> set (es_events st)" "\<And>r. r \<in> set items \<Longrightarrow> unfiled st r" by auto
    show "distinct (map sv_ID items)"
      using assms(2) by (simp add: items_def partly_filed_def take_map[symmetric] distinct_map_filter)
  qed
  have num: "numbered st" using assms(2) by (simp add: partly_filed_def)
  have "numbered st1 \<and> incidents_extend st st1 \<and> es_servers st1 = es_servers st \<and> fst ` set ids = fst ` set ([] :: ((string \<times> string) \<times> nat) list) \<union> set gs \<and>
    (\<forall>g i. map_of ids g = Some i \<longrightarrow> gathers st1 i (fst g) (snd g) (list_ex (\<lambda>r. se_Blocked (sv_Event r)) (filter (\<lambda>r. row_group r = g) items)))"
    by (rule backfill_fold[OF num _ _ f]) (simp_all add: gs)
  then have run: "numbered st1" "incidents_extend st st1" "es_servers st1 = es_servers st" "fst ` set ids = set gs"
    and got: "\<And>g i. map_of ids g = Some i \<Longrightarrow> gathers st1 i (fst g) (snd g) (list_ex (\<lambda>r. se_Blocked (sv_Event r)) (filter (\<lambda>r. row_group r = g) items))"
    by (simp_all del: split_paired_All)
  have item: "gathers st1 (the (map_of ids (row_group r))) (sv_AgentID r) (incidentKey (sv_Event r)) (se_Blocked (sv_Event r))" if r: "r \<in> set items" for r
  proof -
    have "row_group r \<in> fst ` set ids" using r run(4) gs by simp
    then obtain i where i: "map_of ids (row_group r) = Some i" by (metis dom_map_of_conv_image_fst domD)
    have "se_Blocked (sv_Event r) \<Longrightarrow> list_ex (\<lambda>r. se_Blocked (sv_Event r)) (filter (\<lambda>x. row_group x = row_group r) items)"
      using r by (auto simp: list_ex_iff)
    moreover have "fst (row_group r) = sv_AgentID r" "snd (row_group r) = incidentKey (sv_Event r)" by (simp_all add: row_group_def)
    ultimately show ?thesis using got[OF i] unfolding gathers_def i option.sel by metis
  qed
  have filing: "?file r = (if r \<in> set items then r\<lparr>sv_IncidentID := the (map_of ids (row_group r))\<rparr> else r)" if r: "r \<in> set (es_events st)" for r
  proof (cases "r \<in> set items")
    case True
    have "map_of (map (\<lambda>r. (sv_ID r, the (map_of ids (row_group r)))) items) (sv_ID r) = Some (the (map_of ids (row_group r)))"
      using fit(2) True by (intro map_of_is_SomeI) (auto simp: comp_def)
    then show ?thesis using True fit(3)[OF True] by (simp add: file_row_def unfiled_def)
  next
    case no: False
    have "sv_ID r \<notin> sv_ID ` set items"
      using assms(2) r fit(1) no unfolding partly_filed_def distinct_map inj_on_def by blast
    then have "map_of (map (\<lambda>r. (sv_ID r, the (map_of ids (row_group r)))) items) (sv_ID r) = None" by (auto simp: map_of_eq_None_iff)
    then show ?thesis using no by (simp add: file_row_def)
  qed
  have events: "es_events st' = map ?file (es_events st)" using run(2) by (simp add: st' set_primaries_ok incidents_extend_def)
  have same: "sv_ID (?file r) = sv_ID r" "sv_AgentID (?file r) = sv_AgentID r" "sv_Event (?file r) = sv_Event r" for r
    by (simp_all add: file_row_def split: option.splits)
  have keep: "gathers st1 i sid key b \<Longrightarrow> gathers st' i sid key b" for i sid key b
    using gathers_extend[OF set_primaries_ok(1)[of ?st2 ids]] by (simp add: st' gathers_def)
  have filed': "filed st' (?file r)" if r: "r \<in> set (es_events st)" "sv_IncidentID (?file r) \<noteq> 0" for r
  proof (cases "r \<in> set items")
    case True
    then show ?thesis using keep[OF item[OF True]] filing[OF r(1)] same by (simp add: filed_def)
  next
    case False
    then have "filed st r" using assms(2) r filing[OF r(1)] by (simp add: partly_filed_def)
    then show ?thesis using keep gathers_extend[OF run(2)] filing[OF r(1)] False by (simp add: filed_def)
  qed
  have "numbered st'"
    using run(1) set_primaries_ok(2)[of ?st2 ids] by (auto simp: st' numbered_def incidents_ok_def set_primaries_def update_where_def)
  moreover have "map event_key (es_events st') = map event_key (es_events st)" "map sv_ID (es_events st') = map sv_ID (es_events st)"
    by (simp_all add: events event_key_def same)
  moreover have "\<forall>r \<in> set (es_events st'). sv_IncidentID r \<noteq> 0 \<longrightarrow> filed st' r" unfolding events using filed' by auto
  ultimately have "partly_filed st'" using assms(2) unfolding partly_filed_def by metis
  moreover have servers: "es_servers st' = es_servers st" by (simp add: st' set_primaries_ok run(3))
  moreover have "length (filter (unfiled st') (es_events st')) < length (filter (unfiled st) (es_events st))"
    unfolding events
  proof (rule filter_map_less)
    fix r assume "r \<in> set (es_events st)" "unfiled st' (?file r)"
    then show "unfiled st r" using filing[of r] fit(3)[of r] by (auto simp: unfiled_def servers split: if_splits)
  next
    have r: "hd items \<in> set items" using False by (intro hd_in_set) (simp add: items_def)
    have "0 < the (map_of ids (row_group (hd items)))" by (rule gathers_numbered[OF run(1) item[OF r]])
    then have "\<not> unfiled st' (?file (hd items))" using filing[of "hd items"] r fit(1) by (auto simp: unfiled_def)
    then show "\<exists>r \<in> set (es_events st). unfiled st r \<and> \<not> unfiled st' (?file r)" using r fit by blast
  qed
  moreover have "n \<noteq> 0" using st'(1) False by (simp add: items_def)
  ultimately show ?thesis using \<open>map event_key (es_events st') = map event_key (es_events st)\<close> by simp
qed

definition owned :: "event_store \<Rightarrow> bool" where
  "owned st \<longleftrightarrow> list_all (\<lambda>k. server_enterprise st (fst k) \<noteq> []) (map event_key (es_events st))"

lemma owned_frame: "map event_key (es_events st') = map event_key (es_events st) \<Longrightarrow> es_servers st' = es_servers st \<Longrightarrow> owned st' = owned st"
  by (simp only: owned_def server_enterprise_def)

lemma backfill_batch_error: "backfillSecurityIncidentBatch env limit st = Inl e \<Longrightarrow> \<not> owned st"
proof -
  assume "backfillSecurityIncidentBatch env limit st = Inl e"
  then obtain r where "r \<in> set (take limit (filter (unfiled st) (es_events st)))" "server_enterprise st (sv_AgentID r) = []"
    by (auto simp: backfillSecurityIncidentBatch_def Let_def list_ex_iff split: if_splits prod.splits)
  then have "r \<in> set (es_events st)" "server_enterprise st (fst (event_key r)) = []" by (auto dest: in_set_takeD simp: event_key_def)
  then show ?thesis by (auto simp: owned_def list_all_iff)
qed

definition backfilled :: "event_store \<Rightarrow> event_error option \<Rightarrow> event_store \<Rightarrow> bool" where
  "backfilled st e st' \<longleftrightarrow> partly_filed st' \<and> es_servers st' = es_servers st \<and> map event_key (es_events st') = map event_key (es_events st) \<and>
     (e = None \<longrightarrow> filter (unfiled st') (es_events st') = []) \<and> (owned st \<longrightarrow> e = None)"

lemma backfill_loop_ends:
  assumes "partly_filed st" "0 < limit"
  shows "\<exists>e st'. backfill_loop env limit st = Some (e, st') \<and> backfilled st e st'"
  using assms(1)
proof (induction "length (filter (unfiled st) (es_events st))" arbitrary: st rule: less_induct)
  case less
  show ?case
  proof (cases "backfillSecurityIncidentBatch env limit st")
    case (Inl e)
    then show ?thesis using less.prems backfill_batch_error by (auto simp: backfilled_def backfill_loop.simps[of env limit st])
  next
    case (Inr b)
    obtain n st1 where b: "b = (n, st1)" by fastforce
    note step = backfill_batch_step[OF Inr[unfolded b] less.prems assms(2)]
    show ?thesis
    proof (cases "n = 0")
      case True
      then show ?thesis using step less.prems Inr b by (auto simp: backfilled_def backfill_loop.simps[of env limit st])
    next
      case False
      then obtain e st' where rest: "backfill_loop env limit st1 = Some (e, st')" "backfilled st1 e st'"
        using less.hyps[of st1] step by auto
      have "owned st1 = owned st" by (rule owned_frame) (use step in simp_all)
      with rest(2) step have "backfilled st e st'" unfolding backfilled_def by simp
      then show ?thesis using rest(1) Inr b False by (simp add: backfill_loop.simps[of env limit st])
    qed
  qed
qed

lemma backfilled_ok:
  assumes "backfilled st None st'" "\<forall>r \<in> set (es_events st). list_ex (\<lambda>s. srv_ID s = sv_AgentID r) (es_servers st)"
  shows "events_ok st'"
proof -
  have "filed st' r" if r: "r \<in> set (es_events st')" for r
  proof -
    have "event_key r \<in> set (map event_key (es_events st'))" using r by simp
    then have "event_key r \<in> set (map event_key (es_events st))" using assms(1) by (simp add: backfilled_def del: set_map)
    then obtain x where "x \<in> set (es_events st)" "sv_AgentID x = sv_AgentID r" by (auto simp: event_key_def)
    then have "list_ex (\<lambda>s. srv_ID s = sv_AgentID r) (es_servers st')" using assms by (metis backfilled_def)
    then have "sv_IncidentID r \<noteq> 0" using assms(1) r by (auto simp: filter_empty_conv unfiled_def backfilled_def)
    then show ?thesis using assms(1) r by (simp add: backfilled_def partly_filed_def)
  qed
  moreover have "partly_filed st'" using assms(1) by (simp add: backfilled_def)
  ultimately show ?thesis by (simp add: events_ok_def partly_filed_def numbered_def)
qed

text \<open>C20:
  the loop that gives old events their incidents ends. However many events without an incident there are, it returns after a finite number of
  passes and keeps the events; when every server has an enterprise it reports no error and every event has its incident afterwards.
\<close>

theorem backfill_terminates:
  assumes "partly_filed st" "\<forall>r \<in> set (es_events st). list_ex (\<lambda>s. srv_ID s = sv_AgentID r) (es_servers st)"
  shows "\<exists>e st'. BackfillSecurityIncidents env True st = Some (e, st') \<and> map event_key (es_events st') = map event_key (es_events st) \<and>
    (owned st \<longrightarrow> e = None \<and> events_ok st')"
proof -
  obtain e st' where run: "backfill_loop env 1000 st = Some (e, st')" "backfilled st e st'"
    using backfill_loop_ends[OF assms(1), of 1000 env] by auto
  then have "owned st \<Longrightarrow> e = None \<and> events_ok st'" using backfilled_ok[OF _ assms(2)] by (auto simp: backfilled_def)
  with run show ?thesis by (simp add: BackfillSecurityIncidents_def backfilled_def)
qed

definition old_events :: event_store where
  "old_events = some_events\<lparr>es_events := map (\<lambda>r. r\<lparr>sv_IncidentID := 0\<rparr>) (es_events some_events), es_incidents := []\<rparr>"

definition unfiled_sample :: "event_store \<Rightarrow> bool" where
  "unfiled_sample st \<longleftrightarrow> distinct (map event_key (es_events st)) \<and> distinct (map sv_ID (es_events st)) \<and> 0 < es_next_incident st \<and>
     list_all (\<lambda>r. sv_IncidentID r = 0 \<and> sv_AgentID r = ''s'') (es_events st) \<and> list_ex (\<lambda>s. srv_ID s = ''s'') (es_servers st) \<and>
     server_enterprise st ''s'' = ''e''"

lemma backfill_terminates_witness:
  "\<exists>st'. BackfillSecurityIncidents sample_event_env True old_events = Some (None, st') \<and> events_ok st'"
proof -
  have "unfiled_sample old_events" by code_simp
  moreover have "es_incidents old_events = []" by (simp add: old_events_def)
  ultimately have "partly_filed old_events" "owned old_events" "\<forall>r \<in> set (es_events old_events). list_ex (\<lambda>s. srv_ID s = sv_AgentID r) (es_servers old_events)"
    by (auto simp: unfiled_sample_def partly_filed_def numbered_def incidents_ok_def owned_def list_all_iff event_key_def)
  then show ?thesis using backfill_terminates[of old_events sample_event_env] by blast
qed

end
