(* ===== verification/Spec2Isabelle.thy ===== *)
theory Spec2Isabelle
  imports Policy_Revision Rollout_Safety Agent_Audit Agent_Delivery Agent_Reports Fleet_Safety Tenant_Isolation Event_Rows
begin

text \<open>
  A verification development of the Manager and the Agent of a managed web application firewall, written in Go
  (\<^verbatim>\<open>src/internal\<close>). The Manager keeps a database of enterprises, servers, policies and events; it derives configurations
  from system policies and an author's settings, renders them as signed artifacts, rolls them out in stages and receives the
  events that servers detect. An Agent on every server fetches its desired state, applies policies with a rollback, installs
  packages, executes fixed commands and forwards the audit log of the web server. Manager and Agent meet in the desired
  state, the heartbeats and reports, and the batches of events; the operators meet the Manager in the console.

  The theories, each of which opens with a description of its own.

  \<^item> \<open>Prelude\<close> and \<open>Paths\<close>: strings, sorting and paths of the standard library, as the program uses them.
  \<^item> Policies. \<open>Rule_Text\<close> and \<open>Policy_Settings\<close> (\<^verbatim>\<open>manager/policy_config.go\<close>): what an author may write, and the settings.
    \<open>System_Policy\<close> (\<^verbatim>\<open>systempolicy/\<close>): the built-in templates. \<open>Policy_Configuration\<close> and \<open>Policy_Structured\<close>
    (\<^verbatim>\<open>manager/policy_configuration.go\<close>, \<^verbatim>\<open>policy_mutation.go\<close>): the structured configuration, its validation, its derivation
    from a template and settings, and the check against an indexed rule set. \<open>Policy_Bundle\<close> (\<^verbatim>\<open>policybundle/bundle.go\<close>):
    the archives, written and parsed. \<open>Policy_Delivery\<close> (\<^verbatim>\<open>manager/policy_delivery.go\<close>) and \<open>Policy_Revision\<close>
    (\<^verbatim>\<open>manager/system_policy_sync.go\<close>): the pair of artifacts of a split policy, and the preparation of a revision.
  \<^item> Rollouts. \<open>Rollout_Store\<close> (\<^verbatim>\<open>manager/store_policy_domains.go\<close>, \<^verbatim>\<open>store_policy_membership.go\<close>): the transactions, over the
    record \<open>database\<close> with one list of rows per table. \<open>Rollout\<close> (\<^verbatim>\<open>manager/system_policy_sync.go\<close>): a pass of the engine.
    \<open>Rollout_Invariants\<close>: the step relation of all operations on rollouts and what they keep. \<open>Rollout_Safety\<close>: the
    properties.
  \<^item> The fleet. \<open>Tenancy\<close> (\<^verbatim>\<open>manager/store_identity.go\<close>, \<^verbatim>\<open>store_enterprise_lifecycle.go\<close>, \<^verbatim>\<open>store_install_tokens.go\<close>): enterprises,
    accounts and tokens, over the record \<open>fleet\<close> that contains the database. \<open>Fleet\<close> (\<^verbatim>\<open>manager/store.go\<close>,
    \<^verbatim>\<open>store_operations.go\<close>, \<^verbatim>\<open>agent_operations.go\<close>, \<^verbatim>\<open>ca.go\<close>): servers, certificates, commands and results. \<open>Fleet_Steps\<close> and
    \<open>Fleet_Safety\<close>: the state machine of these operations together with those of the rollouts, and its invariants.
  \<^item> The console. \<open>Access\<close> (\<^verbatim>\<open>manager/identity.go\<close>, \<^verbatim>\<open>session.go\<close>, middleware of \<^verbatim>\<open>server.go\<close>): passwords, sessions, limiters and the
    scope of a request. \<open>Tenant_Isolation\<close> (\<^verbatim>\<open>manager/admin_identity_handlers.go\<close> and its neighbours): the operations a
    session of an enterprise can start, and the rows of other enterprises.
  \<^item> Events in the Manager. \<open>Events\<close> (\<^verbatim>\<open>manager/server.go\<close>, \<^verbatim>\<open>incidents.go\<close>, \<^verbatim>\<open>store_incidents.go\<close>, \<^verbatim>\<open>store.go\<close>, \<^verbatim>\<open>geoip.go\<close>): batches,
    incidents and pruning, over the record \<open>event_store\<close>. \<open>Event_Rows\<close>: the columns of the rows and the repair of old events.
  \<^item> Packages. \<open>Package_Model\<close> (\<^verbatim>\<open>model/model.go\<close>) and \<open>Package_Catalog\<close> (\<^verbatim>\<open>packages/catalog.go\<close>): the signed bundle and what the
    Manager serves from it.
  \<^item> The Agent. \<open>Agent_Policy\<close> (\<^verbatim>\<open>agent/policy.go\<close>): applying a policy over an explicit file system. \<open>Agent_Control\<close>
    (\<^verbatim>\<open>agent/agent.go\<close>, \<^verbatim>\<open>operations.go\<close>): one cycle. \<open>Agent_Audit\<close> (\<^verbatim>\<open>agent/audit.go\<close>, \<^verbatim>\<open>spool.go\<close>): reading and sending the log.
    \<open>Agent_Delivery\<close>: the desired state from the database to the agent. \<open>Agent_Reports\<close>: what reports and
    heartbeats may be believed.

  How state and effects are modelled. A transaction is a function from a database to an error or the new database, so that
  every error and every early return is a rollback. Operations that commit in several transactions return the state they leave
  beside their error. \<^verbatim>\<open>RowsAffected\<close> counts the rows that an update changes, as the driver does without \<^verbatim>\<open>clientFoundRows\<close>. The
  agent's calls of the operating system and of the Manager take their result from a list of outcomes, over which the theorems
  quantify: every failure and every crash between two calls is such a list. Go's \<^verbatim>\<open>int\<close> is an \<^typ>\<open>int\<close>, and the bounds of
  64 bits are written out where text is converted. Random identifiers are numbered draws; the clock is an argument.

  What the lemmas show. Policies: validation and parsing accept exactly what is safe, and every revision that is prepared is
  validated, signed as written and accepted by the agent (\<open>Policy_Revision\<close>, \<open>Agent_Delivery\<close>). Rollouts: the stages are kept in
  every reachable database, the canary goes first and must pass its gate; the exceptions, a server that is deleted, a legacy
  policy that is converted, a failed canary and a retry, are stated as theorems of their own. Fleet: the end of an enterprise
  is final, tokens and sessions are spent once, a server has one open command, an enterprise keeps an administrator and
  reaches no row of another one. Agent: applying is all or nothing, reports are truthful, deployments and commands run once
  per failure that the run contains. Events: over a growing log none before the position of the agent is lost, and
  each is stored once with its incident.

  The interfaces between the parts are locales: \<open>layout_kept\<close> and \<open>starts_at_most\<close> for the transactions of rollouts,
  \<open>marked_once\<close> for what an agent does once, \<open>sort_order\<close> and \<open>version_order\<close> for what is sorted, \<open>id_reservation\<close> for the loops
  that check identifiers; each is interpreted on the
  definitions of the program. Contracts of code outside the repository are named hypotheses with a concrete instance:
  \<open>codec_ok\<close> for archives and JSON, \<open>access_env_ok\<close> for keyed hashes and encodings, \<open>agent_codec_ok\<close> for the agent's files.

  Bounds. No operation runs on fuel. The loops of the code are structural recursion over lists, or have a termination proof;
  \<open>backfill_loop\<close>, which ends when a query finds nothing, is a partial function that is proved to return.

  What is not modelled. Two transactions do not interleave: each has the locks it takes in the code, and the isolation between
  them is that of the database. Failures of the connection to the database leave the state of the last commit, as an error
  does. Comparisons of the database are equality: its collation ignores case and trailing spaces. A Go map that the code
  iterates has the order of insertion. The rates of the canary gate are rational numbers in place of \<^verbatim>\<open>float64\<close>. The histories of
  the audit log are those of one file that grows: rotation and truncation are handled by the reader of the model as in the
  code, but the theorems on delivery do not cover them. A \<^verbatim>\<open>desired-state.json\<close> that exists is readable. The texts of errors,
  reports and audit records, the pages of the console and their listing queries, server groups, HTTP and TLS, the inventory of a
  host, the checks on hook files and the contents of module archives, configuration files and command line tools, the
  download and indexing of the upstream rule set, reporting queries and the progress of a bootstrap are left out. The backfill
  of policies at the start of the Manager appears as the policies it adds.
\<close>

end
